(* ===== verification/Uhc_Prelude.thy ===== *)
theory Uhc_Prelude
  imports Complex_Main "HOL-Library.Word" "HOL-Library.AList" "HOL-Library.List_Lexorder"
    "HOL-Library.Char_ord" "HOL-Library.Product_Lexorder"
begin

text \<open>
  Shared vocabulary of the development: the machine-integer types of the Rust sources, the
  saturating increment they use for revisions, the string operations of the standard library
  that the code calls (\<open>starts_with\<close>, \<open>strip_prefix\<close>, \<open>split\<close>, \<open>split_once\<close>), and the two map
  types: \<open>HashMap\<close> as an association list with an arbitrary iteration order, \<open>BTreeMap\<close> as one
  sorted by key. Both meet the interface \<open>map_ops\<close>, whose consequences are proved once.
\<close>

named_theorems frame_simps \<open>frame equations: what an operation leaves unchanged\<close>

section \<open>Machine integers\<close>

type_synonym u8 = "8 word"
type_synonym u16 = "16 word"
type_synonym u32 = "32 word"
type_synonym u64 = "64 word"
type_synonym i64 = "64 word"

text \<open>\<open>saturating_add(1)\<close>: the maximum stays where it is.\<close>

definition sat_succ :: "'a::len word \<Rightarrow> 'a word" where
  "sat_succ x = (if x = - 1 then x else x + 1)"

lemma unat_sat_succ: "x \<noteq> - 1 \<Longrightarrow> unat (sat_succ x) = Suc (unat x)"
  by (metis add.commute add_eq_0_iff sat_succ_def unatSuc)

lemma sat_succ_gt: "x \<noteq> - 1 \<Longrightarrow> x < sat_succ x"
  by (simp add: word_less_nat_alt unat_sat_succ)

lemma sat_succ_ge [simp, intro]: "x \<le> sat_succ x"
  by (cases "x = - 1") (simp add: sat_succ_def, simp add: sat_succ_gt order.strict_implies_order)

lemma sat_succ_max [simp]: "sat_succ (- 1) = (- 1 :: 'a::len word)"
  by (simp add: sat_succ_def)

lemma less_sat_succ_iff: "x < sat_succ y \<longleftrightarrow> (if y = - 1 then x < y else x \<le> y)"
proof (cases "y = - 1")
  case False
  then have "unat (sat_succ y) = Suc (unat y)" by (rule unat_sat_succ)
  with False show ?thesis by (simp add: word_less_nat_alt word_le_nat_alt less_Suc_eq_le)
qed (simp add: sat_succ_def)

text \<open>The unchecked \<open>+= 1\<close> of a release build wraps at the top of the type.\<close>

lemma wrap_succ_gt: "x \<noteq> - 1 \<Longrightarrow> x < x + (1 :: 'a::len word)"
  using sat_succ_gt [of x] by (simp add: sat_succ_def)

section \<open>Strings\<close>

text \<open>A Rust string is its UTF-8 bytes; a HOL \<open>string\<close> is a list of bytes.\<close>

definition starts_with :: "string \<Rightarrow> string \<Rightarrow> bool" where
  "starts_with s p \<longleftrightarrow> take (length p) s = p"

definition strip_prefix :: "string \<Rightarrow> string \<Rightarrow> string option" where
  "strip_prefix s p = (if starts_with s p then Some (drop (length p) s) else None)"

lemma starts_with_append [simp]: "starts_with (p @ s) p"
  by (simp add: starts_with_def)

lemma starts_with_iff: "starts_with s p \<longleftrightarrow> (\<exists>r. s = p @ r)"
  by (metis append_eq_conv_conj append_take_drop_id starts_with_def)

lemma strip_prefix_Some_iff: "strip_prefix s p = Some r \<longleftrightarrow> s = p @ r"
  by (auto simp: strip_prefix_def starts_with_iff)

text \<open>\<open>str::split(c)\<close>: the pieces between separators, at least one.\<close>

fun split_on :: "char \<Rightarrow> string \<Rightarrow> string list" where
  "split_on c [] = [[]]"
| "split_on c (x # xs) =
     (if x = c then [] # split_on c xs
      else case split_on c xs of [] \<Rightarrow> [[x]] | p # ps \<Rightarrow> (x # p) # ps)"

lemma split_on_nonempty [simp]: "split_on c s \<noteq> []"
  by (cases s) (auto split: list.splits)

lemma split_on_no_sep: "c \<notin> set s \<Longrightarrow> split_on c s = [s]"
  by (induction s) auto

lemma split_on_append: "c \<notin> set p \<Longrightarrow> split_on c (p @ c # s) = p # split_on c s"
  by (induction p) auto

lemma split_on_pieces: "p \<in> set (split_on c s) \<Longrightarrow> c \<notin> set p"
  by (induction s arbitrary: p) (auto split: list.splits if_splits)

text \<open>\<open>str::split_once(c)\<close>: before and after the first separator.\<close>

fun split_once :: "char \<Rightarrow> string \<Rightarrow> (string \<times> string) option" where
  "split_once c [] = None"
| "split_once c (x # xs) =
     (if x = c then Some ([], xs)
      else case split_once c xs of None \<Rightarrow> None | Some (a, b) \<Rightarrow> Some (x # a, b))"

lemma split_once_Some_iff:
  "split_once c s = Some (a, b) \<longleftrightarrow> s = a @ c # b \<and> c \<notin> set a"
proof (induction s arbitrary: a)
  case (Cons x xs)
  show ?case
  proof (cases "x = c")
    case False
    have "split_once c (x # xs) = Some (a, b) \<longleftrightarrow>
        (\<exists>a'. a = x # a' \<and> split_once c xs = Some (a', b))"
      using False by (auto split: option.splits)
    also have "\<dots> \<longleftrightarrow> x # xs = a @ c # b \<and> c \<notin> set a"
      using False Cons.IH by (cases a) auto
    finally show ?thesis .
  qed (cases a; auto)
qed simp

lemma split_once_None_iff: "split_once c s = None \<longleftrightarrow> c \<notin> set s"
  by (induction s) (auto split: option.splits)

text \<open>ASCII lower-casing of a byte, as in \<open>to_ascii_lowercase\<close>.\<close>

definition lower_char :: "char \<Rightarrow> char" where
  "lower_char c = (let n = of_char c :: nat in if 65 \<le> n \<and> n \<le> 90 then char_of (n + 32) else c)"

definition lower :: "string \<Rightarrow> string" where
  "lower = map lower_char"

definition is_ascii_digit :: "char \<Rightarrow> bool" where
  "is_ascii_digit c \<longleftrightarrow> (48 :: nat) \<le> of_char c \<and> of_char c \<le> (57 :: nat)"

text \<open>
  \<open>trim().is_empty()\<close>: nothing but Unicode white space, read off the UTF-8 bytes.
\<close>

fun blank_bytes :: "nat list \<Rightarrow> bool" where
  "blank_bytes [] = True"
| "blank_bytes [b] = (9 \<le> b \<and> b \<le> 13 \<or> b = 32)"
| "blank_bytes [b, c] =
     (if 9 \<le> b \<and> b \<le> 13 \<or> b = 32 then blank_bytes [c] else b = 194 \<and> c \<in> {133, 160})"
| "blank_bytes (b # c # d # bs) =
     (if 9 \<le> b \<and> b \<le> 13 \<or> b = 32 then blank_bytes (c # d # bs)
      else if b = 194 \<and> c \<in> {133, 160} then blank_bytes (d # bs)
      else if b = 225 \<and> c = 154 \<and> d = 128 \<or> b = 226 \<and> c = 128 \<and> (128 \<le> d \<and> d \<le> 138 \<or> d \<in> {168, 169, 175})
        \<or> b = 226 \<and> c = 129 \<and> d = 159 \<or> b = 227 \<and> c = 128 \<and> d = 128
      then blank_bytes bs
      else False)"

definition is_blank :: "string \<Rightarrow> bool" where
  "is_blank s = blank_bytes (map of_char s)"

section \<open>Maps\<close>

text \<open>
  The interface the components use: a lookup, an insertion that overwrites, a removal, and the
  enumeration of the entries. \<open>entries\<close> lists each live binding once.
\<close>

locale map_ops =
  fixes empty_map :: "'m"
    and lookup :: "'m \<Rightarrow> 'k \<Rightarrow> 'v option"
    and insert_map :: "'k \<Rightarrow> 'v \<Rightarrow> 'm \<Rightarrow> 'm"
    and remove_map :: "'k \<Rightarrow> 'm \<Rightarrow> 'm"
    and entries :: "'m \<Rightarrow> ('k \<times> 'v) list"
    and wf_map :: "'m \<Rightarrow> bool"
  assumes lookup_empty: "lookup empty_map k = None"
    and lookup_insert: "lookup (insert_map k v m) k' = (if k' = k then Some v else lookup m k')"
    and lookup_remove: "lookup (remove_map k m) k' = (if k' = k then None else lookup m k')"
    and entries_lookup: "wf_map m \<Longrightarrow> (k, v) \<in> set (entries m) \<longleftrightarrow> lookup m k = Some v"
    and wf_empty: "wf_map empty_map"
    and wf_insert: "wf_map m \<Longrightarrow> wf_map (insert_map k v m)"
    and wf_remove: "wf_map m \<Longrightarrow> wf_map (remove_map k m)"
begin

definition remove_all :: "'k list \<Rightarrow> 'm \<Rightarrow> 'm" where
  "remove_all ks m = fold remove_map ks m"

lemma lookup_remove_all:
  "lookup (remove_all ks m) k = (if k \<in> set ks then None else lookup m k)"
  unfolding remove_all_def by (induction ks arbitrary: m) (auto simp: lookup_remove)

lemma wf_remove_all: "wf_map m \<Longrightarrow> wf_map (remove_all ks m)"
  unfolding remove_all_def by (induction ks arbitrary: m) (auto simp: wf_remove)

lemma insert_same: "lookup (insert_map k v m) k = Some v"
  by (simp add: lookup_insert)

lemma removed_stays_absent:
  "k' \<noteq> k \<Longrightarrow> lookup m k = None \<Longrightarrow> lookup (insert_map k' v m) k = None"
  by (simp add: lookup_insert)

end

text \<open>\<open>std::collections::HashMap\<close>: unordered; the list is one iteration order of it.\<close>

definition hm_insert :: "'k \<Rightarrow> 'v \<Rightarrow> ('k \<times> 'v) list \<Rightarrow> ('k \<times> 'v) list" where
  "hm_insert = AList.update"

definition hm_remove :: "'k \<Rightarrow> ('k \<times> 'v) list \<Rightarrow> ('k \<times> 'v) list" where
  "hm_remove = AList.delete"

definition hm_wf :: "('k \<times> 'v) list \<Rightarrow> bool" where
  "hm_wf m \<longleftrightarrow> distinct (map fst m)"

lemma map_of_hm_insert [simp]: "map_of (hm_insert k v m) = (map_of m)(k \<mapsto> v)"
  by (simp add: hm_insert_def update_conv')

lemma map_of_hm_remove [simp]: "map_of (hm_remove k m) = (map_of m)(k := None)"
  by (simp add: hm_remove_def delete_conv')

lemma hm_wf_insert [simp, intro]: "hm_wf m \<Longrightarrow> hm_wf (hm_insert k v m)"
  by (simp add: hm_wf_def hm_insert_def distinct_update)

lemma hm_wf_remove [simp, intro]: "hm_wf m \<Longrightarrow> hm_wf (hm_remove k m)"
  by (simp add: hm_wf_def hm_remove_def distinct_delete)

lemma hm_wf_Nil [simp]: "hm_wf []"
  by (simp add: hm_wf_def)

lemma hm_entries: "hm_wf m \<Longrightarrow> (k, v) \<in> set m \<longleftrightarrow> map_of m k = Some v"
  by (simp add: hm_wf_def)

interpretation hm: map_ops "[]" map_of hm_insert hm_remove "\<lambda>m. m" hm_wf
  by unfold_locales (simp_all add: hm_entries)

text \<open>\<open>get_mut(k)\<close> followed by writes through the reference, \<open>values_mut\<close>, and \<open>retain\<close>.\<close>

definition hm_modify :: "'k \<Rightarrow> ('v \<Rightarrow> 'v) \<Rightarrow> ('k \<times> 'v) list \<Rightarrow> ('k \<times> 'v) list" where
  "hm_modify k f m = map (\<lambda>(k', v). (k', if k' = k then f v else v)) m"

definition hm_modify_all :: "('v \<Rightarrow> 'v) \<Rightarrow> ('k \<times> 'v) list \<Rightarrow> ('k \<times> 'v) list" where
  "hm_modify_all f m = map (\<lambda>(k, v). (k, f v)) m"

definition hm_retain :: "('k \<Rightarrow> bool) \<Rightarrow> ('k \<times> 'v) list \<Rightarrow> ('k \<times> 'v) list" where
  "hm_retain P m = filter (\<lambda>(k, v). P k) m"

lemma map_of_hm_modify [simp]:
  "map_of (hm_modify k f m) k' = (if k' = k then map_option f (map_of m k) else map_of m k')"
  by (induction m) (auto simp: hm_modify_def)

lemma map_of_hm_modify_all [simp]: "map_of (hm_modify_all f m) k = map_option f (map_of m k)"
  by (induction m) (auto simp: hm_modify_all_def)

lemma map_of_hm_retain [simp]: "map_of (hm_retain P m) k = (if P k then map_of m k else None)"
  by (induction m) (auto simp: hm_retain_def)

lemma keys_hm_modify [simp]: "map fst (hm_modify k f m) = map fst m"
  by (simp add: hm_modify_def case_prod_beta comp_def)

lemma keys_hm_modify_all [simp]: "map fst (hm_modify_all f m) = map fst m"
  by (simp add: hm_modify_all_def case_prod_beta comp_def)

lemma hm_wf_modify [simp]:
  "hm_wf (hm_modify k f m) = hm_wf m" "hm_wf (hm_modify_all f m) = hm_wf m"
  by (simp_all add: hm_wf_def)

lemma hm_wf_retain [simp, intro]: "hm_wf m \<Longrightarrow> hm_wf (hm_retain P m)"
  unfolding hm_wf_def hm_retain_def by (rule distinct_map_filter)

lemma set_hm_remove: "set (hm_remove k m) \<subseteq> set m"
  by (auto simp: hm_remove_def AList.delete_eq)

lemma set_hm_insert: "hm_wf m \<Longrightarrow> set (hm_insert k v m) = insert (k, v) {e \<in> set m. fst e \<noteq> k}"
proof (intro set_eqI, goal_cases)
  case (1 e)
  then have "e \<in> set (hm_insert k v m) \<longleftrightarrow> map_of (hm_insert k v m) (fst e) = Some (snd e)"
    by (metis hm_entries hm_wf_insert prod.collapse)
  also have "\<dots> \<longleftrightarrow> e \<in> insert (k, v) {e \<in> set m. fst e \<noteq> k}"
    using 1 by (cases e) (auto simp: hm_entries)
  finally show ?case .
qed

lemma map_of_filter_value:
  "hm_wf m \<Longrightarrow> map_of (filter (\<lambda>e. P (snd e)) m) k =
     (case map_of m k of None \<Rightarrow> None | Some v \<Rightarrow> if P v then Some v else None)"
proof (induction m)
  case (Cons e m)
  have "fst e \<notin> fst ` set (filter (\<lambda>e. P (snd e)) m)" using Cons.prems by (auto simp: hm_wf_def)
  then have "map_of (filter (\<lambda>e. P (snd e)) m) (fst e) = None" by (simp add: map_of_eq_None_iff)
  then show ?case using Cons by (auto simp: hm_wf_def split: option.splits)
qed simp

lemma hm_insert_fresh: "map_of m k = None \<Longrightarrow> hm_insert k v m = m @ [(k, v)]"
  by (induction m) (auto simp: hm_insert_def split: if_splits)

lemma hm_insert_new: "k \<notin> fst ` set m \<Longrightarrow> hm_insert k v m = m @ [(k, v)]"
  by (simp add: hm_insert_fresh map_of_eq_None_iff)

lemma set_hm_insert_sub: "set (hm_insert k v m) \<subseteq> insert (k, v) (set m)"
  by (induction m) (auto simp: hm_insert_def)

lemma length_hm_insert_in: "k \<in> fst ` set m \<Longrightarrow> length (hm_insert k v m) = length m"
  by (induction m) (auto simp: hm_insert_def)

lemma hm_insert_twice: "hm_insert k v (hm_insert k u m) = hm_insert k v m"
  by (induction m) (auto simp: hm_insert_def)

lemma length_hm_remove: "k \<in> fst ` set m \<Longrightarrow> length (hm_remove k m) < length m"
  unfolding hm_remove_def AList.delete_eq by (rule length_filter_less [of "(k, the (map_of m k))"])
    (auto dest!: weak_map_of_SomeI intro: map_of_SomeD)

lemma length_hm_remove_wf: "hm_wf m \<Longrightarrow> k \<in> fst ` set m \<Longrightarrow> length m = Suc (length (hm_remove k m))"
proof (induction m)
  case (Cons x m)
  show ?case
  proof (cases "fst x = k")
    case True
    with Cons.prems have "hm_remove k m = m"
      by (auto simp: hm_remove_def hm_wf_def AList.delete_eq filter_id_conv image_iff)
    with True show ?thesis by (cases x) (simp add: hm_remove_def)
  next
    case False
    with Cons show ?thesis by (cases x) (auto simp: hm_remove_def hm_wf_def)
  qed
qed simp

text \<open>\<open>std::collections::BTreeMap\<close>: sorted by key.\<close>

fun bt_insert :: "'k::linorder \<Rightarrow> 'v \<Rightarrow> ('k \<times> 'v) list \<Rightarrow> ('k \<times> 'v) list" where
  "bt_insert k v [] = [(k, v)]"
| "bt_insert k v ((k', v') # m) =
     (if k < k' then (k, v) # (k', v') # m
      else if k = k' then (k, v) # m
      else (k', v') # bt_insert k v m)"

definition bt_remove :: "'k \<Rightarrow> ('k \<times> 'v) list \<Rightarrow> ('k \<times> 'v) list" where
  "bt_remove k m = filter (\<lambda>kv. fst kv \<noteq> k) m"

definition bt_wf :: "('k::linorder \<times> 'v) list \<Rightarrow> bool" where
  "bt_wf m \<longleftrightarrow> sorted_wrt (<) (map fst m)"

lemma map_of_bt_insert [simp]: "map_of (bt_insert k v m) = (map_of m)(k \<mapsto> v)"
  by (induction m rule: bt_insert.induct [of _ k v for k v]) (auto simp: fun_eq_iff)

lemma map_of_bt_remove [simp]: "map_of (bt_remove k m) = (map_of m)(k := None)"
  by (induction m) (auto simp: bt_remove_def fun_eq_iff)

lemma set_keys_bt_insert: "fst ` set (bt_insert k v m) = insert k (fst ` set m)"
  by (induction k v m rule: bt_insert.induct) auto

lemma bt_wf_insert [simp, intro]: "bt_wf m \<Longrightarrow> bt_wf (bt_insert k v m)"
proof (induction k v m rule: bt_insert.induct)
  case (2 k v k' v' m)
  have "\<forall>x \<in> set (bt_insert k v m). fst x = k \<or> fst x \<in> fst ` set m"
    using set_keys_bt_insert [of k v m] by blast
  with 2 show ?case by (fastforce simp: bt_wf_def)
qed (simp add: bt_wf_def)

lemma bt_wf_remove [simp, intro]: "bt_wf m \<Longrightarrow> bt_wf (bt_remove k m)"
  unfolding bt_wf_def bt_remove_def by (induction m) (auto simp: sorted_wrt_map)

lemma bt_wf_Nil [simp]: "bt_wf []"
  by (simp add: bt_wf_def)

lemma bt_wf_distinct: "bt_wf m \<Longrightarrow> distinct (map fst m)"
  unfolding bt_wf_def by (simp only: strict_sorted_iff)

lemma bt_entries: "bt_wf m \<Longrightarrow> (k, v) \<in> set m \<longleftrightarrow> map_of m k = Some v"
  by (simp add: bt_wf_distinct)

interpretation bt: map_ops "[]" map_of bt_insert bt_remove "\<lambda>m. m" bt_wf
  by unfold_locales (simp_all add: bt_entries)

text \<open>Two sorted maps with the same lookups are the same list.\<close>

lemma bt_wf_extensional:
  assumes "bt_wf m" "bt_wf m'" "map_of m = map_of m'"
  shows "m = m'"
proof -
  have d: "distinct (map fst m)" "distinct (map fst m')"
    using assms bt_wf_distinct by blast+
  have "set m = set m'"
    using d assms(3) by (metis map_of_inject_set)
  moreover have "sorted (map fst m)" "sorted (map fst m')"
    using assms(1,2) by (auto simp: bt_wf_def strict_sorted_iff)
  ultimately show ?thesis
    using d by (intro map_sorted_distinct_set_unique [where f = fst])
      (auto simp: distinct_map)
qed

section \<open>The first of several checks\<close>

text \<open>A loop that returns the first defect it meets.\<close>

fun first_some :: "('a \<Rightarrow> 'b option) \<Rightarrow> 'a list \<Rightarrow> 'b option" where
  "first_some f [] = None"
| "first_some f (x # xs) = (case f x of Some y \<Rightarrow> Some y | None \<Rightarrow> first_some f xs)"

lemma first_some_None_iff [simp]: "first_some f xs = None \<longleftrightarrow> (\<forall>x \<in> set xs. f x = None)"
  by (induction xs) (auto split: option.splits)

lemma first_some_Some: "first_some f xs = Some y \<Longrightarrow> \<exists>x \<in> set xs. f x = Some y"
  by (induction xs) (auto split: option.splits)

text \<open>\<open>Iterator::min_by_key\<close>: the first of the minimal entries in iteration order.\<close>

fun min_by_key :: "('a \<Rightarrow> 'k::linorder) \<Rightarrow> 'a list \<Rightarrow> 'a option" where
  "min_by_key f [] = None"
| "min_by_key f (x # xs) =
     (case min_by_key f xs of
        None \<Rightarrow> Some x
      | Some y \<Rightarrow> if f y < f x then Some y else Some x)"

lemma min_by_key_mem: "min_by_key f xs = Some x \<Longrightarrow> x \<in> set xs"
  by (induction xs arbitrary: x) (auto split: option.splits if_splits)

lemma min_by_key_None [simp]: "min_by_key f xs = None \<longleftrightarrow> xs = []"
  by (induction xs) (auto split: option.splits if_splits)

lemma min_by_key_le: "min_by_key f xs = Some x \<Longrightarrow> y \<in> set xs \<Longrightarrow> f x \<le> f y"
  by (induction xs arbitrary: x y) (fastforce split: option.splits if_splits)+

section \<open>Components driven by events\<close>

text \<open>
  A component whose state changes only through \<open>step\<close>. \<open>inv\<close> is what every step keeps, \<open>le\<close> what
  every step may only increase. Both then hold over whole runs, whatever the interleaving.
\<close>

locale event_system =
  fixes step :: "'s \<Rightarrow> 'e \<Rightarrow> 's"
    and inv :: "'s \<Rightarrow> bool"
    and le :: "'s \<Rightarrow> 's \<Rightarrow> bool"
  assumes inv_step: "inv s \<Longrightarrow> inv (step s e)"
    and le_refl: "le s s"
    and le_trans: "le s t \<Longrightarrow> le t u \<Longrightarrow> le s u"
    and le_step: "inv s \<Longrightarrow> le s (step s e)"
begin

lemma inv_run: "inv s \<Longrightarrow> inv (foldl step s es)"
  by (induction es arbitrary: s) (simp_all add: inv_step)

lemma le_run: "inv s \<Longrightarrow> le s (foldl step s es)"
proof (induction es arbitrary: s)
  case (Cons e es)
  have "le (step s e) (foldl step (step s e) es)" using Cons inv_step by blast
  with le_step [OF Cons.prems, of e] show ?case by (simp add: le_trans)
qed (simp add: le_refl)

lemma le_run_prefix: "inv s \<Longrightarrow> le (foldl step s es) (foldl step s (es @ fs))"
  using le_run [OF inv_run [of s es]] by simp

text \<open>What no step can undo holds at the end of a run once it held somewhere in it.\<close>

lemma stable_run:
  assumes "\<And>s e. inv s \<Longrightarrow> P s \<Longrightarrow> P (step s e)"
  shows "inv s \<Longrightarrow> P s \<Longrightarrow> P (foldl step s es)"
  by (induction es arbitrary: s) (auto simp: inv_step assms)

end

end
