(* ===== verification/Vocab.thy ===== *)
theory Vocab
  imports Uhc_Prelude
begin

text \<open>
  The forward-compatible vocabularies of \<open>src/adaptive\<close>. The macro \<open>semantic_enum!\<close>
  (\<open>src/adaptive/vocab.rs\<close>) generates, for each enumeration, one variant per member and
  \<open>Unrecognized(String)\<close>, with \<open>as_str\<close>, \<open>is_recognized\<close> and \<open>From<&str>\<close>. Each expansion is
  written out here: the datatype, its wire table (\<open>known()\<close> zipped with \<open>KNOWN_WIRE\<close>), and the
  three functions. What the macro promises of every expansion is the locale \<open>semantic_vocab\<close>,
  interpreted at each of the 26 vocabularies.
\<close>

section \<open>What the macro promises\<close>

locale semantic_vocab =
  fixes table :: "(string \<times> 'v) list"
    and unrecognized :: "string \<Rightarrow> 'v"
    and as_str :: "'v \<Rightarrow> string"
    and from_str :: "string \<Rightarrow> 'v"
    and recognized :: "'v \<Rightarrow> bool"
  assumes wires_distinct: "distinct (map fst table)"
    and as_str_known: "(w, v) \<in> set table \<Longrightarrow> as_str v = w"
    and as_str_unrecognized: "as_str (unrecognized s) = s"
    and from_str_eq: "from_str s = (case map_of table s of Some v \<Rightarrow> v | None \<Rightarrow> unrecognized s)"
    and recognized_iff: "recognized v \<longleftrightarrow> v \<in> snd ` set table"
    and unrecognized_or_known: "\<not> recognized v \<Longrightarrow> \<exists>s. v = unrecognized s"
    and unrecognized_not_recognized: "\<not> recognized (unrecognized s)"
begin

text \<open>An unknown member keeps its spelling: reading a wire value and writing it back is lossless.\<close>

lemma as_str_from_str: "as_str (from_str s) = s"
  by (auto simp: from_str_eq as_str_unrecognized split: option.splits
      dest!: map_of_SomeD as_str_known)

lemma from_str_as_str_known: "recognized v \<Longrightarrow> from_str (as_str v) = v"
proof -
  assume "recognized v"
  then obtain w where w: "(w, v) \<in> set table" by (auto simp: recognized_iff)
  then have "map_of table w = Some v" using wires_distinct by simp
  with w show ?thesis by (simp add: as_str_known from_str_eq)
qed

text \<open>A wire value is recognized exactly when it is one of the known spellings.\<close>

lemma recognized_from_str: "recognized (from_str s) \<longleftrightarrow> s \<in> fst ` set table"
proof (cases "map_of table s")
  case None
  then have "s \<notin> fst ` set table" by (simp add: map_of_eq_None_iff)
  with None show ?thesis by (simp add: from_str_eq unrecognized_not_recognized)
next
  case (Some v)
  then have "(s, v) \<in> set table" by (rule map_of_SomeD)
  with Some show ?thesis by (force simp: from_str_eq recognized_iff)
qed

lemma from_str_inj: "from_str s = from_str t \<Longrightarrow> s = t"
  by (metis as_str_from_str)

lemma from_str_as_str:
  "from_str (as_str v) = v \<longleftrightarrow> recognized v \<or> as_str v \<notin> fst ` set table"
proof
  assume "from_str (as_str v) = v"
  then show "recognized v \<or> as_str v \<notin> fst ` set table"
    using recognized_from_str [of "as_str v"] by simp
next
  assume "recognized v \<or> as_str v \<notin> fst ` set table"
  then show "from_str (as_str v) = v"
  proof
    assume n: "as_str v \<notin> fst ` set table"
    then have "\<not> recognized v"
      by (force simp: recognized_iff dest: as_str_known)
    then obtain s where "v = unrecognized s" using unrecognized_or_known by blast
    with n show ?thesis
      by (simp add: from_str_eq as_str_unrecognized map_of_eq_None_iff [THEN iffD2])
  qed (rule from_str_as_str_known)
qed

end

section \<open>The vocabularies\<close>

subsection \<open>\<open>ValueLane\<close> (\<open>src/adaptive/value.rs\<close>)\<close>

datatype value_lane =
    VL_Observed
  | VL_Persisted
  | VL_Desired
  | VL_Held
  | VL_Effective
  | VL_Unrecognized string

definition value_lane_table :: "(string \<times> value_lane) list" where
  "value_lane_table =
    [(''observed'', VL_Observed),
     (''persisted'', VL_Persisted),
     (''desired'', VL_Desired),
     (''held'', VL_Held),
     (''effective'', VL_Effective)]"

fun value_lane_as_str :: "value_lane \<Rightarrow> string" where
  "value_lane_as_str VL_Observed = ''observed''"
| "value_lane_as_str VL_Persisted = ''persisted''"
| "value_lane_as_str VL_Desired = ''desired''"
| "value_lane_as_str VL_Held = ''held''"
| "value_lane_as_str VL_Effective = ''effective''"
| "value_lane_as_str (VL_Unrecognized raw) = raw"

definition value_lane_from_str :: "string \<Rightarrow> value_lane" where
  "value_lane_from_str raw =
    (case map_of value_lane_table raw of Some v \<Rightarrow> v | None \<Rightarrow> VL_Unrecognized raw)"

fun value_lane_is_recognized :: "value_lane \<Rightarrow> bool" where
  "value_lane_is_recognized (VL_Unrecognized raw) = False"
| "value_lane_is_recognized v = True"

interpretation value_lane: semantic_vocab value_lane_table VL_Unrecognized value_lane_as_str value_lane_from_str
  value_lane_is_recognized
proof
  fix v
  show "value_lane_is_recognized v \<longleftrightarrow> v \<in> snd ` set value_lane_table"
    by (cases v) (simp_all add: value_lane_table_def)
  show "\<not> value_lane_is_recognized v \<Longrightarrow> \<exists>s. v = VL_Unrecognized s" by (cases v) simp_all
qed (auto simp: value_lane_table_def value_lane_from_str_def)

subsection \<open>\<open>Authority\<close> (\<open>src/adaptive/value.rs\<close>)\<close>

datatype authority =
    Auth_Runtime
  | Auth_PersistedConfig
  | Auth_StagedIntent
  | Auth_HeldIntent
  | Auth_EditorProjection
  | Auth_StaticFallback
  | Auth_Unrecognized string

definition authority_table :: "(string \<times> authority) list" where
  "authority_table =
    [(''runtime'', Auth_Runtime),
     (''persisted_config'', Auth_PersistedConfig),
     (''staged_intent'', Auth_StagedIntent),
     (''held_intent'', Auth_HeldIntent),
     (''editor_projection'', Auth_EditorProjection),
     (''static_fallback'', Auth_StaticFallback)]"

fun authority_as_str :: "authority \<Rightarrow> string" where
  "authority_as_str Auth_Runtime = ''runtime''"
| "authority_as_str Auth_PersistedConfig = ''persisted_config''"
| "authority_as_str Auth_StagedIntent = ''staged_intent''"
| "authority_as_str Auth_HeldIntent = ''held_intent''"
| "authority_as_str Auth_EditorProjection = ''editor_projection''"
| "authority_as_str Auth_StaticFallback = ''static_fallback''"
| "authority_as_str (Auth_Unrecognized raw) = raw"

definition authority_from_str :: "string \<Rightarrow> authority" where
  "authority_from_str raw =
    (case map_of authority_table raw of Some v \<Rightarrow> v | None \<Rightarrow> Auth_Unrecognized raw)"

fun authority_is_recognized :: "authority \<Rightarrow> bool" where
  "authority_is_recognized (Auth_Unrecognized raw) = False"
| "authority_is_recognized v = True"

interpretation authority: semantic_vocab authority_table Auth_Unrecognized authority_as_str authority_from_str
  authority_is_recognized
proof
  fix v
  show "authority_is_recognized v \<longleftrightarrow> v \<in> snd ` set authority_table"
    by (cases v) (simp_all add: authority_table_def)
  show "\<not> authority_is_recognized v \<Longrightarrow> \<exists>s. v = Auth_Unrecognized s" by (cases v) simp_all
qed (auto simp: authority_table_def authority_from_str_def)

subsection \<open>\<open>SourceClass\<close> (\<open>src/adaptive/value.rs\<close>)\<close>

datatype source_class =
    Src_LiveProtocol
  | Src_ConfigFile
  | Src_WebInterface
  | Src_Catalog
  | Src_Consumer
  | Src_Unrecognized string

definition source_class_table :: "(string \<times> source_class) list" where
  "source_class_table =
    [(''live_protocol'', Src_LiveProtocol),
     (''config_file'', Src_ConfigFile),
     (''web_interface'', Src_WebInterface),
     (''catalog'', Src_Catalog),
     (''consumer'', Src_Consumer)]"

fun source_class_as_str :: "source_class \<Rightarrow> string" where
  "source_class_as_str Src_LiveProtocol = ''live_protocol''"
| "source_class_as_str Src_ConfigFile = ''config_file''"
| "source_class_as_str Src_WebInterface = ''web_interface''"
| "source_class_as_str Src_Catalog = ''catalog''"
| "source_class_as_str Src_Consumer = ''consumer''"
| "source_class_as_str (Src_Unrecognized raw) = raw"

definition source_class_from_str :: "string \<Rightarrow> source_class" where
  "source_class_from_str raw =
    (case map_of source_class_table raw of Some v \<Rightarrow> v | None \<Rightarrow> Src_Unrecognized raw)"

fun source_class_is_recognized :: "source_class \<Rightarrow> bool" where
  "source_class_is_recognized (Src_Unrecognized raw) = False"
| "source_class_is_recognized v = True"

interpretation source_class: semantic_vocab source_class_table Src_Unrecognized source_class_as_str source_class_from_str
  source_class_is_recognized
proof
  fix v
  show "source_class_is_recognized v \<longleftrightarrow> v \<in> snd ` set source_class_table"
    by (cases v) (simp_all add: source_class_table_def)
  show "\<not> source_class_is_recognized v \<Longrightarrow> \<exists>s. v = Src_Unrecognized s" by (cases v) simp_all
qed (auto simp: source_class_table_def source_class_from_str_def)

subsection \<open>\<open>Grounding\<close> (\<open>src/adaptive/value.rs\<close>)\<close>

datatype grounding =
    Gr_Grounded
  | Gr_Ungrounded
  | Gr_Unrecognized string

definition grounding_table :: "(string \<times> grounding) list" where
  "grounding_table =
    [(''grounded'', Gr_Grounded),
     (''ungrounded'', Gr_Ungrounded)]"

fun grounding_as_str :: "grounding \<Rightarrow> string" where
  "grounding_as_str Gr_Grounded = ''grounded''"
| "grounding_as_str Gr_Ungrounded = ''ungrounded''"
| "grounding_as_str (Gr_Unrecognized raw) = raw"

definition grounding_from_str :: "string \<Rightarrow> grounding" where
  "grounding_from_str raw =
    (case map_of grounding_table raw of Some v \<Rightarrow> v | None \<Rightarrow> Gr_Unrecognized raw)"

fun grounding_is_recognized :: "grounding \<Rightarrow> bool" where
  "grounding_is_recognized (Gr_Unrecognized raw) = False"
| "grounding_is_recognized v = True"

interpretation grounding: semantic_vocab grounding_table Gr_Unrecognized grounding_as_str grounding_from_str
  grounding_is_recognized
proof
  fix v
  show "grounding_is_recognized v \<longleftrightarrow> v \<in> snd ` set grounding_table"
    by (cases v) (simp_all add: grounding_table_def)
  show "\<not> grounding_is_recognized v \<Longrightarrow> \<exists>s. v = Gr_Unrecognized s" by (cases v) simp_all
qed (auto simp: grounding_table_def grounding_from_str_def)

subsection \<open>\<open>DivergenceKind\<close> (\<open>src/adaptive/value.rs\<close>)\<close>

datatype divergence_kind =
    Div_ObservedVsPersisted
  | Div_ObservedVsDesired
  | Div_PersistedVsDesired
  | Div_HeldUnreachable
  | Div_Unrecognized string

definition divergence_kind_table :: "(string \<times> divergence_kind) list" where
  "divergence_kind_table =
    [(''observed_vs_persisted'', Div_ObservedVsPersisted),
     (''observed_vs_desired'', Div_ObservedVsDesired),
     (''persisted_vs_desired'', Div_PersistedVsDesired),
     (''held_unreachable'', Div_HeldUnreachable)]"

fun divergence_kind_as_str :: "divergence_kind \<Rightarrow> string" where
  "divergence_kind_as_str Div_ObservedVsPersisted = ''observed_vs_persisted''"
| "divergence_kind_as_str Div_ObservedVsDesired = ''observed_vs_desired''"
| "divergence_kind_as_str Div_PersistedVsDesired = ''persisted_vs_desired''"
| "divergence_kind_as_str Div_HeldUnreachable = ''held_unreachable''"
| "divergence_kind_as_str (Div_Unrecognized raw) = raw"

definition divergence_kind_from_str :: "string \<Rightarrow> divergence_kind" where
  "divergence_kind_from_str raw =
    (case map_of divergence_kind_table raw of Some v \<Rightarrow> v | None \<Rightarrow> Div_Unrecognized raw)"

fun divergence_kind_is_recognized :: "divergence_kind \<Rightarrow> bool" where
  "divergence_kind_is_recognized (Div_Unrecognized raw) = False"
| "divergence_kind_is_recognized v = True"

interpretation divergence_kind: semantic_vocab divergence_kind_table Div_Unrecognized divergence_kind_as_str divergence_kind_from_str
  divergence_kind_is_recognized
proof
  fix v
  show "divergence_kind_is_recognized v \<longleftrightarrow> v \<in> snd ` set divergence_kind_table"
    by (cases v) (simp_all add: divergence_kind_table_def)
  show "\<not> divergence_kind_is_recognized v \<Longrightarrow> \<exists>s. v = Div_Unrecognized s" by (cases v) simp_all
qed (auto simp: divergence_kind_table_def divergence_kind_from_str_def)

subsection \<open>\<open>TargetRole\<close> (\<open>src/adaptive/document.rs\<close>)\<close>

datatype target_role =
    Role_Playback
  | Role_DspEngine
  | Role_RoomCorrection
  | Role_Instance
  | Role_Unrecognized string

definition target_role_table :: "(string \<times> target_role) list" where
  "target_role_table =
    [(''playback'', Role_Playback),
     (''dsp_engine'', Role_DspEngine),
     (''room_correction'', Role_RoomCorrection),
     (''instance'', Role_Instance)]"

fun target_role_as_str :: "target_role \<Rightarrow> string" where
  "target_role_as_str Role_Playback = ''playback''"
| "target_role_as_str Role_DspEngine = ''dsp_engine''"
| "target_role_as_str Role_RoomCorrection = ''room_correction''"
| "target_role_as_str Role_Instance = ''instance''"
| "target_role_as_str (Role_Unrecognized raw) = raw"

definition target_role_from_str :: "string \<Rightarrow> target_role" where
  "target_role_from_str raw =
    (case map_of target_role_table raw of Some v \<Rightarrow> v | None \<Rightarrow> Role_Unrecognized raw)"

fun target_role_is_recognized :: "target_role \<Rightarrow> bool" where
  "target_role_is_recognized (Role_Unrecognized raw) = False"
| "target_role_is_recognized v = True"

interpretation target_role: semantic_vocab target_role_table Role_Unrecognized target_role_as_str target_role_from_str
  target_role_is_recognized
proof
  fix v
  show "target_role_is_recognized v \<longleftrightarrow> v \<in> snd ` set target_role_table"
    by (cases v) (simp_all add: target_role_table_def)
  show "\<not> target_role_is_recognized v \<Longrightarrow> \<exists>s. v = Role_Unrecognized s" by (cases v) simp_all
qed (auto simp: target_role_table_def target_role_from_str_def)

subsection \<open>\<open>TransportLane\<close> (\<open>src/adaptive/document.rs\<close>)\<close>

datatype transport_lane =
    TL_Native
  | TL_Persistent
  | TL_Telemetry
  | TL_Unrecognized string

definition transport_lane_table :: "(string \<times> transport_lane) list" where
  "transport_lane_table =
    [(''native'', TL_Native),
     (''persistent'', TL_Persistent),
     (''telemetry'', TL_Telemetry)]"

fun transport_lane_as_str :: "transport_lane \<Rightarrow> string" where
  "transport_lane_as_str TL_Native = ''native''"
| "transport_lane_as_str TL_Persistent = ''persistent''"
| "transport_lane_as_str TL_Telemetry = ''telemetry''"
| "transport_lane_as_str (TL_Unrecognized raw) = raw"

definition transport_lane_from_str :: "string \<Rightarrow> transport_lane" where
  "transport_lane_from_str raw =
    (case map_of transport_lane_table raw of Some v \<Rightarrow> v | None \<Rightarrow> TL_Unrecognized raw)"

fun transport_lane_is_recognized :: "transport_lane \<Rightarrow> bool" where
  "transport_lane_is_recognized (TL_Unrecognized raw) = False"
| "transport_lane_is_recognized v = True"

interpretation transport_lane: semantic_vocab transport_lane_table TL_Unrecognized transport_lane_as_str transport_lane_from_str
  transport_lane_is_recognized
proof
  fix v
  show "transport_lane_is_recognized v \<longleftrightarrow> v \<in> snd ` set transport_lane_table"
    by (cases v) (simp_all add: transport_lane_table_def)
  show "\<not> transport_lane_is_recognized v \<Longrightarrow> \<exists>s. v = TL_Unrecognized s" by (cases v) simp_all
qed (auto simp: transport_lane_table_def transport_lane_from_str_def)

subsection \<open>\<open>LaneState\<close> (\<open>src/adaptive/document.rs\<close>)\<close>

datatype lane_state =
    LS_Connected
  | LS_Degraded
  | LS_Disconnected
  | LS_Unconfigured
  | LS_Unrecognized string

definition lane_state_table :: "(string \<times> lane_state) list" where
  "lane_state_table =
    [(''connected'', LS_Connected),
     (''degraded'', LS_Degraded),
     (''disconnected'', LS_Disconnected),
     (''unconfigured'', LS_Unconfigured)]"

fun lane_state_as_str :: "lane_state \<Rightarrow> string" where
  "lane_state_as_str LS_Connected = ''connected''"
| "lane_state_as_str LS_Degraded = ''degraded''"
| "lane_state_as_str LS_Disconnected = ''disconnected''"
| "lane_state_as_str LS_Unconfigured = ''unconfigured''"
| "lane_state_as_str (LS_Unrecognized raw) = raw"

definition lane_state_from_str :: "string \<Rightarrow> lane_state" where
  "lane_state_from_str raw =
    (case map_of lane_state_table raw of Some v \<Rightarrow> v | None \<Rightarrow> LS_Unrecognized raw)"

fun lane_state_is_recognized :: "lane_state \<Rightarrow> bool" where
  "lane_state_is_recognized (LS_Unrecognized raw) = False"
| "lane_state_is_recognized v = True"

interpretation lane_state: semantic_vocab lane_state_table LS_Unrecognized lane_state_as_str lane_state_from_str
  lane_state_is_recognized
proof
  fix v
  show "lane_state_is_recognized v \<longleftrightarrow> v \<in> snd ` set lane_state_table"
    by (cases v) (simp_all add: lane_state_table_def)
  show "\<not> lane_state_is_recognized v \<Longrightarrow> \<exists>s. v = LS_Unrecognized s" by (cases v) simp_all
qed (auto simp: lane_state_table_def lane_state_from_str_def)

subsection \<open>\<open>ControlKind\<close> (\<open>src/adaptive/control.rs\<close>)\<close>

datatype control_kind =
    Kind_Action
  | Kind_Boolean
  | Kind_Enumeration
  | Kind_NumericRange
  | Kind_Text
  | Kind_Group
  | Kind_Composite
  | Kind_Unrecognized string

definition control_kind_table :: "(string \<times> control_kind) list" where
  "control_kind_table =
    [(''action'', Kind_Action),
     (''boolean'', Kind_Boolean),
     (''enumeration'', Kind_Enumeration),
     (''numeric_range'', Kind_NumericRange),
     (''text'', Kind_Text),
     (''group'', Kind_Group),
     (''composite'', Kind_Composite)]"

fun control_kind_as_str :: "control_kind \<Rightarrow> string" where
  "control_kind_as_str Kind_Action = ''action''"
| "control_kind_as_str Kind_Boolean = ''boolean''"
| "control_kind_as_str Kind_Enumeration = ''enumeration''"
| "control_kind_as_str Kind_NumericRange = ''numeric_range''"
| "control_kind_as_str Kind_Text = ''text''"
| "control_kind_as_str Kind_Group = ''group''"
| "control_kind_as_str Kind_Composite = ''composite''"
| "control_kind_as_str (Kind_Unrecognized raw) = raw"

definition control_kind_from_str :: "string \<Rightarrow> control_kind" where
  "control_kind_from_str raw =
    (case map_of control_kind_table raw of Some v \<Rightarrow> v | None \<Rightarrow> Kind_Unrecognized raw)"

fun control_kind_is_recognized :: "control_kind \<Rightarrow> bool" where
  "control_kind_is_recognized (Kind_Unrecognized raw) = False"
| "control_kind_is_recognized v = True"

interpretation control_kind: semantic_vocab control_kind_table Kind_Unrecognized control_kind_as_str control_kind_from_str
  control_kind_is_recognized
proof
  fix v
  show "control_kind_is_recognized v \<longleftrightarrow> v \<in> snd ` set control_kind_table"
    by (cases v) (simp_all add: control_kind_table_def)
  show "\<not> control_kind_is_recognized v \<Longrightarrow> \<exists>s. v = Kind_Unrecognized s" by (cases v) simp_all
qed (auto simp: control_kind_table_def control_kind_from_str_def)

subsection \<open>\<open>ApplyLane\<close> (\<open>src/adaptive/control.rs\<close>)\<close>

datatype apply_lane =
    AL_Immediate
  | AL_Staged
  | AL_Persistent
  | AL_MatrixProfile
  | AL_Composite
  | AL_Unrecognized string

definition apply_lane_table :: "(string \<times> apply_lane) list" where
  "apply_lane_table =
    [(''immediate'', AL_Immediate),
     (''staged'', AL_Staged),
     (''persistent'', AL_Persistent),
     (''matrix_profile'', AL_MatrixProfile),
     (''composite'', AL_Composite)]"

fun apply_lane_as_str :: "apply_lane \<Rightarrow> string" where
  "apply_lane_as_str AL_Immediate = ''immediate''"
| "apply_lane_as_str AL_Staged = ''staged''"
| "apply_lane_as_str AL_Persistent = ''persistent''"
| "apply_lane_as_str AL_MatrixProfile = ''matrix_profile''"
| "apply_lane_as_str AL_Composite = ''composite''"
| "apply_lane_as_str (AL_Unrecognized raw) = raw"

definition apply_lane_from_str :: "string \<Rightarrow> apply_lane" where
  "apply_lane_from_str raw =
    (case map_of apply_lane_table raw of Some v \<Rightarrow> v | None \<Rightarrow> AL_Unrecognized raw)"

fun apply_lane_is_recognized :: "apply_lane \<Rightarrow> bool" where
  "apply_lane_is_recognized (AL_Unrecognized raw) = False"
| "apply_lane_is_recognized v = True"

interpretation apply_lane: semantic_vocab apply_lane_table AL_Unrecognized apply_lane_as_str apply_lane_from_str
  apply_lane_is_recognized
proof
  fix v
  show "apply_lane_is_recognized v \<longleftrightarrow> v \<in> snd ` set apply_lane_table"
    by (cases v) (simp_all add: apply_lane_table_def)
  show "\<not> apply_lane_is_recognized v \<Longrightarrow> \<exists>s. v = AL_Unrecognized s" by (cases v) simp_all
qed (auto simp: apply_lane_table_def apply_lane_from_str_def)

subsection \<open>\<open>ApplyEffect\<close> (\<open>src/adaptive/control.rs\<close>)\<close>

datatype apply_effect =
    Eff_LiveImmediate
  | Eff_VerifiedPending
  | Eff_RestartRequired
  | Eff_PersistentOnly
  | Eff_HeldUntilChainLoaded
  | Eff_Unrecognized string

definition apply_effect_table :: "(string \<times> apply_effect) list" where
  "apply_effect_table =
    [(''live_immediate'', Eff_LiveImmediate),
     (''verified_pending'', Eff_VerifiedPending),
     (''restart_required'', Eff_RestartRequired),
     (''persistent_only'', Eff_PersistentOnly),
     (''held_until_chain_loaded'', Eff_HeldUntilChainLoaded)]"

fun apply_effect_as_str :: "apply_effect \<Rightarrow> string" where
  "apply_effect_as_str Eff_LiveImmediate = ''live_immediate''"
| "apply_effect_as_str Eff_VerifiedPending = ''verified_pending''"
| "apply_effect_as_str Eff_RestartRequired = ''restart_required''"
| "apply_effect_as_str Eff_PersistentOnly = ''persistent_only''"
| "apply_effect_as_str Eff_HeldUntilChainLoaded = ''held_until_chain_loaded''"
| "apply_effect_as_str (Eff_Unrecognized raw) = raw"

definition apply_effect_from_str :: "string \<Rightarrow> apply_effect" where
  "apply_effect_from_str raw =
    (case map_of apply_effect_table raw of Some v \<Rightarrow> v | None \<Rightarrow> Eff_Unrecognized raw)"

fun apply_effect_is_recognized :: "apply_effect \<Rightarrow> bool" where
  "apply_effect_is_recognized (Eff_Unrecognized raw) = False"
| "apply_effect_is_recognized v = True"

interpretation apply_effect: semantic_vocab apply_effect_table Eff_Unrecognized apply_effect_as_str apply_effect_from_str
  apply_effect_is_recognized
proof
  fix v
  show "apply_effect_is_recognized v \<longleftrightarrow> v \<in> snd ` set apply_effect_table"
    by (cases v) (simp_all add: apply_effect_table_def)
  show "\<not> apply_effect_is_recognized v \<Longrightarrow> \<exists>s. v = Eff_Unrecognized s" by (cases v) simp_all
qed (auto simp: apply_effect_table_def apply_effect_from_str_def)

subsection \<open>\<open>Disruption\<close> (\<open>src/adaptive/control.rs\<close>)\<close>

datatype disruption =
    Dis_NoDisruption
  | Dis_AudibleGlitch
  | Dis_PlaybackInterruption
  | Dis_EngineRestart
  | Dis_Reconnect
  | Dis_Unrecognized string

definition disruption_table :: "(string \<times> disruption) list" where
  "disruption_table =
    [(''none'', Dis_NoDisruption),
     (''audible_glitch'', Dis_AudibleGlitch),
     (''playback_interruption'', Dis_PlaybackInterruption),
     (''engine_restart'', Dis_EngineRestart),
     (''reconnect'', Dis_Reconnect)]"

fun disruption_as_str :: "disruption \<Rightarrow> string" where
  "disruption_as_str Dis_NoDisruption = ''none''"
| "disruption_as_str Dis_AudibleGlitch = ''audible_glitch''"
| "disruption_as_str Dis_PlaybackInterruption = ''playback_interruption''"
| "disruption_as_str Dis_EngineRestart = ''engine_restart''"
| "disruption_as_str Dis_Reconnect = ''reconnect''"
| "disruption_as_str (Dis_Unrecognized raw) = raw"

definition disruption_from_str :: "string \<Rightarrow> disruption" where
  "disruption_from_str raw =
    (case map_of disruption_table raw of Some v \<Rightarrow> v | None \<Rightarrow> Dis_Unrecognized raw)"

fun disruption_is_recognized :: "disruption \<Rightarrow> bool" where
  "disruption_is_recognized (Dis_Unrecognized raw) = False"
| "disruption_is_recognized v = True"

interpretation disruption: semantic_vocab disruption_table Dis_Unrecognized disruption_as_str disruption_from_str
  disruption_is_recognized
proof
  fix v
  show "disruption_is_recognized v \<longleftrightarrow> v \<in> snd ` set disruption_table"
    by (cases v) (simp_all add: disruption_table_def)
  show "\<not> disruption_is_recognized v \<Longrightarrow> \<exists>s. v = Dis_Unrecognized s" by (cases v) simp_all
qed (auto simp: disruption_table_def disruption_from_str_def)

subsection \<open>\<open>RiskClass\<close> (\<open>src/adaptive/control.rs\<close>)\<close>

datatype risk_class =
    Risk_Safe
  | Risk_Caution
  | Risk_Disruptive
  | Risk_Destructive
  | Risk_Unrecognized string

definition risk_class_table :: "(string \<times> risk_class) list" where
  "risk_class_table =
    [(''safe'', Risk_Safe),
     (''caution'', Risk_Caution),
     (''disruptive'', Risk_Disruptive),
     (''destructive'', Risk_Destructive)]"

fun risk_class_as_str :: "risk_class \<Rightarrow> string" where
  "risk_class_as_str Risk_Safe = ''safe''"
| "risk_class_as_str Risk_Caution = ''caution''"
| "risk_class_as_str Risk_Disruptive = ''disruptive''"
| "risk_class_as_str Risk_Destructive = ''destructive''"
| "risk_class_as_str (Risk_Unrecognized raw) = raw"

definition risk_class_from_str :: "string \<Rightarrow> risk_class" where
  "risk_class_from_str raw =
    (case map_of risk_class_table raw of Some v \<Rightarrow> v | None \<Rightarrow> Risk_Unrecognized raw)"

fun risk_class_is_recognized :: "risk_class \<Rightarrow> bool" where
  "risk_class_is_recognized (Risk_Unrecognized raw) = False"
| "risk_class_is_recognized v = True"

interpretation risk_class: semantic_vocab risk_class_table Risk_Unrecognized risk_class_as_str risk_class_from_str
  risk_class_is_recognized
proof
  fix v
  show "risk_class_is_recognized v \<longleftrightarrow> v \<in> snd ` set risk_class_table"
    by (cases v) (simp_all add: risk_class_table_def)
  show "\<not> risk_class_is_recognized v \<Longrightarrow> \<exists>s. v = Risk_Unrecognized s" by (cases v) simp_all
qed (auto simp: risk_class_table_def risk_class_from_str_def)

subsection \<open>\<open>AvailabilityState\<close> (\<open>src/adaptive/control.rs\<close>)\<close>

datatype availability_state =
    Av_Available
  | Av_Unavailable
  | Av_ReadOnly
  | Av_Deprecated
  | Av_Unrecognized string

definition availability_state_table :: "(string \<times> availability_state) list" where
  "availability_state_table =
    [(''available'', Av_Available),
     (''unavailable'', Av_Unavailable),
     (''read_only'', Av_ReadOnly),
     (''deprecated'', Av_Deprecated)]"

fun availability_state_as_str :: "availability_state \<Rightarrow> string" where
  "availability_state_as_str Av_Available = ''available''"
| "availability_state_as_str Av_Unavailable = ''unavailable''"
| "availability_state_as_str Av_ReadOnly = ''read_only''"
| "availability_state_as_str Av_Deprecated = ''deprecated''"
| "availability_state_as_str (Av_Unrecognized raw) = raw"

definition availability_state_from_str :: "string \<Rightarrow> availability_state" where
  "availability_state_from_str raw =
    (case map_of availability_state_table raw of Some v \<Rightarrow> v | None \<Rightarrow> Av_Unrecognized raw)"

fun availability_state_is_recognized :: "availability_state \<Rightarrow> bool" where
  "availability_state_is_recognized (Av_Unrecognized raw) = False"
| "availability_state_is_recognized v = True"

interpretation availability_state: semantic_vocab availability_state_table Av_Unrecognized availability_state_as_str availability_state_from_str
  availability_state_is_recognized
proof
  fix v
  show "availability_state_is_recognized v \<longleftrightarrow> v \<in> snd ` set availability_state_table"
    by (cases v) (simp_all add: availability_state_table_def)
  show "\<not> availability_state_is_recognized v \<Longrightarrow> \<exists>s. v = Av_Unrecognized s" by (cases v) simp_all
qed (auto simp: availability_state_table_def availability_state_from_str_def)

subsection \<open>\<open>ReasonCode\<close> (\<open>src/adaptive/control.rs\<close>)\<close>

datatype reason_code =
    RC_NotSupported
  | RC_NotApplicableInMode
  | RC_RequiresConnection
  | RC_RequiresCapability
  | RC_RequiresAuthorization
  | RC_LockedByProducer
  | RC_Deprecated
  | RC_Unobservable
  | RC_DraftInvalid
  | RC_UnknownConstraint
  | RC_LaneUnconfigured
  | RC_ChainNotLoaded
  | RC_StaleBase
  | RC_ConflictingSibling
  | RC_RestartRequired
  | RC_Superseded
  | RC_Expired
  | RC_ControlRemoved
  | RC_Unrecognized string

definition reason_code_table :: "(string \<times> reason_code) list" where
  "reason_code_table =
    [(''not_supported'', RC_NotSupported),
     (''not_applicable_in_mode'', RC_NotApplicableInMode),
     (''requires_connection'', RC_RequiresConnection),
     (''requires_capability'', RC_RequiresCapability),
     (''requires_authorization'', RC_RequiresAuthorization),
     (''locked_by_producer'', RC_LockedByProducer),
     (''deprecated'', RC_Deprecated),
     (''unobservable'', RC_Unobservable),
     (''draft_invalid'', RC_DraftInvalid),
     (''unknown_constraint'', RC_UnknownConstraint),
     (''lane_unconfigured'', RC_LaneUnconfigured),
     (''chain_not_loaded'', RC_ChainNotLoaded),
     (''stale_base'', RC_StaleBase),
     (''conflicting_sibling'', RC_ConflictingSibling),
     (''restart_required'', RC_RestartRequired),
     (''superseded'', RC_Superseded),
     (''expired'', RC_Expired),
     (''control_removed'', RC_ControlRemoved)]"

fun reason_code_as_str :: "reason_code \<Rightarrow> string" where
  "reason_code_as_str RC_NotSupported = ''not_supported''"
| "reason_code_as_str RC_NotApplicableInMode = ''not_applicable_in_mode''"
| "reason_code_as_str RC_RequiresConnection = ''requires_connection''"
| "reason_code_as_str RC_RequiresCapability = ''requires_capability''"
| "reason_code_as_str RC_RequiresAuthorization = ''requires_authorization''"
| "reason_code_as_str RC_LockedByProducer = ''locked_by_producer''"
| "reason_code_as_str RC_Deprecated = ''deprecated''"
| "reason_code_as_str RC_Unobservable = ''unobservable''"
| "reason_code_as_str RC_DraftInvalid = ''draft_invalid''"
| "reason_code_as_str RC_UnknownConstraint = ''unknown_constraint''"
| "reason_code_as_str RC_LaneUnconfigured = ''lane_unconfigured''"
| "reason_code_as_str RC_ChainNotLoaded = ''chain_not_loaded''"
| "reason_code_as_str RC_StaleBase = ''stale_base''"
| "reason_code_as_str RC_ConflictingSibling = ''conflicting_sibling''"
| "reason_code_as_str RC_RestartRequired = ''restart_required''"
| "reason_code_as_str RC_Superseded = ''superseded''"
| "reason_code_as_str RC_Expired = ''expired''"
| "reason_code_as_str RC_ControlRemoved = ''control_removed''"
| "reason_code_as_str (RC_Unrecognized raw) = raw"

definition reason_code_from_str :: "string \<Rightarrow> reason_code" where
  "reason_code_from_str raw =
    (case map_of reason_code_table raw of Some v \<Rightarrow> v | None \<Rightarrow> RC_Unrecognized raw)"

fun reason_code_is_recognized :: "reason_code \<Rightarrow> bool" where
  "reason_code_is_recognized (RC_Unrecognized raw) = False"
| "reason_code_is_recognized v = True"

interpretation reason_code: semantic_vocab reason_code_table RC_Unrecognized reason_code_as_str reason_code_from_str
  reason_code_is_recognized
proof
  fix v
  show "reason_code_is_recognized v \<longleftrightarrow> v \<in> snd ` set reason_code_table"
    by (cases v) (simp_all add: reason_code_table_def)
  show "\<not> reason_code_is_recognized v \<Longrightarrow> \<exists>s. v = RC_Unrecognized s" by (cases v) simp_all
qed (auto simp: reason_code_table_def reason_code_from_str_def)

subsection \<open>\<open>ReasonScope\<close> (\<open>src/adaptive/control.rs\<close>)\<close>

datatype reason_scope =
    Scope_Observed
  | Scope_Draft
  | Scope_Lane
  | Scope_Producer
  | Scope_Unrecognized string

definition reason_scope_table :: "(string \<times> reason_scope) list" where
  "reason_scope_table =
    [(''observed'', Scope_Observed),
     (''draft'', Scope_Draft),
     (''lane'', Scope_Lane),
     (''producer'', Scope_Producer)]"

fun reason_scope_as_str :: "reason_scope \<Rightarrow> string" where
  "reason_scope_as_str Scope_Observed = ''observed''"
| "reason_scope_as_str Scope_Draft = ''draft''"
| "reason_scope_as_str Scope_Lane = ''lane''"
| "reason_scope_as_str Scope_Producer = ''producer''"
| "reason_scope_as_str (Scope_Unrecognized raw) = raw"

definition reason_scope_from_str :: "string \<Rightarrow> reason_scope" where
  "reason_scope_from_str raw =
    (case map_of reason_scope_table raw of Some v \<Rightarrow> v | None \<Rightarrow> Scope_Unrecognized raw)"

fun reason_scope_is_recognized :: "reason_scope \<Rightarrow> bool" where
  "reason_scope_is_recognized (Scope_Unrecognized raw) = False"
| "reason_scope_is_recognized v = True"

interpretation reason_scope: semantic_vocab reason_scope_table Scope_Unrecognized reason_scope_as_str reason_scope_from_str
  reason_scope_is_recognized
proof
  fix v
  show "reason_scope_is_recognized v \<longleftrightarrow> v \<in> snd ` set reason_scope_table"
    by (cases v) (simp_all add: reason_scope_table_def)
  show "\<not> reason_scope_is_recognized v \<Longrightarrow> \<exists>s. v = Scope_Unrecognized s" by (cases v) simp_all
qed (auto simp: reason_scope_table_def reason_scope_from_str_def)

subsection \<open>\<open>ConstraintEffect\<close> (\<open>src/adaptive/constraint.rs\<close>)\<close>

datatype constraint_effect =
    CE_Invalidates
  | CE_MakesInert
  | CE_RequiresRestart
  | CE_HidesChoice
  | CE_Unrecognized string

definition constraint_effect_table :: "(string \<times> constraint_effect) list" where
  "constraint_effect_table =
    [(''invalidates'', CE_Invalidates),
     (''makes_inert'', CE_MakesInert),
     (''requires_restart'', CE_RequiresRestart),
     (''hides_choice'', CE_HidesChoice)]"

fun constraint_effect_as_str :: "constraint_effect \<Rightarrow> string" where
  "constraint_effect_as_str CE_Invalidates = ''invalidates''"
| "constraint_effect_as_str CE_MakesInert = ''makes_inert''"
| "constraint_effect_as_str CE_RequiresRestart = ''requires_restart''"
| "constraint_effect_as_str CE_HidesChoice = ''hides_choice''"
| "constraint_effect_as_str (CE_Unrecognized raw) = raw"

definition constraint_effect_from_str :: "string \<Rightarrow> constraint_effect" where
  "constraint_effect_from_str raw =
    (case map_of constraint_effect_table raw of Some v \<Rightarrow> v | None \<Rightarrow> CE_Unrecognized raw)"

fun constraint_effect_is_recognized :: "constraint_effect \<Rightarrow> bool" where
  "constraint_effect_is_recognized (CE_Unrecognized raw) = False"
| "constraint_effect_is_recognized v = True"

interpretation constraint_effect: semantic_vocab constraint_effect_table CE_Unrecognized constraint_effect_as_str constraint_effect_from_str
  constraint_effect_is_recognized
proof
  fix v
  show "constraint_effect_is_recognized v \<longleftrightarrow> v \<in> snd ` set constraint_effect_table"
    by (cases v) (simp_all add: constraint_effect_table_def)
  show "\<not> constraint_effect_is_recognized v \<Longrightarrow> \<exists>s. v = CE_Unrecognized s" by (cases v) simp_all
qed (auto simp: constraint_effect_table_def constraint_effect_from_str_def)

subsection \<open>\<open>WriteAttempt\<close> (\<open>src/adaptive/command.rs\<close>)\<close>

datatype write_attempt =
    WA_NotAttempted
  | WA_Attempted
  | WA_AcknowledgedProvisional
  | WA_Confirmed
  | WA_Unrecognized string

definition write_attempt_table :: "(string \<times> write_attempt) list" where
  "write_attempt_table =
    [(''not_attempted'', WA_NotAttempted),
     (''attempted'', WA_Attempted),
     (''acknowledged_provisional'', WA_AcknowledgedProvisional),
     (''confirmed'', WA_Confirmed)]"

fun write_attempt_as_str :: "write_attempt \<Rightarrow> string" where
  "write_attempt_as_str WA_NotAttempted = ''not_attempted''"
| "write_attempt_as_str WA_Attempted = ''attempted''"
| "write_attempt_as_str WA_AcknowledgedProvisional = ''acknowledged_provisional''"
| "write_attempt_as_str WA_Confirmed = ''confirmed''"
| "write_attempt_as_str (WA_Unrecognized raw) = raw"

definition write_attempt_from_str :: "string \<Rightarrow> write_attempt" where
  "write_attempt_from_str raw =
    (case map_of write_attempt_table raw of Some v \<Rightarrow> v | None \<Rightarrow> WA_Unrecognized raw)"

fun write_attempt_is_recognized :: "write_attempt \<Rightarrow> bool" where
  "write_attempt_is_recognized (WA_Unrecognized raw) = False"
| "write_attempt_is_recognized v = True"

interpretation write_attempt: semantic_vocab write_attempt_table WA_Unrecognized write_attempt_as_str write_attempt_from_str
  write_attempt_is_recognized
proof
  fix v
  show "write_attempt_is_recognized v \<longleftrightarrow> v \<in> snd ` set write_attempt_table"
    by (cases v) (simp_all add: write_attempt_table_def)
  show "\<not> write_attempt_is_recognized v \<Longrightarrow> \<exists>s. v = WA_Unrecognized s" by (cases v) simp_all
qed (auto simp: write_attempt_table_def write_attempt_from_str_def)

subsection \<open>\<open>CommandOutcome\<close> (\<open>src/adaptive/command.rs\<close>)\<close>

datatype command_outcome =
    CO_Pending
  | CO_Applied
  | CO_Ignored
  | CO_Rejected
  | CO_Superseded
  | CO_Disconnected
  | CO_TimedOut
  | CO_Held
  | CO_RestartRequired
  | CO_Indeterminate
  | CO_PartiallyApplied
  | CO_Compensating
  | CO_Compensated
  | CO_RecoveryRequired
  | CO_Expired
  | CO_Divergent
  | CO_Unrecognized string

definition command_outcome_table :: "(string \<times> command_outcome) list" where
  "command_outcome_table =
    [(''pending'', CO_Pending),
     (''applied'', CO_Applied),
     (''ignored'', CO_Ignored),
     (''rejected'', CO_Rejected),
     (''superseded'', CO_Superseded),
     (''disconnected'', CO_Disconnected),
     (''timed_out'', CO_TimedOut),
     (''held'', CO_Held),
     (''restart_required'', CO_RestartRequired),
     (''indeterminate'', CO_Indeterminate),
     (''partially_applied'', CO_PartiallyApplied),
     (''compensating'', CO_Compensating),
     (''compensated'', CO_Compensated),
     (''recovery_required'', CO_RecoveryRequired),
     (''expired'', CO_Expired),
     (''divergent'', CO_Divergent)]"

fun command_outcome_as_str :: "command_outcome \<Rightarrow> string" where
  "command_outcome_as_str CO_Pending = ''pending''"
| "command_outcome_as_str CO_Applied = ''applied''"
| "command_outcome_as_str CO_Ignored = ''ignored''"
| "command_outcome_as_str CO_Rejected = ''rejected''"
| "command_outcome_as_str CO_Superseded = ''superseded''"
| "command_outcome_as_str CO_Disconnected = ''disconnected''"
| "command_outcome_as_str CO_TimedOut = ''timed_out''"
| "command_outcome_as_str CO_Held = ''held''"
| "command_outcome_as_str CO_RestartRequired = ''restart_required''"
| "command_outcome_as_str CO_Indeterminate = ''indeterminate''"
| "command_outcome_as_str CO_PartiallyApplied = ''partially_applied''"
| "command_outcome_as_str CO_Compensating = ''compensating''"
| "command_outcome_as_str CO_Compensated = ''compensated''"
| "command_outcome_as_str CO_RecoveryRequired = ''recovery_required''"
| "command_outcome_as_str CO_Expired = ''expired''"
| "command_outcome_as_str CO_Divergent = ''divergent''"
| "command_outcome_as_str (CO_Unrecognized raw) = raw"

definition command_outcome_from_str :: "string \<Rightarrow> command_outcome" where
  "command_outcome_from_str raw =
    (case map_of command_outcome_table raw of Some v \<Rightarrow> v | None \<Rightarrow> CO_Unrecognized raw)"

fun command_outcome_is_recognized :: "command_outcome \<Rightarrow> bool" where
  "command_outcome_is_recognized (CO_Unrecognized raw) = False"
| "command_outcome_is_recognized v = True"

interpretation command_outcome: semantic_vocab command_outcome_table CO_Unrecognized command_outcome_as_str command_outcome_from_str
  command_outcome_is_recognized
proof
  fix v
  show "command_outcome_is_recognized v \<longleftrightarrow> v \<in> snd ` set command_outcome_table"
    by (cases v) (simp_all add: command_outcome_table_def)
  show "\<not> command_outcome_is_recognized v \<Longrightarrow> \<exists>s. v = CO_Unrecognized s" by (cases v) simp_all
qed (auto simp: command_outcome_table_def command_outcome_from_str_def)

subsection \<open>\<open>RecoveryState\<close> (\<open>src/adaptive/command.rs\<close>)\<close>

datatype recovery_state =
    Rec_NotRequired
  | Rec_AwaitingReadback
  | Rec_AwaitingReconnect
  | Rec_Compensating
  | Rec_ReplanRequired
  | Rec_ManualInterventionRequired
  | Rec_Unrecognized string

definition recovery_state_table :: "(string \<times> recovery_state) list" where
  "recovery_state_table =
    [(''not_required'', Rec_NotRequired),
     (''awaiting_readback'', Rec_AwaitingReadback),
     (''awaiting_reconnect'', Rec_AwaitingReconnect),
     (''compensating'', Rec_Compensating),
     (''replan_required'', Rec_ReplanRequired),
     (''manual_intervention_required'', Rec_ManualInterventionRequired)]"

fun recovery_state_as_str :: "recovery_state \<Rightarrow> string" where
  "recovery_state_as_str Rec_NotRequired = ''not_required''"
| "recovery_state_as_str Rec_AwaitingReadback = ''awaiting_readback''"
| "recovery_state_as_str Rec_AwaitingReconnect = ''awaiting_reconnect''"
| "recovery_state_as_str Rec_Compensating = ''compensating''"
| "recovery_state_as_str Rec_ReplanRequired = ''replan_required''"
| "recovery_state_as_str Rec_ManualInterventionRequired = ''manual_intervention_required''"
| "recovery_state_as_str (Rec_Unrecognized raw) = raw"

definition recovery_state_from_str :: "string \<Rightarrow> recovery_state" where
  "recovery_state_from_str raw =
    (case map_of recovery_state_table raw of Some v \<Rightarrow> v | None \<Rightarrow> Rec_Unrecognized raw)"

fun recovery_state_is_recognized :: "recovery_state \<Rightarrow> bool" where
  "recovery_state_is_recognized (Rec_Unrecognized raw) = False"
| "recovery_state_is_recognized v = True"

interpretation recovery_state: semantic_vocab recovery_state_table Rec_Unrecognized recovery_state_as_str recovery_state_from_str
  recovery_state_is_recognized
proof
  fix v
  show "recovery_state_is_recognized v \<longleftrightarrow> v \<in> snd ` set recovery_state_table"
    by (cases v) (simp_all add: recovery_state_table_def)
  show "\<not> recovery_state_is_recognized v \<Longrightarrow> \<exists>s. v = Rec_Unrecognized s" by (cases v) simp_all
qed (auto simp: recovery_state_table_def recovery_state_from_str_def)

subsection \<open>\<open>ActorClass\<close> (\<open>src/adaptive/change_set.rs\<close>)\<close>

datatype actor_class =
    Actor_Human
  | Actor_Automation
  | Actor_Device
  | Actor_Agent
  | Actor_Unrecognized string

definition actor_class_table :: "(string \<times> actor_class) list" where
  "actor_class_table =
    [(''human'', Actor_Human),
     (''automation'', Actor_Automation),
     (''device'', Actor_Device),
     (''agent'', Actor_Agent)]"

fun actor_class_as_str :: "actor_class \<Rightarrow> string" where
  "actor_class_as_str Actor_Human = ''human''"
| "actor_class_as_str Actor_Automation = ''automation''"
| "actor_class_as_str Actor_Device = ''device''"
| "actor_class_as_str Actor_Agent = ''agent''"
| "actor_class_as_str (Actor_Unrecognized raw) = raw"

definition actor_class_from_str :: "string \<Rightarrow> actor_class" where
  "actor_class_from_str raw =
    (case map_of actor_class_table raw of Some v \<Rightarrow> v | None \<Rightarrow> Actor_Unrecognized raw)"

fun actor_class_is_recognized :: "actor_class \<Rightarrow> bool" where
  "actor_class_is_recognized (Actor_Unrecognized raw) = False"
| "actor_class_is_recognized v = True"

interpretation actor_class: semantic_vocab actor_class_table Actor_Unrecognized actor_class_as_str actor_class_from_str
  actor_class_is_recognized
proof
  fix v
  show "actor_class_is_recognized v \<longleftrightarrow> v \<in> snd ` set actor_class_table"
    by (cases v) (simp_all add: actor_class_table_def)
  show "\<not> actor_class_is_recognized v \<Longrightarrow> \<exists>s. v = Actor_Unrecognized s" by (cases v) simp_all
qed (auto simp: actor_class_table_def actor_class_from_str_def)

subsection \<open>\<open>Surface\<close> (\<open>src/adaptive/change_set.rs\<close>)\<close>

datatype surface =
    Surf_Web
  | Surf_Mcp
  | Surf_Device
  | Surf_Http
  | Surf_Internal
  | Surf_Unrecognized string

definition surface_table :: "(string \<times> surface) list" where
  "surface_table =
    [(''web'', Surf_Web),
     (''mcp'', Surf_Mcp),
     (''device'', Surf_Device),
     (''http'', Surf_Http),
     (''internal'', Surf_Internal)]"

fun surface_as_str :: "surface \<Rightarrow> string" where
  "surface_as_str Surf_Web = ''web''"
| "surface_as_str Surf_Mcp = ''mcp''"
| "surface_as_str Surf_Device = ''device''"
| "surface_as_str Surf_Http = ''http''"
| "surface_as_str Surf_Internal = ''internal''"
| "surface_as_str (Surf_Unrecognized raw) = raw"

definition surface_from_str :: "string \<Rightarrow> surface" where
  "surface_from_str raw =
    (case map_of surface_table raw of Some v \<Rightarrow> v | None \<Rightarrow> Surf_Unrecognized raw)"

fun surface_is_recognized :: "surface \<Rightarrow> bool" where
  "surface_is_recognized (Surf_Unrecognized raw) = False"
| "surface_is_recognized v = True"

interpretation surface: semantic_vocab surface_table Surf_Unrecognized surface_as_str surface_from_str
  surface_is_recognized
proof
  fix v
  show "surface_is_recognized v \<longleftrightarrow> v \<in> snd ` set surface_table"
    by (cases v) (simp_all add: surface_table_def)
  show "\<not> surface_is_recognized v \<Longrightarrow> \<exists>s. v = Surf_Unrecognized s" by (cases v) simp_all
qed (auto simp: surface_table_def surface_from_str_def)

subsection \<open>\<open>DraftMode\<close> (\<open>src/adaptive/change_set.rs\<close>)\<close>

datatype draft_mode =
    DM_Shared
  | DM_ActorScoped
  | DM_Unrecognized string

definition draft_mode_table :: "(string \<times> draft_mode) list" where
  "draft_mode_table =
    [(''shared'', DM_Shared),
     (''actor_scoped'', DM_ActorScoped)]"

fun draft_mode_as_str :: "draft_mode \<Rightarrow> string" where
  "draft_mode_as_str DM_Shared = ''shared''"
| "draft_mode_as_str DM_ActorScoped = ''actor_scoped''"
| "draft_mode_as_str (DM_Unrecognized raw) = raw"

definition draft_mode_from_str :: "string \<Rightarrow> draft_mode" where
  "draft_mode_from_str raw =
    (case map_of draft_mode_table raw of Some v \<Rightarrow> v | None \<Rightarrow> DM_Unrecognized raw)"

fun draft_mode_is_recognized :: "draft_mode \<Rightarrow> bool" where
  "draft_mode_is_recognized (DM_Unrecognized raw) = False"
| "draft_mode_is_recognized v = True"

interpretation draft_mode: semantic_vocab draft_mode_table DM_Unrecognized draft_mode_as_str draft_mode_from_str
  draft_mode_is_recognized
proof
  fix v
  show "draft_mode_is_recognized v \<longleftrightarrow> v \<in> snd ` set draft_mode_table"
    by (cases v) (simp_all add: draft_mode_table_def)
  show "\<not> draft_mode_is_recognized v \<Longrightarrow> \<exists>s. v = DM_Unrecognized s" by (cases v) simp_all
qed (auto simp: draft_mode_table_def draft_mode_from_str_def)

subsection \<open>\<open>ConflictPolicy\<close> (\<open>src/adaptive/change_set.rs\<close>)\<close>

datatype conflict_policy =
    CP_ExposeContributors
  | CP_MergeNonOverlapping
  | CP_LastActorTakeover
  | CP_Unrecognized string

definition conflict_policy_table :: "(string \<times> conflict_policy) list" where
  "conflict_policy_table =
    [(''expose_contributors'', CP_ExposeContributors),
     (''merge_non_overlapping'', CP_MergeNonOverlapping),
     (''last_actor_takeover'', CP_LastActorTakeover)]"

fun conflict_policy_as_str :: "conflict_policy \<Rightarrow> string" where
  "conflict_policy_as_str CP_ExposeContributors = ''expose_contributors''"
| "conflict_policy_as_str CP_MergeNonOverlapping = ''merge_non_overlapping''"
| "conflict_policy_as_str CP_LastActorTakeover = ''last_actor_takeover''"
| "conflict_policy_as_str (CP_Unrecognized raw) = raw"

definition conflict_policy_from_str :: "string \<Rightarrow> conflict_policy" where
  "conflict_policy_from_str raw =
    (case map_of conflict_policy_table raw of Some v \<Rightarrow> v | None \<Rightarrow> CP_Unrecognized raw)"

fun conflict_policy_is_recognized :: "conflict_policy \<Rightarrow> bool" where
  "conflict_policy_is_recognized (CP_Unrecognized raw) = False"
| "conflict_policy_is_recognized v = True"

interpretation conflict_policy: semantic_vocab conflict_policy_table CP_Unrecognized conflict_policy_as_str conflict_policy_from_str
  conflict_policy_is_recognized
proof
  fix v
  show "conflict_policy_is_recognized v \<longleftrightarrow> v \<in> snd ` set conflict_policy_table"
    by (cases v) (simp_all add: conflict_policy_table_def)
  show "\<not> conflict_policy_is_recognized v \<Longrightarrow> \<exists>s. v = CP_Unrecognized s" by (cases v) simp_all
qed (auto simp: conflict_policy_table_def conflict_policy_from_str_def)

subsection \<open>\<open>ChangeSetState\<close> (\<open>src/adaptive/change_set.rs\<close>)\<close>

datatype change_set_state =
    CSS_Draft
  | CSS_Detached
  | CSS_Validating
  | CSS_Applying
  | CSS_Applied
  | CSS_PartiallyApplied
  | CSS_Rejected
  | CSS_Superseded
  | CSS_Expired
  | CSS_Discarded
  | CSS_Unrecognized string

definition change_set_state_table :: "(string \<times> change_set_state) list" where
  "change_set_state_table =
    [(''draft'', CSS_Draft),
     (''detached'', CSS_Detached),
     (''validating'', CSS_Validating),
     (''applying'', CSS_Applying),
     (''applied'', CSS_Applied),
     (''partially_applied'', CSS_PartiallyApplied),
     (''rejected'', CSS_Rejected),
     (''superseded'', CSS_Superseded),
     (''expired'', CSS_Expired),
     (''discarded'', CSS_Discarded)]"

fun change_set_state_as_str :: "change_set_state \<Rightarrow> string" where
  "change_set_state_as_str CSS_Draft = ''draft''"
| "change_set_state_as_str CSS_Detached = ''detached''"
| "change_set_state_as_str CSS_Validating = ''validating''"
| "change_set_state_as_str CSS_Applying = ''applying''"
| "change_set_state_as_str CSS_Applied = ''applied''"
| "change_set_state_as_str CSS_PartiallyApplied = ''partially_applied''"
| "change_set_state_as_str CSS_Rejected = ''rejected''"
| "change_set_state_as_str CSS_Superseded = ''superseded''"
| "change_set_state_as_str CSS_Expired = ''expired''"
| "change_set_state_as_str CSS_Discarded = ''discarded''"
| "change_set_state_as_str (CSS_Unrecognized raw) = raw"

definition change_set_state_from_str :: "string \<Rightarrow> change_set_state" where
  "change_set_state_from_str raw =
    (case map_of change_set_state_table raw of Some v \<Rightarrow> v | None \<Rightarrow> CSS_Unrecognized raw)"

fun change_set_state_is_recognized :: "change_set_state \<Rightarrow> bool" where
  "change_set_state_is_recognized (CSS_Unrecognized raw) = False"
| "change_set_state_is_recognized v = True"

interpretation change_set_state: semantic_vocab change_set_state_table CSS_Unrecognized change_set_state_as_str change_set_state_from_str
  change_set_state_is_recognized
proof
  fix v
  show "change_set_state_is_recognized v \<longleftrightarrow> v \<in> snd ` set change_set_state_table"
    by (cases v) (simp_all add: change_set_state_table_def)
  show "\<not> change_set_state_is_recognized v \<Longrightarrow> \<exists>s. v = CSS_Unrecognized s" by (cases v) simp_all
qed (auto simp: change_set_state_table_def change_set_state_from_str_def)

subsection \<open>\<open>EpochPolicy\<close> (\<open>src/adaptive/change_set.rs\<close>)\<close>

datatype epoch_policy =
    EP_Expire
  | EP_Retain
  | EP_Revalidate
  | EP_Unrecognized string

definition epoch_policy_table :: "(string \<times> epoch_policy) list" where
  "epoch_policy_table =
    [(''expire'', EP_Expire),
     (''retain'', EP_Retain),
     (''revalidate'', EP_Revalidate)]"

fun epoch_policy_as_str :: "epoch_policy \<Rightarrow> string" where
  "epoch_policy_as_str EP_Expire = ''expire''"
| "epoch_policy_as_str EP_Retain = ''retain''"
| "epoch_policy_as_str EP_Revalidate = ''revalidate''"
| "epoch_policy_as_str (EP_Unrecognized raw) = raw"

definition epoch_policy_from_str :: "string \<Rightarrow> epoch_policy" where
  "epoch_policy_from_str raw =
    (case map_of epoch_policy_table raw of Some v \<Rightarrow> v | None \<Rightarrow> EP_Unrecognized raw)"

fun epoch_policy_is_recognized :: "epoch_policy \<Rightarrow> bool" where
  "epoch_policy_is_recognized (EP_Unrecognized raw) = False"
| "epoch_policy_is_recognized v = True"

interpretation epoch_policy: semantic_vocab epoch_policy_table EP_Unrecognized epoch_policy_as_str epoch_policy_from_str
  epoch_policy_is_recognized
proof
  fix v
  show "epoch_policy_is_recognized v \<longleftrightarrow> v \<in> snd ` set epoch_policy_table"
    by (cases v) (simp_all add: epoch_policy_table_def)
  show "\<not> epoch_policy_is_recognized v \<Longrightarrow> \<exists>s. v = EP_Unrecognized s" by (cases v) simp_all
qed (auto simp: epoch_policy_table_def epoch_policy_from_str_def)

section \<open>Derived orders\<close>

text \<open>
  \<open>TargetRole\<close> is part of \<open>ProducerKey\<close>, and \<open>TransportLane\<close> keys the witness map: both sit in
  \<open>BTreeMap\<close> keys through their derived \<open>Ord\<close>, which compares variants by position and the
  payload of \<open>Unrecognized\<close> after that.
\<close>

fun target_role_rank :: "target_role \<Rightarrow> nat \<times> string" where
  "target_role_rank Role_Playback = (0, [])"
| "target_role_rank Role_DspEngine = (1, [])"
| "target_role_rank Role_RoomCorrection = (2, [])"
| "target_role_rank Role_Instance = (3, [])"
| "target_role_rank (Role_Unrecognized raw) = (4, raw)"

lemma target_role_rank_inj: "target_role_rank a = target_role_rank b \<Longrightarrow> a = b"
  by (cases a; cases b) simp_all

instantiation target_role :: linorder
begin

definition less_eq_target_role :: "target_role \<Rightarrow> target_role \<Rightarrow> bool" where
  "less_eq_target_role a b \<longleftrightarrow> target_role_rank a \<le> target_role_rank b"

definition less_target_role :: "target_role \<Rightarrow> target_role \<Rightarrow> bool" where
  "less_target_role a b \<longleftrightarrow> target_role_rank a < target_role_rank b"

instance
proof
  fix a b :: target_role
  show "a \<le> b \<Longrightarrow> b \<le> a \<Longrightarrow> a = b"
    unfolding less_eq_target_role_def by (metis order_antisym target_role_rank_inj)
qed (auto simp: less_eq_target_role_def less_target_role_def)

end

fun transport_lane_rank :: "transport_lane \<Rightarrow> nat \<times> string" where
  "transport_lane_rank TL_Native = (0, [])"
| "transport_lane_rank TL_Persistent = (1, [])"
| "transport_lane_rank TL_Telemetry = (2, [])"
| "transport_lane_rank (TL_Unrecognized raw) = (3, raw)"

lemma transport_lane_rank_inj: "transport_lane_rank a = transport_lane_rank b \<Longrightarrow> a = b"
  by (cases a; cases b) simp_all

instantiation transport_lane :: linorder
begin

definition less_eq_transport_lane :: "transport_lane \<Rightarrow> transport_lane \<Rightarrow> bool" where
  "less_eq_transport_lane a b \<longleftrightarrow> transport_lane_rank a \<le> transport_lane_rank b"

definition less_transport_lane :: "transport_lane \<Rightarrow> transport_lane \<Rightarrow> bool" where
  "less_transport_lane a b \<longleftrightarrow> transport_lane_rank a < transport_lane_rank b"

instance
proof
  fix a b :: transport_lane
  show "a \<le> b \<Longrightarrow> b \<le> a \<Longrightarrow> a = b"
    unfolding less_eq_transport_lane_def by (metis order_antisym transport_lane_rank_inj)
qed (auto simp: less_eq_transport_lane_def less_transport_lane_def)

end

end
