(* ===== verification/Schema_Version.thy ===== *)
theory Schema_Version
  imports Vocab
begin

text \<open>
  Schema versions and the v1 compatibility policy (\<open>src/adaptive/version.rs\<close>): parsing and printing
  of a \<open>major.minor\<close> stamp, what a consumer may do with a stamped document, and what a reader may do
  with a stored artifact. \<open>ExprLimit\<close>, which \<open>Refusal\<close> carries, is declared here.
\<close>

record schema_version =
  sv_major :: u16
  sv_minor :: u16

definition CONSUMER_SCHEMA_VERSION :: schema_version where
  "CONSUMER_SCHEMA_VERSION = \<lparr>sv_major = 1, sv_minor = 0\<rparr>"

definition STORED_ARTIFACT_SCHEMA_VERSION :: schema_version where
  "STORED_ARTIFACT_SCHEMA_VERSION = \<lparr>sv_major = 1, sv_minor = 0\<rparr>"

section \<open>Parsing and printing\<close>

definition digits_value :: "string \<Rightarrow> nat" where
  "digits_value = foldl (\<lambda>n c. 10 * n + (of_char c - 48)) 0"

definition parse_component :: "string \<Rightarrow> u16 option" where
  "parse_component raw =
     (if raw = [] \<or> \<not> list_all is_ascii_digit raw then None
      else if digits_value raw < 2 ^ 16 then Some (of_nat (digits_value raw)) else None)"

definition sv_parse :: "string \<Rightarrow> schema_version option" where
  "sv_parse raw =
     (case split_on CHR ''.'' raw of
        a # b # extra \<Rightarrow>
          (case parse_component a of
             None \<Rightarrow> None
           | Some ma \<Rightarrow>
               (case parse_component b of
                  None \<Rightarrow> None
                | Some mi \<Rightarrow>
                    if list_all (\<lambda>e. parse_component e \<noteq> None) extra
                    then Some \<lparr>sv_major = ma, sv_minor = mi\<rparr> else None))
      | _ \<Rightarrow> None)"

fun show_nat :: "nat \<Rightarrow> string" where
  "show_nat n =
     (if n < 10 then [char_of (48 + n)] else show_nat (n div 10) @ [char_of (48 + n mod 10)])"

declare show_nat.simps [simp del]

definition sv_display :: "schema_version \<Rightarrow> string" where
  "sv_display v = show_nat (unat (sv_major v)) @ ''.'' @ show_nat (unat (sv_minor v))"

lemma digit_char: "d < 10 \<Longrightarrow> is_ascii_digit (char_of (48 + d :: nat))"
  by (simp add: is_ascii_digit_def)

lemma digits_value_snoc: "digits_value (xs @ [c]) = 10 * digits_value xs + (of_char c - 48)"
  by (simp add: digits_value_def)

lemma show_nat_digits: "list_all is_ascii_digit (show_nat n)"
  by (induction n rule: show_nat.induct)
    (subst show_nat.simps, simp add: digit_char)

lemma show_nat_nonempty [simp]: "show_nat n \<noteq> []"
  by (subst show_nat.simps) simp

lemma digits_value_show_nat: "digits_value (show_nat n) = n"
proof (induction n rule: show_nat.induct)
  case (1 n)
  show ?case
  proof (cases "n < 10")
    case True
    then show ?thesis by (subst show_nat.simps) (simp add: digits_value_def)
  next
    case False
    with 1 have "digits_value (show_nat (n div 10)) = n div 10" by simp
    with False show ?thesis
      by (subst show_nat.simps) (simp add: digits_value_snoc)
  qed
qed

lemma show_nat_no_dot: "CHR ''.'' \<notin> set (show_nat n)"
  using show_nat_digits [of n] by (auto simp: list_all_iff is_ascii_digit_def)

lemma parse_component_show:
  "parse_component (show_nat (unat (x :: u16))) = Some x"
  using unsigned_less [of x, where 'a = nat] by (simp add: parse_component_def show_nat_digits digits_value_show_nat)

text \<open>Printing a version and parsing it back is the identity.\<close>

lemma sv_parse_display: "sv_parse (sv_display v) = Some v"
  by (simp add: sv_parse_def sv_display_def split_on_append split_on_no_sep show_nat_no_dot
      parse_component_show)

lemma parse_component_Some:
  "parse_component raw = Some x \<Longrightarrow> unat x = digits_value raw \<and> list_all is_ascii_digit raw"
  by (auto simp: parse_component_def unat_of_nat split: if_splits)

lemma sv_parse_shape:
  assumes "sv_parse raw = Some v"
  shows "\<exists>a b extra. split_on CHR ''.'' raw = a # b # extra \<and>
    parse_component a = Some (sv_major v) \<and> parse_component b = Some (sv_minor v) \<and>
    (\<forall>e \<in> set extra. parse_component e \<noteq> None)"
  using assms by (auto simp: sv_parse_def list_all_iff split: list.splits option.splits if_splits)

section \<open>Compatibility\<close>

datatype expr_limit =
    DepthExceeded (found_depth: nat) (max_depth: nat)
  | NodesExceeded (found_nodes: nat) (max_nodes: nat)

datatype refusal =
    UnsupportedMajor u16 u16
  | UnparsableVersion string
  | MissingVersion
  | Malformed string
  | ConstraintTooComplex string expr_limit

datatype compatibility =
    Supported
  | SupportedWithUnknownAdditions
  | CompatRefused refusal

definition compatibility_for :: "schema_version \<Rightarrow> schema_version \<Rightarrow> compatibility" where
  "compatibility_for self consumer =
     (if sv_major self \<noteq> sv_major consumer
      then CompatRefused (UnsupportedMajor (sv_major self) (sv_major consumer))
      else if sv_minor self > sv_minor consumer then SupportedWithUnknownAdditions
      else Supported)"

fun is_usable :: "compatibility \<Rightarrow> bool" where
  "is_usable Supported = True"
| "is_usable SupportedWithUnknownAdditions = True"
| "is_usable (CompatRefused r) = False"

fun compat_refusal :: "compatibility \<Rightarrow> refusal option" where
  "compat_refusal (CompatRefused reason) = Some reason"
| "compat_refusal c = None"

datatype stored_compatibility =
    Readable
  | ReadableWithUnknownAdditions
  | UnstampedAdoptOnWrite schema_version
  | StoredRefused refusal

definition stored_evaluate :: "schema_version option \<Rightarrow> schema_version \<Rightarrow> stored_compatibility" where
  "stored_evaluate stamp reader =
     (case stamp of
        None \<Rightarrow> UnstampedAdoptOnWrite reader
      | Some found \<Rightarrow>
          (case compatibility_for found reader of
             Supported \<Rightarrow> Readable
           | SupportedWithUnknownAdditions \<Rightarrow> ReadableWithUnknownAdditions
           | CompatRefused reason \<Rightarrow> StoredRefused reason))"

fun is_readable :: "stored_compatibility \<Rightarrow> bool" where
  "is_readable (StoredRefused r) = False"
| "is_readable c = True"

fun adoption_version :: "stored_compatibility \<Rightarrow> schema_version option" where
  "adoption_version (UnstampedAdoptOnWrite v) = Some v"
| "adoption_version c = None"

lemma is_usable_iff: "is_usable (compatibility_for d c) \<longleftrightarrow> sv_major d = sv_major c"
  by (simp add: compatibility_for_def)

lemma compat_refusal_None_iff: "compat_refusal c = None \<longleftrightarrow> is_usable c"
  by (cases c) simp_all

text \<open>Reading an artifact and adopting it makes it readable without a further adoption.\<close>

lemma adoption_is_stable:
  "adoption_version (stored_evaluate stamp reader) = Some v \<Longrightarrow>
     stored_evaluate (Some v) reader = Readable"
  by (auto simp: stored_evaluate_def compatibility_for_def split: option.splits compatibility.splits
      if_splits)

end
