(* ===== verification/Float64.thy ===== *)
theory Float64
  imports Uhc_Prelude
begin

text \<open>
  Rust's \<open>f64\<close> as far as the modelled code observes it: comparison, equality and the conversion
  from \<open>i64\<close>. A finite double is the rational number it denotes (the sign of zero is not kept:
  nothing in the modelled code can tell \<open>-0.0\<close> from \<open>0.0\<close>); the infinities and NaN are values of
  their own. NaN is unequal to itself, which is why the derived \<open>PartialEq\<close> of every type that
  holds an \<open>f64\<close> is not HOL equality.
\<close>

datatype f64 = NaN | NegInf | PosInf | Fin rat

fun f64_eq :: "f64 \<Rightarrow> f64 \<Rightarrow> bool" where
  "f64_eq NaN y = False"
| "f64_eq x NaN = False"
| "f64_eq x y = (x = y)"

fun f64_le :: "f64 \<Rightarrow> f64 \<Rightarrow> bool" where
  "f64_le NaN y = False"
| "f64_le x NaN = False"
| "f64_le NegInf y = True"
| "f64_le x PosInf = True"
| "f64_le (Fin a) (Fin b) = (a \<le> b)"
| "f64_le x y = False"

fun is_nan :: "f64 \<Rightarrow> bool" where
  "is_nan NaN = True"
| "is_nan x = False"

fun is_finite :: "f64 \<Rightarrow> bool" where
  "is_finite (Fin q) = True"
| "is_finite x = False"

lemma f64_eq_iff: "f64_eq x y \<longleftrightarrow> x = y \<and> \<not> is_nan x"
  by (cases x; cases y) auto

lemma f64_le_trans: "f64_le x y \<Longrightarrow> f64_le y z \<Longrightarrow> f64_le x z"
  by (cases x; cases y; cases z) auto

lemma f64_le_total: "\<not> is_nan x \<Longrightarrow> \<not> is_nan y \<Longrightarrow> f64_le x y \<or> f64_le y x"
  by (cases x; cases y) auto

lemma f64_le_nan: "f64_le x y \<Longrightarrow> \<not> is_nan x \<and> \<not> is_nan y"
  by (cases x; cases y) auto

text \<open>
  \<open>v as f64\<close> for an \<open>i64\<close>: exact up to 53 significant bits, otherwise to the nearest, ties to the
  even significand.
\<close>

fun bit_length :: "nat \<Rightarrow> nat" where
  "bit_length n = (if n = 0 then 0 else Suc (bit_length (n div 2)))"

declare bit_length.simps [simp del]

definition round_nat :: "nat \<Rightarrow> nat" where
  "round_nat n =
     (let e = bit_length n - 53; q = n div 2 ^ e; r = n mod 2 ^ e in
      if e = 0 then n
      else if 2 * r > 2 ^ e \<or> (2 * r = 2 ^ e \<and> odd q) then (q + 1) * 2 ^ e
      else q * 2 ^ e)"

definition i64_to_f64 :: "i64 \<Rightarrow> f64" where
  "i64_to_f64 v = Fin (of_int (sgn (sint v) * int (round_nat (nat \<bar>sint v\<bar>))))"

lemma bit_length_le: "n < 2 ^ k \<Longrightarrow> bit_length n \<le> k"
proof (induction k arbitrary: n)
  case 0
  then show ?case by (simp add: bit_length.simps)
next
  case (Suc k)
  then have "bit_length (n div 2) \<le> k" by (simp add: less_mult_imp_div_less mult.commute)
  then show ?case by (subst bit_length.simps) simp
qed

lemma round_nat_exact: "n < 2 ^ 53 \<Longrightarrow> round_nat n = n"
  using bit_length_le [of n 53] by (simp add: round_nat_def Let_def)

lemma round_nat_error: "\<bar>int (round_nat n) - int n\<bar> * 2 \<le> 2 ^ (bit_length n - 53)"
proof -
  define e q r where "e = bit_length n - 53" and "q = n div 2 ^ e" and "r = n mod 2 ^ e"
  have n: "n = q * 2 ^ e + r" unfolding q_def r_def by (rule div_mult_mod_eq [symmetric])
  have r: "r < 2 ^ e" by (simp add: r_def)
  have ni: "int n = int q * 2 ^ e + int r"
    by (subst n) simp
  have "round_nat n = (if e = 0 then n else if 2 * r > 2 ^ e \<or> (2 * r = 2 ^ e \<and> odd q)
      then (q + 1) * 2 ^ e else q * 2 ^ e)"
    by (simp add: round_nat_def Let_def e_def q_def r_def)
  moreover have "2 * r > 2 ^ e \<or> 2 * r = 2 ^ e \<Longrightarrow> \<bar>int ((q + 1) * 2 ^ e) - int n\<bar> * 2 \<le> 2 ^ e"
  proof -
    assume "2 * r > 2 ^ e \<or> 2 * r = 2 ^ e"
    then have "2 ^ e \<le> 2 * r" by auto
    then have "int (2 ^ e) \<le> int (2 * r)" by (simp only: of_nat_le_iff)
    moreover have "int r < int (2 ^ e)" using r by (simp only: of_nat_less_iff)
    ultimately show ?thesis by (simp add: ni algebra_simps)
  qed
  moreover have "\<not> 2 * r > 2 ^ e \<Longrightarrow> \<bar>int (q * 2 ^ e) - int n\<bar> * 2 \<le> 2 ^ e"
  proof -
    assume "\<not> 2 * r > 2 ^ e"
    then have "int (2 * r) \<le> int (2 ^ e)" by (simp only: of_nat_le_iff not_less)
    then show ?thesis by (simp add: ni)
  qed
  ultimately show ?thesis by (auto simp: e_def)
qed

lemma i64_to_f64_not_nan [simp]: "\<not> is_nan (i64_to_f64 v)"
  by (simp add: i64_to_f64_def)

lemma i64_to_f64_exact: "\<bar>sint v\<bar> < 2 ^ 53 \<Longrightarrow> i64_to_f64 v = Fin (of_int (sint v))"
proof -
  assume "\<bar>sint v\<bar> < 2 ^ 53"
  then have "nat \<bar>sint v\<bar> < 2 ^ 53" by (simp add: nat_less_iff)
  then have "round_nat (nat \<bar>sint v\<bar>) = nat \<bar>sint v\<bar>" by (rule round_nat_exact)
  then have "sgn (sint v) * int (round_nat (nat \<bar>sint v\<bar>)) = sint v"
    by (simp add: sgn_mult_abs)
  then show ?thesis by (simp only: i64_to_f64_def)
qed

end
