(* ===== verification/Json.thy ===== *)
theory Json
  imports Float64
begin

text \<open>
  The values of \<open>serde_json\<close> that the hand-written (de)serializers of \<open>src/adaptive\<close> build and
  inspect. The datatype is the crate's documented \<open>Value\<close>; an object lists its members, each key
  once. How the crate stores a number is its own business: the conversions the code calls are a
  parameter \<open>json_ops\<close>, and the locale \<open>json_numbers\<close> states the two facts a round trip relies on: an
  integer and a finite double are read from a \<open>Value\<close> as they were put into it. They concern the value
  in memory, which holds the number itself; printing a double and parsing the text is exact only under the
  crate's feature \<open>float_roundtrip\<close>, which the build does not set. A double that is not finite becomes null.
  The interpretation at \<open>plain_ops\<close> shows the facts can hold.
\<close>

datatype json_number = PosInt u64 | NegInt i64 | Float f64

datatype json =
    JNull
  | JBool bool
  | JNum json_number
  | JStr string
  | JArr "json list"
  | JObj "(string \<times> json) list"

record json_ops =
  ser_i64 :: "i64 \<Rightarrow> json"
  ser_f64 :: "f64 \<Rightarrow> json"
  as_i64 :: "json \<Rightarrow> i64 option"
  as_f64 :: "json \<Rightarrow> f64 option"

locale json_numbers =
  fixes ops :: json_ops
  assumes as_i64_ser: "as_i64 ops (ser_i64 ops i) = Some i"
    and as_f64_ser: "is_finite x \<Longrightarrow> as_f64 ops (ser_f64 ops x) = Some x"

fun as_object :: "json \<Rightarrow> (string \<times> json) list option" where
  "as_object (JObj ob) = Some ob"
| "as_object j = None"

fun as_str :: "json \<Rightarrow> string option" where
  "as_str (JStr s) = Some s"
| "as_str j = None"

fun as_array :: "json \<Rightarrow> json list option" where
  "as_array (JArr xs) = Some xs"
| "as_array j = None"

fun as_bool :: "json \<Rightarrow> bool option" where
  "as_bool (JBool b) = Some b"
| "as_bool j = None"

definition plain_ops :: json_ops where
  "plain_ops =
     \<lparr>ser_i64 = (\<lambda>i. JNum (NegInt i)),
      ser_f64 = (\<lambda>x. if is_finite x then JNum (Float x) else JNull),
      as_i64 = (\<lambda>j. case j of JNum (NegInt i) \<Rightarrow> Some i | _ \<Rightarrow> None),
      as_f64 = (\<lambda>j. case j of JNum (Float x) \<Rightarrow> Some x | JNum (NegInt i) \<Rightarrow> Some (i64_to_f64 i)
                     | _ \<Rightarrow> None)\<rparr>"

interpretation plain: json_numbers plain_ops
  by unfold_locales (simp_all add: plain_ops_def)

text \<open>The members of a value are smaller than the value: what the readers recurse on.\<close>

lemma size_member_obj: "map_of ob k = Some j \<Longrightarrow> size j < size (JObj ob)"
  by (induction ob) (auto split: if_splits)

lemma size_in_obj: "(k, j) \<in> set ob \<Longrightarrow> size j < size (JObj ob)"
  by (induction ob) auto

lemma size_in_arr: "j \<in> set xs \<Longrightarrow> size j < size (JArr xs)"
  by (induction xs) auto

end
