(* ===== verification/Control_Value.thy ===== *)
theory Control_Value
  imports Json Schema_Version
begin

text \<open>
  Values, lanes, grounding and provenance (\<open>src/adaptive/value.rs\<close>), with the newtypes of
  \<open>src/adaptive/document.rs\<close> they mention. \<open>ControlValue\<close> has a hand-written wire form, which is
  modelled on both sides and proved lossless.
\<close>

section \<open>Newtypes\<close>

datatype timestamp = Timestamp (ts_str: string)

datatype revision = Revision (rev_no: u64)

datatype producer_epoch = ProducerEpoch (epoch_no: u64)

type_synonym extensions = "(string \<times> json) list"

instantiation revision :: linorder
begin

definition less_eq_revision :: "revision \<Rightarrow> revision \<Rightarrow> bool" where
  "less_eq_revision a b \<longleftrightarrow> rev_no a \<le> rev_no b"

definition less_revision :: "revision \<Rightarrow> revision \<Rightarrow> bool" where
  "less_revision a b \<longleftrightarrow> rev_no a < rev_no b"

instance
  by standard (auto simp: less_eq_revision_def less_revision_def revision.expand)

end

instantiation producer_epoch :: linorder
begin

definition less_eq_producer_epoch :: "producer_epoch \<Rightarrow> producer_epoch \<Rightarrow> bool" where
  "less_eq_producer_epoch a b \<longleftrightarrow> epoch_no a \<le> epoch_no b"

definition less_producer_epoch :: "producer_epoch \<Rightarrow> producer_epoch \<Rightarrow> bool" where
  "less_producer_epoch a b \<longleftrightarrow> epoch_no a < epoch_no b"

instance
  by standard (auto simp: less_eq_producer_epoch_def less_producer_epoch_def producer_epoch.expand)

end

definition revision_next :: "revision \<Rightarrow> revision" where
  "revision_next r = Revision (rev_no r + 1)"

lemma revision_next_gt: "rev_no r \<noteq> - 1 \<Longrightarrow> r < revision_next r"
  by (simp add: less_revision_def revision_next_def wrap_succ_gt)

section \<open>Control values\<close>

datatype control_value =
    CV_Empty
  | CV_Bool bool
  | CV_Integer i64
  | CV_Decimal f64
  | CV_Text string
  | CV_Choice string
  | CV_Composite "(string \<times> control_value) list"
  | CV_List "control_value list"
  | CV_Unrecognized string json

fun type_name :: "control_value \<Rightarrow> string" where
  "type_name CV_Empty = ''empty''"
| "type_name (CV_Bool b) = ''bool''"
| "type_name (CV_Integer i) = ''integer''"
| "type_name (CV_Decimal d) = ''decimal''"
| "type_name (CV_Text t) = ''text''"
| "type_name (CV_Choice c) = ''choice''"
| "type_name (CV_Composite m) = ''composite''"
| "type_name (CV_List l) = ''list''"
| "type_name (CV_Unrecognized kind raw) = kind"

fun cv_is_recognized :: "control_value \<Rightarrow> bool" where
  "cv_is_recognized (CV_Unrecognized kind raw) = False"
| "cv_is_recognized v = True"

fun is_empty_identity :: "control_value \<Rightarrow> bool" where
  "is_empty_identity CV_Empty = True"
| "is_empty_identity v = False"

fun cv_as_f64 :: "control_value \<Rightarrow> f64 option" where
  "cv_as_f64 (CV_Integer v) = Some (i64_to_f64 v)"
| "cv_as_f64 (CV_Decimal v) = Some v"
| "cv_as_f64 v = None"

text \<open>
  The derived \<open>PartialEq\<close>: structural, except that a NaN decimal is unequal to itself.
  \<open>cv_nan_free\<close> says no decimal inside the value is NaN.
\<close>

fun cv_eq :: "control_value \<Rightarrow> control_value \<Rightarrow> bool" where
  "cv_eq CV_Empty b = (case b of CV_Empty \<Rightarrow> True | _ \<Rightarrow> False)"
| "cv_eq (CV_Bool v) b = (case b of CV_Bool v' \<Rightarrow> v = v' | _ \<Rightarrow> False)"
| "cv_eq (CV_Integer v) b = (case b of CV_Integer v' \<Rightarrow> v = v' | _ \<Rightarrow> False)"
| "cv_eq (CV_Decimal v) b = (case b of CV_Decimal v' \<Rightarrow> f64_eq v v' | _ \<Rightarrow> False)"
| "cv_eq (CV_Text v) b = (case b of CV_Text v' \<Rightarrow> v = v' | _ \<Rightarrow> False)"
| "cv_eq (CV_Choice v) b = (case b of CV_Choice v' \<Rightarrow> v = v' | _ \<Rightarrow> False)"
| "cv_eq (CV_Composite m) b =
     (case b of
        CV_Composite m' \<Rightarrow> list_all2 (\<lambda>x y. fst x = fst y \<and> cv_eq (snd x) (snd y)) m m'
      | _ \<Rightarrow> False)"
| "cv_eq (CV_List l) b = (case b of CV_List l' \<Rightarrow> list_all2 cv_eq l l' | _ \<Rightarrow> False)"
| "cv_eq (CV_Unrecognized k r) b =
     (case b of CV_Unrecognized k' r' \<Rightarrow> k = k' \<and> r = r' | _ \<Rightarrow> False)"

fun cv_nan_free :: "control_value \<Rightarrow> bool" where
  "cv_nan_free (CV_Decimal d) = (\<not> is_nan d)"
| "cv_nan_free (CV_Composite m) = (\<forall>x \<in> set m. cv_nan_free (snd x))"
| "cv_nan_free (CV_List l) = (\<forall>x \<in> set l. cv_nan_free x)"
| "cv_nan_free v = True"

lemma list_all2_eq_iff:
  "(\<And>x y. x \<in> set xs \<Longrightarrow> R x y \<longleftrightarrow> x = y \<and> P x) \<Longrightarrow>
     list_all2 R xs ys \<longleftrightarrow> xs = ys \<and> (\<forall>x \<in> set xs. P x)"
proof (induction xs arbitrary: ys)
  case (Cons x xs)
  then show ?case by (cases ys) auto
qed auto

lemma snd_in_snds: "snd x \<in> Basic_BNFs.snds x"
  by (simp add: snds.intros)

lemma cv_eq_iff: "cv_eq a b \<longleftrightarrow> a = b \<and> cv_nan_free a"
proof (induction a arbitrary: b)
  case (CV_Composite m)
  show ?case
  proof (cases b)
    case [simp]: (CV_Composite m')
    have "list_all2 (\<lambda>x y. fst x = fst y \<and> cv_eq (snd x) (snd y)) m m' \<longleftrightarrow>
        m = m' \<and> (\<forall>x \<in> set m. cv_nan_free (snd x))"
    proof (rule list_all2_eq_iff)
      fix x y :: "string \<times> control_value"
      assume "x \<in> set m"
      then have "cv_eq (snd x) (snd y) \<longleftrightarrow> snd x = snd y \<and> cv_nan_free (snd x)"
        by (rule CV_Composite.IH [OF _ snd_in_snds])
      then show "(fst x = fst y \<and> cv_eq (snd x) (snd y)) \<longleftrightarrow> x = y \<and> cv_nan_free (snd x)"
        by (auto simp: prod_eq_iff)
    qed
    then show ?thesis by simp
  qed auto
next
  case (CV_List l)
  show ?case
  proof (cases b)
    case (CV_List l')
    then show ?thesis using list_all2_eq_iff [of l cv_eq cv_nan_free l'] CV_List.IH by simp
  qed auto
qed (case_tac b; auto simp: f64_eq_iff)+

section \<open>The wire form\<close>

datatype de_error =
    NotAnObject
  | MissingType
  | MissingField string
  | WrongPayload string
  | BadMember string de_error

fun cv_to_json :: "json_ops \<Rightarrow> control_value \<Rightarrow> json" where
  "cv_to_json ops CV_Empty = JObj [(''type'', JStr ''empty'')]"
| "cv_to_json ops (CV_Bool v) = JObj [(''type'', JStr ''bool''), (''value'', JBool v)]"
| "cv_to_json ops (CV_Integer v) = JObj [(''type'', JStr ''integer''), (''value'', ser_i64 ops v)]"
| "cv_to_json ops (CV_Decimal v) = JObj [(''type'', JStr ''decimal''), (''value'', ser_f64 ops v)]"
| "cv_to_json ops (CV_Text v) = JObj [(''type'', JStr ''text''), (''value'', JStr v)]"
| "cv_to_json ops (CV_Choice v) = JObj [(''type'', JStr ''choice''), (''value'', JStr v)]"
| "cv_to_json ops (CV_Composite m) =
     JObj [(''type'', JStr ''composite''),
           (''value'', JObj (map (\<lambda>x. (fst x, cv_to_json ops (snd x))) m))]"
| "cv_to_json ops (CV_List l) =
     JObj [(''type'', JStr ''list''), (''value'', JArr (map (cv_to_json ops) l))]"
| "cv_to_json ops (CV_Unrecognized kind raw) =
     (if raw = JNull then JObj [(''type'', JStr kind)]
      else JObj [(''type'', JStr kind), (''value'', raw)])"

definition require :: "string \<Rightarrow> json option \<Rightarrow> de_error + json" where
  "require label payload = (case payload of None \<Rightarrow> Inl (MissingField label) | Some j \<Rightarrow> Inr j)"

definition expect :: "string \<Rightarrow> ('b \<Rightarrow> 'c) \<Rightarrow> (json \<Rightarrow> 'b option) \<Rightarrow> json option \<Rightarrow> de_error + 'c" where
  "expect label con read payload =
     (case require label payload of
        Inl e \<Rightarrow> Inl e
      | Inr j \<Rightarrow> (case read j of None \<Rightarrow> Inl (WrongPayload label) | Some b \<Rightarrow> Inr (con b)))"

function (sequential) cv_from_json :: "json_ops \<Rightarrow> json \<Rightarrow> de_error + control_value"
  and cv_members :: "json_ops \<Rightarrow> (string \<times> control_value) list \<Rightarrow> (string \<times> json) list \<Rightarrow>
    de_error + (string \<times> control_value) list"
  and cv_items :: "json_ops \<Rightarrow> json list \<Rightarrow> de_error + control_value list"
where
  "cv_from_json ops (JObj obj) =
     (case Option.bind (map_of obj ''type'') as_str of
        None \<Rightarrow> Inl MissingType
      | Some kind \<Rightarrow>
          if kind = ''empty'' then Inr CV_Empty
          else if kind = ''bool'' then expect kind CV_Bool as_bool (map_of obj ''value'')
          else if kind = ''integer'' then expect kind CV_Integer (as_i64 ops) (map_of obj ''value'')
          else if kind = ''decimal'' then expect kind CV_Decimal (as_f64 ops) (map_of obj ''value'')
          else if kind = ''text'' then expect kind CV_Text as_str (map_of obj ''value'')
          else if kind = ''choice'' then expect kind CV_Choice as_str (map_of obj ''value'')
          else if kind = ''composite'' then
            (case map_of obj ''value'' of
               None \<Rightarrow> Inl (MissingField kind)
             | Some (JObj members) \<Rightarrow>
                 (case cv_members ops [] members of Inl e \<Rightarrow> Inl e | Inr out \<Rightarrow> Inr (CV_Composite out))
             | Some _ \<Rightarrow> Inl (WrongPayload kind))
          else if kind = ''list'' then
            (case map_of obj ''value'' of
               None \<Rightarrow> Inl (MissingField kind)
             | Some (JArr items) \<Rightarrow>
                 (case cv_items ops items of Inl e \<Rightarrow> Inl e | Inr out \<Rightarrow> Inr (CV_List out))
             | Some _ \<Rightarrow> Inl (WrongPayload kind))
          else Inr (CV_Unrecognized kind
                 (case map_of obj ''value'' of None \<Rightarrow> JNull | Some j \<Rightarrow> j)))"
| "cv_from_json ops j = Inl NotAnObject"
| "cv_members ops out [] = Inr out"
| "cv_members ops out ((key, member) # rest) =
     (case cv_from_json ops member of
        Inl e \<Rightarrow> Inl (BadMember key e)
      | Inr parsed \<Rightarrow> cv_members ops (bt_insert key parsed out) rest)"
| "cv_items ops [] = Inr []"
| "cv_items ops (item # rest) =
     (case cv_from_json ops item of
        Inl e \<Rightarrow> Inl (BadMember ''list'' e)
      | Inr v \<Rightarrow> (case cv_items ops rest of Inl e \<Rightarrow> Inl e | Inr vs \<Rightarrow> Inr (v # vs)))"
  by pat_completeness auto

termination
  by (relation "measure (\<lambda>x. case x of Inl (ops, j) \<Rightarrow> 2 * size j
        | Inr (Inl (ops, out, ms)) \<Rightarrow> 2 * size (JObj ms) - 1 | Inr (Inr (ops, xs)) \<Rightarrow> 2 * size (JArr xs) - 1)")
    (auto dest!: size_member_obj)

text \<open>
  What a value must satisfy for its wire form to be faithful: decimals finite (JSON has no NaN),
  composite members in key order (they are a \<open>BTreeMap\<close>), and an unrecognized kind that is really
  not one of the known ones.
\<close>

definition known_kinds :: "string list" where
  "known_kinds = [''empty'', ''bool'', ''integer'', ''decimal'', ''text'', ''choice'', ''composite'',
     ''list'']"

fun cv_wire_ok :: "control_value \<Rightarrow> bool" where
  "cv_wire_ok (CV_Decimal d) = is_finite d"
| "cv_wire_ok (CV_Composite m) = (bt_wf m \<and> (\<forall>x \<in> set m. cv_wire_ok (snd x)))"
| "cv_wire_ok (CV_List l) = (\<forall>x \<in> set l. cv_wire_ok x)"
| "cv_wire_ok (CV_Unrecognized kind raw) = (kind \<notin> set known_kinds)"
| "cv_wire_ok v = True"

lemma bt_insert_snoc: "bt_wf (m @ [(k, v)]) \<Longrightarrow> bt_insert k v m = m @ [(k, v)]"
  by (induction m) (auto simp: bt_wf_def sorted_wrt_append)

lemma bt_wf_append1: "bt_wf (xs @ ys) \<Longrightarrow> bt_wf xs"
  by (simp add: bt_wf_def sorted_wrt_append)

context json_numbers
begin

lemma cv_members_roundtrip:
  assumes "\<And>x. x \<in> set m \<Longrightarrow> cv_from_json ops (cv_to_json ops (snd x)) = Inr (snd x)"
    and "bt_wf (out @ m)"
  shows "cv_members ops out (map (\<lambda>x. (fst x, cv_to_json ops (snd x))) m) = Inr (out @ m)"
  using assms
proof (induction m arbitrary: out)
  case (Cons x m)
  obtain k v where x: "x = (k, v)" by (cases x)
  have "bt_wf (out @ [(k, v)])"
    using Cons.prems(2) bt_wf_append1 [of "out @ [(k, v)]" m] by (simp add: x)
  then have "bt_insert k v out = out @ [(k, v)]" by (rule bt_insert_snoc)
  moreover have "cv_members ops (out @ [x]) (map (\<lambda>x. (fst x, cv_to_json ops (snd x))) m) =
      Inr ((out @ [x]) @ m)"
    using Cons.prems by (intro Cons.IH) auto
  moreover have "cv_from_json ops (cv_to_json ops v) = Inr v"
    using Cons.prems(1) [of x] by (simp add: x)
  ultimately show ?case by (simp add: x)
qed simp

lemma cv_items_roundtrip:
  "(\<And>x. x \<in> set l \<Longrightarrow> cv_from_json ops (cv_to_json ops x) = Inr x) \<Longrightarrow>
     cv_items ops (map (cv_to_json ops) l) = Inr l"
  by (induction l) auto

lemma cv_roundtrip: "cv_wire_ok v \<Longrightarrow> cv_from_json ops (cv_to_json ops v) = Inr v"
proof (induction v)
  case (CV_Composite m)
  have "cv_members ops [] (map (\<lambda>x. (fst x, cv_to_json ops (snd x))) m) = Inr ([] @ m)"
  proof (rule cv_members_roundtrip)
    fix x assume "x \<in> set m"
    then show "cv_from_json ops (cv_to_json ops (snd x)) = Inr (snd x)"
      using CV_Composite.prems by (intro CV_Composite.IH [OF _ snd_in_snds]) auto
  qed (use CV_Composite.prems in simp)
  then show ?case by simp
next
  case (CV_List l)
  then have "cv_items ops (map (cv_to_json ops) l) = Inr l"
    by (intro cv_items_roundtrip) auto
  then show ?case by simp
qed (auto simp: expect_def require_def as_i64_ser as_f64_ser known_kinds_def)

end

section \<open>Lanes\<close>

record freshness =
  fr_observed_at :: "timestamp option"
  fr_age_ms :: "u64 option"
  fr_stale :: bool

definition freshness_default :: freshness where
  "freshness_default = \<lparr>fr_observed_at = None, fr_age_ms = None, fr_stale = False\<rparr>"

definition freshness_is_default :: "freshness \<Rightarrow> bool" where
  "freshness_is_default f \<longleftrightarrow> fr_observed_at f = None \<and> fr_age_ms f = None \<and> \<not> fr_stale f"

record provenance =
  pv_authority :: authority
  pv_source :: source_class
  pv_catalog_ref :: "string option"
  pv_revision :: "revision option"

definition provenance_runtime :: provenance where
  "provenance_runtime = \<lparr>pv_authority = Auth_Runtime, pv_source = Src_LiveProtocol,
     pv_catalog_ref = None, pv_revision = None\<rparr>"

record lane_value =
  lv_lane :: value_lane
  lv_grounding :: grounding
  lv_value :: "control_value option"
  lv_ungrounded_reason :: "reason_code option"
  lv_provenance :: provenance
  lv_freshness :: freshness
  lv_extensions :: extensions

definition lv_grounded :: "value_lane \<Rightarrow> control_value \<Rightarrow> provenance \<Rightarrow> lane_value" where
  "lv_grounded lane value prov =
     \<lparr>lv_lane = lane, lv_grounding = Gr_Grounded, lv_value = Some value, lv_ungrounded_reason = None,
      lv_provenance = prov, lv_freshness = freshness_default, lv_extensions = []\<rparr>"

definition lv_ungrounded :: "value_lane \<Rightarrow> reason_code \<Rightarrow> provenance \<Rightarrow> lane_value" where
  "lv_ungrounded lane reason prov =
     \<lparr>lv_lane = lane, lv_grounding = Gr_Ungrounded, lv_value = None,
      lv_ungrounded_reason = Some reason, lv_provenance = prov, lv_freshness = freshness_default,
      lv_extensions = []\<rparr>"

definition is_consistent :: "lane_value \<Rightarrow> bool" where
  "is_consistent lv =
     (case lv_grounding lv of
        Gr_Grounded \<Rightarrow> lv_value lv \<noteq> None
      | Gr_Ungrounded \<Rightarrow> lv_value lv = None \<and> lv_ungrounded_reason lv \<noteq> None
      | Gr_Unrecognized raw \<Rightarrow> False)"

definition grounded_value :: "lane_value \<Rightarrow> control_value option" where
  "grounded_value lv = (case lv_grounding lv of Gr_Grounded \<Rightarrow> lv_value lv | _ \<Rightarrow> None)"

definition lane_value_nan_free :: "lane_value \<Rightarrow> bool" where
  "lane_value_nan_free lv \<longleftrightarrow> (case lv_value lv of None \<Rightarrow> True | Some v \<Rightarrow> cv_nan_free v)"

record divergence =
  dv_kind :: divergence_kind
  dv_lanes :: "value_lane \<times> value_lane"
  dv_detected_at :: "timestamp option"
  dv_display_text_key :: "string option"

text \<open>In a consistent lane, a grounded reading and an absence are told apart for certain.\<close>

lemma is_consistent_grounded:
  "is_consistent lv \<Longrightarrow> grounded_value lv = None \<longleftrightarrow> lv_grounding lv = Gr_Ungrounded"
  by (auto simp: is_consistent_def grounded_value_def split: grounding.splits)

end
