(* ===== verification/Control_Model.thy ===== *)
theory Control_Model
  imports Control_Value
begin

text \<open>
  Control descriptors (\<open>src/adaptive/control.rs\<close>): identity, reasons, availability, choice sets and
  their catalog enrichment, ranges, apply semantics, and the queries of \<open>Control\<close>. The \<open>*_nan_free\<close>
  predicates accompany the derived \<open>PartialEq\<close>: two values are \<open>==\<close> exactly when they are the same
  and hold no NaN.
\<close>

datatype control_id = ControlId (cid_str: string)

record reason =
  rs_code :: reason_code
  rs_scope :: reason_scope
  rs_display_text_key :: "string option"
  rs_detail :: "string option"

definition reason_observed :: "reason_code \<Rightarrow> reason" where
  "reason_observed code = \<lparr>rs_code = code, rs_scope = Scope_Observed, rs_display_text_key = None,
     rs_detail = None\<rparr>"

definition reason_draft :: "reason_code \<Rightarrow> reason" where
  "reason_draft code = \<lparr>rs_code = code, rs_scope = Scope_Draft, rs_display_text_key = None,
     rs_detail = None\<rparr>"

section \<open>Availability\<close>

record availability =
  av_state :: availability_state
  av_reasons :: "reason list"

definition availability_available :: availability where
  "availability_available = \<lparr>av_state = Av_Available, av_reasons = []\<rparr>"

definition availability_unavailable :: "reason \<Rightarrow> availability" where
  "availability_unavailable r = \<lparr>av_state = Av_Unavailable, av_reasons = [r]\<rparr>"

definition is_well_formed :: "availability \<Rightarrow> bool" where
  "is_well_formed a = (case av_state a of Av_Available \<Rightarrow> True | _ \<Rightarrow> av_reasons a \<noteq> [])"

definition permits_mutation :: "availability \<Rightarrow> bool" where
  "permits_mutation a =
     (case av_state a of Av_Available \<Rightarrow> True | Av_Deprecated \<Rightarrow> True | _ \<Rightarrow> False)"

definition permits_display :: "availability \<Rightarrow> bool" where
  "permits_display a = True"

section \<open>Choices and ranges\<close>

record choice =
  ch_id :: string
  ch_label_key :: "string option"
  ch_engine_name :: "string option"
  ch_availability :: "availability option"

definition choice_new :: "string \<Rightarrow> string \<Rightarrow> choice" where
  "choice_new i engine_name = \<lparr>ch_id = i, ch_label_key = None, ch_engine_name = Some engine_name,
     ch_availability = None\<rparr>"

record choice_set =
  cset_authority :: authority
  cset_source :: source_class
  cset_revision :: "revision option"
  cset_choices :: "choice list"

definition choice_set_runtime :: "choice list \<Rightarrow> choice_set" where
  "choice_set_runtime choices = \<lparr>cset_authority = Auth_Runtime, cset_source = Src_LiveProtocol,
     cset_revision = None, cset_choices = choices\<rparr>"

definition enrich_choice :: "choice_set \<Rightarrow> choice \<Rightarrow> choice" where
  "enrich_choice catalog c =
     (if ch_label_key c \<noteq> None then c
      else case find (\<lambda>entry. ch_id entry = ch_id c) (cset_choices catalog) of
        None \<Rightarrow> c
      | Some entry \<Rightarrow> c\<lparr>ch_label_key := ch_label_key entry\<rparr>)"

definition enrich_from_catalog :: "choice_set \<Rightarrow> choice_set \<Rightarrow> choice_set" where
  "enrich_from_catalog self catalog =
     self\<lparr>cset_choices := map (enrich_choice catalog) (cset_choices self)\<rparr>"

definition choice_set_contains :: "choice_set \<Rightarrow> string \<Rightarrow> bool" where
  "choice_set_contains self i \<longleftrightarrow> list_ex (\<lambda>c. ch_id c = i) (cset_choices self)"

record numeric_range =
  nr_min :: "f64 option"
  nr_max :: "f64 option"
  nr_step :: "f64 option"
  nr_unit :: "string option"
  nr_authority :: authority
  nr_revision :: "revision option"

fun opt_nan_free :: "f64 option \<Rightarrow> bool" where
  "opt_nan_free None = True"
| "opt_nan_free (Some x) = (\<not> is_nan x)"

definition range_nan_free :: "numeric_range \<Rightarrow> bool" where
  "range_nan_free r \<longleftrightarrow> opt_nan_free (nr_min r) \<and> opt_nan_free (nr_max r) \<and> opt_nan_free (nr_step r)"

text \<open>
  Enrichment is presentation only: the same options in the same order, each with its id, engine
  name and availability; a label that was present stays, and doing it twice changes nothing more.
\<close>

lemma enrich_choice_frame [frame_simps]:
  "ch_id (enrich_choice cat c) = ch_id c"
  "ch_engine_name (enrich_choice cat c) = ch_engine_name c"
  "ch_availability (enrich_choice cat c) = ch_availability c"
  by (simp_all add: enrich_choice_def split: option.splits)

lemma enrich_choice_idem: "enrich_choice cat (enrich_choice cat c) = enrich_choice cat c"
  by (cases "find (\<lambda>entry. ch_id entry = ch_id c) (cset_choices cat)")
    (auto simp: enrich_choice_def split: option.splits)

lemma enrich_choice_label:
  "ch_label_key (enrich_choice cat c) =
     (case ch_label_key c of
        Some k \<Rightarrow> Some k
      | None \<Rightarrow> Option.bind (find (\<lambda>e. ch_id e = ch_id c) (cset_choices cat)) ch_label_key)"
  by (simp add: enrich_choice_def split: option.splits)

lemma enrich_frame [frame_simps]:
  "cset_authority (enrich_from_catalog s cat) = cset_authority s"
  "cset_source (enrich_from_catalog s cat) = cset_source s"
  "cset_revision (enrich_from_catalog s cat) = cset_revision s"
  by (simp_all add: enrich_from_catalog_def)

lemma enrich_contains: "choice_set_contains (enrich_from_catalog s cat) i = choice_set_contains s i"
  by (simp add: choice_set_contains_def enrich_from_catalog_def list_ex_iff frame_simps)

section \<open>Apply semantics\<close>

record verification =
  vf_verify_via :: "control_id option"
  vf_verify_lane :: value_lane
  vf_provisional_ack :: bool
  vf_preserves :: "control_id list"

definition verification_own_observed :: verification where
  "verification_own_observed = \<lparr>vf_verify_via = None, vf_verify_lane = VL_Observed,
     vf_provisional_ack = False, vf_preserves = []\<rparr>"

record apply_semantics =
  as_lane :: apply_lane
  as_effect :: apply_effect
  as_disruption :: disruption
  as_risk :: risk_class
  as_verification :: verification
  as_invalidates :: "control_id list"
  as_coupled_with :: "control_id list"

section \<open>Controls\<close>

record control =
  ct_id :: control_id
  ct_kind :: control_kind
  ct_label_key :: "string option"
  ct_description_key :: "string option"
  ct_group :: "string option"
  ct_order :: "u32 option"
  ct_widget_hint :: "string option"
  ct_unit :: "string option"
  ct_values :: "lane_value list"
  ct_choices :: "choice_set option"
  ct_range :: "numeric_range option"
  ct_availability :: availability
  ct_apply :: "apply_semantics option"
  ct_divergences :: "divergence list"
  ct_members :: "control_id list"
  ct_extensions :: extensions

definition control_lane :: "control \<Rightarrow> value_lane \<Rightarrow> lane_value option" where
  "control_lane c lane = find (\<lambda>v. lv_lane v = lane) (ct_values c)"

definition control_observed :: "control \<Rightarrow> control_value option" where
  "control_observed c = Option.bind (control_lane c VL_Observed) grounded_value"

definition is_mutable :: "control \<Rightarrow> bool" where
  "is_mutable c \<longleftrightarrow> permits_mutation (ct_availability c) \<and> ct_apply c \<noteq> None"

fun unique_lanes_loop :: "value_lane list \<Rightarrow> lane_value list \<Rightarrow> bool" where
  "unique_lanes_loop seen [] = True"
| "unique_lanes_loop seen (v # vs) =
     (if lv_lane v \<in> set seen then False else unique_lanes_loop (seen @ [lv_lane v]) vs)"

definition has_unique_lanes :: "control \<Rightarrow> bool" where
  "has_unique_lanes c = unique_lanes_loop [] (ct_values c)"

definition control_nan_free :: "control \<Rightarrow> bool" where
  "control_nan_free c \<longleftrightarrow> list_all lane_value_nan_free (ct_values c) \<and>
     (case ct_range c of None \<Rightarrow> True | Some r \<Rightarrow> range_nan_free r)"

record control_group =
  cg_id :: string
  cg_label_key :: "string option"
  cg_order :: "u32 option"
  cg_members :: "control_id list"

lemma unique_lanes_loop_iff:
  "unique_lanes_loop seen vs \<longleftrightarrow>
     distinct (map lv_lane vs) \<and> set seen \<inter> lv_lane ` set vs = {}"
  by (induction vs arbitrary: seen) auto

lemma has_unique_lanes_iff: "has_unique_lanes c \<longleftrightarrow> distinct (map lv_lane (ct_values c))"
  by (simp add: has_unique_lanes_def unique_lanes_loop_iff)

lemma control_lane_Some:
  "control_lane c l = Some v \<Longrightarrow> v \<in> set (ct_values c) \<and> lv_lane v = l"
  by (auto simp: control_lane_def find_Some_iff)

text \<open>With one value per lane, the lookup is determined by membership, whatever the order.\<close>

lemma control_lane_unique:
  assumes "has_unique_lanes c" "v \<in> set (ct_values c)"
  shows "control_lane c (lv_lane v) = Some v"
proof -
  have "find (\<lambda>w. lv_lane w = lv_lane v) vs = Some v"
    if "distinct (map lv_lane vs)" "v \<in> set vs" for vs
    using that by (induction vs) force+
  with assms show ?thesis by (simp add: control_lane_def has_unique_lanes_iff)
qed

end
