(* ===== verification/Constraint_Model.thy ===== *)
theory Constraint_Model
  imports Control_Model
begin

text \<open>
  Draft-dependent constraints (\<open>src/adaptive/constraint.rs\<close>): the expression language, its
  three-valued evaluation against a view, the published bounds, what a surface may show and allow,
  and the hand-written wire form.
\<close>

definition MAX_EXPR_DEPTH :: nat where "MAX_EXPR_DEPTH = 8"

definition MAX_EXPR_NODES :: nat where "MAX_EXPR_NODES = 128"

text \<open>\<open>ValueLookup\<close>: the trait is the function it provides.\<close>

type_synonym value_lookup = "control_id \<Rightarrow> value_lane \<Rightarrow> lane_value option"

datatype evaluation = EvTrue | EvFalse | Unevaluatable reason_code

definition is_definitely_false :: "evaluation \<Rightarrow> bool" where
  "is_definitely_false e \<longleftrightarrow> e = EvFalse"

definition is_definitely_true :: "evaluation \<Rightarrow> bool" where
  "is_definitely_true e \<longleftrightarrow> e = EvTrue"

datatype visibility = Show | ShowWithReason reason

definition renders_control :: "visibility \<Rightarrow> bool" where
  "renders_control v = True"

datatype permission = Allowed | Denied reason | RequiresProducerValidation reason

definition asserts_satisfied :: "permission \<Rightarrow> bool" where
  "asserts_satisfied p \<longleftrightarrow> p = Allowed"

datatype expr =
    Ex_Eq control_id value_lane control_value
  | Ex_NotEq control_id value_lane control_value
  | Ex_OneOf control_id value_lane "control_value list"
  | Ex_InRange control_id value_lane "f64 option" "f64 option"
  | Ex_IsGrounded control_id value_lane
  | Ex_All "expr list"
  | Ex_Any "expr list"
  | Ex_Not expr
  | Ex_Unrecognized string json

section \<open>Evaluation\<close>

definition bool_to_eval :: "bool \<Rightarrow> evaluation" where
  "bool_to_eval b = (if b then EvTrue else EvFalse)"

definition grounded :: "value_lookup \<Rightarrow> control_id \<Rightarrow> value_lane \<Rightarrow> control_value option" where
  "grounded view control lane = Option.bind (view control lane) grounded_value"

definition in_range :: "f64 option \<Rightarrow> f64 option \<Rightarrow> f64 \<Rightarrow> bool" where
  "in_range lo hi number \<longleftrightarrow>
     (case lo of None \<Rightarrow> True | Some bound \<Rightarrow> f64_le bound number) \<and>
     (case hi of None \<Rightarrow> True | Some bound \<Rightarrow> f64_le number bound)"

text \<open>The loops of \<open>All\<close> and \<open>Any\<close>: stop at a decisive child, remember the last undecided one.\<close>

fun all_loop :: "reason_code option \<Rightarrow> evaluation list \<Rightarrow> evaluation" where
  "all_loop undecided [] =
     (case undecided of Some r \<Rightarrow> Unevaluatable r | None \<Rightarrow> EvTrue)"
| "all_loop undecided (e # es) =
     (case e of EvFalse \<Rightarrow> EvFalse | Unevaluatable r \<Rightarrow> all_loop (Some r) es
      | EvTrue \<Rightarrow> all_loop undecided es)"

fun any_loop :: "reason_code option \<Rightarrow> evaluation list \<Rightarrow> evaluation" where
  "any_loop undecided [] =
     (case undecided of Some r \<Rightarrow> Unevaluatable r | None \<Rightarrow> EvFalse)"
| "any_loop undecided (e # es) =
     (case e of EvTrue \<Rightarrow> EvTrue | Unevaluatable r \<Rightarrow> any_loop (Some r) es
      | EvFalse \<Rightarrow> any_loop undecided es)"

fun evaluate :: "value_lookup \<Rightarrow> expr \<Rightarrow> evaluation" where
  "evaluate view (Ex_Eq c l v) =
     (case grounded view c l of Some found \<Rightarrow> bool_to_eval (cv_eq found v)
      | None \<Rightarrow> Unevaluatable RC_Unobservable)"
| "evaluate view (Ex_NotEq c l v) =
     (case grounded view c l of Some found \<Rightarrow> bool_to_eval (\<not> cv_eq found v)
      | None \<Rightarrow> Unevaluatable RC_Unobservable)"
| "evaluate view (Ex_OneOf c l vs) =
     (case grounded view c l of Some found \<Rightarrow> bool_to_eval (list_ex (\<lambda>cand. cv_eq cand found) vs)
      | None \<Rightarrow> Unevaluatable RC_Unobservable)"
| "evaluate view (Ex_InRange c l lo hi) =
     (case Option.bind (grounded view c l) cv_as_f64 of
        Some number \<Rightarrow> bool_to_eval (in_range lo hi number)
      | None \<Rightarrow> Unevaluatable RC_Unobservable)"
| "evaluate view (Ex_IsGrounded c l) = bool_to_eval (grounded view c l \<noteq> None)"
| "evaluate view (Ex_All es) = all_loop None (map (evaluate view) es)"
| "evaluate view (Ex_Any es) = any_loop None (map (evaluate view) es)"
| "evaluate view (Ex_Not e) =
     (case evaluate view e of EvTrue \<Rightarrow> EvFalse | EvFalse \<Rightarrow> EvTrue
      | Unevaluatable r \<Rightarrow> Unevaluatable r)"
| "evaluate view (Ex_Unrecognized operator raw) = Unevaluatable RC_UnknownConstraint"

text \<open>The specification: strong Kleene logic over \<open>bool option\<close>, \<open>None\<close> for "cannot decide".\<close>

fun truth :: "evaluation \<Rightarrow> bool option" where
  "truth EvTrue = Some True"
| "truth EvFalse = Some False"
| "truth (Unevaluatable r) = None"

definition kleene_all :: "bool option list \<Rightarrow> bool option" where
  "kleene_all ts = (if Some False \<in> set ts then Some False else if None \<in> set ts then None else Some True)"

definition kleene_any :: "bool option list \<Rightarrow> bool option" where
  "kleene_any ts = (if Some True \<in> set ts then Some True else if None \<in> set ts then None else Some False)"

lemma truth_all_loop:
  "truth (all_loop u es) = (if u = None then kleene_all (map truth es)
     else if Some False \<in> set (map truth es) then Some False else None)"
  by (induction u es rule: all_loop.induct)
    (auto simp: kleene_all_def split: option.splits evaluation.splits)

lemma truth_any_loop:
  "truth (any_loop u es) = (if u = None then kleene_any (map truth es)
     else if Some True \<in> set (map truth es) then Some True else None)"
  by (induction u es rule: any_loop.induct)
    (auto simp: kleene_any_def split: option.splits evaluation.splits)

lemma truth_All: "truth (evaluate view (Ex_All es)) = kleene_all (map (truth \<circ> evaluate view) es)"
  by (simp add: truth_all_loop)

lemma truth_Any: "truth (evaluate view (Ex_Any es)) = kleene_any (map (truth \<circ> evaluate view) es)"
  by (simp add: truth_any_loop)

lemma truth_Not: "truth (evaluate view (Ex_Not e)) = map_option Not (truth (evaluate view e))"
  by (simp split: evaluation.splits)

lemma truth_bool_to_eval [simp]: "truth (bool_to_eval b) = Some b"
  by (simp add: bool_to_eval_def)

lemmas truth_simps = truth_All truth_Any truth_Not

lemma truth_eq_iff [simp]:
  "truth e = Some True \<longleftrightarrow> e = EvTrue" "truth e = Some False \<longleftrightarrow> e = EvFalse"
  "truth e = None \<longleftrightarrow> (\<exists>r. e = Unevaluatable r)"
  by (cases e; simp)+

text \<open>
  One view knows at least what another does when it grounds the same value wherever the other
  grounds one. \<open>IsGrounded\<close> asks about knowledge itself, so it is the one operator whose answer
  may change as a view learns more.
\<close>

definition view_le :: "value_lookup \<Rightarrow> value_lookup \<Rightarrow> bool" where
  "view_le v w \<longleftrightarrow> (\<forall>c l x. grounded v c l = Some x \<longrightarrow> grounded w c l = Some x)"

fun knowledge_free :: "expr \<Rightarrow> bool" where
  "knowledge_free (Ex_IsGrounded c l) = False"
| "knowledge_free (Ex_All es) = (\<forall>e \<in> set es. knowledge_free e)"
| "knowledge_free (Ex_Any es) = (\<forall>e \<in> set es. knowledge_free e)"
| "knowledge_free (Ex_Not e) = knowledge_free e"
| "knowledge_free e = True"

lemma kleene_all_mono:
  assumes "kleene_all (map f es) = Some b"
    and "\<And>e b. e \<in> set es \<Longrightarrow> f e = Some b \<Longrightarrow> g e = Some b"
  shows "kleene_all (map g es) = Some b"
proof (cases "Some False \<in> set (map f es)")
  case True
  then obtain e where "e \<in> set es" "f e = Some False" by force
  then have "Some False \<in> set (map g es)" using assms(2) by force
  with True assms(1) show ?thesis by (simp add: kleene_all_def)
next
  case False
  with assms(1) have n: "None \<notin> set (map f es)" and b: "b = True"
    by (auto simp: kleene_all_def split: if_splits)
  have "f e = Some True" if "e \<in> set es" for e
    using that False n by (cases "f e") (force simp: image_iff)+
  then have "g e = Some True" if "e \<in> set es" for e using assms(2) that by blast
  then show ?thesis by (auto simp: kleene_all_def b)
qed

lemma kleene_any_mono:
  assumes "kleene_any (map f es) = Some b"
    and "\<And>e b. e \<in> set es \<Longrightarrow> f e = Some b \<Longrightarrow> g e = Some b"
  shows "kleene_any (map g es) = Some b"
proof (cases "Some True \<in> set (map f es)")
  case True
  then obtain e where "e \<in> set es" "f e = Some True" by force
  then have "Some True \<in> set (map g es)" using assms(2) by force
  with True assms(1) show ?thesis by (simp add: kleene_any_def)
next
  case False
  with assms(1) have n: "None \<notin> set (map f es)" and b: "b = False"
    by (auto simp: kleene_any_def split: if_splits)
  have "f e = Some False" if "e \<in> set es" for e
    using that False n by (cases "f e") (force simp: image_iff)+
  then have "g e = Some False" if "e \<in> set es" for e using assms(2) that by blast
  then show ?thesis by (auto simp: kleene_any_def b)
qed

lemma evaluate_mono:
  "view_le v w \<Longrightarrow> knowledge_free e \<Longrightarrow> truth (evaluate v e) = Some b \<Longrightarrow> truth (evaluate w e) = Some b"
proof (induction e arbitrary: b)
  case (Ex_All es)
  have "kleene_all (map (truth \<circ> evaluate w) es) = Some b"
  proof (rule kleene_all_mono)
    show "kleene_all (map (truth \<circ> evaluate v) es) = Some b"
      using Ex_All.prems(3) by (simp only: truth_All)
  qed (use Ex_All in auto)
  then show ?case by (simp only: truth_All)
next
  case (Ex_Any es)
  have "kleene_any (map (truth \<circ> evaluate w) es) = Some b"
  proof (rule kleene_any_mono)
    show "kleene_any (map (truth \<circ> evaluate v) es) = Some b"
      using Ex_Any.prems(3) by (simp only: truth_Any)
  qed (use Ex_Any in auto)
  then show ?case by (simp only: truth_Any)
next
  case (Ex_Not e)
  then show ?case unfolding truth_Not by auto
qed (auto simp: view_le_def split: option.splits bind_splits)

section \<open>Recognition, size and bounds\<close>

fun is_fully_recognized :: "expr \<Rightarrow> bool" where
  "is_fully_recognized (Ex_Unrecognized operator raw) = False"
| "is_fully_recognized (Ex_All es) = list_all is_fully_recognized es"
| "is_fully_recognized (Ex_Any es) = list_all is_fully_recognized es"
| "is_fully_recognized (Ex_Not e) = is_fully_recognized e"
| "is_fully_recognized e = True"

fun node_count :: "expr \<Rightarrow> nat" where
  "node_count (Ex_All es) = 1 + sum_list (map node_count es)"
| "node_count (Ex_Any es) = 1 + sum_list (map node_count es)"
| "node_count (Ex_Not e) = 1 + node_count e"
| "node_count e = 1"

fun depth :: "expr \<Rightarrow> nat" where
  "depth (Ex_All es) = 1 + foldr (max \<circ> depth) es 0"
| "depth (Ex_Any es) = 1 + foldr (max \<circ> depth) es 0"
| "depth (Ex_Not e) = 1 + depth e"
| "depth e = 1"

definition expr_validate :: "expr \<Rightarrow> expr_limit + unit" where
  "expr_validate e =
     (if depth e > MAX_EXPR_DEPTH then Inl (DepthExceeded (depth e) MAX_EXPR_DEPTH)
      else if node_count e > MAX_EXPR_NODES then Inl (NodesExceeded (node_count e) MAX_EXPR_NODES)
      else Inr ())"

lemma depth_le_node_count: "depth e \<le> node_count e"
proof (induction e)
  case (Ex_All es)
  then have "foldr (max \<circ> depth) es 0 \<le> sum_list (map node_count es)"
    by (induction es) (auto intro: add_increasing2 add_increasing)
  then show ?case by simp
next
  case (Ex_Any es)
  then have "foldr (max \<circ> depth) es 0 \<le> sum_list (map node_count es)"
    by (induction es) (auto intro: add_increasing2 add_increasing)
  then show ?case by simp
qed auto

lemma expr_validate_ok_iff:
  "expr_validate e = Inr () \<longleftrightarrow> depth e \<le> MAX_EXPR_DEPTH \<and> node_count e \<le> MAX_EXPR_NODES"
  by (auto simp: expr_validate_def)

text \<open>A subterm of an accepted expression is accepted.\<close>

lemma expr_validate_child:
  assumes "expr_validate e = Inr ()" and "e = Ex_All es \<or> e = Ex_Any es" and "d \<in> set es"
  shows "expr_validate d = Inr ()"
proof -
  have "depth d \<le> foldr (max \<circ> depth) es 0" "node_count d \<le> sum_list (map node_count es)"
    using assms(3) by (induction es) (auto simp: le_max_iff_disj)
  with assms(1,2) show ?thesis by (auto simp: expr_validate_ok_iff)
qed

section \<open>Constraints\<close>

record constraint =
  cn_id :: string
  cn_applies_to :: "control_id list"
  cn_when :: expr
  cn_effect :: constraint_effect
  cn_reason :: reason

definition constraint_validate :: "constraint \<Rightarrow> expr_limit + unit" where
  "constraint_validate c = expr_validate (cn_when c)"

definition undecided_reason :: "constraint \<Rightarrow> reason_code \<Rightarrow> reason" where
  "undecided_reason c code = \<lparr>rs_code = code, rs_scope = Scope_Draft,
     rs_display_text_key = rs_display_text_key (cn_reason c), rs_detail = None\<rparr>"

definition visibility :: "constraint \<Rightarrow> evaluation \<Rightarrow> visibility" where
  "visibility c ev =
     (case ev of
        EvFalse \<Rightarrow> Show
      | EvTrue \<Rightarrow> ShowWithReason (cn_reason c)
      | Unevaluatable code \<Rightarrow> ShowWithReason (undecided_reason c code))"

definition permission :: "constraint \<Rightarrow> evaluation \<Rightarrow> permission" where
  "permission c ev =
     (case ev of
        EvFalse \<Rightarrow> Allowed
      | EvTrue \<Rightarrow> (case cn_effect c of CE_Invalidates \<Rightarrow> Denied (cn_reason c) | _ \<Rightarrow> Allowed)
      | Unevaluatable code \<Rightarrow> RequiresProducerValidation (undecided_reason c code))"

lemma asserts_satisfied_iff:
  "asserts_satisfied (permission c ev) \<longleftrightarrow>
     ev = EvFalse \<or> (ev = EvTrue \<and> cn_effect c \<noteq> CE_Invalidates)"
  by (auto simp: asserts_satisfied_def permission_def split: evaluation.splits
      constraint_effect.splits)

fun expr_nan_free :: "expr \<Rightarrow> bool" where
  "expr_nan_free (Ex_Eq c l v) = cv_nan_free v"
| "expr_nan_free (Ex_NotEq c l v) = cv_nan_free v"
| "expr_nan_free (Ex_OneOf c l vs) = list_all cv_nan_free vs"
| "expr_nan_free (Ex_InRange c l lo hi) = (opt_nan_free lo \<and> opt_nan_free hi)"
| "expr_nan_free (Ex_All es) = list_all expr_nan_free es"
| "expr_nan_free (Ex_Any es) = list_all expr_nan_free es"
| "expr_nan_free (Ex_Not e) = expr_nan_free e"
| "expr_nan_free e = True"

end
