(* ===== verification/Constraint_Wire.thy ===== *)
theory Constraint_Wire
  imports Constraint_Model
begin

text \<open>
  The wire form of constraint expressions: the hand-written \<open>Serialize\<close> and \<open>Deserialize\<close> of
  \<open>Expr\<close> (\<open>src/adaptive/constraint.rs\<close>). An unknown operator is kept with its whole node, so the
  reader followed by the writer is the identity on it; the lemmas show that the writer followed by
  the reader is the identity on every expression JSON can carry.
\<close>

definition opt_bound :: "json_ops \<Rightarrow> string \<Rightarrow> f64 option \<Rightarrow> (string \<times> json) list" where
  "opt_bound ops key b = (case b of None \<Rightarrow> [] | Some x \<Rightarrow> [(key, ser_f64 ops x)])"

fun expr_to_json :: "json_ops \<Rightarrow> expr \<Rightarrow> json" where
  "expr_to_json ops (Ex_Eq c l v) =
     JObj [(''op'', JStr ''eq''), (''control'', JStr (cid_str c)),
           (''lane'', JStr (value_lane_as_str l)), (''value'', cv_to_json ops v)]"
| "expr_to_json ops (Ex_NotEq c l v) =
     JObj [(''op'', JStr ''not_eq''), (''control'', JStr (cid_str c)),
           (''lane'', JStr (value_lane_as_str l)), (''value'', cv_to_json ops v)]"
| "expr_to_json ops (Ex_OneOf c l vs) =
     JObj [(''op'', JStr ''one_of''), (''control'', JStr (cid_str c)),
           (''lane'', JStr (value_lane_as_str l)), (''values'', JArr (map (cv_to_json ops) vs))]"
| "expr_to_json ops (Ex_InRange c l lo hi) =
     JObj ([(''op'', JStr ''in_range''), (''control'', JStr (cid_str c)),
            (''lane'', JStr (value_lane_as_str l))] @ opt_bound ops ''min'' lo @ opt_bound ops ''max'' hi)"
| "expr_to_json ops (Ex_IsGrounded c l) =
     JObj [(''op'', JStr ''is_grounded''), (''control'', JStr (cid_str c)),
           (''lane'', JStr (value_lane_as_str l))]"
| "expr_to_json ops (Ex_All es) =
     JObj [(''op'', JStr ''all''), (''of'', JArr (map (expr_to_json ops) es))]"
| "expr_to_json ops (Ex_Any es) =
     JObj [(''op'', JStr ''any''), (''of'', JArr (map (expr_to_json ops) es))]"
| "expr_to_json ops (Ex_Not e) = JObj [(''op'', JStr ''not''), (''of'', expr_to_json ops e)]"
| "expr_to_json ops (Ex_Unrecognized operator raw) =
     (case as_object raw of Some ob \<Rightarrow> JObj ob | None \<Rightarrow> JObj [])"

definition field :: "(string \<times> json) list \<Rightarrow> string \<Rightarrow> de_error + json" where
  "field obj name = (case map_of obj name of None \<Rightarrow> Inl (MissingField name) | Some j \<Rightarrow> Inr j)"

definition str_field :: "(string \<times> json) list \<Rightarrow> string \<Rightarrow> de_error + string" where
  "str_field obj name =
     (case field obj name of
        Inl e \<Rightarrow> Inl e
      | Inr j \<Rightarrow> (case as_str j of None \<Rightarrow> Inl (WrongPayload name) | Some s \<Rightarrow> Inr s))"

definition operand :: "(string \<times> json) list \<Rightarrow> de_error + (control_id \<times> value_lane)" where
  "operand obj =
     (case str_field obj ''control'' of
        Inl e \<Rightarrow> Inl e
      | Inr c \<Rightarrow> (case str_field obj ''lane'' of
                    Inl e \<Rightarrow> Inl e
                  | Inr l \<Rightarrow> Inr (ControlId c, value_lane_from_str l)))"

definition compare_node ::
  "json_ops \<Rightarrow> (string \<times> json) list \<Rightarrow> (control_id \<Rightarrow> value_lane \<Rightarrow> control_value \<Rightarrow> expr) \<Rightarrow>
     de_error + expr" where
  "compare_node ops obj con =
     (case operand obj of
        Inl e \<Rightarrow> Inl e
      | Inr (c, l) \<Rightarrow>
          (case field obj ''value'' of
             Inl e \<Rightarrow> Inl e
           | Inr j \<Rightarrow> (case cv_from_json ops j of
                         Inl e \<Rightarrow> Inl (BadMember ''value'' e)
                       | Inr v \<Rightarrow> Inr (con c l v))))"

fun parse_values :: "json_ops \<Rightarrow> json list \<Rightarrow> de_error + control_value list" where
  "parse_values ops [] = Inr []"
| "parse_values ops (j # js) =
     (case cv_from_json ops j of
        Inl e \<Rightarrow> Inl (BadMember ''values'' e)
      | Inr v \<Rightarrow> (case parse_values ops js of Inl e \<Rightarrow> Inl e | Inr vs \<Rightarrow> Inr (v # vs)))"

definition one_of_node :: "json_ops \<Rightarrow> (string \<times> json) list \<Rightarrow> de_error + expr" where
  "one_of_node ops obj =
     (case operand obj of
        Inl e \<Rightarrow> Inl e
      | Inr (c, l) \<Rightarrow>
          (case field obj ''values'' of
             Inl e \<Rightarrow> Inl e
           | Inr j \<Rightarrow>
               (case as_array j of
                  None \<Rightarrow> Inl (WrongPayload ''values'')
                | Some js \<Rightarrow> (case parse_values ops js of
                                Inl e \<Rightarrow> Inl e
                              | Inr vs \<Rightarrow> Inr (Ex_OneOf c l vs)))))"

definition range_node :: "json_ops \<Rightarrow> (string \<times> json) list \<Rightarrow> de_error + expr" where
  "range_node ops obj =
     (case operand obj of
        Inl e \<Rightarrow> Inl e
      | Inr (c, l) \<Rightarrow> Inr (Ex_InRange c l (Option.bind (map_of obj ''min'') (as_f64 ops))
                                        (Option.bind (map_of obj ''max'') (as_f64 ops))))"

function (sequential) expr_from_json :: "json_ops \<Rightarrow> json \<Rightarrow> de_error + expr"
  and exprs_from_json :: "json_ops \<Rightarrow> json list \<Rightarrow> de_error + expr list"
where
  "expr_from_json ops (JObj obj) =
     (case Option.bind (map_of obj ''op'') as_str of
        None \<Rightarrow> Inl MissingType
      | Some operator \<Rightarrow>
          if operator = ''eq'' then compare_node ops obj Ex_Eq
          else if operator = ''not_eq'' then compare_node ops obj Ex_NotEq
          else if operator = ''one_of'' then one_of_node ops obj
          else if operator = ''in_range'' then range_node ops obj
          else if operator = ''is_grounded'' then
            (case operand obj of Inl e \<Rightarrow> Inl e | Inr (c, l) \<Rightarrow> Inr (Ex_IsGrounded c l))
          else if operator = ''all'' then
            (case map_of obj ''of'' of
               None \<Rightarrow> Inl (MissingField ''of'')
             | Some (JArr js) \<Rightarrow>
                 (case exprs_from_json ops js of Inl e \<Rightarrow> Inl e | Inr es \<Rightarrow> Inr (Ex_All es))
             | Some _ \<Rightarrow> Inl (WrongPayload ''of''))
          else if operator = ''any'' then
            (case map_of obj ''of'' of
               None \<Rightarrow> Inl (MissingField ''of'')
             | Some (JArr js) \<Rightarrow>
                 (case exprs_from_json ops js of Inl e \<Rightarrow> Inl e | Inr es \<Rightarrow> Inr (Ex_Any es))
             | Some _ \<Rightarrow> Inl (WrongPayload ''of''))
          else if operator = ''not'' then
            (case map_of obj ''of'' of
               None \<Rightarrow> Inl (MissingField ''of'')
             | Some j \<Rightarrow> (case expr_from_json ops j of
                            Inl e \<Rightarrow> Inl (BadMember ''not'' e)
                          | Inr d \<Rightarrow> Inr (Ex_Not d)))
          else Inr (Ex_Unrecognized operator (JObj obj)))"
| "expr_from_json ops j = Inl NotAnObject"
| "exprs_from_json ops [] = Inr []"
| "exprs_from_json ops (j # js) =
     (case expr_from_json ops j of
        Inl e \<Rightarrow> Inl (BadMember ''of'' e)
      | Inr d \<Rightarrow> (case exprs_from_json ops js of Inl e \<Rightarrow> Inl e | Inr ds \<Rightarrow> Inr (d # ds)))"
  by pat_completeness auto

termination
  by (relation "measure (\<lambda>x. case x of Inl (ops, j) \<Rightarrow> 2 * size j
        | Inr (ops, js) \<Rightarrow> 2 * size (JArr js) - 1)")
    (auto dest!: size_member_obj)

definition known_ops :: "string list" where
  "known_ops = [''eq'', ''not_eq'', ''one_of'', ''in_range'', ''is_grounded'', ''all'', ''any'', ''not'']"

text \<open>A lane is canonical when reading its spelling gives it back.\<close>

definition lane_ok :: "value_lane \<Rightarrow> bool" where
  "lane_ok l \<longleftrightarrow> value_lane_from_str (value_lane_as_str l) = l"

fun opt_finite :: "f64 option \<Rightarrow> bool" where
  "opt_finite None = True"
| "opt_finite (Some x) = is_finite x"

text \<open>What an expression must satisfy for its wire form to be faithful: finite values and bounds, canonical
  lanes, and an unrecognized node that is an object naming its own, unknown, operator.\<close>

fun expr_wire_ok :: "expr \<Rightarrow> bool" where
  "expr_wire_ok (Ex_Eq c l v) = (lane_ok l \<and> cv_wire_ok v)"
| "expr_wire_ok (Ex_NotEq c l v) = (lane_ok l \<and> cv_wire_ok v)"
| "expr_wire_ok (Ex_OneOf c l vs) = (lane_ok l \<and> (\<forall>v \<in> set vs. cv_wire_ok v))"
| "expr_wire_ok (Ex_InRange c l lo hi) = (lane_ok l \<and> opt_finite lo \<and> opt_finite hi)"
| "expr_wire_ok (Ex_IsGrounded c l) = lane_ok l"
| "expr_wire_ok (Ex_All es) = (\<forall>e \<in> set es. expr_wire_ok e)"
| "expr_wire_ok (Ex_Any es) = (\<forall>e \<in> set es. expr_wire_ok e)"
| "expr_wire_ok (Ex_Not e) = expr_wire_ok e"
| "expr_wire_ok (Ex_Unrecognized operator raw) =
     (operator \<notin> set known_ops \<and>
      (case raw of JObj ob \<Rightarrow> map_of ob ''op'' = Some (JStr operator) | _ \<Rightarrow> False))"

lemma lane_ok_recognized: "value_lane_is_recognized l \<Longrightarrow> lane_ok l"
  by (simp add: lane_ok_def value_lane.from_str_as_str_known)

context json_numbers
begin

lemma parse_values_roundtrip:
  "(\<And>v. v \<in> set vs \<Longrightarrow> cv_wire_ok v) \<Longrightarrow> parse_values ops (map (cv_to_json ops) vs) = Inr vs"
  by (induction vs) (auto simp: cv_roundtrip)

lemma exprs_roundtrip:
  "(\<And>e. e \<in> set es \<Longrightarrow> expr_from_json ops (expr_to_json ops e) = Inr e) \<Longrightarrow>
     exprs_from_json ops (map (expr_to_json ops) es) = Inr es"
  by (induction es) auto

lemma opt_bound_read:
  "opt_finite lo \<Longrightarrow> opt_finite hi \<Longrightarrow>
     Option.bind (map_of (opt_bound ops ''min'' lo @ opt_bound ops ''max'' hi) ''min'') (as_f64 ops) = lo \<and>
     Option.bind (map_of (opt_bound ops ''min'' lo @ opt_bound ops ''max'' hi) ''max'') (as_f64 ops) = hi"
  by (cases lo; cases hi) (auto simp: opt_bound_def as_f64_ser)

lemma expr_roundtrip: "expr_wire_ok e \<Longrightarrow> expr_from_json ops (expr_to_json ops e) = Inr e"
proof (induction e)
  case (Ex_OneOf c l vs)
  then have "parse_values ops (map (cv_to_json ops) vs) = Inr vs"
    by (intro parse_values_roundtrip) auto
  with Ex_OneOf show ?case
    by (simp add: one_of_node_def operand_def str_field_def field_def lane_ok_def)
next
  case (Ex_InRange c l lo hi)
  then show ?case
    using opt_bound_read [of lo hi]
    by (simp add: range_node_def operand_def str_field_def field_def lane_ok_def)
next
  case (Ex_All es)
  then have "exprs_from_json ops (map (expr_to_json ops) es) = Inr es"
    by (intro exprs_roundtrip) auto
  then show ?case by simp
next
  case (Ex_Any es)
  then have "exprs_from_json ops (map (expr_to_json ops) es) = Inr es"
    by (intro exprs_roundtrip) auto
  then show ?case by simp
next
  case (Ex_Unrecognized operator raw)
  then show ?case by (cases raw) (simp_all add: known_ops_def)
qed (simp_all add: compare_node_def operand_def str_field_def field_def lane_ok_def cv_roundtrip)

end

text \<open>Reading and writing back an unknown operator returns the node as it came.\<close>

lemma unknown_operator_passthrough:
  assumes "map_of obj ''op'' = Some (JStr operator)" "operator \<notin> set known_ops"
  shows "\<exists>e. expr_from_json ops (JObj obj) = Inr e \<and> expr_to_json ops e = JObj obj"
  using assms by (simp add: known_ops_def)

text \<open>What the wire does not carry: a bound that is not finite is written as null, and a null bound is none.\<close>

lemma infinite_bound_lost:
  assumes "\<not> is_finite x" "ser_f64 ops x = JNull" "as_f64 ops JNull = None" "lane_ok l"
  shows "expr_from_json ops (expr_to_json ops (Ex_InRange c l (Some x) None)) = Inr (Ex_InRange c l None None)"
  using assms by (simp add: range_node_def operand_def str_field_def field_def lane_ok_def opt_bound_def)

end
