(* ===== verification/Command_Model.thy ===== *)
theory Command_Model
  imports Control_Model
begin

text \<open>
  Command outcomes and the audit trail (\<open>src/adaptive/command.rs\<close>), with the change-set id and the
  citable revision it refers to. The lemmas relate the per-transition rule \<open>may_transition_to\<close> to
  whole histories recorded by \<open>transition\<close>.
\<close>

datatype operation_id = OperationId (oid_str: string)

datatype change_set_id = ChangeSetId (csid_str: string)

record revision_ref =
  rr_epoch :: producer_epoch
  rr_control_plane :: revision
  rr_state :: revision

section \<open>Outcomes\<close>

fun is_terminal :: "command_outcome \<Rightarrow> bool" where
  "is_terminal CO_Applied = True"
| "is_terminal CO_Ignored = True"
| "is_terminal CO_Rejected = True"
| "is_terminal CO_Superseded = True"
| "is_terminal CO_Compensated = True"
| "is_terminal CO_Expired = True"
| "is_terminal c = False"

fun is_state_evidence :: "command_outcome \<Rightarrow> bool" where
  "is_state_evidence CO_Pending = False"
| "is_state_evidence CO_Indeterminate = False"
| "is_state_evidence CO_TimedOut = False"
| "is_state_evidence CO_Compensating = False"
| "is_state_evidence c = True"

fun awaits_convergence :: "command_outcome \<Rightarrow> bool" where
  "awaits_convergence CO_Pending = True"
| "awaits_convergence CO_Indeterminate = True"
| "awaits_convergence CO_TimedOut = True"
| "awaits_convergence CO_Compensating = True"
| "awaits_convergence CO_PartiallyApplied = True"
| "awaits_convergence CO_Held = True"
| "awaits_convergence CO_RestartRequired = True"
| "awaits_convergence c = False"

text \<open>The outcomes nothing may regress into.\<close>

fun is_unresolved :: "command_outcome \<Rightarrow> bool" where
  "is_unresolved CO_Pending = True"
| "is_unresolved CO_Indeterminate = True"
| "is_unresolved CO_TimedOut = True"
| "is_unresolved c = False"

definition may_transition_to :: "command_outcome \<Rightarrow> command_outcome \<Rightarrow> bool" where
  "may_transition_to self nxt =
     (if self = nxt then True
      else if \<not> command_outcome_is_recognized self \<or> \<not> command_outcome_is_recognized nxt then True
      else if is_terminal self then False
      else if self = CO_Pending then True
      else \<not> is_unresolved nxt)"

lemma terminal_recognized: "is_terminal c \<Longrightarrow> command_outcome_is_recognized c"
  by (cases c) simp_all

lemma unresolved_recognized: "is_unresolved c \<Longrightarrow> command_outcome_is_recognized c"
  by (cases c) simp_all

lemma terminal_not_awaiting: "is_terminal c \<Longrightarrow> \<not> awaits_convergence c \<and> is_state_evidence c"
  by (cases c) simp_all

section \<open>Operations\<close>

record operation_request =
  oq_control :: control_id
  oq_requested :: control_value
  oq_lane :: apply_lane
  oq_base :: revision_ref

record transition_rejected =
  tr_from :: command_outcome
  tr_to :: command_outcome

record outcome_transition =
  ot_from :: command_outcome
  ot_to :: command_outcome
  ot_at :: timestamp
  ot_observed :: "revision_ref option"
  ot_reason :: "reason option"

record plan_step =
  ps_index :: u32
  ps_control :: control_id
  ps_lane :: apply_lane
  ps_observed :: "revision_ref option"
  ps_outcome :: command_outcome
  ps_reason :: "reason option"

record operation_record =
  or_id :: operation_id
  or_correlation_id :: string
  or_request :: "operation_request option"
  or_change_set :: "change_set_id option"
  or_generation :: "u64 option"
  or_write_attempt :: write_attempt
  or_outcome :: command_outcome
  or_observed :: "revision_ref option"
  or_steps :: "plan_step list"
  or_revision_boundaries :: "revision_ref list"
  or_history :: "outcome_transition list"
  or_recovery :: "recovery_state option"
  or_reason :: "reason option"
  or_extensions :: extensions

definition transition ::
  "operation_record \<Rightarrow> command_outcome \<Rightarrow> timestamp \<Rightarrow> revision_ref option \<Rightarrow> reason option \<Rightarrow>
     transition_rejected + operation_record" where
  "transition self to tm observed rsn =
     (if \<not> may_transition_to (or_outcome self) to
      then Inl \<lparr>tr_from = or_outcome self, tr_to = to\<rparr>
      else Inr (self\<lparr>
        or_history := or_history self @
          [\<lparr>ot_from = or_outcome self, ot_to = to, ot_at = tm, ot_observed = observed, ot_reason = rsn\<rparr>],
        or_outcome := to,
        or_observed := (if observed \<noteq> None then observed else or_observed self),
        or_reason := rsn\<rparr>))"

definition or_is_state_evidence :: "operation_record \<Rightarrow> bool" where
  "or_is_state_evidence self = is_state_evidence (or_outcome self)"

definition is_multi_revision :: "operation_record \<Rightarrow> bool" where
  "is_multi_revision self \<longleftrightarrow> or_revision_boundaries self \<noteq> []"

definition operation_nan_free :: "operation_record \<Rightarrow> bool" where
  "operation_nan_free r \<longleftrightarrow>
     (case or_request r of None \<Rightarrow> True | Some q \<Rightarrow> cv_nan_free (oq_requested q))"

fun transition_steps ::
  "operation_record \<Rightarrow> (command_outcome \<times> timestamp \<times> revision_ref option \<times> reason option) list \<Rightarrow>
     operation_record" where
  "transition_steps r [] = r"
| "transition_steps r ((to, tm, obs, rsn) # ts) =
     (case transition r to tm obs rsn of Inl e \<Rightarrow> transition_steps r ts | Inr r' \<Rightarrow> transition_steps r' ts)"

text \<open>
  The audit trail: it starts at the outcome \<open>c0\<close>, each step leaves from where the last one
  arrived, every step is legal, and the last one arrives at the current outcome.
\<close>

fun chained :: "command_outcome \<Rightarrow> outcome_transition list \<Rightarrow> command_outcome \<Rightarrow> bool" where
  "chained c0 [] c = (c0 = c)"
| "chained c0 (t # ts) c = (ot_from t = c0 \<and> may_transition_to c0 (ot_to t) \<and> chained (ot_to t) ts c)"

lemma chained_snoc:
  "chained c0 (ts @ [t]) c \<longleftrightarrow>
     chained c0 ts (ot_from t) \<and> may_transition_to (ot_from t) (ot_to t) \<and> ot_to t = c"
  by (induction ts arbitrary: c0) auto

lemma transition_Inr:
  "transition r to tm obs rsn = Inr r' \<Longrightarrow>
     may_transition_to (or_outcome r) to \<and> or_outcome r' = to \<and>
     (\<exists>t. or_history r' = or_history r @ [t] \<and> ot_from t = or_outcome r \<and> ot_to t = to)"
  by (auto simp: transition_def split: if_splits)

lemma transition_chained:
  "transition r to tm obs rsn = Inr r' \<Longrightarrow> chained c0 (or_history r) (or_outcome r) \<Longrightarrow>
     chained c0 (or_history r') (or_outcome r')"
  by (drule transition_Inr) (auto simp: chained_snoc)

lemma transition_steps_chained:
  "chained c0 (or_history r) (or_outcome r) \<Longrightarrow>
     chained c0 (or_history (transition_steps r ts)) (or_outcome (transition_steps r ts))"
  by (induction r ts rule: transition_steps.induct) (auto dest: transition_chained split: sum.splits)

lemma transition_steps_append_only:
  "\<exists>new. or_history (transition_steps r ts) = or_history r @ new"
proof (induction r ts rule: transition_steps.induct)
  case (2 r to tm obs rsn ts)
  show ?case
  proof (cases "transition r to tm obs rsn")
    case (Inl e)
    with 2(1) show ?thesis by simp
  next
    case (Inr r')
    then obtain t where "or_history r' = or_history r @ [t]" using transition_Inr by blast
    with Inr 2(2) [OF Inr] show ?thesis by auto
  qed
qed simp

text \<open>Along a history whose outcomes are all recognized, a terminal outcome is the last word.\<close>

lemma chained_terminal:
  assumes "chained c0 ts c" "is_terminal c0" "\<forall>t \<in> set ts. command_outcome_is_recognized (ot_to t)"
  shows "c = c0"
  using assms
proof (induction ts arbitrary: c0)
  case (Cons t ts)
  then have "ot_to t = c0"
    using terminal_recognized by (auto simp: may_transition_to_def split: if_splits)
  with Cons show ?case by auto
qed simp

lemma chained_never_unresolved:
  assumes "chained c0 ts c" "command_outcome_is_recognized c0" "\<not> is_unresolved c0"
    "\<forall>t \<in> set ts. command_outcome_is_recognized (ot_to t)"
  shows "\<not> is_unresolved c"
  using assms
proof (induction ts arbitrary: c0)
  case (Cons t ts)
  have "c0 \<noteq> CO_Pending" using Cons.prems(3) by auto
  then have "\<not> is_unresolved (ot_to t)"
    using Cons.prems by (auto simp: may_transition_to_def split: if_splits)
  with Cons show ?case by auto
qed simp

end
