(* ===== verification/Change_Set.thy ===== *)
theory Change_Set
  imports Command_Model
begin

text \<open>
  Change sets (\<open>src/adaptive/change_set.rs\<close>): staged intent with generations. \<open>stage\<close>, \<open>detach\<close> and
  \<open>retire\<close> are the operations that change one; an operation that was given a generation by
  \<open>detach\<close> may retire only that generation.
\<close>

fun is_executing :: "change_set_state \<Rightarrow> bool" where
  "is_executing CSS_Detached = True"
| "is_executing CSS_Validating = True"
| "is_executing CSS_Applying = True"
| "is_executing s = False"

definition accepts_staging :: "change_set_state \<Rightarrow> bool" where
  "accepts_staging s \<longleftrightarrow> s = CSS_Draft \<or> is_executing s"

record origin =
  og_actor_class :: actor_class
  og_surface :: surface
  og_actor_id :: "string option"

record retention =
  rt_survives_reconnect :: bool
  rt_survives_producer_restart :: bool
  rt_on_epoch_change :: epoch_policy
  rt_expires_at :: "timestamp option"
  rt_apply_requires_authorization :: "bool option"

record draft_policy =
  dp_mode :: draft_mode
  dp_on_conflict :: conflict_policy
  dp_retention :: retention

datatype entry_validity =
    Valid
  | StaleBase "control_value option"
  | Conflicts "control_id list"
  | DraftInvalid reason
  | ValidityRequiresProducerValidation reason

definition validity_may_apply :: "entry_validity \<Rightarrow> bool" where
  "validity_may_apply v \<longleftrightarrow> v = Valid"

record change_set_entry =
  en_control :: control_id
  en_lane :: apply_lane
  en_desired :: control_value
  en_base_observed :: "control_value option"
  en_validity :: entry_validity
  en_extensions :: extensions

record change_set =
  cs_id :: change_set_id
  cs_producer_id :: string
  cs_origin :: origin
  cs_base :: revision_ref
  cs_generation :: u64
  cs_state :: change_set_state
  cs_created_at :: timestamp
  cs_updated_at :: timestamp
  cs_entries :: "change_set_entry list"
  cs_retention :: retention
  cs_contributors :: "origin list"
  cs_extensions :: extensions

record detached_change_set =
  dt_id :: change_set_id
  dt_generation :: u64
  dt_base :: revision_ref
  dt_entries :: "change_set_entry list"

datatype stage_outcome = Staged u64 | Closed change_set_state u64

fun outcome_generation :: "stage_outcome \<Rightarrow> u64" where
  "outcome_generation (Staged g) = g"
| "outcome_generation (Closed s g) = g"

fun outcome_staged :: "stage_outcome \<Rightarrow> u64 option" where
  "outcome_staged (Staged g) = Some g"
| "outcome_staged (Closed s g) = None"

datatype retire_outcome = Retired | GenerationSuperseded u64 u64

section \<open>Operations\<close>

definition same_slot :: "change_set_entry \<Rightarrow> change_set_entry \<Rightarrow> bool" where
  "same_slot a b \<longleftrightarrow> en_control a = en_control b \<and> en_lane a = en_lane b"

fun put_entry :: "change_set_entry \<Rightarrow> change_set_entry list \<Rightarrow> change_set_entry list" where
  "put_entry e [] = [e]"
| "put_entry e (x # xs) = (if same_slot x e then e # xs else x # put_entry e xs)"

definition stage :: "change_set \<Rightarrow> change_set_entry \<Rightarrow> timestamp \<Rightarrow> stage_outcome \<times> change_set" where
  "stage self e tm =
     (if \<not> accepts_staging (cs_state self) then (Closed (cs_state self) (cs_generation self), self)
      else
        let self' = self\<lparr>cs_entries := put_entry e (cs_entries self),
                         cs_generation := cs_generation self + 1,
                         cs_updated_at := tm,
                         cs_state := (if is_executing (cs_state self) then CSS_Draft else cs_state self)\<rparr>
        in (Staged (cs_generation self'), self'))"

definition detach :: "change_set \<Rightarrow> detached_change_set \<times> change_set" where
  "detach self =
     (\<lparr>dt_id = cs_id self, dt_generation = cs_generation self, dt_base = cs_base self,
       dt_entries = cs_entries self\<rparr>,
      self\<lparr>cs_state := CSS_Detached\<rparr>)"

definition retire :: "change_set \<Rightarrow> u64 \<Rightarrow> timestamp \<Rightarrow> retire_outcome \<times> change_set" where
  "retire self generation tm =
     (if generation \<noteq> cs_generation self
      then (GenerationSuperseded generation (cs_generation self), self)
      else (Retired, self\<lparr>cs_entries := [], cs_state := CSS_Applied, cs_updated_at := tm\<rparr>))"

definition entry_for :: "change_set \<Rightarrow> control_id \<Rightarrow> apply_lane \<Rightarrow> change_set_entry option" where
  "entry_for self control lane =
     find (\<lambda>e. en_control e = control \<and> en_lane e = lane) (cs_entries self)"

definition cs_may_apply :: "change_set \<Rightarrow> bool" where
  "cs_may_apply self \<longleftrightarrow>
     cs_entries self \<noteq> [] \<and> list_all (\<lambda>e. validity_may_apply (en_validity e)) (cs_entries self)"

text \<open>At most one entry per control and lane.\<close>

abbreviation slot_of :: "change_set_entry \<Rightarrow> control_id \<times> apply_lane" where
  "slot_of e \<equiv> (en_control e, en_lane e)"

definition slots_distinct :: "change_set_entry list \<Rightarrow> bool" where
  "slots_distinct es \<longleftrightarrow> distinct (map slot_of es)"

lemma slots_put_entry:
  "map slot_of (put_entry e es) =
     (if slot_of e \<in> set (map slot_of es) then map slot_of es else map slot_of es @ [slot_of e])"
  by (induction es) (auto simp: same_slot_def)

lemma put_entry_distinct: "slots_distinct es \<Longrightarrow> slots_distinct (put_entry e es)"
  unfolding slots_distinct_def slots_put_entry by simp

lemma put_entry_find_same:
  "find (\<lambda>x. en_control x = en_control e \<and> en_lane x = en_lane e) (put_entry e es) = Some e"
  by (induction es) (auto simp: same_slot_def)

lemma put_entry_find_other:
  "(c, l) \<noteq> (en_control e, en_lane e) \<Longrightarrow>
     find (\<lambda>x. en_control x = c \<and> en_lane x = l) (put_entry e es) =
     find (\<lambda>x. en_control x = c \<and> en_lane x = l) es"
  by (induction es) (auto simp: same_slot_def)

section \<open>A run of one change set\<close>

text \<open>
  The operations several surfaces may interleave on one change set. \<open>EvMark\<close> is a producer moving
  the state while an operation executes (validation, execution), which the code does by writing
  the public field.
\<close>

datatype cs_event =
    EvStage change_set_entry timestamp
  | EvDetach
  | EvMark change_set_state
  | EvRetire u64 timestamp

fun cs_apply :: "change_set \<Rightarrow> cs_event \<Rightarrow> change_set" where
  "cs_apply s (EvStage e tm) = snd (stage s e tm)"
| "cs_apply s EvDetach = snd (detach s)"
| "cs_apply s (EvMark st) = s\<lparr>cs_state := st\<rparr>"
| "cs_apply s (EvRetire g tm) = snd (retire s g tm)"

definition cs_run :: "change_set \<Rightarrow> cs_event list \<Rightarrow> change_set" where
  "cs_run s evs = foldl cs_apply s evs"

lemma stage_frame [frame_simps]:
  "cs_id (snd (stage s e tm)) = cs_id s"
  "cs_base (snd (stage s e tm)) = cs_base s"
  by (simp_all add: stage_def Let_def)

lemma stage_generation:
  "cs_generation (snd (stage s e tm)) =
     (if accepts_staging (cs_state s) then cs_generation s + 1 else cs_generation s)"
  by (simp add: stage_def Let_def)

lemma cs_apply_slots: "slots_distinct (cs_entries s) \<Longrightarrow> slots_distinct (cs_entries (cs_apply s ev))"
  by (cases ev)
    (auto simp: stage_def detach_def retire_def Let_def put_entry_distinct slots_distinct_def
      intro: put_entry_distinct [unfolded slots_distinct_def])

lemma cs_run_slots: "slots_distinct (cs_entries s) \<Longrightarrow> slots_distinct (cs_entries (cs_run s evs))"
  unfolding cs_run_def by (induction evs arbitrary: s) (auto intro: cs_apply_slots)

text \<open>The number of edits a run lands, which is how far it moves the generation.\<close>

fun staged_count :: "change_set \<Rightarrow> cs_event list \<Rightarrow> nat" where
  "staged_count s [] = 0"
| "staged_count s (ev # evs) =
     (case ev of EvStage e tm \<Rightarrow> if accepts_staging (cs_state s) then 1 else 0 | _ \<Rightarrow> 0) +
     staged_count (cs_apply s ev) evs"

lemma cs_run_generation:
  "cs_generation (cs_run s evs) = cs_generation s + of_nat (staged_count s evs)"
  unfolding cs_run_def
proof (induction evs arbitrary: s)
  case (Cons ev evs)
  have "cs_generation (cs_apply s ev) = cs_generation s +
      of_nat (case ev of EvStage e tm \<Rightarrow> if accepts_staging (cs_state s) then 1 else 0 | _ \<Rightarrow> 0)"
    by (cases ev) (auto simp: stage_def detach_def retire_def Let_def)
  with Cons show ?case by (simp add: algebra_simps)
qed simp

lemma staged_count_le: "staged_count s evs \<le> length evs"
proof (induction evs arbitrary: s)
  case (Cons ev evs)
  have "staged_count (cs_apply s ev) evs \<le> length evs" by (rule Cons.IH)
  then show ?case by (cases ev) auto
qed simp

text \<open>
  Below \<open>2 ^ 64\<close> steps the counter does not come round: the generation is unchanged exactly when
  no edit landed.
\<close>

lemma cs_run_generation_eq_iff:
  assumes "length evs < 2 ^ 64"
  shows "cs_generation (cs_run s evs) = cs_generation s \<longleftrightarrow> staged_count s evs = 0"
proof -
  have "staged_count s evs < 2 ^ 64" using staged_count_le [of s evs] assms by simp
  then have "unat (of_nat (staged_count s evs) :: u64) = staged_count s evs"
    by (simp add: unat_of_nat)
  then have "(of_nat (staged_count s evs) :: u64) = 0 \<longleftrightarrow> staged_count s evs = 0"
    by (metis unat_0 unat_eq_zero)
  then show ?thesis by (simp add: cs_run_generation)
qed

lemma no_stage_entries:
  "staged_count s evs = 0 \<Longrightarrow> (\<forall>g tm. EvRetire g tm \<notin> set evs) \<Longrightarrow>
     cs_entries (cs_run s evs) = cs_entries s"
  unfolding cs_run_def
proof (induction evs arbitrary: s)
  case (Cons ev evs)
  have "cs_entries (cs_apply s ev) = cs_entries s"
    using Cons.prems by (cases ev) (auto simp: stage_def detach_def split: if_splits)
  with Cons show ?case by (auto split: if_splits)
qed simp

section \<open>Staleness\<close>

record document_revisions =
  dr_control_plane :: revision
  dr_state :: revision

datatype staleness = Current | StateAdvanced | ControlPlaneAdvanced | EpochChanged

definition staleness_evaluate ::
  "revision_ref \<Rightarrow> producer_epoch \<Rightarrow> document_revisions \<Rightarrow> staleness" where
  "staleness_evaluate base current_epoch current =
     (if rr_epoch base \<noteq> current_epoch then EpochChanged
      else if dr_control_plane current \<noteq> rr_control_plane base then ControlPlaneAdvanced
      else if dr_state current \<noteq> rr_state base then StateAdvanced
      else Current)"

definition requires_revalidation :: "staleness \<Rightarrow> bool" where
  "requires_revalidation s \<longleftrightarrow> s \<noteq> Current"

fun staleness_reason_code :: "staleness \<Rightarrow> reason_code option" where
  "staleness_reason_code Current = None"
| "staleness_reason_code StateAdvanced = Some RC_StaleBase"
| "staleness_reason_code ControlPlaneAdvanced = Some RC_StaleBase"
| "staleness_reason_code EpochChanged = Some RC_Superseded"

definition validity_nan_free :: "entry_validity \<Rightarrow> bool" where
  "validity_nan_free v = (case v of StaleBase (Some x) \<Rightarrow> cv_nan_free x | _ \<Rightarrow> True)"

definition entry_nan_free :: "change_set_entry \<Rightarrow> bool" where
  "entry_nan_free e \<longleftrightarrow> cv_nan_free (en_desired e) \<and>
     (case en_base_observed e of None \<Rightarrow> True | Some v \<Rightarrow> cv_nan_free v) \<and>
     validity_nan_free (en_validity e)"

definition change_set_nan_free :: "change_set \<Rightarrow> bool" where
  "change_set_nan_free s \<longleftrightarrow> list_all entry_nan_free (cs_entries s)"

lemma staleness_current_iff:
  "staleness_evaluate base ep cur = Current \<longleftrightarrow>
     base = \<lparr>rr_epoch = ep, rr_control_plane = dr_control_plane cur, rr_state = dr_state cur\<rparr>"
  by (cases base) (auto simp: staleness_evaluate_def)

end
