(* ===== verification/Producer_Doc.thy ===== *)
theory Producer_Doc
  imports Change_Set Constraint_Wire
begin

text \<open>
  The producer document (\<open>src/adaptive/document.rs\<close>): revisions, lane health, the envelope, the
  coherence rules C1 and C2 for published intent, the effective view every surface evaluates
  constraints through, and the admission of a raw document.
\<close>

section \<open>Revisions\<close>

definition dr_new :: "u64 \<Rightarrow> u64 \<Rightarrow> document_revisions" where
  "dr_new cp st = \<lparr>dr_control_plane = Revision cp, dr_state = Revision st\<rparr>"

definition regresses_from :: "document_revisions \<Rightarrow> document_revisions \<Rightarrow> bool" where
  "regresses_from self previous \<longleftrightarrow>
     dr_control_plane self < dr_control_plane previous \<or> dr_state self < dr_state previous"

definition advances_over :: "document_revisions \<Rightarrow> document_revisions \<Rightarrow> bool" where
  "advances_over self previous \<longleftrightarrow> \<not> regresses_from self previous \<and> self \<noteq> previous"

definition at_epoch :: "document_revisions \<Rightarrow> producer_epoch \<Rightarrow> revision_ref" where
  "at_epoch self ep =
     \<lparr>rr_epoch = ep, rr_control_plane = dr_control_plane self, rr_state = dr_state self\<rparr>"

text \<open>Not regressing is the componentwise order; advancing is its strict part.\<close>

lemma not_regresses_iff:
  "\<not> regresses_from a b \<longleftrightarrow> dr_control_plane b \<le> dr_control_plane a \<and> dr_state b \<le> dr_state a"
  by (auto simp: regresses_from_def not_less)

lemma regresses_trans: "\<not> regresses_from a b \<Longrightarrow> \<not> regresses_from b c \<Longrightarrow> \<not> regresses_from a c"
  by (auto simp: not_regresses_iff)

lemma regresses_refl [simp]: "\<not> regresses_from a a"
  by (simp add: regresses_from_def)

lemma regresses_antisym: "\<not> regresses_from a b \<Longrightarrow> \<not> regresses_from b a \<Longrightarrow> a = b"
  by (cases a; cases b) (auto simp: not_regresses_iff intro: order_antisym)

lemma advances_trans: "advances_over a b \<Longrightarrow> advances_over b c \<Longrightarrow> advances_over a c"
  by (metis advances_over_def regresses_antisym regresses_trans)

section \<open>The document\<close>

record lane_health =
  lh_lane :: transport_lane
  lh_state :: lane_state
  lh_last_success :: "timestamp option"
  lh_last_error :: "reason option"
  lh_freshness :: freshness
  lh_extensions :: extensions

definition permits_last_known_display :: "lane_health \<Rightarrow> bool" where
  "permits_last_known_display h \<longleftrightarrow> lh_state h \<noteq> LS_Unconfigured"

record producer_identity =
  pi_producer_id :: string
  pi_producer_type :: string
  pi_instance_label :: "string option"
  pi_product_version :: "string option"
  pi_epoch :: producer_epoch
  pi_extensions :: extensions

record producer_target =
  pt_role :: target_role
  pt_zone_id :: "string option"
  pt_extensions :: extensions

record producer_document =
  pd_schema_version :: schema_version
  pd_producer :: producer_identity
  pd_target :: producer_target
  pd_revisions :: document_revisions
  pd_lanes :: "lane_health list"
  pd_groups :: "control_group list"
  pd_controls :: "control list"
  pd_constraints :: "constraint list"
  pd_draft_policy :: "draft_policy option"
  pd_change_sets :: "change_set list"
  pd_operations :: "operation_record list"
  pd_stale :: bool
  pd_extensions :: extensions

definition doc_control :: "producer_document \<Rightarrow> control_id \<Rightarrow> control option" where
  "doc_control d i = find (\<lambda>c. ct_id c = i) (pd_controls d)"

definition doc_lane_health :: "producer_document \<Rightarrow> transport_lane \<Rightarrow> lane_health option" where
  "doc_lane_health d l = find (\<lambda>h. lh_lane h = l) (pd_lanes d)"

definition doc_position :: "producer_document \<Rightarrow> revision_ref" where
  "doc_position d = at_epoch (pd_revisions d) (pi_epoch (pd_producer d))"

text \<open>
  The derived \<open>PartialEq\<close> of a document compares every field, and fails on a NaN anywhere inside;
  \<open>doc_eq\<close> states that in one line.
\<close>

definition doc_nan_free :: "producer_document \<Rightarrow> bool" where
  "doc_nan_free d \<longleftrightarrow> list_all control_nan_free (pd_controls d) \<and>
     list_all (\<lambda>c. expr_nan_free (cn_when c)) (pd_constraints d) \<and>
     list_all change_set_nan_free (pd_change_sets d) \<and>
     list_all operation_nan_free (pd_operations d)"

definition doc_eq :: "producer_document \<Rightarrow> producer_document \<Rightarrow> bool" where
  "doc_eq a b \<longleftrightarrow> a = b \<and> doc_nan_free a"

text \<open>Unknown fields, by path.\<close>

definition collect :: "extensions \<Rightarrow> string \<Rightarrow> string list" where
  "collect exts prefix =
     map (\<lambda>kv. if prefix = [] then fst kv else prefix @ ''.'' @ fst kv) exts"

definition bracket :: "string \<Rightarrow> string \<Rightarrow> string" where
  "bracket name i = name @ ''['' @ i @ '']''"

definition extension_key_paths :: "producer_document \<Rightarrow> string list" where
  "extension_key_paths d =
     collect (pd_extensions d) [] @
     collect (pi_extensions (pd_producer d)) ''producer'' @
     collect (pt_extensions (pd_target d)) ''target'' @
     concat (map (\<lambda>c.
       let prefix = bracket ''controls'' (cid_str (ct_id c)) in
       collect (ct_extensions c) prefix @
       concat (map (\<lambda>v. collect (lv_extensions v)
                 (prefix @ bracket ''.values'' (value_lane_as_str (lv_lane v)))) (ct_values c)))
       (pd_controls d)) @
     concat (map (\<lambda>h. collect (lh_extensions h) (bracket ''lanes'' (transport_lane_as_str (lh_lane h))))
       (pd_lanes d)) @
     concat (map (\<lambda>s.
       let prefix = bracket ''change_sets'' (csid_str (cs_id s)) in
       collect (cs_extensions s) prefix @
       concat (map (\<lambda>e. collect (en_extensions e)
                 (prefix @ bracket ''.entries'' (cid_str (en_control e)))) (cs_entries s)))
       (pd_change_sets d)) @
     concat (map (\<lambda>r. collect (or_extensions r) (bracket ''operations'' (oid_str (or_id r))))
       (pd_operations d))"

section \<open>Coherence of published intent\<close>

datatype intent_incoherence =
    MissingDesiredLane control_id change_set_id
  | DesiredLaneDisagrees control_id change_set_id
  | MultipleValidDrafts control_id change_set_id change_set_id
  | UnknownControl control_id change_set_id

definition desired_value :: "control \<Rightarrow> control_value option" where
  "desired_value c = Option.bind (control_lane c VL_Desired) grounded_value"

text \<open>One entry: the C2 check against the claims so far, then the C1 check.\<close>

type_synonym claims = "(control_id \<times> change_set_id) list"

definition check_claim ::
  "change_set_id \<Rightarrow> control_id \<Rightarrow> claims \<Rightarrow> claims \<times> intent_incoherence list" where
  "check_claim owner c claimed =
     (case find (\<lambda>p. fst p = c \<and> snd p \<noteq> owner) claimed of
        Some other \<Rightarrow> (claimed, [MultipleValidDrafts c owner (snd other)])
      | None \<Rightarrow>
          (if list_ex (\<lambda>p. fst p = c \<and> snd p = owner) claimed then (claimed, [])
           else (claimed @ [(c, owner)], [])))"

definition check_desired ::
  "producer_document \<Rightarrow> change_set_id \<Rightarrow> change_set_entry \<Rightarrow> intent_incoherence list" where
  "check_desired d owner e =
     (case doc_control d (en_control e) of
        None \<Rightarrow> [UnknownControl (en_control e) owner]
      | Some c \<Rightarrow>
          (case desired_value c of
             None \<Rightarrow> [MissingDesiredLane (en_control e) owner]
           | Some published \<Rightarrow>
               if \<not> cv_eq published (en_desired e)
               then [DesiredLaneDisagrees (en_control e) owner] else []))"

fun check_entries ::
  "producer_document \<Rightarrow> change_set_id \<Rightarrow> claims \<Rightarrow> change_set_entry list \<Rightarrow>
     claims \<times> intent_incoherence list" where
  "check_entries d owner claimed [] = (claimed, [])"
| "check_entries d owner claimed (e # es) =
     (if \<not> validity_may_apply (en_validity e) then check_entries d owner claimed es
      else let (claimed1, vs1) = check_claim owner (en_control e) claimed;
               (claimed2, vs2) = check_entries d owner claimed1 es
           in (claimed2, vs1 @ check_desired d owner e @ vs2))"

fun check_sets ::
  "producer_document \<Rightarrow> claims \<Rightarrow> change_set list \<Rightarrow> claims \<times> intent_incoherence list" where
  "check_sets d claimed [] = (claimed, [])"
| "check_sets d claimed (s # ss) =
     (let (claimed1, vs1) = check_entries d (cs_id s) claimed (cs_entries s);
          (claimed2, vs2) = check_sets d claimed1 ss
      in (claimed2, vs1 @ vs2))"

definition intent_coherence_violations :: "producer_document \<Rightarrow> intent_incoherence list" where
  "intent_coherence_violations d = snd (check_sets d [] (pd_change_sets d))"

text \<open>
  The specification. \<open>valid_pairs\<close> are the applicable entries with the change set that holds each.
  C1: every one has a matching grounded desired value. C2: no two change sets hold one for the same
  control.
\<close>

definition valid_pairs :: "change_set list \<Rightarrow> (change_set_id \<times> change_set_entry) list" where
  "valid_pairs ss = concat (map (\<lambda>s. map (Pair (cs_id s))
     (filter (\<lambda>e. validity_may_apply (en_validity e)) (cs_entries s))) ss)"

definition c1_holds :: "producer_document \<Rightarrow> change_set_entry \<Rightarrow> bool" where
  "c1_holds d e \<longleftrightarrow>
     (\<exists>c v. doc_control d (en_control e) = Some c \<and> desired_value c = Some v \<and> cv_eq v (en_desired e))"

definition coherent :: "producer_document \<Rightarrow> bool" where
  "coherent d \<longleftrightarrow>
     (\<forall>p \<in> set (valid_pairs (pd_change_sets d)). c1_holds d (snd p)) \<and>
     (\<forall>p \<in> set (valid_pairs (pd_change_sets d)). \<forall>q \<in> set (valid_pairs (pd_change_sets d)).
        en_control (snd p) = en_control (snd q) \<longrightarrow> fst p = fst q)"

text \<open>The two nested loops are one loop over the valid pairs.\<close>

fun check_pairs ::
  "producer_document \<Rightarrow> claims \<Rightarrow> (change_set_id \<times> change_set_entry) list \<Rightarrow>
     claims \<times> intent_incoherence list" where
  "check_pairs d claimed [] = (claimed, [])"
| "check_pairs d claimed ((owner, e) # ps) =
     (let (claimed1, vs1) = check_claim owner (en_control e) claimed;
          (claimed2, vs2) = check_pairs d claimed1 ps
      in (claimed2, vs1 @ check_desired d owner e @ vs2))"

lemma check_pairs_append:
  "check_pairs d claimed (ps @ qs) =
     (let (claimed1, vs1) = check_pairs d claimed ps;
          (claimed2, vs2) = check_pairs d claimed1 qs
      in (claimed2, vs1 @ vs2))"
  by (induction ps arbitrary: claimed) (auto simp: split_beta Let_def)

lemma check_entries_pairs:
  "check_entries d owner claimed es =
     check_pairs d claimed (map (Pair owner) (filter (\<lambda>e. validity_may_apply (en_validity e)) es))"
  by (induction es arbitrary: claimed) (auto simp: split_beta Let_def)

lemma check_sets_pairs: "check_sets d claimed ss = check_pairs d claimed (valid_pairs ss)"
  by (induction ss arbitrary: claimed)
    (auto simp: valid_pairs_def check_pairs_append check_entries_pairs split_beta Let_def)

text \<open>
  The claims record the first owner of each control. \<open>first_owner\<close> says who that is, given the
  claims made before.
\<close>

definition first_owner ::
  "claims \<Rightarrow> (change_set_id \<times> change_set_entry) list \<Rightarrow> control_id \<Rightarrow> change_set_id option" where
  "first_owner claimed ps c =
     (case map_of claimed c of Some s \<Rightarrow> Some s
      | None \<Rightarrow> map_option fst (find (\<lambda>p. en_control (snd p) = c) ps))"

lemma check_claim_cases:
  assumes "distinct (map fst claimed)"
  shows "check_claim owner c claimed =
    (case map_of claimed c of
       None \<Rightarrow> (claimed @ [(c, owner)], [])
     | Some s \<Rightarrow> (claimed, if s = owner then [] else [MultipleValidDrafts c owner s]))"
proof (cases "map_of claimed c")
  case None
  then have no: "\<And>s. (c, s) \<notin> set claimed" by (force simp: map_of_eq_None_iff)
  then have "find (\<lambda>p. fst p = c \<and> snd p \<noteq> owner) claimed = None"
    by (auto simp: find_None_iff)
  with None no show ?thesis by (auto simp: check_claim_def list_ex_iff)
next
  case (Some s)
  then have s: "(c, s) \<in> set claimed" and u: "\<And>t. (c, t) \<in> set claimed \<Longrightarrow> t = s"
    using assms by (auto dest: map_of_SomeD simp: map_of_is_SomeI)
  show ?thesis
  proof (cases "s = owner")
    case True
    then have "find (\<lambda>p. fst p = c \<and> snd p \<noteq> owner) claimed = None"
      using u by (auto simp: find_None_iff)
    with True Some s show ?thesis by (force simp: check_claim_def list_ex_iff)
  next
    case False
    have "find (\<lambda>p. fst p = c \<and> snd p \<noteq> owner) claimed \<noteq> None"
      using s False by (auto simp: find_None_iff)
    then obtain q where q: "find (\<lambda>p. fst p = c \<and> snd p \<noteq> owner) claimed = Some q" by auto
    then have "q \<in> set claimed \<and> fst q = c" by (auto simp: find_Some_iff)
    then have "snd q = s" using u by (cases q) auto
    with q False Some show ?thesis by (simp add: check_claim_def)
  qed
qed

lemma check_pairs_violations:
  assumes "distinct (map fst claimed)"
  shows "set (snd (check_pairs d claimed ps)) =
    (\<Union>p \<in> set ps. set (check_desired d (fst p) (snd p)) \<union>
       (case first_owner claimed ps (en_control (snd p)) of
          None \<Rightarrow> {}
        | Some s \<Rightarrow> if s = fst p then {} else {MultipleValidDrafts (en_control (snd p)) (fst p) s}))"
  using assms
proof (induction ps arbitrary: claimed)
  case (Cons p ps)
  obtain owner e where p: "p = (owner, e)" by (cases p)
  let ?c = "en_control e"
  let ?claimed1 = "fst (check_claim owner ?c claimed)"
  have d1: "distinct (map fst ?claimed1)"
    using Cons.prems by (auto simp: check_claim_cases [OF Cons.prems] map_of_eq_None_iff
        split: option.splits)
  have fo: "first_owner ?claimed1 ps c' = first_owner claimed (p # ps) c'" for c'
    by (auto simp: check_claim_cases [OF Cons.prems] first_owner_def p map_add_def
        split: option.splits)
  have here: "set (snd (check_claim owner ?c claimed)) =
      (case first_owner claimed (p # ps) ?c of
         None \<Rightarrow> {} | Some s \<Rightarrow> if s = owner then {} else {MultipleValidDrafts ?c owner s})"
    by (auto simp: check_claim_cases [OF Cons.prems] first_owner_def p split: option.splits)
  have eq: "snd (check_pairs d claimed (p # ps)) =
      snd (check_claim owner ?c claimed) @ check_desired d owner e @ snd (check_pairs d ?claimed1 ps)"
    by (simp add: p split_beta Let_def)
  show ?case
    unfolding eq set_append here Cons.IH [OF d1] fo by (simp only: p list.set UN_insert fst_conv snd_conv) blast
qed simp

lemma first_owner_exists:
  "(s, e) \<in> set ps \<Longrightarrow> \<exists>s' e'. first_owner [] ps (en_control e) = Some s' \<and> (s', e') \<in> set ps \<and>
     en_control e' = en_control e"
proof -
  assume a: "(s, e) \<in> set ps"
  then have "find (\<lambda>p. en_control (snd p) = en_control e) ps \<noteq> None"
    by (auto simp: find_None_iff)
  then obtain q where q: "find (\<lambda>p. en_control (snd p) = en_control e) ps = Some q" by auto
  then have "q \<in> set ps \<and> en_control (snd q) = en_control e" by (auto simp: find_Some_iff)
  with q show ?thesis
    by (intro exI [of _ "fst q"] exI [of _ "snd q"]) (simp add: first_owner_def)
qed

lemma check_desired_empty_iff: "check_desired d owner e = [] \<longleftrightarrow> c1_holds d e"
  by (auto simp: check_desired_def c1_holds_def split: option.splits)

lemma violations_set:
  "set (intent_coherence_violations d) =
    (\<Union>p \<in> set (valid_pairs (pd_change_sets d)). set (check_desired d (fst p) (snd p)) \<union>
       (case first_owner [] (valid_pairs (pd_change_sets d)) (en_control (snd p)) of
          None \<Rightarrow> {}
        | Some s \<Rightarrow> if s = fst p then {} else {MultipleValidDrafts (en_control (snd p)) (fst p) s}))"
  unfolding intent_coherence_violations_def check_sets_pairs
  by (rule check_pairs_violations) simp

text \<open>The checker decides the specification.\<close>

lemma violations_empty_iff: "intent_coherence_violations d = [] \<longleftrightarrow> coherent d"
proof -
  let ?ps = "valid_pairs (pd_change_sets d)"
  have "intent_coherence_violations d = [] \<longleftrightarrow> set (intent_coherence_violations d) = {}"
    by simp
  also have "\<dots> \<longleftrightarrow> (\<forall>p \<in> set ?ps. c1_holds d (snd p) \<and>
      (\<forall>s. first_owner [] ?ps (en_control (snd p)) = Some s \<longrightarrow> s = fst p))"
    unfolding violations_set
    by (auto simp: check_desired_empty_iff split: option.splits if_splits)
  also have "\<dots> \<longleftrightarrow> coherent d"
  proof
    assume L: "\<forall>p \<in> set ?ps. c1_holds d (snd p) \<and>
      (\<forall>s. first_owner [] ?ps (en_control (snd p)) = Some s \<longrightarrow> s = fst p)"
    show "coherent d"
      unfolding coherent_def
    proof (intro conjI ballI impI)
      fix p q assume pq: "p \<in> set ?ps" "q \<in> set ?ps" "en_control (snd p) = en_control (snd q)"
      obtain s where "first_owner [] ?ps (en_control (snd p)) = Some s"
        using first_owner_exists [of "fst p" "snd p" ?ps] pq(1) by auto
      with L pq show "fst p = fst q" by metis
    qed (use L in blast)
  next
    assume C: "coherent d"
    show "\<forall>p \<in> set ?ps. c1_holds d (snd p) \<and>
      (\<forall>s. first_owner [] ?ps (en_control (snd p)) = Some s \<longrightarrow> s = fst p)"
    proof (intro ballI conjI allI impI)
      fix p s assume p: "p \<in> set ?ps" and s: "first_owner [] ?ps (en_control (snd p)) = Some s"
      obtain e' where "(s, e') \<in> set ?ps" "en_control e' = en_control (snd p)"
        using first_owner_exists [of "fst p" "snd p" ?ps] p s by auto
      with C p show "s = fst p" unfolding coherent_def by (metis fst_conv snd_conv)
    qed (use C in \<open>auto simp: coherent_def\<close>)
  qed
  finally show ?thesis .
qed

text \<open>Which change sets and control a violation names.\<close>

fun names :: "intent_incoherence \<Rightarrow> change_set_id \<Rightarrow> control_id \<Rightarrow> bool" where
  "names (MissingDesiredLane c s) s' c' = (c' = c \<and> s' = s)"
| "names (DesiredLaneDisagrees c s) s' c' = (c' = c \<and> s' = s)"
| "names (MultipleValidDrafts c s t) s' c' = (c' = c \<and> (s' = s \<or> s' = t))"
| "names (UnknownControl c s) s' c' = (c' = c \<and> s' = s)"

text \<open>Every entry that takes part in an incoherence is named by some violation.\<close>

lemma c1_failure_named:
  assumes "(s, e) \<in> set (valid_pairs (pd_change_sets d))" "\<not> c1_holds d e"
  shows "\<exists>v \<in> set (intent_coherence_violations d). names v s (en_control e)"
proof -
  obtain v where v: "v \<in> set (check_desired d s e)"
    using assms(2) by (cases "check_desired d s e") (auto dest: check_desired_empty_iff [THEN iffD1])
  then have "names v s (en_control e)"
    by (auto simp: check_desired_def split: option.splits if_splits)
  with v assms(1) show ?thesis unfolding violations_set by force
qed

lemma c2_failure_named:
  assumes "(s, e) \<in> set (valid_pairs (pd_change_sets d))" "(t, f) \<in> set (valid_pairs (pd_change_sets d))"
    and "en_control e = en_control f" "s \<noteq> t"
  shows "\<exists>v \<in> set (intent_coherence_violations d). names v s (en_control e)"
proof -
  let ?ps = "valid_pairs (pd_change_sets d)"
  obtain o1 where o1: "first_owner [] ?ps (en_control e) = Some o1"
    using first_owner_exists [OF assms(1)] by auto
  show ?thesis
  proof (cases "o1 = s")
    case False
    then have "MultipleValidDrafts (en_control e) s o1 \<in> set (intent_coherence_violations d)"
      unfolding violations_set using assms(1) o1 by (intro UN_I [of "(s, e)"]) auto
    then show ?thesis by (rule bexI [rotated]) simp
  next
    case True
    then have "MultipleValidDrafts (en_control f) t s \<in> set (intent_coherence_violations d)"
      unfolding violations_set using assms o1 by (intro UN_I [of "(t, f)"]) auto
    then show ?thesis using assms(3) by (intro bexI [rotated]) auto
  qed
qed

section \<open>The effective view\<close>

definition effective_lookup :: "producer_document \<Rightarrow> change_set option \<Rightarrow> value_lookup" where
  "effective_lookup d cs c lane =
     (case doc_control d c of
        None \<Rightarrow> None
      | Some descriptor \<Rightarrow>
          (if lane = VL_Effective then
             (case Option.bind cs (\<lambda>s. find (\<lambda>e. en_control e = c) (cs_entries s)) of
                Some staged \<Rightarrow>
                  (case control_lane descriptor VL_Desired of
                     Some v \<Rightarrow> Some v | None \<Rightarrow> control_lane descriptor VL_Observed)
              | None \<Rightarrow>
                  (case control_lane descriptor VL_Effective of
                     Some v \<Rightarrow> Some v | None \<Rightarrow> control_lane descriptor VL_Observed))
           else control_lane descriptor lane))"

lemma valid_pairs_iff:
  "(s, e) \<in> set (valid_pairs ss) \<longleftrightarrow>
     (\<exists>cs \<in> set ss. cs_id cs = s \<and> e \<in> set (cs_entries cs) \<and> en_validity e = Valid)"
  by (auto simp: valid_pairs_def validity_may_apply_def)

text \<open>In a coherent document the effective value of a validly staged control is the staged one.\<close>

lemma coherent_effective:
  assumes "coherent d" "cs \<in> set (pd_change_sets d)" "e \<in> set (cs_entries cs)" "en_validity e = Valid"
  shows "\<exists>v. grounded (effective_lookup d (Some cs)) (en_control e) VL_Effective = Some v \<and>
    cv_eq v (en_desired e)"
proof -
  have "(cs_id cs, e) \<in> set (valid_pairs (pd_change_sets d))"
    using assms by (auto simp: valid_pairs_iff)
  then obtain c v where c: "doc_control d (en_control e) = Some c" and v: "desired_value c = Some v"
      and eq: "cv_eq v (en_desired e)"
    using assms(1) by (fastforce simp: coherent_def c1_holds_def)
  obtain lv where lv: "control_lane c VL_Desired = Some lv" "grounded_value lv = Some v"
    using v by (auto simp: desired_value_def bind_eq_Some_conv)
  have "find (\<lambda>x. en_control x = en_control e) (cs_entries cs) \<noteq> None"
    using assms(3) by (auto simp: find_None_iff)
  with c lv eq show ?thesis by (auto simp: grounded_def effective_lookup_def)
qed

section \<open>Admitting a raw document\<close>

text \<open>
  The derived \<open>Deserialize\<close> of the document and the text form of a JSON value are generated code
  and library code: parameters \<open>from_value\<close> and \<open>to_text\<close>.
\<close>

fun first_bad_constraint :: "constraint list \<Rightarrow> refusal option" where
  "first_bad_constraint [] = None"
| "first_bad_constraint (c # cs) =
     (case constraint_validate c of
        Inl limit \<Rightarrow> Some (ConstraintTooComplex (cn_id c) limit)
      | Inr u \<Rightarrow> first_bad_constraint cs)"

definition admit_document ::
  "(json \<Rightarrow> string) \<Rightarrow> (json \<Rightarrow> string + producer_document) \<Rightarrow> json \<Rightarrow> refusal + producer_document"
where
  "admit_document to_text from_value raw =
     (case Option.bind (as_object raw) (\<lambda>ob. map_of ob ''schema_version'') of
        None \<Rightarrow> Inl MissingVersion
      | Some stamped \<Rightarrow>
          (case as_str stamped of
             None \<Rightarrow> Inl (UnparsableVersion (to_text stamped))
           | Some txt \<Rightarrow>
               (case sv_parse txt of
                  None \<Rightarrow> Inl (UnparsableVersion txt)
                | Some version \<Rightarrow>
                    (case compat_refusal (compatibility_for version CONSUMER_SCHEMA_VERSION) of
                       Some r \<Rightarrow> Inl r
                     | None \<Rightarrow>
                         (case from_value raw of
                            Inl detail \<Rightarrow> Inl (Malformed detail)
                          | Inr d \<Rightarrow>
                              (case first_bad_constraint (pd_constraints d) of
                                 Some r \<Rightarrow> Inl r
                               | None \<Rightarrow> Inr d))))))"

definition admit_document_str ::
  "(string \<Rightarrow> string + json) \<Rightarrow> (json \<Rightarrow> string) \<Rightarrow> (json \<Rightarrow> string + producer_document) \<Rightarrow> string \<Rightarrow>
     refusal + producer_document" where
  "admit_document_str parse_text to_text from_value raw =
     (case parse_text raw of
        Inl detail \<Rightarrow> Inl (Malformed detail)
      | Inr j \<Rightarrow> admit_document to_text from_value j)"

lemma first_bad_constraint_None_iff:
  "first_bad_constraint cs = None \<longleftrightarrow> (\<forall>c \<in> set cs. constraint_validate c = Inr ())"
  by (induction cs) (auto split: sum.splits)

lemma admit_document_ok_iff:
  "admit_document to_text from_value raw = Inr d \<longleftrightarrow>
     (\<exists>ob txt v. raw = JObj ob \<and> map_of ob ''schema_version'' = Some (JStr txt) \<and>
        sv_parse txt = Some v \<and> sv_major v = 1 \<and> from_value raw = Inr d \<and>
        (\<forall>c \<in> set (pd_constraints d). constraint_validate c = Inr ()))"
proof -
  have obj: "as_object raw = Some ob \<longleftrightarrow> raw = JObj ob" for ob by (cases raw) auto
  have str: "as_str j = Some t \<longleftrightarrow> j = JStr t" for j t by (cases j) auto
  have compat: "compat_refusal (compatibility_for v CONSUMER_SCHEMA_VERSION) = None \<longleftrightarrow> sv_major v = 1"
    for v by (simp add: compat_refusal_None_iff is_usable_iff CONSUMER_SCHEMA_VERSION_def)
  have compat': "sv_major v \<noteq> 1" if "compat_refusal (compatibility_for v CONSUMER_SCHEMA_VERSION) = Some r"
    for v r using that compat [of v] by auto
  have bad: "\<not> (\<forall>c \<in> set cs. constraint_validate c = Inr ())" if "first_bad_constraint cs = Some r"
    for cs r using that first_bad_constraint_None_iff [of cs] by auto
  show ?thesis
    unfolding admit_document_def
    by (auto simp: obj str compat first_bad_constraint_None_iff bind_eq_Some_conv
        dest: compat' bad split: option.splits sum.splits)
qed

end
