(* ===== verification/Adapter_Runs.thy ===== *)
theory Adapter_Runs
  imports Uhc_Prelude
begin

text \<open>
  Adapter run identity (\<open>src/producers/run.rs\<close>): the registry that allocates runs and says which one
  is live per adapter. The mutex is held for the whole of every operation, so each is one step on
  the guarded state. An assertion that fails is a result \<open>None\<close>; the state it leaves behind is kept,
  because the lock recovers a poisoned mutex.
\<close>

section \<open>Identities\<close>

datatype adapter_run_id = AdapterRunId (run_no: u64)

instantiation adapter_run_id :: linorder
begin

definition less_eq_adapter_run_id :: "adapter_run_id \<Rightarrow> adapter_run_id \<Rightarrow> bool" where
  "less_eq_adapter_run_id a b \<longleftrightarrow> run_no a \<le> run_no b"

definition less_adapter_run_id :: "adapter_run_id \<Rightarrow> adapter_run_id \<Rightarrow> bool" where
  "less_adapter_run_id a b \<longleftrightarrow> run_no a < run_no b"

instance
  by standard (auto simp: less_eq_adapter_run_id_def less_adapter_run_id_def adapter_run_id.expand)

end

record publication_origin =
  po_adapter :: string
  po_run :: adapter_run_id

definition owns :: "publication_origin \<Rightarrow> string \<Rightarrow> bool" where
  "owns self producer_id =
     (case split_once CHR '':'' producer_id of
        None \<Rightarrow> False
      | Some (namespace, local) \<Rightarrow> namespace = po_adapter self \<and> local \<noteq> [])"

lemma owns_iff:
  "owns o1 p \<longleftrightarrow> CHR '':'' \<notin> set (po_adapter o1) \<and>
     (\<exists>local. local \<noteq> [] \<and> p = po_adapter o1 @ CHR '':'' # local)"
proof -
  have "owns o1 p \<longleftrightarrow> (\<exists>local. local \<noteq> [] \<and> split_once CHR '':'' p = Some (po_adapter o1, local))"
    by (auto simp: owns_def split: option.splits)
  then show ?thesis by (auto simp: split_once_Some_iff)
qed

text \<open>A producer id is in the namespace of at most one adapter.\<close>

lemma owns_unique: "owns a p \<Longrightarrow> owns b p \<Longrightarrow> po_adapter a = po_adapter b"
  by (auto simp: owns_def split: option.splits)

section \<open>The registry\<close>

record run_state =
  rn_next :: u64
  rn_live :: "(string \<times> adapter_run_id) list"

definition run_state_default :: run_state where
  "run_state_default = \<lparr>rn_next = 0, rn_live = []\<rparr>"

definition begin_run :: "string \<Rightarrow> run_state \<Rightarrow> publication_origin option \<times> run_state" where
  "begin_run adapter s =
     (if adapter = [] \<or> CHR '':'' \<in> set adapter then (None, s)
      else
        let n = rn_next s + 1 in
        if n = 0 then (None, s\<lparr>rn_next := n\<rparr>)
        else (Some \<lparr>po_adapter = adapter, po_run = AdapterRunId n\<rparr>,
              s\<lparr>rn_next := n, rn_live := bt_insert adapter (AdapterRunId n) (rn_live s)\<rparr>))"

definition run_active :: "run_state \<Rightarrow> string \<Rightarrow> adapter_run_id option" where
  "run_active s adapter = map_of (rn_live s) adapter"

definition is_active :: "run_state \<Rightarrow> publication_origin \<Rightarrow> bool" where
  "is_active s origin \<longleftrightarrow> run_active s (po_adapter origin) = Some (po_run origin)"

definition with_active ::
  "run_state \<Rightarrow> publication_origin \<Rightarrow> (unit \<Rightarrow> 'r) \<Rightarrow> adapter_run_id option + 'r" where
  "with_active s origin apply =
     (let active = map_of (rn_live s) (po_adapter origin) in
      if active \<noteq> Some (po_run origin) then Inl active else Inr (apply ()))"

definition with_liveness :: "run_state \<Rightarrow> ((string \<times> adapter_run_id) list \<Rightarrow> 'r) \<Rightarrow> 'r" where
  "with_liveness s project = project (rn_live s)"

definition mark_ended :: "publication_origin \<Rightarrow> run_state \<Rightarrow> bool \<times> run_state" where
  "mark_ended origin s =
     (if map_of (rn_live s) (po_adapter origin) = Some (po_run origin)
      then (True, s\<lparr>rn_live := bt_remove (po_adapter origin) (rn_live s)\<rparr>)
      else (False, s))"

lemma with_active_Inr_iff: "with_active s origin f = Inr r \<longleftrightarrow> is_active s origin \<and> r = f ()"
  by (auto simp: with_active_def is_active_def run_active_def Let_def)

lemma with_active_Inl_iff:
  "with_active s origin f = Inl a \<longleftrightarrow> \<not> is_active s origin \<and> a = run_active s (po_adapter origin)"
  by (auto simp: with_active_def is_active_def run_active_def Let_def)

section \<open>Interleavings\<close>

text \<open>
  Adapters begin runs, drop leases, and end runs in any order. An end may name any origin,
  including one that was never issued.
\<close>

datatype run_event = RunBegin string | RunEnd publication_origin

fun run_apply :: "run_state \<Rightarrow> run_event \<Rightarrow> run_state" where
  "run_apply s (RunBegin adapter) = snd (begin_run adapter s)"
| "run_apply s (RunEnd origin) = snd (mark_ended origin s)"

definition runs_after :: "run_state \<Rightarrow> run_event list \<Rightarrow> run_state" where
  "runs_after = foldl run_apply"

text \<open>The live ids were all issued, the map is sorted, and no id is live for two adapters.\<close>

definition runs_ok :: "run_state \<Rightarrow> bool" where
  "runs_ok s \<longleftrightarrow> bt_wf (rn_live s) \<and>
     (\<forall>a r. map_of (rn_live s) a = Some r \<longrightarrow> r \<le> AdapterRunId (rn_next s)) \<and>
     (\<forall>a b r. map_of (rn_live s) a = Some r \<longrightarrow> map_of (rn_live s) b = Some r \<longrightarrow> a = b)"

lemma runs_ok_default: "runs_ok run_state_default"
  by (simp add: runs_ok_def run_state_default_def)

lemma run_id_le_iff [simp]: "AdapterRunId a \<le> AdapterRunId b \<longleftrightarrow> a \<le> b"
  by (simp add: less_eq_adapter_run_id_def)

lemma run_id_less_iff [simp]: "AdapterRunId a < AdapterRunId b \<longleftrightarrow> a < b"
  by (simp add: less_adapter_run_id_def)

lemma runs_ok_apply:
  assumes "runs_ok s" "rn_next s \<noteq> - 1"
  shows "runs_ok (run_apply s e)"
proof (cases e)
  case (RunBegin adapter)
  have gt: "rn_next s < rn_next s + 1" using assms(2) by (rule wrap_succ_gt)
  have old: "r < AdapterRunId (rn_next s + 1)" if "map_of (rn_live s) a = Some r" for a r
    using assms(1) that gt by (fastforce simp: runs_ok_def intro: le_less_trans)
  then have new: "map_of (rn_live s) a \<noteq> Some (AdapterRunId (rn_next s + 1))" for a
    by fastforce
  from assms(1) old new show ?thesis
    unfolding RunBegin runs_ok_def
    by (auto simp: begin_run_def Let_def intro: less_imp_le split: if_splits)
next
  case (RunEnd origin)
  with assms(1) show ?thesis
    by (auto simp: runs_ok_def mark_ended_def split: if_splits)
qed

lemma rn_next_apply: "rn_next s \<noteq> - 1 \<Longrightarrow> rn_next s \<le> rn_next (run_apply s e) \<and>
    unat (rn_next (run_apply s e)) \<le> Suc (unat (rn_next s))"
  using wrap_succ_gt [of "rn_next s"] unat_sat_succ [of "rn_next s"]
  by (cases e) (auto simp: begin_run_def mark_ended_def Let_def sat_succ_def)

text \<open>
  Fewer than \<open>2 ^ 64\<close> events in total never reach the last identity, so the bound of these lemmas
  is met by any process that begins fewer than that many runs.
\<close>

lemma below_max: "unat n + Suc k < 2 ^ 64 \<Longrightarrow> (n :: u64) \<noteq> - 1"
  by (auto simp: unsigned_minus_1_eq_mask mask_eq_exp_minus_1)

lemma runs_after_ok:
  "runs_ok s \<Longrightarrow> unat (rn_next s) + length es < 2 ^ 64 \<Longrightarrow>
     runs_ok (runs_after s es) \<and> rn_next s \<le> rn_next (runs_after s es)"
proof (induction es arbitrary: s)
  case (Cons e es)
  then have ne: "rn_next s \<noteq> - 1" using below_max [of "rn_next s" "length es"] by simp
  note ok = runs_ok_apply [OF Cons.prems(1) ne, of e] and nx = rn_next_apply [OF ne, of e]
  then have "unat (rn_next (run_apply s e)) + length es < 2 ^ 64" using Cons.prems(2) by simp
  from Cons.IH [OF ok this] nx show ?case by (auto simp: runs_after_def)
qed (simp add: runs_after_def)

text \<open>An issued run that is not live never becomes live again.\<close>

lemma ended_step:
  assumes "po_run origin \<le> AdapterRunId (rn_next s)" "\<not> is_active s origin" "rn_next s \<noteq> - 1"
  shows "\<not> is_active (run_apply s e) origin"
  using assms wrap_succ_gt [of "rn_next s"]
  by (cases e; cases "po_run origin") (auto simp: begin_run_def mark_ended_def is_active_def run_active_def Let_def
      less_eq_adapter_run_id_def)

lemma ended_stays_ended:
  "po_run origin \<le> AdapterRunId (rn_next s) \<Longrightarrow> \<not> is_active s origin \<Longrightarrow>
     unat (rn_next s) + length es < 2 ^ 64 \<Longrightarrow> \<not> is_active (runs_after s es) origin"
proof (induction es arbitrary: s)
  case (Cons e es)
  then have ne: "rn_next s \<noteq> - 1" using below_max [of "rn_next s" "length es"] by simp
  have le: "rn_next s \<le> rn_next (run_apply s e)"
    and b: "unat (rn_next (run_apply s e)) \<le> Suc (unat (rn_next s))"
    using rn_next_apply [OF ne, of e] by auto
  have "po_run origin \<le> AdapterRunId (rn_next (run_apply s e))"
    using Cons.prems(1) le by (auto simp: less_eq_adapter_run_id_def)
  from Cons.IH [OF this ended_step [OF Cons.prems(1,2) ne]] b Cons.prems(3)
  show ?case by (simp add: runs_after_def)
qed (simp add: runs_after_def)

text \<open>Beginning supersedes: the new run is live, every other origin of the adapter is not.\<close>

lemma begin_run_supersedes:
  assumes "begin_run adapter s = (Some new, s')"
  shows "po_adapter new = adapter \<and> is_active s' new \<and> rn_next s' \<noteq> 0 \<and>
    (\<forall>old. po_adapter old = adapter \<longrightarrow> is_active s' old \<longrightarrow> old = new) \<and>
    (\<forall>b. b \<noteq> adapter \<longrightarrow> run_active s' b = run_active s b)"
  using assms
  by (auto simp: begin_run_def is_active_def run_active_def Let_def split: if_splits)

lemma begin_run_id: "begin_run adapter s = (Some new, s') \<Longrightarrow> po_run new = AdapterRunId (rn_next s')"
  by (auto simp: begin_run_def Let_def split: if_splits)

text \<open>An end that names a superseded run changes nothing.\<close>

lemma mark_ended_not_active: "\<not> is_active s origin \<Longrightarrow> mark_ended origin s = (False, s)"
  by (simp add: mark_ended_def is_active_def run_active_def)

end
