(* ===== verification/Bus_Events.thy ===== *)
theory Bus_Events
  imports Uhc_Prelude Float64 Json
begin

text \<open>
  The bus vocabulary (\<open>src/bus/events.rs\<close>): prefixed zone identifiers, the unified zone and its
  parts, commands, and the events the adapters and the aggregator exchange. An \<open>f32\<close> is kept as
  the number it stands for, in the type of the 64-bit floats: the code here only stores and compares
  them.
\<close>

section \<open>Zone identifiers\<close>

datatype prefixed_zone_id = PrefixedZoneId (zid_str: string)

definition zid_roon :: "string \<Rightarrow> prefixed_zone_id" where
  "zid_roon raw = PrefixedZoneId (''roon:'' @ raw)"

definition zid_lms :: "string \<Rightarrow> prefixed_zone_id" where
  "zid_lms raw = PrefixedZoneId (''lms:'' @ raw)"

definition zid_openhome :: "string \<Rightarrow> prefixed_zone_id" where
  "zid_openhome raw = PrefixedZoneId (''openhome:'' @ raw)"

definition zid_upnp :: "string \<Rightarrow> prefixed_zone_id" where
  "zid_upnp raw = PrefixedZoneId (''upnp:'' @ raw)"

definition zid_hqplayer :: "string \<Rightarrow> prefixed_zone_id" where
  "zid_hqplayer raw = PrefixedZoneId (''hqplayer:'' @ raw)"

definition zid_applemusic :: "string \<Rightarrow> prefixed_zone_id" where
  "zid_applemusic raw = PrefixedZoneId (''applemusic:'' @ raw)"

definition zid_spotify :: "string \<Rightarrow> prefixed_zone_id" where
  "zid_spotify raw = PrefixedZoneId (''spotify:'' @ raw)"

definition zid_musicassistant :: "string \<Rightarrow> prefixed_zone_id" where
  "zid_musicassistant raw = PrefixedZoneId (''musicassistant:'' @ raw)"

definition valid_prefixes :: "string list" where
  "valid_prefixes = [''roon:'', ''lms:'', ''openhome:'', ''upnp:'', ''hqplayer:'', ''applemusic:'',
     ''spotify:'', ''musicassistant:'']"

definition zid_parse :: "string \<Rightarrow> prefixed_zone_id option" where
  "zid_parse s =
     (if list_ex (\<lambda>p. starts_with s p) valid_prefixes then Some (PrefixedZoneId s) else None)"

definition zid_source :: "prefixed_zone_id \<Rightarrow> string" where
  "zid_source z = (case split_on CHR '':'' (zid_str z) of [] \<Rightarrow> [] | p # _ \<Rightarrow> p)"

definition raw_id :: "prefixed_zone_id \<Rightarrow> string" where
  "raw_id z = (case split_on CHR '':'' (zid_str z) of _ # r # _ \<Rightarrow> r | _ \<Rightarrow> zid_str z)"

definition is_applemusic_zone_id :: "string \<Rightarrow> bool" where
  "is_applemusic_zone_id value =
     (case strip_prefix value ''applemusic:'' of
        None \<Rightarrow> False
      | Some owner \<Rightarrow> owner \<noteq> [] \<and> CHR '':'' \<notin> set owner)"

text \<open>The eight source names; a parsed identifier is one of them, a colon, and the raw part.\<close>

definition source_names :: "string list" where
  "source_names = [''roon'', ''lms'', ''openhome'', ''upnp'', ''hqplayer'', ''applemusic'',
     ''spotify'', ''musicassistant'']"

lemma valid_prefixes_names: "valid_prefixes = map (\<lambda>n. n @ '':'') source_names"
  by (simp add: valid_prefixes_def source_names_def)

lemma source_names_no_colon: "n \<in> set source_names \<Longrightarrow> CHR '':'' \<notin> set n"
  by (auto simp: source_names_def)

lemma zid_parse_Some_iff:
  "zid_parse s = Some z \<longleftrightarrow> z = PrefixedZoneId s \<and> (\<exists>n \<in> set source_names. \<exists>r. s = n @ CHR '':'' # r)"
  by (auto simp: zid_parse_def list_ex_iff valid_prefixes_names starts_with_iff)

lemma zid_source_cons: "CHR '':'' \<notin> set n \<Longrightarrow> zid_source (PrefixedZoneId (n @ CHR '':'' # r)) = n"
  by (simp add: zid_source_def split_on_append)

lemma raw_id_cons:
  "CHR '':'' \<notin> set n \<Longrightarrow>
     raw_id (PrefixedZoneId (n @ CHR '':'' # r)) = hd (split_on CHR '':'' r)"
  by (simp add: raw_id_def split_on_append split: list.splits)

lemma zid_parse_source: "zid_parse s = Some z \<Longrightarrow> zid_source z \<in> set source_names"
  by (auto simp: zid_parse_Some_iff zid_source_cons source_names_no_colon)

lemma applemusic_zone_id_parses:
  assumes "is_applemusic_zone_id s"
  shows "\<exists>z. zid_parse s = Some z \<and> zid_source z = ''applemusic'' \<and> zid_applemusic (raw_id z) = z"
proof -
  obtain r where r: "s = ''applemusic'' @ CHR '':'' # r" "CHR '':'' \<notin> set r"
    using assms by (auto simp: is_applemusic_zone_id_def strip_prefix_Some_iff split: option.splits)
  then have "zid_parse s = Some (PrefixedZoneId s)"
    unfolding zid_parse_Some_iff by (auto simp: source_names_def)
  with r show ?thesis
    using zid_source_cons [of "''applemusic''" r] raw_id_cons [of "''applemusic''" r]
    by (simp add: split_on_no_sep zid_applemusic_def)
qed

section \<open>Zones\<close>

type_synonym f32 = f64

datatype playback_state = Playing | Paused | Stopped | Loading | Buffering | PS_Unknown

definition playback_state_display :: "playback_state \<Rightarrow> string" where
  "playback_state_display s =
     (case s of Playing \<Rightarrow> ''playing'' | Paused \<Rightarrow> ''paused'' | Stopped \<Rightarrow> ''stopped''
      | Loading \<Rightarrow> ''loading'' | Buffering \<Rightarrow> ''buffering'' | PS_Unknown \<Rightarrow> ''unknown'')"

text \<open>
  The words matched hold no letter that a non-ASCII character lower-cases to, so lower-casing the
  ASCII bytes decides the match.
\<close>

definition playback_state_from :: "string \<Rightarrow> playback_state" where
  "playback_state_from s =
     (let l = lower s in
      if l \<in> {''playing'', ''play''} then Playing
      else if l \<in> {''paused'', ''pause''} then Paused
      else if l \<in> {''stopped'', ''stop''} then Stopped
      else if l = ''loading'' then Loading
      else if l = ''buffering'' then Buffering
      else PS_Unknown)"

lemma playback_state_from_display [simp]: "playback_state_from (playback_state_display s) = s"
  by (cases s) (simp_all add: playback_state_from_def playback_state_display_def lower_def lower_char_def)

datatype volume_scale = VS_Decibel | VS_Percentage | VS_Linear | VS_Unknown

record volume_control =
  vc_value :: f32
  vc_min :: f32
  vc_max :: f32
  vc_step :: f32
  vc_is_muted :: bool
  vc_scale :: volume_scale
  vc_output_id :: "string option"

datatype repeat_mode = RM_Off | RM_One | RM_All

record track_metadata =
  tm_format :: "string option"
  tm_sample_rate :: "u32 option"
  tm_bit_depth :: "u8 option"
  tm_bitrate :: "u32 option"
  tm_genre :: "string option"
  tm_composer :: "string option"
  tm_track_number :: "u32 option"
  tm_disc_number :: "u32 option"

record now_playing =
  np_title :: string
  np_artist :: string
  np_album :: string
  np_image_key :: "string option"
  np_seek_position :: "f64 option"
  np_duration :: "f64 option"
  np_metadata :: "track_metadata option"
  np_repeat_mode :: "repeat_mode option"
  np_shuffle :: "bool option"

record zone =
  zn_zone_id :: string
  zn_zone_name :: string
  zn_state :: playback_state
  zn_volume_control :: "volume_control option"
  zn_now_playing :: "now_playing option"
  zn_source :: string
  zn_is_controllable :: bool
  zn_is_seekable :: bool
  zn_last_updated :: u64
  zn_is_play_allowed :: bool
  zn_is_pause_allowed :: bool
  zn_is_next_allowed :: bool
  zn_is_previous_allowed :: bool

section \<open>Commands\<close>

datatype bus_command =
    Play | Pause | PlayPause | Stop | Next | Previous
  | VolumeAbsolute f32 "string option"
  | VolumeRelative f32 "string option"
  | Mute bool "string option"
  | MuteToggle "string option"
  | Seek f64
  | SeekRelative f64
  | Shuffle bool
  | Repeat repeat_mode

record command_response =
  crs_zone_id :: string
  crs_command :: bus_command
  crs_success :: bool
  crs_error :: "string option"
  crs_timestamp :: u64

record provider_account =
  pa_id :: string
  pa_display_name :: "string option"
  pa_email :: "string option"

section \<open>Events\<close>

datatype bus_event =
    ZoneDiscovered zone
  | ZoneUpdated prefixed_zone_id string string
  | ZoneRemoved prefixed_zone_id
  | ProviderAccountUpdated string "provider_account option"
  | AdapterError string string
  | NowPlayingChanged prefixed_zone_id "string option" "string option" "string option" "string option"
  | PlaybackModesChanged prefixed_zone_id "repeat_mode option" "bool option"
  | SeekPositionChanged prefixed_zone_id i64
  | VolumeChanged string f32 bool
  | VolumeCapabilityChanged prefixed_zone_id bool
  | CommandReceived string bus_command "string option"
  | CommandResult command_response "string option"
  | AdapterStopping string "string option"
  | AdapterStopped string
  | ZonesFlushed string "string list"
  | AdapterConnected string "string option"
  | AdapterDisconnected string "string option"
  | ShuttingDown "string option"
  | HealthCheck u64
  | RoonConnected string string
  | RoonDisconnected
  | HqpConnected string
  | HqpDisconnected string
  | HqpStateChanged string string
  | HqpPipelineChanged string "string option" "string option" "string option"
  | LmsConnected string
  | LmsDisconnected string
  | LmsPlayerStateChanged string string
  | ControlCommand string string "json option"

definition event_type :: "bus_event \<Rightarrow> string" where
  "event_type e =
     (case e of
        ZoneDiscovered _ \<Rightarrow> ''zone_discovered''
      | ZoneUpdated _ _ _ \<Rightarrow> ''zone_updated''
      | ZoneRemoved _ \<Rightarrow> ''zone_removed''
      | ProviderAccountUpdated _ _ \<Rightarrow> ''provider_account_updated''
      | AdapterError _ _ \<Rightarrow> ''adapter_error''
      | NowPlayingChanged _ _ _ _ _ \<Rightarrow> ''now_playing_changed''
      | PlaybackModesChanged _ _ _ \<Rightarrow> ''playback_modes_changed''
      | SeekPositionChanged _ _ \<Rightarrow> ''seek_position_changed''
      | VolumeChanged _ _ _ \<Rightarrow> ''volume_changed''
      | VolumeCapabilityChanged _ _ \<Rightarrow> ''volume_capability_changed''
      | CommandReceived _ _ _ \<Rightarrow> ''command_received''
      | CommandResult _ _ \<Rightarrow> ''command_result''
      | AdapterStopping _ _ \<Rightarrow> ''adapter_stopping''
      | AdapterStopped _ \<Rightarrow> ''adapter_stopped''
      | ZonesFlushed _ _ \<Rightarrow> ''zones_flushed''
      | AdapterConnected _ _ \<Rightarrow> ''adapter_connected''
      | AdapterDisconnected _ _ \<Rightarrow> ''adapter_disconnected''
      | ShuttingDown _ \<Rightarrow> ''shutting_down''
      | HealthCheck _ \<Rightarrow> ''health_check''
      | RoonConnected _ _ \<Rightarrow> ''roon_connected''
      | RoonDisconnected \<Rightarrow> ''roon_disconnected''
      | HqpConnected _ \<Rightarrow> ''hqp_connected''
      | HqpDisconnected _ \<Rightarrow> ''hqp_disconnected''
      | HqpStateChanged _ _ \<Rightarrow> ''hqp_state_changed''
      | HqpPipelineChanged _ _ _ _ \<Rightarrow> ''hqp_pipeline_changed''
      | LmsConnected _ \<Rightarrow> ''lms_connected''
      | LmsDisconnected _ \<Rightarrow> ''lms_disconnected''
      | LmsPlayerStateChanged _ _ \<Rightarrow> ''lms_player_state_changed''
      | ControlCommand _ _ _ \<Rightarrow> ''control_command'')"

fun is_zone_event :: "bus_event \<Rightarrow> bool" where
  "is_zone_event (ZoneDiscovered _) = True"
| "is_zone_event (ZoneUpdated _ _ _) = True"
| "is_zone_event (ZoneRemoved _) = True"
| "is_zone_event (ZonesFlushed _ _) = True"
| "is_zone_event (VolumeCapabilityChanged _ _) = True"
| "is_zone_event _ = False"

fun is_playback_event :: "bus_event \<Rightarrow> bool" where
  "is_playback_event (NowPlayingChanged _ _ _ _ _) = True"
| "is_playback_event (PlaybackModesChanged _ _ _) = True"
| "is_playback_event (SeekPositionChanged _ _) = True"
| "is_playback_event (VolumeChanged _ _ _) = True"
| "is_playback_event _ = False"

fun is_command_event :: "bus_event \<Rightarrow> bool" where
  "is_command_event (CommandReceived _ _ _) = True"
| "is_command_event (CommandResult _ _) = True"
| "is_command_event (ControlCommand _ _ _) = True"
| "is_command_event _ = False"

fun is_adapter_event :: "bus_event \<Rightarrow> bool" where
  "is_adapter_event (AdapterStopping _ _) = True"
| "is_adapter_event (AdapterStopped _) = True"
| "is_adapter_event (AdapterConnected _ _) = True"
| "is_adapter_event (AdapterDisconnected _ _) = True"
| "is_adapter_event (AdapterError _ _) = True"
| "is_adapter_event _ = False"

fun is_legacy_event :: "bus_event \<Rightarrow> bool" where
  "is_legacy_event (RoonConnected _ _) = True"
| "is_legacy_event RoonDisconnected = True"
| "is_legacy_event (HqpConnected _) = True"
| "is_legacy_event (HqpDisconnected _) = True"
| "is_legacy_event (HqpStateChanged _ _) = True"
| "is_legacy_event (HqpPipelineChanged _ _ _ _) = True"
| "is_legacy_event (LmsConnected _) = True"
| "is_legacy_event (LmsDisconnected _) = True"
| "is_legacy_event (LmsPlayerStateChanged _ _) = True"
| "is_legacy_event _ = False"

text \<open>The five classes are disjoint: an event belongs to at most one.\<close>

lemma event_classes_disjoint:
  "length (filter id [is_zone_event e, is_playback_event e, is_command_event e, is_adapter_event e,
     is_legacy_event e]) \<le> 1"
  by (cases e) simp_all

end
