(* ===== verification/Admission.thy ===== *)
theory Admission
  imports Producer_Doc Adapter_Runs Bus_Events "HOL-Library.Option_ord"
begin

text \<open>
  The publication admission gate (\<open>src/producers/admission.rs\<close>): the ordered checks, the repair of
  incoherent published intent by demotion, and the ordering against the document held before.
  \<open>chrono\<close>'s RFC 3339 parser is the parameter \<open>rfc3339\<close>: the instant a text denotes, if it is one.
\<close>

section \<open>Keys, refusals, results\<close>

datatype producer_key =
  ProducerKey (pk_producer_id: string) (pk_role: target_role) (pk_zone_id: "string option")

text \<open>The derived order compares the fields from first to last.\<close>

definition key_rank :: "producer_key \<Rightarrow> string \<times> target_role \<times> string option" where
  "key_rank k = (pk_producer_id k, pk_role k, pk_zone_id k)"

lemma key_rank_inj: "key_rank a = key_rank b \<Longrightarrow> a = b"
  by (cases a; cases b) (simp add: key_rank_def)

instantiation producer_key :: linorder
begin

definition less_eq_producer_key :: "producer_key \<Rightarrow> producer_key \<Rightarrow> bool" where
  "less_eq_producer_key a b \<longleftrightarrow> key_rank a \<le> key_rank b"

definition less_producer_key :: "producer_key \<Rightarrow> producer_key \<Rightarrow> bool" where
  "less_producer_key a b \<longleftrightarrow> key_rank a < key_rank b"

instance
proof
  fix a b c :: producer_key
  show "a < b \<longleftrightarrow> a \<le> b \<and> \<not> b \<le> a"
    by (auto simp: less_eq_producer_key_def less_producer_key_def)
  show "a \<le> a" by (simp add: less_eq_producer_key_def)
  show "a \<le> b \<Longrightarrow> b \<le> c \<Longrightarrow> a \<le> c" unfolding less_eq_producer_key_def by (rule order_trans)
  show "a \<le> b \<Longrightarrow> b \<le> a \<Longrightarrow> a = b"
    unfolding less_eq_producer_key_def by (metis order_antisym key_rank_inj)
  show "a \<le> b \<or> b \<le> a" unfolding less_eq_producer_key_def by (rule linear)
qed

end

definition key_of :: "producer_document \<Rightarrow> producer_key" where
  "key_of d = ProducerKey (pi_producer_id (pd_producer d)) (pt_role (pd_target d))
     (pt_zone_id (pd_target d))"

datatype lane_defect = GroundedWithoutValue | UngroundedWithValue | UngroundedWithoutReason

datatype admission_refusal =
    RefContract refusal
  | ZoneIdNotPrefixed string
  | EpochRegressed producer_epoch producer_epoch
  | RevisionRegressed document_revisions document_revisions
  | NotAdvanced document_revisions
  | LaneValueInconsistent control_id value_lane lane_defect
  | IrreparableIntent "intent_incoherence list"
  | StaleAdapterRun string adapter_run_id "adapter_run_id option"
  | ProducerOwnershipMismatch string string
  | ProducerRetired producer_epoch producer_epoch
  | DuplicateValueLane control_id value_lane
  | DuplicateLaneHealth transport_lane
  | TimestampNotRfc3339 string string
  | LaneTimestampNotRfc3339 transport_lane string
  | AvailabilityNotWellFormed control_id availability_state
  | IllegalOutcomeHistory operation_id command_outcome command_outcome

record intent_repair =
  ir_violation :: intent_incoherence
  ir_change_set :: change_set_id
  ir_control :: control_id
  ir_from :: entry_validity
  ir_to :: entry_validity

datatype admission_kind = Fresh | Advanced | HealthRefresh

record admitted_document =
  ad_document :: producer_document
  ad_repairs :: "intent_repair list"
  ad_kind :: admission_kind

datatype admission = Admitted admitted_document | Refused admission_refusal

section \<open>Checks\<close>

text \<open>Every timestamp of a document with its path, in the order the gate visits them.\<close>

definition indexed :: "string \<Rightarrow> nat \<Rightarrow> string" where
  "indexed name i = name @ ''['' @ show_nat i @ '']''"

definition opt_field :: "string \<Rightarrow> timestamp option \<Rightarrow> (string \<times> timestamp) list" where
  "opt_field path t = (case t of None \<Rightarrow> [] | Some tm \<Rightarrow> [(path, tm)])"

definition timestamp_fields :: "producer_document \<Rightarrow> (string \<times> timestamp) list" where
  "timestamp_fields d =
     concat (map (\<lambda>(i, h). opt_field (indexed ''lanes'' i @ ''.freshness.observed_at'')
         (fr_observed_at (lh_freshness h))) (enumerate 0 (pd_lanes d))) @
     concat (map (\<lambda>(i, c).
         concat (map (\<lambda>(j, v).
             opt_field (indexed ''controls'' i @ indexed ''.values'' j @ ''.freshness.observed_at'')
               (fr_observed_at (lv_freshness v))) (enumerate 0 (ct_values c))) @
         concat (map (\<lambda>(j, g).
             opt_field (indexed ''controls'' i @ indexed ''.divergences'' j @ ''.detected_at'')
               (dv_detected_at g)) (enumerate 0 (ct_divergences c))))
       (enumerate 0 (pd_controls d))) @
     (case pd_draft_policy d of None \<Rightarrow> []
      | Some p \<Rightarrow> opt_field ''draft_policy.retention.expires_at'' (rt_expires_at (dp_retention p))) @
     concat (map (\<lambda>(i, s).
         [(indexed ''change_sets'' i @ ''.created_at'', cs_created_at s),
          (indexed ''change_sets'' i @ ''.updated_at'', cs_updated_at s)] @
         opt_field (indexed ''change_sets'' i @ ''.retention.expires_at'')
           (rt_expires_at (cs_retention s)))
       (enumerate 0 (pd_change_sets d))) @
     concat (map (\<lambda>(i, r).
         map (\<lambda>(j, t). (indexed ''operations'' i @ indexed ''.history'' j @ ''.at'', ot_at t))
           (enumerate 0 (or_history r)))
       (enumerate 0 (pd_operations d)))"

type_synonym instant_parser = "string \<Rightarrow> int option"

definition invalid_timestamp :: "instant_parser \<Rightarrow> string \<times> timestamp \<Rightarrow> admission_refusal option" where
  "invalid_timestamp rfc3339 f =
     (if rfc3339 (ts_str (snd f)) \<noteq> None then None
      else Some (TimestampNotRfc3339 (fst f) (ts_str (snd f))))"

definition first_timestamp_defect ::
  "instant_parser \<Rightarrow> producer_document \<Rightarrow> admission_refusal option" where
  "first_timestamp_defect rfc3339 d = first_some (invalid_timestamp rfc3339) (timestamp_fields d)"

definition ordering ::
  "producer_document \<Rightarrow> producer_document \<Rightarrow> admission_refusal + admission_kind" where
  "ordering held incoming =
     (let previous_epoch = pi_epoch (pd_producer held);
          incoming_epoch = pi_epoch (pd_producer incoming)
      in if incoming_epoch < previous_epoch then Inl (EpochRegressed previous_epoch incoming_epoch)
         else if incoming_epoch > previous_epoch then Inr Fresh
         else if regresses_from (pd_revisions incoming) (pd_revisions held)
         then Inl (RevisionRegressed (pd_revisions held) (pd_revisions incoming))
         else if pd_revisions incoming \<noteq> pd_revisions held then Inr Advanced
         else
           let probe = incoming\<lparr>pd_lanes := pd_lanes held, pd_stale := pd_stale held\<rparr>
           in if doc_eq probe held then Inr HealthRefresh else Inl (NotAdvanced (pd_revisions held)))"

definition lane_defect_of :: "lane_value \<Rightarrow> lane_defect option" where
  "lane_defect_of v =
     (case lv_grounding v of
        Gr_Grounded \<Rightarrow> (if lv_value v = None then Some GroundedWithoutValue else None)
      | Gr_Ungrounded \<Rightarrow>
          (if lv_value v \<noteq> None then Some UngroundedWithValue
           else if lv_ungrounded_reason v = None then Some UngroundedWithoutReason
           else None)
      | Gr_Unrecognized raw \<Rightarrow> None)"

definition first_lane_defect :: "producer_document \<Rightarrow> admission_refusal option" where
  "first_lane_defect d =
     first_some (\<lambda>c. first_some (\<lambda>v.
         map_option (LaneValueInconsistent (ct_id c) (lv_lane v)) (lane_defect_of v)) (ct_values c))
       (pd_controls d)"

fun first_health_defect ::
  "instant_parser \<Rightarrow> transport_lane list \<Rightarrow> lane_health list \<Rightarrow> admission_refusal option" where
  "first_health_defect rfc3339 seen [] = None"
| "first_health_defect rfc3339 seen (h # hs) =
     (if lh_lane h \<in> set seen then Some (DuplicateLaneHealth (lh_lane h))
      else case lh_last_success h of
        Some tm \<Rightarrow>
          (if rfc3339 (ts_str tm) = None then Some (LaneTimestampNotRfc3339 (lh_lane h) (ts_str tm))
           else first_health_defect rfc3339 (lh_lane h # seen) hs)
      | None \<Rightarrow> first_health_defect rfc3339 (lh_lane h # seen) hs)"

fun first_duplicate_lane :: "value_lane list \<Rightarrow> lane_value list \<Rightarrow> value_lane option" where
  "first_duplicate_lane seen [] = None"
| "first_duplicate_lane seen (v # vs) =
     (if lv_lane v \<in> set seen then Some (lv_lane v)
      else first_duplicate_lane (lv_lane v # seen) vs)"

definition control_shape_defect :: "control \<Rightarrow> admission_refusal option" where
  "control_shape_defect c =
     (case first_duplicate_lane [] (ct_values c) of
        Some lane \<Rightarrow> Some (DuplicateValueLane (ct_id c) lane)
      | None \<Rightarrow>
          (if \<not> is_well_formed (ct_availability c)
           then Some (AvailabilityNotWellFormed (ct_id c) (av_state (ct_availability c)))
           else None))"

definition first_shape_defect ::
  "instant_parser \<Rightarrow> producer_document \<Rightarrow> admission_refusal option" where
  "first_shape_defect rfc3339 d =
     (case first_health_defect rfc3339 [] (pd_lanes d) of
        Some r \<Rightarrow> Some r
      | None \<Rightarrow> first_some control_shape_defect (pd_controls d))"

definition first_illegal_transition :: "producer_document \<Rightarrow> admission_refusal option" where
  "first_illegal_transition d =
     first_some (\<lambda>r. first_some (\<lambda>t.
         if \<not> may_transition_to (ot_from t) (ot_to t)
         then Some (IllegalOutcomeHistory (or_id r) (ot_from t) (ot_to t)) else None) (or_history r))
       (pd_operations d)"

section \<open>Repair\<close>

definition CONTROL_REMOVED_TEXT_KEY :: string where
  "CONTROL_REMOVED_TEXT_KEY = ''reason.control_no_longer_exists''"

record demotion =
  dm_change_set :: change_set_id
  dm_control :: control_id
  dm_to :: entry_validity
  dm_violation :: intent_incoherence

definition c1_reason :: reason where
  "c1_reason = (reason_draft RC_DraftInvalid)\<lparr>rs_detail :=
     Some ''published entry has no matching grounded desired lane (contract C1)''\<rparr>"

definition removed_reason :: "control_id \<Rightarrow> reason" where
  "removed_reason c = (reason_draft RC_ControlRemoved)\<lparr>
     rs_display_text_key := Some CONTROL_REMOVED_TEXT_KEY,
     rs_detail := Some (''control '' @ cid_str c @
       '' is no longer described by this producer document'')\<rparr>"

definition demotions_of :: "intent_incoherence \<Rightarrow> demotion list" where
  "demotions_of v =
     (let demote = (\<lambda>s c to. \<lparr>dm_change_set = s, dm_control = c, dm_to = to, dm_violation = v\<rparr>) in
      case v of
        MissingDesiredLane c s \<Rightarrow> [demote s c (ValidityRequiresProducerValidation c1_reason)]
      | DesiredLaneDisagrees c s \<Rightarrow> [demote s c (ValidityRequiresProducerValidation c1_reason)]
      | MultipleValidDrafts c s t \<Rightarrow> [demote s c (Conflicts [c]), demote t c (Conflicts [c])]
      | UnknownControl c s \<Rightarrow> [demote s c (DraftInvalid (removed_reason c))])"

definition demotion_for :: "demotion list \<Rightarrow> change_set_id \<Rightarrow> control_id \<Rightarrow> demotion option" where
  "demotion_for ds s c = find (\<lambda>d. dm_change_set d = s \<and> dm_control d = c) ds"

definition demote_entry ::
  "demotion list \<Rightarrow> change_set_id \<Rightarrow> change_set_entry \<Rightarrow> change_set_entry \<times> intent_repair list" where
  "demote_entry ds s e =
     (if en_validity e \<noteq> Valid then (e, [])
      else case demotion_for ds s (en_control e) of
        None \<Rightarrow> (e, [])
      | Some d \<Rightarrow>
          (e\<lparr>en_validity := dm_to d\<rparr>,
           [\<lparr>ir_violation = dm_violation d, ir_change_set = s, ir_control = en_control e,
             ir_from = en_validity e, ir_to = dm_to d\<rparr>]))"

definition demote_change_set :: "demotion list \<Rightarrow> change_set \<Rightarrow> change_set \<times> intent_repair list" where
  "demote_change_set ds s =
     (let rs = map (demote_entry ds (cs_id s)) (cs_entries s)
      in (s\<lparr>cs_entries := map fst rs\<rparr>, concat (map snd rs)))"

definition apply_demotions ::
  "demotion list \<Rightarrow> producer_document \<Rightarrow> producer_document \<times> intent_repair list" where
  "apply_demotions ds d =
     (let rs = map (demote_change_set ds) (pd_change_sets d)
      in (d\<lparr>pd_change_sets := map fst rs\<rparr>, concat (map snd rs)))"

definition repair_intent :: "producer_document \<Rightarrow> producer_document \<times> intent_repair list" where
  "repair_intent d =
     (let violations = intent_coherence_violations d in
      if violations = [] then (d, [])
      else apply_demotions (concat (map demotions_of violations)) d)"

section \<open>The gate\<close>

definition zone_id_defect :: "producer_document \<Rightarrow> admission_refusal option" where
  "zone_id_defect d =
     (case pt_zone_id (pd_target d) of
        None \<Rightarrow> None
      | Some z \<Rightarrow> (if zid_parse z = None then Some (ZoneIdNotPrefixed z) else None))"

definition admit ::
  "instant_parser \<Rightarrow> producer_document option \<Rightarrow> producer_document \<Rightarrow> admission" where
  "admit rfc3339 previous incoming =
     (case compat_refusal (compatibility_for (pd_schema_version incoming) CONSUMER_SCHEMA_VERSION) of
        Some r \<Rightarrow> Refused (RefContract r)
      | None \<Rightarrow>
     (case first_bad_constraint (pd_constraints incoming) of
        Some r \<Rightarrow> Refused (RefContract r)
      | None \<Rightarrow>
     (case zone_id_defect incoming of
        Some r \<Rightarrow> Refused r
      | None \<Rightarrow>
     (case first_lane_defect incoming of
        Some r \<Rightarrow> Refused r
      | None \<Rightarrow>
     (case first_timestamp_defect rfc3339 incoming of
        Some r \<Rightarrow> Refused r
      | None \<Rightarrow>
     (case first_shape_defect rfc3339 incoming of
        Some r \<Rightarrow> Refused r
      | None \<Rightarrow>
     (case first_illegal_transition incoming of
        Some r \<Rightarrow> Refused r
      | None \<Rightarrow>
     (let (document, repairs) = repair_intent incoming;
          survivors = intent_coherence_violations document
      in if survivors \<noteq> [] then Refused (IrreparableIntent survivors)
         else
           case (case previous of None \<Rightarrow> Inr Fresh | Some held \<Rightarrow> ordering held document) of
             Inl refusal \<Rightarrow> Refused refusal
           | Inr kind \<Rightarrow>
               Admitted \<lparr>ad_document = document, ad_repairs = repairs, ad_kind = kind\<rparr>))))))))"

section \<open>What the checks decide\<close>

lemma first_timestamp_None_iff:
  "first_timestamp_defect rfc3339 d = None \<longleftrightarrow>
     (\<forall>f \<in> set (timestamp_fields d). rfc3339 (ts_str (snd f)) \<noteq> None)"
  by (auto simp: first_timestamp_defect_def invalid_timestamp_def)

lemma first_lane_None_iff:
  "first_lane_defect d = None \<longleftrightarrow>
     (\<forall>c \<in> set (pd_controls d). \<forall>v \<in> set (ct_values c).
        (grounding_is_recognized (lv_grounding v) \<longrightarrow> is_consistent v))"
proof -
  have "lane_defect_of v = None \<longleftrightarrow> (grounding_is_recognized (lv_grounding v) \<longrightarrow> is_consistent v)" for v
    by (cases "lv_grounding v"; cases "lv_value v"; cases "lv_ungrounded_reason v")
      (simp_all add: lane_defect_of_def is_consistent_def)
  then show ?thesis by (simp add: first_lane_defect_def)
qed

lemma first_health_None_iff:
  "first_health_defect rfc3339 seen hs = None \<longleftrightarrow>
     distinct (map lh_lane hs) \<and> set seen \<inter> lh_lane ` set hs = {} \<and>
     (\<forall>h \<in> set hs. \<forall>tm. lh_last_success h = Some tm \<longrightarrow> rfc3339 (ts_str tm) \<noteq> None)"
  by (induction hs arbitrary: seen) (auto split: option.splits if_splits)

lemma first_duplicate_None_iff:
  "first_duplicate_lane seen vs = None \<longleftrightarrow>
     distinct (map lv_lane vs) \<and> set seen \<inter> lv_lane ` set vs = {}"
  by (induction vs arbitrary: seen) auto

lemma first_shape_None_iff:
  "first_shape_defect rfc3339 d = None \<longleftrightarrow>
     distinct (map lh_lane (pd_lanes d)) \<and>
     (\<forall>h \<in> set (pd_lanes d). \<forall>tm. lh_last_success h = Some tm \<longrightarrow> rfc3339 (ts_str tm) \<noteq> None) \<and>
     (\<forall>c \<in> set (pd_controls d). has_unique_lanes c \<and> is_well_formed (ct_availability c))"
proof -
  have "control_shape_defect c = None \<longleftrightarrow> has_unique_lanes c \<and> is_well_formed (ct_availability c)" for c
    using first_duplicate_None_iff [of "[]" "ct_values c"]
    by (auto simp: control_shape_defect_def has_unique_lanes_iff split: option.splits)
  then show ?thesis
    using first_health_None_iff [of rfc3339 "[]" "pd_lanes d"]
    by (auto simp: first_shape_defect_def split: option.splits)
qed

lemma first_illegal_None_iff:
  "first_illegal_transition d = None \<longleftrightarrow>
     (\<forall>r \<in> set (pd_operations d). \<forall>t \<in> set (or_history r). may_transition_to (ot_from t) (ot_to t))"
  by (auto simp: first_illegal_transition_def)

text \<open>The envelope conditions of the gate, all together. They do not look at entry validity.\<close>

definition envelope_ok :: "instant_parser \<Rightarrow> producer_document \<Rightarrow> bool" where
  "envelope_ok rfc3339 d \<longleftrightarrow>
     sv_major (pd_schema_version d) = sv_major CONSUMER_SCHEMA_VERSION \<and>
     first_bad_constraint (pd_constraints d) = None \<and> zone_id_defect d = None \<and>
     first_lane_defect d = None \<and> first_timestamp_defect rfc3339 d = None \<and>
     first_shape_defect rfc3339 d = None \<and> first_illegal_transition d = None"

definition relate :: "producer_document option \<Rightarrow> producer_document \<Rightarrow> admission_refusal + admission_kind"
where
  "relate previous d = (case previous of None \<Rightarrow> Inr Fresh | Some held \<Rightarrow> ordering held d)"

lemma compat_None_iff:
  "compat_refusal (compatibility_for v CONSUMER_SCHEMA_VERSION) = None \<longleftrightarrow>
     sv_major v = sv_major CONSUMER_SCHEMA_VERSION"
  by (simp add: compat_refusal_None_iff is_usable_iff)

section \<open>The repair\<close>

lemma apply_demotions_frame [frame_simps]:
  "fst (apply_demotions ds d) = d\<lparr>pd_change_sets := map (fst \<circ> demote_change_set ds) (pd_change_sets d)\<rparr>"
  by (simp add: apply_demotions_def Let_def)

lemma demote_change_set_frame [frame_simps]:
  "fst (demote_change_set ds s) = s\<lparr>cs_entries := map (fst \<circ> demote_entry ds (cs_id s)) (cs_entries s)\<rparr>"
  by (simp add: demote_change_set_def Let_def)

text \<open>Nothing but validity is written.\<close>

definition forget_validity :: "change_set_entry \<Rightarrow> change_set_entry" where
  "forget_validity e = e\<lparr>en_validity := Valid\<rparr>"

definition forget_validities :: "producer_document \<Rightarrow> producer_document" where
  "forget_validities d = d\<lparr>pd_change_sets :=
     map (\<lambda>s. s\<lparr>cs_entries := map forget_validity (cs_entries s)\<rparr>) (pd_change_sets d)\<rparr>"

lemma demote_entry_forget [simp]: "forget_validity (fst (demote_entry ds s e)) = forget_validity e"
  by (auto simp: demote_entry_def forget_validity_def split: option.splits)

lemma apply_demotions_forget: "forget_validities (fst (apply_demotions ds d)) = forget_validities d"
  by (simp add: forget_validities_def frame_simps comp_def)

lemma repair_forget: "forget_validities (fst (repair_intent d)) = forget_validities d"
  by (simp add: repair_intent_def Let_def apply_demotions_forget)

text \<open>Every violation demotes what it names, and never to \<open>Valid\<close>.\<close>

lemma demotions_of_names:
  "(\<exists>x \<in> set (demotions_of v). dm_change_set x = s \<and> dm_control x = c) \<longleftrightarrow> names v s c"
  by (cases v) (auto simp: demotions_of_def)

lemma demotions_of_not_valid: "x \<in> set (demotions_of v) \<Longrightarrow> dm_to x \<noteq> Valid"
  by (cases v) (auto simp: demotions_of_def)

lemma demotion_for_None_iff:
  "demotion_for (concat (map demotions_of vs)) s c = None \<longleftrightarrow> \<not> (\<exists>v \<in> set vs. names v s c)"
  unfolding demotion_for_def find_None_iff demotions_of_names [symmetric] by auto

lemma find_mem: "find P xs = Some x \<Longrightarrow> x \<in> set xs \<and> P x"
  by (induction xs) (auto split: if_splits)

lemma demotion_for_Some:
  "demotion_for (concat (map demotions_of vs)) s c = Some x \<Longrightarrow> dm_to x \<noteq> Valid"
  by (auto simp: demotion_for_def dest!: find_mem dest: demotions_of_not_valid)

lemma demote_entry_valid_iff:
  "en_validity (fst (demote_entry (concat (map demotions_of vs)) s e)) = Valid \<longleftrightarrow>
     en_validity e = Valid \<and> \<not> (\<exists>v \<in> set vs. names v s (en_control e))"
  using demotion_for_None_iff [of vs s "en_control e"] demotion_for_Some [of vs s "en_control e"]
  by (auto simp: demote_entry_def split: option.splits)

lemma demote_entry_unchanged:
  "en_validity (fst (demote_entry (concat (map demotions_of vs)) s e)) = Valid \<Longrightarrow>
     fst (demote_entry (concat (map demotions_of vs)) s e) = e"
  using demotion_for_Some [of vs s "en_control e"]
  by (auto simp: demote_entry_def split: option.splits if_splits)

lemma valid_pairs_demoted:
  "(s, e) \<in> set (valid_pairs (pd_change_sets (fst (apply_demotions (concat (map demotions_of vs)) d)))) \<longleftrightarrow>
     (s, e) \<in> set (valid_pairs (pd_change_sets d)) \<and> \<not> (\<exists>v \<in> set vs. names v s (en_control e))"
proof
  let ?ds = "concat (map demotions_of vs)"
  assume "(s, e) \<in> set (valid_pairs (pd_change_sets (fst (apply_demotions ?ds d))))"
  then obtain cs e0 where cs: "cs \<in> set (pd_change_sets d)" "cs_id cs = s" "e0 \<in> set (cs_entries cs)"
      and e: "e = fst (demote_entry ?ds s e0)" "en_validity e = Valid"
    by (auto simp: valid_pairs_iff frame_simps)
  then have "e = e0" using demote_entry_unchanged by metis
  with cs e show "(s, e) \<in> set (valid_pairs (pd_change_sets d)) \<and>
      \<not> (\<exists>v \<in> set vs. names v s (en_control e))"
    using demote_entry_valid_iff [of vs s e0] by (auto simp: valid_pairs_iff)
next
  let ?ds = "concat (map demotions_of vs)"
  assume R: "(s, e) \<in> set (valid_pairs (pd_change_sets d)) \<and>
      \<not> (\<exists>v \<in> set vs. names v s (en_control e))"
  then have v: "en_validity (fst (demote_entry ?ds s e)) = Valid"
    unfolding demote_entry_valid_iff by (auto simp: valid_pairs_iff)
  with R demote_entry_unchanged [OF v]
  show "(s, e) \<in> set (valid_pairs (pd_change_sets (fst (apply_demotions ?ds d))))"
    by (force simp: valid_pairs_iff frame_simps)
qed

text \<open>
  What the repair keeps, exactly: the valid entries whose control no other change set claims, and
  whose claims by their own change set all have a matching grounded desired value.
\<close>

definition undisputed :: "producer_document \<Rightarrow> change_set_id \<Rightarrow> change_set_entry \<Rightarrow> bool" where
  "undisputed d s e \<longleftrightarrow> (\<forall>(t, f) \<in> set (valid_pairs (pd_change_sets d)).
     en_control f = en_control e \<longrightarrow> t = s \<and> c1_holds d f)"

lemma first_owner_mem:
  "first_owner [] ps c = Some t \<Longrightarrow> \<exists>f. (t, f) \<in> set ps \<and> en_control f = c"
  by (fastforce simp: first_owner_def dest: find_mem)

lemma check_desired_names:
  "v \<in> set (check_desired d t f) \<Longrightarrow> names v s c \<longleftrightarrow> s = t \<and> c = en_control f"
  by (auto simp: check_desired_def split: option.splits if_splits)

lemma named_iff_disputed:
  assumes "(s, e) \<in> set (valid_pairs (pd_change_sets d))"
  shows "(\<exists>v \<in> set (intent_coherence_violations d). names v s (en_control e)) \<longleftrightarrow> \<not> undisputed d s e"
proof
  let ?ps = "valid_pairs (pd_change_sets d)"
  assume "\<exists>v \<in> set (intent_coherence_violations d). names v s (en_control e)"
  then obtain v where v: "v \<in> set (intent_coherence_violations d)" "names v s (en_control e)" by auto
  from v(1) obtain t f where tf: "(t, f) \<in> set ?ps"
      and cases: "v \<in> set (check_desired d t f) \<or>
        (\<exists>o1. first_owner [] ?ps (en_control f) = Some o1 \<and> o1 \<noteq> t \<and>
           v = MultipleValidDrafts (en_control f) t o1)"
    unfolding violations_set by (fastforce split: option.splits if_splits)
  from cases show "\<not> undisputed d s e"
  proof
    assume c: "v \<in> set (check_desired d t f)"
    then have "\<not> c1_holds d f" by (metis check_desired_empty_iff emptyE set_empty)
    with tf v(2) check_desired_names [OF c] show ?thesis by (force simp: undisputed_def)
  next
    assume "\<exists>o1. first_owner [] ?ps (en_control f) = Some o1 \<and> o1 \<noteq> t \<and>
           v = MultipleValidDrafts (en_control f) t o1"
    then obtain o1 f1 where o1: "(o1, f1) \<in> set ?ps" "en_control f1 = en_control f" "o1 \<noteq> t"
        and "v = MultipleValidDrafts (en_control f) t o1"
      using first_owner_mem by metis
    with tf v(2) show ?thesis unfolding undisputed_def by fastforce
  qed
next
  assume "\<not> undisputed d s e"
  then obtain t f where tf: "(t, f) \<in> set (valid_pairs (pd_change_sets d))"
      "en_control f = en_control e" "t \<noteq> s \<or> \<not> c1_holds d f"
    by (auto simp: undisputed_def)
  show "\<exists>v \<in> set (intent_coherence_violations d). names v s (en_control e)"
  proof (cases "t = s")
    case True
    with c1_failure_named [of s f d] tf show ?thesis by auto
  next
    case False
    with c2_failure_named [OF assms tf(1)] tf(2) show ?thesis by auto
  qed
qed

lemma coherent_undisputed:
  "coherent d \<Longrightarrow> (s, e) \<in> set (valid_pairs (pd_change_sets d)) \<Longrightarrow> undisputed d s e"
  by (fastforce simp: coherent_def undisputed_def)

lemma repair_keeps:
  "(s, e) \<in> set (valid_pairs (pd_change_sets (fst (repair_intent d)))) \<longleftrightarrow>
     (s, e) \<in> set (valid_pairs (pd_change_sets d)) \<and> undisputed d s e"
proof (cases "intent_coherence_violations d = []")
  case True
  then show ?thesis
    by (auto simp: repair_intent_def violations_empty_iff dest: coherent_undisputed)
next
  case False
  then show ?thesis
    using named_iff_disputed [of s e d] by (auto simp: repair_intent_def valid_pairs_demoted)
qed

lemma repair_controls [frame_simps]:
  "pd_controls (fst (repair_intent d)) = pd_controls d"
  "pd_producer (fst (repair_intent d)) = pd_producer d"
  "pd_target (fst (repair_intent d)) = pd_target d"
  "pd_lanes (fst (repair_intent d)) = pd_lanes d"
  "pd_revisions (fst (repair_intent d)) = pd_revisions d"
  "pd_stale (fst (repair_intent d)) = pd_stale d"
  by (simp_all add: repair_intent_def Let_def frame_simps)

lemma repair_coherent: "coherent (fst (repair_intent d))"
proof -
  have c1: "c1_holds (fst (repair_intent d)) e = c1_holds d e" for e
    by (simp add: c1_holds_def doc_control_def frame_simps)
  show ?thesis
    unfolding coherent_def c1
  proof (intro conjI ballI impI; clarify)
    fix s e assume "(s, e) \<in> set (valid_pairs (pd_change_sets (fst (repair_intent d))))"
    then show "c1_holds d (snd (s, e))" unfolding repair_keeps by (auto simp: undisputed_def)
  next
    fix s e t f
    assume "(s, e) \<in> set (valid_pairs (pd_change_sets (fst (repair_intent d))))"
      "(t, f) \<in> set (valid_pairs (pd_change_sets (fst (repair_intent d))))"
      "en_control (snd (s, e)) = en_control (snd (t, f))"
    then show "fst (s, e) = fst (t, f)" unfolding repair_keeps by (fastforce simp: undisputed_def)
  qed
qed

text \<open>A second repair finds nothing to do.\<close>

lemma repair_fixed_point: "repair_intent (fst (repair_intent d)) = (fst (repair_intent d), [])"
  using repair_coherent [of d] by (simp add: repair_intent_def [of "fst (repair_intent d)"]
      violations_empty_iff Let_def)

lemma repair_of_coherent: "coherent d \<Longrightarrow> repair_intent d = (d, [])"
  by (simp add: repair_intent_def violations_empty_iff)

section \<open>The gate as a whole\<close>

lemma admit_envelope_refused:
  assumes "\<not> envelope_ok rfc3339 d"
  shows "\<exists>r. admit rfc3339 previous d = Refused r \<and> (\<forall>vs. r \<noteq> IrreparableIntent vs)"
proof -
  have z: "zone_id_defect d = Some r \<Longrightarrow> r \<noteq> IrreparableIntent vs" for r vs
    by (auto simp: zone_id_defect_def split: option.splits if_splits)
  have l: "first_lane_defect d = Some r \<Longrightarrow> r \<noteq> IrreparableIntent vs" for r vs
    by (auto simp: first_lane_defect_def dest!: first_some_Some)
  have t: "first_timestamp_defect rfc3339 d = Some r \<Longrightarrow> r \<noteq> IrreparableIntent vs" for r vs
    by (auto simp: first_timestamp_defect_def invalid_timestamp_def dest!: first_some_Some
        split: if_splits)
  have hd: "first_health_defect rfc3339 seen hs = Some r \<Longrightarrow> r \<noteq> IrreparableIntent vs" for seen hs r vs
    by (induction hs arbitrary: seen) (auto split: if_splits option.splits)
  have cs: "control_shape_defect c = Some r \<Longrightarrow> r \<noteq> IrreparableIntent vs" for c r vs
    by (auto simp: control_shape_defect_def split: if_splits option.splits)
  have sh: "first_shape_defect rfc3339 d = Some r \<Longrightarrow> r \<noteq> IrreparableIntent vs" for r vs
    by (auto simp: first_shape_defect_def dest!: first_some_Some dest: hd cs split: option.splits)
  have il: "first_illegal_transition d = Some r \<Longrightarrow> r \<noteq> IrreparableIntent vs" for r vs
    by (auto simp: first_illegal_transition_def dest!: first_some_Some split: if_splits)
  show ?thesis
    using assms unfolding envelope_ok_def admit_def compat_None_iff [symmetric]
    by (auto split: option.split dest: z l t sh il)
qed

lemma admit_envelope_ok:
  assumes "envelope_ok rfc3339 d"
  shows "admit rfc3339 previous d =
    (case relate previous (fst (repair_intent d)) of
       Inl r \<Rightarrow> Refused r
     | Inr kind \<Rightarrow> Admitted \<lparr>ad_document = fst (repair_intent d), ad_repairs = snd (repair_intent d),
         ad_kind = kind\<rparr>)"
  using assms repair_coherent [of d]
  unfolding envelope_ok_def compat_None_iff [symmetric]
  by (simp add: admit_def relate_def violations_empty_iff split_beta Let_def)

lemma admit_Admitted_iff:
  "admit rfc3339 previous d = Admitted a \<longleftrightarrow>
     envelope_ok rfc3339 d \<and> ad_document a = fst (repair_intent d) \<and>
     ad_repairs a = snd (repair_intent d) \<and>
     relate previous (fst (repair_intent d)) = Inr (ad_kind a)"
proof (cases "envelope_ok rfc3339 d")
  case True
  then show ?thesis
    by (cases a) (auto simp: admit_envelope_ok split: sum.splits)
next
  case False
  then show ?thesis using admit_envelope_refused [of rfc3339 d previous] by auto
qed

lemma ordering_not_irreparable: "relate previous d = Inl r \<Longrightarrow> r \<noteq> IrreparableIntent vs"
  by (auto simp: relate_def ordering_def Let_def split: option.splits if_splits)

lemma admit_never_irreparable: "admit rfc3339 previous d \<noteq> Refused (IrreparableIntent vs)"
proof (cases "envelope_ok rfc3339 d")
  case True
  then show ?thesis
    by (auto simp: admit_envelope_ok dest: ordering_not_irreparable split: sum.splits)
next
  case False
  then show ?thesis using admit_envelope_refused [of rfc3339 d previous] by auto
qed

text \<open>The position of a producer, and how an admitted document moves it.\<close>

definition position_le :: "producer_document \<Rightarrow> producer_document \<Rightarrow> bool" where
  "position_le a b \<longleftrightarrow> pi_epoch (pd_producer a) < pi_epoch (pd_producer b) \<or>
     pi_epoch (pd_producer a) = pi_epoch (pd_producer b) \<and>
       \<not> regresses_from (pd_revisions b) (pd_revisions a)"

lemma position_le_refl [simp]: "position_le d d"
  by (simp add: position_le_def)

lemma position_le_trans: "position_le a b \<Longrightarrow> position_le b c \<Longrightarrow> position_le a c"
  by (auto simp: position_le_def dest: regresses_trans)

lemma ordering_position: "ordering held d = Inr k \<Longrightarrow> position_le held d"
  by (auto simp: ordering_def position_le_def Let_def not_less split: if_splits)

lemma ordering_Fresh_iff:
  "ordering held d = Inr Fresh \<longleftrightarrow> pi_epoch (pd_producer held) < pi_epoch (pd_producer d)"
  by (auto simp: ordering_def Let_def split: if_splits)

lemma ordering_Advanced_iff:
  "ordering held d = Inr Advanced \<longleftrightarrow>
     pi_epoch (pd_producer held) = pi_epoch (pd_producer d) \<and>
     advances_over (pd_revisions d) (pd_revisions held)"
  by (auto simp: ordering_def advances_over_def Let_def not_less split: if_splits)

text \<open>A health refresh changes the lanes and the staleness flag only.\<close>

lemma doc_nan_free_lanes [simp]:
  "doc_nan_free (d\<lparr>pd_lanes := l, pd_stale := st\<rparr>) = doc_nan_free d"
  by (simp add: doc_nan_free_def)

lemma doc_eq_probe:
  "doc_eq (d\<lparr>pd_lanes := pd_lanes held, pd_stale := pd_stale held\<rparr>) held \<longleftrightarrow>
     (\<exists>lanes st. d = held\<lparr>pd_lanes := lanes, pd_stale := st\<rparr>) \<and> doc_nan_free held"
  (is "?L \<longleftrightarrow> ?R")
proof
  assume L: ?L
  then have eq: "held = d\<lparr>pd_lanes := pd_lanes held, pd_stale := pd_stale held\<rparr>" by (simp add: doc_eq_def)
  have "d = (d\<lparr>pd_lanes := pd_lanes held, pd_stale := pd_stale held\<rparr>)\<lparr>pd_lanes := pd_lanes d, pd_stale := pd_stale d\<rparr>"
    by simp
  with eq have "d = held\<lparr>pd_lanes := pd_lanes d, pd_stale := pd_stale d\<rparr>" by metis
  moreover have "doc_nan_free held" using L by (metis doc_eq_def)
  ultimately show ?R by blast
qed (auto simp: doc_eq_def)

lemma ordering_HealthRefresh_iff:
  "ordering held d = Inr HealthRefresh \<longleftrightarrow>
     (\<exists>lanes st. d = held\<lparr>pd_lanes := lanes, pd_stale := st\<rparr>) \<and> doc_nan_free held"
proof
  assume "ordering held d = Inr HealthRefresh"
  then have "doc_eq (d\<lparr>pd_lanes := pd_lanes held, pd_stale := pd_stale held\<rparr>) held"
    by (auto simp: ordering_def Let_def split: if_splits)
  then show "(\<exists>lanes st. d = held\<lparr>pd_lanes := lanes, pd_stale := st\<rparr>) \<and> doc_nan_free held"
    unfolding doc_eq_probe .
next
  assume "(\<exists>lanes st. d = held\<lparr>pd_lanes := lanes, pd_stale := st\<rparr>) \<and> doc_nan_free held"
  then show "ordering held d = Inr HealthRefresh"
    by (auto simp: ordering_def doc_eq_def Let_def)
qed

lemma admitted_position:
  "admit rfc3339 (Some held) d = Admitted a \<Longrightarrow> position_le held (ad_document a)"
  by (auto simp: admit_Admitted_iff relate_def dest: ordering_position)

text \<open>Repair keeps a document free of NaN, so an identical republication is recognized as one.\<close>

lemma demotions_of_nan_free: "x \<in> set (demotions_of v) \<Longrightarrow> validity_nan_free (dm_to x)"
  by (cases v) (auto simp: demotions_of_def validity_nan_free_def)

lemma demote_entry_nan_free:
  "entry_nan_free e \<Longrightarrow> entry_nan_free (fst (demote_entry (concat (map demotions_of vs)) s e))"
  by (auto simp: demote_entry_def demotion_for_def entry_nan_free_def demotions_of_nan_free
      dest!: find_mem split: option.splits)

lemma repair_nan_free: "doc_nan_free d \<Longrightarrow> doc_nan_free (fst (repair_intent d))"
  by (auto simp: repair_intent_def Let_def frame_simps doc_nan_free_def change_set_nan_free_def
      list_all_iff demote_entry_nan_free)

lemma republication:
  assumes "admit rfc3339 previous d = Admitted a" "doc_nan_free d"
  shows "admit rfc3339 (Some (ad_document a)) d = Admitted (a\<lparr>ad_kind := HealthRefresh\<rparr>)"
proof -
  have "ordering (fst (repair_intent d)) (fst (repair_intent d)) = Inr HealthRefresh"
    unfolding ordering_HealthRefresh_iff
    using repair_nan_free [OF assms(2)]
    by (intro conjI exI [of _ "pd_lanes (fst (repair_intent d))"]
        exI [of _ "pd_stale (fst (repair_intent d))"]) simp_all
  with assms show ?thesis by (auto simp: admit_Admitted_iff relate_def)
qed

text \<open>With a NaN inside, the same republication is refused.\<close>

lemma republication_nan:
  assumes "admit rfc3339 previous d = Admitted a" "\<not> doc_nan_free (ad_document a)"
  shows "admit rfc3339 (Some (ad_document a)) d = Refused (NotAdvanced (pd_revisions d))"
proof -
  have "ordering (fst (repair_intent d)) (fst (repair_intent d)) = Inl (NotAdvanced (pd_revisions d))"
    using assms by (simp add: ordering_def Let_def doc_eq_def admit_Admitted_iff repair_controls(5))
  with assms show ?thesis
    by (auto simp: admit_Admitted_iff relate_def admit_envelope_ok)
qed

end
