(* ===== verification/Producer_Aggregator.thy ===== *)
theory Producer_Aggregator
  imports Admission
begin

text \<open>
  The aggregator of adaptive producers (\<open>src/producers/aggregator.rs\<close>) and the actor in front of it
  (\<open>src/producers/runtime.rs\<close>): the store of admitted documents, refusals, retirement floors and
  watermarks. Each write happens under one write guard, so it is a function on the store. The
  channel between handle and actor is library code; the actor is run here on an arbitrary sequence
  of commands, interleaved with arbitrary changes of the run registry, which includes every order a
  channel can deliver.
\<close>

section \<open>State\<close>

record lane_witness =
  lw_lane :: transport_lane
  lw_state :: lane_state
  lw_last_success :: "timestamp option"
  lw_last_error :: "reason option"
  lw_observed_in_epoch :: producer_epoch

datatype producer_presence = Live | LastKnown

record producer_snapshot =
  sn_key :: producer_key
  sn_document :: producer_document
  sn_lanes :: "(transport_lane \<times> lane_witness) list"
  sn_presence :: producer_presence
  sn_repairs :: "intent_repair list"
  sn_last_refusal :: "admission_refusal option"

record producer_entry =
  pe_document :: producer_document
  pe_lanes :: "(transport_lane \<times> lane_witness) list"
  pe_repairs :: "intent_repair list"
  pe_run :: "publication_origin option"

record refusal_record =
  rf_refusal :: admission_refusal
  rf_claimed_epoch :: producer_epoch
  rf_origin :: "publication_origin option"

datatype tombstone = Tombstone (tomb_epoch: producer_epoch)

record watermark =
  wm_epoch :: producer_epoch
  wm_revisions :: document_revisions

record store =
  st_producers :: "(producer_key \<times> producer_entry) list"
  st_refusals :: "(producer_key \<times> refusal_record) list"
  st_tombstones :: "(producer_key \<times> tombstone) list"
  st_producer_tombstones :: "(string \<times> producer_epoch) list"
  st_watermarks :: "(producer_key \<times> watermark) list"

definition store_default :: store where
  "store_default = \<lparr>st_producers = [], st_refusals = [], st_tombstones = [],
     st_producer_tombstones = [], st_watermarks = []\<rparr>"

section \<open>Store operations\<close>

definition authority_rank :: "string option \<Rightarrow> publication_origin option \<Rightarrow> nat" where
  "authority_rank owner og =
     (case og of
        Some x \<Rightarrow> (if Some (po_adapter x) = owner then 2 else 0)
      | None \<Rightarrow> 1)"

definition refusal_replaces :: "producer_key \<Rightarrow> refusal_record \<Rightarrow> refusal_record \<Rightarrow> bool" where
  "refusal_replaces key held incoming =
     (let owner = map_option fst (split_once CHR '':'' (pk_producer_id key));
          h = authority_rank owner (rf_origin held);
          i = authority_rank owner (rf_origin incoming)
      in if i > h then True
         else if i < h then False
         else case (rf_origin held, rf_origin incoming) of
           (Some ho, Some io) \<Rightarrow>
             (if po_adapter ho = po_adapter io then po_run io \<ge> po_run ho else False)
         | (Some _, None) \<Rightarrow> False
         | (None, _) \<Rightarrow> True)"

definition record_refusal :: "producer_key \<Rightarrow> refusal_record \<Rightarrow> store \<Rightarrow> store" where
  "record_refusal key incoming st =
     (let replace = (case map_of (st_refusals st) key of
          None \<Rightarrow> True
        | Some held \<Rightarrow> refusal_replaces key held incoming)
      in if replace then st\<lparr>st_refusals := bt_insert key incoming (st_refusals st)\<rparr> else st)"

definition opt_max :: "producer_epoch option \<Rightarrow> producer_epoch option \<Rightarrow> producer_epoch option" where
  "opt_max a b =
     (case (a, b) of
        (Some x, Some y) \<Rightarrow> Some (max x y)
      | (Some x, None) \<Rightarrow> Some x
      | (None, y) \<Rightarrow> y)"

definition retired_at :: "store \<Rightarrow> producer_key \<Rightarrow> producer_epoch option" where
  "retired_at st key =
     opt_max (map_option tomb_epoch (map_of (st_tombstones st) key))
       (map_of (st_producer_tombstones st) (pk_producer_id key))"

definition admit_past_retirement ::
  "store \<Rightarrow> producer_key \<Rightarrow> producer_epoch \<Rightarrow> producer_epoch + unit" where
  "admit_past_retirement st key incoming =
     (case retired_at st key of
        None \<Rightarrow> Inr ()
      | Some epoch \<Rightarrow> (if incoming \<le> epoch then Inl epoch else Inr ()))"

definition retire_key :: "producer_key \<Rightarrow> producer_epoch \<Rightarrow> store \<Rightarrow> store" where
  "retire_key key epoch st =
     (let held = (case map_of (st_tombstones st) key of None \<Rightarrow> epoch | Some t \<Rightarrow> tomb_epoch t)
      in st\<lparr>st_tombstones :=
           bt_insert key (Tombstone (if epoch > held then epoch else held)) (st_tombstones st)\<rparr>)"

definition retire_producer_through :: "string \<Rightarrow> producer_epoch \<Rightarrow> store \<Rightarrow> producer_epoch \<times> store" where
  "retire_producer_through producer_id epoch st =
     (let held = (case map_of (st_producer_tombstones st) producer_id of None \<Rightarrow> epoch | Some e \<Rightarrow> e);
          retired = (if epoch > held then epoch else held)
      in (retired, st\<lparr>st_producer_tombstones :=
            bt_insert producer_id retired (st_producer_tombstones st)\<rparr>))"

definition watermark_refusal ::
  "store \<Rightarrow> producer_key \<Rightarrow> producer_epoch \<Rightarrow> document_revisions \<Rightarrow> admission_refusal option" where
  "watermark_refusal st key epoch revisions =
     (case map_of (st_watermarks st) key of
        None \<Rightarrow> None
      | Some w \<Rightarrow>
          (if epoch < wm_epoch w then Some (EpochRegressed (wm_epoch w) epoch)
           else if epoch = wm_epoch w \<and> regresses_from revisions (wm_revisions w)
           then Some (RevisionRegressed (wm_revisions w) revisions)
           else None))"

definition observe_watermark ::
  "producer_key \<Rightarrow> producer_epoch \<Rightarrow> document_revisions \<Rightarrow> store \<Rightarrow> store" where
  "observe_watermark key epoch revisions st =
     (let replace = (case map_of (st_watermarks st) key of
          None \<Rightarrow> True
        | Some held \<Rightarrow> epoch > wm_epoch held \<or>
            epoch = wm_epoch held \<and> advances_over revisions (wm_revisions held))
      in if replace
         then st\<lparr>st_watermarks :=
                bt_insert key \<lparr>wm_epoch = epoch, wm_revisions = revisions\<rparr> (st_watermarks st)\<rparr>
         else st)"

definition admitted_epoch_of_producer :: "store \<Rightarrow> string \<Rightarrow> producer_epoch option" where
  "admitted_epoch_of_producer st producer_id =
     (case map (\<lambda>kv. pi_epoch (pd_producer (pe_document (snd kv))))
        (filter (\<lambda>kv. pk_producer_id (fst kv) = producer_id) (st_producers st)) of
        [] \<Rightarrow> None
      | e # es \<Rightarrow> Some (fold max es e))"

section \<open>Lane witnesses\<close>

definition supersedes :: "instant_parser \<Rightarrow> timestamp \<Rightarrow> timestamp option \<Rightarrow> bool" where
  "supersedes rfc3339 offered held =
     (case held of
        None \<Rightarrow> True
      | Some h \<Rightarrow>
          (case (rfc3339 (ts_str offered), rfc3339 (ts_str h)) of
             (Some a, Some b) \<Rightarrow> a > b
           | (Some a, None) \<Rightarrow> True
           | (None, _) \<Rightarrow> False))"

definition witness_lane ::
  "instant_parser \<Rightarrow> producer_epoch \<Rightarrow> (transport_lane \<times> lane_witness) list \<Rightarrow> lane_health \<Rightarrow>
     (transport_lane \<times> lane_witness) list" where
  "witness_lane rfc3339 epoch ws h =
     (let w0 = (case map_of ws (lh_lane h) of
            Some w \<Rightarrow> w
          | None \<Rightarrow> \<lparr>lw_lane = lh_lane h, lw_state = lh_state h, lw_last_success = None,
              lw_last_error = None, lw_observed_in_epoch = epoch\<rparr>);
          w1 = w0\<lparr>lw_state := lh_state h\<rparr>;
          w2 = (case lh_last_success h of
            None \<Rightarrow> w1
          | Some offered \<Rightarrow>
              (if supersedes rfc3339 offered (lw_last_success w1)
               then w1\<lparr>lw_last_success := Some offered, lw_observed_in_epoch := epoch\<rparr> else w1));
          w3 = (if lh_last_error h \<noteq> None then w2\<lparr>lw_last_error := lh_last_error h\<rparr> else w2)
      in bt_insert (lh_lane h) w3 ws)"

definition witness_lanes ::
  "instant_parser \<Rightarrow> producer_document \<Rightarrow> (transport_lane \<times> lane_witness) list \<Rightarrow>
     (transport_lane \<times> lane_witness) list" where
  "witness_lanes rfc3339 d ws = foldl (witness_lane rfc3339 (pi_epoch (pd_producer d))) ws (pd_lanes d)"

section \<open>Admission into the store\<close>

definition admit_active ::
  "instant_parser \<Rightarrow> publication_origin option \<Rightarrow> producer_document \<Rightarrow> store \<Rightarrow> admission \<times> store" where
  "admit_active rfc3339 og d st =
     (let key = key_of d;
          incoming_epoch = pi_epoch (pd_producer d);
          refuse = (\<lambda>r. (Refused r,
            record_refusal key \<lparr>rf_refusal = r, rf_claimed_epoch = incoming_epoch, rf_origin = og\<rparr> st))
      in case admit_past_retirement st key incoming_epoch of
           Inl bar \<Rightarrow> refuse (ProducerRetired bar incoming_epoch)
         | Inr _ \<Rightarrow>
        (case watermark_refusal st key incoming_epoch (pd_revisions d) of
           Some r \<Rightarrow> refuse r
         | None \<Rightarrow>
        (case admit rfc3339 (map_option pe_document (map_of (st_producers st) key)) d of
           Refused r \<Rightarrow> refuse r
         | Admitted a \<Rightarrow>
             (let st1 = observe_watermark key (pi_epoch (pd_producer (ad_document a)))
                    (pd_revisions (ad_document a)) st;
                  lanes = (case map_of (st_producers st1) key of None \<Rightarrow> [] | Some e \<Rightarrow> pe_lanes e);
                  entry = \<lparr>pe_document = ad_document a,
                    pe_lanes = witness_lanes rfc3339 (ad_document a) lanes,
                    pe_repairs = ad_repairs a, pe_run = og\<rparr>
              in (Admitted a, st1\<lparr>st_producers := bt_insert key entry (st_producers st1)\<rparr>)))))"

datatype adaptive_event =
    SnapshotAdmitted producer_key document_revisions nat
  | SnapshotRefused producer_key admission_refusal
  | ProducerRetiredEvent string producer_epoch nat

definition admission_event :: "producer_key \<Rightarrow> admission \<Rightarrow> adaptive_event" where
  "admission_event key a =
     (case a of
        Admitted ad \<Rightarrow> SnapshotAdmitted key (pd_revisions (ad_document ad)) (length (ad_repairs ad))
      | Refused r \<Rightarrow> SnapshotRefused key r)"

definition agg_admit_document ::
  "instant_parser \<Rightarrow> run_state \<Rightarrow> publication_origin option \<Rightarrow> producer_document \<Rightarrow> store \<Rightarrow>
     admission \<times> adaptive_event list \<times> store" where
  "agg_admit_document rfc3339 runs og d st =
     (let key = key_of d in
      case og of
        None \<Rightarrow>
          (let (a, st') = admit_active rfc3339 None d st in (a, [admission_event key a], st'))
      | Some x \<Rightarrow>
          (if \<not> owns x (pk_producer_id key)
           then let r = ProducerOwnershipMismatch (po_adapter x) (pk_producer_id key)
                in (Refused r, [SnapshotRefused key r], st)
           else
             let (a, st') =
               (case with_active runs x (\<lambda>u. admit_active rfc3339 (Some x) d st) of
                  Inr res \<Rightarrow> res
                | Inl active \<Rightarrow>
                    (let r = StaleAdapterRun (po_adapter x) (po_run x) active
                     in (Refused r, record_refusal key
                          \<lparr>rf_refusal = r, rf_claimed_epoch = pi_epoch (pd_producer d),
                           rf_origin = Some x\<rparr> st)))
             in (a, [admission_event key a], st')))"

section \<open>Retirement\<close>

definition retire_active ::
  "string \<Rightarrow> producer_epoch option \<Rightarrow> store \<Rightarrow> (nat \<times> producer_epoch option) \<times> store" where
  "retire_active producer_id explicit_epoch st =
     (let retired_through = (case explicit_epoch of
            Some e \<Rightarrow> Some e | None \<Rightarrow> admitted_epoch_of_producer st producer_id);
          (applied_floor, st1) = (case retired_through of
            None \<Rightarrow> (None, st)
          | Some e \<Rightarrow> (let (f, s) = retire_producer_through producer_id e st in (Some f, s)));
          remove_all = (explicit_epoch = None);
          below = (\<lambda>e. remove_all \<or> (case applied_floor of None \<Rightarrow> False | Some f \<Rightarrow> e \<le> f));
          producer_keys = map fst (filter (\<lambda>kv. pk_producer_id (fst kv) = producer_id \<and>
            below (pi_epoch (pd_producer (pe_document (snd kv))))) (st_producers st1));
          refusal_keys = map fst (filter (\<lambda>kv. pk_producer_id (fst kv) = producer_id \<and>
            below (rf_claimed_epoch (snd kv))) (st_refusals st1));
          floor = (\<lambda>k s. case applied_floor of None \<Rightarrow> s | Some e \<Rightarrow> retire_key k e s);
          (removed, st2) = foldl (\<lambda>(n, s) k.
             (if map_of (st_producers s) k \<noteq> None then Suc n else n,
              floor k (s\<lparr>st_producers := bt_remove k (st_producers s)\<rparr>))) (0, st1) producer_keys;
          st3 = foldl (\<lambda>s k. floor k (s\<lparr>st_refusals := bt_remove k (st_refusals s)\<rparr>)) st2 refusal_keys
      in ((removed, applied_floor), st3))"

definition retire_committed ::
  "publication_origin \<Rightarrow> string \<Rightarrow> producer_epoch \<Rightarrow> store \<Rightarrow> nat \<times> adaptive_event list \<times> store" where
  "retire_committed og producer_id epoch st =
     (let ((removed, applied_floor), st') = retire_active producer_id (Some epoch) st
      in (removed,
          [ProducerRetiredEvent producer_id
             (case applied_floor of Some f \<Rightarrow> f | None \<Rightarrow> epoch) removed], st'))"

definition retire_producer ::
  "run_state \<Rightarrow> publication_origin option \<Rightarrow> string \<Rightarrow> producer_epoch option \<Rightarrow> store \<Rightarrow>
     (nat \<times> producer_epoch option) \<times> store" where
  "retire_producer runs og producer_id explicit_epoch st =
     (case og of
        Some x \<Rightarrow>
          (case with_active runs x (\<lambda>u. retire_active producer_id explicit_epoch st) of
             Inr res \<Rightarrow> res
           | Inl active \<Rightarrow> ((0, None), st))
      | None \<Rightarrow> retire_active producer_id explicit_epoch st)"

section \<open>Reading\<close>

definition run_is_live :: "(string \<times> adapter_run_id) list \<Rightarrow> producer_entry \<Rightarrow> bool" where
  "run_is_live live e =
     (case pe_run e of None \<Rightarrow> True | Some x \<Rightarrow> map_of live (po_adapter x) = Some (po_run x))"

definition project :: "store \<Rightarrow> producer_key \<Rightarrow> producer_entry \<Rightarrow> bool \<Rightarrow> producer_snapshot" where
  "project st key e is_live =
     \<lparr>sn_key = key, sn_document = pe_document e, sn_lanes = pe_lanes e,
      sn_presence = (if pd_stale (pe_document e) \<or> \<not> is_live then LastKnown else Live),
      sn_repairs = pe_repairs e,
      sn_last_refusal = map_option rf_refusal (map_of (st_refusals st) key)\<rparr>"

definition snapshot_now :: "run_state \<Rightarrow> store \<Rightarrow> producer_key \<Rightarrow> producer_snapshot option" where
  "snapshot_now runs st key =
     with_liveness runs (\<lambda>live.
       map_option (\<lambda>e. project st key e (run_is_live live e)) (map_of (st_producers st) key))"

definition snapshots_now :: "run_state \<Rightarrow> store \<Rightarrow> producer_snapshot list" where
  "snapshots_now runs st =
     with_liveness runs (\<lambda>live.
       map (\<lambda>(k, e). project st k e (run_is_live live e)) (st_producers st))"

definition refusals_now :: "store \<Rightarrow> (producer_key \<times> admission_refusal) list" where
  "refusals_now st = map (\<lambda>(k, r). (k, rf_refusal r)) (st_refusals st)"

section \<open>The handle and the actor\<close>

datatype producer_command =
    CmdPublish publication_origin producer_document bool
  | CmdRetire publication_origin string producer_epoch bool

datatype retirement_outcome =
    RetCommitted
  | RetRetired nat
  | RetStaleAdapterRun publication_origin "adapter_run_id option"
  | RetOwnershipMismatch publication_origin string

text \<open>
  What a call on the handle does: it answers at once, finds the channel closed, or puts a command on
  the channel. \<open>accepted\<close> is the channel's answer to the send or the reservation. The flag of a
  command says whether the caller waits for the actor's reply.
\<close>

datatype 'a handle_step = HClosed | HAnswer 'a | HSend producer_command

definition handle_publish ::
  "bool \<Rightarrow> publication_origin \<Rightarrow> producer_document \<Rightarrow> admission handle_step" where
  "handle_publish accepted og d =
     (if \<not> owns og (pi_producer_id (pd_producer d))
      then HAnswer (Refused (ProducerOwnershipMismatch (po_adapter og) (pi_producer_id (pd_producer d))))
      else if \<not> accepted then HClosed
      else HSend (CmdPublish og d True))"

definition handle_publish_detached ::
  "bool \<Rightarrow> publication_origin \<Rightarrow> producer_document \<Rightarrow> (publication_origin \<times> string) handle_step" where
  "handle_publish_detached accepted og d =
     (if \<not> owns og (pi_producer_id (pd_producer d))
      then HAnswer (og, pi_producer_id (pd_producer d))
      else if \<not> accepted then HClosed
      else HSend (CmdPublish og d False))"

definition handle_retire ::
  "bool \<Rightarrow> bool \<Rightarrow> run_state \<Rightarrow> publication_origin \<Rightarrow> string \<Rightarrow> producer_epoch \<Rightarrow>
     retirement_outcome handle_step" where
  "handle_retire wait accepted runs og producer_id epoch =
     (if \<not> owns og producer_id then HAnswer (RetOwnershipMismatch og producer_id)
      else if \<not> accepted then HClosed
      else case with_active runs og (\<lambda>u. CmdRetire og producer_id epoch wait) of
        Inl active \<Rightarrow> HAnswer (RetStaleAdapterRun og active)
      | Inr c \<Rightarrow> HSend c)"

datatype actor_reply = NoReply | Verdict admission | Applied nat

definition actor_apply ::
  "instant_parser \<Rightarrow> run_state \<Rightarrow> producer_command \<Rightarrow> store \<Rightarrow>
     actor_reply \<times> adaptive_event list \<times> store" where
  "actor_apply rfc3339 runs cmd st =
     (case cmd of
        CmdPublish og d wait \<Rightarrow>
          (let (a, evs, st') = agg_admit_document rfc3339 runs (Some og) d st
           in (if wait then Verdict a else NoReply, evs, st'))
      | CmdRetire og producer_id epoch wait \<Rightarrow>
          (let (n, evs, st') = retire_committed og producer_id epoch st
           in (if wait then Applied n else NoReply, evs, st')))"

text \<open>The registry and the store together, driven by lifecycle calls and actor turns.\<close>

record producer_system =
  ps_runs :: run_state
  ps_store :: store

datatype ps_event = PsRun run_event | PsCommand producer_command

fun ps_step :: "instant_parser \<Rightarrow> producer_system \<Rightarrow> ps_event \<Rightarrow> producer_system" where
  "ps_step rfc3339 s (PsRun e) = s\<lparr>ps_runs := run_apply (ps_runs s) e\<rparr>"
| "ps_step rfc3339 s (PsCommand c) =
     s\<lparr>ps_store := snd (snd (actor_apply rfc3339 (ps_runs s) c (ps_store s)))\<rparr>"

definition ps_init :: producer_system where
  "ps_init = \<lparr>ps_runs = run_state_default, ps_store = store_default\<rparr>"

end
