(* ===== verification/Producer_Facts.thy ===== *)
theory Producer_Facts
  imports Producer_Aggregator
begin

text \<open>
  What holds of the producer aggregator: the frame of every store operation, the store invariant,
  the monotone floors and watermarks, and what follows for publications that arrive late. Optional
  epochs are compared in the order in which \<open>None\<close> is least.
\<close>

section \<open>Frames\<close>

lemma record_refusal_frame [frame_simps]:
  "st_producers (record_refusal k r st) = st_producers st"
  "st_tombstones (record_refusal k r st) = st_tombstones st"
  "st_producer_tombstones (record_refusal k r st) = st_producer_tombstones st"
  "st_watermarks (record_refusal k r st) = st_watermarks st"
  by (simp_all add: record_refusal_def Let_def)

lemma retire_key_frame [frame_simps]:
  "st_producers (retire_key k e st) = st_producers st"
  "st_refusals (retire_key k e st) = st_refusals st"
  "st_producer_tombstones (retire_key k e st) = st_producer_tombstones st"
  "st_watermarks (retire_key k e st) = st_watermarks st"
  by (simp_all add: retire_key_def Let_def)

lemma observe_watermark_frame [frame_simps]:
  "st_producers (observe_watermark k e r st) = st_producers st"
  "st_refusals (observe_watermark k e r st) = st_refusals st"
  "st_tombstones (observe_watermark k e r st) = st_tombstones st"
  "st_producer_tombstones (observe_watermark k e r st) = st_producer_tombstones st"
  by (simp_all add: observe_watermark_def Let_def)

text \<open>The retirement floor of a key, its own part and the whole.\<close>

definition key_floor :: "store \<Rightarrow> producer_key \<Rightarrow> producer_epoch option" where
  "key_floor st k = map_option tomb_epoch (map_of (st_tombstones st) k)"

lemma opt_max_eq: "opt_max a b = max a b"
  by (cases a; cases b) (simp_all add: opt_max_def max_def)

lemma retired_at_max: "retired_at st k = max (key_floor st k) (map_of (st_producer_tombstones st) (pk_producer_id k))"
  by (simp add: retired_at_def key_floor_def opt_max_eq)

lemma key_floor_retire_key:
  "key_floor (retire_key k e st) k' = (if k' = k then max (key_floor st k) (Some e) else key_floor st k')"
  by (auto simp: key_floor_def retire_key_def Let_def max_def split: option.splits)

lemma retire_producer_through_eq:
  assumes "retire_producer_through p e st = (f, st')"
  shows "Some f = max (map_of (st_producer_tombstones st) p) (Some e) \<and>
    map_of (st_producer_tombstones st') = (map_of (st_producer_tombstones st))(p \<mapsto> f) \<and>
    st' = st\<lparr>st_producer_tombstones := bt_insert p f (st_producer_tombstones st)\<rparr>"
  using assms
  by (auto simp: retire_producer_through_def Let_def max_def split: option.splits if_splits)

lemma admit_past_iff:
  "admit_past_retirement st k e = Inr () \<longleftrightarrow> retired_at st k < Some e"
  by (auto simp: admit_past_retirement_def not_le split: option.splits)

lemma admit_past_Inl_iff:
  "admit_past_retirement st k e = Inl f \<longleftrightarrow> retired_at st k = Some f \<and> e \<le> f"
  by (auto simp: admit_past_retirement_def split: option.splits)

section \<open>Retirement, in one equation per map\<close>

definition removed_by :: "string \<Rightarrow> (producer_epoch \<Rightarrow> bool) \<Rightarrow> producer_key \<Rightarrow> producer_epoch \<Rightarrow> bool" where
  "removed_by p below k e \<longleftrightarrow> pk_producer_id k = p \<and> below e"

lemma retire_producers_fold:
  assumes "foldl (\<lambda>(n, s) k. (if map_of (st_producers s) k \<noteq> None then Suc n else n,
      retire_key k f (s\<lparr>st_producers := bt_remove k (st_producers s)\<rparr>))) (n, st) ks = (n', st')"
    and "distinct ks" "\<forall>k \<in> set ks. map_of (st_producers st) k \<noteq> None"
  shows "n' = n + length ks \<and> st_refusals st' = st_refusals st \<and> st_watermarks st' = st_watermarks st \<and>
    st_producer_tombstones st' = st_producer_tombstones st \<and>
    st_producers st' = fold bt_remove ks (st_producers st) \<and>
    (\<forall>k. key_floor st' k = (if k \<in> set ks then max (key_floor st k) (Some f) else key_floor st k)) \<and>
    (bt_wf (st_tombstones st) \<longrightarrow> bt_wf (st_tombstones st'))"
  using assms
proof (induction ks arbitrary: n st)
  case (Cons k ks)
  let ?s = "retire_key k f (st\<lparr>st_producers := bt_remove k (st_producers st)\<rparr>)"
  have kf: "key_floor (st\<lparr>st_producers := x\<rparr>) j = key_floor st j" for x j by (simp add: key_floor_def)
  from Cons.prems(2,3) have "\<forall>j \<in> set ks. map_of (st_producers ?s) j \<noteq> None" by (auto simp: frame_simps)
  note P = this
  have F: "foldl (\<lambda>(n, s) k. (if map_of (st_producers s) k \<noteq> None then Suc n else n,
      retire_key k f (s\<lparr>st_producers := bt_remove k (st_producers s)\<rparr>))) (Suc n, ?s) ks = (n', st')"
    using Cons.prems(1,3) by simp
  have "n' = Suc n + length ks \<and> st_refusals st' = st_refusals ?s \<and>
    st_watermarks st' = st_watermarks ?s \<and>
    st_producer_tombstones st' = st_producer_tombstones ?s \<and>
    st_producers st' = fold bt_remove ks (st_producers ?s) \<and>
    (\<forall>j. key_floor st' j = (if j \<in> set ks then max (key_floor ?s j) (Some f) else key_floor ?s j)) \<and>
    (bt_wf (st_tombstones ?s) \<longrightarrow> bt_wf (st_tombstones st'))"
    by (rule Cons.IH [OF F _ P]) (use Cons.prems(2) in simp)
  moreover have "bt_wf (st_tombstones st) \<longrightarrow> bt_wf (st_tombstones ?s)"
    by (simp add: retire_key_def Let_def)
  ultimately show ?case
    using Cons.prems(2) by (auto simp: frame_simps key_floor_retire_key kf)
qed simp

lemma retire_refusals_fold:
  fixes st ks f
  defines "st' \<equiv> foldl (\<lambda>s k. retire_key k f (s\<lparr>st_refusals := bt_remove k (st_refusals s)\<rparr>)) st ks"
  shows "st_producers st' = st_producers st \<and> st_watermarks st' = st_watermarks st \<and>
    st_producer_tombstones st' = st_producer_tombstones st \<and>
    st_refusals st' = fold bt_remove ks (st_refusals st) \<and>
    (\<forall>k. key_floor st' k = (if k \<in> set ks then max (key_floor st k) (Some f) else key_floor st k)) \<and>
    (bt_wf (st_tombstones st) \<longrightarrow> bt_wf (st_tombstones st'))"
  unfolding st'_def
proof (induction ks arbitrary: st)
  case (Cons k ks)
  have kf: "key_floor (st\<lparr>st_refusals := x\<rparr>) j = key_floor st j" for x j by (simp add: key_floor_def)
  have "bt_wf (st_tombstones st) \<longrightarrow>
      bt_wf (st_tombstones (retire_key k f (st\<lparr>st_refusals := bt_remove k (st_refusals st)\<rparr>)))"
    by (simp add: retire_key_def Let_def)
  then show ?case
    using Cons [of "retire_key k f (st\<lparr>st_refusals := bt_remove k (st_refusals st)\<rparr>)"]
    by (auto simp: frame_simps key_floor_retire_key kf max.assoc)
qed simp

lemma map_of_fold_remove:
  "map_of (fold bt_remove ks m) (k :: 'k::linorder) = (if k \<in> set ks then None else map_of m k)"
  using bt.lookup_remove_all [of ks m k] by (simp add: bt.remove_all_def)

lemma bt_wf_fold_remove: "bt_wf m \<Longrightarrow> bt_wf (fold bt_remove ks m)"
  using bt.wf_remove_all [of m ks] by (simp add: bt.remove_all_def)

lemma filtered_keys:
  assumes "bt_wf m"
  shows "k \<in> set (map fst (filter P m)) \<longleftrightarrow> (\<exists>v. map_of m k = Some v \<and> P (k, v))"
    and "distinct (map fst (filter P m))"
  using bt_wf_distinct [OF assms] bt_entries [OF assms] by (force, simp add: distinct_map_filter)

text \<open>Retirement through an explicit epoch, the only form a run of the program commits.\<close>

lemma retire_active_explicit:
  assumes "retire_active p (Some e) st = ((n, af), st')"
    and wf: "bt_wf (st_producers st)" "bt_wf (st_refusals st)" "bt_wf (st_tombstones st)"
      "bt_wf (st_producer_tombstones st)"
  obtains f where "af = Some f" "Some f = max (map_of (st_producer_tombstones st) p) (Some e)"
    "map_of (st_producer_tombstones st') = (map_of (st_producer_tombstones st))(p \<mapsto> f)"
    "st_watermarks st' = st_watermarks st"
    "\<And>k. map_of (st_producers st') k =
       (case map_of (st_producers st) k of None \<Rightarrow> None
        | Some en \<Rightarrow> if pk_producer_id k = p \<and> pi_epoch (pd_producer (pe_document en)) \<le> f then None
            else Some en)"
    "\<And>k. map_of (st_refusals st') k =
       (case map_of (st_refusals st) k of None \<Rightarrow> None
        | Some r \<Rightarrow> if pk_producer_id k = p \<and> rf_claimed_epoch r \<le> f then None else Some r)"
    "\<And>k. key_floor st k \<le> key_floor st' k"
    "\<And>k. key_floor st' k \<noteq> key_floor st k \<Longrightarrow>
       pk_producer_id k = p \<and> key_floor st' k = max (key_floor st k) (Some f)"
    "n = card {k. map_of (st_producers st) k \<noteq> None \<and> map_of (st_producers st') k = None}"
    "bt_wf (st_producers st')" "bt_wf (st_refusals st')" "bt_wf (st_tombstones st')"
    "bt_wf (st_producer_tombstones st')"
proof -
  obtain f st1 where f: "retire_producer_through p e st = (f, st1)" by (cases "retire_producer_through p e st") auto
  note eq = retire_producer_through_eq [OF f]
  define pks where "pks = map fst (filter (\<lambda>kv. pk_producer_id (fst kv) = p \<and>
      pi_epoch (pd_producer (pe_document (snd kv))) \<le> f) (st_producers st))"
  define rks where "rks = map fst (filter (\<lambda>kv. pk_producer_id (fst kv) = p \<and>
      rf_claimed_epoch (snd kv) \<le> f) (st_refusals st))"
  have s1: "st_producers st1 = st_producers st" "st_refusals st1 = st_refusals st"
      "st_watermarks st1 = st_watermarks st" "st_tombstones st1 = st_tombstones st"
    using eq by simp_all
  then have kf1: "key_floor st1 k = key_floor st k" for k by (simp add: key_floor_def)
  obtain m st2 where st2: "foldl (\<lambda>(n, s) k. (if map_of (st_producers s) k \<noteq> None then Suc n else n,
      retire_key k f (s\<lparr>st_producers := bt_remove k (st_producers s)\<rparr>))) (0, st1) pks = (m, st2)"
    by (rule prod.exhaust)
  have pk: "k \<in> set pks \<longleftrightarrow> (\<exists>en. map_of (st_producers st) k = Some en \<and> pk_producer_id k = p \<and>
      pi_epoch (pd_producer (pe_document en)) \<le> f)" for k
    unfolding pks_def filtered_keys(1) [OF wf(1)] by simp
  have rk: "k \<in> set rks \<longleftrightarrow> (\<exists>r. map_of (st_refusals st) k = Some r \<and> pk_producer_id k = p \<and>
      rf_claimed_epoch r \<le> f)" for k
    unfolding rks_def filtered_keys(1) [OF wf(2)] by simp
  have dp: "distinct pks" unfolding pks_def by (rule filtered_keys(2) [OF wf(1)])
  have F2: "m = 0 + length pks \<and> st_refusals st2 = st_refusals st1 \<and> st_watermarks st2 = st_watermarks st1 \<and>
    st_producer_tombstones st2 = st_producer_tombstones st1 \<and>
    st_producers st2 = fold bt_remove pks (st_producers st1) \<and>
    (\<forall>k. key_floor st2 k = (if k \<in> set pks then max (key_floor st1 k) (Some f) else key_floor st1 k)) \<and>
    (bt_wf (st_tombstones st1) \<longrightarrow> bt_wf (st_tombstones st2))"
    by (rule retire_producers_fold [OF st2 dp]) (auto simp: pk s1)
  have F2': "st_refusals st2 = st_refusals st" using F2 s1 by simp
  have unf: "retire_active p (Some e) st = ((m, Some f), foldl (\<lambda>s k. retire_key k f
      (s\<lparr>st_refusals := bt_remove k (st_refusals s)\<rparr>)) st2 rks)"
    unfolding retire_active_def Let_def option.case f prod.case s1
    by (simp only: option.distinct simp_thms option.case prod.case st2 [unfolded pks_def] rks_def F2')
  note F3 = retire_refusals_fold [of f st2 rks]
  have st': "st' = foldl (\<lambda>s k. retire_key k f (s\<lparr>st_refusals := bt_remove k (st_refusals s)\<rparr>)) st2 rks"
    and nm: "n = m" "af = Some f" using assms(1) unf by auto
  note G = F3 [folded st']
  have prod: "map_of (st_producers st') k = (if k \<in> set pks then None else map_of (st_producers st) k)" for k
    using G F2 s1 by (simp add: map_of_fold_remove)
  have card: "{k. map_of (st_producers st) k \<noteq> None \<and> map_of (st_producers st') k = None} = set pks"
    unfolding prod by (auto simp: pk)
  have kf: "key_floor st' k = (if k \<in> set pks \<or> k \<in> set rks then max (key_floor st k) (Some f)
      else key_floor st k)" for k
    using G F2 kf1 by (auto simp: max.assoc)
  show thesis
  proof (rule that [of f])
    show "Some f = max (map_of (st_producer_tombstones st) p) (Some e)" using eq by blast
    show "map_of (st_producer_tombstones st') = (map_of (st_producer_tombstones st))(p \<mapsto> f)"
      "bt_wf (st_producer_tombstones st')"
      using eq G F2 wf(4) by simp_all
    show "st_watermarks st' = st_watermarks st" using G F2 s1 by simp
    show "map_of (st_producers st') k = (case map_of (st_producers st) k of None \<Rightarrow> None
        | Some en \<Rightarrow> if pk_producer_id k = p \<and> pi_epoch (pd_producer (pe_document en)) \<le> f then None
            else Some en)" for k
      unfolding prod by (auto simp: pk split: option.splits)
    show "map_of (st_refusals st') k = (case map_of (st_refusals st) k of None \<Rightarrow> None
        | Some r \<Rightarrow> if pk_producer_id k = p \<and> rf_claimed_epoch r \<le> f then None else Some r)" for k
      using G F2 s1 rk [of k] by (auto simp: map_of_fold_remove split: option.splits)
    show "key_floor st k \<le> key_floor st' k" for k by (simp add: kf)
    show "key_floor st' k \<noteq> key_floor st k \<Longrightarrow>
        pk_producer_id k = p \<and> key_floor st' k = max (key_floor st k) (Some f)" for k
      by (auto simp: kf pk rk split: if_splits)
    show "n = card {k. map_of (st_producers st) k \<noteq> None \<and> map_of (st_producers st') k = None}"
      unfolding card using nm F2 dp by (simp add: distinct_card)
    show "bt_wf (st_producers st')" "bt_wf (st_refusals st')"
      using G F2 s1 wf by (simp_all add: bt_wf_fold_remove)
    show "bt_wf (st_tombstones st')" using G F2 s1 wf by simp
  qed (use nm in simp)
qed

section \<open>Admission into the store\<close>

text \<open>What can be said of one publication that reaches the store, whatever its verdict.\<close>

lemma admit_active_refused:
  assumes "admit_active rfc3339 og d st = (Refused r, st')"
  shows "st' = record_refusal (key_of d)
    \<lparr>rf_refusal = r, rf_claimed_epoch = pi_epoch (pd_producer d), rf_origin = og\<rparr> st"
  using assms
  by (auto simp: admit_active_def Let_def split: sum.splits option.splits admission.splits)

lemma admit_active_admitted:
  assumes "admit_active rfc3339 og d st = (Admitted a, st')"
  shows "retired_at st (key_of d) < Some (pi_epoch (pd_producer d))"
    and "watermark_refusal st (key_of d) (pi_epoch (pd_producer d)) (pd_revisions d) = None"
    and "admit rfc3339 (map_option pe_document (map_of (st_producers st) (key_of d))) d = Admitted a"
    and "st' = (observe_watermark (key_of d) (pi_epoch (pd_producer d)) (pd_revisions d) st)
      \<lparr>st_producers := bt_insert (key_of d)
        \<lparr>pe_document = ad_document a,
         pe_lanes = witness_lanes rfc3339 (ad_document a)
           (case map_of (st_producers st) (key_of d) of None \<Rightarrow> [] | Some e \<Rightarrow> pe_lanes e),
         pe_repairs = ad_repairs a, pe_run = og\<rparr> (st_producers st)\<rparr>"
proof -
  have fr: "pd_producer (ad_document a) = pd_producer d \<and> pd_revisions (ad_document a) = pd_revisions d"
    if "admit rfc3339 pr d = Admitted a" for pr
    using that by (simp add: admit_Admitted_iff frame_simps)
  obtain u where u: "admit_past_retirement st (key_of d) (pi_epoch (pd_producer d)) = Inr u"
    using assms by (cases "admit_past_retirement st (key_of d) (pi_epoch (pd_producer d))")
      (simp_all add: admit_active_def Let_def)
  then show "retired_at st (key_of d) < Some (pi_epoch (pd_producer d))"
    using admit_past_iff by (metis old.unit.exhaust)
  show w: "watermark_refusal st (key_of d) (pi_epoch (pd_producer d)) (pd_revisions d) = None"
    using assms u
    by (cases "watermark_refusal st (key_of d) (pi_epoch (pd_producer d)) (pd_revisions d)")
      (simp_all add: admit_active_def Let_def)
  obtain a' where a': "admit rfc3339 (map_option pe_document (map_of (st_producers st) (key_of d))) d = Admitted a'"
    using assms u w
    by (cases "admit rfc3339 (map_option pe_document (map_of (st_producers st) (key_of d))) d")
      (simp_all add: admit_active_def Let_def)
  with assms u w have "a' = a" by (simp add: admit_active_def Let_def)
  with a' show ad: "admit rfc3339 (map_option pe_document (map_of (st_producers st) (key_of d))) d = Admitted a"
    by simp
  show "st' = (observe_watermark (key_of d) (pi_epoch (pd_producer d)) (pd_revisions d) st)
      \<lparr>st_producers := bt_insert (key_of d)
        \<lparr>pe_document = ad_document a,
         pe_lanes = witness_lanes rfc3339 (ad_document a)
           (case map_of (st_producers st) (key_of d) of None \<Rightarrow> [] | Some e \<Rightarrow> pe_lanes e),
         pe_repairs = ad_repairs a, pe_run = og\<rparr> (st_producers st)\<rparr>"
    using assms u w ad fr [OF ad] by (simp add: admit_active_def Let_def frame_simps)
qed

text \<open>The gate's conditions do not see validity, so the repaired document meets them too.\<close>

lemma envelope_ok_demoted:
  "envelope_ok rfc3339 (fst (apply_demotions ds d)) = envelope_ok rfc3339 d"
proof -
  have e: "enumerate n (map f xs) = map (\<lambda>(i, x). (i, f x)) (enumerate n xs)" for n f and xs :: "change_set list"
    by (induction xs arbitrary: n) auto
  have "timestamp_fields (fst (apply_demotions ds d)) = timestamp_fields d"
    by (simp add: timestamp_fields_def frame_simps e split_def comp_def)
  then show ?thesis
    by (simp add: envelope_ok_def zone_id_defect_def first_lane_defect_def first_timestamp_defect_def
        first_shape_None_iff first_illegal_transition_def frame_simps)
qed

lemma envelope_ok_repair: "envelope_ok rfc3339 (fst (repair_intent d)) = envelope_ok rfc3339 d"
  by (simp add: repair_intent_def Let_def envelope_ok_demoted)

lemma admitted_document_ok:
  assumes "admit rfc3339 previous d = Admitted a"
  shows "envelope_ok rfc3339 (ad_document a) \<and> coherent (ad_document a) \<and>
    key_of (ad_document a) = key_of d \<and> pd_producer (ad_document a) = pd_producer d \<and>
    pd_revisions (ad_document a) = pd_revisions d"
  using assms
  by (simp add: admit_Admitted_iff envelope_ok_repair repair_coherent key_of_def frame_simps)

section \<open>The invariant\<close>

text \<open>Every witnessed success is an instant, under its own lane.\<close>

definition witnesses_ok :: "instant_parser \<Rightarrow> (transport_lane \<times> lane_witness) list \<Rightarrow> bool" where
  "witnesses_ok rfc3339 ws \<longleftrightarrow> bt_wf ws \<and> (\<forall>l w. map_of ws l = Some w \<longrightarrow> lw_lane w = l \<and>
     (\<forall>tm. lw_last_success w = Some tm \<longrightarrow> rfc3339 (ts_str tm) \<noteq> None))"

definition entry_ok :: "instant_parser \<Rightarrow> store \<Rightarrow> producer_key \<Rightarrow> producer_entry \<Rightarrow> bool" where
  "entry_ok rfc3339 st k e \<longleftrightarrow>
     key_of (pe_document e) = k \<and> coherent (pe_document e) \<and> envelope_ok rfc3339 (pe_document e) \<and>
     map_of (st_watermarks st) k = Some \<lparr>wm_epoch = pi_epoch (pd_producer (pe_document e)),
       wm_revisions = pd_revisions (pe_document e)\<rparr> \<and>
     retired_at st k < Some (pi_epoch (pd_producer (pe_document e))) \<and>
     witnesses_ok rfc3339 (pe_lanes e)"

definition store_ok :: "instant_parser \<Rightarrow> store \<Rightarrow> bool" where
  "store_ok rfc3339 st \<longleftrightarrow>
     bt_wf (st_producers st) \<and> bt_wf (st_refusals st) \<and> bt_wf (st_tombstones st) \<and>
     bt_wf (st_producer_tombstones st) \<and> bt_wf (st_watermarks st) \<and>
     (\<forall>k. key_floor st k \<le> map_of (st_producer_tombstones st) (pk_producer_id k)) \<and>
     (\<forall>k e. map_of (st_producers st) k = Some e \<longrightarrow> entry_ok rfc3339 st k e)"

lemma store_ok_default: "store_ok rfc3339 store_default"
  by (simp add: store_ok_def store_default_def key_floor_def)

text \<open>Under the invariant the floor of the whole producer decides; the one of the key adds nothing.\<close>

lemma retired_at_ok:
  "store_ok rfc3339 st \<Longrightarrow> retired_at st k = map_of (st_producer_tombstones st) (pk_producer_id k)"
  unfolding retired_at_max store_ok_def by (simp add: max_absorb2)

lemma record_refusal_wf: "bt_wf (st_refusals st) \<Longrightarrow> bt_wf (st_refusals (record_refusal k r st))"
  by (auto simp: record_refusal_def Let_def)

lemma store_ok_record_refusal:
  "store_ok rfc3339 st \<Longrightarrow> store_ok rfc3339 (record_refusal k r st)"
  by (simp add: store_ok_def entry_ok_def frame_simps key_floor_def retired_at_max record_refusal_wf)

lemma watermark_passed:
  assumes "watermark_refusal st k e r = None"
  shows "map_of (st_watermarks (observe_watermark k e r st)) =
    (map_of (st_watermarks st))(k \<mapsto> \<lparr>wm_epoch = e, wm_revisions = r\<rparr>)"
proof (cases "map_of (st_watermarks st) k")
  case (Some w)
  show ?thesis
  proof (cases "e > wm_epoch w \<or> e = wm_epoch w \<and> advances_over r (wm_revisions w)")
    case True
    then show ?thesis using Some by (simp add: observe_watermark_def)
  next
    case False
    then have "e = wm_epoch w" "r = wm_revisions w"
      using assms Some by (auto simp: watermark_refusal_def advances_over_def split: if_splits)
    with False Some show ?thesis by (auto simp: observe_watermark_def fun_upd_idem)
  qed
qed (simp add: observe_watermark_def)

lemma witness_lane_ok:
  assumes "witnesses_ok rfc3339 ws" "\<forall>tm. lh_last_success h = Some tm \<longrightarrow> rfc3339 (ts_str tm) \<noteq> None"
  shows "witnesses_ok rfc3339 (witness_lane rfc3339 ep ws h)"
  using assms by (auto simp: witnesses_ok_def witness_lane_def Let_def split: option.splits)

lemma witness_lanes_ok:
  assumes "envelope_ok rfc3339 d" "witnesses_ok rfc3339 ws"
  shows "witnesses_ok rfc3339 (witness_lanes rfc3339 d ws)"
proof -
  have "\<forall>h \<in> set hs. \<forall>tm. lh_last_success h = Some tm \<longrightarrow> rfc3339 (ts_str tm) \<noteq> None \<Longrightarrow>
      witnesses_ok rfc3339 ws \<Longrightarrow> witnesses_ok rfc3339 (foldl (witness_lane rfc3339 ep) ws hs)" for ep hs
    by (induction hs arbitrary: ws) (simp_all add: witness_lane_ok)
  then show ?thesis
    using assms by (simp add: witness_lanes_def envelope_ok_def first_shape_None_iff)
qed

lemma observe_watermark_wf:
  "bt_wf (st_watermarks st) \<Longrightarrow> bt_wf (st_watermarks (observe_watermark k e r st))"
  by (simp add: observe_watermark_def Let_def)

lemma store_ok_admit_active:
  assumes ok: "store_ok rfc3339 st" and step: "admit_active rfc3339 og d st = (v, st')"
  shows "store_ok rfc3339 st'"
proof (cases v)
  case (Refused r)
  with step admit_active_refused show ?thesis using store_ok_record_refusal [OF ok] by metis
next
  case (Admitted a)
  note A = admit_active_admitted [OF step [unfolded Admitted]]
  note D = admitted_document_ok [OF A(3)]
  have lanes: "witnesses_ok rfc3339 (case map_of (st_producers st) (key_of d) of None \<Rightarrow> [] | Some e \<Rightarrow> pe_lanes e)"
    using ok by (auto simp: store_ok_def entry_ok_def witnesses_ok_def split: option.splits)
  have kf: "key_floor st' k = key_floor st k" for k by (simp add: A(4) key_floor_def frame_simps)
  have pt: "st_producer_tombstones st' = st_producer_tombstones st" by (simp add: A(4) frame_simps)
  have ra: "retired_at st' k = retired_at st k" for k by (simp add: retired_at_max kf pt)
  have wm: "map_of (st_watermarks st') = (map_of (st_watermarks st))
      (key_of d \<mapsto> \<lparr>wm_epoch = pi_epoch (pd_producer d), wm_revisions = pd_revisions d\<rparr>)"
    using watermark_passed [OF A(2)] by (simp add: A(4))
  have "entry_ok rfc3339 st' k e" if "map_of (st_producers st') k = Some e" for k e
  proof (cases "k = key_of d")
    case True
    with that show ?thesis
      using A(1) D wm lanes by (auto simp: entry_ok_def A(4) ra [unfolded A(4)] frame_simps witness_lanes_ok)
  next
    case False
    with that ok have "entry_ok rfc3339 st k e" by (auto simp: A(4) frame_simps store_ok_def)
    with False show ?thesis by (simp add: entry_ok_def ra wm)
  qed
  moreover have "bt_wf (st_producers st') \<and> bt_wf (st_refusals st') \<and> bt_wf (st_tombstones st') \<and>
      bt_wf (st_producer_tombstones st') \<and> bt_wf (st_watermarks st')"
    using ok by (simp add: store_ok_def A(4) frame_simps observe_watermark_wf)
  moreover have "key_floor st k \<le> map_of (st_producer_tombstones st) (pk_producer_id k)" for k
    using ok by (simp add: store_ok_def)
  ultimately show ?thesis by (simp add: store_ok_def kf pt)
qed

lemma store_ok_retire:
  assumes ok: "store_ok rfc3339 st" and step: "retire_active p (Some e) st = ((n, af), st')"
  shows "store_ok rfc3339 st'"
proof -
  have wf: "bt_wf (st_producers st)" "bt_wf (st_refusals st)" "bt_wf (st_tombstones st)"
      "bt_wf (st_producer_tombstones st)" using ok by (auto simp: store_ok_def)
  show ?thesis
  proof (rule retire_active_explicit [OF step wf])
    fix f
    assume f: "Some f = max (map_of (st_producer_tombstones st) p) (Some e)"
      and pt: "map_of (st_producer_tombstones st') = (map_of (st_producer_tombstones st))(p \<mapsto> f)"
      and wm: "st_watermarks st' = st_watermarks st"
      and pr: "\<And>k. map_of (st_producers st') k = (case map_of (st_producers st) k of None \<Rightarrow> None
        | Some en \<Rightarrow> if pk_producer_id k = p \<and> pi_epoch (pd_producer (pe_document en)) \<le> f then None
            else Some en)"
      and kf: "\<And>k. key_floor st' k \<noteq> key_floor st k \<Longrightarrow>
        pk_producer_id k = p \<and> key_floor st' k = max (key_floor st k) (Some f)"
      and wf': "bt_wf (st_producers st')" "bt_wf (st_refusals st')" "bt_wf (st_tombstones st')"
        "bt_wf (st_producer_tombstones st')"
    have kle: "key_floor st k \<le> map_of (st_producer_tombstones st) (pk_producer_id k)" for k
      using ok by (simp add: store_ok_def)
    have fge: "map_of (st_producer_tombstones st) p \<le> Some f" unfolding f by simp
    have kle': "key_floor st' k \<le> map_of (st_producer_tombstones st') (pk_producer_id k)" for k
    proof (cases "pk_producer_id k = p")
      case True
      have "key_floor st k \<le> Some f" using kle [of k] fge True by (metis order_trans)
      then have "key_floor st' k \<le> Some f" using kf [of k] by (cases "key_floor st' k = key_floor st k") auto
      with True pt show ?thesis by simp
    next
      case False
      then have "key_floor st' k = key_floor st k" using kf by blast
      with False kle [of k] pt show ?thesis by simp
    qed
    have ra: "retired_at st' k = map_of (st_producer_tombstones st') (pk_producer_id k)" for k
      unfolding retired_at_max using kle' by (simp add: max_absorb2)
    have "entry_ok rfc3339 st' k en" if "map_of (st_producers st') k = Some en" for k en
    proof -
      have old: "map_of (st_producers st) k = Some en"
        and keep: "\<not> (pk_producer_id k = p \<and> pi_epoch (pd_producer (pe_document en)) \<le> f)"
        using that pr [of k] by (auto split: option.splits if_splits)
      then have "entry_ok rfc3339 st k en" using ok by (simp add: store_ok_def)
      with keep show ?thesis
        using ra [of k] retired_at_ok [OF ok, of k] wm pt by (auto simp: entry_ok_def)
    qed
    with wf' wm kle' ok show ?thesis by (auto simp: store_ok_def)
  qed
qed

section \<open>Runs of the actor\<close>

lemma agg_admit_store:
  obtains (same) "snd (snd (agg_admit_document rfc3339 runs og d st)) = st"
  | (refusal) r where "snd (snd (agg_admit_document rfc3339 runs og d st)) = record_refusal (key_of d) r st"
  | (active) v where "admit_active rfc3339 og d st = (v, snd (snd (agg_admit_document rfc3339 runs og d st)))"
      "fst (agg_admit_document rfc3339 runs og d st) = v"
      "\<forall>x. og = Some x \<longrightarrow> is_active runs x \<and> owns x (pk_producer_id (key_of d))"
proof (cases og)
  case None
  then show thesis by (intro active) (auto simp: agg_admit_document_def Let_def split_beta prod_eq_iff)
next
  case (Some x)
  show thesis
  proof (cases "owns x (pk_producer_id (key_of d))")
    case False
    then show thesis by (intro same) (simp add: agg_admit_document_def Some Let_def)
  next
    case True
    show thesis
    proof (cases "is_active runs x")
      case False
      then obtain ac where "with_active runs x (\<lambda>u. admit_active rfc3339 (Some x) d st) = Inl ac"
        using with_active_Inl_iff by metis
      with True show thesis by (intro refusal) (simp add: agg_admit_document_def Some Let_def)
    next
      case act: True
      then have "with_active runs x (\<lambda>u. admit_active rfc3339 (Some x) d st) =
          Inr (admit_active rfc3339 (Some x) d st)"
        by (simp add: with_active_Inr_iff)
      with True act show thesis
        by (intro active) (auto simp: agg_admit_document_def Some Let_def split_beta prod_eq_iff)
    qed
  qed
qed

text \<open>How one state may follow another: floors and watermarks only rise.\<close>

definition wm_le :: "watermark option \<Rightarrow> watermark option \<Rightarrow> bool" where
  "wm_le a b \<longleftrightarrow> (\<forall>x. a = Some x \<longrightarrow> (\<exists>y. b = Some y \<and> (wm_epoch x < wm_epoch y \<or>
     wm_epoch x = wm_epoch y \<and> \<not> regresses_from (wm_revisions y) (wm_revisions x))))"

definition store_le :: "store \<Rightarrow> store \<Rightarrow> bool" where
  "store_le a b \<longleftrightarrow>
     (\<forall>p. map_of (st_producer_tombstones a) p \<le> map_of (st_producer_tombstones b) p) \<and>
     (\<forall>k. wm_le (map_of (st_watermarks a) k) (map_of (st_watermarks b) k))"

lemma wm_le_refl: "wm_le a a"
  by (simp add: wm_le_def)

lemma wm_le_trans: "wm_le a b \<Longrightarrow> wm_le b c \<Longrightarrow> wm_le a c"
  by (cases a; cases b; cases c) (auto simp: wm_le_def dest: less_trans regresses_trans)

lemma store_le_refl: "store_le a a"
  by (simp add: store_le_def wm_le_refl)

lemma store_le_trans: "store_le a b \<Longrightarrow> store_le b c \<Longrightarrow> store_le a c"
  unfolding store_le_def by (meson order_trans wm_le_trans)

lemma store_le_record_refusal: "store_le st (record_refusal k r st)"
  by (simp add: store_le_def frame_simps wm_le_refl)

lemma store_le_admit_active:
  assumes "admit_active rfc3339 og d st = (v, st')"
  shows "store_le st st'"
proof (cases v)
  case (Refused r)
  with assms admit_active_refused store_le_record_refusal show ?thesis by metis
next
  case (Admitted a)
  note A = admit_active_admitted [OF assms [unfolded Admitted]]
  have "wm_le (map_of (st_watermarks st) (key_of d))
      (Some \<lparr>wm_epoch = pi_epoch (pd_producer d), wm_revisions = pd_revisions d\<rparr>)"
    using A(2) by (auto simp: wm_le_def watermark_refusal_def split: if_splits)
  then show ?thesis
    using watermark_passed [OF A(2)] by (simp add: store_le_def A(4) frame_simps wm_le_refl)
qed

lemma store_le_retire:
  assumes ok: "store_ok rfc3339 st" and step: "retire_active p (Some e) st = ((n, af), st')"
  shows "store_le st st'"
proof -
  have wf: "bt_wf (st_producers st)" "bt_wf (st_refusals st)" "bt_wf (st_tombstones st)"
      "bt_wf (st_producer_tombstones st)" using ok by (auto simp: store_ok_def)
  show ?thesis
  proof (rule retire_active_explicit [OF step wf])
    fix f
    assume f: "Some f = max (map_of (st_producer_tombstones st) p) (Some e)"
      and pt: "map_of (st_producer_tombstones st') = (map_of (st_producer_tombstones st))(p \<mapsto> f)"
      and wm: "st_watermarks st' = st_watermarks st"
    then show "store_le st st'" unfolding store_le_def by (auto simp: wm_le_refl f)
  qed
qed

lemma actor_apply_store_ok:
  assumes "store_ok rfc3339 st"
  shows "store_ok rfc3339 (snd (snd (actor_apply rfc3339 runs c st))) \<and>
    store_le st (snd (snd (actor_apply rfc3339 runs c st)))"
proof (cases c)
  case (CmdPublish og d w)
  let ?st' = "snd (snd (agg_admit_document rfc3339 runs (Some og) d st))"
  have "store_ok rfc3339 ?st' \<and> store_le st ?st'"
  proof (cases rule: agg_admit_store [of rfc3339 runs "Some og" d st])
    case same
    then show ?thesis using assms store_le_refl by simp
  next
    case (refusal r)
    then show ?thesis using store_ok_record_refusal [OF assms] store_le_record_refusal by simp
  next
    case (active v)
    then show ?thesis using store_ok_admit_active [OF assms] store_le_admit_active by blast
  qed
  then show ?thesis by (simp add: CmdPublish actor_apply_def split_beta)
next
  case (CmdRetire og p e w)
  obtain n af st' where r: "retire_active p (Some e) st = ((n, af), st')" by (metis surj_pair)
  show ?thesis
    using store_ok_retire [OF assms r] store_le_retire [OF assms r]
    by (simp add: CmdRetire actor_apply_def retire_committed_def r split_beta)
qed

interpretation ps: event_system "ps_step rfc3339" "\<lambda>s. store_ok rfc3339 (ps_store s)"
    "\<lambda>s t. store_le (ps_store s) (ps_store t)"
proof
  fix s e u t
  show "store_ok rfc3339 (ps_store s) \<Longrightarrow> store_ok rfc3339 (ps_store (ps_step rfc3339 s e))"
    by (cases e) (use actor_apply_store_ok in auto)
  show "store_le (ps_store s) (ps_store s)" by (rule store_le_refl)
  show "store_le (ps_store s) (ps_store t) \<Longrightarrow> store_le (ps_store t) (ps_store u) \<Longrightarrow>
      store_le (ps_store s) (ps_store u)" by (rule store_le_trans)
  show "store_ok rfc3339 (ps_store s) \<Longrightarrow> store_le (ps_store s) (ps_store (ps_step rfc3339 s e))"
    by (cases e) (use actor_apply_store_ok store_le_refl in auto)
qed

definition ps_run :: "instant_parser \<Rightarrow> producer_system \<Rightarrow> ps_event list \<Rightarrow> producer_system" where
  "ps_run rfc3339 = foldl (ps_step rfc3339)"

lemma ps_run_ok: "store_ok rfc3339 (ps_store s) \<Longrightarrow> store_ok rfc3339 (ps_store (ps_run rfc3339 s es))"
  unfolding ps_run_def by (rule ps.inv_run)

lemma ps_run_le:
  "store_ok rfc3339 (ps_store s) \<Longrightarrow> store_le (ps_store s) (ps_store (ps_run rfc3339 s es))"
  unfolding ps_run_def by (rule ps.le_run)

lemma ps_reachable_ok: "store_ok rfc3339 (ps_store (ps_run rfc3339 ps_init es))"
  by (rule ps_run_ok) (simp add: ps_init_def store_ok_default)

section \<open>Consequences\<close>

text \<open>A document at or below the floor is refused, by an answer that names the floor.\<close>

lemma below_floor_refused:
  assumes "retired_at st (key_of d) = Some f" "pi_epoch (pd_producer d) \<le> f"
  shows "fst (admit_active rfc3339 og d st) = Refused (ProducerRetired f (pi_epoch (pd_producer d)))"
proof -
  have "admit_past_retirement st (key_of d) (pi_epoch (pd_producer d)) = Inl f"
    using assms by (simp add: admit_past_Inl_iff)
  then show ?thesis by (simp add: admit_active_def Let_def)
qed

lemma agg_admit_verdict:
  "(\<exists>r. fst (agg_admit_document rfc3339 runs og d st) = Refused r) \<or>
   fst (agg_admit_document rfc3339 runs og d st) = fst (admit_active rfc3339 og d st)"
  by (auto simp: agg_admit_document_def Let_def split_beta with_active_Inr_iff
      split: option.splits sum.splits)

text \<open>Once a retirement through an epoch was applied, no later run admits that producer at or below it.\<close>

lemma retired_never_admitted:
  assumes ok: "store_ok rfc3339 (ps_store s)"
    and ret: "s1 = ps_step rfc3339 s (PsCommand (CmdRetire og p e w))"
    and doc: "pi_producer_id (pd_producer d) = p" "pi_epoch (pd_producer d) \<le> e"
  shows "\<exists>r. fst (agg_admit_document rfc3339 runs og' d (ps_store (ps_run rfc3339 s1 es))) = Refused r"
proof -
  let ?st = "ps_store (ps_run rfc3339 s1 es)"
  obtain n af st1 where r: "retire_active p (Some e) (ps_store s) = ((n, af), st1)" by (metis surj_pair)
  have st1: "ps_store s1 = st1" by (simp add: ret actor_apply_def retire_committed_def r split_beta)
  have ok1: "store_ok rfc3339 st1" by (rule store_ok_retire [OF ok r])
  have wf: "bt_wf (st_producers (ps_store s))" "bt_wf (st_refusals (ps_store s))"
      "bt_wf (st_tombstones (ps_store s))" "bt_wf (st_producer_tombstones (ps_store s))"
    using ok by (auto simp: store_ok_def)
  have "Some e \<le> map_of (st_producer_tombstones st1) p"
    by (rule retire_active_explicit [OF r wf]) (metis fun_upd_same max.cobounded2)
  also have "\<dots> \<le> map_of (st_producer_tombstones ?st) p"
    using ps_run_le [of rfc3339 s1 es] ok1 st1 by (simp add: store_le_def)
  finally obtain f where f: "map_of (st_producer_tombstones ?st) p = Some f" "e \<le> f"
    by (cases "map_of (st_producer_tombstones ?st) p") auto
  have ok2: "store_ok rfc3339 ?st" using ps_run_ok [of rfc3339 s1 es] ok1 st1 by simp
  have "retired_at ?st (key_of d) = Some f"
    using retired_at_ok [OF ok2, of "key_of d"] f doc by (simp add: key_of_def)
  moreover have "pi_epoch (pd_producer d) \<le> f" using doc(2) f(2) by (rule order_trans)
  ultimately have no: "fst (admit_active rfc3339 og' d ?st) = Refused (ProducerRetired f (pi_epoch (pd_producer d)))"
    by (rule below_floor_refused)
  with agg_admit_verdict [of rfc3339 runs og' d ?st] show ?thesis by auto
qed

text \<open>Lane witnesses: the newest instant ever reported, and the epoch that reported it.\<close>

definition lane_instant ::
  "instant_parser \<Rightarrow> (transport_lane \<times> lane_witness) list \<Rightarrow> transport_lane \<Rightarrow> int option" where
  "lane_instant rfc3339 ws l =
     Option.bind (Option.bind (map_of ws l) lw_last_success) (\<lambda>tm. rfc3339 (ts_str tm))"

definition offered_instant :: "instant_parser \<Rightarrow> producer_document \<Rightarrow> transport_lane \<Rightarrow> int option" where
  "offered_instant rfc3339 d l =
     Option.bind (Option.bind (doc_lane_health d l) lh_last_success) (\<lambda>tm. rfc3339 (ts_str tm))"

lemma witness_lane_instant:
  assumes "witnesses_ok rfc3339 ws" "\<forall>tm. lh_last_success h = Some tm \<longrightarrow> rfc3339 (ts_str tm) \<noteq> None"
  shows "lane_instant rfc3339 (witness_lane rfc3339 ep ws h) l =
    (if l = lh_lane h
     then max (lane_instant rfc3339 ws l) (Option.bind (lh_last_success h) (\<lambda>tm. rfc3339 (ts_str tm)))
     else lane_instant rfc3339 ws l)"
proof (cases "map_of ws (lh_lane h)")
  case None
  then show ?thesis
    by (auto simp: lane_instant_def witness_lane_def Let_def supersedes_def max_def split: option.split)
next
  case (Some w)
  then have "\<forall>tm. lw_last_success w = Some tm \<longrightarrow> rfc3339 (ts_str tm) \<noteq> None"
    using assms(1) by (auto simp: witnesses_ok_def)
  with Some assms(2) show ?thesis
    by (cases "lw_last_success w"; cases "lh_last_success h")
      (auto simp: lane_instant_def witness_lane_def Let_def supersedes_def max_def split: option.split)
qed

lemma witness_lanes_instant:
  assumes "envelope_ok rfc3339 d" "witnesses_ok rfc3339 ws"
  shows "lane_instant rfc3339 (witness_lanes rfc3339 d ws) l =
    max (lane_instant rfc3339 ws l) (offered_instant rfc3339 d l)"
proof -
  let ?off = "\<lambda>hs. Option.bind (Option.bind (find (\<lambda>h. lh_lane h = l) hs) lh_last_success)
      (\<lambda>tm. rfc3339 (ts_str tm))"
  have "lane_instant rfc3339 (foldl (witness_lane rfc3339 ep) ws hs) l = max (lane_instant rfc3339 ws l) (?off hs)"
    if "\<forall>h \<in> set hs. \<forall>tm. lh_last_success h = Some tm \<longrightarrow> rfc3339 (ts_str tm) \<noteq> None"
      "distinct (map lh_lane hs)" "witnesses_ok rfc3339 ws" for ep hs
    using that
  proof (induction hs arbitrary: ws)
    case (Cons h hs)
    have off: "find (\<lambda>g. lh_lane g = lh_lane h) hs = None"
      using Cons.prems(2) unfolding find_None_iff by (metis distinct.simps(2) image_eqI list.map(2) set_map)
    have "lane_instant rfc3339 (foldl (witness_lane rfc3339 ep) ws (h # hs)) l =
        max (lane_instant rfc3339 (witness_lane rfc3339 ep ws h) l) (?off hs)"
      using Cons.IH [of "witness_lane rfc3339 ep ws h"] Cons.prems by (simp add: witness_lane_ok)
    also have "\<dots> = max (lane_instant rfc3339 ws l) (?off (h # hs))"
      using Cons.prems off by (auto simp: witness_lane_instant)
    finally show ?case .
  qed simp
  with assms show ?thesis
    by (simp add: witness_lanes_def offered_instant_def doc_lane_health_def envelope_ok_def
        first_shape_None_iff)
qed

text \<open>The epoch moves with the instant or not at all.\<close>

lemma witness_lane_epoch:
  assumes "map_of ws l = Some w" "map_of (witness_lane rfc3339 ep ws h) l = Some w'"
  shows "lw_last_success w' = lw_last_success w \<and> lw_observed_in_epoch w' = lw_observed_in_epoch w \<or>
    l = lh_lane h \<and> lh_last_success h \<noteq> None \<and> lw_last_success w' = lh_last_success h \<and>
    lw_observed_in_epoch w' = ep"
  using assms by (auto simp: witness_lane_def Let_def split: if_splits option.splits)

text \<open>A refused publication leaves the served state as it was.\<close>

lemma refused_keeps_snapshot:
  assumes "agg_admit_document rfc3339 runs og d st = (Refused r, evs, st')"
  shows "st_producers st' = st_producers st \<and> st_watermarks st' = st_watermarks st \<and>
    (\<forall>k. retired_at st' k = retired_at st k)"
proof (cases rule: agg_admit_store [of rfc3339 runs og d st])
  case (active v)
  then have "v = Refused r" "admit_active rfc3339 og d st = (v, st')" using assms by simp_all
  then have "st' = record_refusal (key_of d)
      \<lparr>rf_refusal = r, rf_claimed_epoch = pi_epoch (pd_producer d), rf_origin = og\<rparr> st"
    using admit_active_refused by blast
  then show ?thesis by (simp add: frame_simps retired_at_def)
qed (use assms in \<open>simp_all add: frame_simps retired_at_def\<close>)

text \<open>The owner's diagnostic is kept against other adapters and against older runs.\<close>

definition owner_of :: "producer_key \<Rightarrow> string option" where
  "owner_of k = map_option fst (split_once CHR '':'' (pk_producer_id k))"

definition owner_refusal :: "store \<Rightarrow> producer_key \<Rightarrow> adapter_run_id \<Rightarrow> bool" where
  "owner_refusal st k r \<longleftrightarrow> (\<exists>rec x. map_of (st_refusals st) k = Some rec \<and> rf_origin rec = Some x \<and>
     Some (po_adapter x) = owner_of k \<and> r \<le> po_run x)"

lemma owner_refusal_kept:
  assumes "owner_refusal st k r"
  shows "owner_refusal (record_refusal k' inc st) k r"
proof (cases "k' = k")
  case True
  obtain rec x where rx: "map_of (st_refusals st) k = Some rec" "rf_origin rec = Some x"
      "Some (po_adapter x) = owner_of k" "r \<le> po_run x"
    using assms by (auto simp: owner_refusal_def)
  show ?thesis
  proof (cases "refusal_replaces k rec inc")
    case False
    with assms True rx(1) show ?thesis by (simp add: record_refusal_def)
  next
    case rep: True
    obtain y where y: "rf_origin inc = Some y" "Some (po_adapter y) = owner_of k" "po_run x \<le> po_run y"
      using rep rx(2,3)
      by (auto simp: refusal_replaces_def authority_rank_def owner_of_def Let_def
          split: option.splits if_splits)
    with True rx(1,4) rep show ?thesis
      by (auto simp: owner_refusal_def record_refusal_def intro: order_trans)
  qed
next
  case False
  with assms show ?thesis by (auto simp: owner_refusal_def record_refusal_def Let_def)
qed

text \<open>Lifecycle: only the owner of a producer id gets a document in, and only while its run is live.\<close>

definition runs_owned :: "store \<Rightarrow> bool" where
  "runs_owned st \<longleftrightarrow> (\<forall>k e. map_of (st_producers st) k = Some e \<longrightarrow>
     (\<exists>x. pe_run e = Some x \<and> owns x (pk_producer_id k)))"

lemma runs_owned_step:
  assumes ok: "store_ok rfc3339 (ps_store s)" and "runs_owned (ps_store s)"
  shows "runs_owned (ps_store (ps_step rfc3339 s ev))"
proof (cases ev)
  case (PsCommand c)
  show ?thesis
  proof (cases c)
    case (CmdPublish og d w)
    let ?st' = "snd (snd (agg_admit_document rfc3339 (ps_runs s) (Some og) d (ps_store s)))"
    have "runs_owned ?st'"
    proof (cases rule: agg_admit_store [of rfc3339 "ps_runs s" "Some og" d "ps_store s"])
      case (active v)
      show ?thesis
      proof (cases v)
        case (Refused r)
        then have "st_producers ?st' = st_producers (ps_store s)"
          using admit_active_refused active(1) by (metis record_refusal_frame(1))
        with assms(2) show ?thesis by (simp add: runs_owned_def)
      next
        case (Admitted a)
        have "owns og (pk_producer_id (key_of d))" using active(3) by simp
        with assms(2) show ?thesis
          using admit_active_admitted(4) [OF active(1) [unfolded Admitted]]
          by (auto simp: runs_owned_def)
      qed
    qed (use assms(2) in \<open>simp_all add: runs_owned_def frame_simps\<close>)
    then show ?thesis by (simp add: PsCommand CmdPublish actor_apply_def split_beta)
  next
    case (CmdRetire og p e w)
    obtain n af st' where r: "retire_active p (Some e) (ps_store s) = ((n, af), st')" by (metis surj_pair)
    have wf: "bt_wf (st_producers (ps_store s))" "bt_wf (st_refusals (ps_store s))"
        "bt_wf (st_tombstones (ps_store s))" "bt_wf (st_producer_tombstones (ps_store s))"
      using ok by (auto simp: store_ok_def)
    have "map_of (st_producers st') k = Some en \<Longrightarrow> map_of (st_producers (ps_store s)) k = Some en" for k en
      by (rule retire_active_explicit [OF r wf]) (auto split: option.splits if_splits)
    with assms(2) show ?thesis
      by (auto simp: PsCommand CmdRetire actor_apply_def retire_committed_def r split_beta runs_owned_def)
  qed
qed (use assms(2) in simp)

lemma ps_reachable_owned: "runs_owned (ps_store (ps_run rfc3339 ps_init es))"
proof -
  have "store_ok rfc3339 (ps_store s) \<Longrightarrow> runs_owned (ps_store s) \<Longrightarrow>
      runs_owned (ps_store (foldl (ps_step rfc3339) s es))" for s
    using ps.stable_run [of rfc3339 "\<lambda>s. runs_owned (ps_store s)" s es] runs_owned_step by blast
  from this [of ps_init] show ?thesis
    by (simp add: ps_run_def ps_init_def store_ok_default) (simp add: runs_owned_def store_default_def)
qed

fun run_events :: "ps_event list \<Rightarrow> run_event list" where
  "run_events [] = []"
| "run_events (PsRun e # es) = e # run_events es"
| "run_events (PsCommand c # es) = run_events es"

lemma ps_runs_run: "ps_runs (ps_run rfc3339 s es) = runs_after (ps_runs s) (run_events es)"
  unfolding ps_run_def runs_after_def by (induction es arbitrary: s rule: run_events.induct) simp_all

lemma stale_run_refused:
  assumes "\<not> is_active runs x" "owns x (pi_producer_id (pd_producer d))"
  shows "fst (agg_admit_document rfc3339 runs (Some x) d st) =
    Refused (StaleAdapterRun (po_adapter x) (po_run x) (run_active runs (po_adapter x)))"
proof -
  have "with_active runs x (\<lambda>u. admit_active rfc3339 (Some x) d st) = Inl (run_active runs (po_adapter x))"
    using assms(1) by (simp add: with_active_Inl_iff)
  with assms(2) show ?thesis by (simp add: agg_admit_document_def Let_def key_of_def)
qed

text \<open>A served snapshot.\<close>

lemma snapshot_now_Some:
  "snapshot_now runs st k = Some sn \<longleftrightarrow>
     (\<exists>e. map_of (st_producers st) k = Some e \<and> sn = project st k e (run_is_live (rn_live runs) e))"
  by (auto simp: snapshot_now_def with_liveness_def)

lemma snapshots_agree:
  assumes "bt_wf (st_producers st)"
  shows "sn \<in> set (snapshots_now runs st) \<longleftrightarrow> snapshot_now runs st (sn_key sn) = Some sn"
    and "sorted_wrt (<) (map sn_key (snapshots_now runs st))"
proof -
  show "sn \<in> set (snapshots_now runs st) \<longleftrightarrow> snapshot_now runs st (sn_key sn) = Some sn"
    using bt_entries [OF assms]
    by (force simp: snapshot_now_Some snapshots_now_def with_liveness_def project_def)
  have "map sn_key (snapshots_now runs st) = map fst (st_producers st)"
    by (simp add: snapshots_now_def with_liveness_def project_def split_beta comp_def)
  with assms show "sorted_wrt (<) (map sn_key (snapshots_now runs st))" by (simp add: bt_wf_def)
qed

lemma snapshot_live_iff:
  assumes "snapshot_now runs st k = Some sn"
  shows "sn_presence sn = Live \<longleftrightarrow> \<not> pd_stale (sn_document sn) \<and>
    (\<forall>e x. map_of (st_producers st) k = Some e \<longrightarrow> pe_run e = Some x \<longrightarrow> is_active runs x)"
  using assms
  by (auto simp: snapshot_now_Some project_def run_is_live_def is_active_def run_active_def
      split: option.splits if_splits)

end
