(* ===== verification/Hqp_Outputs.thy ===== *)
theory Hqp_Outputs
  imports Uhc_Prelude
begin

text \<open>
  The output-routing document of an HQPlayer instance and its typed commands
  (\<open>src/adapters/hqplayer/naa/outputs.rs\<close>): the data every surface reads, and the predicates that say
  when audio is known to have flowed, and when it is known to flow now.
\<close>

datatype hqp_output_availability = OA_Disabled | OA_Available | OA_Unavailable string u64

record hqp_relay_config_view =
  rc_enabled :: bool
  rc_adapter_name :: string
  rc_virtual_device_id :: string
  rc_bind :: "string option"
  rc_hqp_allow :: "string list"
  rc_discovery_interface :: "string option"
  rc_discovery_port :: u16
  rc_discovery_responder :: "string option"

record hqp_endpoint_ref =
  er_host :: string
  er_port :: u16
  er_device_id :: "string option"

record hqp_output_route =
  rte_route_id :: string
  rte_name :: string
  rte_host :: string
  rte_port :: u16
  rte_device_id :: "string option"
  rte_imported_from :: "string option"

record hqp_relay_session_view =
  ses_session_id :: u64
  ses_route_id :: string
  ses_route_generation :: u64
  ses_state :: string
  ses_peer :: string
  ses_connected_at :: u64
  ses_bytes_to_naa :: u64
  ses_bytes_from_naa :: u64
  ses_initialized :: bool
  ses_started :: bool
  ses_current_stream_audio_bytes :: u64

record hqp_discovered_endpoint =
  de_name :: string
  de_host :: string
  de_port :: u16
  de_protocol :: string

record hqp_discovery_observation =
  dobs_scanned_at :: u64
  dobs_interface :: string
  dobs_duration_ms :: u64
  dobs_provenance :: string
  dobs_endpoints :: "hqp_discovered_endpoint list"

record hqp_dac_device =
  dac_id :: string
  dac_description :: string

record hqp_dac_observation =
  dco_host :: string
  dco_port :: u16
  dco_observed_at :: u64
  dco_session_id :: u64
  dco_provenance :: string
  dco_devices :: "hqp_dac_device list"

record hqp_native_control_view =
  ncv_transport_state :: "string option"
  ncv_track :: "string option"
  ncv_position :: "string option"
  ncv_position_restored :: "bool option"

record hqp_output_error =
  oe_code :: string
  oe_message :: string
  oe_at :: u64

datatype hqp_output_phase =
    Ph_Admitted | Ph_Checking | Ph_Stopping | Ph_Committed | Ph_Connecting | Ph_Initialized
  | Ph_Resuming | Ph_Forwarding | Ph_Complete | Ph_Cancelled | Ph_Rejected | Ph_Failed
  | Ph_Partial | Ph_Indeterminate

datatype hqp_output_outcome =
    Oc_Complete | Oc_Cancelled | Oc_Rejected | Oc_Failed | Oc_Partial | Oc_Indeterminate

fun outcome_phase :: "hqp_output_outcome \<Rightarrow> hqp_output_phase" where
  "outcome_phase Oc_Complete = Ph_Complete"
| "outcome_phase Oc_Cancelled = Ph_Cancelled"
| "outcome_phase Oc_Rejected = Ph_Rejected"
| "outcome_phase Oc_Failed = Ph_Failed"
| "outcome_phase Oc_Partial = Ph_Partial"
| "outcome_phase Oc_Indeterminate = Ph_Indeterminate"

record hqp_output_evidence =
  ev_native_state_before :: "string option"
  ev_native_stop_verified :: "bool option"
  ev_session_id :: "u64 option"
  ev_initialized :: bool
  ev_started :: bool
  ev_current_stream_audio_bytes :: u64
  ev_native_state_after :: "string option"
  ev_position_restored :: "bool option"

record hqp_import_conflict =
  ic_route_id :: string
  ic_reason :: string

record hqp_import_preview =
  ip_preview_id :: string
  ip_routes :: "hqp_output_route list"
  ip_conflicts :: "hqp_import_conflict list"
  ip_ignored_selected_route_id :: "string option"

record hqp_setup_attribute =
  sa_name :: string
  sa_value :: string

record hqp_setup_change =
  sc_attribute :: string
  sc_from :: "string option"
  sc_to :: string

record hqp_setup_preview =
  sp_preview_id :: string
  sp_applicable :: bool
  sp_blocker :: "string option"
  sp_current :: "hqp_setup_attribute list"
  sp_changes :: "hqp_setup_change list"
  sp_preserved_controls :: nat
  sp_relay_option :: "string option"
  sp_backup_sha256 :: string
  sp_proposed_sha256 :: string

record hqp_setup_transaction =
  stx_step :: string
  stx_uploaded :: bool
  stx_daemon_response :: "string option"
  stx_runtime_matches :: "bool option"
  stx_disk_matches :: "bool option"
  stx_readback_matches :: "bool option"
  stx_readback_sha256 :: "string option"
  stx_settled_after_ms :: "u64 option"
  stx_rollback_available :: bool

datatype hqp_output_result =
    Res_Discovery hqp_discovery_observation
  | Res_ImportPreview hqp_import_preview
  | Res_ImportApplied "hqp_output_route list" "hqp_import_conflict list" "string option"
  | Res_SetupPreview hqp_setup_preview
  | Res_Setup hqp_setup_transaction

record hqp_output_operation =
  oo_operation_id :: string
  oo_correlation_id :: "string option"
  oo_request_fingerprint :: string
  oo_zone_id :: string
  oo_action :: string
  oo_route_id :: "string option"
  oo_phase :: hqp_output_phase
  oo_outcome :: "hqp_output_outcome option"
  oo_source_epoch :: u64
  oo_output_revision_at_admission :: u64
  oo_route_generation :: "u64 option"
  oo_admitted_at :: u64
  oo_updated_at :: u64
  oo_detail :: "string option"
  oo_result :: "hqp_output_result option"
  oo_evidence :: hqp_output_evidence

definition oo_is_terminal :: "hqp_output_operation \<Rightarrow> bool" where
  "oo_is_terminal self \<longleftrightarrow> oo_outcome self \<noteq> None"

definition historical_audio_evidence :: "hqp_output_operation \<Rightarrow> bool" where
  "historical_audio_evidence self \<longleftrightarrow>
     ev_started (oo_evidence self) \<and> ev_current_stream_audio_bytes (oo_evidence self) > 0 \<and>
     ev_session_id (oo_evidence self) \<noteq> None \<and>
     oo_phase self \<in> {Ph_Forwarding, Ph_Complete, Ph_Partial}"

record hqp_output_projection =
  op_zone_id :: string
  op_instance :: string
  op_source_epoch :: u64
  op_aggregate_revision :: u64
  op_output_revision :: u64
  op_route_generation :: u64
  op_availability :: hqp_output_availability
  op_relay :: hqp_relay_config_view
  op_routes :: "hqp_output_route list"
  op_selected_route_id :: "string option"
  op_desired_destination :: "hqp_endpoint_ref option"
  op_observed_forwarding_destination :: "hqp_endpoint_ref option"
  op_session :: "hqp_relay_session_view option"
  op_discovery :: "hqp_discovery_observation option"
  op_dac_observations :: "hqp_dac_observation list"
  op_native :: hqp_native_control_view
  op_current_operation_id :: "string option"
  op_operations :: "hqp_output_operation list"
  op_last_error :: "hqp_output_error option"
  op_observed_at :: u64

definition find_operation :: "hqp_output_projection \<Rightarrow> string \<Rightarrow> hqp_output_operation option" where
  "find_operation self i = find (\<lambda>x. oo_operation_id x = i) (op_operations self)"

definition session_confirms_audio :: "hqp_output_projection \<Rightarrow> bool" where
  "session_confirms_audio self \<longleftrightarrow>
     op_availability self = OA_Available \<and>
     (case op_session self of
        None \<Rightarrow> False
      | Some s \<Rightarrow>
          Some (ses_route_id s) = op_selected_route_id self \<and>
          ses_route_generation s = op_route_generation self \<and> ses_initialized s \<and> ses_started s \<and>
          ses_current_stream_audio_bytes s > 0 \<and> ses_state s = ''forwarding'')"

definition operation_confirms_current_audio :: "hqp_output_projection \<Rightarrow> string \<Rightarrow> bool" where
  "operation_confirms_current_audio self i =
     (case find_operation self i of
        None \<Rightarrow> False
      | Some x \<Rightarrow>
          (case op_session self of
             None \<Rightarrow> False
           | Some s \<Rightarrow>
               historical_audio_evidence x \<and>
               oo_route_generation x = Some (op_route_generation self) \<and>
               ev_session_id (oo_evidence x) = Some (ses_session_id s) \<and>
               oo_route_id x = op_selected_route_id self \<and> session_confirms_audio self))"

section \<open>Commands\<close>

record hqp_relay_settings_change =
  rcf_enabled :: bool
  rcf_bind :: "string option"
  rcf_hqp_allow :: "string list"
  rcf_discovery_interface :: "string option"
  rcf_discovery_port :: "u16 option"
  rcf_adapter_name :: "string option"

datatype hqp_output_action =
    Act_Discover
  | Act_RouteAdd string string "u16 option" "string option"
  | Act_RouteUpdate string string string "u16 option" "string option"
  | Act_RouteRemove string
  | Act_Select string
  | Act_Stop
  | Act_ImportPreview string
  | Act_ImportApply string string
  | Act_RelayConfigure hqp_relay_settings_change
  | Act_SetupPreview
  | Act_SetupApply string
  | Act_SetupReadback
  | Act_SetupRollback

definition action_name :: "hqp_output_action \<Rightarrow> string" where
  "action_name a =
     (case a of
        Act_Discover \<Rightarrow> ''discover''
      | Act_RouteAdd _ _ _ _ \<Rightarrow> ''route_add''
      | Act_RouteUpdate _ _ _ _ _ \<Rightarrow> ''route_update''
      | Act_RouteRemove _ \<Rightarrow> ''route_remove''
      | Act_Select _ \<Rightarrow> ''select''
      | Act_Stop \<Rightarrow> ''stop''
      | Act_ImportPreview _ \<Rightarrow> ''import_preview''
      | Act_ImportApply _ _ \<Rightarrow> ''import_apply''
      | Act_RelayConfigure _ \<Rightarrow> ''relay_configure''
      | Act_SetupPreview \<Rightarrow> ''setup_preview''
      | Act_SetupApply _ \<Rightarrow> ''setup_apply''
      | Act_SetupReadback \<Rightarrow> ''setup_readback''
      | Act_SetupRollback \<Rightarrow> ''setup_rollback'')"

fun requires_expectations :: "hqp_output_action \<Rightarrow> bool" where
  "requires_expectations Act_Stop = False"
| "requires_expectations Act_Discover = False"
| "requires_expectations (Act_ImportPreview _) = False"
| "requires_expectations Act_SetupPreview = False"
| "requires_expectations Act_SetupReadback = False"
| "requires_expectations _ = True"

fun is_mutation :: "hqp_output_action \<Rightarrow> bool" where
  "is_mutation Act_Discover = False"
| "is_mutation (Act_ImportPreview _) = False"
| "is_mutation Act_SetupPreview = False"
| "is_mutation Act_SetupReadback = False"
| "is_mutation _ = True"

fun action_route_id :: "hqp_output_action \<Rightarrow> string option" where
  "action_route_id (Act_RouteUpdate r _ _ _ _) = Some r"
| "action_route_id (Act_RouteRemove r) = Some r"
| "action_route_id (Act_Select r) = Some r"
| "action_route_id _ = None"

record hqp_output_command_request =
  ocr_zone_id :: string
  ocr_correlation_id :: "string option"
  ocr_expected_source_epoch :: "u64 option"
  ocr_expected_output_revision :: "u64 option"
  ocr_action :: hqp_output_action

section \<open>Facts\<close>

text \<open>Every mutation but the emergency \<open>stop\<close> needs the caller's expectations, and nothing else does.\<close>

lemma requires_expectations_iff: "requires_expectations a \<longleftrightarrow> is_mutation a \<and> a \<noteq> Act_Stop"
  by (cases a) simp_all

lemma action_route_mutates: "action_route_id a \<noteq> None \<Longrightarrow> is_mutation a \<and> requires_expectations a"
  by (cases a) simp_all

lemma outcome_phase_inj: "outcome_phase a = outcome_phase b \<Longrightarrow> a = b"
  by (cases a; cases b) simp_all

text \<open>A present-tense claim is backed by the live session of the selected route and generation.\<close>

lemma confirms_current_audio_session:
  assumes "operation_confirms_current_audio p i"
  obtains x s where "find_operation p i = Some x" "op_session p = Some s" "historical_audio_evidence x"
    "oo_route_id x = Some (ses_route_id s)" "op_selected_route_id p = Some (ses_route_id s)"
    "oo_route_generation x = Some (ses_route_generation s)"
    "ses_route_generation s = op_route_generation p" "ev_session_id (oo_evidence x) = Some (ses_session_id s)"
    "op_availability p = OA_Available" "session_confirms_audio p"
  using assms
  by (auto simp: operation_confirms_current_audio_def session_confirms_audio_def
      split: option.splits)

text \<open>Bumping the generation withdraws every claim made under the old one.\<close>

lemma generation_bump_withdraws:
  assumes "operation_confirms_current_audio p i" "g \<noteq> op_route_generation p"
  shows "\<not> operation_confirms_current_audio (p\<lparr>op_route_generation := g\<rparr>) i \<and>
    \<not> session_confirms_audio (p\<lparr>op_route_generation := g\<rparr>)"
proof -
  from assms(1) obtain x s where "find_operation p i = Some x" "op_session p = Some s"
      "oo_route_generation x = Some (ses_route_generation s)"
      "ses_route_generation s = op_route_generation p"
    by (rule confirms_current_audio_session)
  with assms(2) show ?thesis
    by (auto simp: operation_confirms_current_audio_def find_operation_def session_confirms_audio_def)
qed

lemma unavailable_no_audio:
  "op_availability p \<noteq> OA_Available \<or> op_session p = None \<Longrightarrow>
     \<not> session_confirms_audio p \<and> \<not> operation_confirms_current_audio p i"
  by (auto simp: operation_confirms_current_audio_def session_confirms_audio_def split: option.splits)

end
