(* ===== verification/Bus_Runtime.thy ===== *)
theory Bus_Runtime
  imports Bus_Events Hqp_Outputs
begin

text \<open>
  The reliable in-process runtime (\<open>src/bus/runtime.rs\<close>): the endpoint registry, the command ledger
  and its status machine, submission, native dispatch and completion, the deadlines, and the
  confirmation of a command by a committed projection.

  A mutex-guarded section is one function on the state it guards. The channels, the clock and the
  status watch are library code: a clock reading and a channel's answer are arguments, and the watch
  of a record is an abstract cell of type \<open>'w\<close> with the operations \<open>watch_ops\<close>. An \<open>Instant\<close> is a
  natural number. A newly allocated channel or flag is named by its position in the registry.
\<close>

section \<open>Commands\<close>

datatype command_id = CommandId (cmd_no: u64)

datatype command_lane = Interactive | Reconfiguration

record command_deadlines =
  cd_dispatch_by :: nat
  cd_confirm_by :: nat

datatype hqp_runtime_command =
    Hrc_Pipeline string string
  | Hrc_LegacyPipelineIndex string u32
  | Hrc_RefreshAdvanced
  | Hrc_RefreshProfiles
  | Hrc_LoadProfile string
  | Hrc_Output hqp_output_command_request

datatype runtime_command = Control bus_command | Hqplayer hqp_runtime_command

text \<open>The derived \<open>==\<close>: the numbers inside compare as floats, so a command that holds a NaN is not
  equal to itself.\<close>

fun bus_command_nan_free :: "bus_command \<Rightarrow> bool" where
  "bus_command_nan_free (VolumeAbsolute v x) = (\<not> is_nan v)"
| "bus_command_nan_free (VolumeRelative v x) = (\<not> is_nan v)"
| "bus_command_nan_free (Seek v) = (\<not> is_nan v)"
| "bus_command_nan_free (SeekRelative v) = (\<not> is_nan v)"
| "bus_command_nan_free _ = True"

fun runtime_command_nan_free :: "runtime_command \<Rightarrow> bool" where
  "runtime_command_nan_free (Control c) = bus_command_nan_free c"
| "runtime_command_nan_free (Hqplayer c) = True"

definition runtime_command_eq :: "runtime_command \<Rightarrow> runtime_command \<Rightarrow> bool" where
  "runtime_command_eq a b \<longleftrightarrow> a = b \<and> runtime_command_nan_free a"

record command_request =
  rq_target :: prefixed_zone_id
  rq_command :: runtime_command
  rq_correlation_id :: "string option"
  rq_lane :: command_lane
  rq_deadlines :: command_deadlines

datatype command_status =
    Queued
  | Dispatched
  | AwaitingProjection
  | Indeterminate
  | Confirmed u64
  | Failed string
  | NotDispatched string

fun status_is_final :: "command_status \<Rightarrow> bool" where
  "status_is_final (Confirmed r) = True"
| "status_is_final (Failed d) = True"
| "status_is_final (NotDispatched d) = True"
| "status_is_final _ = False"

text \<open>\<open>wait_for_observable_result\<close> returns at once for these and goes on waiting otherwise.\<close>

definition is_observable_result :: "command_status \<Rightarrow> bool" where
  "is_observable_result s \<longleftrightarrow> status_is_final s \<or> s = Indeterminate"

datatype native_result = NativeFailed string | NativeAccepted

datatype endpoint_registration_error = EmptyKey | AlreadyRegistered string

datatype command_submission_error = CorrelationConflict string

section \<open>The endpoint registry\<close>

datatype endpoint_key = EK_Provider string | EK_Zone string

definition endpoint_key_provider :: "string \<Rightarrow> endpoint_registration_error + endpoint_key" where
  "endpoint_key_provider provider =
     (if is_blank provider then Inl EmptyKey else Inr (EK_Provider provider))"

definition endpoint_key_zone :: "prefixed_zone_id \<Rightarrow> endpoint_key" where
  "endpoint_key_zone z = EK_Zone (zid_str z)"

fun endpoint_key_text :: "endpoint_key \<Rightarrow> string" where
  "endpoint_key_text (EK_Provider p) = p"
| "endpoint_key_text (EK_Zone p) = p"

record endpoint_slot =
  es_generation :: u64
  es_sender :: nat
  es_reconfiguring :: nat

record command_endpoint =
  ce_key :: endpoint_key
  ce_generation :: u64
  ce_receiver :: nat
  ce_reconfiguring :: nat

text \<open>\<open>rg_flags\<close> is the store of the shared \<open>reconfiguring\<close> flags; a slot, its endpoint and every guard
  taken on it hold the same address. The channels are named by the same addresses.\<close>

record endpoint_registry =
  rg_endpoints :: "(endpoint_key \<times> endpoint_slot) list"
  rg_generation :: u64
  rg_flags :: "bool list"

definition registry_new :: endpoint_registry where
  "registry_new = \<lparr>rg_endpoints = [], rg_generation = 1, rg_flags = []\<rparr>"

text \<open>A zero capacity fails the assertion: no result.\<close>

type_synonym registration = "(endpoint_registration_error + command_endpoint) option"

definition register :: "endpoint_key \<Rightarrow> nat \<Rightarrow> endpoint_registry \<Rightarrow> registration \<times> endpoint_registry" where
  "register key capacity rg =
     (if capacity = 0 then (None, rg)
      else if map_of (rg_endpoints rg) key \<noteq> None
      then (Some (Inl (AlreadyRegistered (endpoint_key_text key))), rg)
      else
        let fresh = length (rg_flags rg);
            generation = rg_generation rg;
            slot = \<lparr>es_generation = generation, es_sender = fresh, es_reconfiguring = fresh\<rparr>
        in (Some (Inr \<lparr>ce_key = key, ce_generation = generation, ce_receiver = fresh,
              ce_reconfiguring = fresh\<rparr>),
            rg\<lparr>rg_endpoints := hm_insert key slot (rg_endpoints rg),
               rg_generation := generation + 1, rg_flags := rg_flags rg @ [False]\<rparr>))"

definition register_provider ::
  "string \<Rightarrow> nat \<Rightarrow> endpoint_registry \<Rightarrow> registration \<times> endpoint_registry" where
  "register_provider provider capacity rg =
     (case endpoint_key_provider provider of
        Inl e \<Rightarrow> (Some (Inl e), rg)
      | Inr key \<Rightarrow> register key capacity rg)"

definition register_zone ::
  "prefixed_zone_id \<Rightarrow> nat \<Rightarrow> endpoint_registry \<Rightarrow> registration \<times> endpoint_registry" where
  "register_zone z capacity rg = register (endpoint_key_zone z) capacity rg"

definition route :: "endpoint_registry \<Rightarrow> prefixed_zone_id \<Rightarrow> endpoint_slot option" where
  "route rg target =
     (case map_of (rg_endpoints rg) (EK_Zone (zid_str target)) of
        Some slot \<Rightarrow> Some slot
      | None \<Rightarrow> map_of (rg_endpoints rg) (EK_Provider (zid_source target)))"

definition has_endpoint :: "endpoint_registry \<Rightarrow> prefixed_zone_id \<Rightarrow> bool" where
  "has_endpoint rg target \<longleftrightarrow> route rg target \<noteq> None"

definition endpoint_drop :: "command_endpoint \<Rightarrow> endpoint_registry \<Rightarrow> endpoint_registry" where
  "endpoint_drop ep rg =
     (case map_of (rg_endpoints rg) (ce_key ep) of
        None \<Rightarrow> rg
      | Some slot \<Rightarrow>
          (if es_generation slot = ce_generation ep
           then rg\<lparr>rg_endpoints := hm_remove (ce_key ep) (rg_endpoints rg)\<rparr> else rg))"

definition try_begin_reconfiguration ::
  "command_endpoint \<Rightarrow> endpoint_registry \<Rightarrow> (command_status + nat) \<times> endpoint_registry" where
  "try_begin_reconfiguration ep rg =
     (if rg_flags rg ! ce_reconfiguring ep
      then (Inl (NotDispatched ''target is already reconfiguring''), rg)
      else (Inr (ce_reconfiguring ep), rg\<lparr>rg_flags := (rg_flags rg)[ce_reconfiguring ep := True]\<rparr>))"

definition reconfiguration_guard_drop :: "nat \<Rightarrow> endpoint_registry \<Rightarrow> endpoint_registry" where
  "reconfiguration_guard_drop guard rg = rg\<lparr>rg_flags := (rg_flags rg)[guard := False]\<rparr>"

section \<open>The command ledger\<close>

record 'w watch_ops =
  wo_channel :: "command_status \<Rightarrow> 'w"
  wo_send :: "command_status \<Rightarrow> 'w \<Rightarrow> 'w"
  wo_subscribe :: "'w \<Rightarrow> 'w"
  wo_borrow :: "'w \<Rightarrow> command_status"

record 'w command_record =
  cr_target :: prefixed_zone_id
  cr_command :: runtime_command
  cr_status :: command_status
  cr_updates :: 'w

record 'w runtime_data =
  rd_next_id :: u64
  rd_commands :: "(command_id \<times> 'w command_record) list"
  rd_correlations :: "(string \<times> command_id) list"

definition runtime_data_new :: "'w runtime_data" where
  "runtime_data_new = \<lparr>rd_next_id = 1, rd_commands = [], rd_correlations = []\<rparr>"

datatype projection_commit =
    Committed u64
  | StaleIgnored u64 u64
  | GapDetected u64 u64

datatype runtime_notification =
    ProjectionCommitted u64 string "command_id option"
  | CommandStateChanged command_id command_status
  | ProjectionGapDetected string u64 u64

definition insert_record ::
  "'w watch_ops \<Rightarrow> command_id \<Rightarrow> command_request \<Rightarrow> 'w runtime_data \<Rightarrow> 'w runtime_data" where
  "insert_record wo i rq rd =
     (let rd1 = rd\<lparr>rd_commands := hm_insert i
            \<lparr>cr_target = rq_target rq, cr_command = rq_command rq, cr_status = Queued,
             cr_updates = wo_channel wo Queued\<rparr> (rd_commands rd)\<rparr>
      in case rq_correlation_id rq of
           None \<Rightarrow> rd1
         | Some c \<Rightarrow> rd1\<lparr>rd_correlations := hm_insert c i (rd_correlations rd1)\<rparr>)"

text \<open>The watcher handed out is a subscription on the record's cell, which the cell knows of.\<close>

definition ticket_for_correlation ::
  "'w watch_ops \<Rightarrow> string \<Rightarrow> command_request \<Rightarrow> 'w runtime_data \<Rightarrow>
     (command_submission_error + command_id option) \<times> 'w runtime_data" where
  "ticket_for_correlation wo correlation rq rd =
     (case map_of (rd_correlations rd) correlation of
        None \<Rightarrow> (Inr None, rd)
      | Some i \<Rightarrow>
          (case map_of (rd_commands rd) i of
             None \<Rightarrow> (Inr None, rd)
           | Some rec \<Rightarrow>
               (if cr_target rec \<noteq> rq_target rq \<or> \<not> runtime_command_eq (cr_command rec) (rq_command rq)
                then (Inl (CorrelationConflict correlation), rd)
                else (Inr (Some i),
                  rd\<lparr>rd_commands := hm_insert i (rec\<lparr>cr_updates := wo_subscribe wo (cr_updates rec)\<rparr>)
                    (rd_commands rd)\<rparr>))))"

definition status_of :: "'w runtime_data \<Rightarrow> command_id \<Rightarrow> command_status option" where
  "status_of rd i = map_option cr_status (map_of (rd_commands rd) i)"

definition put_status ::
  "'w watch_ops \<Rightarrow> command_id \<Rightarrow> 'w command_record \<Rightarrow> command_status \<Rightarrow> 'w runtime_data \<Rightarrow>
     'w runtime_data" where
  "put_status wo i rec next rd =
     rd\<lparr>rd_commands := hm_insert i
       (rec\<lparr>cr_status := next, cr_updates := wo_send wo next (cr_updates rec)\<rparr>) (rd_commands rd)\<rparr>"

definition set_status ::
  "'w watch_ops \<Rightarrow> command_id \<Rightarrow> command_status \<Rightarrow> 'w runtime_data \<Rightarrow>
     runtime_notification list \<times> 'w runtime_data" where
  "set_status wo i next rd =
     (case map_of (rd_commands rd) i of
        None \<Rightarrow> ([], rd)
      | Some rec \<Rightarrow>
          (if cr_status rec = next then ([], rd)
           else ([CommandStateChanged i next], put_status wo i rec next rd)))"

definition rt_transition ::
  "'w watch_ops \<Rightarrow> command_id \<Rightarrow> (command_status \<Rightarrow> command_status option) \<Rightarrow> 'w runtime_data \<Rightarrow>
     bool \<times> runtime_notification list \<times> 'w runtime_data" where
  "rt_transition wo i f rd =
     (case map_of (rd_commands rd) i of
        None \<Rightarrow> (False, [], rd)
      | Some rec \<Rightarrow>
          (case f (cr_status rec) of
             None \<Rightarrow> (False, [], rd)
           | Some next \<Rightarrow> (True, [CommandStateChanged i next], put_status wo i rec next rd)))"

definition not_dispatched ::
  "'w watch_ops \<Rightarrow> command_id \<Rightarrow> string \<Rightarrow> 'w runtime_data \<Rightarrow>
     runtime_notification list \<times> 'w runtime_data" where
  "not_dispatched wo i detail rd =
     snd (rt_transition wo i (\<lambda>s. if s = Queued then Some (NotDispatched detail) else None) rd)"

text \<open>The two timers, when they fire.\<close>

definition dispatch_expired ::
  "'w watch_ops \<Rightarrow> command_id \<Rightarrow> 'w runtime_data \<Rightarrow> runtime_notification list \<times> 'w runtime_data" where
  "dispatch_expired wo i rd = not_dispatched wo i ''dispatch deadline elapsed before native I/O'' rd"

definition confirmation_timeout ::
  "'w watch_ops \<Rightarrow> command_id \<Rightarrow> 'w runtime_data \<Rightarrow> runtime_notification list \<times> 'w runtime_data" where
  "confirmation_timeout wo i rd =
     snd (rt_transition wo i (\<lambda>s. if s = Dispatched \<or> s = AwaitingProjection then Some Indeterminate
       else None) rd)"

section \<open>Dispatch and completion\<close>

record endpoint_work =
  ew_request :: command_request
  ew_id :: command_id

definition begin_dispatch ::
  "'w watch_ops \<Rightarrow> nat \<Rightarrow> endpoint_work \<Rightarrow> 'w runtime_data \<Rightarrow>
     (command_status + endpoint_work) \<times> runtime_notification list \<times> 'w runtime_data" where
  "begin_dispatch wo now w rd =
     (if now \<ge> cd_dispatch_by (rq_deadlines (ew_request w))
      then let (ns, rd') = not_dispatched wo (ew_id w) ''dispatch deadline elapsed before native I/O'' rd
           in (Inl (NotDispatched ''dispatch deadline elapsed before native I/O''), ns, rd')
      else
        let (won, ns, rd') =
              rt_transition wo (ew_id w) (\<lambda>s. if s = Queued then Some Dispatched else None) rd
        in if \<not> won
           then (Inl (case status_of rd' (ew_id w) of Some s \<Rightarrow> s
                   | None \<Rightarrow> NotDispatched ''operation no longer accepts dispatch''), ns, rd')
           else (Inr w, ns, rd'))"

definition refuse ::
  "'w watch_ops \<Rightarrow> endpoint_work \<Rightarrow> string \<Rightarrow> 'w runtime_data \<Rightarrow>
     runtime_notification list \<times> 'w runtime_data" where
  "refuse wo w detail rd = not_dispatched wo (ew_id w) detail rd"

definition complete_native ::
  "'w watch_ops \<Rightarrow> command_id \<Rightarrow> native_result \<Rightarrow> 'w runtime_data \<Rightarrow>
     runtime_notification list \<times> 'w runtime_data" where
  "complete_native wo i res rd =
     (case res of
        NativeFailed detail \<Rightarrow> set_status wo i (Failed detail) rd
      | NativeAccepted \<Rightarrow>
          snd (rt_transition wo i (\<lambda>s. case s of
             Dispatched \<Rightarrow> Some AwaitingProjection
           | Indeterminate \<Rightarrow> Some Indeterminate
           | _ \<Rightarrow> None) rd))"

section \<open>Submission\<close>

text \<open>
  \<open>submit\<close> in its three parts. The first is the lookup under the ledger's lock, the second the
  allocation and insertion under the lock again; other tasks run in between. The third routes the
  command and takes the channel's answer to the reservation.
\<close>

datatype reserve_answer = Reserved | EndpointClosed | ReserveTimedOut

definition submit_lookup ::
  "'w watch_ops \<Rightarrow> command_request \<Rightarrow> 'w runtime_data \<Rightarrow>
     (command_submission_error + command_id option) \<times> 'w runtime_data" where
  "submit_lookup wo rq rd =
     (case rq_correlation_id rq of
        None \<Rightarrow> (Inr None, rd)
      | Some c \<Rightarrow> ticket_for_correlation wo c rq rd)"

definition submit_insert ::
  "'w watch_ops \<Rightarrow> command_request \<Rightarrow> 'w runtime_data \<Rightarrow> command_id \<times> 'w runtime_data" where
  "submit_insert wo rq rd =
     (let i = CommandId (rd_next_id rd)
      in (i, insert_record wo i rq (rd\<lparr>rd_next_id := rd_next_id rd + 1\<rparr>)))"

definition submit_admit ::
  "'w watch_ops \<Rightarrow> endpoint_registry \<Rightarrow> reserve_answer \<Rightarrow> command_id \<Rightarrow> command_request \<Rightarrow>
     'w runtime_data \<Rightarrow> endpoint_work option \<times> runtime_notification list \<times> 'w runtime_data" where
  "submit_admit wo rg answer i rq rd =
     (case route rg (rq_target rq) of
        None \<Rightarrow> (None,
          not_dispatched wo i ''no reliable endpoint is registered for the target provider'' rd)
      | Some slot \<Rightarrow>
          (if rg_flags rg ! es_reconfiguring slot
           then (None, not_dispatched wo i
             ''target is reconfiguring; retry after its confirmed projection commits'' rd)
           else case answer of
             Reserved \<Rightarrow> (Some \<lparr>ew_request = rq, ew_id = i\<rparr>, [], rd)
           | EndpointClosed \<Rightarrow> (None,
               not_dispatched wo i ''target endpoint stopped before queue admission'' rd)
           | ReserveTimedOut \<Rightarrow> (None,
               not_dispatched wo i ''dispatch deadline elapsed before endpoint queue admission'' rd)))"

text \<open>The whole call, run without interruption.\<close>

definition submit ::
  "'w watch_ops \<Rightarrow> endpoint_registry \<Rightarrow> reserve_answer \<Rightarrow> command_request \<Rightarrow> 'w runtime_data \<Rightarrow>
     (command_submission_error + command_id) \<times> endpoint_work option \<times> runtime_notification list \<times>
     'w runtime_data" where
  "submit wo rg answer rq rd =
     (case submit_lookup wo rq rd of
        (Inl e, rd1) \<Rightarrow> (Inl e, None, [], rd1)
      | (Inr (Some i), rd1) \<Rightarrow> (Inr i, None, [], rd1)
      | (Inr None, rd1) \<Rightarrow>
          (let (i, rd2) = submit_insert wo rq rd1;
               (work, ns, rd3) = submit_admit wo rg answer i rq rd2
           in (Inr i, work, ns, rd3)))"

section \<open>Projections\<close>

record projection_source =
  src_adapter :: string
  src_instance :: "string option"
  src_epoch :: u64

definition source_identity :: "projection_source \<Rightarrow> string" where
  "source_identity s =
     (case src_instance s of
        Some i \<Rightarrow> src_adapter s @ ''/'' @ i
      | None \<Rightarrow> src_adapter s)"

definition source_matches_target :: "projection_source \<Rightarrow> prefixed_zone_id \<Rightarrow> bool" where
  "source_matches_target s target =
     (if src_adapter s \<noteq> zid_source target then False
      else case src_instance s of
        Some i \<Rightarrow> i = raw_id target
      | None \<Rightarrow> zid_source target \<noteq> ''hqplayer'')"

definition record_projection_outcome ::
  "'w watch_ops \<Rightarrow> projection_source \<Rightarrow> command_id option \<Rightarrow> projection_commit \<Rightarrow> 'w runtime_data \<Rightarrow>
     runtime_notification list \<times> 'w runtime_data" where
  "record_projection_outcome wo s caused_by commit rd =
     (case commit of
        Committed rv \<Rightarrow>
          (let (ns, rd') =
             (case caused_by of
                None \<Rightarrow> ([], rd)
              | Some i \<Rightarrow>
                  (case map_of (rd_commands rd) i of
                     None \<Rightarrow> ([], rd)
                   | Some rec \<Rightarrow>
                       (if \<not> source_matches_target s (cr_target rec) then ([], rd)
                        else if cr_status rec \<in> {AwaitingProjection, Dispatched, Indeterminate}
                        then ([CommandStateChanged i (Confirmed rv)],
                              put_status wo i rec (Confirmed rv) rd)
                        else ([], rd))))
           in (ProjectionCommitted rv (source_identity s) caused_by # ns, rd'))
      | GapDetected expected received \<Rightarrow>
          ([ProjectionGapDetected (source_identity s) expected received], rd)
      | StaleIgnored e q \<Rightarrow> ([], rd))"

end
