(* ===== verification/Runtime_Facts.thy ===== *)
theory Runtime_Facts
  imports Bus_Runtime
begin

text \<open>
  The reliable runtime under interleaving. Every task step of the code is one event: the lookup of a
  submission, its insertion, its admission to an endpoint queue, the endpoint's dispatch, refusal and
  completion, the two timers, and the outcome of a projection commit. The values that the code moves
  (a submission past its lookup, queued work, a permit) are kept in lists and taken out when they are
  used, as the ownership rules of the language have it. An event whose value is not there does
  nothing.
\<close>

section \<open>Single operations on the ledger\<close>

lemma status_of_put_status:
  "map_of (rd_commands rd) i = Some rec \<Longrightarrow>
     status_of (put_status wo i rec s rd) j = (if j = i then Some s else status_of rd j)"
  by (simp add: status_of_def put_status_def)

lemma put_status_frame [frame_simps]:
  "rd_next_id (put_status wo i rec s rd) = rd_next_id rd"
  "rd_correlations (put_status wo i rec s rd) = rd_correlations rd"
  by (simp_all add: put_status_def)

text \<open>\<open>rt_transition\<close> is the one way most operations change a status.\<close>

lemma rt_transition_status:
  "status_of (snd (snd (rt_transition wo i f rd))) j =
     (if j = i then (case status_of rd i of None \<Rightarrow> None | Some s \<Rightarrow>
        (case f s of None \<Rightarrow> Some s | Some s' \<Rightarrow> Some s')) else status_of rd j)"
  by (auto simp: rt_transition_def put_status_def status_of_def split: option.splits)

lemma rt_transition_won:
  "fst (rt_transition wo i f rd) \<longleftrightarrow> (\<exists>s. status_of rd i = Some s \<and> f s \<noteq> None)"
  by (auto simp: rt_transition_def status_of_def split: option.splits)

lemma set_status_status:
  "status_of (snd (set_status wo i s rd)) j =
     (if j = i \<and> status_of rd i \<noteq> None then Some s else status_of rd j)"
  by (auto simp: set_status_def put_status_def status_of_def split: option.splits)

text \<open>What an operation may do to the command table besides: nothing is removed, and the target and
  the command of a record stay.\<close>

definition same_requests :: "'w runtime_data \<Rightarrow> 'w runtime_data \<Rightarrow> bool" where
  "same_requests a b \<longleftrightarrow> (\<forall>i. map_option (\<lambda>r. (cr_target r, cr_command r)) (map_of (rd_commands b) i) =
     map_option (\<lambda>r. (cr_target r, cr_command r)) (map_of (rd_commands a) i)) \<and>
     rd_next_id b = rd_next_id a \<and> rd_correlations b = rd_correlations a \<and>
     (hm_wf (rd_commands a) \<longrightarrow> hm_wf (rd_commands b))"

lemma same_requests_refl [simp]: "same_requests a a"
  by (simp add: same_requests_def)

lemma same_requests_put_status:
  "map_of (rd_commands rd) i = Some rec \<Longrightarrow> same_requests rd (put_status wo i rec s rd)"
  by (auto simp: same_requests_def put_status_def)

lemma same_requests_transition: "same_requests rd (snd (snd (rt_transition wo i f rd)))"
  by (auto simp: rt_transition_def same_requests_put_status split: option.splits)

lemma same_requests_set_status: "same_requests rd (snd (set_status wo i s rd))"
  by (auto simp: set_status_def same_requests_put_status split: option.splits)

section \<open>The system\<close>

record 'w runtime_system =
  rs_data :: "'w runtime_data"
  rs_pending :: "command_request list"
  rs_inserted :: "(command_id \<times> command_request) list"
  rs_works :: "endpoint_work list"
  rs_permits :: "endpoint_work list"
  rs_dispatched :: "command_id list"

definition runtime_system_new :: "'w runtime_system" where
  "runtime_system_new = \<lparr>rs_data = runtime_data_new, rs_pending = [], rs_inserted = [], rs_works = [],
     rs_permits = [], rs_dispatched = []\<rparr>"

datatype rt_event =
    RtSubmit command_request
  | RtInsert command_request
  | RtAdmit endpoint_registry reserve_answer "command_id \<times> command_request"
  | RtBegin nat endpoint_work
  | RtRefuse endpoint_work string
  | RtExpire command_id
  | RtTimeout command_id
  | RtComplete endpoint_work native_result
  | RtOutcome projection_source "command_id option" projection_commit

fun rt_step :: "'w watch_ops \<Rightarrow> 'w runtime_system \<Rightarrow> rt_event \<Rightarrow> 'w runtime_system" where
  "rt_step wo s (RtSubmit rq) =
     (let (r, rd) = submit_lookup wo rq (rs_data s)
      in s\<lparr>rs_data := rd,
           rs_pending := (if r = Inr None then rq # rs_pending s else rs_pending s)\<rparr>)"
| "rt_step wo s (RtInsert rq) =
     (if rq \<notin> set (rs_pending s) then s
      else let (i, rd) = submit_insert wo rq (rs_data s)
           in s\<lparr>rs_data := rd, rs_pending := remove1 rq (rs_pending s),
                rs_inserted := (i, rq) # rs_inserted s\<rparr>)"
| "rt_step wo s (RtAdmit rg answer ir) =
     (if ir \<notin> set (rs_inserted s) then s
      else let (w, ns, rd) = submit_admit wo rg answer (fst ir) (snd ir) (rs_data s)
           in s\<lparr>rs_data := rd, rs_inserted := remove1 ir (rs_inserted s),
                rs_works := (case w of None \<Rightarrow> rs_works s | Some x \<Rightarrow> x # rs_works s)\<rparr>)"
| "rt_step wo s (RtBegin now w) =
     (if w \<notin> set (rs_works s) then s
      else case begin_dispatch wo now w (rs_data s) of
        (Inl st, ns, rd) \<Rightarrow> s\<lparr>rs_data := rd, rs_works := remove1 w (rs_works s)\<rparr>
      | (Inr p, ns, rd) \<Rightarrow>
          s\<lparr>rs_data := rd, rs_works := remove1 w (rs_works s), rs_permits := p # rs_permits s,
            rs_dispatched := ew_id p # rs_dispatched s\<rparr>)"
| "rt_step wo s (RtRefuse w detail) =
     (if w \<notin> set (rs_works s) then s
      else s\<lparr>rs_data := snd (refuse wo w detail (rs_data s)), rs_works := remove1 w (rs_works s)\<rparr>)"
| "rt_step wo s (RtExpire i) = s\<lparr>rs_data := snd (dispatch_expired wo i (rs_data s))\<rparr>"
| "rt_step wo s (RtTimeout i) = s\<lparr>rs_data := snd (confirmation_timeout wo i (rs_data s))\<rparr>"
| "rt_step wo s (RtComplete p res) =
     (if p \<notin> set (rs_permits s) then s
      else s\<lparr>rs_data := snd (complete_native wo (ew_id p) res (rs_data s)),
             rs_permits := remove1 p (rs_permits s)\<rparr>)"
| "rt_step wo s (RtOutcome src cb commit) =
     s\<lparr>rs_data := snd (record_projection_outcome wo src cb commit (rs_data s))\<rparr>"

definition rt_run :: "'w watch_ops \<Rightarrow> 'w runtime_system \<Rightarrow> rt_event list \<Rightarrow> 'w runtime_system" where
  "rt_run wo = foldl (rt_step wo)"

section \<open>What a step may do to a status\<close>

text \<open>The status machine: what an operation may turn a status into.\<close>

inductive status_step :: "command_status \<Rightarrow> command_status \<Rightarrow> bool" where
  dispatch: "status_step Queued Dispatched"
| not_dispatched: "status_step Queued (NotDispatched d)"
| accepted: "status_step Dispatched AwaitingProjection"
| timeout: "s = Dispatched \<or> s = AwaitingProjection \<Longrightarrow> status_step s Indeterminate"
| confirmed: "s = Dispatched \<or> s = AwaitingProjection \<or> s = Indeterminate \<Longrightarrow> status_step s (Confirmed r)"
| failed: "s = Dispatched \<or> s = Indeterminate \<or> s = Confirmed r \<Longrightarrow> status_step s (Failed d)"

inductive_cases status_step_Queued: "status_step s Queued"
inductive_cases status_step_from_NotDispatched: "status_step (NotDispatched d) s"
inductive_cases status_step_from_Failed: "status_step (Failed d) s"
inductive_cases status_step_from_Confirmed: "status_step (Confirmed r) s"
inductive_cases status_step_to_Confirmed: "status_step s (Confirmed r)"
inductive_cases status_step_to_Dispatched: "status_step s Dispatched"
inductive_cases status_step_to_NotDispatched: "status_step s (NotDispatched d)"

text \<open>
  The invariant. Ids in flight are distinct; work not yet dispatched is queued or was refused;
  what holds a permit was dispatched and not completed.
\<close>

definition open_status :: "command_status \<Rightarrow> bool" where
  "open_status s \<longleftrightarrow> s = Queued \<or> (\<exists>d. s = NotDispatched d)"

definition permit_status :: "command_status \<Rightarrow> bool" where
  "permit_status s \<longleftrightarrow> s = Dispatched \<or> s = Indeterminate \<or> (\<exists>r. s = Confirmed r)"

definition in_flight :: "'w runtime_system \<Rightarrow> command_id list" where
  "in_flight s = map fst (rs_inserted s) @ map ew_id (rs_works s)"

definition ledger_ok :: "'w runtime_data \<Rightarrow> bool" where
  "ledger_ok rd \<longleftrightarrow> hm_wf (rd_commands rd) \<and>
     (\<forall>i. map_of (rd_commands rd) i \<noteq> None \<longrightarrow> cmd_no i < rd_next_id rd) \<and>
     (\<forall>c i. map_of (rd_correlations rd) c = Some i \<longrightarrow> map_of (rd_commands rd) i \<noteq> None)"

definition rt_ok :: "'w runtime_system \<Rightarrow> bool" where
  "rt_ok s \<longleftrightarrow> ledger_ok (rs_data s) \<and> distinct (in_flight s) \<and>
     (\<forall>i \<in> set (in_flight s). \<exists>st. status_of (rs_data s) i = Some st \<and> open_status st) \<and>
     distinct (map ew_id (rs_permits s)) \<and>
     (\<forall>p \<in> set (rs_permits s). \<exists>st. status_of (rs_data s) (ew_id p) = Some st \<and> permit_status st) \<and>
     distinct (rs_dispatched s) \<and>
     (\<forall>i \<in> set (rs_dispatched s). \<exists>st. status_of (rs_data s) i = Some st \<and> \<not> open_status st)"

lemma rt_ok_new: "rt_ok runtime_system_new"
  by (simp add: rt_ok_def runtime_system_new_def runtime_data_new_def ledger_ok_def in_flight_def)

lemma status_of_None_iff: "status_of rd i = None \<longleftrightarrow> map_of (rd_commands rd) i = None"
  by (simp add: status_of_def)

lemma same_requests_None:
  assumes "same_requests a b"
  shows "map_of (rd_commands b) i = None \<longleftrightarrow> map_of (rd_commands a) i = None"
proof -
  have "map_option (\<lambda>r. (cr_target r, cr_command r)) (map_of (rd_commands b) i) =
      map_option (\<lambda>r. (cr_target r, cr_command r)) (map_of (rd_commands a) i)"
    using assms by (simp add: same_requests_def)
  then show ?thesis
    by (cases "map_of (rd_commands b) i"; cases "map_of (rd_commands a) i") simp_all
qed

lemma ledger_ok_same:
  assumes "same_requests a b" "ledger_ok a"
  shows "ledger_ok b"
proof -
  have "rd_next_id b = rd_next_id a" "rd_correlations b = rd_correlations a"
      "hm_wf (rd_commands a) \<Longrightarrow> hm_wf (rd_commands b)"
    using assms(1) by (auto simp: same_requests_def)
  with assms(2) show ?thesis by (simp add: ledger_ok_def same_requests_None [OF assms(1)])
qed

text \<open>A ledger change that keeps the requests and moves each status by the machine, or not at all.\<close>

definition ledger_step :: "'w runtime_data \<Rightarrow> 'w runtime_data \<Rightarrow> bool" where
  "ledger_step a b \<longleftrightarrow> same_requests a b \<and>
     (\<forall>i st st'. status_of a i = Some st \<longrightarrow> status_of b i = Some st' \<longrightarrow> st = st' \<or> status_step st st')"

lemma ledger_step_refl [simp]: "ledger_step a a"
  by (auto simp: ledger_step_def)

lemma ledger_step_transition:
  assumes "\<And>st st'. status_of rd i = Some st \<Longrightarrow> f st = Some st' \<Longrightarrow> st = st' \<or> status_step st st'"
  shows "ledger_step rd (snd (snd (rt_transition wo i f rd)))"
  using assms by (auto simp: ledger_step_def same_requests_transition rt_transition_status
      split: option.splits if_splits)

lemma ledger_step_not_dispatched: "ledger_step rd (snd (not_dispatched wo i d rd))"
  unfolding not_dispatched_def
  by (rule ledger_step_transition) (auto intro: status_step.intros split: if_splits)

lemma ledger_step_timeout: "ledger_step rd (snd (confirmation_timeout wo i rd))"
  unfolding confirmation_timeout_def
  by (rule ledger_step_transition) (auto intro: status_step.intros split: if_splits)

lemma ledger_step_put_status:
  assumes "map_of (rd_commands rd) i = Some rec" "status_step (cr_status rec) st"
  shows "ledger_step rd (put_status wo i rec st rd)"
proof -
  have "status_of rd i = Some (cr_status rec)" using assms(1) by (simp add: status_of_def)
  with assms show ?thesis
    by (auto simp: ledger_step_def same_requests_put_status status_of_put_status split: if_splits)
qed

text \<open>What a committed projection does to the ledger, in one equation.\<close>

lemma outcome_data:
  "snd (record_projection_outcome wo s cb c rd) =
     (case (c, cb) of
        (Committed rv, Some i) \<Rightarrow>
          (case map_of (rd_commands rd) i of
             None \<Rightarrow> rd
           | Some rec \<Rightarrow>
               if source_matches_target s (cr_target rec) \<and>
                  cr_status rec \<in> {AwaitingProjection, Dispatched, Indeterminate}
               then put_status wo i rec (Confirmed rv) rd else rd)
      | _ \<Rightarrow> rd)"
  by (cases c; cases cb) (auto simp: record_projection_outcome_def split: option.splits)

lemma ledger_step_outcome: "ledger_step rd (snd (record_projection_outcome wo s cb c rd))"
  unfolding outcome_data
  by (auto split: projection_commit.split option.split intro!: ledger_step_put_status
      intro: status_step.intros)

lemma ledger_step_complete:
  assumes "status_of rd i = Some st" "permit_status st"
  shows "ledger_step rd (snd (complete_native wo i res rd))"
proof (cases res)
  case (NativeFailed d)
  with assms show ?thesis
    by (auto simp: complete_native_def ledger_step_def same_requests_set_status set_status_status
        permit_status_def intro: status_step.intros split: if_splits)
next
  case NativeAccepted
  show ?thesis
    unfolding complete_native_def NativeAccepted native_result.case
    by (rule ledger_step_transition)
      (auto intro: status_step.intros split: command_status.splits)
qed

section \<open>The invariant over runs\<close>

text \<open>A ledger change that leaves open statuses open and permitted ones permitted.\<close>

definition ledger_calm :: "'w runtime_data \<Rightarrow> 'w runtime_data \<Rightarrow> bool" where
  "ledger_calm a b \<longleftrightarrow> ledger_step a b \<and>
     (\<forall>i st st'. status_of a i = Some st \<longrightarrow> status_of b i = Some st' \<longrightarrow>
        (open_status st \<longrightarrow> open_status st') \<and> (permit_status st \<longrightarrow> permit_status st'))"

lemma ledger_calm_refl [simp]: "ledger_calm a a"
  by (auto simp: ledger_calm_def)

lemma status_step_not_open: "status_step st st' \<Longrightarrow> \<not> open_status st \<Longrightarrow> \<not> open_status st'"
  by (auto simp: open_status_def elim: status_step.cases)

definition calm_move :: "command_status \<Rightarrow> command_status \<Rightarrow> bool" where
  "calm_move st st' \<longleftrightarrow> (st = st' \<or> status_step st st') \<and> (open_status st \<longrightarrow> open_status st') \<and>
     (permit_status st \<longrightarrow> permit_status st')"

lemma ledger_calm_iff:
  "ledger_calm a b \<longleftrightarrow> same_requests a b \<and>
     (\<forall>i st st'. status_of a i = Some st \<longrightarrow> status_of b i = Some st' \<longrightarrow> calm_move st st')"
  by (auto simp: ledger_calm_def ledger_step_def calm_move_def)

lemma calm_move_refl [simp]: "calm_move st st"
  by (simp add: calm_move_def)

lemma calm_moves [simp]:
  "calm_move Queued (NotDispatched d)" "calm_move Dispatched Indeterminate"
  "calm_move AwaitingProjection Indeterminate" "calm_move Dispatched (Confirmed r)"
  "calm_move AwaitingProjection (Confirmed r)" "calm_move Indeterminate (Confirmed r)"
  by (auto simp: calm_move_def open_status_def permit_status_def intro: status_step.intros)

lemma ledger_calm_transition:
  assumes "\<And>st st'. f st = Some st' \<Longrightarrow> calm_move st st'"
  shows "ledger_calm rd (snd (snd (rt_transition wo i f rd)))"
  unfolding ledger_calm_iff
  by (auto simp: same_requests_transition rt_transition_status assms split: option.splits if_splits)

lemma ledger_calm_put_status:
  assumes "map_of (rd_commands rd) i = Some rec" "calm_move (cr_status rec) st"
  shows "ledger_calm rd (put_status wo i rec st rd)"
proof -
  have "status_of rd i = Some (cr_status rec)" using assms(1) by (simp add: status_of_def)
  with assms show ?thesis
    by (auto simp: ledger_calm_iff same_requests_put_status status_of_put_status split: if_splits)
qed

lemma ledger_calm_not_dispatched: "ledger_calm rd (snd (not_dispatched wo i d rd))"
  unfolding not_dispatched_def by (rule ledger_calm_transition) (auto split: if_splits)

lemma ledger_calm_timeout: "ledger_calm rd (snd (confirmation_timeout wo i rd))"
  unfolding confirmation_timeout_def by (rule ledger_calm_transition) (auto split: if_splits)

lemma ledger_calm_outcome: "ledger_calm rd (snd (record_projection_outcome wo s cb c rd))"
  unfolding outcome_data
  by (auto split: projection_commit.split option.split intro!: ledger_calm_put_status)

lemma ledger_calm_lookup: "ledger_calm rd (snd (submit_lookup wo rq rd))"
proof -
  have "status_of (snd (submit_lookup wo rq rd)) i = status_of rd i" for i
    by (auto simp: submit_lookup_def ticket_for_correlation_def status_of_def split: option.splits)
  moreover have "same_requests rd (snd (submit_lookup wo rq rd))"
    by (auto simp: submit_lookup_def ticket_for_correlation_def same_requests_def split: option.splits)
  ultimately show ?thesis by (auto simp: ledger_calm_def ledger_step_def)
qed

lemma ledger_calm_admit: "ledger_calm rd (snd (snd (submit_admit wo rg an i rq rd)))"
  by (auto simp: submit_admit_def ledger_calm_not_dispatched split: option.split reserve_answer.split)

lemma status_same:
  assumes "same_requests a b" "status_of a i = Some st"
  obtains st' where "status_of b i = Some st'"
  using assms same_requests_None [OF assms(1), of i] by (auto simp: status_of_def)

lemma rt_ok_calm:
  assumes "rt_ok s" "ledger_calm (rs_data s) rd"
  shows "rt_ok (s\<lparr>rs_data := rd\<rparr>)"
proof -
  have same: "same_requests (rs_data s) rd" using assms(2) by (simp add: ledger_calm_def ledger_step_def)
  have keep: "\<exists>st'. status_of rd i = Some st' \<and> (open_status st \<longrightarrow> open_status st') \<and>
      (permit_status st \<longrightarrow> permit_status st') \<and> (\<not> open_status st \<longrightarrow> \<not> open_status st')"
    if st: "status_of (rs_data s) i = Some st" for i st
  proof -
    obtain st' where st': "status_of rd i = Some st'" using status_same [OF same st] by blast
    then have "calm_move st st'" using assms(2) st by (simp add: ledger_calm_iff)
    then have "open_status st \<longrightarrow> open_status st'" "permit_status st \<longrightarrow> permit_status st'"
        "\<not> open_status st \<longrightarrow> \<not> open_status st'"
      using status_step_not_open [of st st'] by (auto simp: calm_move_def)
    with st' show ?thesis by blast
  qed
  have "ledger_ok rd" using assms(1) ledger_ok_same [OF same] by (simp add: rt_ok_def)
  moreover have "\<exists>st. status_of rd i = Some st \<and> open_status st"
    if "\<exists>st. status_of (rs_data s) i = Some st \<and> open_status st" for i using keep that by blast
  moreover have "\<exists>st. status_of rd i = Some st \<and> permit_status st"
    if "\<exists>st. status_of (rs_data s) i = Some st \<and> permit_status st" for i using keep that by blast
  moreover have "\<exists>st. status_of rd i = Some st \<and> \<not> open_status st"
    if "\<exists>st. status_of (rs_data s) i = Some st \<and> \<not> open_status st" for i using keep that by blast
  ultimately show ?thesis
    using assms(1) by (simp add: rt_ok_def in_flight_def)
qed

text \<open>The lists may shrink, and an inserted id may move to the works.\<close>

lemma rt_ok_lists:
  assumes "rt_ok s" "rs_data t = rs_data s" "rs_permits t = rs_permits s" "rs_dispatched t = rs_dispatched s"
    and "distinct (in_flight t)" "set (in_flight t) \<subseteq> set (in_flight s)"
  shows "rt_ok t"
  using assms unfolding rt_ok_def by (simp add: subset_iff)

lemma distinct_remove1_map: "distinct (map f xs) \<Longrightarrow> distinct (map f (remove1 x xs))"
  by (metis distinct_map distinct_remove1 inj_on_subset set_remove1_subset)

lemma image_remove1:
  assumes "distinct (map f xs)" "x \<in> set xs"
  shows "f ` set (remove1 x xs) = f ` set xs - {f x}"
proof -
  have d: "distinct xs" and i: "inj_on f (set xs)" using assms(1) by (auto simp: distinct_map)
  have "f ` (set xs - {x}) = f ` set xs - f ` {x}"
    by (rule inj_on_image_set_diff [OF i]) (use assms(2) in auto)
  then show ?thesis by (simp add: set_remove1_eq [OF d])
qed

lemma in_flight_parts:
  "distinct (in_flight s) \<longleftrightarrow> distinct (map fst (rs_inserted s)) \<and> distinct (map ew_id (rs_works s)) \<and>
     fst ` set (rs_inserted s) \<inter> ew_id ` set (rs_works s) = {}"
  "set (in_flight s) = fst ` set (rs_inserted s) \<union> ew_id ` set (rs_works s)"
  by (simp_all add: in_flight_def)

lemma in_flight_admit:
  assumes "distinct (in_flight s)" "ir \<in> set (rs_inserted s)" "w = None \<or> w = Some x" "ew_id x = fst ir"
    and t: "t = s\<lparr>rs_inserted := remove1 ir (rs_inserted s),
       rs_works := (case w of None \<Rightarrow> rs_works s | Some y \<Rightarrow> y # rs_works s)\<rparr>"
  shows "distinct (in_flight t) \<and> set (in_flight t) \<subseteq> set (in_flight s)"
proof -
  have d: "distinct (map fst (rs_inserted s))" "distinct (map ew_id (rs_works s))"
      "fst ` set (rs_inserted s) \<inter> ew_id ` set (rs_works s) = {}"
    using assms(1) unfolding in_flight_parts by blast+
  have i: "fst ir \<in> fst ` set (rs_inserted s)" using assms(2) by (rule imageI)
  have ins: "rs_inserted t = remove1 ir (rs_inserted s)" by (simp add: t)
  have m: "fst ` set (rs_inserted t) = fst ` set (rs_inserted s) - {fst ir}"
    unfolding ins by (rule image_remove1 [OF d(1) assms(2)])
  have dm: "distinct (map fst (rs_inserted t))" unfolding ins by (rule distinct_remove1_map [OF d(1)])
  from assms(3) show ?thesis
  proof
    assume "w = None"
    then have w: "rs_works t = rs_works s" by (simp add: t)
    show ?thesis unfolding in_flight_parts m w
      by (intro conjI dm d(2)) (use d(3) in auto)
  next
    assume "w = Some x"
    then have w: "rs_works t = x # rs_works s" by (simp add: t)
    have "ew_id x \<notin> ew_id ` set (rs_works s)" using i d(3) assms(4) by auto
    then have "distinct (map ew_id (rs_works t))" unfolding w using d(2) by simp
    moreover have "ew_id ` set (rs_works t) = insert (fst ir) (ew_id ` set (rs_works s))"
      unfolding w using assms(4) by simp
    ultimately show ?thesis unfolding in_flight_parts m
      by (intro conjI dm) (use d(3) i in auto)
  qed
qed

lemma in_flight_remove_work:
  assumes "distinct (in_flight s)" "w \<in> set (rs_works s)"
  shows "distinct (in_flight (s\<lparr>rs_works := remove1 w (rs_works s)\<rparr>)) \<and>
    set (in_flight (s\<lparr>rs_works := remove1 w (rs_works s)\<rparr>)) = set (in_flight s) - {ew_id w}"
proof -
  let ?t = "s\<lparr>rs_works := remove1 w (rs_works s)\<rparr>"
  have d: "distinct (map fst (rs_inserted s))" "distinct (map ew_id (rs_works s))"
      "fst ` set (rs_inserted s) \<inter> ew_id ` set (rs_works s) = {}"
    using assms(1) unfolding in_flight_parts by blast+
  have i: "ew_id w \<in> ew_id ` set (rs_works s)" using assms(2) by (rule imageI)
  have m: "ew_id ` set (rs_works ?t) = ew_id ` set (rs_works s) - {ew_id w}"
    using image_remove1 [OF d(2) assms(2)] by simp
  have ins: "rs_inserted ?t = rs_inserted s" by simp
  have "distinct (map ew_id (rs_works ?t))" using distinct_remove1_map [OF d(2)] by simp
  then show ?thesis unfolding in_flight_parts m ins
    by (intro conjI d(1)) (use d(3) i in auto)
qed

lemma rt_ok_fields:
  assumes "rt_ok s"
  shows "ledger_ok (rs_data s)" "distinct (in_flight s)" "distinct (map ew_id (rs_permits s))"
    "distinct (rs_dispatched s)"
    "i \<in> set (in_flight s) \<Longrightarrow> \<exists>st. status_of (rs_data s) i = Some st \<and> open_status st"
    "p \<in> set (rs_permits s) \<Longrightarrow> \<exists>st. status_of (rs_data s) (ew_id p) = Some st \<and> permit_status st"
    "i \<in> set (rs_dispatched s) \<Longrightarrow> \<exists>st. status_of (rs_data s) i = Some st \<and> \<not> open_status st"
  using assms by (auto simp: rt_ok_def)

text \<open>Winning the dispatch.\<close>

lemma begin_dispatch_cases:
  obtains (lost) st ns rd where "begin_dispatch wo now w d = (Inl st, ns, rd)" "ledger_calm d rd"
  | (won) ns rd rec where "begin_dispatch wo now w d = (Inr w, ns, rd)"
      "map_of (rd_commands d) (ew_id w) = Some rec" "cr_status rec = Queued"
      "rd = put_status wo (ew_id w) rec Dispatched d"
proof (cases "now \<ge> cd_dispatch_by (rq_deadlines (ew_request w))")
  case True
  obtain ns rd where nd: "not_dispatched wo (ew_id w) ''dispatch deadline elapsed before native I/O'' d = (ns, rd)"
    by (rule prod.exhaust)
  have "ledger_calm d rd"
    using ledger_calm_not_dispatched [of d wo "ew_id w" "''dispatch deadline elapsed before native I/O''"] nd
    by simp
  with True nd show thesis by (intro lost) (simp_all add: begin_dispatch_def)
next
  case False
  show thesis
  proof (cases "status_of d (ew_id w) = Some Queued")
    case True
    then obtain rec where rec: "map_of (rd_commands d) (ew_id w) = Some rec" "cr_status rec = Queued"
      by (auto simp: status_of_def)
    with False show thesis
      by (intro won [of "[CommandStateChanged (ew_id w) Dispatched]" _ rec])
        (simp_all add: begin_dispatch_def rt_transition_def)
  next
    case not_q: False
    then have "rt_transition wo (ew_id w) (\<lambda>s. if s = Queued then Some Dispatched else None) d = (False, [], d)"
      by (auto simp: rt_transition_def status_of_def split: option.splits)
    with False have "begin_dispatch wo now w d =
        (Inl (case status_of d (ew_id w) of Some s \<Rightarrow> s
           | None \<Rightarrow> NotDispatched ''operation no longer accepts dispatch''), [], d)"
      by (simp add: begin_dispatch_def)
    then show thesis by (rule lost) (rule ledger_calm_refl)
  qed
qed

section \<open>Preservation\<close>

lemma rt_ok_insert:
  assumes ok: "rt_ok s" and max: "rd_next_id (rs_data s) \<noteq> - 1" and ins: "submit_insert wo rq (rs_data s) = (i, rd)"
  shows "rt_ok (s\<lparr>rs_data := rd, rs_pending := ps, rs_inserted := (i, rq) # rs_inserted s\<rparr>)"
proof -
  let ?d = "rs_data s"
  note F = rt_ok_fields [OF ok]
  have i: "i = CommandId (rd_next_id ?d)"
    and rd: "rd_next_id rd = rd_next_id ?d + 1"
      "rd_commands rd = hm_insert i \<lparr>cr_target = rq_target rq, cr_command = rq_command rq,
        cr_status = Queued, cr_updates = wo_channel wo Queued\<rparr> (rd_commands ?d)"
      "rd_correlations rd = (case rq_correlation_id rq of None \<Rightarrow> rd_correlations ?d
        | Some c \<Rightarrow> hm_insert c i (rd_correlations ?d))"
    using ins by (auto simp: submit_insert_def insert_record_def Let_def split: option.splits)
  have L: "hm_wf (rd_commands ?d)" "\<And>j. map_of (rd_commands ?d) j \<noteq> None \<Longrightarrow> cmd_no j < rd_next_id ?d"
      "\<And>c j. map_of (rd_correlations ?d) c = Some j \<Longrightarrow> map_of (rd_commands ?d) j \<noteq> None"
    using F(1) by (auto simp: ledger_ok_def)
  have fresh: "map_of (rd_commands ?d) i = None" using L(2) [of i] i by fastforce
  have st: "status_of rd j = (if j = i then Some Queued else status_of ?d j)" for j
    by (simp add: status_of_def rd(2))
  have gt: "rd_next_id ?d < rd_next_id rd" unfolding rd(1) by (rule wrap_succ_gt [OF max])
  have "ledger_ok rd"
    unfolding ledger_ok_def
  proof (intro conjI allI impI)
    show "hm_wf (rd_commands rd)" using L(1) by (simp add: rd(2))
    show "cmd_no j < rd_next_id rd" if "map_of (rd_commands rd) j \<noteq> None" for j
      using that L(2) [of j] gt i by (cases "j = i") (auto simp: rd(2))
    show "map_of (rd_commands rd) j \<noteq> None" if "map_of (rd_correlations rd) c = Some j" for c j
      using that L(3) [of c j] by (auto simp: rd(2,3) split: option.splits if_splits)
  qed
  moreover have "i \<notin> set (in_flight s)" "i \<notin> ew_id ` set (rs_permits s)" "i \<notin> set (rs_dispatched s)"
    using F(5) [of i] F(6) F(7) [of i] fresh by (auto simp: status_of_def) force
  ultimately show ?thesis
    using F(2-4) F(5-7) unfolding rt_ok_def in_flight_def by (auto simp: st open_status_def)
qed

lemma rt_ok_won:
  assumes ok: "rt_ok s" and w: "w \<in> set (rs_works s)"
    and rec: "map_of (rd_commands (rs_data s)) (ew_id w) = Some rec" "cr_status rec = Queued"
  shows "rt_ok (s\<lparr>rs_data := put_status wo (ew_id w) rec Dispatched (rs_data s),
    rs_works := remove1 w (rs_works s), rs_permits := w # rs_permits s,
    rs_dispatched := ew_id w # rs_dispatched s\<rparr>)"
proof -
  let ?t = "s\<lparr>rs_works := remove1 w (rs_works s)\<rparr>"
  note F = rt_ok_fields [OF ok]
  have q: "status_of (rs_data s) (ew_id w) = Some Queued" using rec by (simp add: status_of_def)
  have "ew_id w \<notin> ew_id ` set (rs_permits s)"
    using F(6) q by (fastforce simp: permit_status_def)
  moreover have "ew_id w \<notin> set (rs_dispatched s)"
    using F(7) [of "ew_id w"] q by (auto simp: open_status_def)
  moreover have "ledger_ok (put_status wo (ew_id w) rec Dispatched (rs_data s))"
    by (rule ledger_ok_same [OF same_requests_put_status [OF rec(1)] F(1)])
  moreover have "distinct (in_flight ?t)" "set (in_flight ?t) = set (in_flight s) - {ew_id w}"
    using in_flight_remove_work [OF F(2) w] by auto
  moreover have "in_flight (s\<lparr>rs_data := rd, rs_works := remove1 w (rs_works s), rs_permits := x,
      rs_dispatched := y\<rparr>) = in_flight ?t" for rd x y by (simp add: in_flight_def)
  moreover have "\<exists>st. status_of (rs_data s) i = Some st \<and> open_status st" if "i \<in> set (in_flight s)" for i
    using F(5) that by blast
  ultimately show ?thesis
    using F(3,4,6,7)
    by (auto simp: rt_ok_def status_of_put_status [OF rec(1)] open_status_def permit_status_def)
qed

lemma rt_ok_complete:
  assumes ok: "rt_ok s" and p: "p \<in> set (rs_permits s)"
  shows "rt_ok (s\<lparr>rs_data := snd (complete_native wo (ew_id p) res (rs_data s)),
    rs_permits := remove1 p (rs_permits s)\<rparr>)"
proof -
  let ?i = "ew_id p"
  let ?rd = "snd (complete_native wo ?i res (rs_data s))"
  note F = rt_ok_fields [OF ok]
  obtain st where st: "status_of (rs_data s) ?i = Some st" "permit_status st" using F(6) [OF p] by blast
  have step: "ledger_step (rs_data s) ?rd" by (rule ledger_step_complete [OF st])
  then have same: "same_requests (rs_data s) ?rd" by (simp add: ledger_step_def)
  have other: "status_of ?rd j = status_of (rs_data s) j" if "j \<noteq> ?i" for j
    using that by (cases res) (simp_all add: complete_native_def set_status_status rt_transition_status)
  have noto: "\<not> open_status st" using st(2) by (auto simp: open_status_def permit_status_def)
  obtain st' where st': "status_of ?rd ?i = Some st'" using status_same [OF same st(1)] by blast
  then have "st = st' \<or> status_step st st'" using step st(1) by (simp add: ledger_step_def)
  then have noto': "\<not> open_status st'" using noto status_step_not_open [of st st'] by auto
  have nf: "?i \<notin> set (in_flight s)" using F(5) [of ?i] st(1) noto by auto
  have np: "?i \<notin> ew_id ` set (remove1 p (rs_permits s))"
    using image_remove1 [OF F(3) p] by simp
  have "ledger_ok ?rd" by (rule ledger_ok_same [OF same F(1)])
  moreover have "distinct (map ew_id (remove1 p (rs_permits s)))" by (rule distinct_remove1_map [OF F(3)])
  moreover have "\<exists>st. status_of ?rd i = Some st \<and> open_status st" if "i \<in> set (in_flight s)" for i
    using F(5) [OF that] other [of i] nf that by (cases "i = ?i") auto
  moreover have "\<exists>st. status_of ?rd (ew_id q) = Some st \<and> permit_status st"
    if "q \<in> set (remove1 p (rs_permits s))" for q
  proof -
    have "ew_id q \<noteq> ?i" using np that by (metis imageI)
    moreover have "q \<in> set (rs_permits s)" using that notin_set_remove1 by metis
    ultimately show ?thesis using F(6) [of q] other by auto
  qed
  moreover have "\<exists>st. status_of ?rd i = Some st \<and> \<not> open_status st" if "i \<in> set (rs_dispatched s)" for i
    using F(7) [OF that] other [of i] st' noto' by (cases "i = ?i") auto
  ultimately show ?thesis
    using F(2,4) by (simp add: rt_ok_def in_flight_def)
qed

lemma works_data_swap:
  "(s :: 'w runtime_system)\<lparr>rs_works := ws, rs_data := d\<rparr> = s\<lparr>rs_data := d, rs_works := ws\<rparr>"
  by simp

lemma rt_ok_step:
  assumes ok: "rt_ok s" and max: "rd_next_id (rs_data s) \<noteq> - 1"
  shows "rt_ok (rt_step wo s e)"
proof (cases e)
  case (RtSubmit rq)
  have "rt_ok (s\<lparr>rs_data := snd (submit_lookup wo rq (rs_data s))\<rparr>)"
    by (rule rt_ok_calm [OF ok ledger_calm_lookup])
  then show ?thesis
    by (simp add: RtSubmit split_beta Let_def rt_ok_def in_flight_def)
next
  case (RtInsert rq)
  then show ?thesis
    using ok rt_ok_insert [OF ok max]
    by (cases "submit_insert wo rq (rs_data s)") (simp add: Let_def)
next
  case (RtAdmit rg an ir)
  show ?thesis
  proof (cases "ir \<in> set (rs_inserted s)")
    case True
    obtain w ns rd where adm: "submit_admit wo rg an (fst ir) (snd ir) (rs_data s) = (w, ns, rd)"
      by (metis prod_cases3)
    have w: "w = None \<or> w = Some \<lparr>ew_request = snd ir, ew_id = fst ir\<rparr>"
      using adm by (auto simp: submit_admit_def split: option.splits if_splits reserve_answer.splits)
    let ?t = "s\<lparr>rs_inserted := remove1 ir (rs_inserted s),
        rs_works := (case w of None \<Rightarrow> rs_works s | Some x \<Rightarrow> x # rs_works s)\<rparr>"
    have "distinct (in_flight ?t) \<and> set (in_flight ?t) \<subseteq> set (in_flight s)"
      by (rule in_flight_admit [OF rt_ok_fields(2) [OF ok] True w]) simp_all
    then have "rt_ok ?t" using rt_ok_lists [OF ok, of ?t] by simp
    moreover have "ledger_calm (rs_data ?t) rd"
      using ledger_calm_admit [of "rs_data s" wo rg an "fst ir" "snd ir"] adm by simp
    ultimately have "rt_ok (?t\<lparr>rs_data := rd\<rparr>)" by (rule rt_ok_calm)
    moreover have "?t\<lparr>rs_data := rd\<rparr> = s\<lparr>rs_data := rd, rs_inserted := remove1 ir (rs_inserted s),
        rs_works := (case w of None \<Rightarrow> rs_works s | Some x \<Rightarrow> x # rs_works s)\<rparr>"
      by simp
    ultimately show ?thesis using True adm by (simp add: RtAdmit)
  qed (use ok RtAdmit in simp)
next
  case (RtBegin now w)
  show ?thesis
  proof (cases "w \<in> set (rs_works s)")
    case True
    let ?t = "s\<lparr>rs_works := remove1 w (rs_works s)\<rparr>"
    have t: "rt_ok ?t"
      using rt_ok_lists [OF ok, of ?t] in_flight_remove_work [OF rt_ok_fields(2) [OF ok] True] by auto
    show ?thesis
    proof (cases rule: begin_dispatch_cases [of wo now w "rs_data s"])
      case (lost st ns rd)
      then have "rt_ok (?t\<lparr>rs_data := rd\<rparr>)" by (intro rt_ok_calm [OF t]) simp
      then have "rt_ok (s\<lparr>rs_data := rd, rs_works := remove1 w (rs_works s)\<rparr>)"
        unfolding works_data_swap .
      with True lost(1) show ?thesis by (simp add: RtBegin)
    next
      case (won ns rd rec)
      with True rt_ok_won [OF ok True won(2,3)] show ?thesis by (simp add: RtBegin)
    qed
  qed (use ok RtBegin in simp)
next
  case (RtRefuse w d)
  show ?thesis
  proof (cases "w \<in> set (rs_works s)")
    case True
    let ?t = "s\<lparr>rs_works := remove1 w (rs_works s)\<rparr>"
    have t: "rt_ok ?t"
      using rt_ok_lists [OF ok, of ?t] in_flight_remove_work [OF rt_ok_fields(2) [OF ok] True] by auto
    have "rt_ok (?t\<lparr>rs_data := snd (refuse wo w d (rs_data s))\<rparr>)"
      unfolding refuse_def by (rule rt_ok_calm [OF t]) (simp add: ledger_calm_not_dispatched)
    then have "rt_ok (s\<lparr>rs_data := snd (refuse wo w d (rs_data s)), rs_works := remove1 w (rs_works s)\<rparr>)"
      unfolding works_data_swap .
    with True show ?thesis by (simp add: RtRefuse)
  qed (use ok RtRefuse in simp)
next
  case (RtExpire i)
  then show ?thesis using rt_ok_calm [OF ok ledger_calm_not_dispatched] by (simp add: dispatch_expired_def)
next
  case (RtTimeout i)
  then show ?thesis using rt_ok_calm [OF ok ledger_calm_timeout] by simp
next
  case (RtComplete p res)
  then show ?thesis using ok rt_ok_complete [OF ok] by simp
next
  case (RtOutcome src cb commit)
  then show ?thesis using rt_ok_calm [OF ok ledger_calm_outcome] by simp
qed

section \<open>Runs\<close>

text \<open>How the ledger may look later: every record is still there, for the same request, with a status
  that the machine reaches.\<close>

definition ledger_le :: "'w runtime_data \<Rightarrow> 'w runtime_data \<Rightarrow> bool" where
  "ledger_le a b \<longleftrightarrow> (\<forall>i rec. map_of (rd_commands a) i = Some rec \<longrightarrow>
     (\<exists>rec'. map_of (rd_commands b) i = Some rec' \<and> cr_target rec' = cr_target rec \<and>
        cr_command rec' = cr_command rec \<and> status_step\<^sup>*\<^sup>* (cr_status rec) (cr_status rec')))"

lemma ledger_le_refl: "ledger_le a a"
  by (simp add: ledger_le_def)

lemma ledger_le_trans: "ledger_le a b \<Longrightarrow> ledger_le b c \<Longrightarrow> ledger_le a c"
  unfolding ledger_le_def
proof (intro allI impI)
  fix i rec
  assume ab: "\<forall>i rec. map_of (rd_commands a) i = Some rec \<longrightarrow>
      (\<exists>rec'. map_of (rd_commands b) i = Some rec' \<and> cr_target rec' = cr_target rec \<and>
        cr_command rec' = cr_command rec \<and> status_step\<^sup>*\<^sup>* (cr_status rec) (cr_status rec'))"
    and bc: "\<forall>i rec. map_of (rd_commands b) i = Some rec \<longrightarrow>
      (\<exists>rec'. map_of (rd_commands c) i = Some rec' \<and> cr_target rec' = cr_target rec \<and>
        cr_command rec' = cr_command rec \<and> status_step\<^sup>*\<^sup>* (cr_status rec) (cr_status rec'))"
    and rec: "map_of (rd_commands a) i = Some rec"
  from ab rec obtain r1 where r1: "map_of (rd_commands b) i = Some r1" "cr_target r1 = cr_target rec"
      "cr_command r1 = cr_command rec" "status_step\<^sup>*\<^sup>* (cr_status rec) (cr_status r1)" by blast
  from bc r1(1) obtain r2 where r2: "map_of (rd_commands c) i = Some r2" "cr_target r2 = cr_target r1"
      "cr_command r2 = cr_command r1" "status_step\<^sup>*\<^sup>* (cr_status r1) (cr_status r2)" by blast
  from r1 r2 show "\<exists>rec'. map_of (rd_commands c) i = Some rec' \<and> cr_target rec' = cr_target rec \<and>
      cr_command rec' = cr_command rec \<and> status_step\<^sup>*\<^sup>* (cr_status rec) (cr_status rec')"
    using rtranclp_trans [OF r1(4) r2(4)] by simp
qed

lemma ledger_step_le:
  assumes "ledger_step a b"
  shows "ledger_le a b"
  unfolding ledger_le_def
proof (intro allI impI)
  fix i rec assume rec: "map_of (rd_commands a) i = Some rec"
  have same: "same_requests a b" using assms by (simp add: ledger_step_def)
  obtain rec' where rec': "map_of (rd_commands b) i = Some rec'"
    using same_requests_None [OF same, of i] rec by (cases "map_of (rd_commands b) i") auto
  have "map_option (\<lambda>r. (cr_target r, cr_command r)) (map_of (rd_commands b) i) =
      map_option (\<lambda>r. (cr_target r, cr_command r)) (map_of (rd_commands a) i)"
    using same unfolding same_requests_def by blast
  then have "cr_target rec' = cr_target rec \<and> cr_command rec' = cr_command rec"
    using rec rec' by simp
  moreover have "cr_status rec = cr_status rec' \<or> status_step (cr_status rec) (cr_status rec')"
    using assms rec rec' unfolding ledger_step_def
    by (auto simp: status_of_def dest!: spec [of _ i])
  ultimately show "\<exists>rec'. map_of (rd_commands b) i = Some rec' \<and> cr_target rec' = cr_target rec \<and>
      cr_command rec' = cr_command rec \<and> status_step\<^sup>*\<^sup>* (cr_status rec) (cr_status rec')"
    using rec' by auto
qed

lemma ledger_calm_le: "ledger_calm a b \<Longrightarrow> ledger_le a b"
  using ledger_step_le by (auto simp: ledger_calm_def)

lemma submit_insert_le:
  assumes "ledger_ok rd"
  shows "ledger_le rd (snd (submit_insert wo rq rd))"
proof -
  have "map_of (rd_commands rd) (CommandId (rd_next_id rd)) = None"
    using assms by (cases "map_of (rd_commands rd) (CommandId (rd_next_id rd))")
      (force simp: ledger_ok_def)+
  moreover have "rd_commands (snd (submit_insert wo rq rd)) = hm_insert (CommandId (rd_next_id rd))
      \<lparr>cr_target = rq_target rq, cr_command = rq_command rq, cr_status = Queued,
       cr_updates = wo_channel wo Queued\<rparr> (rd_commands rd)"
    by (simp add: submit_insert_def insert_record_def Let_def split: option.split)
  ultimately show ?thesis unfolding ledger_le_def by auto
qed

lemma rt_step_le:
  assumes ok: "rt_ok s"
  shows "ledger_le (rs_data s) (rs_data (rt_step wo s e))"
proof (cases e)
  case (RtSubmit rq)
  then show ?thesis
    using ledger_calm_le [OF ledger_calm_lookup, of "rs_data s" wo rq] by (simp add: split_beta Let_def)
next
  case (RtInsert rq)
  then show ?thesis
    using submit_insert_le [OF rt_ok_fields(1) [OF ok], of wo rq]
    by (simp add: split_beta Let_def ledger_le_refl)
next
  case (RtAdmit rg an ir)
  then show ?thesis
    using ledger_calm_le [OF ledger_calm_admit, of "rs_data s" wo rg an "fst ir" "snd ir"]
    by (simp add: split_beta Let_def ledger_le_refl)
next
  case (RtBegin now w)
  show ?thesis
  proof (cases "w \<in> set (rs_works s)")
    case True
    show ?thesis
    proof (cases rule: begin_dispatch_cases [of wo now w "rs_data s"])
      case (lost st ns rd)
      with True show ?thesis using ledger_calm_le [of "rs_data s" rd] by (simp add: RtBegin)
    next
      case (won ns rd rec)
      have "ledger_le (rs_data s) rd"
        unfolding won(4)
        by (rule ledger_step_le [OF ledger_step_put_status [OF won(2)]])
          (simp add: won(3) status_step.dispatch)
      with True won(1) show ?thesis by (simp add: RtBegin)
    qed
  qed (simp add: RtBegin ledger_le_refl)
next
  case (RtRefuse w d)
  then show ?thesis
    using ledger_calm_le [OF ledger_calm_not_dispatched, of "rs_data s"]
    by (simp add: refuse_def ledger_le_refl)
next
  case (RtExpire i)
  then show ?thesis
    using ledger_calm_le [OF ledger_calm_not_dispatched] by (simp add: dispatch_expired_def)
next
  case (RtTimeout i)
  then show ?thesis using ledger_calm_le [OF ledger_calm_timeout] by simp
next
  case (RtComplete p res)
  show ?thesis
  proof (cases "p \<in> set (rs_permits s)")
    case True
    then obtain st where "status_of (rs_data s) (ew_id p) = Some st" "permit_status st"
      using rt_ok_fields(6) [OF ok] by blast
    from ledger_step_le [OF ledger_step_complete [OF this]] True show ?thesis by (simp add: RtComplete)
  qed (simp add: RtComplete ledger_le_refl)
next
  case (RtOutcome src cb commit)
  then show ?thesis using ledger_calm_le [OF ledger_calm_outcome] by simp
qed

text \<open>A run of fewer than \<open>2 ^ 64\<close> events in all never wraps the command counter.\<close>

lemma same_requests_next: "same_requests a b \<Longrightarrow> rd_next_id b = rd_next_id a"
  by (simp add: same_requests_def)

lemma calm_next: "ledger_calm a b \<Longrightarrow> rd_next_id b = rd_next_id a"
  by (simp add: ledger_calm_iff same_requests_next)

lemma submit_insert_next: "rd_next_id (snd (submit_insert wo rq rd)) = rd_next_id rd + 1"
  by (simp add: submit_insert_def insert_record_def Let_def split: option.split)

lemma complete_next: "rd_next_id (snd (complete_native wo i res rd)) = rd_next_id rd"
  by (cases res) (simp_all add: complete_native_def same_requests_next [OF same_requests_set_status]
      same_requests_next [OF same_requests_transition])

lemma rt_step_next:
  "rd_next_id (rs_data (rt_step wo s e)) = rd_next_id (rs_data s) \<or>
   rd_next_id (rs_data (rt_step wo s e)) = rd_next_id (rs_data s) + 1"
proof (cases e)
  case (RtBegin now w)
  then show ?thesis
    by (cases rule: begin_dispatch_cases [of wo now w "rs_data s"])
      (auto simp: calm_next put_status_frame)
qed (auto simp: split_beta Let_def submit_insert_next complete_next refuse_def dispatch_expired_def
    calm_next [OF ledger_calm_lookup] calm_next [OF ledger_calm_admit]
    calm_next [OF ledger_calm_not_dispatched] calm_next [OF ledger_calm_timeout]
    calm_next [OF ledger_calm_outcome])

lemma unat_succ_le: "unat (n + 1 :: u64) \<le> Suc (unat n)"
  using unat_sat_succ [of n] by (cases "n = - 1") (simp_all add: sat_succ_def)

lemma below_wrap: "unat n + Suc k < 2 ^ 64 \<Longrightarrow> (n :: u64) \<noteq> - 1"
  by (auto simp: unsigned_minus_1_eq_mask mask_eq_exp_minus_1)

lemma rt_run_ok:
  "rt_ok s \<Longrightarrow> unat (rd_next_id (rs_data s)) + length es < 2 ^ 64 \<Longrightarrow>
     rt_ok (rt_run wo s es) \<and> ledger_le (rs_data s) (rs_data (rt_run wo s es))"
proof (induction es arbitrary: s)
  case (Cons e es)
  have ne: "rd_next_id (rs_data s) \<noteq> - 1" using Cons.prems(2) below_wrap [of _ "length es"] by simp
  note ok = rt_ok_step [OF Cons.prems(1) ne, of wo e] and le = rt_step_le [OF Cons.prems(1), of wo e]
  have "unat (rd_next_id (rs_data (rt_step wo s e))) \<le> Suc (unat (rd_next_id (rs_data s)))"
    using rt_step_next [of wo s e] unat_succ_le [of "rd_next_id (rs_data s)"] by auto
  then have "unat (rd_next_id (rs_data (rt_step wo s e))) + length es < 2 ^ 64" using Cons.prems(2) by simp
  from Cons.IH [OF ok this] le show ?case
    by (auto simp: rt_run_def intro: ledger_le_trans)
qed (simp add: rt_run_def ledger_le_refl)

lemma rt_run_new_ok:
  "length es < 2 ^ 64 - 1 \<Longrightarrow> rt_ok (rt_run wo runtime_system_new es)"
  using rt_run_ok [OF rt_ok_new, of es wo]
  by (simp add: runtime_system_new_def runtime_data_new_def)

section \<open>Consequences\<close>

text \<open>Where the machine stops.\<close>

lemma NotDispatched_stays: "status_step\<^sup>*\<^sup>* (NotDispatched d) s \<Longrightarrow> s = NotDispatched d"
  by (induction rule: rtranclp_induct) (auto elim: status_step_from_NotDispatched)

lemma Failed_stays: "status_step\<^sup>*\<^sup>* (Failed d) s \<Longrightarrow> s = Failed d"
  by (induction rule: rtranclp_induct) (auto elim: status_step_from_Failed)

lemma Confirmed_goes: "status_step\<^sup>*\<^sup>* (Confirmed r) s \<Longrightarrow> s = Confirmed r \<or> (\<exists>d. s = Failed d)"
  by (induction rule: rtranclp_induct) (auto elim: status_step_from_Confirmed status_step_from_Failed)

text \<open>A confirmation has one cause: a commit that names the command, from a source that matches.\<close>

lemma transition_not_Confirmed:
  assumes "\<And>st r. f st \<noteq> Some (Confirmed r)"
    and "status_of (snd (snd (rt_transition wo i f rd))) j = Some (Confirmed r)"
  shows "status_of rd j = Some (Confirmed r)"
  using assms by (auto simp: rt_transition_status split: if_splits option.splits)

lemma not_dispatched_not_Confirmed:
  "status_of (snd (not_dispatched wo i d rd)) j = Some (Confirmed r) \<Longrightarrow> status_of rd j = Some (Confirmed r)"
  unfolding not_dispatched_def by (erule transition_not_Confirmed [rotated]) (simp split: if_splits)

lemma confirmed_cause:
  assumes ok: "rt_ok s" and new: "status_of (rs_data (rt_step wo s e)) i = Some (Confirmed r)"
    and old: "status_of (rs_data s) i \<noteq> Some (Confirmed r)"
  shows "\<exists>src rec. e = RtOutcome src (Some i) (Committed r) \<and>
    map_of (rd_commands (rs_data s)) i = Some rec \<and> source_matches_target src (cr_target rec) \<and>
    cr_status rec \<in> {AwaitingProjection, Dispatched, Indeterminate}"
proof (cases e)
  case (RtSubmit rq)
  have "status_of (snd (submit_lookup wo rq (rs_data s))) i = status_of (rs_data s) i"
    by (auto simp: submit_lookup_def ticket_for_correlation_def status_of_def split: option.splits)
  with new old show ?thesis by (simp add: RtSubmit split_beta Let_def)
next
  case (RtInsert rq)
  have "status_of (snd (submit_insert wo rq (rs_data s))) i =
      (if i = CommandId (rd_next_id (rs_data s)) then Some Queued else status_of (rs_data s) i)"
    by (simp add: submit_insert_def insert_record_def status_of_def Let_def split: option.split)
  with new old show ?thesis by (simp add: RtInsert split_beta Let_def split: if_splits)
next
  case (RtAdmit rg an ir)
  have "status_of (snd (snd (submit_admit wo rg an (fst ir) (snd ir) (rs_data s)))) i = Some (Confirmed r) \<Longrightarrow>
      status_of (rs_data s) i = Some (Confirmed r)"
    by (auto simp: submit_admit_def dest: not_dispatched_not_Confirmed
        split: option.splits if_splits reserve_answer.splits)
  with new old show ?thesis by (simp add: RtAdmit split_beta Let_def split: if_splits)
next
  case (RtBegin now w)
  show ?thesis
  proof (cases "w \<in> set (rs_works s)")
    case True
    from True have "status_of (snd (not_dispatched wo (ew_id w)
          ''dispatch deadline elapsed before native I/O'' (rs_data s))) i = Some (Confirmed r) \<or>
        status_of (snd (snd (rt_transition wo (ew_id w)
          (\<lambda>s. if s = Queued then Some Dispatched else None) (rs_data s)))) i = Some (Confirmed r)"
      using new unfolding RtBegin rt_step.simps begin_dispatch_def
      by (simp add: split_beta Let_def split: if_splits)
    then have False
    proof
      assume "status_of (snd (not_dispatched wo (ew_id w)
          ''dispatch deadline elapsed before native I/O'' (rs_data s))) i = Some (Confirmed r)"
      from not_dispatched_not_Confirmed [OF this] old show False by contradiction
    next
      assume "status_of (snd (snd (rt_transition wo (ew_id w)
          (\<lambda>s. if s = Queued then Some Dispatched else None) (rs_data s)))) i = Some (Confirmed r)"
      with old show False by (auto simp: rt_transition_status split: if_splits option.splits)
    qed
    then show ?thesis ..
  qed (use new old RtBegin in simp)
next
  case (RtRefuse w d)
  with new old show ?thesis
    by (auto simp: refuse_def dest: not_dispatched_not_Confirmed split: if_splits)
next
  case (RtExpire j)
  with new old show ?thesis by (auto simp: dispatch_expired_def dest: not_dispatched_not_Confirmed)
next
  case (RtTimeout j)
  with new old show ?thesis
    by (auto simp: confirmation_timeout_def rt_transition_status split: if_splits option.splits)
next
  case (RtComplete p res)
  with new old show ?thesis
    by (cases res) (auto simp: complete_native_def set_status_status rt_transition_status
        split: if_splits option.splits command_status.splits)
next
  case (RtOutcome src cb commit)
  with new have N: "status_of (snd (record_projection_outcome wo src cb commit (rs_data s))) i =
      Some (Confirmed r)" by simp
  show ?thesis
  proof (cases "\<exists>rv j rec. commit = Committed rv \<and> cb = Some j \<and> map_of (rd_commands (rs_data s)) j = Some rec \<and>
      source_matches_target src (cr_target rec) \<and> cr_status rec \<in> {AwaitingProjection, Dispatched, Indeterminate}")
    case True
    then obtain rv j rec where c: "commit = Committed rv" "cb = Some j"
        "map_of (rd_commands (rs_data s)) j = Some rec" "source_matches_target src (cr_target rec)"
        "cr_status rec \<in> {AwaitingProjection, Dispatched, Indeterminate}" by blast
    with N old have "j = i \<and> rv = r"
      by (auto simp: outcome_data status_of_put_status split: if_splits)
    with c RtOutcome show ?thesis by blast
  next
    case False
    then have "snd (record_projection_outcome wo src cb commit (rs_data s)) = rs_data s"
      by (auto simp: outcome_data split: projection_commit.split option.split)
    with N old show ?thesis by simp
  qed
qed

end
