(* ===== verification/Runtime_Claims.thy ===== *)
theory Runtime_Claims
  imports Runtime_Facts
begin

text \<open>
  Consequences for submissions, watchers and the endpoint registry, with the executions that show
  where the runtime differs from its comments.
\<close>

section \<open>Submitting twice\<close>

lemma lookup_status:
  "status_of (snd (submit_lookup wo rq rd)) i = status_of rd i"
  by (auto simp: submit_lookup_def ticket_for_correlation_def status_of_def split: option.splits)

text \<open>After a submission the correlation is bound to a record of this very request.\<close>

definition bound_to :: "'w runtime_data \<Rightarrow> string \<Rightarrow> command_id \<Rightarrow> command_request \<Rightarrow> bool" where
  "bound_to rd c i rq \<longleftrightarrow> map_of (rd_correlations rd) c = Some i \<and>
     map_option (\<lambda>r. (cr_target r, cr_command r)) (map_of (rd_commands rd) i) =
       Some (rq_target rq, rq_command rq)"

lemma bound_to_same: "same_requests a b \<Longrightarrow> bound_to a c i rq \<Longrightarrow> bound_to b c i rq"
  by (simp add: bound_to_def same_requests_def)

lemma lookup_bound:
  assumes "bound_to rd c i rq" "rq_correlation_id rq' = Some c" "rq_target rq' = rq_target rq"
    "rq_command rq' = rq_command rq" "runtime_command_nan_free (rq_command rq)"
  shows "\<exists>rd'. submit_lookup wo rq' rd = (Inr (Some i), rd')"
  using assms
  by (auto simp: bound_to_def submit_lookup_def ticket_for_correlation_def runtime_command_eq_def)

lemma lookup_found_bound:
  assumes "submit_lookup wo rq rd = (Inr (Some i), rd')" "rq_correlation_id rq = Some c"
  shows "bound_to rd' c i rq"
  using assms
  by (auto simp: submit_lookup_def ticket_for_correlation_def bound_to_def runtime_command_eq_def
      split: option.splits if_splits)

lemma insert_bound:
  assumes "submit_insert wo rq rd = (i, rd')" "rq_correlation_id rq = Some c"
  shows "bound_to rd' c i rq"
  using assms by (auto simp: submit_insert_def insert_record_def bound_to_def Let_def)

lemma submit_bound:
  assumes "submit wo rg an rq rd = (Inr i, w, ns, rd')" "rq_correlation_id rq = Some c"
  shows "bound_to rd' c i rq"
proof -
  obtain x rd1 where l: "submit_lookup wo rq rd = (x, rd1)" by (rule prod.exhaust)
  show ?thesis
  proof (cases x)
    case (Inl e)
    with assms l show ?thesis by (simp add: submit_def)
  next
    case (Inr io)
    show ?thesis
    proof (cases io)
      case (Some j)
      with assms l Inr have "j = i" "rd1 = rd'" by (simp_all add: submit_def)
      with lookup_found_bound l Inr Some assms(2) show ?thesis by blast
    next
      case None
      obtain j rd2 where ins: "submit_insert wo rq rd1 = (j, rd2)" by (rule prod.exhaust)
      with assms l Inr None have ji: "j = i" "rd' = snd (snd (submit_admit wo rg an i rq rd2))"
        by (auto simp: submit_def split: prod.splits)
      have "same_requests rd2 rd'"
        unfolding ji(2) using ledger_calm_admit [of rd2 wo rg an i rq] by (simp add: ledger_calm_iff)
      with insert_bound [OF ins assms(2)] ji(1) bound_to_same show ?thesis by blast
    qed
  qed
qed

text \<open>A repetition, run after the first call, watches the first operation and adds no work.\<close>

lemma submit_repeat:
  assumes first: "submit wo rg an rq rd = (Inr i, w, ns, rd1)"
    and c: "rq_correlation_id rq = Some c" "rq_correlation_id rq' = Some c"
    and same: "rq_target rq' = rq_target rq" "rq_command rq' = rq_command rq"
    and nan: "runtime_command_nan_free (rq_command rq)"
    and between: "bound_to rd1 c i rq \<Longrightarrow> bound_to rd2 c i rq"
  shows "\<exists>rd3. submit wo rg' an' rq' rd2 = (Inr i, None, [], rd3) \<and>
    (\<forall>j. status_of rd3 j = status_of rd2 j)"
proof -
  have "bound_to rd2 c i rq" using between submit_bound [OF first c(1)] .
  from lookup_bound [OF this c(2) same nan] obtain rd3 where
    l: "submit_lookup wo rq' rd2 = (Inr (Some i), rd3)" by blast
  then have "status_of rd3 j = status_of rd2 j" for j using lookup_status [of wo rq' rd2 j] by simp
  with l show ?thesis by (simp add: submit_def)
qed

text \<open>Another request under the same correlation is refused.\<close>

lemma submit_conflict:
  assumes "bound_to rd c i rq" "rq_correlation_id rq' = Some c"
    "rq_target rq' \<noteq> rq_target rq \<or> rq_command rq' \<noteq> rq_command rq"
  shows "submit wo rg an rq' rd = (Inl (CorrelationConflict c), None, [], rd)"
  using assms
  by (auto simp: bound_to_def submit_def submit_lookup_def ticket_for_correlation_def runtime_command_eq_def)

text \<open>The binding survives everything but another insertion under the same correlation.\<close>

fun inserts_under :: "string \<Rightarrow> rt_event \<Rightarrow> bool" where
  "inserts_under c (RtInsert rq) = (rq_correlation_id rq = Some c)"
| "inserts_under c e = False"

lemma complete_same_requests: "same_requests rd (snd (complete_native wo i res rd))"
  by (auto simp: complete_native_def same_requests_transition same_requests_set_status Let_def
      split: native_result.split prod.split)

lemma calm_same: "ledger_calm a b \<Longrightarrow> same_requests a b"
  by (simp add: ledger_calm_iff)

lemma begin_same_requests: "same_requests rd (snd (snd (begin_dispatch wo now w rd)))"
proof (cases rule: begin_dispatch_cases [of wo now w rd])
  case (lost st ns rd')
  then show ?thesis by (simp add: ledger_calm_iff)
next
  case (won ns rd' rec)
  then show ?thesis by (simp add: same_requests_put_status)
qed

lemma outcome_same_requests: "same_requests rd (snd (record_projection_outcome wo src cb c rd))"
  by (rule calm_same [OF ledger_calm_outcome])

lemma insert_keeps_bound:
  assumes "ledger_ok rd" "bound_to rd c i rq" "rq_correlation_id rq' \<noteq> Some c"
  shows "bound_to (snd (submit_insert wo rq' rd)) c i rq"
proof -
  have "i \<noteq> CommandId (rd_next_id rd)"
    using assms(1,2) by (auto simp: bound_to_def ledger_ok_def)
  then show ?thesis
    using assms(2,3) by (auto simp: bound_to_def submit_insert_def insert_record_def Let_def split: option.split)
qed

lemma step_keeps_bound:
  assumes "rt_ok s" "bound_to (rs_data s) c i rq" "\<not> inserts_under c e"
  shows "bound_to (rs_data (rt_step wo s e)) c i rq"
proof (cases e)
  case (RtSubmit rq')
  then show ?thesis
    using assms(2) ledger_calm_lookup [of "rs_data s" wo rq']
    by (auto simp: ledger_calm_iff split: prod.split intro: bound_to_same)
next
  case (RtInsert rq')
  then show ?thesis
    using assms insert_keeps_bound [of "rs_data s" c i rq rq' wo]
    by (auto simp: rt_ok_def split: prod.split)
next
  case (RtAdmit rg an ir)
  then show ?thesis
    using assms(2) ledger_calm_admit [of "rs_data s" wo rg an "fst ir" "snd ir"]
    by (auto simp: ledger_calm_iff split: prod.split intro: bound_to_same)
next
  case (RtBegin now w)
  then show ?thesis
    using assms(2) begin_same_requests [of "rs_data s" wo now w]
    by (auto split: prod.split sum.split intro: bound_to_same)
qed (use assms(2) in
    \<open>auto simp: refuse_def dispatch_expired_def
       intro: bound_to_same [OF outcome_same_requests] bound_to_same [OF complete_same_requests]
         bound_to_same [OF calm_same [OF ledger_calm_not_dispatched]]
         bound_to_same [OF calm_same [OF ledger_calm_timeout]]\<close>)

lemma rt_run_next:
  "unat (rd_next_id (rs_data (rt_run wo s es))) \<le> unat (rd_next_id (rs_data s)) + length es"
proof (induction es arbitrary: s)
  case (Cons e es)
  have "unat (rd_next_id (rs_data (rt_step wo s e))) \<le> Suc (unat (rd_next_id (rs_data s)))"
    using rt_step_next [of wo s e] unat_succ_le [of "rd_next_id (rs_data s)"] by auto
  with Cons.IH [of "rt_step wo s e"] show ?case by (simp add: rt_run_def)
qed (simp add: rt_run_def)

lemma run_keeps_bound:
  assumes "rt_ok s" "unat (rd_next_id (rs_data s)) + length es < 2 ^ 64"
    "bound_to (rs_data s) c i rq" "list_all (\<lambda>e. \<not> inserts_under c e) es"
  shows "bound_to (rs_data (rt_run wo s es)) c i rq"
  using assms
proof (induction es arbitrary: s)
  case (Cons e es)
  have n: "rd_next_id (rs_data s) \<noteq> - 1"
    using Cons.prems(2) below_wrap [of "rd_next_id (rs_data s)" "length es"] by simp
  have "unat (rd_next_id (rs_data (rt_step wo s e))) \<le> Suc (unat (rd_next_id (rs_data s)))"
    using rt_step_next [of wo s e] unat_succ_le [of "rd_next_id (rs_data s)"] by auto
  then show ?case
    using Cons.IH [of "rt_step wo s e"] Cons.prems rt_ok_step [OF Cons.prems(1) n]
      step_keeps_bound [OF Cons.prems(1,3)]
    by (simp add: rt_run_def)
qed (simp add: rt_run_def)

section \<open>An execution\<close>

text \<open>A concrete request and registry.\<close>

definition demo_request :: command_request where
  "demo_request = \<lparr>rq_target = zid_roon ''1'', rq_command = Control Play, rq_correlation_id = Some ''c'',
     rq_lane = Interactive, rq_deadlines = \<lparr>cd_dispatch_by = 10, cd_confirm_by = 20\<rparr>\<rparr>"

definition demo_registry :: endpoint_registry where
  "demo_registry = snd (register_provider ''roon'' 4 registry_new)"

definition demo_source :: projection_source where
  "demo_source = \<lparr>src_adapter = ''roon'', src_instance = None, src_epoch = 1\<rparr>"

definition demo_work :: "u64 \<Rightarrow> endpoint_work" where
  "demo_work n = \<lparr>ew_request = demo_request, ew_id = CommandId n\<rparr>"

text \<open>The projection confirms the command while its permit is still held; then the native call fails.\<close>

definition late_failure :: "rt_event list" where
  "late_failure =
     [RtSubmit demo_request, RtInsert demo_request,
      RtAdmit demo_registry Reserved (CommandId 1, demo_request), RtBegin 0 (demo_work 1),
      RtOutcome demo_source (Some (CommandId 1)) (Committed 7)]"

lemmas demo_defs = demo_request_def demo_registry_def demo_source_def demo_work_def
  runtime_system_new_def runtime_data_new_def registry_new_def rt_run_def

lemma demo_route: "route demo_registry (zid_roon ''1'') =
    Some \<lparr>es_generation = 1, es_sender = 0, es_reconfiguring = 0\<rparr> \<and> rg_flags demo_registry = [False]"
  by (simp add: demo_registry_def register_provider_def endpoint_key_provider_def is_blank_def
      register_def registry_new_def Let_def route_def zid_roon_def zid_source_def hm_insert_def)

lemma late_failure_status:
  "status_of (rs_data (rt_run wo runtime_system_new late_failure)) (CommandId 1) = Some (Confirmed 7)"
  "status_of (rs_data (rt_run wo runtime_system_new
     (late_failure @ [RtComplete (demo_work 1) (NativeFailed d)]))) (CommandId 1) = Some (Failed d)"
  using demo_route
  by (simp_all add: late_failure_def demo_request_def demo_work_def demo_source_def runtime_system_new_def
      runtime_data_new_def rt_run_def submit_lookup_def ticket_for_correlation_def submit_insert_def
      insert_record_def submit_admit_def begin_dispatch_def rt_transition_def put_status_def Let_def
      hm_insert_def record_projection_outcome_def source_matches_target_def zid_source_def zid_roon_def
      complete_native_def set_status_def status_of_def)

lemma before_confirmation:
  "status_of (rs_data (rt_run wo runtime_system_new (butlast late_failure))) (CommandId 1) = Some Dispatched"
  using demo_route
  by (simp add: late_failure_def demo_request_def demo_work_def demo_source_def runtime_system_new_def
      runtime_data_new_def rt_run_def submit_lookup_def ticket_for_correlation_def submit_insert_def
      insert_record_def submit_admit_def begin_dispatch_def rt_transition_def put_status_def Let_def
      hm_insert_def status_of_def)

lemma late_failure_bound:
  "bound_to (rs_data (rt_run wo runtime_system_new late_failure)) ''c'' (CommandId 1) demo_request \<and>
   rd_next_id (rs_data (rt_run wo runtime_system_new late_failure)) = 2"
  using demo_route
  by (simp add: late_failure_def demo_request_def demo_work_def demo_source_def runtime_system_new_def
      runtime_data_new_def rt_run_def submit_lookup_def ticket_for_correlation_def submit_insert_def
      insert_record_def submit_admit_def begin_dispatch_def rt_transition_def put_status_def Let_def
      hm_insert_def record_projection_outcome_def source_matches_target_def zid_source_def zid_roon_def
      bound_to_def)

section \<open>Watchers\<close>

text \<open>
  \<open>watch_sends wo live\<close> is the documented behaviour of the watch channel: a new channel holds its
  value and has its receiver, subscribing keeps the value and makes the cell live, a send on a live
  cell stores the value, and a send on a cell without receivers fails and stores nothing.
\<close>

definition watch_sends :: "'w watch_ops \<Rightarrow> ('w \<Rightarrow> bool) \<Rightarrow> bool" where
  "watch_sends wo live \<longleftrightarrow>
     (\<forall>s. live (wo_channel wo s) \<and> wo_borrow wo (wo_channel wo s) = s) \<and>
     (\<forall>w. live (wo_subscribe wo w) \<and> wo_borrow wo (wo_subscribe wo w) = wo_borrow wo w) \<and>
     (\<forall>s w. live w \<longrightarrow> live (wo_send wo s w) \<and> wo_borrow wo (wo_send wo s w) = s) \<and>
     (\<forall>s w. \<not> live w \<longrightarrow> wo_send wo s w = w)"

definition watched :: "'w watch_ops \<Rightarrow> ('w \<Rightarrow> bool) \<Rightarrow> 'w runtime_data \<Rightarrow> command_id \<Rightarrow> bool" where
  "watched wo live rd i \<longleftrightarrow> (\<exists>rec. map_of (rd_commands rd) i = Some rec \<and> live (cr_updates rec) \<and>
     wo_borrow wo (cr_updates rec) = cr_status rec)"

lemma watched_put_status:
  "watch_sends wo live \<Longrightarrow> watched wo live rd i \<Longrightarrow> map_of (rd_commands rd) j = Some rec \<Longrightarrow>
     watched wo live (put_status wo j rec s rd) i"
  by (auto simp: watched_def put_status_def watch_sends_def)

lemma watched_transition:
  "watch_sends wo live \<Longrightarrow> watched wo live rd i \<Longrightarrow> watched wo live (snd (snd (rt_transition wo j f rd))) i"
  by (auto simp: rt_transition_def watched_put_status split: option.split)

lemma watched_set_status:
  "watch_sends wo live \<Longrightarrow> watched wo live rd i \<Longrightarrow> watched wo live (snd (set_status wo j s rd)) i"
  by (auto simp: set_status_def watched_put_status split: option.split)

lemma watched_outcome:
  "watch_sends wo live \<Longrightarrow> watched wo live rd i \<Longrightarrow>
     watched wo live (snd (record_projection_outcome wo src cb c rd)) i"
  unfolding outcome_data by (auto simp: watched_put_status split: projection_commit.split option.split)

lemma watched_lookup:
  "watch_sends wo live \<Longrightarrow> watched wo live rd i \<Longrightarrow> watched wo live (snd (submit_lookup wo rq rd)) i"
  by (auto simp: submit_lookup_def ticket_for_correlation_def watched_def watch_sends_def
      split: option.splits)

text \<open>
  When every ticket was dropped before the result, a later repetition of the submission is handed a
  watcher that shows the old value: the result was stored in the record only.
\<close>

lemma stale_watcher:
  assumes wo: "watch_sends wo live"
    and rec: "map_of (rd_commands rd) i = Some rec" "cr_status rec = AwaitingProjection"
      "\<not> live (cr_updates rec)" "wo_borrow wo (cr_updates rec) = AwaitingProjection"
    and src: "source_matches_target src (cr_target rec)"
    and rq: "rq_correlation_id rq = Some c" "map_of (rd_correlations rd) c = Some i"
      "rq_target rq = cr_target rec" "rq_command rq = cr_command rec"
      "runtime_command_nan_free (cr_command rec)"
  shows "let rd1 = snd (record_projection_outcome wo src (Some i) (Committed r) rd);
             (ans, rd2) = submit_lookup wo rq rd1
         in status_of rd2 i = Some (Confirmed r) \<and> ans = Inr (Some i) \<and>
            (\<exists>rec2. map_of (rd_commands rd2) i = Some rec2 \<and>
               wo_borrow wo (cr_updates rec2) = AwaitingProjection)"
  using assms
  by (auto simp: outcome_data put_status_def submit_lookup_def ticket_for_correlation_def
      runtime_command_eq_def status_of_def watch_sends_def)

section \<open>The registry\<close>

definition registry_ok :: "endpoint_registry \<Rightarrow> bool" where
  "registry_ok rg \<longleftrightarrow> hm_wf (rg_endpoints rg) \<and>
     (\<forall>k slot. map_of (rg_endpoints rg) k = Some slot \<longrightarrow> es_generation slot < rg_generation rg \<and>
        es_reconfiguring slot < length (rg_flags rg) \<and> es_sender slot = es_reconfiguring slot) \<and>
     (\<forall>k l s t. map_of (rg_endpoints rg) k = Some s \<longrightarrow> map_of (rg_endpoints rg) l = Some t \<longrightarrow>
        es_reconfiguring s = es_reconfiguring t \<longrightarrow> k = l)"

lemma registry_ok_new: "registry_ok registry_new"
  by (simp add: registry_ok_def registry_new_def)

lemma register_ok:
  assumes "registry_ok rg" "rg_generation rg \<noteq> - 1"
  shows "registry_ok (snd (register k cap rg))"
proof (cases "cap = 0 \<or> map_of (rg_endpoints rg) k \<noteq> None")
  case True
  with assms show ?thesis by (auto simp: register_def)
next
  case False
  have "rg_generation rg < rg_generation rg + 1" using assms(2) by (rule wrap_succ_gt)
  then have lt: "x < rg_generation rg \<Longrightarrow> x < rg_generation rg + 1" for x by (rule less_trans [rotated])
  have old: "map_of (rg_endpoints rg) j = Some s \<Longrightarrow> es_generation s < rg_generation rg \<and>
      es_reconfiguring s < length (rg_flags rg) \<and> es_sender s = es_reconfiguring s" for j s
    using assms(1) by (simp add: registry_ok_def)
  have inj: "map_of (rg_endpoints rg) j = Some s \<Longrightarrow> map_of (rg_endpoints rg) l = Some t \<Longrightarrow>
      es_reconfiguring s = es_reconfiguring t \<Longrightarrow> j = l" for j l s t
    using assms(1) by (simp add: registry_ok_def)
  have wf: "hm_wf (rg_endpoints rg)" using assms(1) by (simp add: registry_ok_def)
  show ?thesis
    using False wf \<open>rg_generation rg < rg_generation rg + 1\<close>
    by (auto simp: register_def Let_def registry_ok_def split: if_splits dest: old intro: lt inj)
qed

lemma endpoint_drop_ok: "registry_ok rg \<Longrightarrow> registry_ok (endpoint_drop ep rg)"
  by (auto simp: endpoint_drop_def registry_ok_def split: option.splits)

text \<open>Dropping an endpoint that was replaced leaves its successor registered.\<close>

lemma old_drop_harmless:
  assumes ok: "registry_ok rg" and max: "rg_generation rg \<noteq> - 1"
    and reg: "register k cap rg = (Some (Inr new), rg1)"
    and old: "ce_key ep = k" "ce_generation ep < rg_generation rg"
  shows "endpoint_drop ep rg1 = rg1 \<and> map_of (rg_endpoints rg1) k \<noteq> None"
  using reg old by (auto simp: register_def endpoint_drop_def Let_def split: if_splits)

text \<open>A zone endpoint takes precedence over the provider's, and a reconfiguration of one endpoint
  leaves the others admitting.\<close>

lemma route_prefers_zone:
  "map_of (rg_endpoints rg) (EK_Zone (zid_str z)) = Some slot \<Longrightarrow> route rg z = Some slot"
  by (simp add: route_def)

lemma reconfiguration_isolated:
  assumes "registry_ok rg" "map_of (rg_endpoints rg) k = Some s" "map_of (rg_endpoints rg) l = Some t"
    "k \<noteq> l" "ce_reconfiguring ep = es_reconfiguring s"
    "try_begin_reconfiguration ep rg = (Inr guard, rg1)"
  shows "rg_flags rg1 ! es_reconfiguring s \<and>
    rg_flags rg1 ! es_reconfiguring t = rg_flags rg ! es_reconfiguring t \<and>
    rg_flags (reconfiguration_guard_drop guard rg1) = rg_flags rg"
proof -
  have ne: "es_reconfiguring s \<noteq> es_reconfiguring t" and lt: "es_reconfiguring s < length (rg_flags rg)"
    using assms(1-4) by (auto simp: registry_ok_def)
  have "\<not> rg_flags rg ! es_reconfiguring s" "guard = es_reconfiguring s"
      "rg1 = rg\<lparr>rg_flags := (rg_flags rg)[es_reconfiguring s := True]\<rparr>"
    using assms(5,6) by (auto simp: try_begin_reconfiguration_def split: if_splits)
  with ne lt show ?thesis
    by (auto simp: reconfiguration_guard_drop_def list_update_same_conv)
qed

section \<open>Sources and targets\<close>

lemma raw_id_no_colon: "CHR '':'' \<notin> set (raw_id z)"
proof (cases "split_on CHR '':'' (zid_str z)")
  case (Cons p ps)
  show ?thesis
  proof (cases ps)
    case Nil
    have "CHR '':'' \<notin> set (zid_str z)"
    proof
      assume "CHR '':'' \<in> set (zid_str z)"
      then obtain a b where "zid_str z = a @ CHR '':'' # b" "CHR '':'' \<notin> set a"
        by (metis split_list_first)
      with Cons Nil show False by (simp add: split_on_append)
    qed
    with Cons Nil show ?thesis by (simp add: raw_id_def)
  next
    case (Cons r rs)
    with \<open>split_on CHR '':'' (zid_str z) = p # ps\<close> have "r \<in> set (split_on CHR '':'' (zid_str z))" by simp
    from split_on_pieces [OF this] Cons \<open>split_on CHR '':'' (zid_str z) = p # ps\<close>
    show ?thesis by (simp add: raw_id_def)
  qed
qed simp

text \<open>A source whose instance name holds a colon confirms no command.\<close>

lemma colon_instance_never_matches:
  "src_instance s = Some i \<Longrightarrow> CHR '':'' \<in> set i \<Longrightarrow> \<not> source_matches_target s z"
  using raw_id_no_colon [of z] by (auto simp: source_matches_target_def)

lemma instance_matches_own_zone:
  assumes "CHR '':'' \<notin> set i"
  shows "source_matches_target \<lparr>src_adapter = ''hqplayer'', src_instance = Some i, src_epoch = e\<rparr> (zid_hqplayer i) \<and>
    (source_matches_target \<lparr>src_adapter = ''hqplayer'', src_instance = Some i, src_epoch = e\<rparr> (zid_hqplayer j) \<longleftrightarrow>
       hd (split_on CHR '':'' j) = i) \<and>
    \<not> source_matches_target \<lparr>src_adapter = ''hqplayer'', src_instance = None, src_epoch = e\<rparr> (zid_hqplayer j)"
  using assms zid_source_cons [of "''hqplayer''"] raw_id_cons [of "''hqplayer''"]
  by (auto simp: source_matches_target_def zid_hqplayer_def split_on_no_sep)

end
