(* ===== verification/Hqp_Native.thy ===== *)
theory Hqp_Native
  imports Uhc_Prelude Float64 Bus_Events Bus_Runtime Hqp_Outputs
begin

text \<open>
  What the HQPlayer adapter reports of one instance (\<open>src/adapters/hqplayer.rs\<close>): the native
  observation with the identity it was read under, the advanced snapshot fenced to that identity, the
  payloads a projection update carries (\<open>src/bus/runtime.rs\<close>), and the bridge that turns the adapter's
  reports into the sequenced updates of the reliable lane. A \<open>SystemTime\<close> is the number of
  nanoseconds from the Unix epoch.
\<close>

section \<open>Native facts\<close>

type_synonym i32 = "32 word"
type_synonym system_time = int

record hqp_state =
  hs_state :: u8
  hs_mode :: u8
  hs_filter :: u32
  hs_filter1x :: "u32 option"
  hs_filter_nx :: "u32 option"
  hs_shaper :: u32
  hs_rate :: u32
  hs_volume :: i32
  hs_volume_db :: f64
  hs_filter_junk :: u32
  hs_active_mode :: u8
  hs_active_rate :: u32
  hs_invert :: bool
  hs_convolution :: bool
  hs_repeat :: u8
  hs_random :: bool
  hs_adaptive :: bool
  hs_filter_20k :: bool
  hs_matrix_profile :: string

record hqp_info =
  hi_name :: string
  hi_product :: string
  hi_version :: string
  hi_platform :: string
  hi_engine :: string

record list_item =
  li_index :: u32
  li_name :: string
  li_value :: i32

record select_option =
  so_value :: string
  so_label :: string

record pipeline_setting =
  pst_selected :: select_option
  pst_options :: "select_option list"

record pipeline_state =
  pls_state :: string
  pls_mode :: string
  pls_active_mode :: string
  pls_active_filter :: string
  pls_active_shaper :: string
  pls_active_rate :: u32
  pls_convolution :: bool
  pls_invert :: bool

record pipeline_volume =
  plv_value :: i32
  plv_min :: i32
  plv_max :: i32
  plv_is_fixed :: bool

record pipeline_settings =
  plg_mode :: pipeline_setting
  plg_filter1x :: pipeline_setting
  plg_filter_nx :: pipeline_setting
  plg_shaper :: pipeline_setting
  plg_shaper_label :: string
  plg_samplerate :: pipeline_setting

record pipeline_status =
  pl_status :: pipeline_state
  pl_volume :: pipeline_volume
  pl_settings :: pipeline_settings

record matrix_profile =
  mp_index :: u32
  mp_name :: string

record hqp_profile =
  hp_value :: string
  hp_title :: string
  hp_active :: bool

record hqp_connection_status =
  hcs_connected :: bool
  hcs_host :: "string option"
  hcs_port :: u16
  hcs_web_port :: u16
  hcs_info :: "hqp_info option"

datatype hqp_native_transport_state = NT_Stopped | NT_Paused | NT_Playing | NT_Unknown

record hqp_native_metadata =
  nm_track_id :: "string option"
  nm_title :: "string option"
  nm_artist :: "string option"
  nm_album :: "string option"

record hqp_native_volume =
  nv_value_db :: f64
  nv_min_db :: f64
  nv_max_db :: f64
  nv_step_db :: "f64 option"
  nv_enabled :: bool
  nv_adaptive :: bool

record hqp_native_selection =
  ns_selected :: string
  ns_choices :: "string list"

record hqp_execution_target =
  et_instance_name :: string
  et_producer_epoch :: u64
  et_endpoint_generation :: u64
  et_transport_generation :: u64

record hqp_advanced =
  ha_execution_target :: hqp_execution_target
  ha_pipeline :: pipeline_status
  ha_state :: hqp_state
  ha_junk_filters :: "list_item list"
  ha_junk_filters_supported :: bool
  ha_matrix_profiles :: "matrix_profile list"
  ha_current_matrix_profile :: "matrix_profile option"

record hqp_observation =
  ho_instance_name :: string
  ho_instance_label :: "string option"
  ho_product_version :: "string option"
  ho_producer_epoch :: u64
  ho_execution_target :: hqp_execution_target
  ho_observed_at :: system_time
  ho_zone :: zone
  ho_connection :: hqp_connection_status
  ho_pipeline :: pipeline_status
  ho_active_profile :: "string option"
  ho_transport :: hqp_native_transport_state
  ho_metadata :: hqp_native_metadata
  ho_volume :: hqp_native_volume
  ho_mode_is_source :: bool
  ho_mode :: hqp_native_selection
  ho_filter_1x :: hqp_native_selection
  ho_filter_nx :: hqp_native_selection
  ho_shaper :: hqp_native_selection
  ho_rate :: hqp_native_selection

section \<open>Projection updates\<close>

datatype projection_payload =
    PP_Zone zone
  | PP_ZoneRemoved prefixed_zone_id
  | PP_HqpObservation hqp_observation
  | PP_HqpAdvanced string hqp_advanced
  | PP_HqpProfiles string "string + hqp_profile list"
  | PP_HqpTransientFailure string system_time
  | PP_HqpRemoved string u64
  | PP_HqpOutputs string hqp_output_projection
  | PP_HqpManagerStopped
  | PP_Marker string

record projection_entry =
  pe_key :: string
  pe_payload :: projection_payload

datatype projection_kind = PK_Snapshot | PK_Delta

datatype projection_freshness = PF_Fresh | PF_Reconciling

record projection_update =
  pu_source :: projection_source
  pu_sequence :: u64
  pu_kind :: projection_kind
  pu_caused_by :: "command_id option"
  pu_entries :: "projection_entry list"

section \<open>The bridge\<close>

text \<open>
  Sequence allocation and the send are one critical section per instance (the publication lock), so a
  call to \<open>publish_entries\<close> is one step; an update it returns is the one it hands to the ingress.
\<close>

record hqp_bridge =
  hb_sequences :: "(string \<times> u64) list"
  hb_epochs :: "(string \<times> u64) list"
  hb_marker_sequence :: u64

definition bridge_new :: hqp_bridge where
  "bridge_new = \<lparr>hb_sequences = [], hb_epochs = [], hb_marker_sequence = 1\<rparr>"

definition next_sequence :: "string \<Rightarrow> hqp_bridge \<Rightarrow> u64 \<times> hqp_bridge" where
  "next_sequence i b =
     (let s = sat_succ (case map_of (hb_sequences b) i of None \<Rightarrow> 0 | Some x \<Rightarrow> x)
      in (s, b\<lparr>hb_sequences := hm_insert i s (hb_sequences b)\<rparr>))"

definition publish_epoch :: "string \<Rightarrow> u64 \<Rightarrow> hqp_bridge \<Rightarrow> u64 \<times> hqp_bridge" where
  "publish_epoch i epoch b =
     (if epoch = 0 then (case map_of (hb_epochs b) i of None \<Rightarrow> 0 | Some e \<Rightarrow> e, b)
      else (epoch, b\<lparr>hb_epochs := hm_insert i epoch (hb_epochs b)\<rparr>))"

definition publish_entries ::
  "string \<Rightarrow> u64 \<Rightarrow> command_id option \<Rightarrow> projection_kind \<Rightarrow> projection_entry list \<Rightarrow> hqp_bridge \<Rightarrow>
     projection_update \<times> hqp_bridge" where
  "publish_entries i epoch caused_by k es b =
     (let (e, b1) = publish_epoch i epoch b;
          (s, b2) = next_sequence i b1
      in (\<lparr>pu_source = \<lparr>src_adapter = ''hqplayer'', src_instance = Some i, src_epoch = e\<rparr>,
           pu_sequence = s, pu_kind = k, pu_caused_by = caused_by, pu_entries = es\<rparr>, b2))"

definition bridge_publish ::
  "string \<Rightarrow> u64 \<Rightarrow> command_id option \<Rightarrow> projection_kind \<Rightarrow> projection_payload \<Rightarrow> hqp_bridge \<Rightarrow>
     projection_update \<times> hqp_bridge" where
  "bridge_publish i epoch caused_by k payload b =
     publish_entries i epoch caused_by k [\<lparr>pe_key = ''hqplayer:'' @ i, pe_payload = payload\<rparr>] b"

text \<open>What the adapter and the command workers report, one constructor per method of the bridge.\<close>

datatype bridge_call =
    BC_Observed hqp_observation
  | BC_AdvancedObserved string hqp_advanced
  | BC_ProfilesObserved string "string + hqp_profile list"
  | BC_TransientFailure string system_time
  | BC_OutputsObserved string hqp_output_projection "command_id option"
  | BC_InstanceRemoved string u64
  | BC_ManagerStopped
  | BC_ConfirmReadback string u64 command_id
  | BC_AdvancedReadback string hqp_advanced
  | BC_ProfilesReadback string u64 "hqp_profile list"

text \<open>
  \<open>marker_text\<close> is the decimal rendering in \<open>hqplayer-readback-{marker}\<close>; no state is read from it.
\<close>

fun decimal_digits :: "nat \<Rightarrow> string" where
  "decimal_digits n =
     (if n < 10 then [char_of (48 + n)] else decimal_digits (n div 10) @ [char_of (48 + n mod 10)])"

declare decimal_digits.simps [simp del]

definition confirm_readback :: "string \<Rightarrow> u64 \<Rightarrow> command_id \<Rightarrow> hqp_bridge \<Rightarrow> projection_update \<times> hqp_bridge" where
  "confirm_readback i epoch c b =
     bridge_publish i epoch (Some c) PK_Delta
       (PP_Marker (''hqplayer-readback-'' @ decimal_digits (unat (hb_marker_sequence b))))
       (b\<lparr>hb_marker_sequence := hb_marker_sequence b + 1\<rparr>)"

text \<open>The marker of the manager is on a source of its own, taken and submitted outside the publication lock;
  here that is one step.\<close>

definition manager_stopped :: "hqp_bridge \<Rightarrow> projection_update \<times> hqp_bridge" where
  "manager_stopped b =
     (\<lparr>pu_source = \<lparr>src_adapter = ''hqplayer-lifecycle'', src_instance = None, src_epoch = 0\<rparr>,
       pu_sequence = hb_marker_sequence b, pu_kind = PK_Snapshot, pu_caused_by = None,
       pu_entries = [\<lparr>pe_key = ''hqplayer:lifecycle'', pe_payload = PP_HqpManagerStopped\<rparr>]\<rparr>,
      b\<lparr>hb_marker_sequence := hb_marker_sequence b + 1\<rparr>)"

definition bridge_observed :: "hqp_observation \<Rightarrow> hqp_bridge \<Rightarrow> projection_update \<times> hqp_bridge" where
  "bridge_observed ob b =
     publish_entries (ho_instance_name ob) (ho_producer_epoch ob) None PK_Snapshot
       [\<lparr>pe_key = ''zone:'' @ zn_zone_id (ho_zone ob), pe_payload = PP_Zone (ho_zone ob)\<rparr>,
        \<lparr>pe_key = ''hqplayer:'' @ ho_instance_name ob, pe_payload = PP_HqpObservation ob\<rparr>] b"

definition bridge_step :: "bridge_call \<Rightarrow> hqp_bridge \<Rightarrow> projection_update \<times> hqp_bridge" where
  "bridge_step c b =
     (case c of
        BC_Observed ob \<Rightarrow> bridge_observed ob b
      | BC_AdvancedObserved i adv \<Rightarrow>
          bridge_publish i (et_producer_epoch (ha_execution_target adv)) None PK_Delta
            (PP_HqpAdvanced i adv) b
      | BC_ProfilesObserved i res \<Rightarrow> bridge_publish i 0 None PK_Delta (PP_HqpProfiles i res) b
      | BC_TransientFailure i t \<Rightarrow> bridge_publish i 0 None PK_Delta (PP_HqpTransientFailure i t) b
      | BC_OutputsObserved i p caused_by \<Rightarrow>
          bridge_publish i 0 caused_by PK_Delta (PP_HqpOutputs i p) b
      | BC_InstanceRemoved i epoch \<Rightarrow> bridge_publish i epoch None PK_Delta (PP_HqpRemoved i epoch) b
      | BC_ManagerStopped \<Rightarrow> manager_stopped b
      | BC_ConfirmReadback i epoch c \<Rightarrow> confirm_readback i epoch c b
      | BC_AdvancedReadback i adv \<Rightarrow>
          bridge_publish i (et_producer_epoch (ha_execution_target adv)) None PK_Delta
            (PP_HqpAdvanced i adv) b
      | BC_ProfilesReadback i epoch ps \<Rightarrow>
          bridge_publish i epoch None PK_Delta (PP_HqpProfiles i (Inr ps)) b)"

end
