(* ===== verification/Observation_History.thy ===== *)
theory Observation_History
  imports Uhc_Prelude Bus_Events
begin

text \<open>
  The bounded history of what was seen playing on an Apple Music owner
  (\<open>src/mcp/observation_history.rs\<close>): one list per zone, oldest first, with consecutive duplicates
  dropped, the oldest records of a zone and the stalest zones evicted.
\<close>

definition MAX_ZONES :: nat where
  "MAX_ZONES = 32"

definition MAX_RECORDS_PER_ZONE :: nat where
  "MAX_RECORDS_PER_ZONE = 64"

definition MAX_TEXT_LENGTH :: nat where
  "MAX_TEXT_LENGTH = 512"

record playback_observation =
  po_zone_id :: string
  po_state :: string
  po_title :: "string option"
  po_artist :: "string option"
  po_album :: "string option"
  po_image_key :: "string option"
  po_reference :: "string option"
  po_source :: string
  po_confidence :: string
  po_observed_at :: u64

type_synonym observation_history = "(string \<times> playback_observation list) list"

definition same_snapshot :: "playback_observation \<Rightarrow> playback_observation \<Rightarrow> bool" where
  "same_snapshot l r \<longleftrightarrow>
     po_state l = po_state r \<and> po_title l = po_title r \<and> po_artist l = po_artist r \<and>
     po_album l = po_album r \<and> po_image_key l = po_image_key r \<and> po_reference l = po_reference r"

definition bounded :: "string \<Rightarrow> string option" where
  "bounded v = (if v \<noteq> [] \<and> length v \<le> MAX_TEXT_LENGTH then Some v else None)"

definition observation_of ::
  "string \<Rightarrow> playback_state \<Rightarrow> now_playing option \<Rightarrow> u64 \<Rightarrow> playback_observation" where
  "observation_of z st np t =
     \<lparr>po_zone_id = z, po_state = playback_state_display st,
      po_title = Option.bind np (\<lambda>x. bounded (np_title x)),
      po_artist = Option.bind np (\<lambda>x. bounded (np_artist x)),
      po_album = Option.bind np (\<lambda>x. bounded (np_album x)),
      po_image_key = Option.bind np (\<lambda>x. Option.bind (np_image_key x) bounded),
      po_reference = None, po_source = ''aggregator'', po_confidence = ''observed_unresolved'',
      po_observed_at = t\<rparr>"

definition last_seen :: "playback_observation list \<Rightarrow> u64" where
  "last_seen vs = (if vs = [] then 0 else po_observed_at (last vs))"

function evict_zones :: "observation_history \<Rightarrow> observation_history" where
  "evict_zones h =
     (if length h \<le> MAX_ZONES then h
      else case min_by_key (\<lambda>kv. last_seen (snd kv)) h of
        None \<Rightarrow> h
      | Some oldest \<Rightarrow> evict_zones (hm_remove (fst oldest) h))"
  by pat_completeness auto
termination
  by (relation "measure length") (auto simp: length_hm_remove min_by_key_mem)

declare evict_zones.simps [simp del]

definition history_record ::
  "string \<Rightarrow> playback_state \<Rightarrow> now_playing option \<Rightarrow> u64 \<Rightarrow> observation_history \<Rightarrow>
     observation_history" where
  "history_record z st np t h =
     (let x = observation_of z st np t;
          vs = (case map_of h z of None \<Rightarrow> [] | Some vs \<Rightarrow> vs) in
      if vs \<noteq> [] \<and> same_snapshot (last vs) x then h
      else let vs1 = vs @ [x];
               vs2 = drop (length vs1 - MAX_RECORDS_PER_ZONE) vs1
           in evict_zones (hm_insert z vs2 h))"

definition record_zone :: "zone \<Rightarrow> u64 \<Rightarrow> observation_history \<Rightarrow> observation_history" where
  "record_zone z t h =
     (if is_applemusic_zone_id (zn_zone_id z)
      then history_record (zn_zone_id z) (zn_state z) (zn_now_playing z) t h else h)"

definition record_state ::
  "string \<Rightarrow> playback_state \<Rightarrow> u64 \<Rightarrow> observation_history \<Rightarrow> observation_history" where
  "record_state z st t h = (if is_applemusic_zone_id z then history_record z st None t h else h)"

definition record_now_playing ::
  "string \<Rightarrow> playback_state \<Rightarrow> now_playing option \<Rightarrow> u64 \<Rightarrow> observation_history \<Rightarrow>
     observation_history" where
  "record_now_playing z st np t h =
     (if is_applemusic_zone_id z then history_record z st np t h else h)"

definition recent :: "string \<Rightarrow> nat \<Rightarrow> observation_history \<Rightarrow> playback_observation list" where
  "recent z limit h =
     take (min limit MAX_RECORDS_PER_ZONE) (rev (case map_of h z of None \<Rightarrow> [] | Some vs \<Rightarrow> vs))"

definition clear_zone :: "string \<Rightarrow> observation_history \<Rightarrow> observation_history" where
  "clear_zone z h = (if is_applemusic_zone_id z then hm_remove z h else h)"

section \<open>The invariant\<close>

text \<open>
  A list of a history: bounded, of its own zone, without an identity minted from text, and no two
  neighbours alike.
\<close>

fun no_repeats :: "playback_observation list \<Rightarrow> bool" where
  "no_repeats (x # y # vs) = (\<not> same_snapshot x y \<and> no_repeats (y # vs))"
| "no_repeats vs = True"

definition zone_history_ok :: "string \<Rightarrow> playback_observation list \<Rightarrow> bool" where
  "zone_history_ok z vs \<longleftrightarrow>
     is_applemusic_zone_id z \<and> vs \<noteq> [] \<and> length vs \<le> MAX_RECORDS_PER_ZONE \<and> no_repeats vs \<and>
     (\<forall>x \<in> set vs. po_zone_id x = z \<and> po_reference x = None)"

definition history_ok :: "observation_history \<Rightarrow> bool" where
  "history_ok h \<longleftrightarrow>
     hm_wf h \<and> length h \<le> MAX_ZONES \<and> (\<forall>(z, vs) \<in> set h. zone_history_ok z vs)"

lemma no_repeats_append: "no_repeats (vs @ [x]) \<longleftrightarrow> no_repeats vs \<and> (vs = [] \<or> \<not> same_snapshot (last vs) x)"
  by (induction vs rule: no_repeats.induct) auto

lemma no_repeats_drop: "no_repeats vs \<Longrightarrow> no_repeats (drop n vs)"
proof (induction n arbitrary: vs)
  case (Suc n)
  have "no_repeats (tl vs)" using Suc.prems by (cases vs rule: no_repeats.cases) auto
  then show ?case using Suc.IH [of "tl vs"] by (simp add: drop_Suc)
qed simp

lemma hm_wf_evict: "hm_wf h \<Longrightarrow> hm_wf (evict_zones h)"
  by (induction h rule: evict_zones.induct) (subst evict_zones.simps, auto split: option.splits)

lemma set_evict: "set (evict_zones h) \<subseteq> set h"
proof (induction h rule: evict_zones.induct)
  case (1 h)
  show ?case
  proof (cases "length h \<le> MAX_ZONES")
    case False
    show ?thesis
    proof (cases "min_by_key (\<lambda>kv. last_seen (snd kv)) h")
      case (Some x)
      have "evict_zones h = evict_zones (hm_remove (fst x) h)"
        using False Some by (subst evict_zones.simps) simp
      with 1 [OF False Some] show ?thesis using set_hm_remove by fastforce
    qed (subst evict_zones.simps, simp)
  qed (subst evict_zones.simps, simp)
qed

lemma length_evict: "length (evict_zones h) \<le> MAX_ZONES"
proof (induction h rule: evict_zones.induct)
  case (1 h)
  then show ?case by (subst evict_zones.simps) (auto split: option.splits simp: MAX_ZONES_def)
qed

lemma zone_history_ok_push:
  assumes old: "vs = [] \<or> zone_history_ok z vs" and z: "is_applemusic_zone_id z"
    and new: "vs = [] \<or> \<not> same_snapshot (last vs) x" and x: "po_zone_id x = z" "po_reference x = None"
  shows "zone_history_ok z (drop (length (vs @ [x]) - MAX_RECORDS_PER_ZONE) (vs @ [x]))"
proof -
  have "no_repeats (vs @ [x])" using old new by (auto simp: no_repeats_append zone_history_ok_def)
  then have "no_repeats (drop n (vs @ [x]))" for n by (rule no_repeats_drop)
  moreover have "\<forall>y \<in> set (drop n (vs @ [x])). po_zone_id y = z \<and> po_reference y = None" for n
    using old x by (auto simp: zone_history_ok_def dest: in_set_dropD)
  moreover have "length (drop (length (vs @ [x]) - MAX_RECORDS_PER_ZONE) (vs @ [x])) \<le> MAX_RECORDS_PER_ZONE"
    "drop (length (vs @ [x]) - MAX_RECORDS_PER_ZONE) (vs @ [x]) \<noteq> []"
    unfolding length_drop drop_eq_Nil by (simp_all add: MAX_RECORDS_PER_ZONE_def)
  ultimately show ?thesis using z unfolding zone_history_ok_def by blast
qed

lemma history_record_ok:
  assumes "history_ok h" "is_applemusic_zone_id z"
  shows "history_ok (history_record z st np t h)"
proof -
  define x where "x = observation_of z st np t"
  define vs where "vs = (case map_of h z of None \<Rightarrow> [] | Some vs \<Rightarrow> vs)"
  define vs2 where "vs2 = drop (length (vs @ [x]) - MAX_RECORDS_PER_ZONE) (vs @ [x])"
  have h: "hm_wf h" "\<And>z vs. (z, vs) \<in> set h \<Longrightarrow> zone_history_ok z vs"
    using assms(1) by (auto simp: history_ok_def)
  have "vs = [] \<or> zone_history_ok z vs"
    using h by (auto simp: vs_def split: option.splits dest: map_of_SomeD)
  then have new: "vs = [] \<or> \<not> same_snapshot (last vs) x \<Longrightarrow> zone_history_ok z vs2"
    using assms(2) unfolding vs2_def
    by (intro zone_history_ok_push) (simp_all add: x_def observation_of_def)
  have eq: "history_record z st np t h =
      (if vs \<noteq> [] \<and> same_snapshot (last vs) x then h else evict_zones (hm_insert z vs2 h))"
    by (simp add: history_record_def Let_def x_def vs_def vs2_def)
  have "history_ok (evict_zones (hm_insert z vs2 h))" if "zone_history_ok z vs2"
    using h that set_evict [of "hm_insert z vs2 h"]
    by (auto simp: history_ok_def hm_wf_evict length_evict set_hm_insert)
  with assms(1) new show ?thesis unfolding eq by auto
qed

lemma record_ok [simp, intro]:
  assumes "history_ok h"
  shows "history_ok (record_zone zn t h)" "history_ok (record_state z st t h)"
    "history_ok (record_now_playing z st np t h)" "history_ok (clear_zone z h)"
proof -
  have "length (hm_remove z h) \<le> length h" by (simp add: hm_remove_def length_delete_le)
  moreover have "length h \<le> MAX_ZONES" "hm_wf h" using assms by (simp_all add: history_ok_def)
  moreover have "\<forall>(z, vs) \<in> set (hm_remove z h). zone_history_ok z vs"
    using assms set_hm_remove [of z h] unfolding history_ok_def by blast
  ultimately have "history_ok (hm_remove z h)" unfolding history_ok_def by simp
  then show "history_ok (clear_zone z h)" by (simp add: clear_zone_def assms)
qed (simp_all add: assms record_zone_def record_state_def record_now_playing_def history_record_ok)

lemma history_ok_Nil [simp]: "history_ok []"
  by (simp add: history_ok_def)

lemma recent_bounds: "length (recent z n h) \<le> min n MAX_RECORDS_PER_ZONE"
  unfolding recent_def length_take by (rule min.cobounded2)

lemma recent_zone:
  assumes "history_ok h" "x \<in> set (recent z n h)"
  shows "po_zone_id x = z \<and> po_reference x = None \<and> is_applemusic_zone_id z"
proof -
  obtain vs where vs: "map_of h z = Some vs" "x \<in> set vs"
    using assms(2) unfolding recent_def
    by (cases "map_of h z") (simp_all only: option.case rev.simps take_Nil set_simps empty_iff,
        metis in_set_takeD set_rev)
  then have "zone_history_ok z vs"
    using assms(1) map_of_SomeD [of h z vs] unfolding history_ok_def by blast
  with vs(2) show ?thesis by (simp add: zone_history_ok_def)
qed

lemma recent_clear: "is_applemusic_zone_id z \<Longrightarrow> recent z n (clear_zone z h) = []"
  by (simp add: recent_def clear_zone_def)

lemma recent_other_clear: "z' \<noteq> z \<Longrightarrow> recent z' n (clear_zone z h) = recent z' n h"
  by (simp add: recent_def clear_zone_def)

end
