(* ===== verification/Zone_Aggregator.thy ===== *)
theory Zone_Aggregator
  imports Uhc_Prelude Bus_Events Hqp_Native Observation_History
begin

text \<open>
  The zone aggregator (\<open>src/aggregator.rs\<close>), the one owner of canonical state: the compatibility events
  it consumes, the reliable projections it commits, the queries it answers and the HQPlayer sink it
  implements. Every operation holds the write lock from its first read to its last write, so it is one
  step; what it publishes on the bus is the list it returns.
\<close>

section \<open>State\<close>

datatype hqp_snapshot_presence = SnapLive | SnapLastKnown

record hqp_snapshot =
  hsn_observation :: hqp_observation
  hsn_advanced :: "hqp_advanced option"
  hsn_profiles :: "hqp_profile list option"
  hsn_profiles_error :: "string option"
  hsn_presence :: hqp_snapshot_presence
  hsn_revision :: u64
  hsn_last_failure_at :: "system_time option"

record projection_cursor =
  pc_epoch :: u64
  pc_sequence :: u64
  pc_freshness :: projection_freshness

record aggregate_state =
  ag_zones :: "(string \<times> zone) list"
  ag_volume_capabilities :: "(string \<times> bool) list"
  ag_hqplayer_snapshots :: "(string \<times> hqp_snapshot) list"
  ag_hqplayer_outputs :: "(string \<times> hqp_output_projection) list"
  ag_projection_revision :: u64
  ag_source_cursors :: "(string \<times> projection_cursor) list"
  ag_projection_entries :: "(string \<times> (u64 \<times> projection_payload)) list"

record zone_aggregator =
  za_state :: aggregate_state
  za_provider_accounts :: "(string \<times> provider_account) list"
  za_adapter_errors :: "(string \<times> string) list"
  za_observed_playback :: observation_history

definition aggregate_default :: aggregate_state where
  "aggregate_default =
     \<lparr>ag_zones = [], ag_volume_capabilities = [], ag_hqplayer_snapshots = [],
      ag_hqplayer_outputs = [], ag_projection_revision = 0, ag_source_cursors = [],
      ag_projection_entries = []\<rparr>"

definition aggregator_new :: zone_aggregator where
  "aggregator_new =
     \<lparr>za_state = aggregate_default, za_provider_accounts = [], za_adapter_errors = [],
      za_observed_playback = []\<rparr>"

section \<open>Compatibility events\<close>

text \<open>\<open>unwrap_or_default\<close> of an optional text.\<close>

abbreviation text_or :: "string option \<Rightarrow> string" where
  "text_or t \<equiv> (case t of None \<Rightarrow> [] | Some s \<Rightarrow> s)"

definition merge_now_playing ::
  "string option \<Rightarrow> string option \<Rightarrow> string option \<Rightarrow> string option \<Rightarrow> now_playing option \<Rightarrow>
     now_playing option" where
  "merge_now_playing title artist album image_key old =
     (if title = None \<and> artist = None \<and> album = None \<and> image_key = None then None
      else
        let same_track = (case old of
              None \<Rightarrow> False
            | Some np \<Rightarrow> text_or title = np_title np \<and> text_or artist = np_artist np \<and>
                text_or album = np_album np)
        in Some \<lparr>np_title = text_or title, np_artist = text_or artist, np_album = text_or album,
             np_image_key = image_key,
             np_seek_position = Option.bind old np_seek_position,
             np_duration = Option.bind old np_duration,
             np_metadata = (if same_track then Option.bind old np_metadata else None),
             np_repeat_mode = Option.bind old np_repeat_mode,
             np_shuffle = Option.bind old np_shuffle\<rparr>)"

text \<open>The first zone of the iteration whose volume control names the output, and no other.\<close>

definition volume_matches :: "string \<Rightarrow> zone \<Rightarrow> bool" where
  "volume_matches oid z \<longleftrightarrow> Option.bind (zn_volume_control z) vc_output_id = Some oid"

definition set_volume :: "f32 \<Rightarrow> bool \<Rightarrow> zone \<Rightarrow> zone" where
  "set_volume value muted z =
     z\<lparr>zn_volume_control :=
        map_option (\<lambda>vc. vc\<lparr>vc_value := value, vc_is_muted := muted\<rparr>) (zn_volume_control z)\<rparr>"

fun volume_changed ::
  "string \<Rightarrow> f32 \<Rightarrow> bool \<Rightarrow> (string \<times> zone) list \<Rightarrow> (string \<times> zone) list" where
  "volume_changed oid value muted [] = []"
| "volume_changed oid value muted ((k, z) # zs) =
     (if volume_matches oid z then (k, set_volume value muted z) # zs
      else (k, z) # volume_changed oid value muted zs)"

definition set_modes :: "repeat_mode option \<Rightarrow> bool option \<Rightarrow> zone \<Rightarrow> zone" where
  "set_modes rm sh z =
     z\<lparr>zn_now_playing :=
        map_option (\<lambda>np. np\<lparr>np_repeat_mode := rm, np_shuffle := sh\<rparr>) (zn_now_playing z)\<rparr>"

definition set_seek :: "i64 \<Rightarrow> zone \<Rightarrow> zone" where
  "set_seek position z =
     z\<lparr>zn_now_playing :=
        map_option (\<lambda>np. np\<lparr>np_seek_position := Some (i64_to_f64 position)\<rparr>) (zn_now_playing z)\<rparr>"

text \<open>What an event does to the canonical state, the write under the state lock.\<close>

definition on_discovered :: "zone \<Rightarrow> aggregate_state \<Rightarrow> aggregate_state" where
  "on_discovered z ag =
     ag\<lparr>ag_volume_capabilities :=
          hm_insert (zn_zone_id z) (zn_volume_control z \<noteq> None) (ag_volume_capabilities ag),
        ag_zones := hm_insert (zn_zone_id z) z (ag_zones ag)\<rparr>"

definition on_updated :: "prefixed_zone_id \<Rightarrow> string \<Rightarrow> string \<Rightarrow> aggregate_state \<Rightarrow> aggregate_state" where
  "on_updated zid name st ag =
     ag\<lparr>ag_zones := hm_modify (zid_str zid)
          (\<lambda>z. z\<lparr>zn_zone_name := name, zn_state := playback_state_from st\<rparr>) (ag_zones ag)\<rparr>"

definition on_removed :: "prefixed_zone_id \<Rightarrow> aggregate_state \<Rightarrow> aggregate_state" where
  "on_removed zid ag =
     ag\<lparr>ag_zones := hm_remove (zid_str zid) (ag_zones ag),
        ag_volume_capabilities := hm_remove (zid_str zid) (ag_volume_capabilities ag)\<rparr>"

definition on_now_playing ::
  "prefixed_zone_id \<Rightarrow> string option \<Rightarrow> string option \<Rightarrow> string option \<Rightarrow> string option \<Rightarrow>
     aggregate_state \<Rightarrow> (playback_state \<times> now_playing option) \<times> aggregate_state" where
  "on_now_playing zid title artist album image_key ag =
     (case map_of (ag_zones ag) (zid_str zid) of
        None \<Rightarrow> ((PS_Unknown, None), ag)
      | Some z \<Rightarrow>
          (let np = merge_now_playing title artist album image_key (zn_now_playing z) in
           ((zn_state z, np),
            ag\<lparr>ag_zones := hm_modify (zid_str zid) (\<lambda>z. z\<lparr>zn_now_playing := np\<rparr>) (ag_zones ag)\<rparr>)))"

definition on_capability :: "prefixed_zone_id \<Rightarrow> bool \<Rightarrow> aggregate_state \<Rightarrow> aggregate_state" where
  "on_capability zid supported ag =
     (if map_of (ag_zones ag) (zid_str zid) \<noteq> None
      then ag\<lparr>ag_volume_capabilities :=
             hm_insert (zid_str zid) supported (ag_volume_capabilities ag)\<rparr>
      else ag)"

definition adapter_zone_ids :: "string \<Rightarrow> aggregate_state \<Rightarrow> string list" where
  "adapter_zone_ids adapter ag =
     filter (\<lambda>k. starts_with k (adapter @ '':'')) (map fst (ag_zones ag))"

definition on_stopping :: "string \<Rightarrow> aggregate_state \<Rightarrow> string list \<times> aggregate_state" where
  "on_stopping adapter ag =
     (let ids = adapter_zone_ids adapter ag in
      (ids, ag\<lparr>ag_zones := fold hm_remove ids (ag_zones ag),
               ag_volume_capabilities := fold hm_remove ids (ag_volume_capabilities ag)\<rparr>))"

text \<open>One received event: the new state and what it publishes. \<open>now\<close> is the wall clock in seconds.\<close>

definition handle_event ::
  "u64 \<Rightarrow> bus_event \<Rightarrow> zone_aggregator \<Rightarrow> zone_aggregator \<times> bus_event list" where
  "handle_event now e za =
     (case e of
        ZoneDiscovered z \<Rightarrow>
          (za\<lparr>za_observed_playback := record_zone z now (za_observed_playback za),
              za_state := on_discovered z (za_state za)\<rparr>, [])
      | ZoneUpdated zid name st \<Rightarrow>
          (za\<lparr>za_observed_playback :=
                record_state (zid_str zid) (playback_state_from st) now (za_observed_playback za),
              za_state := on_updated zid name st (za_state za)\<rparr>, [])
      | ZoneRemoved zid \<Rightarrow>
          (za\<lparr>za_observed_playback := clear_zone (zid_str zid) (za_observed_playback za),
              za_state := on_removed zid (za_state za)\<rparr>, [])
      | ProviderAccountUpdated provider account \<Rightarrow>
          (za\<lparr>za_provider_accounts :=
                (case account of
                   Some a \<Rightarrow> hm_insert provider a (za_provider_accounts za)
                 | None \<Rightarrow> hm_remove provider (za_provider_accounts za))\<rparr>, [])
      | AdapterError adapter err \<Rightarrow>
          (za\<lparr>za_adapter_errors := hm_insert adapter err (za_adapter_errors za)\<rparr>, [])
      | AdapterConnected adapter _ \<Rightarrow>
          (za\<lparr>za_adapter_errors := hm_remove adapter (za_adapter_errors za)\<rparr>, [])
      | NowPlayingChanged zid title artist album image_key \<Rightarrow>
          (let ((st, np), ag) = on_now_playing zid title artist album image_key (za_state za) in
           (za\<lparr>za_state := ag,
               za_observed_playback :=
                 record_now_playing (zid_str zid) st np now (za_observed_playback za)\<rparr>, []))
      | PlaybackModesChanged zid rm sh \<Rightarrow>
          (za\<lparr>za_state := (za_state za)\<lparr>ag_zones :=
                hm_modify (zid_str zid) (set_modes rm sh) (ag_zones (za_state za))\<rparr>\<rparr>, [])
      | VolumeChanged oid value muted \<Rightarrow>
          (za\<lparr>za_state := (za_state za)\<lparr>ag_zones :=
                volume_changed oid value muted (ag_zones (za_state za))\<rparr>\<rparr>, [])
      | VolumeCapabilityChanged zid supported \<Rightarrow>
          (za\<lparr>za_state := on_capability zid supported (za_state za)\<rparr>, [])
      | SeekPositionChanged zid position \<Rightarrow>
          (za\<lparr>za_state := (za_state za)\<lparr>ag_zones :=
                hm_modify (zid_str zid) (set_seek position) (ag_zones (za_state za))\<rparr>\<rparr>, [])
      | AdapterStopping adapter _ \<Rightarrow>
          (let (ids, ag) = on_stopping adapter (za_state za) in
           (za\<lparr>za_state := ag,
               za_observed_playback :=
                 (if adapter = ''applemusic'' then fold clear_zone ids (za_observed_playback za)
                  else za_observed_playback za),
               za_provider_accounts := hm_remove adapter (za_provider_accounts za),
               za_adapter_errors := hm_remove adapter (za_adapter_errors za)\<rparr>,
            [ZonesFlushed adapter ids]))
      | _ \<Rightarrow> (za, []))"

text \<open>
  The receive loop over what the subscription delivers: a lagged receiver keeps going, a closed bus or
  a shutdown ends it.
\<close>

datatype bus_recv = Received u64 bus_event | Lagged u64 | BusClosed

fun aggregator_run :: "bus_recv list \<Rightarrow> zone_aggregator \<Rightarrow> zone_aggregator \<times> bus_event list \<times> bool" where
  "aggregator_run [] za = (za, [], True)"
| "aggregator_run (Lagged n # rs) za = aggregator_run rs za"
| "aggregator_run (BusClosed # rs) za = (za, [], False)"
| "aggregator_run (Received now (ShuttingDown r) # rs) za = (za, [], False)"
| "aggregator_run (Received now e # rs) za =
     (let (za1, out1) = handle_event now e za;
          (za2, out2, live) = aggregator_run rs za1
      in (za2, out1 @ out2, live))"

section \<open>Queries\<close>

definition get_zones :: "zone_aggregator \<Rightarrow> zone list" where
  "get_zones za = map snd (ag_zones (za_state za))"

definition get_zones_by_adapter :: "string \<Rightarrow> zone_aggregator \<Rightarrow> zone list" where
  "get_zones_by_adapter adapter za =
     filter (\<lambda>z. starts_with (zn_zone_id z) (adapter @ '':'')) (map snd (ag_zones (za_state za)))"

definition get_zone :: "string \<Rightarrow> zone_aggregator \<Rightarrow> zone option" where
  "get_zone zid za = map_of (ag_zones (za_state za)) zid"

definition has_volume_control :: "string \<Rightarrow> zone_aggregator \<Rightarrow> bool option" where
  "has_volume_control zid za =
     (case map_of (ag_zones (za_state za)) zid of
        None \<Rightarrow> None
      | Some z \<Rightarrow>
          Some (case map_of (ag_volume_capabilities (za_state za)) zid of
                  Some c \<Rightarrow> c
                | None \<Rightarrow> zn_volume_control z \<noteq> None))"

definition get_now_playing :: "string \<Rightarrow> zone_aggregator \<Rightarrow> now_playing option" where
  "get_now_playing zid za = Option.bind (map_of (ag_zones (za_state za)) zid) zn_now_playing"

definition zone_count :: "zone_aggregator \<Rightarrow> nat" where
  "zone_count za = length (ag_zones (za_state za))"

definition get_provider_account :: "string \<Rightarrow> zone_aggregator \<Rightarrow> provider_account option" where
  "get_provider_account provider za = map_of (za_provider_accounts za) provider"

definition get_adapter_error :: "string \<Rightarrow> zone_aggregator \<Rightarrow> string option" where
  "get_adapter_error adapter za = map_of (za_adapter_errors za) adapter"

definition get_hqplayer_snapshot :: "string \<Rightarrow> zone_aggregator \<Rightarrow> hqp_snapshot option" where
  "get_hqplayer_snapshot i za = map_of (ag_hqplayer_snapshots (za_state za)) i"

definition get_hqplayer_snapshots :: "zone_aggregator \<Rightarrow> hqp_snapshot list" where
  "get_hqplayer_snapshots za = map snd (ag_hqplayer_snapshots (za_state za))"

definition get_hqplayer_outputs :: "string \<Rightarrow> zone_aggregator \<Rightarrow> hqp_output_projection option" where
  "get_hqplayer_outputs i za = map_of (ag_hqplayer_outputs (za_state za)) i"

end
