(* ===== verification/Projection_Commit.thy ===== *)
theory Projection_Commit
  imports Zone_Aggregator
begin

text \<open>
  The reliable lane of the aggregator (\<open>src/aggregator.rs\<close>): the admission of an update against its
  source's cursor, the commit of its entries under one revision, the compatibility events published
  after it, and the HQPlayer sink, the second door to the same state.
\<close>

section \<open>HQPlayer snapshots\<close>

text \<open>
  The snapshot an observation installs. The advanced view survives only the same native session, the
  profile inventory only the same endpoint.
\<close>

definition same_native_session :: "hqp_observation \<Rightarrow> hqp_snapshot \<Rightarrow> bool" where
  "same_native_session ob current \<longleftrightarrow>
     ho_execution_target (hsn_observation current) = ho_execution_target ob"

definition same_endpoint :: "hqp_observation \<Rightarrow> hqp_snapshot \<Rightarrow> bool" where
  "same_endpoint ob current \<longleftrightarrow>
     et_instance_name (ho_execution_target (hsn_observation current)) =
       et_instance_name (ho_execution_target ob) \<and>
     et_endpoint_generation (ho_execution_target (hsn_observation current)) =
       et_endpoint_generation (ho_execution_target ob)"

definition kept_if :: "bool \<Rightarrow> 'a option \<Rightarrow> 'a option" where
  "kept_if c x = (if c then x else None)"

definition live_snapshot :: "hqp_observation \<Rightarrow> hqp_snapshot option \<Rightarrow> hqp_snapshot" where
  "live_snapshot ob previous =
     (case previous of
        None \<Rightarrow>
          \<lparr>hsn_observation = ob, hsn_advanced = None, hsn_profiles = None, hsn_profiles_error = None,
           hsn_presence = SnapLive, hsn_revision = 1, hsn_last_failure_at = None\<rparr>
      | Some c \<Rightarrow>
          \<lparr>hsn_observation = ob,
           hsn_advanced = kept_if (same_native_session ob c) (hsn_advanced c),
           hsn_profiles = kept_if (same_endpoint ob c) (hsn_profiles c),
           hsn_profiles_error = kept_if (same_endpoint ob c) (hsn_profiles_error c),
           hsn_presence = SnapLive, hsn_revision = sat_succ (hsn_revision c), hsn_last_failure_at = None\<rparr>)"

definition admit_observation ::
  "hqp_observation \<Rightarrow> (string \<times> hqp_snapshot) list \<Rightarrow> (string \<times> hqp_snapshot) list" where
  "admit_observation ob sns =
     (case map_of sns (ho_instance_name ob) of
        Some c \<Rightarrow>
          if ho_producer_epoch (hsn_observation c) \<le> ho_producer_epoch ob
          then hm_insert (ho_instance_name ob) (live_snapshot ob (Some c)) sns
          else sns
      | None \<Rightarrow> hm_insert (ho_instance_name ob) (live_snapshot ob None) sns)"

definition attach_advanced :: "hqp_advanced \<Rightarrow> hqp_snapshot \<Rightarrow> hqp_snapshot" where
  "attach_advanced adv c =
     (if ho_execution_target (hsn_observation c) = ha_execution_target adv
      then c\<lparr>hsn_observation := (hsn_observation c)\<lparr>ho_pipeline := ha_pipeline adv\<rparr>,
             hsn_advanced := Some adv, hsn_revision := sat_succ (hsn_revision c)\<rparr>
      else c)"

definition attach_profiles :: "string + hqp_profile list \<Rightarrow> hqp_snapshot \<Rightarrow> hqp_snapshot" where
  "attach_profiles res c =
     (let c1 = (case res of
            Inr ps \<Rightarrow> c\<lparr>hsn_profiles := Some ps, hsn_profiles_error := None\<rparr>
          | Inl err \<Rightarrow> c\<lparr>hsn_profiles_error := Some err\<rparr>)
      in c1\<lparr>hsn_revision := sat_succ (hsn_revision c)\<rparr>)"

definition mark_last_known :: "hqp_snapshot \<Rightarrow> hqp_snapshot" where
  "mark_last_known c = c\<lparr>hsn_presence := SnapLastKnown, hsn_revision := sat_succ (hsn_revision c)\<rparr>"

definition mark_failed :: "system_time \<Rightarrow> hqp_snapshot \<Rightarrow> hqp_snapshot" where
  "mark_failed t c =
     c\<lparr>hsn_presence := SnapLastKnown, hsn_revision := sat_succ (hsn_revision c),
       hsn_last_failure_at := Some t\<rparr>"

definition snapshot_of_epoch :: "u64 \<Rightarrow> hqp_snapshot option \<Rightarrow> bool" where
  "snapshot_of_epoch epoch c =
     (case c of None \<Rightarrow> False | Some s \<Rightarrow> ho_producer_epoch (hsn_observation s) = epoch)"

section \<open>Committing one entry\<close>

text \<open>The state under construction, the zones changed and the zones removed so far.\<close>

type_synonym commit_progress = "aggregate_state \<times> zone list \<times> prefixed_zone_id list"

definition take_zone :: "string \<Rightarrow> prefixed_zone_id \<Rightarrow> commit_progress \<Rightarrow> commit_progress" where
  "take_zone key zid = (\<lambda>(ag, changed, removed).
     if map_of (ag_zones ag) key \<noteq> None
     then (ag\<lparr>ag_zones := hm_remove key (ag_zones ag)\<rparr>, changed, removed @ [zid])
     else (ag, changed, removed))"

definition map_snapshots ::
  "((string \<times> hqp_snapshot) list \<Rightarrow> (string \<times> hqp_snapshot) list) \<Rightarrow> commit_progress \<Rightarrow>
     commit_progress" where
  "map_snapshots f = (\<lambda>(ag, changed, removed).
     (ag\<lparr>ag_hqplayer_snapshots := f (ag_hqplayer_snapshots ag)\<rparr>, changed, removed))"

definition map_outputs ::
  "((string \<times> hqp_output_projection) list \<Rightarrow> (string \<times> hqp_output_projection) list) \<Rightarrow>
     commit_progress \<Rightarrow> commit_progress" where
  "map_outputs f = (\<lambda>(ag, changed, removed).
     (ag\<lparr>ag_hqplayer_outputs := f (ag_hqplayer_outputs ag)\<rparr>, changed, removed))"

definition admit_outputs ::
  "u64 \<Rightarrow> u64 \<Rightarrow> string \<Rightarrow> hqp_output_projection \<Rightarrow> (string \<times> hqp_output_projection) list \<Rightarrow>
     (string \<times> hqp_output_projection) list" where
  "admit_outputs epoch revision i p outs =
     (let committed = p\<lparr>op_source_epoch := epoch, op_aggregate_revision := revision\<rparr> in
      if (case map_of outs i of
            None \<Rightarrow> True
          | Some c \<Rightarrow>
              op_source_epoch committed > op_source_epoch c \<or>
              (op_source_epoch committed = op_source_epoch c \<and>
               op_output_revision c \<le> op_output_revision committed))
      then hm_insert i committed outs else outs)"

definition lifecycle_stopped :: "u64 \<Rightarrow> u64 \<Rightarrow> hqp_output_projection \<Rightarrow> hqp_output_projection" where
  "lifecycle_stopped now revision p =
     p\<lparr>op_availability := OA_Unavailable ''HQPlayer lifecycle stopped'' now,
       op_session := None, op_observed_forwarding_destination := None,
       op_aggregate_revision := revision\<rparr>"

definition remove_instance :: "string \<Rightarrow> u64 \<Rightarrow> commit_progress \<Rightarrow> commit_progress" where
  "remove_instance i epoch = (\<lambda>(ag, changed, removed).
     map_outputs (hm_remove i)
       (if snapshot_of_epoch epoch (map_of (ag_hqplayer_snapshots ag) i)
        then take_zone (''hqplayer:'' @ i) (zid_hqplayer i)
               (map_snapshots (hm_remove i) (ag, changed, removed))
        else (ag, changed, removed)))"

definition manager_stop :: "u64 \<Rightarrow> u64 \<Rightarrow> aggregate_state \<Rightarrow> aggregate_state" where
  "manager_stop now revision ag =
     ag\<lparr>ag_hqplayer_snapshots := hm_modify_all mark_last_known (ag_hqplayer_snapshots ag),
        ag_hqplayer_outputs := hm_modify_all (lifecycle_stopped now revision) (ag_hqplayer_outputs ag),
        ag_zones := hm_retain (\<lambda>k. \<not> starts_with k ''hqplayer:'') (ag_zones ag)\<rparr>"

text \<open>\<open>now\<close> is the wall clock a stop of the manager stamps its documents with.\<close>

definition apply_payload ::
  "u64 \<Rightarrow> u64 \<Rightarrow> u64 \<Rightarrow> projection_payload \<Rightarrow> commit_progress \<Rightarrow> commit_progress" where
  "apply_payload now epoch revision payload = (\<lambda>(ag, changed, removed).
     case payload of
       PP_Zone z \<Rightarrow>
         (ag\<lparr>ag_zones := hm_insert (zn_zone_id z) z (ag_zones ag)\<rparr>, changed @ [z], removed)
     | PP_ZoneRemoved zid \<Rightarrow> take_zone (zid_str zid) zid (ag, changed, removed)
     | PP_HqpObservation ob \<Rightarrow> map_snapshots (admit_observation ob) (ag, changed, removed)
     | PP_HqpAdvanced i adv \<Rightarrow>
         map_snapshots (hm_modify i (attach_advanced adv)) (ag, changed, removed)
     | PP_HqpProfiles i res \<Rightarrow>
         map_snapshots (hm_modify i (attach_profiles res)) (ag, changed, removed)
     | PP_HqpTransientFailure i t \<Rightarrow>
         map_snapshots (hm_modify i (mark_failed t)) (ag, changed, removed)
     | PP_HqpRemoved i e \<Rightarrow> remove_instance i e (ag, changed, removed)
     | PP_HqpOutputs i p \<Rightarrow> map_outputs (admit_outputs epoch revision i p) (ag, changed, removed)
     | PP_HqpManagerStopped \<Rightarrow> (manager_stop now revision ag, changed, removed)
     | PP_Marker m \<Rightarrow> (ag, changed, removed))"

definition commit_entry ::
  "u64 \<Rightarrow> u64 \<Rightarrow> u64 \<Rightarrow> projection_entry \<Rightarrow> commit_progress \<Rightarrow> commit_progress" where
  "commit_entry now epoch revision e p =
     (let (ag, changed, removed) = apply_payload now epoch revision (pe_payload e) p in
      (ag\<lparr>ag_projection_entries :=
            bt_insert (pe_key e) (revision, pe_payload e) (ag_projection_entries ag)\<rparr>,
       changed, removed))"

section \<open>Compatibility hints\<close>

text \<open>\<open>position.round() as i64\<close>: half away from zero, then saturating, NaN to zero.\<close>

definition f64_round_i64 :: "f64 \<Rightarrow> i64" where
  "f64_round_i64 x =
     (case x of
        NaN \<Rightarrow> 0
      | NegInf \<Rightarrow> word_of_int (- (2 ^ 63))
      | PosInf \<Rightarrow> word_of_int (2 ^ 63 - 1)
      | Fin q \<Rightarrow>
          (let r = (if q \<ge> 0 then \<lfloor>q + 1 / 2\<rfloor> else - \<lfloor>1 / 2 - q\<rfloor>)
           in word_of_int (max (- (2 ^ 63)) (min (2 ^ 63 - 1) r))))"

definition zone_hints :: "zone \<Rightarrow> bus_event list" where
  "zone_hints z =
     (case zid_parse (zn_zone_id z) of
        None \<Rightarrow> []
      | Some zid \<Rightarrow>
          [ZoneDiscovered z, ZoneUpdated zid (zn_zone_name z) (playback_state_display (zn_state z))] @
          (case zn_now_playing z of
             None \<Rightarrow> []
           | Some np \<Rightarrow>
               NowPlayingChanged zid (Some (np_title np)) (Some (np_artist np)) (Some (np_album np))
                 (np_image_key np) #
               (case np_seek_position np of
                  None \<Rightarrow> []
                | Some p \<Rightarrow> [SeekPositionChanged zid (f64_round_i64 p)])) @
          (case zn_volume_control z of
             None \<Rightarrow> []
           | Some vc \<Rightarrow>
               [VolumeChanged (case vc_output_id vc of None \<Rightarrow> zn_zone_id z | Some x \<Rightarrow> x)
                  (vc_value vc) (vc_is_muted vc)]))"

section \<open>The commit\<close>

definition open_commit :: "projection_update \<Rightarrow> aggregate_state \<Rightarrow> aggregate_state" where
  "open_commit u ag =
     ag\<lparr>ag_projection_revision := sat_succ (ag_projection_revision ag),
        ag_source_cursors := hm_insert (source_identity (pu_source u))
          \<lparr>pc_epoch = src_epoch (pu_source u), pc_sequence = pu_sequence u, pc_freshness = PF_Fresh\<rparr>
          (ag_source_cursors ag)\<rparr>"

datatype cursor_check = CC_Commit | CC_Stale u64 u64 | CC_Gap u64

definition check_cursor :: "projection_update \<Rightarrow> projection_cursor option \<Rightarrow> cursor_check" where
  "check_cursor u cur =
     (case cur of
        None \<Rightarrow> CC_Commit
      | Some c \<Rightarrow>
          if src_epoch (pu_source u) < pc_epoch c \<or>
             src_epoch (pu_source u) = pc_epoch c \<and> pu_sequence u \<le> pc_sequence c
          then CC_Stale (pc_epoch c) (pc_sequence c)
          else if src_epoch (pu_source u) = pc_epoch c \<and>
             pu_sequence u > sat_succ (pc_sequence c) \<and> pu_kind u = PK_Delta
          then CC_Gap (sat_succ (pc_sequence c))
          else CC_Commit)"

definition commit_reliable_projection ::
  "u64 \<Rightarrow> projection_update \<Rightarrow> aggregate_state \<Rightarrow>
     projection_commit \<times> aggregate_state \<times> bus_event list" where
  "commit_reliable_projection now u ag =
     (let ident = source_identity (pu_source u) in
      case check_cursor u (map_of (ag_source_cursors ag) ident) of
        CC_Stale e s \<Rightarrow> (StaleIgnored e s, ag, [])
      | CC_Gap expected \<Rightarrow>
          (GapDetected expected (pu_sequence u),
           ag\<lparr>ag_source_cursors := hm_modify ident (\<lambda>c. c\<lparr>pc_freshness := PF_Reconciling\<rparr>)
                (ag_source_cursors ag)\<rparr>, [])
      | CC_Commit \<Rightarrow>
          (let ag1 = open_commit u ag;
               revision = ag_projection_revision ag1;
               (ag2, changed, removed) =
                 fold (commit_entry now (src_epoch (pu_source u)) revision) (pu_entries u)
                   (ag1, [], [])
           in (Committed revision, ag2, concat (map zone_hints changed) @ map ZoneRemoved removed)))"

section \<open>The HQPlayer sink\<close>

definition publish_hqplayer_advanced ::
  "string \<Rightarrow> hqp_advanced \<Rightarrow> aggregate_state \<Rightarrow> bool \<times> aggregate_state" where
  "publish_hqplayer_advanced i adv ag =
     (case map_of (ag_hqplayer_snapshots ag) i of
        None \<Rightarrow> (False, ag)
      | Some c \<Rightarrow>
          if ho_execution_target (hsn_observation c) \<noteq> ha_execution_target adv then (False, ag)
          else (True, ag\<lparr>ag_hqplayer_snapshots :=
                  hm_modify i (attach_advanced adv) (ag_hqplayer_snapshots ag)\<rparr>))"

definition publish_hqplayer_profiles ::
  "string \<Rightarrow> string + hqp_profile list \<Rightarrow> aggregate_state \<Rightarrow> bool \<times> aggregate_state" where
  "publish_hqplayer_profiles i res ag =
     (case map_of (ag_hqplayer_snapshots ag) i of
        None \<Rightarrow> (False, ag)
      | Some c \<Rightarrow>
          (True, ag\<lparr>ag_hqplayer_snapshots :=
             hm_modify i (attach_profiles res) (ag_hqplayer_snapshots ag)\<rparr>))"

definition sink_observed :: "hqp_observation \<Rightarrow> aggregate_state \<Rightarrow> aggregate_state" where
  "sink_observed ob ag =
     (if (case map_of (ag_hqplayer_snapshots ag) (ho_instance_name ob) of
            None \<Rightarrow> False
          | Some c \<Rightarrow> ho_producer_epoch (hsn_observation c) > ho_producer_epoch ob)
      then ag
      else ag\<lparr>ag_zones := hm_insert (zn_zone_id (ho_zone ob)) (ho_zone ob) (ag_zones ag),
              ag_hqplayer_snapshots := hm_insert (ho_instance_name ob)
                (live_snapshot ob (map_of (ag_hqplayer_snapshots ag) (ho_instance_name ob)))
                (ag_hqplayer_snapshots ag)\<rparr>)"

text \<open>The two attachments answer an error when the instance changed before the publication.\<close>

definition sink_advanced_observed ::
  "string \<Rightarrow> hqp_advanced \<Rightarrow> aggregate_state \<Rightarrow> bool \<times> aggregate_state" where
  "sink_advanced_observed i adv ag = publish_hqplayer_advanced i adv ag"

definition sink_profiles_observed ::
  "string \<Rightarrow> string + hqp_profile list \<Rightarrow> aggregate_state \<Rightarrow> bool \<times> aggregate_state" where
  "sink_profiles_observed i res ag = publish_hqplayer_profiles i res ag"

definition sink_transient_failure :: "string \<Rightarrow> system_time \<Rightarrow> aggregate_state \<Rightarrow> aggregate_state" where
  "sink_transient_failure i t ag =
     ag\<lparr>ag_hqplayer_snapshots := hm_modify i (mark_failed t) (ag_hqplayer_snapshots ag)\<rparr>"

definition sink_outputs_observed ::
  "string \<Rightarrow> hqp_output_projection \<Rightarrow> aggregate_state \<Rightarrow> aggregate_state" where
  "sink_outputs_observed i p ag =
     (let p1 = p\<lparr>op_aggregate_revision := ag_projection_revision ag\<rparr> in
      if (case map_of (ag_hqplayer_outputs ag) i of
            None \<Rightarrow> True
          | Some c \<Rightarrow> op_output_revision c \<le> op_output_revision p1)
      then ag\<lparr>ag_hqplayer_outputs := hm_insert i p1 (ag_hqplayer_outputs ag)\<rparr> else ag)"

definition sink_instance_removed :: "string \<Rightarrow> u64 \<Rightarrow> aggregate_state \<Rightarrow> aggregate_state" where
  "sink_instance_removed i epoch ag =
     (let ag1 =
        (if snapshot_of_epoch epoch (map_of (ag_hqplayer_snapshots ag) i)
         then ag\<lparr>ag_hqplayer_snapshots := hm_remove i (ag_hqplayer_snapshots ag)\<rparr> else ag)
      in ag1\<lparr>ag_hqplayer_outputs := hm_remove i (ag_hqplayer_outputs ag1)\<rparr>)"

definition sink_manager_stopped :: "aggregate_state \<Rightarrow> aggregate_state" where
  "sink_manager_stopped ag =
     ag\<lparr>ag_hqplayer_snapshots := hm_modify_all mark_last_known (ag_hqplayer_snapshots ag)\<rparr>"

end
