(* ===== verification/Zone_Facts.thy ===== *)
theory Zone_Facts
  imports Projection_Commit
begin

text \<open>
  What the zone aggregator keeps: the well-formedness of its state under every event and every
  projection, the order of its cursors and revisions over whole runs, and the effect of each kind of
  update.
\<close>

section \<open>The system\<close>

text \<open>
  Whatever reaches the aggregator, in the order in which the write lock serves it: events of the bus,
  its own compatibility hints among them, reliable projections, and calls of the sink.
\<close>

datatype za_event =
    ZE_Bus u64 bus_event
  | ZE_Commit u64 projection_update
  | ZE_Observed hqp_observation
  | ZE_Advanced string hqp_advanced
  | ZE_Profiles string "string + hqp_profile list"
  | ZE_Failure string system_time
  | ZE_Outputs string hqp_output_projection
  | ZE_Removed string u64
  | ZE_Stopped

definition on_state :: "(aggregate_state \<Rightarrow> aggregate_state) \<Rightarrow> zone_aggregator \<Rightarrow> zone_aggregator" where
  "on_state f za = za\<lparr>za_state := f (za_state za)\<rparr>"

definition za_step :: "zone_aggregator \<Rightarrow> za_event \<Rightarrow> zone_aggregator" where
  "za_step za e =
     (case e of
        ZE_Bus now b \<Rightarrow> fst (handle_event now b za)
      | ZE_Commit now u \<Rightarrow> on_state (\<lambda>ag. fst (snd (commit_reliable_projection now u ag))) za
      | ZE_Observed ob \<Rightarrow> on_state (sink_observed ob) za
      | ZE_Advanced i adv \<Rightarrow> on_state (\<lambda>ag. snd (sink_advanced_observed i adv ag)) za
      | ZE_Profiles i res \<Rightarrow> on_state (\<lambda>ag. snd (sink_profiles_observed i res ag)) za
      | ZE_Failure i t \<Rightarrow> on_state (sink_transient_failure i t) za
      | ZE_Outputs i p \<Rightarrow> on_state (sink_outputs_observed i p) za
      | ZE_Removed i epoch \<Rightarrow> on_state (sink_instance_removed i epoch) za
      | ZE_Stopped \<Rightarrow> on_state sink_manager_stopped za)"

section \<open>The invariant\<close>

definition zones_ok :: "(string \<times> zone) list \<Rightarrow> bool" where
  "zones_ok m \<longleftrightarrow> hm_wf m \<and> (\<forall>k z. map_of m k = Some z \<longrightarrow> zn_zone_id z = k)"

definition snapshots_ok :: "(string \<times> hqp_snapshot) list \<Rightarrow> bool" where
  "snapshots_ok m \<longleftrightarrow> hm_wf m \<and> (\<forall>i s. map_of m i = Some s \<longrightarrow> ho_instance_name (hsn_observation s) = i)"

definition outputs_ok :: "u64 \<Rightarrow> (string \<times> hqp_output_projection) list \<Rightarrow> bool" where
  "outputs_ok r m \<longleftrightarrow> hm_wf m \<and> (\<forall>i p. map_of m i = Some p \<longrightarrow> op_aggregate_revision p \<le> r)"

definition entries_ok :: "u64 \<Rightarrow> (string \<times> (u64 \<times> projection_payload)) list \<Rightarrow> bool" where
  "entries_ok r m \<longleftrightarrow> bt_wf m \<and> (\<forall>k e. map_of m k = Some e \<longrightarrow> fst e \<le> r)"

definition ag_ok :: "aggregate_state \<Rightarrow> bool" where
  "ag_ok ag \<longleftrightarrow>
     zones_ok (ag_zones ag) \<and> hm_wf (ag_volume_capabilities ag) \<and>
     snapshots_ok (ag_hqplayer_snapshots ag) \<and>
     outputs_ok (ag_projection_revision ag) (ag_hqplayer_outputs ag) \<and>
     hm_wf (ag_source_cursors ag) \<and>
     entries_ok (ag_projection_revision ag) (ag_projection_entries ag)"

definition za_ok :: "zone_aggregator \<Rightarrow> bool" where
  "za_ok za \<longleftrightarrow>
     ag_ok (za_state za) \<and> hm_wf (za_provider_accounts za) \<and> hm_wf (za_adapter_errors za) \<and>
     history_ok (za_observed_playback za)"

lemma zones_ok_intros [simp, intro]:
  "zones_ok []"
  "zones_ok m \<Longrightarrow> zones_ok (hm_insert (zn_zone_id z) z m)"
  "zones_ok m \<Longrightarrow> zones_ok (hm_remove k m)"
  "zones_ok m \<Longrightarrow> zones_ok (hm_retain P m)"
  by (auto simp: zones_ok_def)

lemma zones_ok_modify: "zones_ok m \<Longrightarrow> (\<And>z. zn_zone_id (f z) = zn_zone_id z) \<Longrightarrow> zones_ok (hm_modify k f m)"
  by (auto simp: zones_ok_def)

lemma zones_ok_fold: "zones_ok m \<Longrightarrow> zones_ok (fold hm_remove ks m)"
  by (induction ks arbitrary: m) auto

lemma hm_wf_fold: "hm_wf m \<Longrightarrow> hm_wf (fold hm_remove ks m)"
  by (induction ks arbitrary: m) auto

lemma keys_volume_changed [simp]: "map fst (volume_changed i v b m) = map fst m"
  by (induction i v b m rule: volume_changed.induct) auto

lemma map_of_volume_changed:
  "map_of (volume_changed i v b m) k = map_of m k \<or>
     map_of (volume_changed i v b m) k = map_option (set_volume v b) (map_of m k)"
  by (induction i v b m rule: volume_changed.induct) auto

lemma zones_ok_volume: "zones_ok m \<Longrightarrow> zones_ok (volume_changed i v b m)"
  unfolding zones_ok_def hm_wf_def keys_volume_changed
proof (intro conjI allI impI; elim conjE)
  fix k z assume m: "\<forall>k z. map_of m k = Some z \<longrightarrow> zn_zone_id z = k"
    and z: "map_of (volume_changed i v b m) k = Some z"
  show "zn_zone_id z = k"
    using map_of_volume_changed [of i v b m k] z m by (cases "map_of m k") (auto simp: set_volume_def)
qed

lemma snapshots_ok_intros [simp, intro]:
  "snapshots_ok []"
  "snapshots_ok m \<Longrightarrow> ho_instance_name (hsn_observation s) = i \<Longrightarrow> snapshots_ok (hm_insert i s m)"
  "snapshots_ok m \<Longrightarrow> snapshots_ok (hm_remove k m)"
  by (auto simp: snapshots_ok_def)

lemma snapshots_ok_modify:
  assumes "snapshots_ok m" "\<And>s. ho_instance_name (hsn_observation (f s)) = ho_instance_name (hsn_observation s)"
  shows "snapshots_ok (hm_modify k f m)" "snapshots_ok (hm_modify_all f m)"
  using assms by (auto simp: snapshots_ok_def)

lemma snapshot_updates_instance [simp]:
  "ho_instance_name (hsn_observation (live_snapshot ob prev)) = ho_instance_name ob"
  "ho_instance_name (hsn_observation (attach_advanced adv s)) = ho_instance_name (hsn_observation s)"
  "ho_instance_name (hsn_observation (attach_profiles res s)) = ho_instance_name (hsn_observation s)"
  "ho_instance_name (hsn_observation (mark_failed t s)) = ho_instance_name (hsn_observation s)"
  "ho_instance_name (hsn_observation (mark_last_known s)) = ho_instance_name (hsn_observation s)"
  by (simp_all add: live_snapshot_def attach_advanced_def attach_profiles_def mark_failed_def
      mark_last_known_def Let_def split: option.split sum.split)

lemmas snapshots_ok_updates = snapshots_ok_modify [where f = "attach_advanced adv" for adv, simplified]
  snapshots_ok_modify [where f = "attach_profiles res" for res, simplified]
  snapshots_ok_modify [where f = "mark_failed t" for t, simplified]
  snapshots_ok_modify [where f = mark_last_known, simplified]

lemma snapshots_ok_admit [simp, intro]: "snapshots_ok m \<Longrightarrow> snapshots_ok (admit_observation ob m)"
  by (simp add: admit_observation_def split: option.split)

lemma outputs_ok_intros [simp, intro]:
  "outputs_ok r []"
  "outputs_ok r m \<Longrightarrow> op_aggregate_revision p \<le> r \<Longrightarrow> outputs_ok r (hm_insert i p m)"
  "outputs_ok r m \<Longrightarrow> outputs_ok r (hm_remove i m)"
  "outputs_ok r m \<Longrightarrow> outputs_ok r (hm_modify_all (lifecycle_stopped now r) m)"
  by (auto simp: outputs_ok_def lifecycle_stopped_def)

lemma outputs_ok_mono: "outputs_ok r m \<Longrightarrow> r \<le> r' \<Longrightarrow> outputs_ok r' m"
  by (auto simp: outputs_ok_def intro: order_trans)

lemma outputs_ok_admit [simp, intro]: "outputs_ok r m \<Longrightarrow> outputs_ok r (admit_outputs e r i p m)"
  by (simp add: admit_outputs_def Let_def)

lemma entries_ok_insert [simp, intro]: "entries_ok r m \<Longrightarrow> entries_ok r (bt_insert k (r, p) m)"
  by (auto simp: entries_ok_def)

lemma entries_ok_mono: "entries_ok r m \<Longrightarrow> r \<le> r' \<Longrightarrow> entries_ok r' m"
  by (auto simp: entries_ok_def intro: order_trans)

section \<open>Operations keep it\<close>

text \<open>What committing entries leaves alone: the revision and the cursors.\<close>

definition same_lane :: "aggregate_state \<Rightarrow> aggregate_state \<Rightarrow> bool" where
  "same_lane ag ag' \<longleftrightarrow>
     ag_projection_revision ag' = ag_projection_revision ag \<and>
     ag_source_cursors ag' = ag_source_cursors ag"

lemma same_lane_refl [simp]: "same_lane ag ag"
  by (simp add: same_lane_def)

lemma same_lane_trans: "same_lane a b \<Longrightarrow> same_lane b c \<Longrightarrow> same_lane a c"
  by (simp add: same_lane_def)

lemmas progress_defs = take_zone_def map_snapshots_def map_outputs_def

lemma apply_payload_ok:
  assumes "ag_ok ag" "apply_payload now epoch (ag_projection_revision ag) p (ag, ch, rm) = (ag', ch', rm')"
  shows "ag_ok ag' \<and> same_lane ag ag' \<and> ag_projection_entries ag' = ag_projection_entries ag"
  using assms
  by (cases p)
    (auto simp: apply_payload_def progress_defs remove_instance_def manager_stop_def ag_ok_def
      same_lane_def snapshots_ok_updates split: if_splits)

lemma commit_entry_ok:
  assumes "ag_ok ag" "commit_entry now epoch (ag_projection_revision ag) e (ag, ch, rm) = (ag', ch', rm')"
  shows "ag_ok ag' \<and> same_lane ag ag'"
proof -
  obtain ag1 ch1 rm1 where "apply_payload now epoch (ag_projection_revision ag) (pe_payload e) (ag, ch, rm) =
      (ag1, ch1, rm1)" by (metis prod_cases3)
  with assms show ?thesis
    using apply_payload_ok [of ag now epoch "pe_payload e" ch rm ag1 ch1 rm1]
    by (auto simp: commit_entry_def ag_ok_def same_lane_def)
qed

lemma commit_entries_ok:
  assumes "ag_ok ag"
    "fold (commit_entry now epoch (ag_projection_revision ag)) es (ag, ch, rm) = (ag', ch', rm')"
  shows "ag_ok ag' \<and> same_lane ag ag'"
  using assms
proof (induction es arbitrary: ag ch rm)
  case (Cons e es)
  obtain ag1 ch1 rm1 where e: "commit_entry now epoch (ag_projection_revision ag) e (ag, ch, rm) =
      (ag1, ch1, rm1)" by (metis prod_cases3)
  with Cons.prems have "ag_ok ag1" "same_lane ag ag1" using commit_entry_ok by blast+
  moreover from this have "fold (commit_entry now epoch (ag_projection_revision ag1)) es (ag1, ch1, rm1) =
      (ag', ch', rm')" using Cons.prems(2) e by (simp add: same_lane_def)
  ultimately show ?case using Cons.IH same_lane_trans by blast
qed simp

lemma open_commit_ok:
  assumes "ag_ok ag"
  shows "ag_ok (open_commit u ag)"
  using assms sat_succ_ge [of "ag_projection_revision ag"]
  by (auto simp: open_commit_def ag_ok_def intro: outputs_ok_mono entries_ok_mono)

lemma commit_ok:
  assumes "ag_ok ag"
  shows "ag_ok (fst (snd (commit_reliable_projection now u ag)))"
proof (cases "check_cursor u (map_of (ag_source_cursors ag) (source_identity (pu_source u)))")
  case CC_Commit
  obtain ag2 ch rm where f: "fold (commit_entry now (src_epoch (pu_source u))
      (ag_projection_revision (open_commit u ag))) (pu_entries u) (open_commit u ag, [], []) = (ag2, ch, rm)"
    by (metis prod_cases3)
  then have "ag_ok ag2" using commit_entries_ok [OF open_commit_ok [OF assms]] by blast
  with CC_Commit f show ?thesis by (simp add: commit_reliable_projection_def Let_def)
qed (use assms in \<open>simp_all add: commit_reliable_projection_def ag_ok_def\<close>)

lemma sink_ok [simp, intro]:
  assumes "ag_ok ag"
  shows "ag_ok (sink_observed ob ag)" "ag_ok (snd (sink_advanced_observed i adv ag))"
    "ag_ok (snd (sink_profiles_observed i res ag))" "ag_ok (sink_transient_failure i t ag)"
    "ag_ok (sink_outputs_observed i p ag)" "ag_ok (sink_instance_removed i epoch ag)"
    "ag_ok (sink_manager_stopped ag)"
  using assms
  by (simp_all add: ag_ok_def sink_observed_def sink_advanced_observed_def publish_hqplayer_advanced_def
      sink_profiles_observed_def publish_hqplayer_profiles_def sink_transient_failure_def
      sink_outputs_observed_def sink_instance_removed_def sink_manager_stopped_def Let_def
      snapshots_ok_updates split: option.split)

lemma handler_ok [simp, intro]:
  assumes "ag_ok ag"
  shows "ag_ok (on_discovered z ag)" "ag_ok (on_updated zid name st ag)" "ag_ok (on_removed zid ag)"
    "ag_ok (snd (on_now_playing zid t a al k ag))" "ag_ok (on_capability zid b ag)"
    "ag_ok (snd (on_stopping adapter ag))"
    "ag_ok (ag\<lparr>ag_zones := hm_modify (zid_str zid) (set_modes rm sh) (ag_zones ag)\<rparr>)"
    "ag_ok (ag\<lparr>ag_zones := hm_modify (zid_str zid) (set_seek position) (ag_zones ag)\<rparr>)"
    "ag_ok (ag\<lparr>ag_zones := volume_changed out v b (ag_zones ag)\<rparr>)"
  using assms
  by (auto simp: ag_ok_def on_discovered_def on_updated_def on_removed_def on_now_playing_def
      on_capability_def on_stopping_def Let_def set_modes_def set_seek_def zones_ok_fold hm_wf_fold
      intro!: zones_ok_modify zones_ok_volume split: option.split)

lemma history_ok_fold_clear: "history_ok h \<Longrightarrow> history_ok (fold clear_zone ids h)"
  by (induction ids arbitrary: h) auto

lemma handle_event_ok:
  assumes "za_ok za"
  shows "za_ok (fst (handle_event now e za))"
  using assms
  by (cases e)
    (simp_all add: handle_event_def za_ok_def history_ok_fold_clear case_prod_beta split: option.split)

section \<open>Runs\<close>

text \<open>What a lane has seen: a cursor only moves forward, by epoch first and by sequence within one.\<close>

definition cursor_le :: "projection_cursor \<Rightarrow> projection_cursor \<Rightarrow> bool" where
  "cursor_le c c' \<longleftrightarrow>
     pc_epoch c < pc_epoch c' \<or> (pc_epoch c = pc_epoch c' \<and> pc_sequence c \<le> pc_sequence c')"

definition lane_le :: "aggregate_state \<Rightarrow> aggregate_state \<Rightarrow> bool" where
  "lane_le ag ag' \<longleftrightarrow>
     ag_projection_revision ag \<le> ag_projection_revision ag' \<and>
     (\<forall>s c. map_of (ag_source_cursors ag) s = Some c \<longrightarrow>
        (\<exists>c'. map_of (ag_source_cursors ag') s = Some c' \<and> cursor_le c c'))"

definition za_le :: "zone_aggregator \<Rightarrow> zone_aggregator \<Rightarrow> bool" where
  "za_le za za' \<longleftrightarrow> lane_le (za_state za) (za_state za')"

lemma cursor_le_refl [simp]: "cursor_le c c"
  by (simp add: cursor_le_def)

lemma cursor_le_trans: "cursor_le a b \<Longrightarrow> cursor_le b c \<Longrightarrow> cursor_le a c"
  by (auto simp: cursor_le_def)

lemma lane_le_refl [simp]: "lane_le ag ag"
  by (auto simp: lane_le_def)

lemma lane_le_trans: "lane_le a b \<Longrightarrow> lane_le b c \<Longrightarrow> lane_le a c"
  unfolding lane_le_def by (meson cursor_le_trans order_trans)

lemma same_lane_le: "same_lane ag ag' \<Longrightarrow> lane_le ag ag'"
  by (auto simp: same_lane_def lane_le_def)

lemma check_cursor_Commit_iff:
  "check_cursor u (Some c) = CC_Commit \<longleftrightarrow>
     cursor_le c \<lparr>pc_epoch = src_epoch (pu_source u), pc_sequence = pu_sequence u, pc_freshness = PF_Fresh\<rparr> \<and>
     (src_epoch (pu_source u), pu_sequence u) \<noteq> (pc_epoch c, pc_sequence c) \<and>
     \<not> (src_epoch (pu_source u) = pc_epoch c \<and> pu_sequence u > sat_succ (pc_sequence c) \<and>
        pu_kind u = PK_Delta)"
  by (auto simp: check_cursor_def cursor_le_def not_less)

lemma open_commit_le:
  assumes "check_cursor u (map_of (ag_source_cursors ag) (source_identity (pu_source u))) = CC_Commit"
  shows "lane_le ag (open_commit u ag)"
proof -
  let ?new = "\<lparr>pc_epoch = src_epoch (pu_source u), pc_sequence = pu_sequence u, pc_freshness = PF_Fresh\<rparr>"
  have "cursor_le c ?new" if "map_of (ag_source_cursors ag) (source_identity (pu_source u)) = Some c" for c
    using assms unfolding that check_cursor_Commit_iff by blast
  then show ?thesis unfolding lane_le_def open_commit_def by simp
qed

lemma commit_cases:
  assumes "ag_ok ag" "commit_reliable_projection now u ag = (res, ag', out)"
  obtains (committed) ag1 ch rm where
      "check_cursor u (map_of (ag_source_cursors ag) (source_identity (pu_source u))) = CC_Commit"
      "ag1 = open_commit u ag" "res = Committed (sat_succ (ag_projection_revision ag))"
      "fold (commit_entry now (src_epoch (pu_source u)) (ag_projection_revision ag1)) (pu_entries u)
         (ag1, [], []) = (ag', ch, rm)"
      "same_lane ag1 ag'" "out = concat (map zone_hints ch) @ map ZoneRemoved rm"
  | (stale) c where "map_of (ag_source_cursors ag) (source_identity (pu_source u)) = Some c"
      "check_cursor u (Some c) = CC_Stale (pc_epoch c) (pc_sequence c)"
      "res = StaleIgnored (pc_epoch c) (pc_sequence c)" "ag' = ag" "out = []"
  | (gap) c where "map_of (ag_source_cursors ag) (source_identity (pu_source u)) = Some c"
      "check_cursor u (Some c) = CC_Gap (sat_succ (pc_sequence c))"
      "res = GapDetected (sat_succ (pc_sequence c)) (pu_sequence u)"
      "ag' = ag\<lparr>ag_source_cursors := hm_modify (source_identity (pu_source u))
         (\<lambda>c. c\<lparr>pc_freshness := PF_Reconciling\<rparr>) (ag_source_cursors ag)\<rparr>" "out = []"
proof (cases "check_cursor u (map_of (ag_source_cursors ag) (source_identity (pu_source u)))")
  case CC_Commit
  obtain ag2 ch rm where f: "fold (commit_entry now (src_epoch (pu_source u))
      (ag_projection_revision (open_commit u ag))) (pu_entries u) (open_commit u ag, [], []) = (ag2, ch, rm)"
    by (metis prod_cases3)
  have l: "same_lane (open_commit u ag) ag2"
    using commit_entries_ok [OF open_commit_ok [OF assms(1)] f] by blast
  have r: "ag_projection_revision (open_commit u ag) = sat_succ (ag_projection_revision ag)"
    by (simp add: open_commit_def)
  have "res = Committed (sat_succ (ag_projection_revision ag))" "ag' = ag2"
    "out = concat (map zone_hints ch) @ map ZoneRemoved rm"
    using assms(2) f by (simp_all add: commit_reliable_projection_def Let_def CC_Commit r)
  with CC_Commit f l show ?thesis by (intro committed [OF CC_Commit refl]) simp_all
next
  case (CC_Stale e s)
  then obtain c where c: "map_of (ag_source_cursors ag) (source_identity (pu_source u)) = Some c"
    "e = pc_epoch c" "s = pc_sequence c"
    by (auto simp: check_cursor_def split: option.splits if_splits)
  have "res = StaleIgnored e s" "ag' = ag" "out = []"
    using assms(2) by (simp_all add: commit_reliable_projection_def Let_def CC_Stale)
  with CC_Stale c show ?thesis by (intro stale [OF c(1)]) simp_all
next
  case (CC_Gap x)
  then obtain c where c: "map_of (ag_source_cursors ag) (source_identity (pu_source u)) = Some c"
    "x = sat_succ (pc_sequence c)"
    by (auto simp: check_cursor_def split: option.splits if_splits)
  have "res = GapDetected x (pu_sequence u)" "out = []"
    "ag' = ag\<lparr>ag_source_cursors := hm_modify (source_identity (pu_source u))
         (\<lambda>c. c\<lparr>pc_freshness := PF_Reconciling\<rparr>) (ag_source_cursors ag)\<rparr>"
    using assms(2) by (simp_all add: commit_reliable_projection_def Let_def CC_Gap)
  with CC_Gap c show ?thesis by (intro gap [OF c(1)]) simp_all
qed

lemma commit_le:
  assumes "ag_ok ag"
  shows "lane_le ag (fst (snd (commit_reliable_projection now u ag)))"
proof -
  obtain res ag' out where c: "commit_reliable_projection now u ag = (res, ag', out)" by (metis prod_cases3)
  from assms c show ?thesis
  proof (cases rule: commit_cases)
    case (committed ag1 ch rm)
    then show ?thesis using c open_commit_le same_lane_le lane_le_trans by (metis fst_conv snd_conv)
  qed (use c in \<open>auto simp: lane_le_def cursor_le_def\<close>)
qed

lemma sink_lane [simp, intro]:
  "same_lane ag (sink_observed ob ag)" "same_lane ag (snd (sink_advanced_observed i adv ag))"
  "same_lane ag (snd (sink_profiles_observed i res ag))" "same_lane ag (sink_transient_failure i t ag)"
  "same_lane ag (sink_outputs_observed i p ag)" "same_lane ag (sink_instance_removed i epoch ag)"
  "same_lane ag (sink_manager_stopped ag)"
  by (simp_all add: same_lane_def sink_observed_def sink_advanced_observed_def publish_hqplayer_advanced_def
      sink_profiles_observed_def publish_hqplayer_profiles_def sink_transient_failure_def
      sink_outputs_observed_def sink_instance_removed_def sink_manager_stopped_def Let_def
      split: option.split)

lemma handle_event_lane: "same_lane (za_state za) (za_state (fst (handle_event now e za)))"
  by (cases e)
    (simp_all add: handle_event_def same_lane_def on_discovered_def on_updated_def on_removed_def
      on_now_playing_def on_capability_def on_stopping_def Let_def case_prod_beta split: option.split)

lemma za_step_ok: "za_ok za \<Longrightarrow> za_ok (za_step za e)"
  by (cases e) (simp_all add: za_step_def handle_event_ok, simp_all add: za_ok_def on_state_def commit_ok)

lemma za_step_le: "za_ok za \<Longrightarrow> za_le za (za_step za e)"
  by (cases e)
    (simp_all add: za_step_def za_le_def on_state_def same_lane_le handle_event_lane za_ok_def commit_le)

interpretation za: event_system za_step za_ok za_le
  by unfold_locales (auto simp: za_step_ok za_step_le, auto simp: za_le_def intro: lane_le_trans)

lemma aggregator_new_ok: "za_ok aggregator_new"
  by (simp add: za_ok_def aggregator_new_def aggregate_default_def ag_ok_def entries_ok_def)

text \<open>An update at or below its lane's cursor is stale, whatever happened in between.\<close>

lemma below_cursor_stale:
  assumes "map_of (ag_source_cursors ag) (source_identity (pu_source u)) = Some c"
    "cursor_le \<lparr>pc_epoch = src_epoch (pu_source u), pc_sequence = pu_sequence u, pc_freshness = f\<rparr> c"
  shows "commit_reliable_projection now u ag = (StaleIgnored (pc_epoch c) (pc_sequence c), ag, [])"
  using assms by (auto simp: commit_reliable_projection_def check_cursor_def cursor_le_def)

lemma committed_cursor:
  assumes "ag_ok ag" "commit_reliable_projection now u ag = (Committed r, ag', out)"
  shows "map_of (ag_source_cursors ag') (source_identity (pu_source u)) =
      Some \<lparr>pc_epoch = src_epoch (pu_source u), pc_sequence = pu_sequence u, pc_freshness = PF_Fresh\<rparr> \<and>
    r = sat_succ (ag_projection_revision ag) \<and> ag_projection_revision ag' = r"
  using assms
proof (cases rule: commit_cases)
  case (committed ag1 ch rm)
  then show ?thesis by (simp add: same_lane_def open_commit_def)
qed simp_all

end
