(* ===== verification/Zone_Claims.thy ===== *)
theory Zone_Claims
  imports Zone_Facts
begin

text \<open>
  The effects of the aggregator's operations: flushing an adapter, merging a now-playing event,
  output documents and snapshots that never go back, a stop of the HQPlayer manager, and what the
  compatibility hints do when the aggregator reads its own.
\<close>

section \<open>Flushing an adapter\<close>

lemma map_of_fold_hm_remove: "map_of (fold hm_remove ks m) k = (if k \<in> set ks then None else map_of m k)"
  using hm.lookup_remove_all [of ks m k] by (simp add: hm.remove_all_def)

lemma flush_lookup:
  "map_of (ag_zones (snd (on_stopping adapter ag))) k =
     (if starts_with k (adapter @ '':'') then None else map_of (ag_zones ag) k)"
  by (auto simp: on_stopping_def adapter_zone_ids_def Let_def map_of_fold_hm_remove
      map_of_eq_None_iff [THEN iffD2])

lemma flush_ids:
  "set (fst (on_stopping adapter ag)) =
     {k. map_of (ag_zones ag) k \<noteq> None \<and> starts_with k (adapter @ '':'')}"
  by (auto simp: on_stopping_def adapter_zone_ids_def Let_def map_of_eq_None_iff)

lemma flush_recent: "z \<in> set ids \<Longrightarrow> is_applemusic_zone_id z \<Longrightarrow> recent z n (fold clear_zone ids h) = []"
proof (induction ids arbitrary: h)
  case (Cons i ids)
  show ?case
  proof (cases "z \<in> set ids")
    case False
    then have "recent z n (fold clear_zone ids h') = recent z n h'" for h'
    proof (induction ids arbitrary: h')
      case (Cons j js)
      then show ?case using recent_other_clear [of z j] by simp
    qed simp
    with False Cons.prems show ?thesis by (simp add: recent_clear)
  qed (use Cons in simp)
qed simp

section \<open>Now playing\<close>

lemma merge_same_track:
  assumes "title = Some (np_title np)" "artist = Some (np_artist np)" "album = Some (np_album np)"
  shows "merge_now_playing title artist album key (Some np) = Some (np\<lparr>np_image_key := key\<rparr>)"
  using assms by (cases np) (simp add: merge_now_playing_def)

lemma merge_clear: "merge_now_playing None None None None old = None"
  by (simp add: merge_now_playing_def)

lemma merge_other_track:
  assumes "text_or title \<noteq> np_title np \<or> text_or artist \<noteq> np_artist np \<or> text_or album \<noteq> np_album np"
    "merge_now_playing title artist album key (Some np) = Some np'"
  shows "np_metadata np' = None \<and> np_title np' = text_or title \<and> np_artist np' = text_or artist \<and>
    np_album np' = text_or album \<and> np_image_key np' = key"
  using assms by (auto simp: merge_now_playing_def Let_def split: if_splits)

section \<open>Output documents\<close>

definition doc_le :: "hqp_output_projection \<Rightarrow> hqp_output_projection \<Rightarrow> bool" where
  "doc_le p p' \<longleftrightarrow>
     op_source_epoch p < op_source_epoch p' \<or>
     (op_source_epoch p = op_source_epoch p' \<and> op_output_revision p \<le> op_output_revision p')"

definition docs_le ::
  "string \<Rightarrow> (string \<times> hqp_output_projection) list \<Rightarrow> (string \<times> hqp_output_projection) list \<Rightarrow> bool" where
  "docs_le i m m' \<longleftrightarrow> (\<forall>p. map_of m i = Some p \<longrightarrow> (\<exists>p'. map_of m' i = Some p' \<and> doc_le p p'))"

lemma doc_le_refl [simp]: "doc_le p p"
  by (simp add: doc_le_def)

lemma docs_le_refl [simp]: "docs_le i m m"
  by (auto simp: docs_le_def)

lemma docs_le_trans: "docs_le i m m' \<Longrightarrow> docs_le i m' m'' \<Longrightarrow> docs_le i m m''"
  by (fastforce simp: docs_le_def doc_le_def intro: order_trans)

lemma docs_le_admit: "docs_le i m (admit_outputs e r j p m)"
  by (auto simp: docs_le_def doc_le_def admit_outputs_def Let_def)

lemma docs_le_stop: "docs_le i m (hm_modify_all (lifecycle_stopped now r) m)"
  by (auto simp: docs_le_def doc_le_def lifecycle_stopped_def)

lemma docs_le_remove: "j \<noteq> i \<Longrightarrow> docs_le i m (hm_remove j m)"
  by (simp add: docs_le_def)

lemma docs_le_insert: "j \<noteq> i \<Longrightarrow> docs_le i m (hm_insert j p m)"
  by (simp add: docs_le_def)

lemma apply_payload_docs:
  assumes "\<And>e. p \<noteq> PP_HqpRemoved i e" "apply_payload now epoch r p (ag, ch, rm) = (ag', ch', rm')"
  shows "docs_le i (ag_hqplayer_outputs ag) (ag_hqplayer_outputs ag')"
proof (cases p)
  case (PP_HqpRemoved j e)
  with assms have "j \<noteq> i" by auto
  with PP_HqpRemoved assms(2) show ?thesis
    by (auto simp: apply_payload_def progress_defs remove_instance_def docs_le_remove split: if_splits)
qed (use assms(2) in \<open>auto simp: apply_payload_def progress_defs manager_stop_def docs_le_admit docs_le_stop
       split: if_splits\<close>)

lemma fold_commit_docs:
  assumes "\<And>e k. e \<in> set es \<Longrightarrow> pe_payload e \<noteq> PP_HqpRemoved i k"
    "fold (commit_entry now epoch r) es (ag, ch, rm) = (ag', ch', rm')"
  shows "docs_le i (ag_hqplayer_outputs ag) (ag_hqplayer_outputs ag')"
  using assms
proof (induction es arbitrary: ag ch rm)
  case (Cons e es)
  obtain ag1 ch1 rm1 where e: "apply_payload now epoch r (pe_payload e) (ag, ch, rm) = (ag1, ch1, rm1)"
    by (metis prod_cases3)
  let ?ag2 = "ag1\<lparr>ag_projection_entries := bt_insert (pe_key e) (r, pe_payload e) (ag_projection_entries ag1)\<rparr>"
  have "commit_entry now epoch r e (ag, ch, rm) = (?ag2, ch1, rm1)" by (simp add: commit_entry_def e)
  with Cons.prems(2) have "fold (commit_entry now epoch r) es (?ag2, ch1, rm1) = (ag', ch', rm')" by simp
  with Cons.IH [of ?ag2 ch1 rm1] Cons.prems(1)
  have "docs_le i (ag_hqplayer_outputs ag1) (ag_hqplayer_outputs ag')" by simp
  moreover have "docs_le i (ag_hqplayer_outputs ag) (ag_hqplayer_outputs ag1)"
    using apply_payload_docs [OF _ e] Cons.prems(1) by simp
  ultimately show ?case using docs_le_trans by blast
qed simp

text \<open>Steps that neither retire the instance nor come through the sink's unfenced door.\<close>

definition keeps_document :: "string \<Rightarrow> za_event \<Rightarrow> bool" where
  "keeps_document i e =
     (case e of
        ZE_Commit now u \<Rightarrow>
          list_all (\<lambda>x. case pe_payload x of PP_HqpRemoved j _ \<Rightarrow> j \<noteq> i | _ \<Rightarrow> True) (pu_entries u)
      | ZE_Outputs j _ \<Rightarrow> j \<noteq> i
      | ZE_Removed j _ \<Rightarrow> j \<noteq> i
      | _ \<Rightarrow> True)"

lemma handle_event_outputs [simp]:
  "ag_hqplayer_outputs (za_state (fst (handle_event now e za))) = ag_hqplayer_outputs (za_state za)"
  by (cases e)
    (simp_all add: handle_event_def on_discovered_def on_updated_def on_removed_def
      on_now_playing_def on_capability_def on_stopping_def Let_def case_prod_beta split: option.split)

lemma commit_docs:
  assumes ok: "ag_ok ag"
    and keep: "list_all (\<lambda>x. case pe_payload x of PP_HqpRemoved j _ \<Rightarrow> j \<noteq> i | _ \<Rightarrow> True) (pu_entries u)"
  shows "docs_le i (ag_hqplayer_outputs ag)
    (ag_hqplayer_outputs (fst (snd (commit_reliable_projection now u ag))))"
proof -
  obtain res ag' out where c: "commit_reliable_projection now u ag = (res, ag', out)" by (metis prod_cases3)
  from ok c show ?thesis
  proof (cases rule: commit_cases)
    case (committed ag1 ch rm)
    moreover have "pe_payload e \<noteq> PP_HqpRemoved i k" if "e \<in> set (pu_entries u)" for e k
      using keep that by (auto simp: list_all_iff split: projection_payload.splits)
    ultimately have "docs_le i (ag_hqplayer_outputs ag1) (ag_hqplayer_outputs ag')"
      using fold_commit_docs by blast
    with c committed(2) show ?thesis by (simp add: open_commit_def)
  qed (use c in auto)
qed

lemma za_step_docs:
  assumes "za_ok za" "keeps_document i e"
  shows "docs_le i (ag_hqplayer_outputs (za_state za)) (ag_hqplayer_outputs (za_state (za_step za e)))"
  using assms
  by (cases e)
    (auto simp: za_step_def on_state_def keeps_document_def commit_docs za_ok_def docs_le_remove
      sink_observed_def sink_advanced_observed_def publish_hqplayer_advanced_def
      sink_profiles_observed_def publish_hqplayer_profiles_def sink_transient_failure_def
      sink_outputs_observed_def sink_instance_removed_def sink_manager_stopped_def Let_def docs_le_insert
      split: option.split)

lemma za_run_docs:
  assumes "za_ok za" "list_all (keeps_document i) es"
  shows "docs_le i (ag_hqplayer_outputs (za_state za)) (ag_hqplayer_outputs (za_state (foldl za_step za es)))"
  using assms
proof (induction es arbitrary: za)
  case (Cons e es)
  then have "docs_le i (ag_hqplayer_outputs (za_state (za_step za e)))
      (ag_hqplayer_outputs (za_state (foldl za_step (za_step za e) es)))"
    using za_step_ok by simp
  with za_step_docs [of za i e] Cons.prems show ?case using docs_le_trans by fastforce
qed simp

section \<open>Gaps\<close>

text \<open>
  After a gap a delta stays refused until a snapshot, however late its sequence; the snapshot closes
  the gap.
\<close>

lemma gap_only_freshness:
  assumes "ag_ok ag" "commit_reliable_projection now u ag = (GapDetected x y, ag', out)"
  shows "\<exists>c. map_of (ag_source_cursors ag) (source_identity (pu_source u)) = Some c \<and>
      x = sat_succ (pc_sequence c) \<and> y = pu_sequence u \<and> x < y \<and> pu_kind u = PK_Delta \<and>
      src_epoch (pu_source u) = pc_epoch c \<and> out = [] \<and>
      map_of (ag_source_cursors ag') (source_identity (pu_source u)) =
        Some (c\<lparr>pc_freshness := PF_Reconciling\<rparr>) \<and>
      ag'\<lparr>ag_source_cursors := ag_source_cursors ag\<rparr> = ag"
  using assms
proof (cases rule: commit_cases)
  case (gap c)
  then show ?thesis
    by (intro exI [of _ c]) (auto simp: check_cursor_def split: if_splits)
qed simp_all

lemma snapshot_commits:
  assumes "map_of (ag_source_cursors ag) (source_identity (pu_source u)) = Some c"
    "src_epoch (pu_source u) = pc_epoch c" "pc_sequence c < pu_sequence u" "pu_kind u = PK_Snapshot"
  shows "\<exists>ag' out. commit_reliable_projection now u ag =
    (Committed (sat_succ (ag_projection_revision ag)), ag', out)"
proof -
  have "check_cursor u (Some c) = CC_Commit"
    using assms by (simp add: check_cursor_def)
  then show ?thesis
    using assms by (simp add: commit_reliable_projection_def Let_def open_commit_def split: prod.split)
qed

lemma delta_gap:
  assumes "map_of (ag_source_cursors ag) (source_identity (pu_source u)) = Some c"
    "src_epoch (pu_source u) = pc_epoch c" "sat_succ (pc_sequence c) < pu_sequence u" "pu_kind u = PK_Delta"
  shows "fst (commit_reliable_projection now u ag) = GapDetected (sat_succ (pc_sequence c)) (pu_sequence u)"
proof -
  have "\<not> pu_sequence u \<le> pc_sequence c"
    using assms(3) sat_succ_ge [of "pc_sequence c"] by (meson leD order_trans)
  then have "check_cursor u (Some c) = CC_Gap (sat_succ (pc_sequence c))"
    using assms by (simp add: check_cursor_def)
  then show ?thesis using assms(1) by (simp add: commit_reliable_projection_def Let_def)
qed

section \<open>The manager stops\<close>

lemma commit_two:
  assumes "check_cursor u (map_of (ag_source_cursors ag) (source_identity (pu_source u))) = CC_Commit"
    "pu_entries u = [e]"
    "commit_entry now (src_epoch (pu_source u)) (sat_succ (ag_projection_revision ag)) e
       (open_commit u ag, [], []) = (ag', ch, rm)"
  shows "commit_reliable_projection now u ag =
    (Committed (sat_succ (ag_projection_revision ag)), ag', concat (map zone_hints ch) @ map ZoneRemoved rm)"
  using assms by (simp add: commit_reliable_projection_def Let_def open_commit_def)

lemma committed_check:
  assumes "ag_ok ag" "commit_reliable_projection now u ag = (Committed r, ag', out)"
  shows "check_cursor u (map_of (ag_source_cursors ag) (source_identity (pu_source u))) = CC_Commit"
  using assms by (cases rule: commit_cases) simp_all

lemma stop_committed:
  assumes "ag_ok ag" "pu_entries u = [\<lparr>pe_key = k, pe_payload = PP_HqpManagerStopped\<rparr>]"
    "commit_reliable_projection now u ag = (Committed r, ag', out)"
  shows "out = [] \<and>
    (\<forall>z. map_of (ag_zones ag') z =
       (if starts_with z ''hqplayer:'' then None else map_of (ag_zones ag) z)) \<and>
    (\<forall>i. map_of (ag_hqplayer_snapshots ag') i =
       map_option mark_last_known (map_of (ag_hqplayer_snapshots ag) i)) \<and>
    (\<forall>i. map_of (ag_hqplayer_outputs ag') i =
       map_option (lifecycle_stopped now r) (map_of (ag_hqplayer_outputs ag) i))"
  using commit_two [OF committed_check [OF assms(1,3)] assms(2) refl [THEN trans]] assms(2,3)
  by (auto simp: commit_entry_def apply_payload_def manager_stop_def open_commit_def)

section \<open>The aggregator hears its own hints\<close>

definition hear :: "u64 \<Rightarrow> bus_event list \<Rightarrow> zone_aggregator \<Rightarrow> zone_aggregator" where
  "hear now es za = foldl (\<lambda>za e. fst (handle_event now e za)) za es"

lemma hear_simps [simp]:
  "hear now [] za = za" "hear now (e # es) za = hear now es (fst (handle_event now e za))"
  "hear now (es @ fs) za = hear now fs (hear now es za)"
  by (simp_all add: hear_def)

lemma hm_insert_same: "map_of m k = Some v \<Longrightarrow> hm_insert k v m = m"
  by (simp add: hm_insert_def update_triv)

lemma hm_modify_same:
  assumes "hm_wf m" "map_of m k = Some v" "f v = v"
  shows "hm_modify k f m = m"
  unfolding hm_modify_def
proof (rule map_idI, clarify, goal_cases)
  case (1 k' v')
  then have "map_of m k' = Some v'" using assms(1) hm_entries by fastforce
  with assms show ?case by auto
qed

lemma volume_changed_same:
  assumes "\<And>k z. (k, z) \<in> set m \<Longrightarrow> volume_matches oid z \<Longrightarrow> set_volume v b z = z"
  shows "volume_changed oid v b m = m"
  using assms by (induction oid v b m rule: volume_changed.induct) auto

abbreviation zones_of :: "zone_aggregator \<Rightarrow> (string \<times> zone) list" where
  "zones_of za \<equiv> ag_zones (za_state za)"

lemma field_same:
  "zn_now_playing z = x \<Longrightarrow> z\<lparr>zn_now_playing := x\<rparr> = z"
  "zn_volume_control z = y \<Longrightarrow> z\<lparr>zn_volume_control := y\<rparr> = z"
  "np_seek_position np = p \<Longrightarrow> np\<lparr>np_seek_position := p\<rparr> = np"
  by auto

lemma heard_discovered:
  "map_of (zones_of za) (zn_zone_id z) = Some z \<Longrightarrow>
     zones_of (fst (handle_event now (ZoneDiscovered z) za)) = zones_of za"
  by (simp add: handle_event_def on_discovered_def hm_insert_same)

lemma heard_updated:
  assumes "hm_wf (zones_of za)" "map_of (zones_of za) (zid_str zid) = Some z"
  shows "zones_of (fst (handle_event now
      (ZoneUpdated zid (zn_zone_name z) (playback_state_display (zn_state z))) za)) = zones_of za"
proof -
  have "z\<lparr>zn_zone_name := zn_zone_name z, zn_state := zn_state z\<rparr> = z" by (cases z) simp
  with assms show ?thesis by (simp add: handle_event_def on_updated_def hm_modify_same)
qed

lemma heard_now_playing:
  assumes "hm_wf (zones_of za)" "map_of (zones_of za) (zid_str zid) = Some z" "zn_now_playing z = Some np"
  shows "zones_of (fst (handle_event now (NowPlayingChanged zid (Some (np_title np))
      (Some (np_artist np)) (Some (np_album np)) (np_image_key np)) za)) = zones_of za"
proof -
  have "np\<lparr>np_image_key := np_image_key np\<rparr> = np" "z\<lparr>zn_now_playing := Some np\<rparr> = z"
    using assms(3) by (simp_all add: field_same)
  with assms show ?thesis
    by (simp add: handle_event_def on_now_playing_def merge_same_track hm_modify_same Let_def)
qed

lemma heard_seek:
  assumes "hm_wf (zones_of za)" "map_of (zones_of za) (zid_str zid) = Some z" "zn_now_playing z = Some np"
    "np_seek_position np = Some p" "i64_to_f64 (f64_round_i64 p) = p"
  shows "zones_of (fst (handle_event now (SeekPositionChanged zid (f64_round_i64 p)) za)) = zones_of za"
proof -
  have "np\<lparr>np_seek_position := Some p\<rparr> = np" "z\<lparr>zn_now_playing := Some np\<rparr> = z"
    using assms(3,4) by (simp_all add: field_same)
  then have "set_seek (f64_round_i64 p) z = z" using assms by (simp add: set_seek_def)
  with assms show ?thesis by (simp add: handle_event_def hm_modify_same)
qed

lemma heard_volume:
  assumes "hm_wf (zones_of za)" "zn_volume_control z = Some vc"
    "\<And>k z'. map_of (zones_of za) k = Some z' \<Longrightarrow> volume_matches oid z' \<Longrightarrow> z' = z"
  shows "zones_of (fst (handle_event now (VolumeChanged oid (vc_value vc) (vc_is_muted vc)) za)) = zones_of za"
proof -
  have "vc\<lparr>vc_value := vc_value vc, vc_is_muted := vc_is_muted vc\<rparr> = vc" "z\<lparr>zn_volume_control := Some vc\<rparr> = z"
    using assms(2) by (simp_all add: field_same)
  then have "set_volume (vc_value vc) (vc_is_muted vc) z = z" using assms(2) by (simp add: set_volume_def)
  moreover have "z' = z" if "(k, z') \<in> set (zones_of za)" "volume_matches oid z'" for k z'
    using assms(1,3) that hm_entries by metis
  ultimately have "volume_changed oid (vc_value vc) (vc_is_muted vc) (zones_of za) = zones_of za"
    by (intro volume_changed_same) metis
  then show ?thesis by (simp add: handle_event_def)
qed

lemma zone_hints_cases:
  assumes "e \<in> set (zone_hints z)"
  obtains (discovered) "e = ZoneDiscovered z"
  | (updated) zid where "zid_str zid = zn_zone_id z"
      "e = ZoneUpdated zid (zn_zone_name z) (playback_state_display (zn_state z))"
  | (np) zid np where "zid_str zid = zn_zone_id z" "zn_now_playing z = Some np"
      "e = NowPlayingChanged zid (Some (np_title np)) (Some (np_artist np)) (Some (np_album np)) (np_image_key np)"
  | (seek) zid np p where "zid_str zid = zn_zone_id z" "zn_now_playing z = Some np" "np_seek_position np = Some p"
      "e = SeekPositionChanged zid (f64_round_i64 p)"
  | (vol) vc where "zn_volume_control z = Some vc"
      "e = VolumeChanged (case vc_output_id vc of None \<Rightarrow> zn_zone_id z | Some x \<Rightarrow> x) (vc_value vc) (vc_is_muted vc)"
proof -
  obtain zid where zid: "zid_parse (zn_zone_id z) = Some zid"
    using assms by (cases "zid_parse (zn_zone_id z)") (simp_all add: zone_hints_def)
  then have s: "zid_str zid = zn_zone_id z" by (auto simp: zid_parse_Some_iff)
  show thesis
    using assms zid
    by (cases "zn_now_playing z"; cases "np_seek_position (the (zn_now_playing z))"; cases "zn_volume_control z")
      (auto simp: zone_hints_def intro: discovered updated [OF s] np [OF s] seek [OF s] vol)
qed

lemma hear_own_hints:
  assumes "za_ok za" "map_of (zones_of za) (zn_zone_id z) = Some z"
    and seek: "\<And>np p. zn_now_playing z = Some np \<Longrightarrow> np_seek_position np = Some p \<Longrightarrow>
      i64_to_f64 (f64_round_i64 p) = p"
    and vol: "\<And>vc k z'. zn_volume_control z = Some vc \<Longrightarrow> map_of (zones_of za) k = Some z' \<Longrightarrow>
      volume_matches (case vc_output_id vc of None \<Rightarrow> zn_zone_id z | Some x \<Rightarrow> x) z' \<Longrightarrow> z' = z"
  shows "zones_of (hear now (zone_hints z) za) = zones_of za"
proof -
  have wf: "hm_wf (zones_of za)" using assms(1) by (simp add: za_ok_def ag_ok_def zones_ok_def)
  have "zones_of (fst (handle_event now e za')) = zones_of za"
    if e: "e \<in> set (zone_hints z)" and za': "zones_of za' = zones_of za" for e za'
    using e
  proof (cases rule: zone_hints_cases)
    case discovered
    then show ?thesis using heard_discovered [of za' z] assms(2) za' by simp
  next
    case (updated zid)
    then show ?thesis using heard_updated [of za' zid z] wf assms(2) za' by simp
  next
    case (np zid np)
    then show ?thesis using heard_now_playing [of za' zid z np] wf assms(2) za' by simp
  next
    case (seek zid np p)
    then show ?thesis using heard_seek [of za' zid z np p] wf assms(2) za' assms(3) by simp
  next
    case (vol vc)
    then show ?thesis using heard_volume [of za' z vc] wf za' assms(4) by metis
  qed
  then have "zones_of (hear now es za') = zones_of za"
    if "set es \<subseteq> set (zone_hints z)" "zones_of za' = zones_of za" for es za'
    using that by (induction es arbitrary: za') simp_all
  then show ?thesis by blast
qed

text \<open>Where a removal is not announced, a hint still queued brings the zone back.\<close>

lemma heard_keeps:
  assumes "map_of (zones_of za) k \<noteq> None" "\<And>zid. e \<noteq> ZoneRemoved zid" "\<And>a r. e \<noteq> AdapterStopping a r"
  shows "map_of (zones_of (fst (handle_event now e za))) k \<noteq> None"
  using assms
proof (cases e)
  case (VolumeChanged i v b)
  then show ?thesis
    using assms(1) map_of_volume_changed [of i v b "zones_of za" k] by (auto simp: handle_event_def)
qed (auto simp: handle_event_def on_discovered_def on_updated_def on_now_playing_def on_capability_def
      Let_def split: option.split)

lemma hear_keeps:
  assumes "map_of (zones_of za) k \<noteq> None"
    "\<And>e. e \<in> set es \<Longrightarrow> (\<forall>zid. e \<noteq> ZoneRemoved zid) \<and> (\<forall>a r. e \<noteq> AdapterStopping a r)"
  shows "map_of (zones_of (hear now es za)) k \<noteq> None"
  using assms
proof (induction es arbitrary: za)
  case (Cons e es)
  then have "map_of (zones_of (fst (handle_event now e za))) k \<noteq> None" by (intro heard_keeps) auto
  with Cons.IH Cons.prems(2) show ?case by simp
qed simp

lemma zone_hints_kinds:
  assumes "e \<in> set (zone_hints z)"
  shows "(\<forall>zid. e \<noteq> ZoneRemoved zid) \<and> (\<forall>a r. e \<noteq> AdapterStopping a r)"
  using assms by (auto simp: zone_hints_def split: option.splits)

lemma hear_hints_present:
  assumes "zid_parse (zn_zone_id z) \<noteq> None"
  shows "map_of (zones_of (hear now (zone_hints z) za)) (zn_zone_id z) \<noteq> None"
proof -
  obtain es where es: "zone_hints z = ZoneDiscovered z # es"
    using assms by (auto simp: zone_hints_def)
  have "map_of (zones_of (fst (handle_event now (ZoneDiscovered z) za))) (zn_zone_id z) \<noteq> None"
    by (simp add: handle_event_def on_discovered_def)
  then have "map_of (zones_of (hear now es (fst (handle_event now (ZoneDiscovered z) za)))) (zn_zone_id z) \<noteq> None"
    using zone_hints_kinds [of _ z] es by (intro hear_keeps) simp_all
  with es show ?thesis by simp
qed

lemma zone_committed:
  assumes "ag_ok ag" "pu_entries u = [\<lparr>pe_key = k, pe_payload = PP_Zone z\<rparr>]"
    "commit_reliable_projection now u ag = (Committed r, ag', out)"
  shows "out = zone_hints z \<and> ag_zones ag' = hm_insert (zn_zone_id z) z (ag_zones ag) \<and>
    ag_volume_capabilities ag' = ag_volume_capabilities ag"
  using commit_two [OF committed_check [OF assms(1,3)] assms(2) refl [THEN trans]] assms(2,3)
  by (auto simp: commit_entry_def apply_payload_def open_commit_def)

section \<open>A coherent pair\<close>

lemma observed_commit:
  assumes "ag_ok ag"
    "pu_entries u = [\<lparr>pe_key = k1, pe_payload = PP_Zone (ho_zone ob)\<rparr>,
       \<lparr>pe_key = k2, pe_payload = PP_HqpObservation ob\<rparr>]"
    "commit_reliable_projection now u ag = (Committed r, ag', out)"
  shows "map_of (ag_zones ag') (zn_zone_id (ho_zone ob)) = Some (ho_zone ob) \<and>
    ag_hqplayer_snapshots ag' = admit_observation ob (ag_hqplayer_snapshots ag) \<and>
    map_of (ag_projection_entries ag') k2 = Some (r, PP_HqpObservation ob) \<and>
    (k1 \<noteq> k2 \<longrightarrow> map_of (ag_projection_entries ag') k1 = Some (r, PP_Zone (ho_zone ob))) \<and>
    out = zone_hints (ho_zone ob)"
  using assms(2,3) committed_check [OF assms(1,3)]
  by (auto simp: commit_reliable_projection_def Let_def commit_entry_def apply_payload_def
      map_snapshots_def open_commit_def)

section \<open>The observation history\<close>

text \<open>
  A poll of a player that goes on playing the same track records twice: the state without the track,
  then the track again.
\<close>

lemma history_record_push:
  assumes "history_ok h" "map_of h z = Some vs" "vs = [] \<or> \<not> same_snapshot (last vs) (observation_of z st np t)"
  shows "history_record z st np t h = hm_insert z (drop (length vs + 1 - MAX_RECORDS_PER_ZONE)
    (vs @ [observation_of z st np t])) h"
proof -
  have "length (hm_insert z ws h) = length h" for ws
  proof -
    have "z \<in> fst ` set h" using assms(2) by (metis domI dom_map_of_conv_image_fst)
    then have "map fst (hm_insert z ws h) = map fst h" by (simp add: hm_insert_def update_keys)
    then show ?thesis by (metis length_map)
  qed
  moreover have "length h \<le> MAX_ZONES" using assms(1) by (simp add: history_ok_def)
  ultimately show ?thesis using assms(2,3)
    by (subst history_record_def) (auto simp: Let_def evict_zones.simps)
qed

lemma poll_pushes_two:
  assumes ok: "history_ok h" and vs: "map_of h z = Some vs"
    and same: "same_snapshot (last vs) (observation_of z st (Some np) t0)"
    and title: "bounded (np_title np) \<noteq> None"
  shows "recent z 2 (record_now_playing z st (Some np) t2 (record_state z st t1 h)) =
    [observation_of z st (Some np) t2, observation_of z st None t1]"
proof -
  have am: "is_applemusic_zone_id z"
    using ok vs map_of_SomeD [OF vs] by (auto simp: history_ok_def zone_history_ok_def)
  let ?bare = "observation_of z st None t1" and ?full = "observation_of z st (Some np) t2"
  have differ: "\<not> same_snapshot x ?bare" if "same_snapshot x (observation_of z st (Some np) t0)" for x
    using that title by (auto simp: same_snapshot_def observation_of_def)
  define vs1 where "vs1 = drop (length vs + 1 - MAX_RECORDS_PER_ZONE) (vs @ [?bare])"
  have h1: "record_state z st t1 h = hm_insert z vs1 h"
    using history_record_push [OF ok vs, of st None t1] differ [OF same]
    by (simp add: record_state_def am vs1_def)
  have ne: "length vs + 1 - MAX_RECORDS_PER_ZONE < length (vs @ [?bare])"
    by (simp add: MAX_RECORDS_PER_ZONE_def)
  then have l1: "vs1 \<noteq> []" "last vs1 = ?bare" by (simp_all add: vs1_def)
  have ok1: "history_ok (hm_insert z vs1 h)" using record_ok(2) [OF ok, of z st t1] by (simp add: h1)
  have "\<not> same_snapshot ?bare ?full" using title by (auto simp: same_snapshot_def observation_of_def)
  then have "record_now_playing z st (Some np) t2 (record_state z st t1 h) =
      hm_insert z (drop (length vs1 + 1 - MAX_RECORDS_PER_ZONE) (vs1 @ [?full])) (hm_insert z vs1 h)"
    using history_record_push [OF ok1, of z vs1 st "Some np" t2] l1
    by (simp add: record_now_playing_def am h1)
  moreover have "take 2 (rev (drop n (vs1 @ [?full]))) = [?full, ?bare]" if "n < length vs1" for n
  proof -
    have "drop n vs1 \<noteq> []" "last (drop n vs1) = ?bare" using that l1 by simp_all
    then obtain ws where "drop n vs1 = ws @ [?bare]" by (cases "drop n vs1" rule: rev_cases) simp_all
    with that show ?thesis by simp
  qed
  moreover have "length vs1 + 1 - MAX_RECORDS_PER_ZONE < length vs1"
    using l1(1) by (cases vs1) (simp_all add: MAX_RECORDS_PER_ZONE_def)
  ultimately show ?thesis by (simp add: recent_def MAX_RECORDS_PER_ZONE_def)
qed

end
