(* ===== verification/Bridge_Lane.thy ===== *)
theory Bridge_Lane
  imports Zone_Facts
begin

text \<open>
  The bridge and the aggregator together: the updates the bridge emits, in the order the per-instance
  publication lock sends them, against the cursors they meet. As long as no call reports an epoch
  older than one already reported for its instance, every update is committed, under consecutive
  revisions: the lane never drops one as stale and never runs into a gap.
\<close>

definition lane_step :: "hqp_bridge \<times> aggregate_state \<Rightarrow> bridge_call \<Rightarrow> hqp_bridge \<times> aggregate_state" where
  "lane_step s c =
     (let (u, b) = bridge_step c (fst s)
      in (b, fst (snd (commit_reliable_projection 0 u (snd s)))))"

definition lane_result :: "hqp_bridge \<times> aggregate_state \<Rightarrow> bridge_call \<Rightarrow> projection_commit" where
  "lane_result s c = fst (commit_reliable_projection 0 (fst (bridge_step c (fst s))) (snd s))"

fun lane_results :: "hqp_bridge \<times> aggregate_state \<Rightarrow> bridge_call list \<Rightarrow> projection_commit list" where
  "lane_results s [] = []"
| "lane_results s (c # cs) = lane_result s c # lane_results (lane_step s c) cs"

text \<open>The instance and epoch a call reports, epoch 0 standing for the instance's current one.\<close>

definition call_lane :: "bridge_call \<Rightarrow> (string \<times> u64) option" where
  "call_lane c =
     (case c of
        BC_Observed ob \<Rightarrow> Some (ho_instance_name ob, ho_producer_epoch ob)
      | BC_AdvancedObserved i adv \<Rightarrow> Some (i, et_producer_epoch (ha_execution_target adv))
      | BC_ProfilesObserved i _ \<Rightarrow> Some (i, 0)
      | BC_TransientFailure i _ \<Rightarrow> Some (i, 0)
      | BC_OutputsObserved i _ _ \<Rightarrow> Some (i, 0)
      | BC_InstanceRemoved i epoch \<Rightarrow> Some (i, epoch)
      | BC_ManagerStopped \<Rightarrow> None
      | BC_ConfirmReadback i epoch _ \<Rightarrow> Some (i, epoch)
      | BC_AdvancedReadback i adv \<Rightarrow> Some (i, et_producer_epoch (ha_execution_target adv))
      | BC_ProfilesReadback i epoch _ \<Rightarrow> Some (i, epoch))"

definition known_epoch :: "hqp_bridge \<Rightarrow> string \<Rightarrow> u64" where
  "known_epoch b i = (case map_of (hb_epochs b) i of None \<Rightarrow> 0 | Some e \<Rightarrow> e)"

definition known_sequence :: "hqp_bridge \<Rightarrow> string \<Rightarrow> u64" where
  "known_sequence b i = (case map_of (hb_sequences b) i of None \<Rightarrow> 0 | Some s \<Rightarrow> s)"

text \<open>No call reports an epoch older than one its instance has already reported.\<close>

definition call_forward :: "bridge_call \<Rightarrow> hqp_bridge \<Rightarrow> bool" where
  "call_forward c b =
     (case call_lane c of None \<Rightarrow> True | Some (i, e) \<Rightarrow> e = 0 \<or> known_epoch b i \<le> e)"

fun forward :: "bridge_call list \<Rightarrow> hqp_bridge \<Rightarrow> bool" where
  "forward [] b = True"
| "forward (c # cs) b = (call_forward c b \<and> forward cs (snd (bridge_step c b)))"

section \<open>What a step sends\<close>

definition hqp_identity :: "string \<Rightarrow> string" where
  "hqp_identity i = ''hqplayer/'' @ i"

lemma identities [simp]:
  "hqp_identity i = hqp_identity j \<longleftrightarrow> i = j" "hqp_identity i \<noteq> ''hqplayer-lifecycle''" "''hqplayer-lifecycle'' \<noteq> hqp_identity i"
  by (simp_all add: hqp_identity_def)

definition effective_epoch :: "hqp_bridge \<Rightarrow> string \<Rightarrow> u64 \<Rightarrow> u64" where
  "effective_epoch b i e = (if e = 0 then known_epoch b i else e)"

lemma publish_lane:
  assumes "publish_entries i e cb k es b = (u, b')"
  shows "source_identity (pu_source u) = hqp_identity i \<and> src_epoch (pu_source u) = effective_epoch b i e \<and>
    pu_sequence u = sat_succ (known_sequence b i) \<and>
    known_epoch b' = (known_epoch b)(i := effective_epoch b i e) \<and>
    known_sequence b' = (known_sequence b)(i := sat_succ (known_sequence b i)) \<and>
    hb_marker_sequence b' = hb_marker_sequence b"
  using assms
  by (auto simp: publish_entries_def publish_epoch_def next_sequence_def Let_def source_identity_def
      hqp_identity_def effective_epoch_def known_epoch_def known_sequence_def fun_eq_iff
      split: if_splits)

lemma step_lane:
  assumes "bridge_step c b = (u, b')" "call_lane c = Some (i, e)"
  shows "source_identity (pu_source u) = hqp_identity i \<and> src_epoch (pu_source u) = effective_epoch b i e \<and>
    pu_sequence u = sat_succ (known_sequence b i) \<and>
    known_epoch b' = (known_epoch b)(i := effective_epoch b i e) \<and>
    known_sequence b' = (known_sequence b)(i := sat_succ (known_sequence b i)) \<and>
    hb_marker_sequence b' \<in> {hb_marker_sequence b, hb_marker_sequence b + 1}"
proof (cases "\<exists>j x m. c = BC_ConfirmReadback j x m")
  case True
  then obtain m where c: "c = BC_ConfirmReadback i e m" using assms(2) by (auto simp: call_lane_def)
  define b1 where "b1 = b\<lparr>hb_marker_sequence := hb_marker_sequence b + 1\<rparr>"
  have "known_epoch b1 = known_epoch b" "known_sequence b1 = known_sequence b"
    "hb_marker_sequence b1 = hb_marker_sequence b + 1" "effective_epoch b1 = effective_epoch b"
    by (auto simp: b1_def known_epoch_def known_sequence_def effective_epoch_def fun_eq_iff)
  moreover obtain k es where "publish_entries i e (Some m) k es b1 = (u, b')"
    using assms(1) by (auto simp: c bridge_step_def confirm_readback_def bridge_publish_def b1_def)
  ultimately show ?thesis using publish_lane by fastforce
next
  case False
  then obtain cb k es where "publish_entries i e cb k es b = (u, b')"
    using assms
    by (cases c) (auto simp: bridge_step_def call_lane_def bridge_publish_def bridge_observed_def)
  then show ?thesis using publish_lane by blast
qed

lemma step_stop:
  assumes "bridge_step c b = (u, b')" "call_lane c = None"
  shows "source_identity (pu_source u) = ''hqplayer-lifecycle'' \<and> src_epoch (pu_source u) = 0 \<and>
    pu_sequence u = hb_marker_sequence b \<and> pu_kind u = PK_Snapshot \<and>
    known_epoch b' = known_epoch b \<and> known_sequence b' = known_sequence b \<and>
    hb_marker_sequence b' = hb_marker_sequence b + 1"
  using assms
  by (cases c) (auto simp: bridge_step_def call_lane_def manager_stopped_def source_identity_def
      known_epoch_def known_sequence_def fun_eq_iff)

section \<open>The lane invariant\<close>

text \<open>After \<open>n\<close> calls: the cursors are where the bridge left them, and the counters are at most \<open>n\<close>.\<close>

definition lane_inv :: "nat \<Rightarrow> hqp_bridge \<times> aggregate_state \<Rightarrow> bool" where
  "lane_inv n s \<longleftrightarrow>
     ag_ok (snd s) \<and>
     (\<forall>i c. map_of (ag_source_cursors (snd s)) (hqp_identity i) = Some c \<longrightarrow>
        pc_epoch c = known_epoch (fst s) i \<and> pc_sequence c = known_sequence (fst s) i) \<and>
     (\<forall>c. map_of (ag_source_cursors (snd s)) ''hqplayer-lifecycle'' = Some c \<longrightarrow>
        pc_epoch c = 0 \<and> pc_sequence c < hb_marker_sequence (fst s)) \<and>
     (\<forall>i. unat (known_sequence (fst s) i) \<le> n) \<and>
     unat (hb_marker_sequence (fst s)) \<le> n + 1"

lemma lane_inv_new: "lane_inv 0 (bridge_new, aggregate_default)"
  by (simp add: lane_inv_def bridge_new_def aggregate_default_def ag_ok_def entries_ok_def
      known_sequence_def)

lemma not_max: "unat (x :: u64) \<le> n \<Longrightarrow> n + 1 < 2 ^ 64 \<Longrightarrow> x \<noteq> - 1"
  by (rule notI) (simp add: unsigned_minus_1_eq_mask mask_eq_exp_minus_1)

lemma next_commits:
  assumes "pc_epoch c \<le> src_epoch (pu_source u)" "pc_sequence c < pu_sequence u"
    "pu_kind u = PK_Snapshot \<or> pu_sequence u \<le> sat_succ (pc_sequence c)"
  shows "check_cursor u (Some c) = CC_Commit"
  using assms by (auto simp: check_cursor_def)

lemma lane_check:
  assumes inv: "lane_inv n s" and n: "n + 2 < 2 ^ 64" and f: "call_forward c (fst s)"
    and st: "bridge_step c (fst s) = (u, b')"
  shows "check_cursor u (map_of (ag_source_cursors (snd s)) (source_identity (pu_source u))) = CC_Commit"
proof (cases "map_of (ag_source_cursors (snd s)) (source_identity (pu_source u))")
  case cur: (Some cur)
  have "check_cursor u (Some cur) = CC_Commit"
  proof (cases "call_lane c")
    case None
    have "pc_epoch cur = 0 \<and> pc_sequence cur < hb_marker_sequence (fst s)"
      using inv cur step_stop [OF st None] by (simp add: lane_inv_def)
    then show ?thesis using step_stop [OF st None] by (intro next_commits) simp_all
  next
    case (Some ie)
    obtain i e where ie: "call_lane c = Some (i, e)" using Some by (cases ie) auto
    note u = step_lane [OF st ie]
    have c: "pc_epoch cur = known_epoch (fst s) i \<and> pc_sequence cur = known_sequence (fst s) i"
      using inv cur u by (simp add: lane_inv_def)
    have "known_sequence (fst s) i \<noteq> - 1"
      using inv n by (intro not_max [of _ n]) (simp_all add: lane_inv_def)
    then have "known_sequence (fst s) i < sat_succ (known_sequence (fst s) i)" by (rule sat_succ_gt)
    moreover have "known_epoch (fst s) i \<le> effective_epoch (fst s) i e"
      using f ie by (auto simp: call_forward_def effective_epoch_def)
    ultimately show ?thesis using u c by (intro next_commits) simp_all
  qed
  then show ?thesis by (simp add: cur)
qed (simp add: check_cursor_def)

lemma lane_committed:
  assumes inv: "lane_inv n s" and n: "n + 2 < 2 ^ 64" and f: "call_forward c (fst s)"
    and st: "bridge_step c (fst s) = (u, b')"
  obtains ag' out where "commit_reliable_projection 0 u (snd s) =
      (Committed (sat_succ (ag_projection_revision (snd s))), ag', out)"
    "lane_step s c = (b', ag')"
    "lane_result s c = Committed (sat_succ (ag_projection_revision (snd s)))"
proof -
  obtain res ag' out where c: "commit_reliable_projection 0 u (snd s) = (res, ag', out)"
    by (metis prod_cases3)
  have "ag_ok (snd s)" using inv by (simp add: lane_inv_def)
  note k = lane_check [OF inv n f st]
  from \<open>ag_ok (snd s)\<close> c have "res = Committed (sat_succ (ag_projection_revision (snd s)))"
  proof (cases rule: commit_cases)
    case (stale cur)
    with k show ?thesis by simp
  next
    case (gap cur)
    with k show ?thesis by simp
  qed
  with c st show ?thesis by (intro that) (simp_all add: lane_step_def lane_result_def)
qed

lemma lane_inv_step:
  assumes inv: "lane_inv n s" and n: "n + 2 < 2 ^ 64" and f: "call_forward c (fst s)"
  shows "lane_inv (Suc n) (lane_step s c)"
proof -
  obtain u b' where st: "bridge_step c (fst s) = (u, b')" by (cases "bridge_step c (fst s)")
  from inv n f st obtain ag' out where com: "commit_reliable_projection 0 u (snd s) =
      (Committed (sat_succ (ag_projection_revision (snd s))), ag', out)" "lane_step s c = (b', ag')"
    by (rule lane_committed)
  have ok: "ag_ok (snd s)" using inv by (simp add: lane_inv_def)
  then have ok': "ag_ok ag'" using commit_ok [of "snd s" 0 u] com by simp
  have cur: "ag_source_cursors ag' = ag_source_cursors (open_commit u (snd s))"
    using ok com(1) by (cases rule: commit_cases) (simp_all add: same_lane_def)
  have seq: "unat (known_sequence (fst s) i) \<le> n" for i using inv by (simp add: lane_inv_def)
  then have seq': "unat (sat_succ (known_sequence (fst s) i)) \<le> Suc n" for i
    using n not_max [of _ n] by (simp add: unat_sat_succ)
  have "unat (hb_marker_sequence (fst s)) \<le> n + 1" using inv by (simp add: lane_inv_def)
  then have m: "hb_marker_sequence (fst s) \<noteq> - 1" using n by (intro not_max [of _ "n + 1"]) simp_all
  then have m': "unat (hb_marker_sequence (fst s) + 1) \<le> Suc n + 1"
    "hb_marker_sequence (fst s) < hb_marker_sequence (fst s) + 1"
    using \<open>unat (hb_marker_sequence (fst s)) \<le> n + 1\<close> wrap_succ_gt unat_sat_succ [OF m]
    by (simp_all add: sat_succ_def)
  show ?thesis
  proof (cases "call_lane c")
    case None
    then show ?thesis
      using inv ok' m' step_stop [OF st None] cur com(2) seq
      by (auto simp: lane_inv_def open_commit_def intro: le_SucI)
  next
    case (Some ie)
    obtain i e where ie: "call_lane c = Some (i, e)" using Some by (cases ie) auto
    have "hb_marker_sequence (fst s) \<le> hb_marker_sequence b' \<and> unat (hb_marker_sequence b') \<le> Suc n + 1"
      using step_lane [OF st ie] m' \<open>unat (hb_marker_sequence (fst s)) \<le> n + 1\<close> by auto
    then show ?thesis
      using inv ok' step_lane [OF st ie] cur com(2) seq seq'
      by (auto simp: lane_inv_def open_commit_def intro: le_SucI less_le_trans)
  qed
qed

text \<open>The revisions the calls of a run receive: one after the other.\<close>

fun revisions_from :: "u64 \<Rightarrow> bridge_call list \<Rightarrow> projection_commit list" where
  "revisions_from r [] = []"
| "revisions_from r (c # cs) = Committed (sat_succ r) # revisions_from (sat_succ r) cs"

lemma lane_run_committed:
  assumes "lane_inv n s" "n + length cs + 2 < 2 ^ 64" "forward cs (fst s)"
  shows "lane_results s cs = revisions_from (ag_projection_revision (snd s)) cs"
  using assms
proof (induction cs arbitrary: n s)
  case (Cons c cs)
  obtain u b' where st: "bridge_step c (fst s) = (u, b')" by (cases "bridge_step c (fst s)")
  have n: "n + 2 < 2 ^ 64" and f: "call_forward c (fst s)" using Cons.prems by simp_all
  obtain ag' out where com: "commit_reliable_projection 0 u (snd s) =
      (Committed (sat_succ (ag_projection_revision (snd s))), ag', out)" "lane_step s c = (b', ag')"
    "lane_result s c = Committed (sat_succ (ag_projection_revision (snd s)))"
    using lane_committed [OF Cons.prems(1) n f st] by blast
  have "ag_ok (snd s)" using Cons.prems(1) by (simp add: lane_inv_def)
  then have "ag_projection_revision ag' = sat_succ (ag_projection_revision (snd s))"
    using committed_cursor [OF _ com(1)] by simp
  moreover have "lane_results (lane_step s c) cs =
      revisions_from (ag_projection_revision (snd (lane_step s c))) cs"
    using Cons.prems com(2) st by (intro Cons.IH [OF lane_inv_step [OF Cons.prems(1) n f]]) simp_all
  ultimately show ?case using com(2,3) by simp
qed simp

end
