(* ===== verification/App_Settings.thy ===== *)
theory App_Settings
  imports Uhc_Prelude
begin

text \<open>
  The persisted settings (\<open>src/src/api/mod.rs\<close>): the adapter toggles, the zone preferences, the
  read-modify-write of the settings file, and the handlers of the zone name, zone visibility and
  settings endpoints as functions on the file.

  The file is \<open>None\<close> when it is absent or cannot be parsed and \<open>Some s\<close> when it holds \<open>s\<close>;
  \<open>lms_plugin\<close> is the environment variable of the LMS plugin, and \<open>writable\<close> says whether the
  save succeeds. The save goes to a sibling file that is renamed over the target, so a failed save
  leaves the file as it was. Every mutation holds the write lock from its load to its save and is one
  step here.
\<close>

section \<open>The records\<close>

datatype mqtt_enable_source = MqttAutomatic | MqttUser

record adapter_settings =
  as_roon :: bool
  as_upnp :: bool
  as_openhome :: bool
  as_lms :: bool
  as_hqplayer :: bool
  as_spotify :: bool
  as_applemusic :: bool
  as_musicassistant :: bool
  as_mqtt :: bool

record app_settings =
  aps_hide_knobs_page :: bool
  aps_hide_hqp_page :: bool
  aps_hide_lms_page :: bool
  aps_adapters :: adapter_settings
  aps_mqtt_enabled_by :: mqtt_enable_source
  aps_hidden_zones :: "string list option"
  aps_zone_order :: "string list option"
  aps_zone_names :: "(string \<times> string) list option"

definition app_settings_default :: app_settings where
  "app_settings_default =
     \<lparr>aps_hide_knobs_page = False, aps_hide_hqp_page = False, aps_hide_lms_page = False,
      aps_adapters = \<lparr>as_roon = True, as_upnp = False, as_openhome = False, as_lms = False,
        as_hqplayer = False, as_spotify = False, as_applemusic = False, as_musicassistant = False,
        as_mqtt = False\<rparr>,
      aps_mqtt_enabled_by = MqttAutomatic, aps_hidden_zones = None, aps_zone_order = None,
      aps_zone_names = None\<rparr>"

definition hidden_zone_ids :: "app_settings \<Rightarrow> string list" where
  "hidden_zone_ids s = (case aps_hidden_zones s of None \<Rightarrow> [] | Some l \<Rightarrow> l)"

definition zone_order_ids :: "app_settings \<Rightarrow> string list" where
  "zone_order_ids s = (case aps_zone_order s of None \<Rightarrow> [] | Some l \<Rightarrow> l)"

definition custom_zone_name :: "app_settings \<Rightarrow> string \<Rightarrow> string option" where
  "custom_zone_name s z = Option.bind (aps_zone_names s) (\<lambda>names. map_of names z)"

definition toggle :: "adapter_settings \<Rightarrow> string \<Rightarrow> bool option" where
  "toggle a provider =
     (if provider = ''roon'' then Some (as_roon a)
      else if provider = ''upnp'' then Some (as_upnp a)
      else if provider = ''openhome'' then Some (as_openhome a)
      else if provider = ''lms'' \<or> provider = ''lms-cli'' then Some (as_lms a)
      else if provider = ''hqplayer'' then Some (as_hqplayer a)
      else if provider = ''spotify'' then Some (as_spotify a)
      else if provider = ''applemusic'' then Some (as_applemusic a)
      else if provider = ''musicassistant'' then Some (as_musicassistant a)
      else if provider = ''mqtt'' then Some (as_mqtt a)
      else None)"

text \<open>\<open>toggle_mut\<close>: the assignment \<open>*toggle_mut(provider)? = b\<close>.\<close>

definition toggle_mut :: "string \<Rightarrow> bool \<Rightarrow> adapter_settings \<Rightarrow> adapter_settings option" where
  "toggle_mut provider b a =
     (if provider = ''roon'' then Some (a\<lparr>as_roon := b\<rparr>)
      else if provider = ''upnp'' then Some (a\<lparr>as_upnp := b\<rparr>)
      else if provider = ''openhome'' then Some (a\<lparr>as_openhome := b\<rparr>)
      else if provider = ''lms'' \<or> provider = ''lms-cli'' then Some (a\<lparr>as_lms := b\<rparr>)
      else if provider = ''hqplayer'' then Some (a\<lparr>as_hqplayer := b\<rparr>)
      else if provider = ''spotify'' then Some (a\<lparr>as_spotify := b\<rparr>)
      else if provider = ''applemusic'' then Some (a\<lparr>as_applemusic := b\<rparr>)
      else if provider = ''musicassistant'' then Some (a\<lparr>as_musicassistant := b\<rparr>)
      else if provider = ''mqtt'' then Some (a\<lparr>as_mqtt := b\<rparr>)
      else None)"

text \<open>The names that have a toggle.\<close>

definition toggle_names :: "string list" where
  "toggle_names = [''roon'', ''upnp'', ''openhome'', ''lms'', ''lms-cli'', ''hqplayer'', ''spotify'',
     ''applemusic'', ''musicassistant'', ''mqtt'']"

lemma toggle_None_iff: "toggle a p = None \<longleftrightarrow> p \<notin> set toggle_names"
  unfolding toggle_def toggle_names_def by simp

lemma toggle_mut_None_iff: "toggle_mut p b a = None \<longleftrightarrow> p \<notin> set toggle_names"
  unfolding toggle_mut_def toggle_names_def by simp

lemma toggle_agrees:
  assumes "toggle_mut p b a = Some a'"
  shows "toggle a' p = Some b"
proof -
  have "list_all (\<lambda>p. \<forall>a'. toggle_mut p b a = Some a' \<longrightarrow> toggle a' p = Some b) toggle_names"
    by (simp add: toggle_names_def toggle_mut_def toggle_def)
  moreover have "p \<in> set toggle_names" using assms toggle_mut_None_iff [of p b a] by auto
  ultimately show ?thesis using assms by (simp add: list_all_iff)
qed

section \<open>The settings file\<close>

definition load_app_settings :: "bool \<Rightarrow> app_settings option \<Rightarrow> app_settings" where
  "load_app_settings lms_plugin file =
     (let s = (case file of None \<Rightarrow> app_settings_default | Some s \<Rightarrow> s)
      in if lms_plugin \<and> \<not> as_lms (aps_adapters s)
         then s\<lparr>aps_adapters := (aps_adapters s)\<lparr>as_lms := True\<rparr>\<rparr> else s)"

definition save_app_settings_locked ::
  "bool \<Rightarrow> app_settings \<Rightarrow> app_settings option \<Rightarrow> bool \<times> app_settings option" where
  "save_app_settings_locked writable s file = (if writable then (True, Some s) else (False, file))"

definition mutate_app_settings ::
  "bool \<Rightarrow> bool \<Rightarrow> (app_settings \<Rightarrow> app_settings) \<Rightarrow> app_settings option \<Rightarrow>
     bool \<times> app_settings option" where
  "mutate_app_settings lms_plugin writable f file =
     save_app_settings_locked writable (f (load_app_settings lms_plugin file)) file"

definition enable_mqtt_in_settings ::
  "bool \<Rightarrow> bool \<Rightarrow> mqtt_enable_source \<Rightarrow> app_settings option \<Rightarrow> bool \<times> app_settings option" where
  "enable_mqtt_in_settings lms_plugin writable source =
     mutate_app_settings lms_plugin writable
       (\<lambda>s. s\<lparr>aps_adapters := (aps_adapters s)\<lparr>as_mqtt := True\<rparr>, aps_mqtt_enabled_by := source\<rparr>)"

section \<open>The endpoints\<close>

text \<open>\<open>list.sort()\<close> on strings is stable and by bytes.\<close>

definition hide_zone :: "string \<Rightarrow> bool \<Rightarrow> app_settings \<Rightarrow> app_settings" where
  "hide_zone z hide s =
     (let list = hidden_zone_ids s;
          list' = (if hide then (if z \<in> set list then list else list @ [z])
                   else filter (\<lambda>i. i \<noteq> z) list)
      in s\<lparr>aps_hidden_zones := Some (sort list')\<rparr>)"

definition zone_visibility_post ::
  "bool \<Rightarrow> bool \<Rightarrow> string \<Rightarrow> bool \<Rightarrow> app_settings option \<Rightarrow> bool \<times> app_settings option" where
  "zone_visibility_post lms_plugin writable z hide =
     mutate_app_settings lms_plugin writable (hide_zone z hide)"

text \<open>
  \<open>str::trim\<close> on UTF-8: the encodings of the characters with the Unicode property White\_Space are
  removed at both ends; \<open>chars().count()\<close> counts the bytes that do not continue a character.
\<close>

definition white_space :: "string list" where
  "white_space =
     map (\<lambda>n. [char_of (n :: nat)]) [9, 10, 11, 12, 13, 32] @
     map (map char_of) ([[0xC2, 0x85], [0xC2, 0xA0], [0xE1, 0x9A, 0x80]] @
       map (\<lambda>n. [0xE2, 0x80, n]) [0x80 ..< 0x8B] @
       [[0xE2, 0x80, 0xA8], [0xE2, 0x80, 0xA9], [0xE2, 0x80, 0xAF], [0xE2, 0x81, 0x9F], [0xE3, 0x80, 0x80 :: nat]])"

function trim_start :: "string \<Rightarrow> string" where
  "trim_start s =
     (case find (starts_with s) white_space of None \<Rightarrow> s | Some w \<Rightarrow> trim_start (drop (length w) s))"
  by pat_completeness auto

lemma white_space_nonempty: "w \<in> set white_space \<Longrightarrow> w \<noteq> []"
  by (auto simp: white_space_def)

termination trim_start
proof (relation "measure length")
  fix s w assume "find (starts_with s) white_space = Some w"
  then have "w \<in> set white_space" "starts_with s w" by (auto simp: find_Some_iff)
  then show "(drop (length w) s, s) \<in> measure length"
    using white_space_nonempty by (auto simp: starts_with_iff)
qed simp

function trim_end :: "string \<Rightarrow> string" where
  "trim_end s =
     (case find (\<lambda>w. starts_with (List.rev s) (List.rev w)) white_space of None \<Rightarrow> s
      | Some w \<Rightarrow> trim_end (take (length s - length w) s))"
  by pat_completeness auto

termination trim_end
proof (relation "measure length")
  fix s w assume "find (\<lambda>w. starts_with (List.rev s) (List.rev w)) white_space = Some w"
  then have w: "w \<in> set white_space" "starts_with (List.rev s) (List.rev w)" by (auto simp: find_Some_iff)
  then obtain r where "List.rev s = List.rev w @ r" by (auto simp: starts_with_iff)
  then have "length s = length w + length r" by (metis length_append length_rev)
  moreover have "0 < length w" using white_space_nonempty [OF w(1)] by simp
  ultimately show "(take (length s - length w) s, s) \<in> measure length" by simp
qed simp

declare trim_start.simps [simp del] trim_end.simps [simp del]

definition str_trim :: "string \<Rightarrow> string" where
  "str_trim s = trim_end (trim_start s)"

definition chars_count :: "string \<Rightarrow> nat" where
  "chars_count s = length (filter (\<lambda>c. (of_char c :: nat) div 64 \<noteq> 2) s)"

definition MAX_ZONE_NAME_CHARS :: nat where
  "MAX_ZONE_NAME_CHARS = 60"

definition name_zone :: "string \<Rightarrow> string \<Rightarrow> app_settings \<Rightarrow> app_settings" where
  "name_zone z trimmed s =
     (let names = (case aps_zone_names s of None \<Rightarrow> [] | Some n \<Rightarrow> n)
      in s\<lparr>aps_zone_names := Some (if trimmed = [] then bt_remove z names else bt_insert z trimmed names)\<rparr>)"

datatype name_answer = NameTooLong | NameNotSaved | NameSaved

definition zone_name_post ::
  "bool \<Rightarrow> bool \<Rightarrow> string \<Rightarrow> string option \<Rightarrow> app_settings option \<Rightarrow> name_answer \<times> app_settings option" where
  "zone_name_post lms_plugin writable z name file =
     (let trimmed = str_trim (case name of None \<Rightarrow> [] | Some n \<Rightarrow> n) in
      if chars_count trimmed > MAX_ZONE_NAME_CHARS then (NameTooLong, file)
      else let (saved, file') = mutate_app_settings lms_plugin writable (name_zone z trimmed) file
           in (if saved then NameSaved else NameNotSaved, file'))"

text \<open>The merge inside \<open>POST /api/settings\<close>.\<close>

definition carry_forward :: "app_settings \<Rightarrow> app_settings \<Rightarrow> app_settings" where
  "carry_forward current new =
     (let n1 = (if aps_hidden_zones new = None then new\<lparr>aps_hidden_zones := aps_hidden_zones current\<rparr> else new);
          n2 = (if aps_zone_order n1 = None then n1\<lparr>aps_zone_order := aps_zone_order current\<rparr> else n1);
          n3 = (if aps_zone_names n2 = None then n2\<lparr>aps_zone_names := aps_zone_names current\<rparr> else n2)
      in n3\<lparr>aps_mqtt_enabled_by :=
           (if as_mqtt (aps_adapters n3)
            then (if as_mqtt (aps_adapters current) then aps_mqtt_enabled_by current else MqttUser)
            else MqttAutomatic)\<rparr>)"

definition settings_post ::
  "bool \<Rightarrow> bool \<Rightarrow> app_settings \<Rightarrow> app_settings option \<Rightarrow> bool \<times> app_settings option" where
  "settings_post lms_plugin writable new =
     mutate_app_settings lms_plugin writable (\<lambda>current. carry_forward current new)"

section \<open>What the endpoints keep\<close>

lemma load_zones [simp]:
  "hidden_zone_ids (load_app_settings p (Some s)) = hidden_zone_ids s"
  "zone_order_ids (load_app_settings p (Some s)) = zone_order_ids s"
  "custom_zone_name (load_app_settings p (Some s)) z = custom_zone_name s z"
  "aps_zone_names (load_app_settings p (Some s)) = aps_zone_names s"
  by (simp_all add: load_app_settings_def hidden_zone_ids_def zone_order_ids_def custom_zone_name_def Let_def)

lemma hide_zone_set:
  "set (hidden_zone_ids (hide_zone z h s)) =
     (if h then insert z (set (hidden_zone_ids s)) else set (hidden_zone_ids s) - {z})"
  by (auto simp: hide_zone_def hidden_zone_ids_def Let_def)

lemma hide_zone_frame:
  "zone_order_ids (hide_zone z h s) = zone_order_ids s"
  "custom_zone_name (hide_zone z h s) = custom_zone_name s"
  "aps_adapters (hide_zone z h s) = aps_adapters s"
  by (simp_all add: hide_zone_def Let_def zone_order_ids_def custom_zone_name_def fun_eq_iff)

lemma hide_zone_distinct:
  "distinct (hidden_zone_ids s) \<Longrightarrow> distinct (hidden_zone_ids (hide_zone z h s))"
  by (simp add: hide_zone_def hidden_zone_ids_def Let_def)

text \<open>Two sorted lists without duplicates and with the same elements are one list.\<close>

lemma hide_zone_commute:
  assumes "y \<noteq> z" "distinct (hidden_zone_ids s)"
  shows "hide_zone y g (hide_zone z h s) = hide_zone z h (hide_zone y g s)"
proof -
  have d: "distinct (hidden_zone_ids (hide_zone a f (hide_zone b e s)))" for a b e f
    using assms(2) by (intro hide_zone_distinct)
  have st: "sorted (hidden_zone_ids (hide_zone a f t))" for a f t
    by (simp add: hide_zone_def hidden_zone_ids_def Let_def)
  have "hidden_zone_ids (hide_zone y g (hide_zone z h s)) = hidden_zone_ids (hide_zone z h (hide_zone y g s))"
    using assms(1) by (intro sorted_distinct_set_unique st d) (auto simp: hide_zone_set)
  moreover have "aps_hidden_zones (hide_zone a f t) = Some (hidden_zone_ids (hide_zone a f t))" for a f t
    by (simp add: hide_zone_def hidden_zone_ids_def Let_def)
  ultimately have "aps_hidden_zones (hide_zone y g (hide_zone z h s)) =
      aps_hidden_zones (hide_zone z h (hide_zone y g s))"
    by simp
  then show ?thesis
    by (intro app_settings.equality) (simp_all add: hide_zone_def Let_def)
qed

lemma name_zone_lookup:
  "custom_zone_name (name_zone z t s) y =
     (if y = z then (if t = [] then None else Some t) else custom_zone_name s y)"
  by (auto simp: name_zone_def custom_zone_name_def Let_def split: option.split)

lemma name_zone_frame:
  "hidden_zone_ids (name_zone z t s) = hidden_zone_ids s"
  "zone_order_ids (name_zone z t s) = zone_order_ids s"
  "aps_adapters (name_zone z t s) = aps_adapters s"
  by (simp_all add: name_zone_def Let_def hidden_zone_ids_def zone_order_ids_def)

lemma carry_forward_fields:
  "aps_hidden_zones (carry_forward c n) = (case aps_hidden_zones n of None \<Rightarrow> aps_hidden_zones c | x \<Rightarrow> x)"
  "aps_zone_order (carry_forward c n) = (case aps_zone_order n of None \<Rightarrow> aps_zone_order c | x \<Rightarrow> x)"
  "aps_zone_names (carry_forward c n) = (case aps_zone_names n of None \<Rightarrow> aps_zone_names c | x \<Rightarrow> x)"
  "aps_adapters (carry_forward c n) = aps_adapters n"
  by (simp_all add: carry_forward_def Let_def split: option.split)

lemma carry_forward_zones:
  "hidden_zone_ids (carry_forward c n) = hidden_zone_ids (if aps_hidden_zones n = None then c else n)"
  "zone_order_ids (carry_forward c n) = zone_order_ids (if aps_zone_order n = None then c else n)"
  "custom_zone_name (carry_forward c n) = custom_zone_name (if aps_zone_names n = None then c else n)"
  by (auto simp: carry_forward_fields hidden_zone_ids_def zone_order_ids_def custom_zone_name_def
      fun_eq_iff split: option.split)

end
