(* ===== verification/Zone_List.thy ===== *)
theory Zone_List
  imports App_Settings Bus_Events "HOL-Library.Multiset"
begin

text \<open>
  The zone lists (\<open>src/src/zone_list.rs\<close>): which zones a surface offers and in which order, the step
  and the drop of a reordering, and the order endpoint of \<open>src/src/api/mod.rs\<close>. The Unicode case
  tables behind \<open>str::to_lowercase\<close> are the parameter \<open>lc\<close>; nothing is assumed of it.
\<close>

section \<open>Orderings and the stable sort\<close>

datatype rust_ordering = OLess | OEqual | OGreater

definition cmp_of :: "'a::linorder \<Rightarrow> 'a \<Rightarrow> rust_ordering" where
  "cmp_of x y = (if x < y then OLess else if x = y then OEqual else OGreater)"

definition then_with :: "rust_ordering \<Rightarrow> rust_ordering \<Rightarrow> rust_ordering" where
  "then_with a b = (if a = OEqual then b else a)"

text \<open>\<open>slice::sort_by\<close>: stable, so the elements that compare equal keep their order.\<close>

fun insort_by :: "('a \<Rightarrow> 'a \<Rightarrow> rust_ordering) \<Rightarrow> 'a \<Rightarrow> 'a list \<Rightarrow> 'a list" where
  "insort_by cmp x [] = [x]"
| "insort_by cmp x (y # ys) = (if cmp x y = OGreater then y # insort_by cmp x ys else x # y # ys)"

definition sort_by :: "('a \<Rightarrow> 'a \<Rightarrow> rust_ordering) \<Rightarrow> 'a list \<Rightarrow> 'a list" where
  "sort_by cmp xs = foldr (insort_by cmp) xs []"

text \<open>A comparator that is a total preorder through a key into a linear order.\<close>

definition keyed :: "('a \<Rightarrow> 'k::linorder) \<Rightarrow> ('a \<Rightarrow> 'a \<Rightarrow> rust_ordering) \<Rightarrow> bool" where
  "keyed f cmp \<longleftrightarrow> (\<forall>x y. cmp x y = cmp_of (f x) (f y))"

lemma sort_by_key: "keyed f cmp \<Longrightarrow> sort_by cmp xs = sort_key f xs"
proof -
  assume k: "keyed f cmp"
  have "insort_by cmp x ys = insort_key f x ys" for x ys
    using k by (induction ys) (auto simp: keyed_def cmp_of_def)
  then have "insort_by cmp = insort_key f" by (intro ext)
  then show ?thesis by (simp add: sort_by_def sort_key_def)
qed

section \<open>The policy\<close>

text \<open>The unknown prefix and the identifier without a colon are included.\<close>

definition adapter_enabled :: "string \<Rightarrow> app_settings \<Rightarrow> bool" where
  "adapter_enabled z s =
     (case split_once CHR '':'' z of
        Some (prefix, _) \<Rightarrow> (case toggle (aps_adapters s) prefix of None \<Rightarrow> True | Some b \<Rightarrow> b)
      | None \<Rightarrow> True)"

definition apply_custom_name :: "app_settings \<Rightarrow> zone \<Rightarrow> zone" where
  "apply_custom_name s z =
     (case custom_zone_name s (zn_zone_id z) of None \<Rightarrow> z | Some n \<Rightarrow> z\<lparr>zn_zone_name := n\<rparr>)"

definition compare_by_name :: "(string \<Rightarrow> string) \<Rightarrow> zone \<Rightarrow> zone \<Rightarrow> rust_ordering" where
  "compare_by_name lc a b =
     then_with (cmp_of (lc (zn_zone_name a)) (lc (zn_zone_name b)))
       (cmp_of (zn_zone_id a) (zn_zone_id b))"

text \<open>\<open>collect\<close> into the map: a later position of the same identifier overwrites an earlier one.\<close>

definition zone_ranks :: "string list \<Rightarrow> (string \<times> nat) list" where
  "zone_ranks order = foldl (\<lambda>m iz. hm_insert (snd iz) (fst iz) m) [] (enumerate 0 order)"

definition compare_zones :: "(string \<Rightarrow> string) \<Rightarrow> (string \<times> nat) list \<Rightarrow> zone \<Rightarrow> zone \<Rightarrow> rust_ordering" where
  "compare_zones lc rank a b =
     (case (map_of rank (zn_zone_id a), map_of rank (zn_zone_id b)) of
        (Some l, Some r) \<Rightarrow> cmp_of l r
      | (Some _, None) \<Rightarrow> OLess
      | (None, Some _) \<Rightarrow> OGreater
      | (None, None) \<Rightarrow> compare_by_name lc a b)"

definition order_zones :: "(string \<Rightarrow> string) \<Rightarrow> string list \<Rightarrow> zone list \<Rightarrow> zone list" where
  "order_zones lc zone_order zones = sort_by (compare_zones lc (zone_ranks zone_order)) zones"

definition apply_adapter_filter_and_sort ::
  "(string \<Rightarrow> string) \<Rightarrow> app_settings \<Rightarrow> zone list \<Rightarrow> zone list" where
  "apply_adapter_filter_and_sort lc s zones =
     order_zones lc (zone_order_ids s)
       (map (apply_custom_name s) (filter (\<lambda>z. adapter_enabled (zn_zone_id z) s) zones))"

definition apply_zone_list_policy ::
  "(string \<Rightarrow> string) \<Rightarrow> app_settings \<Rightarrow> zone list \<Rightarrow> zone list" where
  "apply_zone_list_policy lc s zones =
     filter (\<lambda>z. zn_zone_id z \<notin> set (hidden_zone_ids s)) (apply_adapter_filter_and_sort lc s zones)"

section \<open>Reordering\<close>

text \<open>\<open>position\<close> and \<open>rposition\<close>: the first and the last index at which the predicate holds.\<close>

fun position :: "('a \<Rightarrow> bool) \<Rightarrow> 'a list \<Rightarrow> nat option" where
  "position P [] = None"
| "position P (x # xs) = (if P x then Some 0 else map_option Suc (position P xs))"

fun rposition :: "('a \<Rightarrow> bool) \<Rightarrow> 'a list \<Rightarrow> nat option" where
  "rposition P [] = None"
| "rposition P (x # xs) =
     (case rposition P xs of Some i \<Rightarrow> Some (Suc i) | None \<Rightarrow> if P x then Some 0 else None)"

text \<open>\<open>let moved = ids.remove(from); ids.insert(to, moved)\<close>\<close>

definition move_item :: "nat \<Rightarrow> nat \<Rightarrow> 'a list \<Rightarrow> 'a list" where
  "move_item from to ids =
     (let moved = ids ! from; rest = take from ids @ drop (Suc from) ids
      in take to rest @ moved # drop to rest)"

datatype move_direction = Up | Down

definition reorder :: "zone list \<Rightarrow> string \<Rightarrow> move_direction \<Rightarrow> string list \<Rightarrow> string list option" where
  "reorder effective z direction hidden =
     Option.bind (position (\<lambda>x. zn_zone_id x = z) effective) (\<lambda>index.
       let candidate = (\<lambda>x. z \<in> set hidden \<or> zn_zone_id x \<notin> set hidden);
           swap_with = (case direction of
               Up \<Rightarrow> rposition candidate (take index effective)
             | Down \<Rightarrow> map_option (\<lambda>offset. index + 1 + offset) (position candidate (drop (index + 1) effective)))
       in map_option (\<lambda>to. move_item index to (map zn_zone_id effective)) swap_with)"

definition reorder_to :: "zone list \<Rightarrow> string \<Rightarrow> string \<Rightarrow> string list option" where
  "reorder_to effective z target =
     (if z = target then None
      else Option.bind (position (\<lambda>x. zn_zone_id x = z) effective) (\<lambda>from.
        map_option (\<lambda>to. move_item from to (map zn_zone_id effective))
          (position (\<lambda>x. zn_zone_id x = target) effective)))"

section \<open>The order endpoint\<close>

text \<open>
  \<open>zone_order_post\<close> in its two steps: the order is computed from the zones and the settings as they
  are read, without the write lock, and saved under the lock afterwards.
\<close>

record zone_order_request =
  zor_zone_id :: string
  zor_direction :: "move_direction option"
  zor_target_zone_id :: "string option"

definition order_step :: "zone_order_request \<Rightarrow> zone list \<Rightarrow> app_settings \<Rightarrow> string list option" where
  "order_step rq effective s =
     (case (zor_target_zone_id rq, zor_direction rq) of
        (Some target, _) \<Rightarrow> reorder_to effective (zor_zone_id rq) target
      | (None, Some d) \<Rightarrow> reorder effective (zor_zone_id rq) d (hidden_zone_ids s)
      | (None, None) \<Rightarrow> None)"

definition zone_order_read ::
  "(string \<Rightarrow> string) \<Rightarrow> bool \<Rightarrow> zone_order_request \<Rightarrow> zone list \<Rightarrow> app_settings option \<Rightarrow> string list option"
where
  "zone_order_read lc lms_plugin rq zones file =
     (let s = load_app_settings lms_plugin file
      in order_step rq (apply_adapter_filter_and_sort lc s zones) s)"

definition zone_order_write ::
  "bool \<Rightarrow> bool \<Rightarrow> string list option \<Rightarrow> app_settings option \<Rightarrow> bool \<times> app_settings option" where
  "zone_order_write lms_plugin writable moved file =
     (case moved of
        None \<Rightarrow> (True, file)
      | Some ids \<Rightarrow> mutate_app_settings lms_plugin writable (\<lambda>s. s\<lparr>aps_zone_order := Some ids\<rparr>) file)"

section \<open>The order is a function of the set of zones\<close>

text \<open>The key of a zone: its explicit position, or after all of them its name and identifier.\<close>

definition zone_key :: "(string \<Rightarrow> string) \<Rightarrow> (string \<times> nat) list \<Rightarrow> zone \<Rightarrow> nat \<times> nat \<times> string \<times> string" where
  "zone_key lc rank z =
     (case map_of rank (zn_zone_id z) of
        Some r \<Rightarrow> (0, r, [], [])
      | None \<Rightarrow> (1, 0, lc (zn_zone_name z), zn_zone_id z))"

lemma compare_zones_keyed: "keyed (zone_key lc rank) (compare_zones lc rank)"
  by (auto simp: keyed_def compare_zones_def zone_key_def compare_by_name_def then_with_def cmp_of_def
      less_prod_def split: option.splits)

lemma order_zones_key: "order_zones lc order zones = sort_key (zone_key lc (zone_ranks order)) zones"
  by (simp add: order_zones_def sort_by_key [OF compare_zones_keyed])

lemma zone_ranks_snoc: "zone_ranks (xs @ [x]) = hm_insert x (length xs) (zone_ranks xs)"
  by (simp add: zone_ranks_def enumerate_append_eq)

lemma zone_ranks_Some:
  "map_of (zone_ranks order) z = Some i \<Longrightarrow> i < length order \<and> order ! i = z"
proof (induction order rule: rev_induct)
  case Nil
  then show ?case by (simp add: zone_ranks_def)
next
  case (snoc x xs)
  then show ?case by (auto simp: zone_ranks_snoc nth_append split: if_splits)
qed

lemma zone_ranks_None: "map_of (zone_ranks order) z = None \<longleftrightarrow> z \<notin> set order"
  by (induction order rule: rev_induct) (auto simp: zone_ranks_snoc, simp add: zone_ranks_def)

lemma zone_key_inj:
  assumes "zone_key lc (zone_ranks order) a = zone_key lc (zone_ranks order) b"
  shows "zn_zone_id a = zn_zone_id b"
  using assms zone_ranks_Some [of order "zn_zone_id a"] zone_ranks_Some [of order "zn_zone_id b"]
  by (auto simp: zone_key_def split: option.splits)

text \<open>Two lists with the same elements, no key twice, sort to one list.\<close>

lemma sort_key_unique:
  assumes "mset xs = mset ys" "inj_on f (set xs)"
  shows "sort_key f xs = sort_key f ys"
  using assms by (intro sort_key_inj_key_eq) simp_all

lemma apply_custom_name_id [simp]: "zn_zone_id (apply_custom_name s z) = zn_zone_id z"
  by (simp add: apply_custom_name_def split: option.split)

text \<open>Every enabled zone is listed once, under its effective name, and the hidden ones only in the
  management view.\<close>

lemma policy_members:
  "z \<in> set (apply_zone_list_policy lc s zones) \<longleftrightarrow>
     (\<exists>y \<in> set zones. adapter_enabled (zn_zone_id y) s \<and> zn_zone_id y \<notin> set (hidden_zone_ids s) \<and>
        z = apply_custom_name s y)"
  by (auto simp: apply_zone_list_policy_def apply_adapter_filter_and_sort_def order_zones_key)

lemma mset_managed:
  "mset (apply_adapter_filter_and_sort lc s zones) =
     image_mset (apply_custom_name s) (filter_mset (\<lambda>z. adapter_enabled (zn_zone_id z) s) (mset zones))"
  by (simp add: apply_adapter_filter_and_sort_def order_zones_key)

lemma key_inj_on: "inj_on zn_zone_id A \<Longrightarrow> inj_on (zone_key lc (zone_ranks order)) A"
  by (meson inj_on_def zone_key_inj)

lemma managed_of_mset:
  assumes "mset zones = mset zones'" "distinct (map zn_zone_id zones)"
  shows "apply_adapter_filter_and_sort lc s zones = apply_adapter_filter_and_sort lc s zones'"
proof -
  have "inj_on zn_zone_id (set zones)" using assms(2) by (simp add: distinct_map)
  then have "inj_on zn_zone_id (apply_custom_name s ` {z \<in> set zones. adapter_enabled (zn_zone_id z) s})"
    by (auto simp: inj_on_def)
  then show ?thesis
    unfolding apply_adapter_filter_and_sort_def order_zones_key
    using assms(1) by (intro sort_key_unique key_inj_on) simp_all
qed

lemma policy_of_mset:
  assumes "mset zones = mset zones'" "distinct (map zn_zone_id zones)"
  shows "apply_zone_list_policy lc s zones = apply_zone_list_policy lc s zones'"
  unfolding apply_zone_list_policy_def managed_of_mset [OF assms] ..

section \<open>An explicit order takes effect\<close>

lemma zone_ranks_nth:
  assumes "distinct order" "i < length order"
  shows "map_of (zone_ranks order) (order ! i) = Some i"
proof -
  obtain j where j: "map_of (zone_ranks order) (order ! i) = Some j"
    using zone_ranks_None [of order "order ! i"] assms(2) by (cases "map_of (zone_ranks order) (order ! i)") auto
  from zone_ranks_Some [OF this] assms have "j = i" using nth_eq_iff_index_eq [OF assms(1)] by blast
  with j show ?thesis by simp
qed

text \<open>If the explicit order names exactly the zones, the sorted list follows it.\<close>

lemma order_zones_explicit:
  assumes "mset (map zn_zone_id zones) = mset order" "distinct order"
  shows "map zn_zone_id (order_zones lc order zones) = order"
proof -
  let ?r = "zone_ranks order" and ?s = "order_zones lc order zones"
  have ids: "mset (map zn_zone_id ?s) = mset order" using assms(1) by (simp add: order_zones_key)
  then have mem: "zn_zone_id z \<in> set order" if "z \<in> set ?s" for z
    using that by (metis image_eqI list.set_map mset_eq_setD)
  have "sorted (map (zone_key lc ?r) ?s)" by (simp add: order_zones_key)
  moreover have "zone_key lc ?r z = (0, the (map_of ?r (zn_zone_id z)), [], [])" if "z \<in> set ?s" for z
    using mem [OF that] zone_ranks_None [of order "zn_zone_id z"] by (auto simp: zone_key_def split: option.split)
  ultimately have "sorted (map (\<lambda>z. (0 :: nat, the (map_of ?r (zn_zone_id z)), [] :: string, [] :: string)) ?s)"
    by (metis (no_types, lifting) map_eq_conv)
  then have "sorted (map (\<lambda>i. the (map_of ?r i)) (map zn_zone_id ?s))"
    unfolding sorted_wrt_map by (rule sorted_wrt_mono_rel [rotated]) (auto simp: less_eq_prod_def)
  moreover have "inj_on (\<lambda>i. the (map_of ?r i)) (set order)"
    using assms(2) by (intro inj_onI) (auto simp: in_set_conv_nth zone_ranks_nth)
  moreover have "sorted (map (\<lambda>i. the (map_of ?r i)) order)"
    using assms(2) by (simp add: sorted_iff_nth_mono zone_ranks_nth)
  ultimately show ?thesis
    using ids sort_key_inj_key_eq [of order "map zn_zone_id ?s" "\<lambda>i. the (map_of ?r i)"]
      sort_key_inj_key_eq [of order order "\<lambda>i. the (map_of ?r i)"]
    by simp
qed

section \<open>A move is a permutation with a visible effect\<close>

lemma position_Some:
  "position P xs = Some i \<Longrightarrow> \<exists>ys x zs. xs = ys @ x # zs \<and> length ys = i \<and> P x \<and> (\<forall>y \<in> set ys. \<not> P y)"
proof (induction xs arbitrary: i)
  case (Cons a xs)
  show ?case
  proof (cases "P a")
    case True
    with Cons.prems show ?thesis by (intro exI [of _ "[]"]) auto
  next
    case False
    with Cons.prems obtain j where j: "position P xs = Some j" "i = Suc j" by auto
    from Cons.IH [OF j(1)] obtain ys x zs where
      "xs = ys @ x # zs" "length ys = j" "P x" "\<forall>y \<in> set ys. \<not> P y" by blast
    with False j(2) show ?thesis by (intro exI [of _ "a # ys"]) auto
  qed
qed simp

lemma position_None: "position P xs = None \<longleftrightarrow> (\<forall>x \<in> set xs. \<not> P x)"
  by (induction xs) auto

lemma rposition_Some:
  "rposition P xs = Some i \<Longrightarrow> \<exists>ys x zs. xs = ys @ x # zs \<and> length ys = i \<and> P x \<and> (\<forall>z \<in> set zs. \<not> P z)"
proof (induction xs arbitrary: i)
  case (Cons a xs)
  show ?case
  proof (cases "rposition P xs")
    case None
    then have "\<forall>x \<in> set xs. \<not> P x" by (induction xs) (auto split: option.splits if_splits)
    with Cons.prems None show ?thesis by (intro exI [of _ "[]"]) (auto split: if_splits)
  next
    case (Some j)
    from Cons.IH [OF this] obtain ys x zs where
      "xs = ys @ x # zs" "length ys = j" "P x" "\<forall>z \<in> set zs. \<not> P z" by blast
    with Cons.prems Some show ?thesis by (intro exI [of _ "a # ys"]) auto
  qed
qed simp

lemma rposition_None: "rposition P xs = None \<longleftrightarrow> (\<forall>x \<in> set xs. \<not> P x)"
  by (induction xs) (auto split: option.splits)

lemma move_up: "move_item (length ps + 1 + length qs) (length ps) (ps @ [y] @ qs @ [x] @ ss) = ps @ [x, y] @ qs @ ss"
  by (simp add: move_item_def nth_append)

lemma move_down: "move_item (length ps) (length ps + 1 + length qs) (ps @ [x] @ qs @ [y] @ ss) = ps @ qs @ [y, x] @ ss"
  by (simp add: move_item_def nth_append)

text \<open>Where the moved zone and the zone it trades places with stand.\<close>

lemma reorder_cases:
  assumes "reorder effective z d hidden = Some ids"
  obtains (up) ps y qs x ss where "d = Up" "effective = ps @ [y] @ qs @ [x] @ ss" "zn_zone_id x = z"
      "z \<in> set hidden \<or> zn_zone_id y \<notin> set hidden"
      "\<forall>q \<in> set qs. z \<notin> set hidden \<and> zn_zone_id q \<in> set hidden"
      "ids = map zn_zone_id (ps @ [x, y] @ qs @ ss)"
  | (down) ps y qs x ss where "d = Down" "effective = ps @ [x] @ qs @ [y] @ ss" "zn_zone_id x = z"
      "z \<in> set hidden \<or> zn_zone_id y \<notin> set hidden"
      "\<forall>q \<in> set qs. z \<notin> set hidden \<and> zn_zone_id q \<in> set hidden"
      "ids = map zn_zone_id (ps @ qs @ [y, x] @ ss)"
proof -
  obtain index where i: "position (\<lambda>x. zn_zone_id x = z) effective = Some index"
    using assms by (auto simp: reorder_def bind_eq_Some_conv)
  from position_Some [OF this] obtain ps x ss where
    e: "effective = ps @ x # ss" "length ps = index" "zn_zone_id x = z" by blast
  show thesis
  proof (cases d)
    case Up
    then obtain to where t: "rposition (\<lambda>x. z \<in> set hidden \<or> zn_zone_id x \<notin> set hidden) ps = Some to"
        "ids = move_item index to (map zn_zone_id effective)"
      using assms i e by (auto simp: reorder_def Let_def)
    from rposition_Some [OF t(1)] obtain as y qs where
      q: "ps = as @ y # qs" "length as = to" "z \<in> set hidden \<or> zn_zone_id y \<notin> set hidden"
        "\<forall>q \<in> set qs. \<not> (z \<in> set hidden \<or> zn_zone_id q \<notin> set hidden)" by blast
    show thesis
    proof (rule up [of as y qs x ss])
      show "ids = map zn_zone_id (as @ [x, y] @ qs @ ss)"
        using t(2) e q move_up [of "map zn_zone_id as" "map zn_zone_id qs"] by simp
    qed (use Up e q in auto)
  next
    case Down
    then obtain off where t: "position (\<lambda>x. z \<in> set hidden \<or> zn_zone_id x \<notin> set hidden) ss = Some off"
        "ids = move_item index (index + 1 + off) (map zn_zone_id effective)"
      using assms i e by (auto simp: reorder_def Let_def)
    from position_Some [OF t(1)] obtain qs y bs where
      q: "ss = qs @ y # bs" "length qs = off" "z \<in> set hidden \<or> zn_zone_id y \<notin> set hidden"
        "\<forall>q \<in> set qs. \<not> (z \<in> set hidden \<or> zn_zone_id q \<notin> set hidden)" by blast
    show thesis
    proof (rule down [of ps x qs y bs])
      show "ids = map zn_zone_id (ps @ qs @ [y, x] @ bs)"
        using t(2) e q move_down [of "map zn_zone_id ps" "map zn_zone_id qs"] by simp
    qed (use Down e q in auto)
  qed
qed

lemma reorder_mset:
  "reorder effective z d hidden = Some ids \<Longrightarrow> mset ids = mset (map zn_zone_id effective)"
  by (erule reorder_cases) auto

lemma mset_move_item:
  assumes "from < length xs" "to < length xs"
  shows "mset (move_item from to xs) = mset xs"
proof -
  define ys where "ys = take from xs @ drop (Suc from) xs"
  have "mset (take to ys) + mset (drop to ys) = mset ys"
    by (metis append_take_drop_id mset_append)
  moreover have "move_item from to xs = take to ys @ xs ! from # drop to ys"
    by (simp only: move_item_def Let_def ys_def)
  moreover have "add_mset (xs ! from) (mset ys) = mset xs"
    using id_take_nth_drop [OF assms(1)] unfolding ys_def
    by (metis mset_append mset.simps(2) union_mset_add_mset_right)
  ultimately show ?thesis by simp
qed

lemma reorder_to_mset:
  assumes "reorder_to effective z target = Some ids"
  shows "mset ids = mset (map zn_zone_id effective)"
proof -
  have "i < length xs" if "position P xs = Some i" for P i and xs :: "zone list"
    using position_Some [OF that] by auto
  with assms show ?thesis
    by (auto simp: reorder_to_def bind_eq_Some_conv mset_move_item split: if_splits)
qed

definition visible_ids :: "string list \<Rightarrow> string list \<Rightarrow> string list" where
  "visible_ids hidden ids = filter (\<lambda>i. i \<notin> set hidden) ids"

text \<open>A step of a visible zone trades places with its visible neighbour.\<close>

lemma reorder_visible:
  assumes "reorder effective z d hidden = Some ids" "z \<notin> set hidden"
  obtains as y bs where
    "visible_ids hidden (map zn_zone_id effective) = (case d of Up \<Rightarrow> as @ [y, z] @ bs | Down \<Rightarrow> as @ [z, y] @ bs)"
    "visible_ids hidden ids = (case d of Up \<Rightarrow> as @ [z, y] @ bs | Down \<Rightarrow> as @ [y, z] @ bs)"
  using assms(1)
proof (cases rule: reorder_cases)
  case (up ps y qs x ss)
  then show thesis
    using assms(2) that [of "visible_ids hidden (map zn_zone_id ps)" "zn_zone_id y" "visible_ids hidden (map zn_zone_id ss)"]
    by (simp add: visible_ids_def filter_empty_conv)
next
  case (down ps y qs x ss)
  then show thesis
    using assms(2) that [of "visible_ids hidden (map zn_zone_id ps)" "zn_zone_id y" "visible_ids hidden (map zn_zone_id ss)"]
    by (simp add: visible_ids_def filter_empty_conv)
qed

text \<open>No step is possible only for an unknown zone and at the end of the visible list.\<close>

lemma reorder_None:
  assumes "reorder effective z d hidden = None" "z \<notin> set hidden" "z \<in> set (map zn_zone_id effective)"
  obtains bs where "visible_ids hidden (map zn_zone_id effective) =
      (case d of Up \<Rightarrow> z # bs | Down \<Rightarrow> bs @ [z])"
proof -
  obtain index where i: "position (\<lambda>x. zn_zone_id x = z) effective = Some index"
    using assms(3) position_None [of "\<lambda>x. zn_zone_id x = z" effective] by fastforce
  from position_Some [OF this] obtain ps x ss where
    e: "effective = ps @ x # ss" "length ps = index" "zn_zone_id x = z" by blast
  show thesis
  proof (cases d)
    case Up
    then have "\<forall>p \<in> set ps. zn_zone_id p \<in> set hidden"
      using assms(1,2) i e by (simp add: reorder_def Let_def rposition_None)
    with Up e assms(2) that [of "visible_ids hidden (map zn_zone_id ss)"] show thesis
      by (simp add: visible_ids_def filter_empty_conv)
  next
    case Down
    then have "\<forall>p \<in> set ss. zn_zone_id p \<in> set hidden"
      using assms(1,2) i e by (simp add: reorder_def Let_def position_None)
    with Down e assms(2) that [of "visible_ids hidden (map zn_zone_id ps)"] show thesis
      by (simp add: visible_ids_def filter_empty_conv)
  qed
qed

end
