(* ===== verification/Coordinator.thy ===== *)
theory Coordinator
  imports App_Settings Bus_Events
begin

text \<open>
  The adapter coordinator (\<open>src/src/coordinator.rs\<close>) and the handlers of \<open>src/src/api/mod.rs\<close> that
  change an adapter's toggle on disk and in the coordinator together.

  A \<open>Startable\<close> is known by its name. What the coordinator does to it, and the events it publishes,
  are recorded in the order in which they happen in \<open>co_log\<close>. The answers of \<open>can_start\<close> and
  \<open>start\<close> come from the environment, which sees the log so far and may answer differently each time.
  A cancellation token is a number; a child of the shutdown token is cancelled when it was cancelled
  itself or when the shutdown token was.
\<close>

section \<open>State\<close>

type_synonym startable = string

definition AVAILABLE_ADAPTERS :: "string list" where
  "AVAILABLE_ADAPTERS = [''roon'', ''hqplayer'', ''lms'', ''lms-cli'', ''openhome'', ''upnp'', ''spotify'',
     ''applemusic'', ''musicassistant'']"

record registered_adapter =
  ra_enabled :: bool
  ra_handle :: bool
  ra_direct_running :: bool
  ra_cancel :: nat

datatype co_effect =
    AskedCanStart startable
  | StartCalled startable "string option"
  | StopCalled startable
  | Published bus_event
  | Spawned string nat

record coordinator =
  co_adapters :: "(string \<times> registered_adapter) list"
  co_companions :: "(string \<times> startable list) list"
  co_next_token :: nat
  co_cancelled :: "nat list"
  co_shutdown :: bool
  co_log :: "co_effect list"

text \<open>The environment: whether a worker can start, and the error its start returns, if any.\<close>

record start_env =
  env_can_start :: "co_effect list \<Rightarrow> startable \<Rightarrow> bool"
  env_start :: "co_effect list \<Rightarrow> startable \<Rightarrow> string option"

definition coordinator_new :: coordinator where
  "coordinator_new = \<lparr>co_adapters = [], co_companions = [], co_next_token = 0, co_cancelled = [],
     co_shutdown = False, co_log = []\<rparr>"

definition emit :: "co_effect \<Rightarrow> coordinator \<Rightarrow> coordinator" where
  "emit e c = c\<lparr>co_log := co_log c @ [e]\<rparr>"

definition token_cancelled :: "coordinator \<Rightarrow> nat \<Rightarrow> bool" where
  "token_cancelled c t \<longleftrightarrow> co_shutdown c \<or> t \<in> set (co_cancelled c)"

section \<open>Registration and flags\<close>

definition co_register :: "string \<Rightarrow> bool \<Rightarrow> coordinator \<Rightarrow> coordinator" where
  "co_register prefix enabled c =
     c\<lparr>co_adapters := hm_insert prefix
         \<lparr>ra_enabled = enabled, ra_handle = False, ra_direct_running = False, ra_cancel = co_next_token c\<rparr>
         (co_adapters c),
       co_next_token := Suc (co_next_token c)\<rparr>"

definition settings_enabled :: "adapter_settings \<Rightarrow> string \<Rightarrow> bool" where
  "settings_enabled s name =
     (if name = ''roon'' then as_roon s
      else if name = ''hqplayer'' then as_hqplayer s
      else if name = ''lms'' then as_lms s
      else if name = ''lms-cli'' then as_lms s
      else if name = ''openhome'' then as_openhome s
      else if name = ''upnp'' then as_upnp s
      else if name = ''spotify'' then as_spotify s
      else if name = ''applemusic'' then as_applemusic s
      else if name = ''musicassistant'' then as_musicassistant s
      else False)"

definition register_from_settings :: "adapter_settings \<Rightarrow> coordinator \<Rightarrow> coordinator" where
  "register_from_settings s c =
     foldl (\<lambda>c name. co_register name (settings_enabled s name) c) c AVAILABLE_ADAPTERS"

definition set_enabled :: "string \<Rightarrow> bool \<Rightarrow> coordinator \<Rightarrow> coordinator" where
  "set_enabled prefix enabled c =
     c\<lparr>co_adapters := hm_modify prefix (\<lambda>a. a\<lparr>ra_enabled := enabled\<rparr>) (co_adapters c)\<rparr>"

definition set_running :: "string \<Rightarrow> bool \<Rightarrow> coordinator \<Rightarrow> coordinator" where
  "set_running prefix running c =
     c\<lparr>co_adapters := hm_modify prefix (\<lambda>a. a\<lparr>ra_direct_running := running\<rparr>) (co_adapters c)\<rparr>"

definition is_enabled :: "coordinator \<Rightarrow> string \<Rightarrow> bool" where
  "is_enabled c prefix =
     (case map_of (co_adapters c) prefix of None \<Rightarrow> False | Some a \<Rightarrow> ra_enabled a)"

definition is_running :: "coordinator \<Rightarrow> string \<Rightarrow> bool" where
  "is_running c prefix =
     (case map_of (co_adapters c) prefix of None \<Rightarrow> False | Some a \<Rightarrow> ra_handle a \<or> ra_direct_running a)"

definition register_companion :: "string \<Rightarrow> startable \<Rightarrow> coordinator \<Rightarrow> coordinator" where
  "register_companion provider w c =
     c\<lparr>co_companions := hm_insert provider
         ((case map_of (co_companions c) provider of None \<Rightarrow> [] | Some ws \<Rightarrow> ws) @ [w]) (co_companions c)\<rparr>"

definition companions_of :: "coordinator \<Rightarrow> string \<Rightarrow> startable list" where
  "companions_of c provider = (case map_of (co_companions c) provider of None \<Rightarrow> [] | Some ws \<Rightarrow> ws)"

definition companion_names :: "coordinator \<Rightarrow> string list" where
  "companion_names c = concat (map snd (co_companions c))"

definition enable_with_companions :: "string \<Rightarrow> coordinator \<Rightarrow> coordinator" where
  "enable_with_companions provider c =
     (let c1 = set_enabled provider True c
      in foldl (\<lambda>c w. set_enabled w True c) c1 (companions_of c1 provider))"

definition registered_adapters :: "coordinator \<Rightarrow> string list" where
  "registered_adapters c = map fst (co_adapters c)"

record adapter_status =
  ast_prefix :: string
  ast_enabled :: bool
  ast_running :: bool

definition adapter_status_map :: "coordinator \<Rightarrow> (string \<times> adapter_status) list" where
  "adapter_status_map c =
     map (\<lambda>(p, a). (p, \<lparr>ast_prefix = p, ast_enabled = ra_enabled a, ast_running = ra_handle a\<rparr>)) (co_adapters c)"

section \<open>Starting and stopping workers\<close>

definition can_start_asked :: "start_env \<Rightarrow> startable \<Rightarrow> coordinator \<Rightarrow> bool \<times> coordinator" where
  "can_start_asked env w c = (env_can_start env (co_log c) w, emit (AskedCanStart w) c)"

definition start_adapter_and_track ::
  "start_env \<Rightarrow> startable \<Rightarrow> coordinator \<Rightarrow> (string + unit) \<times> coordinator" where
  "start_adapter_and_track env w c =
     (let (ok, c1) = can_start_asked env w c in
      if \<not> ok then (Inl ''adapter cannot start'', c1)
      else let err = env_start env (co_log c1) w; c2 = emit (StartCalled w err) c1
           in (case err of Some e \<Rightarrow> (Inl e, c2) | None \<Rightarrow> (Inr (), set_running w True c2)))"

definition stop_adapter_and_flush :: "startable \<Rightarrow> string \<Rightarrow> coordinator \<Rightarrow> coordinator" where
  "stop_adapter_and_flush w reason c =
     set_running w False (emit (StopCalled w) (emit (Published (AdapterStopping w (Some reason))) c))"

definition stop_adapters_then_flush ::
  "startable list \<Rightarrow> string \<Rightarrow> string \<Rightarrow> coordinator \<Rightarrow> coordinator" where
  "stop_adapters_then_flush ws projection reason c =
     (let c1 = foldl (\<lambda>c w. emit (StopCalled w) c) c ws;
          c2 = emit (Published (AdapterStopping projection (Some reason))) c1
      in foldl (\<lambda>c w. set_running w False c) c2 ws)"

fun start_companions ::
  "start_env \<Rightarrow> startable \<Rightarrow> startable list \<Rightarrow> coordinator \<Rightarrow> (string + unit) \<times> coordinator" where
  "start_companions env w [] c = (Inr (), c)"
| "start_companions env w (x # xs) c =
     (case start_adapter_and_track env x c of
        (Inr _, c1) \<Rightarrow> start_companions env w xs c1
      | (Inl e, c1) \<Rightarrow> (Inl e, stop_adapters_then_flush [w] w ''companion start failure'' c1))"

definition start_adapter_and_companions ::
  "start_env \<Rightarrow> startable \<Rightarrow> coordinator \<Rightarrow> (string + unit) \<times> coordinator" where
  "start_adapter_and_companions env w c =
     (case start_adapter_and_track env w c of
        (Inl e, c1) \<Rightarrow> (Inl e, c1)
      | (Inr _, c1) \<Rightarrow> start_companions env w (companions_of c1 w) c1)"

definition stop_adapter_and_companions_then_flush ::
  "startable \<Rightarrow> string \<Rightarrow> string \<Rightarrow> coordinator \<Rightarrow> coordinator" where
  "stop_adapter_and_companions_then_flush w projection reason c =
     stop_adapters_then_flush (w # companions_of c projection) projection reason c"

text \<open>
  The bounded wait after the stop: \<open>received\<close> is what the subscription delivers until the timeout.
  A lagged subscription goes on, a closed one ends the wait.
\<close>

datatype bus_recv = RecvOk bus_event | RecvLagged u64 | RecvClosed

definition flushed_adapter :: "bus_event \<Rightarrow> string option" where
  "flushed_adapter e = (case e of ZonesFlushed a _ \<Rightarrow> Some a | _ \<Rightarrow> None)"

fun await_flush :: "string \<Rightarrow> bus_recv list \<Rightarrow> bool" where
  "await_flush projection [] = False"
| "await_flush projection (r # rs) =
     (case r of
        RecvOk e \<Rightarrow> if flushed_adapter e = Some projection then True else await_flush projection rs
      | RecvLagged _ \<Rightarrow> await_flush projection rs
      | RecvClosed \<Rightarrow> True)"

definition stop_then_await_flush ::
  "startable \<Rightarrow> string \<Rightarrow> string \<Rightarrow> bus_recv list \<Rightarrow> coordinator \<Rightarrow> bool \<times> coordinator" where
  "stop_then_await_flush w projection reason received c =
     (await_flush projection received, stop_adapter_and_companions_then_flush w projection reason c)"

definition start_enabled :: "start_env \<Rightarrow> startable \<Rightarrow> coordinator \<Rightarrow> (string + bool) \<times> coordinator" where
  "start_enabled env w c =
     (if \<not> is_enabled c w then (Inr False, c)
      else let (ok, c1) = can_start_asked env w c in
        if \<not> ok then (Inr False, c1)
        else (case start_adapter_and_companions env w c1 of
                (Inl e, c2) \<Rightarrow> (Inl e, c2) | (Inr _, c2) \<Rightarrow> (Inr True, c2)))"

text \<open>The body of the start-up loop, for one adapter.\<close>

definition start_listed :: "start_env \<Rightarrow> string list \<Rightarrow> coordinator \<Rightarrow> startable \<Rightarrow> coordinator" where
  "start_listed env names c w =
     (if w \<in> set names then c
      else if \<not> is_enabled c w then c
      else let (ok, c1) = can_start_asked env w c in
        if \<not> ok then c1 else snd (start_adapter_and_companions env w c1))"

definition start_all_enabled :: "start_env \<Rightarrow> startable list \<Rightarrow> coordinator \<Rightarrow> coordinator" where
  "start_all_enabled env ws c = foldl (start_listed env (companion_names c)) c ws"

definition stop_one :: "startable \<Rightarrow> coordinator \<Rightarrow> coordinator" where
  "stop_one w = stop_adapter_and_companions_then_flush w w ''settings disable''"

definition stop_all :: "startable list \<Rightarrow> coordinator \<Rightarrow> coordinator" where
  "stop_all ws c =
     (let names = companion_names c in
      foldl (\<lambda>c w. if w \<in> set names then c
        else stop_adapter_and_companions_then_flush w w ''coordinator shutdown'' c) c ws)"

definition co_adapter_enabled :: "adapter_settings \<Rightarrow> string \<Rightarrow> bool option" where
  "co_adapter_enabled s name =
     (if name = ''roon'' then Some (as_roon s)
      else if name = ''lms'' then Some (as_lms s)
      else if name = ''openhome'' then Some (as_openhome s)
      else if name = ''upnp'' then Some (as_upnp s)
      else if name = ''hqplayer'' then Some (as_hqplayer s)
      else if name = ''spotify'' then Some (as_spotify s)
      else if name = ''applemusic'' then Some (as_applemusic s)
      else if name = ''musicassistant'' then Some (as_musicassistant s)
      else None)"

definition rollback_one ::
  "start_env \<Rightarrow> startable list \<Rightarrow> adapter_settings \<Rightarrow> coordinator \<Rightarrow> string \<Rightarrow> coordinator" where
  "rollback_one env ws previous c name =
     (case co_adapter_enabled previous name of
        None \<Rightarrow> c
      | Some was_enabled \<Rightarrow>
          let c1 = set_enabled name was_enabled c in
          if name \<notin> set ws then c1
          else if was_enabled then snd (start_adapter_and_companions env name c1)
          else stop_adapter_and_companions_then_flush name name ''settings transaction rollback'' c1)"

definition rollback_adapter_transitions ::
  "start_env \<Rightarrow> startable list \<Rightarrow> adapter_settings \<Rightarrow> string list \<Rightarrow> coordinator \<Rightarrow> coordinator" where
  "rollback_adapter_transitions env ws previous transitions c =
     foldl (rollback_one env ws previous) c (List.rev transitions)"

section \<open>Task-owned adapters and shutdown\<close>

definition start_adapter :: "string \<Rightarrow> coordinator \<Rightarrow> (string + unit) \<times> coordinator" where
  "start_adapter prefix c =
     (case map_of (co_adapters c) prefix of
        None \<Rightarrow> (Inl (''Adapter '' @ prefix @ '' not registered''), c)
      | Some a \<Rightarrow>
          if \<not> ra_enabled a then (Inr (), c)
          else if ra_handle a then (Inr (), c)
          else (Inr (), emit (Spawned prefix (ra_cancel a))
                 (c\<lparr>co_adapters := hm_modify prefix (\<lambda>a. a\<lparr>ra_handle := True\<rparr>) (co_adapters c)\<rparr>)))"

definition stop_adapter :: "string \<Rightarrow> coordinator \<Rightarrow> (string + unit) \<times> coordinator" where
  "stop_adapter prefix c =
     (case map_of (co_adapters c) prefix of
        None \<Rightarrow> (Inl (''Adapter '' @ prefix @ '' not registered''), c)
      | Some a \<Rightarrow>
          if \<not> ra_handle a then (Inr (), c)
          else (Inr (), c\<lparr>co_cancelled := co_cancelled c @ [ra_cancel a],
                 co_adapters := hm_modify prefix
                   (\<lambda>a. a\<lparr>ra_cancel := co_next_token c, ra_handle := False\<rparr>) (co_adapters c),
                 co_next_token := Suc (co_next_token c)\<rparr>))"

text \<open>\<open>received\<close> is what the subscription, opened here, delivers until the deadline.\<close>

definition stopped_adapter :: "bus_event \<Rightarrow> string option" where
  "stopped_adapter e = (case e of AdapterStopped a \<Rightarrow> Some a | _ \<Rightarrow> None)"

fun wait_for_acks_loop :: "string list \<Rightarrow> bus_recv list \<Rightarrow> string list \<Rightarrow> string list" where
  "wait_for_acks_loop expected [] received = received"
| "wait_for_acks_loop expected (r # rs) received =
     (if \<not> length received < length expected then received
      else case r of
        RecvOk e \<Rightarrow>
          (case stopped_adapter e of
             Some a \<Rightarrow>
               wait_for_acks_loop expected rs
                 (if a \<in> set expected \<and> a \<notin> set received then received @ [a] else received)
           | None \<Rightarrow> wait_for_acks_loop expected rs received)
      | _ \<Rightarrow> received)"

definition wait_for_acks :: "string list \<Rightarrow> bus_recv list \<Rightarrow> nat" where
  "wait_for_acks expected rs = length (wait_for_acks_loop expected rs [])"

text \<open>The number of acknowledgements, and the coordinator with every handle taken.\<close>

definition co_shutdown_all :: "bus_recv list \<Rightarrow> coordinator \<Rightarrow> nat \<times> coordinator" where
  "co_shutdown_all rs c =
     (let running = map fst (filter (\<lambda>(p, a). ra_handle a) (co_adapters c)) in
      if running = [] then (0, c)
      else let c1 = emit (Published (ShuttingDown (Some ''Coordinator shutdown''))) c
           in (wait_for_acks running rs,
               c1\<lparr>co_shutdown := True, co_adapters := hm_modify_all (\<lambda>a. a\<lparr>ra_handle := False\<rparr>) (co_adapters c1)\<rparr>))"

section \<open>Toggles on disk and in the coordinator\<close>

definition set_adapter_enabled ::
  "bool \<Rightarrow> bool \<Rightarrow> string \<Rightarrow> bool \<Rightarrow> app_settings option \<times> coordinator \<Rightarrow>
     bool \<times> app_settings option \<times> coordinator" where
  "set_adapter_enabled lms_plugin writable provider enabled fc =
     (let (saved, file) = mutate_app_settings lms_plugin writable
            (\<lambda>s. case toggle_mut provider enabled (aps_adapters s) of
               None \<Rightarrow> s | Some a \<Rightarrow> s\<lparr>aps_adapters := a\<rparr>) (fst fc)
      in if \<not> saved then (False, file, snd fc)
         else (True, file, if enabled then enable_with_companions provider (snd fc)
                else set_enabled provider False (snd fc)))"

text \<open>
  The runtime part of \<open>POST /api/settings\<close>: the changed adapters in the handler's order, each switched
  in the coordinator and started or stopped; a failed start rolls everything back.
\<close>

definition adapter_changes :: "adapter_settings \<Rightarrow> adapter_settings \<Rightarrow> (string \<times> bool) list" where
  "adapter_changes old new =
     [(''roon'', as_roon old \<noteq> as_roon new), (''lms'', as_lms old \<noteq> as_lms new),
      (''openhome'', as_openhome old \<noteq> as_openhome new), (''upnp'', as_upnp old \<noteq> as_upnp new),
      (''hqplayer'', as_hqplayer old \<noteq> as_hqplayer new), (''spotify'', as_spotify old \<noteq> as_spotify new),
      (''applemusic'', as_applemusic old \<noteq> as_applemusic new),
      (''musicassistant'', as_musicassistant old \<noteq> as_musicassistant new),
      (''mqtt'', as_mqtt old \<noteq> as_mqtt new)]"

text \<open>The body of the handler's loop for one changed adapter: a start that fails is the left value.\<close>

definition switch_adapter ::
  "start_env \<Rightarrow> startable list \<Rightarrow> string \<Rightarrow> bool \<Rightarrow> coordinator \<Rightarrow> (string + unit) \<times> coordinator" where
  "switch_adapter env ws name now_enabled c =
     (let c1 = set_enabled name now_enabled c in
      if name \<notin> set ws then (Inr (), c1)
      else if now_enabled then
        (let (ok, c2) = can_start_asked env name c1
         in if \<not> ok then (Inr (), c2) else start_adapter_and_companions env name c2)
      else (Inr (), stop_adapter_and_companions_then_flush name name ''settings disable'' c1))"

fun apply_changes ::
  "start_env \<Rightarrow> startable list \<Rightarrow> adapter_settings \<Rightarrow> string list \<Rightarrow> (string \<times> bool) list \<Rightarrow> coordinator \<Rightarrow>
     (string \<times> string list + string list) \<times> coordinator" where
  "apply_changes env ws new applied [] c = (Inr applied, c)"
| "apply_changes env ws new applied ((name, changed) # rest) c =
     (if \<not> changed then apply_changes env ws new applied rest c
      else case co_adapter_enabled new name of
        None \<Rightarrow> apply_changes env ws new applied rest c
      | Some now_enabled \<Rightarrow>
          (case switch_adapter env ws name now_enabled c of
             (Inr _, c1) \<Rightarrow> apply_changes env ws new (applied @ [name]) rest c1
           | (Inl e, c1) \<Rightarrow> (Inl (name, applied @ [name]), c1)))"

datatype settings_answer = SettingsNotSaved | CouldNotEnable string | SettingsApplied "string list"

text \<open>
  The handler as a whole. \<open>between\<close> is what other requests do to the file after the handler's first
  save and before its second, which only the rollback makes; \<open>writable2\<close> is whether that one succeeds.
\<close>

definition api_settings_post ::
  "start_env \<Rightarrow> bool \<Rightarrow> bool \<Rightarrow> bool \<Rightarrow> (app_settings option \<Rightarrow> app_settings option) \<Rightarrow> startable list \<Rightarrow>
     app_settings \<Rightarrow> app_settings option \<times> coordinator \<Rightarrow> settings_answer \<times> app_settings option \<times> coordinator"
where
  "api_settings_post env lms_plugin writable writable2 between ws body fc =
     (let old = load_app_settings lms_plugin (fst fc);
          new = carry_forward old body;
          (saved, file) = save_app_settings_locked writable new (fst fc)
      in if \<not> saved then (SettingsNotSaved, file, snd fc)
         else case apply_changes env ws (aps_adapters new) [] (adapter_changes (aps_adapters old) (aps_adapters new))
                     (snd fc) of
           (Inl (name, applied), c) \<Rightarrow>
             (CouldNotEnable name,
              snd (mutate_app_settings lms_plugin writable2 (\<lambda>_. old) (between file)),
              rollback_adapter_transitions env ws (aps_adapters old) applied c)
         | (Inr applied, c) \<Rightarrow>
             (SettingsApplied
                (applied @ (if as_mqtt (aps_adapters old) \<noteq> as_mqtt (aps_adapters new) then [''mqtt''] else [])),
              between file, c))"

end
