(* ===== verification/Coordinator_Facts.thy ===== *)
theory Coordinator_Facts
  imports Coordinator
begin

text \<open>
  What the coordinator's operations do to the flags and to the log: starting and stopping never touch an
  enable flag, a group is stopped before its projection is flushed, only enabled adapters are started,
  and the settings transaction either reaches the new flags or returns to the old ones.
\<close>

section \<open>Frames\<close>

lemma is_enabled_emit [simp]: "is_enabled (emit e c) p = is_enabled c p"
  by (simp add: is_enabled_def emit_def)

lemma is_enabled_set_running [simp]: "is_enabled (set_running w b c) p = is_enabled c p"
  by (simp add: is_enabled_def set_running_def split: option.split)

definition is_registered :: "coordinator \<Rightarrow> string \<Rightarrow> bool" where
  "is_registered c p \<longleftrightarrow> map_of (co_adapters c) p \<noteq> None"

lemma is_enabled_set_enabled:
  "is_enabled (set_enabled w b c) p = (if p = w \<and> is_registered c w then b else is_enabled c p)"
  by (auto simp: is_enabled_def set_enabled_def is_registered_def split: option.split)

lemma companions_frame [simp]:
  "companions_of (emit e c) p = companions_of c p"
  "companions_of (set_running w b c) p = companions_of c p"
  "companions_of (set_enabled w b c) p = companions_of c p"
  "companion_names (emit e c) = companion_names c"
  "companion_names (set_running w b c) = companion_names c"
  by (simp_all add: companions_of_def companion_names_def emit_def set_running_def set_enabled_def)

lemma registered_frame [simp]:
  "is_registered (emit e c) p = is_registered c p"
  "is_registered (set_running w b c) p = is_registered c p"
  "is_registered (set_enabled w b c) p = is_registered c p"
  by (simp_all add: is_registered_def emit_def set_running_def set_enabled_def)

lemma log_frame [simp]:
  "co_log (emit e c) = co_log c @ [e]"
  "co_log (set_running w b c) = co_log c"
  "co_log (set_enabled w b c) = co_log c"
  by (simp_all add: emit_def set_running_def set_enabled_def)

lemma running_frame:
  "is_running (emit e c) p = is_running c p"
  "is_running (set_enabled w b c) p = is_running c p"
  "is_running (set_running w b c) p =
     (if p = w then (\<exists>a. map_of (co_adapters c) p = Some a \<and> (ra_handle a \<or> b)) else is_running c p)"
  by (auto simp: is_running_def emit_def set_enabled_def set_running_def split: option.split)

text \<open>An operation that keeps the flags, the companions and the registration, and only adds to the log.\<close>

definition co_frame :: "coordinator \<Rightarrow> coordinator \<Rightarrow> bool" where
  "co_frame c c' \<longleftrightarrow>
     (\<forall>p. is_enabled c' p = is_enabled c p) \<and> (\<forall>p. companions_of c' p = companions_of c p) \<and>
     companion_names c' = companion_names c \<and> (\<forall>p. is_registered c' p = is_registered c p) \<and>
     (\<exists>es. co_log c' = co_log c @ es)"

lemma co_frame_refl [simp]: "co_frame c c"
  by (simp add: co_frame_def)

lemma co_frame_trans: "co_frame a b \<Longrightarrow> co_frame b c \<Longrightarrow> co_frame a c"
  by (fastforce simp: co_frame_def)

lemma co_frame_emit [intro]: "co_frame c c' \<Longrightarrow> co_frame c (emit e c')"
  by (auto simp: co_frame_def)

lemma co_frame_set_running [intro]: "co_frame c c' \<Longrightarrow> co_frame c (set_running w b c')"
  by (simp add: co_frame_def)

lemma co_frame_foldl:
  "(\<And>c' w. co_frame c c' \<Longrightarrow> co_frame c (f c' w)) \<Longrightarrow> co_frame c c' \<Longrightarrow> co_frame c (foldl f c' ws)"
  by (induction ws arbitrary: c') simp_all

lemma co_frame_stop:
  "co_frame c (stop_adapters_then_flush ws p r c)"
  "co_frame c (stop_adapter_and_companions_then_flush w p r c)"
  unfolding stop_adapter_and_companions_then_flush_def stop_adapters_then_flush_def Let_def
  by (intro co_frame_foldl co_frame_emit co_frame_set_running co_frame_refl; assumption)+

lemma co_frame_start_track: "co_frame c (snd (start_adapter_and_track env w c))"
  unfolding start_adapter_and_track_def can_start_asked_def Let_def
  by (simp split: option.split) (intro conjI impI allI co_frame_emit co_frame_set_running co_frame_refl)

lemma co_frame_companions: "co_frame c (snd (start_companions env w xs c))"
proof (induction xs arbitrary: c)
  case (Cons x xs)
  obtain r c1 where s: "start_adapter_and_track env x c = (r, c1)" by fastforce
  then have "co_frame c c1" using co_frame_start_track [of c env x] by simp
  then have "co_frame c (snd (start_companions env w xs c1))"
    "co_frame c (stop_adapters_then_flush [w] w ''companion start failure'' c1)"
    using co_frame_trans Cons.IH co_frame_stop(1) by blast+
  with s show ?case by (cases r) simp_all
qed simp

lemma co_frame_start: "co_frame c (snd (start_adapter_and_companions env w c))"
proof -
  obtain r c1 where s: "start_adapter_and_track env w c = (r, c1)" by fastforce
  then have "co_frame c c1" using co_frame_start_track [of c env w] by simp
  then have "co_frame c (snd (start_companions env w (companions_of c1 w) c1))"
    using co_frame_trans co_frame_companions by blast
  with s \<open>co_frame c c1\<close> show ?thesis by (cases r) (simp_all add: start_adapter_and_companions_def)
qed

lemmas frame_enabled = co_frame_def [THEN iffD1, THEN conjunct1, THEN spec]

lemma enabled_start [simp]: "is_enabled (snd (start_adapter_and_companions env w c)) p = is_enabled c p"
  using co_frame_start by (rule frame_enabled)

lemma enabled_stop [simp]:
  "is_enabled (stop_adapter_and_companions_then_flush w q r c) p = is_enabled c p"
  using co_frame_stop(2) by (rule frame_enabled)

lemma registered_start [simp]:
  "is_registered (snd (start_adapter_and_companions env w c)) p = is_registered c p"
  using co_frame_start [of c env w] by (simp add: co_frame_def)

lemma registered_stop [simp]:
  "is_registered (stop_adapter_and_companions_then_flush w q r c) p = is_registered c p"
  using co_frame_stop(2) [of c w q r] by (simp add: co_frame_def)

section \<open>The order of a stop\<close>

lemma stop_log:
  "co_log (stop_adapters_then_flush ws p r c) =
     co_log c @ map StopCalled ws @ [Published (AdapterStopping p (Some r))]"
proof -
  have "co_log (foldl (\<lambda>c w. emit (StopCalled w) c) c xs) = co_log c @ map StopCalled xs" for xs c
    by (induction xs arbitrary: c) simp_all
  moreover have "co_log (foldl (\<lambda>c w. set_running w False c) c xs) = co_log c" for xs c
    by (induction xs arbitrary: c) simp_all
  ultimately show ?thesis by (simp add: stop_adapters_then_flush_def Let_def)
qed

lemma stop_not_running:
  assumes "w \<in> set ws" "\<And>a. map_of (co_adapters c) w = Some a \<Longrightarrow> \<not> ra_handle a"
  shows "\<not> is_running (stop_adapters_then_flush ws p r c) w"
proof -
  have "map_of (co_adapters (foldl (\<lambda>c w. set_running w False c) c xs)) w =
      map_option (\<lambda>a. if w \<in> set xs then a\<lparr>ra_direct_running := False\<rparr> else a) (map_of (co_adapters c) w)" for xs c
  proof (induction xs arbitrary: c)
    case (Cons x xs)
    then show ?case by (cases "map_of (co_adapters c) w") (auto simp: set_running_def)
  qed (simp add: option.map_ident)
  moreover have "co_adapters (foldl (\<lambda>c w. emit (StopCalled w) c) c xs) = co_adapters c" for xs c
    by (induction xs arbitrary: c) (simp_all add: emit_def)
  ultimately show ?thesis
    using assms by (auto simp: is_running_def stop_adapters_then_flush_def Let_def emit_def split: option.split)
qed

section \<open>Only enabled adapters are started\<close>

text \<open>The workers an operation called \<open>start\<close> on: those in the part of the log it added.\<close>

fun started :: "co_effect list \<Rightarrow> startable list" where
  "started [] = []"
| "started (StartCalled w e # es) = w # started es"
| "started (e # es) = started es"

lemma started_append [simp]: "started (xs @ ys) = started xs @ started ys"
  by (induction xs rule: started.induct) simp_all

lemma started_stops [simp]: "started (map StopCalled ws) = []"
  by (induction ws) simp_all

lemma started_track: "set (started (co_log (snd (start_adapter_and_track env w c)))) \<subseteq> insert w (set (started (co_log c)))"
  by (auto simp: start_adapter_and_track_def can_start_asked_def Let_def split: option.split)

lemma started_companions:
  "set (started (co_log (snd (start_companions env w xs c)))) \<subseteq> set xs \<union> set (started (co_log c))"
proof (induction xs arbitrary: c)
  case (Cons x xs)
  obtain r c1 where s: "start_adapter_and_track env x c = (r, c1)" by fastforce
  have "set (started (co_log c1)) \<subseteq> insert x (set (started (co_log c)))"
    using started_track [of env x c] s by simp
  with s Cons.IH [of c1] show ?case by (cases r) (auto simp: stop_log)
qed simp

lemma started_group:
  "set (started (co_log (snd (start_adapter_and_companions env w c)))) \<subseteq>
     insert w (set (companions_of c w)) \<union> set (started (co_log c))"
proof -
  obtain r c1 where s: "start_adapter_and_track env w c = (r, c1)" by fastforce
  have "co_frame c c1" using co_frame_start_track [of c env w] s by simp
  then have "companions_of c1 w = companions_of c w" by (simp add: co_frame_def)
  moreover have "set (started (co_log c1)) \<subseteq> insert w (set (started (co_log c)))"
    using started_track [of env w c] s by simp
  ultimately show ?thesis
    using s started_companions [of env w "companions_of c1 w" c1]
    by (cases r) (auto simp: start_adapter_and_companions_def)
qed

definition may_start :: "coordinator \<Rightarrow> string list \<Rightarrow> startable list \<Rightarrow> startable set" where
  "may_start c names ws =
     {v. \<exists>w \<in> set ws. is_enabled c w \<and> w \<notin> set names \<and> (v = w \<or> v \<in> set (companions_of c w))}"

lemma start_listed_frame: "co_frame c (start_listed env names c w)"
  using co_frame_trans [OF co_frame_emit [OF co_frame_refl] co_frame_start]
  by (simp add: start_listed_def can_start_asked_def co_frame_emit)

lemma start_listed_started:
  "set (started (co_log (start_listed env names c w))) \<subseteq> set (started (co_log c)) \<union> may_start c names [w]"
  using started_group [of env w "emit (AskedCanStart w) c"]
  by (auto simp: start_listed_def can_start_asked_def may_start_def)

lemma start_all_step:
  "set (started (co_log (foldl (start_listed env names) c ws))) \<subseteq>
     set (started (co_log c)) \<union> may_start c names ws"
proof (induction ws arbitrary: c)
  case (Cons w ws)
  have "may_start (start_listed env names c w) names ws = may_start c names ws"
    using start_listed_frame [of c env names w] by (simp add: may_start_def co_frame_def)
  moreover have "may_start c names (w # ws) = may_start c names [w] \<union> may_start c names ws"
    by (auto simp: may_start_def)
  ultimately show ?case
    using Cons.IH [of "start_listed env names c w"] start_listed_started [of env names c w] by auto
qed simp

lemma start_all_started:
  "set (started (co_log (start_all_enabled env ws c))) \<subseteq>
     set (started (co_log c)) \<union> may_start c (companion_names c) ws"
  using start_all_step by (simp add: start_all_enabled_def)

section \<open>A companion that fails\<close>

text \<open>
  When a companion fails to start, the adapter itself is stopped and its projection flushed. The
  companions started before it are neither stopped nor marked as stopped.
\<close>

lemma start_track_ok:
  assumes "start_adapter_and_track env x c = (Inr u, c1)"
  shows "is_registered c x \<Longrightarrow> is_running c1 x"
    "\<And>p. is_running c p \<Longrightarrow> is_running c1 p"
    "\<exists>es. co_log c1 = co_log c @ es \<and> (\<forall>w. StopCalled w \<notin> set es)"
proof -
  have c1: "c1 = set_running x True (emit (StartCalled x None) (emit (AskedCanStart x) c))"
    using assms by (auto simp: start_adapter_and_track_def can_start_asked_def Let_def
        split: if_splits option.splits)
  show "is_running c1 x" if "is_registered c x"
    using that unfolding c1 running_frame by (auto simp: is_registered_def emit_def)
  show "is_running c1 p" if "is_running c p" for p
    using that unfolding c1 running_frame by (auto simp: is_running_def emit_def split: option.splits)
  show "\<exists>es. co_log c1 = co_log c @ es \<and> (\<forall>w. StopCalled w \<notin> set es)"
    unfolding c1 by simp
qed

lemma start_track_failed:
  assumes "start_adapter_and_track env x c = (Inl e, c1)"
  shows "is_running c1 p = is_running c p"
    "\<exists>es. co_log c1 = co_log c @ es \<and> (\<forall>w. StopCalled w \<notin> set es)"
  using assms
  by (auto simp: start_adapter_and_track_def can_start_asked_def Let_def running_frame
      split: if_splits option.splits)

lemma failed_companion:
  assumes "start_companions env w xs c = (Inl e, c')"
  obtains ys x zs cm es where "xs = ys @ x # zs" "fst (start_adapter_and_track env x cm) = Inl e"
    "co_log c' = co_log c @ es" "\<And>v. StopCalled v \<in> set es \<longleftrightarrow> v = w"
    "\<And>y. y \<in> set ys \<Longrightarrow> y \<noteq> w \<Longrightarrow> is_registered c y \<Longrightarrow> is_running c' y"
    "\<And>p. p \<noteq> w \<Longrightarrow> is_running c p \<Longrightarrow> is_running c' p"
  using assms
proof (induction xs arbitrary: c thesis)
  case (Cons x xs)
  obtain r c1 where s: "start_adapter_and_track env x c = (r, c1)" by fastforce
  show ?case
  proof (cases r)
    case (Inl f)
    then have eq: "f = e" "c' = stop_adapters_then_flush [w] w ''companion start failure'' c1"
      using Cons.prems(2) s by simp_all
    from start_track_failed(2) [of env x c f c1] s Inl obtain es where
      es: "co_log c1 = co_log c @ es" "\<forall>w. StopCalled w \<notin> set es" by blast
    show ?thesis
    proof (rule Cons.prems(1) [of "[]" x xs c
          "es @ [StopCalled w, Published (AdapterStopping w (Some ''companion start failure''))]"])
      fix p assume "p \<noteq> w" "is_running c p"
      then show "is_running c' p"
        using start_track_failed(1) [of env x c f c1 p] s Inl
        by (simp add: eq stop_adapters_then_flush_def running_frame)
    qed (use s Inl es eq in \<open>auto simp: stop_log\<close>)
  next
    case (Inr u)
    then have "start_companions env w xs c1 = (Inl e, c')" using Cons.prems(2) s by simp
    from Cons.IH [OF _ this] obtain ys x' zs cm es where
      h: "xs = ys @ x' # zs" "fst (start_adapter_and_track env x' cm) = Inl e"
        "co_log c' = co_log c1 @ es" "\<And>v. StopCalled v \<in> set es \<longleftrightarrow> v = w"
        "\<And>y. y \<in> set ys \<Longrightarrow> y \<noteq> w \<Longrightarrow> is_registered c1 y \<Longrightarrow> is_running c' y"
        "\<And>p. p \<noteq> w \<Longrightarrow> is_running c1 p \<Longrightarrow> is_running c' p"
      by blast
    from start_track_ok(3) [of env x c u c1] s Inr obtain es0 where
      e0: "co_log c1 = co_log c @ es0" "\<forall>w. StopCalled w \<notin> set es0" by blast
    have reg: "is_registered c1 y = is_registered c y" for y
      using co_frame_start_track [of c env x] s by (simp add: co_frame_def)
    show ?thesis
    proof (rule Cons.prems(1) [of "x # ys" x' zs cm "es0 @ es"])
      fix y assume "y \<in> set (x # ys)" "y \<noteq> w" "is_registered c y"
      then show "is_running c' y"
        using h(5,6) reg start_track_ok(1) [of env x c u c1] s Inr by auto
    next
      fix p assume "p \<noteq> w" "is_running c p"
      then show "is_running c' p" using h(6) start_track_ok(2) [of env x c u c1 p] s Inr by simp
    qed (use h e0 in auto)
  qed
qed simp

section \<open>Acknowledgements\<close>

lemma stopped_adapter_iff [simp]: "stopped_adapter e = Some a \<longleftrightarrow> e = AdapterStopped a"
  by (cases e) (simp_all add: stopped_adapter_def)

lemma stopped_adapter_self [simp]: "stopped_adapter (AdapterStopped a) = Some a"
  by simp

lemma flushed_adapter_iff [simp]: "flushed_adapter e = Some a \<longleftrightarrow> (\<exists>ids. e = ZonesFlushed a ids)"
  by (cases e) (auto simp: flushed_adapter_def)

lemma acks_subset:
  assumes "distinct received" "set received \<subseteq> set expected"
  shows "distinct (wait_for_acks_loop expected rs received) \<and>
    set received \<subseteq> set (wait_for_acks_loop expected rs received) \<and>
    set (wait_for_acks_loop expected rs received) \<subseteq> set expected \<and>
    set (wait_for_acks_loop expected rs received) \<subseteq> set received \<union> {a. RecvOk (AdapterStopped a) \<in> set rs}"
  using assms
proof (induction rs arbitrary: received)
  case (Cons r rs)
  show ?case
  proof (cases r)
    case (RecvOk e)
    show ?thesis
    proof (cases "stopped_adapter e")
      case None
      with Cons RecvOk show ?thesis by auto
    next
      case (Some a)
      then have e: "e = AdapterStopped a" by simp
      let ?r = "if a \<in> set expected \<and> a \<notin> set received then received @ [a] else received"
      have p: "distinct ?r" "set ?r \<subseteq> set expected" using Cons.prems by auto
      have s: "set ?r \<subseteq> insert a (set received)" "set received \<subseteq> set ?r" by auto
      show ?thesis
      proof (cases "length received < length expected")
        case True
        then have "wait_for_acks_loop expected (r # rs) received = wait_for_acks_loop expected rs ?r"
          using RecvOk Some by simp
        then show ?thesis using Cons.IH [OF p] s RecvOk e by auto
      qed (use Cons.prems in simp)
    qed
  qed (use Cons.prems in auto)
qed simp

text \<open>An acknowledgement that is delivered before the channel closes is counted.\<close>

lemma acks_complete:
  assumes "distinct expected" "set received \<subseteq> set expected" "distinct received"
    "a \<in> set expected" "RecvOk (AdapterStopped a) \<in> set rs" "\<forall>r \<in> set rs. \<exists>e. r = RecvOk e"
  shows "a \<in> set (wait_for_acks_loop expected rs received)"
  using assms(2,3,5,6)
proof (induction rs arbitrary: received)
  case (Cons r rs)
  obtain e where r: "r = RecvOk e" using Cons.prems(4) by auto
  show ?case
  proof (cases "length received < length expected")
    case False
    then have "set received = set expected"
      using Cons.prems(1,2) assms(1) by (metis card_subset_eq distinct_card finite_set linorder_not_less card_mono order_antisym)
    with False assms(4) show ?thesis by simp
  next
    case True
    show ?thesis
    proof (cases "stopped_adapter e")
      case None
      with Cons.prems Cons.IH [of received] True r show ?thesis by auto
    next
      case (Some b)
      then have e: "e = AdapterStopped b" by simp
      let ?r = "if b \<in> set expected \<and> b \<notin> set received then received @ [b] else received"
      have l: "wait_for_acks_loop expected (r # rs) received = wait_for_acks_loop expected rs ?r"
        using True r e Some by simp
      have p: "set ?r \<subseteq> set expected" "distinct ?r" using Cons.prems(1,2) by auto
      show ?thesis
      proof (cases "a = b")
        case True
        then have "a \<in> set ?r" using assms(4) by auto
        then show ?thesis using acks_subset [OF p(2,1), of rs] unfolding l by blast
      next
        case False
        with Cons.prems r e have "RecvOk (AdapterStopped a) \<in> set rs" by auto
        from Cons.IH [OF p this] Cons.prems(4) show ?thesis unfolding l by simp
      qed
    qed
  qed
qed simp

lemma wait_for_acks_bounds: "distinct expected \<Longrightarrow> wait_for_acks expected rs \<le> length expected"
  using acks_subset [of "[]" expected rs]
  by (metis card_mono distinct_card distinct.simps(1) empty_set empty_subsetI finite_set wait_for_acks_def)

lemma wait_for_acks_all:
  assumes "distinct expected" "\<forall>r \<in> set rs. \<exists>e. r = RecvOk e"
    "\<forall>a \<in> set expected. RecvOk (AdapterStopped a) \<in> set rs"
  shows "wait_for_acks expected rs = length expected"
proof -
  have "set (wait_for_acks_loop expected rs []) = set expected"
    using acks_subset [of "[]" expected rs] acks_complete [OF assms(1), of "[]" _ rs] assms(2,3) by auto
  moreover have "distinct (wait_for_acks_loop expected rs [])" using acks_subset [of "[]" expected rs] by simp
  ultimately show ?thesis using assms(1) by (metis distinct_card wait_for_acks_def)
qed

section \<open>The settings transaction\<close>

definition provider_names :: "string list" where
  "provider_names = [''roon'', ''lms'', ''openhome'', ''upnp'', ''hqplayer'', ''spotify'', ''applemusic'',
     ''musicassistant'']"

lemma co_adapter_enabled_None: "co_adapter_enabled a p = None \<longleftrightarrow> p \<notin> set provider_names"
  unfolding co_adapter_enabled_def provider_names_def by simp

text \<open>The handler's list of changes marks a provider exactly when its flag differs.\<close>

lemma changes_listed:
  assumes "p \<in> set provider_names"
  shows "(p, co_adapter_enabled old p \<noteq> co_adapter_enabled new p) \<in> set (adapter_changes old new)"
proof -
  have "list_all (\<lambda>p. (p, co_adapter_enabled old p \<noteq> co_adapter_enabled new p) \<in> set (adapter_changes old new))
      provider_names"
    by (simp add: provider_names_def adapter_changes_def co_adapter_enabled_def)
  with assms show ?thesis by (simp add: list_all_iff)
qed

lemma changes_distinct: "distinct (map fst (adapter_changes old new))"
  by (simp add: adapter_changes_def)

text \<open>Switching one adapter: the flag it sets, and what its start or stop leaves alone.\<close>

lemma switch_flags:
  "is_enabled (snd (switch_adapter env ws name b c)) p =
     (if p = name \<and> is_registered c name then b else is_enabled c p)"
  "is_registered (snd (switch_adapter env ws name b c)) p = is_registered c p"
  by (simp_all add: switch_adapter_def can_start_asked_def Let_def is_enabled_set_enabled)

lemma apply_changes_step:
  obtains (skip) "\<not> changed \<or> co_adapter_enabled new name = None"
      "apply_changes env ws new applied ((name, changed) # rest) c = apply_changes env ws new applied rest c"
  | (switched) b c1 where "changed" "co_adapter_enabled new name = Some b"
      "c1 = snd (switch_adapter env ws name b c)"
      "apply_changes env ws new applied ((name, changed) # rest) c =
         apply_changes env ws new (applied @ [name]) rest c1"
  | (failed) b c1 where "changed" "co_adapter_enabled new name = Some b"
      "c1 = snd (switch_adapter env ws name b c)"
      "apply_changes env ws new applied ((name, changed) # rest) c = (Inl (name, applied @ [name]), c1)"
proof (cases "changed \<and> co_adapter_enabled new name \<noteq> None")
  case False
  then show thesis using skip by auto
next
  case True
  then obtain b where b: "co_adapter_enabled new name = Some b" by blast
  show thesis
  proof (cases "fst (switch_adapter env ws name b c)")
    case (Inl e)
    with True b show thesis using failed [of b] by (simp add: case_prod_beta)
  next
    case (Inr u)
    with True b show thesis using switched [of b] by (simp add: case_prod_beta)
  qed
qed

lemma apply_changes_other:
  assumes "apply_changes env ws new applied chs c = (res, c')"
  shows "is_registered c' p = is_registered c p \<and> (p \<notin> fst ` set chs \<longrightarrow> is_enabled c' p = is_enabled c p)"
  using assms
proof (induction chs arbitrary: applied c)
  case (Cons x chs)
  obtain name changed where x: "x = (name, changed)" by fastforce
  show ?case
  proof (cases rule: apply_changes_step [of changed new name env ws applied chs c])
    case skip
    with Cons x show ?thesis by simp
  next
    case (switched b c1)
    with Cons.IH [of "applied @ [name]" c1] Cons.prems x show ?thesis by (simp add: switch_flags)
  next
    case (failed b c1)
    with Cons.prems x show ?thesis by (auto simp: switch_flags)
  qed
qed simp

lemma apply_changes_unchanged:
  assumes "apply_changes env ws new applied chs c = (res, c')" "distinct (map fst chs)" "(p, False) \<in> set chs"
  shows "is_enabled c' p = is_enabled c p"
  using assms
proof (induction chs arbitrary: applied c)
  case (Cons x chs)
  obtain name changed where x: "x = (name, changed)" by fastforce
  have p: "p = name \<Longrightarrow> \<not> changed \<and> p \<notin> fst ` set chs" "p \<noteq> name \<Longrightarrow> (p, False) \<in> set chs"
    using Cons.prems x by force+
  show ?case
  proof (cases rule: apply_changes_step [of changed new name env ws applied chs c])
    case skip
    then have "apply_changes env ws new applied chs c = (res, c')" using Cons.prems x by simp
    with p Cons.IH [of applied c] Cons.prems apply_changes_other [of env ws new applied chs c res c' p] show ?thesis
      by (cases "p = name") simp_all
  next
    case (switched b c1)
    with Cons.IH [of "applied @ [name]" c1] Cons.prems x p show ?thesis by (auto simp: switch_flags)
  next
    case (failed b c1)
    with Cons.prems x p show ?thesis by (auto simp: switch_flags)
  qed
qed simp

lemma apply_changes_applied:
  assumes "apply_changes env ws new applied chs c = (Inr applied', c')" "distinct (map fst chs)"
    "(p, True) \<in> set chs" "co_adapter_enabled new p = Some b" "is_registered c p"
  shows "is_enabled c' p = b"
  using assms
proof (induction chs arbitrary: applied c)
  case (Cons x chs)
  obtain name changed where x: "x = (name, changed)" by fastforce
  have p: "p = name \<Longrightarrow> changed \<and> p \<notin> fst ` set chs" "p \<noteq> name \<Longrightarrow> (p, True) \<in> set chs"
    using Cons.prems x by force+
  show ?case
  proof (cases rule: apply_changes_step [of changed new name env ws applied chs c])
    case skip
    with p Cons x show ?thesis by (cases "p = name") auto
  next
    case (switched b' c1)
    then have "apply_changes env ws new (applied @ [name]) chs c1 = (Inr applied', c')"
      using Cons.prems x by simp
    with switched p Cons.IH [of "applied @ [name]" c1] Cons.prems x
      apply_changes_other [of env ws new "applied @ [name]" chs c1 _ c' p] show ?thesis
      by (cases "p = name") (auto simp: switch_flags)
  next
    case (failed b' c1)
    with Cons.prems x show ?thesis by simp
  qed
qed simp

text \<open>What a failed attempt has touched is in the list that the rollback walks through.\<close>

lemma apply_changes_touched:
  assumes "apply_changes env ws new applied chs c = (Inl (n, applied'), c')"
  shows "set applied \<subseteq> set applied' \<and> (p \<notin> set applied' \<longrightarrow> is_enabled c' p = is_enabled c p)"
  using assms
proof (induction chs arbitrary: applied c)
  case (Cons x chs)
  obtain name changed where x: "x = (name, changed)" by fastforce
  show ?case
  proof (cases rule: apply_changes_step [of changed new name env ws applied chs c])
    case skip
    with Cons x show ?thesis by simp
  next
    case (switched b c1)
    with Cons.IH [of "applied @ [name]" c1] Cons.prems x show ?thesis by (auto simp: switch_flags)
  next
    case (failed b c1)
    with Cons.prems x show ?thesis by (auto simp: switch_flags)
  qed
qed simp

lemma rollback_one_flags:
  "is_enabled (rollback_one env ws previous c name) p =
     (case co_adapter_enabled previous name of
        Some b \<Rightarrow> if p = name \<and> is_registered c name then b else is_enabled c p
      | None \<Rightarrow> is_enabled c p)"
  "is_registered (rollback_one env ws previous c name) p = is_registered c p"
  by (simp_all add: rollback_one_def Let_def is_enabled_set_enabled split: option.split)

lemma rollback_flags:
  "is_enabled (rollback_adapter_transitions env ws previous names c) p =
     (case co_adapter_enabled previous p of
        Some b \<Rightarrow> if p \<in> set names \<and> is_registered c p then b else is_enabled c p
      | None \<Rightarrow> is_enabled c p)"
proof -
  have "is_enabled (foldl (rollback_one env ws previous) c xs) p =
     (case co_adapter_enabled previous p of
        Some b \<Rightarrow> if p \<in> set xs \<and> is_registered c p then b else is_enabled c p
      | None \<Rightarrow> is_enabled c p)" for xs c
    by (induction xs arbitrary: c) (auto simp: rollback_one_flags split: option.split)
  from this [of c "List.rev names"] show ?thesis
    by (simp add: rollback_adapter_transitions_def split: option.split)
qed

text \<open>The coordinator's flags agree with the settings, for the providers the settings name; the flag of
  lms-cli, a companion without a switch, is not compared.\<close>

definition flags_agree :: "adapter_settings \<Rightarrow> coordinator \<Rightarrow> bool" where
  "flags_agree a c \<longleftrightarrow> (\<forall>p b. co_adapter_enabled a p = Some b \<longrightarrow> is_registered c p \<and> is_enabled c p = b)"

lemma flags_agree_applied:
  assumes "flags_agree old c" "apply_changes env ws new [] (adapter_changes old new) c = (Inr applied, c')"
  shows "flags_agree new c'"
  unfolding flags_agree_def
proof (intro allI impI)
  fix p b assume b: "co_adapter_enabled new p = Some b"
  then have p: "p \<in> set provider_names" using co_adapter_enabled_None [of new p] by fastforce
  then obtain b0 where b0: "co_adapter_enabled old p = Some b0" using co_adapter_enabled_None [of old p] by auto
  have reg: "is_registered c p" "is_enabled c p = b0" using assms(1) b0 by (auto simp: flags_agree_def)
  have "is_enabled c' p = b"
  proof (cases "b = b0")
    case True
    then have "(p, False) \<in> set (adapter_changes old new)" using changes_listed [OF p, of old new] b b0 by simp
    from apply_changes_unchanged [OF assms(2) changes_distinct this] reg True show ?thesis by simp
  next
    case False
    then have "(p, True) \<in> set (adapter_changes old new)" using changes_listed [OF p, of old new] b b0 by simp
    from apply_changes_applied [OF assms(2) changes_distinct this b reg(1)] show ?thesis .
  qed
  then show "is_registered c' p \<and> is_enabled c' p = b"
    using apply_changes_other [OF assms(2)] reg by simp
qed

lemma flags_agree_rolled_back:
  assumes "flags_agree old c" "apply_changes env ws new [] chs c = (Inl (n, applied), c')"
  shows "flags_agree old (rollback_adapter_transitions env ws old applied c')"
  unfolding flags_agree_def
proof (intro allI impI)
  fix p b assume b: "co_adapter_enabled old p = Some b"
  have reg: "is_registered c p" "is_enabled c p = b" using assms(1) b by (auto simp: flags_agree_def)
  have "is_registered (foldl (rollback_one env ws old) d xs) p = is_registered d p" for d xs
    by (induction xs arbitrary: d) (simp_all add: rollback_one_flags)
  then show "is_registered (rollback_adapter_transitions env ws old applied c') p \<and>
      is_enabled (rollback_adapter_transitions env ws old applied c') p = b"
    using apply_changes_touched [OF assms(2), of p] apply_changes_other [OF assms(2), of p] reg b
    by (auto simp: rollback_flags rollback_adapter_transitions_def [of env ws old applied c', symmetric])
      (simp_all add: rollback_adapter_transitions_def)
qed

text \<open>A fresh registration agrees with the settings it was made from.\<close>

lemma co_register_flags:
  "is_enabled (co_register p b c) q = (if q = p then b else is_enabled c q)"
  "is_registered (co_register p b c) q \<longleftrightarrow> q = p \<or> is_registered c q"
  by (simp_all add: co_register_def is_enabled_def is_registered_def)

lemma register_from_settings_agree: "flags_agree a (register_from_settings a coordinator_new)"
proof -
  have "list_all (\<lambda>p. \<exists>b. co_adapter_enabled a p = Some b \<and> is_registered (register_from_settings a coordinator_new) p \<and>
      is_enabled (register_from_settings a coordinator_new) p = b) provider_names"
    by (simp add: provider_names_def co_adapter_enabled_def register_from_settings_def AVAILABLE_ADAPTERS_def
        co_register_flags settings_enabled_def)
  moreover have "p \<in> set provider_names" if "co_adapter_enabled a p = Some b" for p b
    using co_adapter_enabled_None [of a p] that by fastforce
  ultimately show ?thesis by (fastforce simp: flags_agree_def list_all_iff)
qed

lemma transaction_outcome:
  assumes "flags_agree (aps_adapters (load_app_settings lms file)) c"
    and "api_settings_post env lms w w2 between ws body (file, c) = (ans, file', c')"
  shows "case ans of
      SettingsNotSaved \<Rightarrow> file' = file \<and> c' = c
    | SettingsApplied _ \<Rightarrow>
        file' = between (Some (carry_forward (load_app_settings lms file) body)) \<and> flags_agree (aps_adapters body) c'
    | CouldNotEnable _ \<Rightarrow>
        file' = (if w2 then Some (load_app_settings lms file)
                 else between (Some (carry_forward (load_app_settings lms file) body))) \<and>
        flags_agree (aps_adapters (load_app_settings lms file)) c'"
proof (cases w)
  case False
  then show ?thesis using assms(2) by (auto simp: api_settings_post_def save_app_settings_locked_def Let_def)
next
  case True
  let ?old = "load_app_settings lms file"
  obtain res c1 where r: "apply_changes env ws (aps_adapters body) []
      (adapter_changes (aps_adapters ?old) (aps_adapters body)) c = (res, c1)"
    by fastforce
  show ?thesis
  proof (cases res)
    case (Inr applied)
    with r True assms(2) flags_agree_applied [OF assms(1)] show ?thesis
      by (auto simp: api_settings_post_def save_app_settings_locked_def Let_def carry_forward_fields)
  next
    case (Inl na)
    obtain n applied where na: "na = (n, applied)" by fastforce
    with Inl r flags_agree_rolled_back [OF assms(1)]
    have "flags_agree (aps_adapters ?old) (rollback_adapter_transitions env ws (aps_adapters ?old) applied c1)"
      by blast
    with Inl na r True assms(2) show ?thesis
      by (auto simp: api_settings_post_def save_app_settings_locked_def mutate_app_settings_def Let_def
          carry_forward_fields)
  qed
qed

end
