(* ===== verification/Surface_Claims.thy ===== *)
theory Surface_Claims
  imports Zone_List Coordinator_Facts Zone_Claims
begin

text \<open>
  What the endpoints that edit the settings do together with the components that read them: a reordering
  against the list it is made for, two edits of the file one after the other, and the stop of an adapter
  against the aggregator that hears of it.
\<close>

section \<open>A reordering and the list\<close>

text \<open>The zones of the management view and of the list do not depend on the order.\<close>

lemma managed_order_only:
  "map zn_zone_id (filter (\<lambda>z. adapter_enabled (zn_zone_id z) (s\<lparr>aps_zone_order := x\<rparr>)) zones) =
   map zn_zone_id (filter (\<lambda>z. adapter_enabled (zn_zone_id z) s) zones)"
proof -
  have a: "aps_adapters (s\<lparr>aps_zone_order := x\<rparr>) = aps_adapters s" by simp
  have "adapter_enabled z (s\<lparr>aps_zone_order := x\<rparr>) = adapter_enabled z s" for z
    unfolding adapter_enabled_def a ..
  then show ?thesis by simp
qed

lemma map_ids_named: "map zn_zone_id (map (apply_custom_name s) zs) = map zn_zone_id zs"
  by simp

lemma managed_ids:
  "mset (map zn_zone_id (apply_adapter_filter_and_sort lc s zones)) =
     mset (map zn_zone_id (filter (\<lambda>z. adapter_enabled (zn_zone_id z) s) zones))"
  by (simp add: apply_adapter_filter_and_sort_def order_zones_key multiset.map_comp comp_def)

lemma distinct_managed:
  assumes "distinct (map zn_zone_id zones)"
  shows "distinct (map zn_zone_id (apply_adapter_filter_and_sort lc s zones))"
proof -
  have "distinct (map zn_zone_id (filter (\<lambda>z. adapter_enabled (zn_zone_id z) s) zones))"
    using assms by (rule distinct_map_filter)
  then show ?thesis using managed_ids [of lc s zones] by (metis mset_eq_imp_distinct_iff)
qed

text \<open>A permutation of the management view, once it is the order, is the management view.\<close>

lemma order_takes_effect:
  assumes "distinct (map zn_zone_id zones)"
    and "mset ids = mset (map zn_zone_id (apply_adapter_filter_and_sort lc s zones))"
  shows "map zn_zone_id (apply_adapter_filter_and_sort lc (s\<lparr>aps_zone_order := Some ids\<rparr>) zones) = ids"
proof -
  let ?s = "s\<lparr>aps_zone_order := Some ids\<rparr>"
  let ?zs = "map (apply_custom_name ?s) (filter (\<lambda>z. adapter_enabled (zn_zone_id z) ?s) zones)"
  have "mset (map zn_zone_id ?zs) = mset ids"
    unfolding map_ids_named managed_order_only assms(2) managed_ids ..
  moreover have "distinct ids"
    using distinct_managed [OF assms(1)] assms(2) by (metis mset_eq_imp_distinct_iff)
  ultimately have "map zn_zone_id (order_zones lc ids ?zs) = ids" by (rule order_zones_explicit)
  then show ?thesis by (simp add: apply_adapter_filter_and_sort_def zone_order_ids_def)
qed

lemma listed_ids:
  "map zn_zone_id (apply_zone_list_policy lc s zones) =
     visible_ids (hidden_zone_ids s) (map zn_zone_id (apply_adapter_filter_and_sort lc s zones))"
  by (simp add: apply_zone_list_policy_def visible_ids_def filter_map comp_def)

lemma load_order [simp]:
  "load_app_settings p (Some ((load_app_settings p file)\<lparr>aps_zone_order := x\<rparr>)) =
     (load_app_settings p file)\<lparr>aps_zone_order := x\<rparr>"
  by (simp add: load_app_settings_def Let_def)

text \<open>What the list shows after the order endpoint has saved a step of a visible zone.\<close>

lemma saved_step:
  assumes "distinct (map zn_zone_id zones)" "zor_target_zone_id rq = None" "zor_direction rq = Some d"
    and "zone_order_read lc p rq zones file = Some ids"
    and "zor_zone_id rq \<notin> set (hidden_zone_ids (load_app_settings p file))"
    and "zone_order_write p w (Some ids) file = (True, file')"
  obtains xs y ys where
    "map zn_zone_id (apply_zone_list_policy lc (load_app_settings p file) zones) =
       (case d of Up \<Rightarrow> xs @ [y, zor_zone_id rq] @ ys | Down \<Rightarrow> xs @ [zor_zone_id rq, y] @ ys)"
    "map zn_zone_id (apply_zone_list_policy lc (load_app_settings p file') zones) =
       (case d of Up \<Rightarrow> xs @ [zor_zone_id rq, y] @ ys | Down \<Rightarrow> xs @ [y, zor_zone_id rq] @ ys)"
proof -
  let ?s = "load_app_settings p file"
  have r: "reorder (apply_adapter_filter_and_sort lc ?s zones) (zor_zone_id rq) d (hidden_zone_ids ?s) = Some ids"
    using assms(2-4) by (simp add: zone_order_read_def order_step_def Let_def)
  have "load_app_settings p file' = ?s\<lparr>aps_zone_order := Some ids\<rparr>"
    using assms(6) by (auto simp: zone_order_write_def mutate_app_settings_def save_app_settings_locked_def
        split: if_splits)
  moreover have "hidden_zone_ids (?s\<lparr>aps_zone_order := Some ids\<rparr>) = hidden_zone_ids ?s"
    by (simp add: hidden_zone_ids_def)
  ultimately have after: "map zn_zone_id (apply_zone_list_policy lc (load_app_settings p file') zones) =
      visible_ids (hidden_zone_ids ?s) ids"
    by (simp add: listed_ids order_takes_effect [OF assms(1) reorder_mset [OF r]])
  show thesis
    by (rule reorder_visible [OF r assms(5)], rule that) (simp_all only: after, simp_all only: listed_ids)
qed

section \<open>Two edits of the settings file\<close>

lemma second_order_wins:
  "zone_order_write p True (Some ids2) (snd (zone_order_write p True (Some ids1) file)) =
     zone_order_write p True (Some ids2) file"
  by (simp add: zone_order_write_def mutate_app_settings_def save_app_settings_locked_def)

lemma mutate_saved:
  "mutate_app_settings p True f file = (True, Some (f (load_app_settings p file)))"
  by (simp add: mutate_app_settings_def save_app_settings_locked_def)

text \<open>An edit that keeps the adapters keeps the environment's override.\<close>

lemma load_kept:
  "aps_adapters s = aps_adapters (load_app_settings p file) \<Longrightarrow> load_app_settings p (Some s) = s"
  by (auto simp: load_app_settings_def Let_def split: if_splits)

lemma edits_commute:
  assumes "\<And>s. aps_adapters (f s) = aps_adapters s" "\<And>s. aps_adapters (g s) = aps_adapters s"
    and "f (g (load_app_settings p file)) = g (f (load_app_settings p file))"
  shows "mutate_app_settings p True f (snd (mutate_app_settings p True g file)) =
     mutate_app_settings p True g (snd (mutate_app_settings p True f file))"
proof -
  have "load_app_settings p (Some (f (load_app_settings p file))) = f (load_app_settings p file)"
    "load_app_settings p (Some (g (load_app_settings p file))) = g (load_app_settings p file)"
    using assms(1,2) by (blast intro: load_kept)+
  then show ?thesis by (simp add: mutate_saved assms(3))
qed

section \<open>A stopped adapter and the aggregator\<close>

text \<open>What the log publishes on the bus.\<close>

fun published :: "co_effect list \<Rightarrow> bus_event list" where
  "published [] = []"
| "published (Published e # es) = e # published es"
| "published (x # es) = published es"

lemma published_append [simp]: "published (xs @ ys) = published xs @ published ys"
  by (induction xs rule: published.induct) simp_all

lemma published_stops [simp]: "published (map StopCalled ws) = []"
  by (induction ws) simp_all

lemma switch_off_log:
  assumes "name \<in> set ws"
  shows "co_log (snd (switch_adapter env ws name False c)) =
    co_log c @ map StopCalled (name # companions_of c name) @
      [Published (AdapterStopping name (Some ''settings disable''))]"
  using assms
  by (simp add: switch_adapter_def Let_def stop_adapter_and_companions_then_flush_def stop_log)

end
