(* ===== verification/Recovery.thy ===== *)
theory Recovery
  imports Uhc_Prelude
begin

text \<open>
  The supervision of one HQPlayer producer (\<open>src/src/adapters/hqplayer/lifecycle.rs\<close>): the retry and
  stability policy, and the supervisor loop as a step relation.

  A \<open>Duration\<close> and an \<open>Instant\<close> are numbers of nanoseconds; \<open>DURATION_MAX\<close> is the largest duration,
  beyond which \<open>checked_mul\<close> fails. \<open>saturating_duration_since\<close> is the difference of naturals.
\<close>

section \<open>The recovery policy\<close>

type_synonym duration = nat
type_synonym instant = nat

definition SECOND :: duration where
  "SECOND = 1000000000"

definition MIN_DELAY :: duration where
  "MIN_DELAY = 1000000"

definition DURATION_MAX :: duration where
  "DURATION_MAX = (2 ^ 64 - 1) * 1000000000 + 999999999"

definition checked_mul :: "duration \<Rightarrow> nat \<Rightarrow> duration option" where
  "checked_mul d n = (if d * n \<le> DURATION_MAX then Some (d * n) else None)"

record hqp_recovery_config =
  rc_poll_interval :: duration
  rc_short_retry_delay :: duration
  rc_restart_window :: duration
  rc_backoff_initial :: duration
  rc_backoff_cap :: duration
  rc_stable_threshold :: duration

definition recovery_config_default :: hqp_recovery_config where
  "recovery_config_default =
     \<lparr>rc_poll_interval = 2 * SECOND, rc_short_retry_delay = SECOND, rc_restart_window = 12 * SECOND,
      rc_backoff_initial = 2 * SECOND, rc_backoff_cap = 60 * SECOND, rc_stable_threshold = 10 * SECOND\<rparr>"

record hqp_recovery_state =
  rv_config :: hqp_recovery_config
  rv_outage_started :: "instant option"
  rv_healthy_since :: "instant option"
  rv_next_backoff :: duration

definition sanitize_config :: "hqp_recovery_config \<Rightarrow> hqp_recovery_config" where
  "sanitize_config c =
     (let c1 = c\<lparr>rc_poll_interval := max (rc_poll_interval c) MIN_DELAY\<rparr>;
          c2 = c1\<lparr>rc_backoff_cap := max (rc_backoff_cap c1) MIN_DELAY\<rparr>;
          c3 = c2\<lparr>rc_short_retry_delay :=
                 min (max (rc_short_retry_delay c2) MIN_DELAY) (rc_backoff_cap c2)\<rparr>
      in c3\<lparr>rc_backoff_initial :=
           min (max (max (rc_backoff_initial c3) MIN_DELAY) (rc_short_retry_delay c3)) (rc_backoff_cap c3)\<rparr>)"

definition recovery_new :: "hqp_recovery_config \<Rightarrow> hqp_recovery_state" where
  "recovery_new config =
     (let c = sanitize_config config
      in \<lparr>rv_config = c, rv_outage_started = None, rv_healthy_since = None,
          rv_next_backoff = rc_backoff_initial c\<rparr>)"

definition on_failure :: "instant \<Rightarrow> hqp_recovery_state \<Rightarrow> duration \<times> hqp_recovery_state" where
  "on_failure now s =
     (let outage = (case rv_outage_started s of None \<Rightarrow> now | Some t \<Rightarrow> t);
          s1 = s\<lparr>rv_healthy_since := None, rv_outage_started := Some outage\<rparr>
      in if now - outage \<le> rc_restart_window (rv_config s) then (rc_short_retry_delay (rv_config s), s1)
         else (rv_next_backoff s,
               s1\<lparr>rv_next_backoff :=
                    min (case checked_mul (rv_next_backoff s) 2 of None \<Rightarrow> rc_backoff_cap (rv_config s) | Some d \<Rightarrow> d)
                      (rc_backoff_cap (rv_config s))\<rparr>))"

definition on_coherent_success :: "instant \<Rightarrow> hqp_recovery_state \<Rightarrow> bool \<times> hqp_recovery_state" where
  "on_coherent_success now s =
     (if rv_outage_started s = None then (False, s)
      else let healthy = (case rv_healthy_since s of None \<Rightarrow> now | Some t \<Rightarrow> t);
               s1 = s\<lparr>rv_healthy_since := Some healthy\<rparr>
        in if now - healthy < rc_stable_threshold (rv_config s) then (False, s1)
           else (True, s1\<lparr>rv_outage_started := None, rv_healthy_since := None,
                    rv_next_backoff := rc_backoff_initial (rv_config s)\<rparr>))"

section \<open>Bounds of the delays\<close>

definition recovery_ok :: "hqp_recovery_state \<Rightarrow> bool" where
  "recovery_ok s \<longleftrightarrow>
     MIN_DELAY \<le> rc_short_retry_delay (rv_config s) \<and>
     rc_short_retry_delay (rv_config s) \<le> rc_backoff_initial (rv_config s) \<and>
     rc_backoff_initial (rv_config s) \<le> rv_next_backoff s \<and>
     rv_next_backoff s \<le> rc_backoff_cap (rv_config s)"

lemma recovery_new_ok: "recovery_ok (recovery_new config)"
  by (auto simp: recovery_ok_def recovery_new_def sanitize_config_def Let_def)

lemma on_failure_config [simp]: "rv_config (snd (on_failure now s)) = rv_config s"
  by (simp add: on_failure_def Let_def)

lemma on_success_config [simp]: "rv_config (snd (on_coherent_success now s)) = rv_config s"
  by (simp add: on_coherent_success_def Let_def)

lemma doubled:
  "recovery_ok s \<Longrightarrow>
     rv_next_backoff s \<le> min (case checked_mul (rv_next_backoff s) 2 of None \<Rightarrow> rc_backoff_cap (rv_config s) | Some d \<Rightarrow> d)
       (rc_backoff_cap (rv_config s))"
  by (auto simp: recovery_ok_def checked_mul_def)

lemma on_failure_ok: "recovery_ok s \<Longrightarrow> recovery_ok (snd (on_failure now s))"
  using doubled [of s] by (auto simp: recovery_ok_def on_failure_def Let_def)

lemma on_failure_delay:
  "recovery_ok s \<Longrightarrow> MIN_DELAY \<le> fst (on_failure now s) \<and> fst (on_failure now s) \<le> rc_backoff_cap (rv_config s)"
  by (auto simp: recovery_ok_def on_failure_def Let_def)

lemma on_success_ok: "recovery_ok s \<Longrightarrow> recovery_ok (snd (on_coherent_success now s))"
  by (auto simp: recovery_ok_def on_coherent_success_def Let_def)

section \<open>Runs of observations\<close>

datatype observation = ObsFailed instant | ObsCoherent instant

fun obs_time :: "observation \<Rightarrow> instant" where
  "obs_time (ObsFailed t) = t"
| "obs_time (ObsCoherent t) = t"

fun observe :: "hqp_recovery_state \<Rightarrow> observation \<Rightarrow> hqp_recovery_state" where
  "observe s (ObsFailed t) = snd (on_failure t s)"
| "observe s (ObsCoherent t) = snd (on_coherent_success t s)"

definition observed :: "hqp_recovery_state \<Rightarrow> observation list \<Rightarrow> hqp_recovery_state" where
  "observed s os = foldl observe s os"

lemma observed_ok: "recovery_ok s \<Longrightarrow> recovery_ok (observed s os)"
proof (induction os arbitrary: s)
  case (Cons a os)
  then show ?case by (cases a) (simp_all add: observed_def on_failure_ok on_success_ok)
qed (simp add: observed_def)

lemma observed_config [simp]: "rv_config (observed s os) = rv_config s"
proof (induction os arbitrary: s)
  case (Cons a os)
  then show ?case by (cases a) (simp_all add: observed_def)
qed (simp add: observed_def)

text \<open>The observations after the last failure.\<close>

definition healthy_tail :: "observation list \<Rightarrow> observation list" where
  "healthy_tail os = List.rev (takeWhile (\<lambda>x. case x of ObsCoherent _ \<Rightarrow> True | _ \<Rightarrow> False) (List.rev os))"

lemma healthy_tail_snoc [simp]:
  "healthy_tail (os @ [ObsFailed t]) = []"
  "healthy_tail (os @ [ObsCoherent t]) = healthy_tail os @ [ObsCoherent t]"
  by (simp_all add: healthy_tail_def)

text \<open>The instant at which the current health began is an observation since the last failure.\<close>

lemma healthy_since_observed:
  assumes "rv_healthy_since s = None" "rv_healthy_since (observed s os) = Some h"
  shows "ObsCoherent h \<in> set (healthy_tail os)"
  using assms(2)
proof (induction os arbitrary: h rule: rev_induct)
  case Nil
  with assms(1) show ?case by (simp add: observed_def)
next
  case (snoc x os)
  have o: "observed s (os @ [x]) = observe (observed s os) x" by (simp add: observed_def)
  show ?case
  proof (cases x)
    case (ObsFailed t)
    with snoc.prems o show ?thesis by (simp add: on_failure_def Let_def split: if_splits)
  next
    case (ObsCoherent t)
    show ?thesis
    proof (cases "rv_healthy_since (observed s os) = Some h")
      case True
      with snoc.IH ObsCoherent show ?thesis by simp
    next
      case False
      with snoc.prems o ObsCoherent have "h = t"
        by (auto simp: on_coherent_success_def Let_def split: if_splits option.splits)
      with ObsCoherent show ?thesis by simp
    qed
  qed
qed

text \<open>
  The debt is forgiven only by a coherent observation that is at least the stability threshold after
  another one, with no failure between the two.
\<close>

lemma forgiven_after_stability:
  assumes "fst (on_coherent_success t (observed (recovery_new config) os))"
  shows "\<exists>h. ObsCoherent h \<in> set (healthy_tail (os @ [ObsCoherent t])) \<and>
    rc_stable_threshold config \<le> t - h"
proof -
  let ?s = "observed (recovery_new config) os"
  have th: "rc_stable_threshold (rv_config ?s) = rc_stable_threshold config"
    by (simp add: recovery_new_def sanitize_config_def Let_def)
  show ?thesis
  proof (cases "rv_healthy_since ?s")
    case None
    with assms th have "rc_stable_threshold config \<le> t - t"
      by (auto simp: on_coherent_success_def Let_def split: if_splits)
    then show ?thesis by (intro exI [of _ t]) simp
  next
    case (Some h)
    then have "ObsCoherent h \<in> set (healthy_tail os)"
      by (intro healthy_since_observed [of "recovery_new config"]) (simp add: recovery_new_def Let_def)
    moreover have "rc_stable_threshold config \<le> t - h"
      using assms Some th by (auto simp: on_coherent_success_def Let_def split: if_splits)
    ultimately show ?thesis by auto
  qed
qed

text \<open>
  The delays of an uninterrupted outage: the short delay within the restart window, and after it the
  initial delay doubled with every failure, up to the cap.
\<close>

fun failure_delays :: "hqp_recovery_state \<Rightarrow> instant list \<Rightarrow> duration list" where
  "failure_delays s [] = []"
| "failure_delays s (t # ts) = fst (on_failure t s) # failure_delays (snd (on_failure t s)) ts"

lemma backoff_step:
  assumes "recovery_ok s" "rc_backoff_cap (rv_config s) \<le> DURATION_MAX"
    "rv_next_backoff s = min (rc_backoff_cap (rv_config s)) (b * 2 ^ k)"
  shows "min (case checked_mul (rv_next_backoff s) 2 of None \<Rightarrow> rc_backoff_cap (rv_config s) | Some d \<Rightarrow> d)
      (rc_backoff_cap (rv_config s)) = min (rc_backoff_cap (rv_config s)) (b * 2 ^ Suc k)"
  using assms by (auto simp: checked_mul_def min_def)

lemma failure_delays_nth:
  assumes "recovery_ok s" "rc_backoff_cap (rv_config s) \<le> DURATION_MAX" "rv_outage_started s = Some t0"
    "\<forall>t \<in> set ts. rc_restart_window (rv_config s) < t - t0"
    "rv_next_backoff s = min (rc_backoff_cap (rv_config s)) (b * 2 ^ k)" "i < length ts"
  shows "failure_delays s ts ! i = min (rc_backoff_cap (rv_config s)) (b * 2 ^ (k + i))"
  using assms
proof (induction ts arbitrary: s k i)
  case (Cons t ts)
  let ?s = "snd (on_failure t s)"
  have f: "on_failure t s = (rv_next_backoff s, ?s)" "rv_outage_started ?s = Some t0"
    "rv_next_backoff ?s = min (rc_backoff_cap (rv_config s)) (b * 2 ^ Suc k)"
    using Cons.prems backoff_step [OF Cons.prems(1,2,5)] by (auto simp: on_failure_def Let_def)
  show ?case
  proof (cases i)
    case 0
    then show ?thesis using f(1) Cons.prems(5) by (metis Nat.add_0_right failure_delays.simps(2) fst_conv nth_Cons_0)
  next
    case (Suc j)
    have "failure_delays ?s ts ! j = min (rc_backoff_cap (rv_config ?s)) (b * 2 ^ (Suc k + j))"
      using Cons.prems f(2,3) Suc by (intro Cons.IH) (auto simp: on_failure_ok)
    with Suc show ?thesis by simp
  qed
qed simp

end
