(* ===== verification/Supervisor.thy ===== *)
theory Supervisor
  imports Recovery
begin

text \<open>
  \<open>supervise_worker\<close> (\<open>src/src/adapters/hqplayer/lifecycle.rs\<close>) as a step relation. A program step is
  one segment of the loop between two awaits; an environment step is what happens meanwhile: the shutdown
  token is cancelled, time passes, and the observer child runs, reports its phase, records observations in
  the shared recovery state, and ends. A select with several ready branches may take any of them.
\<close>

datatype worker_phase = PhRecovering | PhHealthy | PhFailed | PhStopped

datatype completion = CompletedOk | CompletedPanic | CompletedJoinError

datatype child_state = NoChild | ChildRunning | ChildFinished completion

datatype sup_effect = EffSpawn instant | EffJoined completion instant | EffCleanup

datatype sup_pc = PcTop | PcSelect | PcJoining | PcCleanup duration | PcSleeping instant | PcExit | PcDone

record supervisor =
  sv_pc :: sup_pc
  sv_cancelled :: bool
  sv_child :: child_state
  sv_child_cancelled :: bool
  sv_phase :: worker_phase
  sv_recovery :: hqp_recovery_state
  sv_now :: instant
  sv_log :: "sup_effect list"

definition sv_emit :: "sup_effect \<Rightarrow> supervisor \<Rightarrow> supervisor" where
  "sv_emit e s = s\<lparr>sv_log := sv_log s @ [e]\<rparr>"

section \<open>The loop\<close>

text \<open>What the loop does with a completion that the shutdown did not ask for: the phase and the call of
  \<open>on_failure\<close>, which follow each other in the code, are one step.\<close>

definition unexpected :: "completion \<Rightarrow> supervisor \<Rightarrow> supervisor" where
  "unexpected r s =
     (let s1 = sv_emit (EffJoined r (sv_now s)) (s\<lparr>sv_child := NoChild\<rparr>) in
      if r = CompletedOk \<and> sv_cancelled s then s1\<lparr>sv_pc := PcExit\<rparr>
      else let (delay, rv) = on_failure (sv_now s) (sv_recovery s)
           in s1\<lparr>sv_phase := PhFailed, sv_recovery := rv, sv_pc := PcCleanup delay\<rparr>)"

definition joined :: "completion \<Rightarrow> supervisor \<Rightarrow> supervisor" where
  "joined r s =
     (let s1 = sv_emit (EffJoined r (sv_now s)) (s\<lparr>sv_child := NoChild, sv_pc := PcExit\<rparr>)
      in if r = CompletedOk then s1 else sv_emit EffCleanup s1)"

inductive prog_step :: "supervisor \<Rightarrow> supervisor \<Rightarrow> bool" where
  top_exit: "sv_pc s = PcTop \<Longrightarrow> sv_cancelled s \<Longrightarrow> prog_step s (s\<lparr>sv_pc := PcExit\<rparr>)"
| top_spawn: "sv_pc s = PcTop \<Longrightarrow> \<not> sv_cancelled s \<Longrightarrow>
    prog_step s (sv_emit (EffSpawn (sv_now s))
      (s\<lparr>sv_phase := PhRecovering, sv_child := ChildRunning, sv_child_cancelled := False, sv_pc := PcSelect\<rparr>))"
| select_shutdown: "sv_pc s = PcSelect \<Longrightarrow> sv_cancelled s \<Longrightarrow>
    prog_step s (s\<lparr>sv_child_cancelled := True, sv_pc := PcJoining\<rparr>)"
| select_child: "sv_pc s = PcSelect \<Longrightarrow> sv_child s = ChildFinished r \<Longrightarrow> prog_step s (unexpected r s)"
| join_child: "sv_pc s = PcJoining \<Longrightarrow> sv_child s = ChildFinished r \<Longrightarrow> prog_step s (joined r s)"
| cleaned: "sv_pc s = PcCleanup d \<Longrightarrow>
    prog_step s (sv_emit EffCleanup (s\<lparr>sv_pc := if sv_cancelled s then PcExit else PcSleeping (sv_now s + d)\<rparr>))"
| sleep_shutdown: "sv_pc s = PcSleeping u \<Longrightarrow> sv_cancelled s \<Longrightarrow> prog_step s (s\<lparr>sv_pc := PcExit\<rparr>)"
| sleep_over: "sv_pc s = PcSleeping u \<Longrightarrow> u \<le> sv_now s \<Longrightarrow> prog_step s (s\<lparr>sv_pc := PcTop\<rparr>)"
| stopped: "sv_pc s = PcExit \<Longrightarrow> prog_step s (s\<lparr>sv_phase := PhStopped, sv_pc := PcDone\<rparr>)"

inductive env_step :: "supervisor \<Rightarrow> supervisor \<Rightarrow> bool" where
  cancel: "env_step s (s\<lparr>sv_cancelled := True\<rparr>)"
| tick: "env_step s (s\<lparr>sv_now := sv_now s + n\<rparr>)"
| child_phase: "sv_child s = ChildRunning \<Longrightarrow> p \<in> {PhHealthy, PhRecovering} \<Longrightarrow> env_step s (s\<lparr>sv_phase := p\<rparr>)"
| child_observes: "sv_child s = ChildRunning \<Longrightarrow> env_step s (s\<lparr>sv_recovery := observe (sv_recovery s) x\<rparr>)"
| child_ends: "sv_child s = ChildRunning \<Longrightarrow> env_step s (s\<lparr>sv_child := ChildFinished r\<rparr>)"

inductive_cases prog_stepE: "prog_step s s'"
inductive_cases env_stepE: "env_step s s'"

inductive_simps prog_step_iff: "prog_step s s'"

definition sup_init :: "hqp_recovery_config \<Rightarrow> instant \<Rightarrow> supervisor" where
  "sup_init config now = \<lparr>sv_pc = PcTop, sv_cancelled = False, sv_child = NoChild, sv_child_cancelled = False,
     sv_phase = PhStopped, sv_recovery = recovery_new config, sv_now = now, sv_log = []\<rparr>"

inductive sup_reachable :: "hqp_recovery_config \<Rightarrow> supervisor \<Rightarrow> bool" for config where
  reach_init: "sup_reachable config (sup_init config now)"
| reach_prog: "sup_reachable config s \<Longrightarrow> prog_step s s' \<Longrightarrow> sup_reachable config s'"
| reach_env: "sup_reachable config s \<Longrightarrow> env_step s s' \<Longrightarrow> sup_reachable config s'"

section \<open>The protocol of the effects\<close>

text \<open>
  A child may be spawned when there is none and the one before it, if any, was joined and cleaned up at
  least the minimal delay ago. \<open>Some\<close> of the state after a log, \<open>None\<close> if the log breaks the protocol.
\<close>

datatype sup_protocol = Fresh | Alive | Ended instant | Clean instant

fun protocol_step :: "sup_protocol option \<Rightarrow> sup_effect \<Rightarrow> sup_protocol option" where
  "protocol_step (Some Fresh) (EffSpawn t) = Some Alive"
| "protocol_step (Some (Clean t0)) (EffSpawn t) = (if t0 + MIN_DELAY \<le> t then Some Alive else None)"
| "protocol_step (Some Alive) (EffJoined r t) = Some (Ended t)"
| "protocol_step (Some (Ended t)) EffCleanup = Some (Clean t)"
| "protocol_step _ _ = None"

definition protocol :: "sup_effect list \<Rightarrow> sup_protocol option" where
  "protocol es = foldl protocol_step (Some Fresh) es"

lemma protocol_emit: "protocol (sv_log (sv_emit e s)) = protocol_step (protocol (sv_log s)) e"
  by (simp add: protocol_def sv_emit_def)

lemma sv_emit_fields [simp]:
  "sv_pc (sv_emit e s) = sv_pc s" "sv_cancelled (sv_emit e s) = sv_cancelled s"
  "sv_child (sv_emit e s) = sv_child s" "sv_phase (sv_emit e s) = sv_phase s"
  "sv_recovery (sv_emit e s) = sv_recovery s" "sv_now (sv_emit e s) = sv_now s"
  by (simp_all add: sv_emit_def)

text \<open>The invariant, by the place the loop is at.\<close>

definition sup_inv :: "supervisor \<Rightarrow> bool" where
  "sup_inv s \<longleftrightarrow> recovery_ok (sv_recovery s) \<and>
     (case sv_pc s of
        PcTop \<Rightarrow> sv_child s = NoChild \<and>
          (protocol (sv_log s) = Some Fresh \<or> (\<exists>t. protocol (sv_log s) = Some (Clean t) \<and> t + MIN_DELAY \<le> sv_now s))
      | PcSelect \<Rightarrow> sv_child s \<noteq> NoChild \<and> protocol (sv_log s) = Some Alive
      | PcJoining \<Rightarrow> sv_child s \<noteq> NoChild \<and> protocol (sv_log s) = Some Alive \<and> sv_cancelled s
      | PcCleanup d \<Rightarrow> sv_child s = NoChild \<and> sv_phase s = PhFailed \<and> MIN_DELAY \<le> d \<and>
          (\<exists>t. protocol (sv_log s) = Some (Ended t) \<and> t \<le> sv_now s)
      | PcSleeping u \<Rightarrow> sv_child s = NoChild \<and> sv_phase s = PhFailed \<and>
          (\<exists>t. protocol (sv_log s) = Some (Clean t) \<and> t + MIN_DELAY \<le> u)
      | PcExit \<Rightarrow> sv_child s = NoChild \<and> sv_cancelled s \<and> protocol (sv_log s) \<notin> {None, Some Alive}
      | PcDone \<Rightarrow> sv_child s = NoChild \<and> sv_cancelled s \<and> sv_phase s = PhStopped \<and> protocol (sv_log s) \<notin> {None, Some Alive})"

lemma sup_inv_init: "sup_inv (sup_init config now)"
  by (simp add: sup_inv_def sup_init_def recovery_new_ok protocol_def)

lemma sup_inv_env: "sup_inv s \<Longrightarrow> env_step s s' \<Longrightarrow> sup_inv s'"
proof (erule env_stepE, goal_cases)
  case (4 x)
  then have "recovery_ok (observe (sv_recovery s) x)"
    by (cases x) (simp_all add: sup_inv_def on_failure_ok on_success_ok)
  with 4 show ?case by (auto simp: sup_inv_def split: sup_pc.splits)
qed (auto simp: sup_inv_def split: sup_pc.splits)

lemma sup_inv_prog: "sup_inv s \<Longrightarrow> prog_step s s' \<Longrightarrow> sup_inv s'"
proof (erule prog_stepE, goal_cases)
  case (4 r)
  then have "recovery_ok (sv_recovery s)" "protocol (sv_log s) = Some Alive" by (simp_all add: sup_inv_def)
  with 4 on_failure_ok [of "sv_recovery s" "sv_now s"] on_failure_delay [of "sv_recovery s" "sv_now s"]
  show ?case
    by (auto simp: sup_inv_def unexpected_def Let_def case_prod_beta protocol_emit)
next
  case (5 r)
  then show ?case by (auto simp: sup_inv_def joined_def Let_def protocol_emit)
next
  case (6 d)
  then show ?case by (force simp: sup_inv_def protocol_emit)
qed (auto simp: sup_inv_def protocol_emit)

lemma sup_reachable_inv: "sup_reachable config s \<Longrightarrow> sup_inv s"
  by (induction rule: sup_reachable.induct) (blast intro: sup_inv_init sup_inv_prog sup_inv_env)+

section \<open>Shutdown\<close>

text \<open>How many program steps a cancelled supervisor has left at most.\<close>

fun sup_rank :: "sup_pc \<Rightarrow> nat" where
  "sup_rank PcSelect = 5"
| "sup_rank (PcCleanup d) = 4"
| "sup_rank (PcSleeping u) = 3"
| "sup_rank PcTop = 2"
| "sup_rank PcJoining = 2"
| "sup_rank PcExit = 1"
| "sup_rank PcDone = 0"

lemma prog_step_cancelled:
  assumes "prog_step s s'" "sv_cancelled s"
  shows "sv_cancelled s' \<and> sup_rank (sv_pc s') < sup_rank (sv_pc s)"
  using assms
proof (elim prog_stepE, goal_cases)
  case (4 r)
  then show ?case by (simp add: unexpected_def Let_def case_prod_beta)
next
  case (5 r)
  then show ?case by (simp add: joined_def Let_def)
qed auto

text \<open>A run with \<open>n\<close> program steps, interleaved with the environment in any way.\<close>

inductive sup_run :: "nat \<Rightarrow> supervisor \<Rightarrow> supervisor \<Rightarrow> bool" where
  run_none: "sup_run 0 s s"
| run_prog: "sup_run n s t \<Longrightarrow> prog_step t u \<Longrightarrow> sup_run (Suc n) s u"
| run_env: "sup_run n s t \<Longrightarrow> env_step t u \<Longrightarrow> sup_run n s u"

lemma env_step_cancelled:
  "env_step s s' \<Longrightarrow> sv_cancelled s \<Longrightarrow> sv_cancelled s' \<and> sv_pc s' = sv_pc s"
  by (elim env_stepE) simp_all

lemma sup_run_bounded:
  assumes "sup_run n s s'" "sv_cancelled s"
  shows "sv_cancelled s' \<and> n + sup_rank (sv_pc s') \<le> sup_rank (sv_pc s)"
  using assms
proof (induction rule: sup_run.induct)
  case (run_prog n s t u)
  then show ?case using prog_step_cancelled [of t u] by fastforce
next
  case (run_env n s t u)
  then show ?case using env_step_cancelled [of t u] by fastforce
qed simp

lemma sup_run_reachable: "sup_run n s s' \<Longrightarrow> sup_reachable config s \<Longrightarrow> sup_reachable config s'"
  by (induction rule: sup_run.induct) (auto intro: sup_reachable.reach_prog sup_reachable.reach_env)

lemma prog_step_enabled:
  assumes "sup_inv s" "sv_cancelled s" "sv_pc s \<noteq> PcDone" "sv_child s \<noteq> ChildRunning"
  shows "\<exists>s'. prog_step s s'"
proof (cases "sv_pc s")
  case PcSelect
  then show ?thesis using assms(2) by (blast intro: prog_step.select_shutdown)
next
  case PcJoining
  with assms obtain r where "sv_child s = ChildFinished r" by (cases "sv_child s") (auto simp: sup_inv_def)
  with PcJoining show ?thesis by (blast intro: prog_step.join_child)
qed (use assms in \<open>auto intro: prog_step.intros\<close>)

text \<open>A program step never makes a child run, once the token is cancelled.\<close>

lemma prog_step_child:
  assumes "prog_step s s'" "sv_cancelled s" "sv_child s \<noteq> ChildRunning"
  shows "sv_child s' \<noteq> ChildRunning"
  using assms
proof (elim prog_stepE, goal_cases)
  case (4 r)
  then show ?case by (simp add: unexpected_def Let_def case_prod_beta)
next
  case (5 r)
  then show ?case by (simp add: joined_def Let_def)
qed auto

end
