(* ===== verification/Naa_Frame.thy ===== *)
theory Naa_Frame
  imports Uhc_Prelude
begin

unbundle bit_operations_syntax

text \<open>
  The audio frames of the network audio relay (\<open>src/src/adapters/hqplayer/naa/frame.rs\<close>): a header of
  32 bytes that announces the lengths of the sections PCM, POS, META and PIC, and the rewriting that adds
  text and artwork to a frame. A byte is a \<open>u8\<close>, a string is its UTF-8 bytes.

  A slice out of range panics; the sum of the lengths wraps, as in the release profile.
\<close>

section \<open>Bytes\<close>

definition bytes_of :: "string \<Rightarrow> u8 list" where
  "bytes_of s = map (\<lambda>c. word_of_nat (of_char c)) s"

definition u32_from_le :: "u8 list \<Rightarrow> u32" where
  "u32_from_le bs = word_of_nat (unat (bs ! 0) + 256 * unat (bs ! 1) + 65536 * unat (bs ! 2) + 16777216 * unat (bs ! 3))"

definition u32_to_le :: "u32 \<Rightarrow> u8 list" where
  "u32_to_le w = map (\<lambda>i. word_of_nat (unat w div 256 ^ i)) [0, 1, 2, 3]"

lemma length_u32_to_le [simp]: "length (u32_to_le w) = 4"
  by (simp add: u32_to_le_def)

lemma base_256: "(n :: nat) = n mod 256 + 256 * (n div 256)"
  by simp

lemma u32_le_roundtrip [simp]: "u32_from_le (u32_to_le w) = w"
proof -
  let ?n = "unat w"
  have "?n < 2 ^ 32" using unsigned_less [of w] by simp
  then have "?n div 256 div 256 div 256 < 256" by (simp add: div_mult2_eq [symmetric] less_mult_imp_div_less)
  then have "?n div 256 div 256 div 256 mod 256 = ?n div 256 div 256 div 256" by simp
  then have e: "?n = ?n mod 256 + 256 * (?n div 256 mod 256) + 65536 * (?n div 256 div 256 mod 256) +
      16777216 * (?n div 256 div 256 div 256 mod 256)"
    using base_256 [of ?n] base_256 [of "?n div 256"] base_256 [of "?n div 256 div 256"] by linarith
  have d: "?n div 65536 = ?n div 256 div 256" "?n div 16777216 = ?n div 256 div 256 div 256"
    by (simp_all add: div_mult2_eq [symmetric])
  have m: "unat (word_of_nat k :: u8) = k mod 256" for k by (simp add: unat_of_nat)
  have "unat (word_of_nat ?n :: u8) + 256 * unat (word_of_nat (?n div 256) :: u8) +
      65536 * unat (word_of_nat (?n div 65536) :: u8) + 16777216 * unat (word_of_nat (?n div 16777216) :: u8) = ?n"
    unfolding m d by (rule e [symmetric])
  then have "word_of_nat (unat (word_of_nat ?n :: u8) + 256 * unat (word_of_nat (?n div 256) :: u8) +
      65536 * unat (word_of_nat (?n div 65536) :: u8) + 16777216 * unat (word_of_nat (?n div 16777216) :: u8)) = w"
    by (simp only:) simp
  then show ?thesis by (simp add: u32_from_le_def u32_to_le_def)
qed

text \<open>\<open>copy_from_slice\<close> into a range of the header.\<close>

definition put_bytes :: "nat \<Rightarrow> u8 list \<Rightarrow> u8 list \<Rightarrow> u8 list" where
  "put_bytes i bs h = take i h @ bs @ drop (i + length bs) h"

definition read_u32 :: "u8 list \<Rightarrow> nat \<Rightarrow> u32" where
  "read_u32 h i = u32_from_le (take 4 (drop i h))"

lemma length_put_bytes [simp]: "i + length bs \<le> length h \<Longrightarrow> length (put_bytes i bs h) = length h"
  by (simp add: put_bytes_def)

lemma read_put_same [simp]:
  "i + 4 \<le> length h \<Longrightarrow> read_u32 (put_bytes i (u32_to_le w) h) i = w"
  by (simp add: read_u32_def put_bytes_def)

lemma read_put_other [simp]:
  assumes "i + 4 \<le> length h" "j + 4 \<le> i \<or> i + 4 \<le> j" "j + 4 \<le> length h"
  shows "read_u32 (put_bytes i (u32_to_le w) h) j = read_u32 h j"
proof (cases "j + 4 \<le> i")
  case True
  then have "take 4 (drop j (put_bytes i (u32_to_le w) h)) = take 4 (drop j (take i h))"
    using assms(1) by (simp add: put_bytes_def)
  also have "\<dots> = take 4 (drop j h)" using True by (simp add: drop_take min_def)
  finally show ?thesis by (simp add: read_u32_def)
next
  case False
  then have "drop j (put_bytes i (u32_to_le w) h) = drop (j - (i + 4)) (drop (i + 4) h)"
    using assms by (simp add: put_bytes_def)
  with False assms(2) show ?thesis by (simp add: read_u32_def)
qed

section \<open>The frame\<close>

definition TYPE_META :: u32 where
  "TYPE_META = 0x08"

definition TYPE_PIC :: u32 where
  "TYPE_PIC = 0x10"

record metadata_payload =
  mp_title :: string
  mp_artist :: string
  mp_album :: string
  mp_picture :: "u8 list option"

definition escape_line :: "string \<Rightarrow> string" where
  "escape_line s = map (\<lambda>c. if c = CHR 0x0A \<or> c = CHR 0x0D then CHR '' '' else c) s"

definition metadata_section :: "metadata_payload \<Rightarrow> u8 list" where
  "metadata_section m =
     bytes_of (''[metadata]'' @ [CHR 0x0A] @ ''song='' @ escape_line (mp_title m) @ [CHR 0x0A] @
       ''artist='' @ escape_line (mp_artist m) @ [CHR 0x0A] @
       ''album='' @ escape_line (mp_album m) @ [CHR 0x0A]) @ [0]"

definition has_prefix :: "u8 list \<Rightarrow> u8 list \<Rightarrow> bool" where
  "has_prefix p bs \<longleftrightarrow> take (length p) bs = p"

definition is_url_picture :: "u8 list \<Rightarrow> bool" where
  "is_url_picture p \<longleftrightarrow> has_prefix (bytes_of ''http://'') p \<or> has_prefix (bytes_of ''https://'') p"

definition picture_refresh_due :: "u8 list option \<Rightarrow> nat \<Rightarrow> bool" where
  "picture_refresh_due picture elapsed_ns \<longleftrightarrow>
     (case picture of None \<Rightarrow> False | Some p \<Rightarrow> is_url_picture p) \<and> elapsed_ns \<ge> 2000000000"

definition picture_selector :: "u8 list \<Rightarrow> u32" where
  "picture_selector p =
     (if is_url_picture p then 1
      else if has_prefix [255, 216, 255] p then 2
      else if has_prefix [0x89, 0x50, 0x4E, 0x47, 0x0D, 0x0A, 0x1A, 0x0A] p then 3
      else 0)"

datatype 'a naa_result = NaaOk 'a | NaaErr string | NaaPanic

definition checked_mul_usize :: "nat \<Rightarrow> nat \<Rightarrow> nat option" where
  "checked_mul_usize a b = (if a * b < 2 ^ 64 then Some (a * b) else None)"

text \<open>\<open>&body[at..at + len]\<close>\<close>

definition slice_of :: "u8 list \<Rightarrow> nat \<Rightarrow> nat \<Rightarrow> u8 list option" where
  "slice_of body i len = (if i + len \<le> length body then Some (take len (drop i body)) else None)"

text \<open>The header and the body after the rewriting; an error leaves the header as it was.\<close>

definition rewrite_mask :: "u32 \<Rightarrow> u8 list \<Rightarrow> u8 list \<Rightarrow> u32" where
  "rewrite_mask m0 old_pic picture =
     (let m1 = m0 OR TYPE_META;
          m2 = (if picture = [] then m1 AND NOT TYPE_PIC else m1 OR TYPE_PIC)
      in if old_pic = [] \<and> picture \<noteq> []
         then (m2 AND 0x00ffffff) OR push_bit 24 (picture_selector picture) else m2)"

definition rewrite_sections ::
  "u8 list \<Rightarrow> u8 list \<Rightarrow> metadata_payload option \<Rightarrow> nat \<Rightarrow> (u8 list \<times> u8 list) naa_result" where
  "rewrite_sections header body metadata sample_bytes =
     (case metadata of
        None \<Rightarrow> NaaOk (header, body)
      | Some m \<Rightarrow>
          (case checked_mul_usize (unat (read_u32 header 4)) sample_bytes of
             None \<Rightarrow> NaaErr ''PCM length overflow''
           | Some l0 \<Rightarrow>
               let l1 = unat (read_u32 header 8); l2 = unat (read_u32 header 12);
                   l3 = unat (read_u32 header 16)
               in if (l0 + l1 + l2 + l3) mod 2 ^ 64 \<noteq> length body
                  then NaaErr ''NAA frame section lengths do not match body''
                  else
                    (case (slice_of body 0 l0, slice_of body l0 l1, slice_of body (l0 + l1) l2) of
                       (Some pcm, Some pos, Some old_meta) \<Rightarrow>
                         let old_pic = drop (l0 + l1 + l2) body;
                             meta = (if old_meta = [] then metadata_section m else old_meta);
                             picture = (if old_pic = [] then (case mp_picture m of None \<Rightarrow> old_pic | Some p \<Rightarrow> p)
                                        else old_pic);
                             new_mask = rewrite_mask (read_u32 header 0) old_pic picture;
                             h1 = put_bytes 0 (u32_to_le new_mask) header;
                             h2 = put_bytes 12 (u32_to_le (word_of_nat (length meta))) h1;
                             h3 = put_bytes 16 (u32_to_le (word_of_nat (length picture))) h2
                         in NaaOk (h3, pcm @ pos @ meta @ picture)
                     | _ \<Rightarrow> NaaPanic)))"

section \<open>The sections of a frame\<close>

text \<open>What a receiver reads from a frame: the four sections, if the header fits the body.\<close>

definition sections :: "u8 list \<Rightarrow> u8 list \<Rightarrow> nat \<Rightarrow> (u8 list \<times> u8 list \<times> u8 list \<times> u8 list) option" where
  "sections h body width =
     (let l0 = unat (read_u32 h 4) * width; l1 = unat (read_u32 h 8); l2 = unat (read_u32 h 12);
          l3 = unat (read_u32 h 16)
      in if length h = 32 \<and> l0 + l1 + l2 + l3 = length body
         then Some (take l0 body, take l1 (drop l0 body), take l2 (drop (l0 + l1) body), drop (l0 + l1 + l2) body)
         else None)"

lemma sections_body: "sections h body w = Some (a, b, c, d) \<Longrightarrow> body = a @ b @ c @ d"
  by (auto simp: sections_def Let_def split: if_splits)
    (metis append_take_drop_id drop_drop add.commute append.assoc)

lemma metadata_section_nonempty [simp]: "metadata_section m \<noteq> []"
  by (simp add: metadata_section_def)

text \<open>The text and the artwork a rewriting leaves in a frame.\<close>

definition new_meta :: "metadata_payload \<Rightarrow> u8 list \<Rightarrow> u8 list" where
  "new_meta m old = (if old = [] then metadata_section m else old)"

definition new_picture :: "metadata_payload \<Rightarrow> u8 list \<Rightarrow> u8 list" where
  "new_picture m old = (if old = [] then (case mp_picture m of None \<Rightarrow> [] | Some p \<Rightarrow> p) else old)"

lemma rewrite_eq:
  assumes s: "sections h body w = Some (pcm, pos, meta, pic)" and len: "length body < 2 ^ 64"
  shows "rewrite_sections h body (Some m) w =
    NaaOk (put_bytes 16 (u32_to_le (word_of_nat (length (new_picture m pic))))
        (put_bytes 12 (u32_to_le (word_of_nat (length (new_meta m meta))))
          (put_bytes 0 (u32_to_le (rewrite_mask (read_u32 h 0) pic (new_picture m pic))) h)),
      pcm @ pos @ new_meta m meta @ new_picture m pic)"
proof -
  let ?l0 = "unat (read_u32 h 4) * w" and ?l1 = "unat (read_u32 h 8)" and ?l2 = "unat (read_u32 h 12)"
    and ?l3 = "unat (read_u32 h 16)"
  have l: "?l0 + ?l1 + ?l2 + ?l3 = length body" and
    parts: "pcm = take ?l0 body" "pos = take ?l1 (drop ?l0 body)" "meta = take ?l2 (drop (?l0 + ?l1) body)"
      "pic = drop (?l0 + ?l1 + ?l2) body"
    using s by (auto simp: sections_def Let_def split: if_splits)
  have "checked_mul_usize (unat (read_u32 h 4)) w = Some ?l0" "(?l0 + ?l1 + ?l2 + ?l3) mod 2 ^ 64 = length body"
    using l len by (simp_all add: checked_mul_usize_def)
  moreover have "slice_of body 0 ?l0 = Some pcm" "slice_of body ?l0 ?l1 = Some pos"
    "slice_of body (?l0 + ?l1) ?l2 = Some meta"
    using l parts by (simp_all add: slice_of_def)
  moreover have "new_picture m pic = (if pic = [] then (case mp_picture m of None \<Rightarrow> pic | Some p \<Rightarrow> p) else pic)"
    by (simp add: new_picture_def split: option.split)
  ultimately show ?thesis
    by (simp add: rewrite_sections_def Let_def parts(4) [symmetric] new_meta_def)
qed

lemma read_header [simp]:
  assumes "length h = 32"
  shows "read_u32 (put_bytes 16 (u32_to_le c) (put_bytes 12 (u32_to_le b) (put_bytes 0 (u32_to_le a) h))) 4 = read_u32 h 4"
    "read_u32 (put_bytes 16 (u32_to_le c) (put_bytes 12 (u32_to_le b) (put_bytes 0 (u32_to_le a) h))) 8 = read_u32 h 8"
    "read_u32 (put_bytes 16 (u32_to_le c) (put_bytes 12 (u32_to_le b) (put_bytes 0 (u32_to_le a) h))) 12 = b"
    "read_u32 (put_bytes 16 (u32_to_le c) (put_bytes 12 (u32_to_le b) (put_bytes 0 (u32_to_le a) h))) 16 = c"
    "read_u32 (put_bytes 16 (u32_to_le c) (put_bytes 12 (u32_to_le b) (put_bytes 0 (u32_to_le a) h))) 0 = a"
  using assms by simp_all

text \<open>A rewritten frame is a frame: its sections are the old audio and the new text and artwork.\<close>

lemma rewritten_sections:
  assumes s: "sections h body w = Some (pcm, pos, meta, pic)" and "length body < 2 ^ 64"
    and small: "length (new_meta m meta) < 2 ^ 32" "length (new_picture m pic) < 2 ^ 32"
  obtains h' body' where "rewrite_sections h body (Some m) w = NaaOk (h', body')"
    "sections h' body' w = Some (pcm, pos, new_meta m meta, new_picture m pic)"
    "read_u32 h' 0 = rewrite_mask (read_u32 h 0) pic (new_picture m pic)"
proof -
  let ?h = "put_bytes 16 (u32_to_le (word_of_nat (length (new_picture m pic))))
        (put_bytes 12 (u32_to_le (word_of_nat (length (new_meta m meta))))
          (put_bytes 0 (u32_to_le (rewrite_mask (read_u32 h 0) pic (new_picture m pic))) h))"
  have h: "length h = 32" and l: "length pcm = unat (read_u32 h 4) * w" "length pos = unat (read_u32 h 8)"
    using s by (auto simp: sections_def Let_def split: if_splits)
  have "unat (word_of_nat (length (new_picture m pic)) :: u32) = length (new_picture m pic)"
    "unat (word_of_nat (length (new_meta m meta)) :: u32) = length (new_meta m meta)"
    using small by (simp_all add: unat_of_nat)
  with h have "sections ?h (pcm @ pos @ new_meta m meta @ new_picture m pic) w =
      Some (pcm, pos, new_meta m meta, new_picture m pic)"
    unfolding sections_def Let_def read_header [OF h] l [symmetric] by simp
  with that [OF rewrite_eq [OF s assms(2)]] h show thesis by simp
qed

lemma type_bits [simp]:
  "bit TYPE_META n \<longleftrightarrow> n = 3" "bit TYPE_PIC n \<longleftrightarrow> n = 4" "bit (0x00ffffff :: u32) n \<longleftrightarrow> n < 24"
proof -
  have m: "TYPE_META = 2 ^ 3" "TYPE_PIC = 2 ^ 4" "(0x00ffffff :: u32) = mask 24"
    by (simp_all add: TYPE_META_def TYPE_PIC_def mask_eq_exp_minus_1)
  show "bit TYPE_META n \<longleftrightarrow> n = 3" "bit TYPE_PIC n \<longleftrightarrow> n = 4" "bit (0x00ffffff :: u32) n \<longleftrightarrow> n < 24"
    unfolding m bit_exp_iff bit_mask_iff by auto
qed

lemma rewrite_mask_again:
  "rewrite_mask (rewrite_mask k pic p) p p = rewrite_mask k pic p"
  unfolding rewrite_mask_def Let_def by (auto intro!: bit_word_eqI simp: bit_simps)

lemma new_again [simp]:
  "new_meta m (new_meta m x) = new_meta m x"
  "new_picture m (new_picture m y) = new_picture m y"
  by (simp_all add: new_meta_def new_picture_def split: option.split)

text \<open>The flag bits say what is there.\<close>

lemma rewrite_mask_flags:
  "bit (rewrite_mask k pic p) 3"
  "bit (rewrite_mask k pic p) 4 \<longleftrightarrow> p \<noteq> []"
  unfolding rewrite_mask_def Let_def by (auto simp: bit_simps)

text \<open>With a sample width the protocol allows, no rewriting panics, and it succeeds exactly on frames.\<close>

lemma rewrite_total:
  assumes "w \<le> 2 ^ 31" "length h = 32" "length body < 2 ^ 64"
  shows "rewrite_sections h body (Some m) w =
      NaaErr ''NAA frame section lengths do not match body'' \<and> sections h body w = None \<or>
    (\<exists>r. rewrite_sections h body (Some m) w = NaaOk r) \<and> sections h body w \<noteq> None"
proof -
  let ?l0 = "unat (read_u32 h 4) * w" and ?l1 = "unat (read_u32 h 8)" and ?l2 = "unat (read_u32 h 12)"
    and ?l3 = "unat (read_u32 h 16)"
  have b: "unat (read_u32 h i) < 2 ^ 32" for i using unsigned_less [of "read_u32 h i"] by simp
  have "?l0 \<le> 2 ^ 32 * 2 ^ 31" using b [of 4] assms(1) by (intro mult_le_mono) simp_all
  then have lt: "?l0 < 2 ^ 64" "?l0 + ?l1 + ?l2 + ?l3 < 2 ^ 64" using b [of 8] b [of 12] b [of 16] by simp_all
  show ?thesis
  proof (cases "?l0 + ?l1 + ?l2 + ?l3 = length body")
    case True
    then have "sections h body w \<noteq> None" using assms(2) by (simp add: sections_def Let_def)
    then obtain a b c d where s: "sections h body w = Some (a, b, c, d)" by (metis not_None_eq prod_cases4)
    from rewrite_eq [OF this assms(3)] s show ?thesis by simp
  next
    case False
    then have "sections h body w = None" by (simp add: sections_def Let_def)
    with False lt show ?thesis
      by (simp add: rewrite_sections_def checked_mul_usize_def Let_def)
  qed
qed

end
