(* ===== verification/Naa_Protocol.thy ===== *)
theory Naa_Protocol
  imports Naa_Frame
begin

text \<open>
  The relay's wire protocol (\<open>src/src/adapters/hqplayer/naa/protocol.rs\<close>): telling a control line from a
  binary record, reading a line, splicing edits into a line, and forwarding an audio record with the
  metadata of the relay. A reader is the list of bytes, or of buffered chunks, that arrive before the
  record's deadline; a read past its end fails, whether by a timeout or by the end of the stream. The XML
  of the control lines is parsed by a third-party crate and has no model.
\<close>

section \<open>Classifying a record\<close>

definition CONTROL_LIMIT :: nat where
  "CONTROL_LIMIT = 65536"

definition FRAME_LIMIT :: nat where
  "FRAME_LIMIT = 8 * 1024 * 1024"

definition HEADER_LEN :: nat where
  "HEADER_LEN = 32"

definition PROBE :: nat where
  "PROBE = 16"

definition ROOTS :: "u8 list list" where
  "ROOTS = [bytes_of ''<networkaudio'', bytes_of ''<authenticate'', bytes_of ''<?xml'']"

definition is_control :: "u8 list \<Rightarrow> bool" where
  "is_control prefix \<longleftrightarrow> list_ex (\<lambda>root. has_prefix root prefix) ROOTS"

text \<open>The classification, the bytes read for it, and the rest of the stream.\<close>

fun probe :: "u8 list \<Rightarrow> u8 list \<Rightarrow> (bool \<times> u8 list \<times> u8 list) option" where
  "probe prefix [] = None"
| "probe prefix (b # bs) =
     (let p = prefix @ [b] in
      if is_control p then Some (True, p, bs)
      else if \<not> list_ex (\<lambda>root. has_prefix p root) ROOTS then Some (False, p, bs)
      else probe p bs)"

text \<open>\<open>record[..prefix.len()].copy_from_slice(prefix)\<close> panics if the prefix is longer than the record.\<close>

datatype 'a read_result = ReadOk 'a | ReadFailed string | ReadPanic

definition binary :: "u8 list \<Rightarrow> nat \<Rightarrow> u8 list \<Rightarrow> (u8 list \<times> u8 list) read_result" where
  "binary prefix len bs =
     (if length prefix > len then ReadPanic
      else if length bs < len - length prefix then ReadFailed ''unexpected end of file''
      else ReadOk (prefix @ take (len - length prefix) bs, drop (len - length prefix) bs))"

text \<open>The chunks are what \<open>fill_buf\<close> returns; what a line leaves of its last chunk stays in the buffer.\<close>

fun first_index :: "u8 \<Rightarrow> u8 list \<Rightarrow> nat option" where
  "first_index b [] = None"
| "first_index b (x # xs) = (if x = b then Some 0 else map_option Suc (first_index b xs))"

fun line_loop :: "u8 list \<Rightarrow> u8 list list \<Rightarrow> (u8 list \<times> u8 list list) read_result" where
  "line_loop out [] = ReadFailed ''unexpected end of file''"
| "line_loop out (buf # bufs) =
     (let (chunk, done) = (case first_index 10 buf of Some i \<Rightarrow> (take (Suc i) buf, True) | None \<Rightarrow> (buf, False))
      in if length out + length chunk > CONTROL_LIMIT then ReadFailed ''control line exceeds 64 KiB''
         else if done then ReadOk (out @ chunk, drop (length chunk) buf # bufs)
         else line_loop (out @ chunk) bufs)"

lemma has_prefix_iff: "has_prefix p bs \<longleftrightarrow> (\<exists>r. bs = p @ r)"
  by (metis append_eq_conv_conj append_take_drop_id has_prefix_def)

text \<open>What the probe has read so far and could still become a root.\<close>

definition undecided :: "u8 list \<Rightarrow> bool" where
  "undecided p \<longleftrightarrow> \<not> is_control p \<and> list_ex (\<lambda>root. has_prefix p root) ROOTS"

lemma undecided_short: "undecided p \<Longrightarrow> length p < 13"
proof -
  assume u: "undecided p"
  then obtain root where r: "root \<in> set ROOTS" "has_prefix p root" by (auto simp: undecided_def list_ex_iff)
  then obtain q where q: "root = p @ q" by (auto simp: has_prefix_iff)
  have "q \<noteq> []" using u r(1) q by (auto simp: undecided_def is_control_def list_ex_iff has_prefix_iff)
  moreover have "length root \<le> 13" using r(1) by (auto simp: ROOTS_def bytes_of_def)
  ultimately show ?thesis using q by (cases q) simp_all
qed

lemma undecided_Nil: "undecided []"
  by (auto simp: undecided_def is_control_def ROOTS_def has_prefix_def bytes_of_def)

lemma probe_result:
  assumes "undecided prefix" "probe prefix bs = Some (c, p, rest)"
  shows "p @ rest = prefix @ bs \<and> c = is_control p \<and> length p \<le> 13 \<and>
    (\<not> c \<longrightarrow> \<not> list_ex (\<lambda>root. has_prefix p root) ROOTS) \<and> undecided (butlast p)"
  using assms
proof (induction prefix bs rule: probe.induct)
  case (2 prefix b bs)
  have l: "length (prefix @ [b]) \<le> 13" using undecided_short [OF "2.prems"(1)] by simp
  show ?case
  proof (cases "undecided (prefix @ [b])")
    case True
    then show ?thesis using 2 by (simp add: undecided_def)
  next
    case False
    then show ?thesis using "2.prems" l by (auto simp: undecided_def Let_def split: if_splits)
  qed
qed simp

text \<open>A stream that starts with a root is classified as control, with exactly a root read.\<close>

lemma prefixes_comparable:
  "has_prefix p bs \<Longrightarrow> has_prefix q bs \<Longrightarrow> length p \<le> length q \<Longrightarrow> has_prefix p q"
  unfolding has_prefix_def by (metis min.absorb1 take_take)

lemma has_prefix_append: "has_prefix p bs \<Longrightarrow> has_prefix p (bs @ cs)"
  by (auto simp: has_prefix_iff)

lemma probe_some:
  assumes "undecided prefix" "13 \<le> length (prefix @ bs)"
  shows "\<exists>c p rest. probe prefix bs = Some (c, p, rest)"
  using assms
proof (induction prefix bs rule: probe.induct)
  case (1 prefix)
  then show ?case using undecided_short by fastforce
next
  case (2 prefix b bs)
  show ?case
  proof (cases "undecided (prefix @ [b])")
    case True
    then show ?thesis using 2 by (simp add: undecided_def)
  next
    case False
    then show ?thesis using 2 by (auto simp: undecided_def Let_def)
  qed
qed

lemma probe_control_iff:
  assumes "probe [] bs = Some (c, p, rest)"
  shows "c \<longleftrightarrow> is_control bs" "c \<Longrightarrow> p \<in> set ROOTS"
proof -
  note r = probe_result [OF undecided_Nil assms]
  then have bs: "bs = p @ rest" by simp
  show iff: "c \<longleftrightarrow> is_control bs"
  proof
    assume c
    with r have "is_control p" by simp
    then show "is_control bs" unfolding bs by (auto simp: is_control_def list_ex_iff intro: has_prefix_append)
  next
    assume "is_control bs"
    then obtain root where root: "root \<in> set ROOTS" "has_prefix root bs"
      by (auto simp: is_control_def list_ex_iff)
    show c
    proof (rule ccontr)
      assume "\<not> c"
      with r have n: "\<not> is_control p" "\<not> list_ex (\<lambda>root. has_prefix p root) ROOTS" by simp_all
      have p: "has_prefix p bs" using bs by (auto simp: has_prefix_iff)
      show False
      proof (cases "length root \<le> length p")
        case True
        with prefixes_comparable [OF root(2) p] root(1) n(1) show False
          by (auto simp: is_control_def list_ex_iff)
      next
        case False
        with prefixes_comparable [OF p root(2)] root(1) n(2) show False by (auto simp: list_ex_iff)
      qed
    qed
  qed
  assume c
  with r have "is_control p" "undecided (butlast p)" by simp_all
  then obtain root where root: "root \<in> set ROOTS" "has_prefix root p" by (auto simp: is_control_def list_ex_iff)
  then obtain q where q: "p = root @ q" by (auto simp: has_prefix_iff)
  show "p \<in> set ROOTS"
  proof (cases q rule: rev_cases)
    case Nil
    with q root show ?thesis by simp
  next
    case (snoc q' x)
    then have "butlast p = root @ q'" using q by (simp add: butlast_append)
    then have "is_control (butlast p)" using root(1) by (auto simp: is_control_def list_ex_iff has_prefix_iff)
    with \<open>undecided (butlast p)\<close> show ?thesis by (simp add: undecided_def)
  qed
qed

text \<open>A binary record of 16 or 32 bytes is longer than any probe: reading it never panics.\<close>

lemma binary_no_panic:
  assumes "probe [] bs = Some (c, p, rest)" "PROBE \<le> len"
  shows "binary p len rest = (if length bs < len then ReadFailed ''unexpected end of file''
    else ReadOk (take len bs, drop len bs))"
proof -
  note r = probe_result [OF undecided_Nil assms(1)]
  then have bs: "bs = p @ rest" and l: "length p \<le> len" using assms(2) by (simp_all add: PROBE_def)
  show ?thesis using l by (auto simp: binary_def bs)
qed

section \<open>Lines\<close>

lemma first_index_Some:
  "first_index b xs = Some i \<Longrightarrow> i < length xs \<and> xs ! i = b \<and> b \<notin> set (take i xs)"
  by (induction xs arbitrary: i) (auto split: if_splits)

lemma first_index_None: "first_index b xs = None \<longleftrightarrow> b \<notin> set xs"
  by (induction xs) auto

lemma first_index_append:
  "first_index b (xs @ ys) =
     (case first_index b xs of Some i \<Rightarrow> Some i | None \<Rightarrow> map_option (\<lambda>i. length xs + i) (first_index b ys))"
  by (induction xs; cases "first_index b ys") (auto split: option.split)

text \<open>How the reads were buffered does not matter: a line is read if and only if it ends within the limit.\<close>

lemma line_loop_spec:
  "(case line_loop out bufs of
      ReadOk (l, rest) \<Rightarrow> (\<exists>i. first_index 10 (concat bufs) = Some i \<and>
        l = out @ take (Suc i) (concat bufs) \<and> concat rest = drop (Suc i) (concat bufs) \<and>
        length out + Suc i \<le> CONTROL_LIMIT)
    | ReadFailed _ \<Rightarrow> (case first_index 10 (concat bufs) of
        Some i \<Rightarrow> CONTROL_LIMIT < length out + Suc i | None \<Rightarrow> True)
    | ReadPanic \<Rightarrow> False)"
proof (induction out bufs rule: line_loop.induct)
  case (2 out buf bufs)
  show ?case
  proof (cases "first_index 10 buf")
    case (Some i)
    then have "i < length buf" using first_index_Some by blast
    then have "length (take (Suc i) buf) = Suc i" "take (Suc i) (buf @ concat bufs) = take (Suc i) buf"
      "drop (Suc i) (buf @ concat bufs) = drop (Suc i) buf @ concat bufs"
      by simp_all
    with Some show ?thesis by (auto simp: first_index_append Let_def)
  next
    case None
    show ?thesis
    proof (cases "length out + length buf > CONTROL_LIMIT")
      case True
      with None show ?thesis by (auto simp: first_index_append Let_def split: option.split)
    next
      case False
      with None have e: "line_loop out (buf # bufs) = line_loop (out @ buf) bufs" by (simp add: Let_def)
      have "case line_loop (out @ buf) bufs of
          ReadOk (l, rest) \<Rightarrow> (\<exists>i. first_index 10 (concat bufs) = Some i \<and>
            l = (out @ buf) @ take (Suc i) (concat bufs) \<and> concat rest = drop (Suc i) (concat bufs) \<and>
            length (out @ buf) + Suc i \<le> CONTROL_LIMIT)
        | ReadFailed _ \<Rightarrow> (case first_index 10 (concat bufs) of
            Some i \<Rightarrow> CONTROL_LIMIT < length (out @ buf) + Suc i | None \<Rightarrow> True)
        | ReadPanic \<Rightarrow> False"
        using 2 None False by (auto simp: Let_def)
      with None show ?thesis unfolding e
        by (auto simp: first_index_append split: read_result.splits option.splits)
    qed
  qed
qed simp

section \<open>Escaping and splicing\<close>

definition str_replace :: "char \<Rightarrow> string \<Rightarrow> string \<Rightarrow> string" where
  "str_replace c by s = concat (map (\<lambda>x. if x = c then by else [x]) s)"

definition xml_escape :: "string \<Rightarrow> string" where
  "xml_escape s =
     str_replace CHR 0x27 ''&apos;'' (str_replace CHR ''\"'' ''&quot;'' (str_replace CHR ''>'' ''&gt;''
       (str_replace CHR ''<'' ''&lt;'' (str_replace CHR ''&'' ''&amp;'' s))))"

text \<open>The replacements in sequence are one replacement of every character.\<close>

definition xml_char :: "char \<Rightarrow> string" where
  "xml_char c = (if c = CHR ''&'' then ''&amp;'' else if c = CHR ''<'' then ''&lt;'' else if c = CHR ''>'' then ''&gt;''
     else if c = CHR ''\"'' then ''&quot;'' else if c = CHR 0x27 then ''&apos;'' else [c])"

lemma str_replace_append: "str_replace c r (s @ t) = str_replace c r s @ str_replace c r t"
  by (simp add: str_replace_def)

lemma xml_escape_chars: "xml_escape s = concat (map xml_char s)"
proof (induction s)
  case (Cons c s)
  have "xml_escape (c # s) = xml_escape [c] @ xml_escape s"
    using str_replace_append [of _ _ "[c]" s] by (simp add: xml_escape_def str_replace_append)
  moreover have "xml_escape [c] = xml_char c"
    by (simp add: xml_escape_def xml_char_def str_replace_def)
  ultimately show ?case using Cons by simp
qed (simp add: xml_escape_def str_replace_def)

lemma xml_escape_safe:
  "CHR ''<'' \<notin> set (xml_escape s)" "CHR ''>'' \<notin> set (xml_escape s)"
  "CHR ''\"'' \<notin> set (xml_escape s)" "CHR 0x27 \<notin> set (xml_escape s)"
  by (auto simp: xml_escape_chars xml_char_def split: if_splits)

text \<open>The edits are ranges of the line with what replaces them.\<close>

type_synonym edit = "(nat \<times> nat) \<times> u8 list"

fun splice :: "u8 list \<Rightarrow> nat \<Rightarrow> u8 list \<Rightarrow> edit list \<Rightarrow> u8 list read_result" where
  "splice raw pos out [] = ReadOk (out @ drop pos raw)"
| "splice raw pos out (((a, b), v) # es) =
     (if a < pos \<or> b < a \<or> b > length raw then ReadFailed ''overlapping control rewrite''
      else splice raw b (out @ take (a - pos) (drop pos raw) @ v) es)"

definition apply_edits :: "u8 list \<Rightarrow> edit list \<Rightarrow> u8 list read_result" where
  "apply_edits raw edits = splice raw 0 [] (sort_key fst edits)"

text \<open>Cutting a line at the edges of disjoint ranges: the kept pieces, and the pieces replaced.\<close>

fun pieces :: "u8 list \<Rightarrow> nat \<Rightarrow> edit list \<Rightarrow> (u8 list \<times> u8 list) list \<times> u8 list" where
  "pieces raw pos [] = ([], drop pos raw)"
| "pieces raw pos (((a, b), v) # es) =
     (let (ps, rest) = pieces raw b es
      in ((take (a - pos) (drop pos raw), take (b - a) (drop a raw)) # ps, rest))"

fun disjoint_from :: "nat \<Rightarrow> nat \<Rightarrow> edit list \<Rightarrow> bool" where
  "disjoint_from len pos [] \<longleftrightarrow> pos \<le> len"
| "disjoint_from len pos (((a, b), v) # es) \<longleftrightarrow> pos \<le> a \<and> a \<le> b \<and> b \<le> len \<and> disjoint_from len b es"

lemma splice_spec:
  assumes "pos \<le> length raw"
  shows "splice raw pos out es =
    (if disjoint_from (length raw) pos es
     then ReadOk (out @ concat (map2 (\<lambda>(keep, _) (_, v). keep @ v) (fst (pieces raw pos es)) es) @ snd (pieces raw pos es))
     else ReadFailed ''overlapping control rewrite'')"
  using assms
proof (induction raw pos out es rule: splice.induct)
  case (2 raw pos out a b v es)
  then show ?case by (cases "pieces raw b es") auto
qed simp

lemma pieces_raw:
  "disjoint_from (length raw) pos es \<Longrightarrow>
     drop pos raw = concat (map (\<lambda>(keep, cut). keep @ cut) (fst (pieces raw pos es))) @ snd (pieces raw pos es)"
proof (induction raw pos es rule: pieces.induct)
  case (2 raw pos a b v es)
  have split: "drop i raw = take (j - i) (drop i raw) @ drop j raw" if "i \<le> j" for i j
    using that append_take_drop_id [of "j - i" "drop i raw"] by simp
  have "drop pos raw = take (a - pos) (drop pos raw) @ take (b - a) (drop a raw) @ drop b raw"
    using split [of pos a] split [of a b] 2 by simp
  with 2 show ?case by (cases "pieces raw b es") auto
qed simp

section \<open>Audio records\<close>

definition start_sample_bytes :: "string \<Rightarrow> nat \<Rightarrow> nat option" where
  "start_sample_bytes stream bits =
     (if stream = ''dsd'' \<and> bits = 1 then Some 1
      else if stream = ''dop'' \<and> bits = 24 then Some 1
      else if stream = ''pcm'' \<and> bits \<in> {8, 16, 24, 32, 64} then Some (bits div 8)
      else None)"

lemma start_sample_bytes_range: "start_sample_bytes stream bits = Some w \<Longrightarrow> 1 \<le> w \<and> w \<le> 8"
  by (auto simp: start_sample_bytes_def split: if_splits)

text \<open>
  The state of the upstream loop. The relay's metadata is shared by pointer: a number stands for the
  allocation, which is what \<open>Arc::ptr_eq\<close> compares.
\<close>

record upstream_state =
  us_sample_bytes :: "nat option"
  us_injected_metadata :: "(nat \<times> metadata_payload) option"
  us_injected_at :: nat

definition checked_add_usize :: "nat \<Rightarrow> nat \<Rightarrow> nat option" where
  "checked_add_usize a b = (if a + b < 2 ^ 64 then Some (a + b) else None)"

definition metadata_changed ::
  "(nat \<times> metadata_payload) option \<Rightarrow> (nat \<times> metadata_payload) option \<Rightarrow> bool" where
  "metadata_changed metadata injected =
     (case (metadata, injected) of
        (Some (i, _), Some (j, _)) \<Rightarrow> i \<noteq> j
      | (Some _, None) \<Rightarrow> True
      | _ \<Rightarrow> False)"

text \<open>The length of the body that a header announces.\<close>

definition announced_len :: "u8 list \<Rightarrow> nat \<Rightarrow> nat read_result" where
  "announced_len header width =
     (case checked_mul_usize (unat (read_u32 header 4)) width of
        None \<Rightarrow> ReadFailed ''audio size overflow''
      | Some pcm \<Rightarrow>
          (case Option.bind (Option.bind (checked_add_usize pcm (unat (read_u32 header 8)))
                  (\<lambda>n. checked_add_usize n (unat (read_u32 header 12))))
                  (\<lambda>n. checked_add_usize n (unat (read_u32 header 16))) of
             None \<Rightarrow> ReadFailed ''audio size overflow''
           | Some remaining \<Rightarrow>
               if remaining > FRAME_LIMIT - HEADER_LEN then ReadFailed ''audio record exceeds 8 MiB''
               else ReadOk remaining))"

text \<open>What is written downstream, the new state, and the rest of the stream.\<close>

definition forward_audio ::
  "nat \<Rightarrow> (nat \<times> metadata_payload) option \<Rightarrow> u8 list \<Rightarrow> u8 list \<Rightarrow> upstream_state \<Rightarrow>
     (u8 list \<times> upstream_state \<times> u8 list) read_result" where
  "forward_audio now metadata prefix bs st =
     (case us_sample_bytes st of
        None \<Rightarrow> ReadFailed ''audio received before a framed start''
      | Some width \<Rightarrow>
     (case binary prefix HEADER_LEN bs of
        ReadFailed e \<Rightarrow> ReadFailed e
      | ReadPanic \<Rightarrow> ReadPanic
      | ReadOk (header, rest) \<Rightarrow>
     (case announced_len header width of
        ReadFailed e \<Rightarrow> ReadFailed e
      | ReadPanic \<Rightarrow> ReadPanic
      | ReadOk remaining \<Rightarrow>
          if length rest < remaining then ReadFailed ''unexpected end of file''
          else
            let body = take remaining rest;
                changed = metadata_changed metadata (us_injected_metadata st);
                refresh = picture_refresh_due (Option.bind metadata (\<lambda>(_, m). mp_picture m)) (now - us_injected_at st);
                fallback = (if changed \<or> refresh \<or> read_u32 header 12 > 0 then map_option snd metadata else None)
            in case rewrite_sections header body fallback width of
                 NaaErr e \<Rightarrow> ReadFailed e
               | NaaPanic \<Rightarrow> ReadPanic
               | NaaOk (header', out) \<Rightarrow>
                   ReadOk (header' @ out,
                     if fallback \<noteq> None then st\<lparr>us_injected_at := now, us_injected_metadata := metadata\<rparr> else st,
                     drop remaining rest))))"

text \<open>A frame that fits: header and body, with the sections the header announces.\<close>

definition is_frame :: "nat \<Rightarrow> u8 list \<Rightarrow> u8 list \<Rightarrow> bool" where
  "is_frame width header body \<longleftrightarrow> sections header body width \<noteq> None \<and> length body \<le> FRAME_LIMIT - HEADER_LEN"

lemma announced_frame:
  assumes "is_frame w h body"
  shows "announced_len h w = ReadOk (length body)" "length h = 32"
proof -
  have l: "unat (read_u32 h 4) * w + unat (read_u32 h 8) + unat (read_u32 h 12) + unat (read_u32 h 16) = length body"
    and "length h = 32" "length body \<le> FRAME_LIMIT - HEADER_LEN"
    using assms by (auto simp: is_frame_def sections_def Let_def split: if_splits)
  then show "announced_len h w = ReadOk (length body)" "length h = 32"
    by (simp_all add: announced_len_def checked_mul_usize_def checked_add_usize_def FRAME_LIMIT_def HEADER_LEN_def)
qed

text \<open>The audio of a frame is forwarded unchanged, whatever the probe had already read of its header.\<close>

lemma forward_frame:
  assumes f: "is_frame w h body" "us_sample_bytes st = Some w"
    and p: "prefix @ bs = h @ body @ rest" "length prefix \<le> 32"
    and s: "sections h body w = Some (pcm, pos, meta, pic)"
    and m: "\<forall>i m. metadata = Some (i, m) \<longrightarrow> length (metadata_section m) < 2 ^ 32 \<and>
      (\<forall>p. mp_picture m = Some p \<longrightarrow> length p < 2 ^ 32)"
  obtains h' body' st' meta' pic' where
    "forward_audio now metadata prefix bs st = ReadOk (h' @ body', st', rest)"
    "sections h' body' w = Some (pcm, pos, meta', pic')"
    "meta \<noteq> [] \<Longrightarrow> meta' = meta" "pic \<noteq> [] \<Longrightarrow> pic' = pic"
    "metadata = None \<Longrightarrow> h' = h \<and> body' = body"
    "us_sample_bytes st' = Some w"
proof -
  note a = announced_frame [OF f(1)]
  have h: "h = prefix @ take (32 - length prefix) bs"
    using arg_cong [OF p(1), of "take 32"] a(2) p(2) by simp
  have "body @ rest = drop (32 - length prefix) bs"
    using arg_cong [OF p(1), of "drop 32"] a(2) p(2) by simp
  moreover have "32 - length prefix \<le> length bs"
    using arg_cong [OF p(1), of length] a(2) by simp
  ultimately have b: "binary prefix HEADER_LEN bs = ReadOk (h, body @ rest)"
    using p(2) h by (simp add: binary_def HEADER_LEN_def)
  let ?fb = "if metadata_changed metadata (us_injected_metadata st) \<or>
      picture_refresh_due (Option.bind metadata (\<lambda>(_, m). mp_picture m)) (now - us_injected_at st) \<or>
      read_u32 h 12 > 0 then map_option snd metadata else None"
  let ?st = "if ?fb \<noteq> None then st\<lparr>us_injected_at := now, us_injected_metadata := metadata\<rparr> else st"
  have fw: "forward_audio now metadata prefix bs st = ReadOk (h' @ body', ?st, rest)"
    if "rewrite_sections h body ?fb w = NaaOk (h', body')" for h' body'
    using f(2) a b that by (simp add: forward_audio_def Let_def)
  have stw: "us_sample_bytes ?st = Some w" using f(2) by simp
  show thesis
  proof (cases ?fb)
    case None
    then have "rewrite_sections h body ?fb w = NaaOk (h, body)" by (simp only: rewrite_sections_def option.case)
    from that [OF fw [OF this] s _ _ _ stw] show thesis by simp
  next
    case (Some m)
    then obtain i where i: "metadata = Some (i, m)" by (auto split: if_splits)
    have big: "length body < 2 ^ 64" "length meta \<le> length body" "length pic \<le> length body"
      using f(1) sections_body [OF s] by (auto simp: is_frame_def FRAME_LIMIT_def HEADER_LEN_def)
    have l: "length body < 2 ^ 32" using f(1) by (auto simp: is_frame_def FRAME_LIMIT_def HEADER_LEN_def)
    have small: "length (new_meta m meta) < 2 ^ 32" "length (new_picture m pic) < 2 ^ 32"
      using m i big l by (auto simp: new_meta_def new_picture_def split: option.split)
    from rewritten_sections [OF s big(1) small] obtain h' body' where
      r: "rewrite_sections h body (Some m) w = NaaOk (h', body')"
        "sections h' body' w = Some (pcm, pos, new_meta m meta, new_picture m pic)" by blast
    have "rewrite_sections h body ?fb w = NaaOk (h', body')" unfolding Some by (rule r(1))
    from that [OF fw [OF this] r(2) _ _ _ stw] i show thesis by (simp add: new_meta_def new_picture_def)
  qed
qed

end
