(* ===== verification/Relay_Claims.thy ===== *)
theory Relay_Claims
  imports Supervisor Naa_Protocol
begin

text \<open>
  The delays of an outage from its first failure, the reading of one record of the relay's byte stream
  from its first byte to its last, and the rewriting of a frame as a total function of header and body.
\<close>

lemma outage_delays:
  assumes "rc_backoff_cap config \<le> DURATION_MAX" "i < length ts"
    and "\<forall>t \<in> set ts. rc_restart_window (sanitize_config config) < t - t0"
  shows "failure_delays (recovery_new config) (t0 # ts) ! Suc i =
    min (rc_backoff_cap (sanitize_config config)) (rc_backoff_initial (sanitize_config config) * 2 ^ i)"
proof -
  let ?c = "sanitize_config config" and ?s = "snd (on_failure t0 (recovery_new config))"
  have c: "rv_config ?s = ?c" by (simp add: recovery_new_def Let_def)
  have cap: "rc_backoff_cap ?c \<le> DURATION_MAX"
    using assms(1) by (simp add: sanitize_config_def Let_def MIN_DELAY_def DURATION_MAX_def)
  have ok: "recovery_ok ?s" by (rule on_failure_ok [OF recovery_new_ok])
  have o: "rv_outage_started ?s = Some t0" by (simp add: on_failure_def recovery_new_def Let_def)
  have "rv_next_backoff ?s = rc_backoff_initial ?c" by (simp add: on_failure_def recovery_new_def Let_def)
  moreover have "rc_backoff_initial ?c \<le> rc_backoff_cap ?c"
    using recovery_new_ok [of config] by (simp add: recovery_ok_def recovery_new_def Let_def)
  ultimately have b: "rv_next_backoff ?s = min (rc_backoff_cap ?c) (rc_backoff_initial ?c * 2 ^ 0)" by simp
  have "failure_delays ?s ts ! i = min (rc_backoff_cap ?c) (rc_backoff_initial ?c * 2 ^ (0 + i))"
    using failure_delays_nth [OF ok _ o, of ts "rc_backoff_initial ?c" 0 i] cap assms(2,3) b unfolding c by simp
  then show ?thesis by simp
qed

section \<open>Records\<close>

lemma roots_one_line: "p \<in> set ROOTS \<Longrightarrow> first_index 10 p = None"
  by (auto simp: ROOTS_def bytes_of_def)

text \<open>The control line that follows a probe, whatever chunks it is delivered in.\<close>

lemma control_line:
  assumes "probe [] bs = Some (True, p, concat bufs)"
  shows "case first_index 10 bs of
      None \<Rightarrow> \<exists>e. line_loop p bufs = ReadFailed e
    | Some i \<Rightarrow> if Suc i \<le> CONTROL_LIMIT
        then \<exists>rest. line_loop p bufs = ReadOk (take (Suc i) bs, rest) \<and> concat rest = drop (Suc i) bs
        else \<exists>e. line_loop p bufs = ReadFailed e"
proof -
  have bs: "bs = p @ concat bufs" using probe_result [OF undecided_Nil assms] by simp
  have "p \<in> set ROOTS" using probe_control_iff(2) [OF assms] by simp
  then have n: "first_index 10 p = None" by (rule roots_one_line)
  then have f: "first_index 10 bs = map_option (\<lambda>i. length p + i) (first_index 10 (concat bufs))"
    by (simp add: bs first_index_append)
  show ?thesis
  proof (cases "line_loop p bufs")
    case (ReadOk lr)
    then obtain l rest where lr: "line_loop p bufs = ReadOk (l, rest)" by (cases lr) simp
    with line_loop_spec [of bufs p] obtain i where i: "first_index 10 (concat bufs) = Some i"
      "l = p @ take (Suc i) (concat bufs)" "concat rest = drop (Suc i) (concat bufs)"
      "length p + Suc i \<le> CONTROL_LIMIT" by auto
    then have "take (Suc (length p + i)) bs = l" "drop (Suc (length p + i)) bs = concat rest"
      by (simp_all add: bs)
    with lr i f show ?thesis by simp
  next
    case (ReadFailed e)
    with line_loop_spec [of bufs p] f show ?thesis by (cases "first_index 10 (concat bufs)") simp_all
  next
    case ReadPanic
    with line_loop_spec [of bufs p] show ?thesis by simp
  qed
qed

section \<open>Rewriting\<close>

text \<open>What the writer's metadata has to satisfy: its sections fit their length fields.\<close>

definition payload_fits :: "metadata_payload \<Rightarrow> bool" where
  "payload_fits m \<longleftrightarrow> length (metadata_section m) < 2 ^ 32 \<and>
     (case mp_picture m of None \<Rightarrow> True | Some p \<Rightarrow> length p < 2 ^ 32)"

lemma rewrite_cases:
  assumes "w \<le> 2 ^ 31" "length h = 32" "length body < 2 ^ 32" "payload_fits m"
  shows "case sections h body w of
      None \<Rightarrow> rewrite_sections h body (Some m) w = NaaErr ''NAA frame section lengths do not match body''
    | Some (pcm, pos, meta, pic) \<Rightarrow>
        \<exists>h' body'. rewrite_sections h body (Some m) w = NaaOk (h', body') \<and>
          sections h' body' w = Some (pcm, pos, new_meta m meta, new_picture m pic) \<and>
          read_u32 h' 0 = rewrite_mask (read_u32 h 0) pic (new_picture m pic)"
proof (cases "sections h body w")
  case None
  then show ?thesis using rewrite_total [OF assms(1,2), of body m] assms(3) by simp
next
  case (Some s)
  then obtain pcm pos meta pic where s: "sections h body w = Some (pcm, pos, meta, pic)" by (metis prod_cases4)
  have "length meta \<le> length body" "length pic \<le> length body" using sections_body [OF s] by auto
  then have "length (new_meta m meta) < 2 ^ 32" "length (new_picture m pic) < 2 ^ 32"
    using assms(3,4) by (auto simp: payload_fits_def new_meta_def new_picture_def split: option.split)
  with s assms(3) show ?thesis by (auto elim: rewritten_sections [of h body w pcm pos meta pic m])
qed

end
