(* ===== verification/Hqp_Project.thy ===== *)
theory Hqp_Project
  imports Hqp_Native Producer_Doc
begin

text \<open>
  The projection of one native HQPlayer observation into a producer document
  (\<open>src/producers/hqplayer.rs\<close>): the controls, their registry of semantic operations, the checks
  before publication, and the revision tracker that numbers the documents of one instance.

  A string is its UTF-8 bytes. The text of an instant, which \<open>contract_timestamp\<close> takes from the
  \<open>chrono\<close> crate, is the parameter \<open>rfc3339\<close>.
\<close>

section \<open>Controls and their semantic operations\<close>

definition CONTROL_TRANSPORT_STATE :: string where "CONTROL_TRANSPORT_STATE = ''hqplayer.transport.state''"
definition CONTROL_TRANSPORT_PLAY :: string where "CONTROL_TRANSPORT_PLAY = ''hqplayer.transport.play''"
definition CONTROL_TRANSPORT_PAUSE :: string where "CONTROL_TRANSPORT_PAUSE = ''hqplayer.transport.pause''"
definition CONTROL_TRANSPORT_STOP :: string where "CONTROL_TRANSPORT_STOP = ''hqplayer.transport.stop''"
definition CONTROL_TRANSPORT_PREVIOUS :: string where
  "CONTROL_TRANSPORT_PREVIOUS = ''hqplayer.transport.previous''"
definition CONTROL_TRANSPORT_NEXT :: string where "CONTROL_TRANSPORT_NEXT = ''hqplayer.transport.next''"
definition CONTROL_METADATA_TRACK_ID :: string where
  "CONTROL_METADATA_TRACK_ID = ''hqplayer.metadata.track_id''"
definition CONTROL_METADATA_TITLE :: string where "CONTROL_METADATA_TITLE = ''hqplayer.metadata.title''"
definition CONTROL_METADATA_ARTIST :: string where "CONTROL_METADATA_ARTIST = ''hqplayer.metadata.artist''"
definition CONTROL_METADATA_ALBUM :: string where "CONTROL_METADATA_ALBUM = ''hqplayer.metadata.album''"
definition CONTROL_VOLUME_LEVEL :: string where "CONTROL_VOLUME_LEVEL = ''hqplayer.volume.level''"
definition CONTROL_PIPELINE_MODE :: string where "CONTROL_PIPELINE_MODE = ''hqplayer.pipeline.mode''"
definition CONTROL_PIPELINE_FILTER_1X :: string where
  "CONTROL_PIPELINE_FILTER_1X = ''hqplayer.pipeline.filter_1x''"
definition CONTROL_PIPELINE_FILTER_NX :: string where
  "CONTROL_PIPELINE_FILTER_NX = ''hqplayer.pipeline.filter_nx''"
definition CONTROL_PIPELINE_SHAPER :: string where "CONTROL_PIPELINE_SHAPER = ''hqplayer.pipeline.shaper''"
definition CONTROL_PIPELINE_RATE :: string where "CONTROL_PIPELINE_RATE = ''hqplayer.pipeline.rate''"

lemmas control_names =
  CONTROL_TRANSPORT_STATE_def CONTROL_TRANSPORT_PLAY_def CONTROL_TRANSPORT_PAUSE_def
  CONTROL_TRANSPORT_STOP_def CONTROL_TRANSPORT_PREVIOUS_def CONTROL_TRANSPORT_NEXT_def
  CONTROL_METADATA_TRACK_ID_def CONTROL_METADATA_TITLE_def CONTROL_METADATA_ARTIST_def
  CONTROL_METADATA_ALBUM_def CONTROL_VOLUME_LEVEL_def CONTROL_PIPELINE_MODE_def
  CONTROL_PIPELINE_FILTER_1X_def CONTROL_PIPELINE_FILTER_NX_def CONTROL_PIPELINE_SHAPER_def
  CONTROL_PIPELINE_RATE_def

datatype hqp_semantic_operation_kind =
    Op_Play | Op_Pause | Op_Stop | Op_Previous | Op_Next | Op_SetVolumeDb
  | Op_SetMode | Op_SetFilter1x | Op_SetFilterNx | Op_SetShaper | Op_SetRate

definition HQP_SEMANTIC_OPERATION_REGISTRY :: "(string \<times> hqp_semantic_operation_kind) list" where
  "HQP_SEMANTIC_OPERATION_REGISTRY =
     [(CONTROL_TRANSPORT_PLAY, Op_Play), (CONTROL_TRANSPORT_PAUSE, Op_Pause),
      (CONTROL_TRANSPORT_STOP, Op_Stop), (CONTROL_TRANSPORT_PREVIOUS, Op_Previous),
      (CONTROL_TRANSPORT_NEXT, Op_Next), (CONTROL_VOLUME_LEVEL, Op_SetVolumeDb),
      (CONTROL_PIPELINE_MODE, Op_SetMode), (CONTROL_PIPELINE_FILTER_1X, Op_SetFilter1x),
      (CONTROL_PIPELINE_FILTER_NX, Op_SetFilterNx), (CONTROL_PIPELINE_SHAPER, Op_SetShaper),
      (CONTROL_PIPELINE_RATE, Op_SetRate)]"

definition hqp_semantic_operation :: "control_id \<Rightarrow> hqp_semantic_operation_kind option" where
  "hqp_semantic_operation c =
     (case filter (\<lambda>entry. fst entry = cid_str c) HQP_SEMANTIC_OPERATION_REGISTRY of
        [] \<Rightarrow> None
      | e # es \<Rightarrow> (if es = [] then Some (snd e) else None))"

text \<open>The registry names no control twice, so the lookup is the lookup of a map.\<close>

lemma registry_distinct: "distinct (map fst HQP_SEMANTIC_OPERATION_REGISTRY)"
  by (simp add: HQP_SEMANTIC_OPERATION_REGISTRY_def control_names)

lemma filter_key_distinct:
  "distinct (map fst m) \<Longrightarrow>
     filter (\<lambda>e. fst e = k) m = (case map_of m k of None \<Rightarrow> [] | Some v \<Rightarrow> [(k, v)])"
  by (induction m) (auto simp: filter_empty_conv image_iff split: option.splits)

lemma semantic_operation_map: "hqp_semantic_operation c = map_of HQP_SEMANTIC_OPERATION_REGISTRY (cid_str c)"
  by (simp add: hqp_semantic_operation_def filter_key_distinct registry_distinct split: option.splits)

datatype projection_error =
    InvalidInstanceName
  | InvalidVolumeEvidence string
  | SelectedChoiceMissing string string
  | MutableControlHasNoSemanticOperation string
  | MutableControlHasMultipleSemanticOperations string

fun validate_mutable_control_operations :: "control list \<Rightarrow> projection_error + unit" where
  "validate_mutable_control_operations [] = Inr ()"
| "validate_mutable_control_operations (c # cs) =
     (if \<not> is_mutable c then validate_mutable_control_operations cs
      else if hqp_semantic_operation (ct_id c) \<noteq> None then validate_mutable_control_operations cs
      else let matches = length (filter (\<lambda>entry. fst entry = cid_str (ct_id c)) HQP_SEMANTIC_OPERATION_REGISTRY)
           in if matches = 1 then validate_mutable_control_operations cs
              else if matches = 0 then Inl (MutableControlHasNoSemanticOperation (cid_str (ct_id c)))
              else Inl (MutableControlHasMultipleSemanticOperations (cid_str (ct_id c))))"

lemma validate_mutable_ok_iff:
  "validate_mutable_control_operations cs = Inr () \<longleftrightarrow>
     (\<forall>c \<in> set cs. is_mutable c \<longrightarrow> hqp_semantic_operation (ct_id c) \<noteq> None)"
proof (induction cs)
  case (Cons c cs)
  show ?case
    by (cases "hqp_semantic_operation (ct_id c)")
      (simp_all add: Cons filter_key_distinct registry_distinct semantic_operation_map [symmetric])
qed simp

section \<open>The checks on an observation\<close>

definition f64_lt :: "f64 \<Rightarrow> f64 \<Rightarrow> bool" where
  "f64_lt x y \<longleftrightarrow> f64_le x y \<and> \<not> f64_eq x y"

definition validate_native_observation :: "hqp_observation \<Rightarrow> projection_error + unit" where
  "validate_native_observation ob =
     (let v = ho_volume ob in
      if is_blank (ho_instance_name ob) then Inl InvalidInstanceName
      else if \<not> is_finite (nv_value_db v) \<or> \<not> is_finite (nv_min_db v) \<or> \<not> is_finite (nv_max_db v)
      then Inl (InvalidVolumeEvidence ''volume value and bounds must be finite'')
      else if f64_lt (nv_max_db v) (nv_min_db v)
      then Inl (InvalidVolumeEvidence ''minimum exceeds maximum'')
      else if f64_lt (nv_value_db v) (nv_min_db v) \<or> f64_lt (nv_max_db v) (nv_value_db v)
      then Inl (InvalidVolumeEvidence ''observed volume is outside the reported range'')
      else if (case nv_step_db v of None \<Rightarrow> False | Some s \<Rightarrow> \<not> is_finite s \<or> f64_le s (Fin 0))
      then Inl (InvalidVolumeEvidence ''volume step must be finite and positive'')
      else Inr ())"

text \<open>What the checks leave: a range of real numbers that holds the value.\<close>

lemma validated_volume:
  assumes "validate_native_observation ob = Inr ()"
  shows "\<exists>lo v hi. nv_min_db (ho_volume ob) = Fin lo \<and> nv_value_db (ho_volume ob) = Fin v \<and>
    nv_max_db (ho_volume ob) = Fin hi \<and> lo \<le> v \<and> v \<le> hi \<and>
    (\<forall>s. nv_step_db (ho_volume ob) = Some s \<longrightarrow> (\<exists>q > 0. s = Fin q))"
proof -
  obtain lo v hi where f: "nv_min_db (ho_volume ob) = Fin lo" "nv_value_db (ho_volume ob) = Fin v"
    "nv_max_db (ho_volume ob) = Fin hi"
    using assms by (cases "nv_min_db (ho_volume ob)"; cases "nv_value_db (ho_volume ob)";
      cases "nv_max_db (ho_volume ob)") (auto simp: validate_native_observation_def Let_def split: if_splits)
  have "\<exists>q > 0. s = Fin q" if "nv_step_db (ho_volume ob) = Some s" for s
    using assms that by (cases s) (auto simp: validate_native_observation_def Let_def f64_lt_def f not_le split: if_splits)
  moreover have "lo \<le> v" "v \<le> hi"
    using assms by (auto simp: validate_native_observation_def Let_def f64_lt_def f split: if_splits)
  ultimately show ?thesis using f by blast
qed

section \<open>Building the controls\<close>

definition native_observed :: "control_value \<Rightarrow> lane_value" where
  "native_observed v = lv_grounded VL_Observed v provenance_runtime"

definition native_unobserved :: "reason_code \<Rightarrow> lane_value" where
  "native_unobserved r = lv_ungrounded VL_Observed r provenance_runtime"

definition hqp_unavailable :: "reason_code \<Rightarrow> reason_scope \<Rightarrow> string \<Rightarrow> availability" where
  "hqp_unavailable code scope key = availability_unavailable
     \<lparr>rs_code = code, rs_scope = scope, rs_display_text_key = Some key, rs_detail = None\<rparr>"

definition hqp_read_only :: "string \<Rightarrow> availability" where
  "hqp_read_only key = \<lparr>av_state = Av_ReadOnly, av_reasons =
     [\<lparr>rs_code = RC_LockedByProducer, rs_scope = Scope_Producer, rs_display_text_key = Some key,
       rs_detail = None\<rparr>]\<rparr>"

definition hqp_group :: "string \<Rightarrow> string \<Rightarrow> string list \<Rightarrow> control_group" where
  "hqp_group i label members = \<lparr>cg_id = i, cg_label_key = Some label, cg_order = None,
     cg_members = map ControlId members\<rparr>"

definition hqp_control ::
  "string \<Rightarrow> control_kind \<Rightarrow> string \<Rightarrow> string \<Rightarrow> lane_value list \<Rightarrow> choice_set option \<Rightarrow>
     numeric_range option \<Rightarrow> availability \<Rightarrow> apply_semantics option \<Rightarrow> string option \<Rightarrow> control" where
  "hqp_control i kind label grp values choices rng avail apply unit =
     \<lparr>ct_id = ControlId i, ct_kind = kind, ct_label_key = Some label, ct_description_key = None,
      ct_group = Some grp, ct_order = None, ct_widget_hint = None, ct_unit = unit, ct_values = values,
      ct_choices = choices, ct_range = rng, ct_availability = avail, ct_apply = apply,
      ct_divergences = [], ct_members = [], ct_extensions = []\<rparr>"

fun transport_text :: "hqp_native_transport_state \<Rightarrow> string" where
  "transport_text NT_Stopped = ''stopped''"
| "transport_text NT_Paused = ''paused''"
| "transport_text NT_Playing = ''playing''"
| "transport_text NT_Unknown = ''unknown''"

definition transport_state_control :: "hqp_observation \<Rightarrow> control" where
  "transport_state_control ob =
     hqp_control CONTROL_TRANSPORT_STATE Kind_Text ''control.transport.state'' ''transport''
       [native_observed (CV_Text (transport_text (ho_transport ob)))] None None
       (hqp_read_only ''reason.transport.state_observed_only'') None None"

definition transport_action_control :: "string \<Rightarrow> string \<Rightarrow> string \<Rightarrow> bool \<Rightarrow> control" where
  "transport_action_control i label verify_via available =
     hqp_control i Kind_Action label ''transport'' [] None None
       (if available then availability_available
        else hqp_unavailable RC_NotSupported Scope_Observed ''reason.transport.queue_owned_by_source'')
       (Some \<lparr>as_lane = AL_Immediate, as_effect = Eff_VerifiedPending, as_disruption = Dis_NoDisruption,
          as_risk = Risk_Safe,
          as_verification = \<lparr>vf_verify_via = Some (ControlId verify_via), vf_verify_lane = VL_Observed,
            vf_provisional_ack = True, vf_preserves = []\<rparr>,
          as_invalidates = [], as_coupled_with = []\<rparr>) None"

definition metadata_lane :: "hqp_native_transport_state \<Rightarrow> string option \<Rightarrow> lane_value" where
  "metadata_lane t value =
     (case t of
        NT_Stopped \<Rightarrow> native_unobserved RC_NotApplicableInMode
      | NT_Unknown \<Rightarrow> native_unobserved RC_Unobservable
      | _ \<Rightarrow> (case value of
           None \<Rightarrow> native_unobserved RC_Unobservable
         | Some v \<Rightarrow> (if is_blank v then native_unobserved RC_Unobservable else native_observed (CV_Text v))))"

definition metadata_control :: "string \<Rightarrow> string \<Rightarrow> hqp_observation \<Rightarrow> string option \<Rightarrow> control" where
  "metadata_control i label ob value =
     hqp_control i Kind_Text label ''metadata'' [metadata_lane (ho_transport ob) value] None None
       (hqp_read_only ''reason.metadata_observed_only'') None None"

definition hqp_volume_control :: "hqp_observation \<Rightarrow> control" where
  "hqp_volume_control ob =
     (let v = ho_volume ob in
      hqp_control CONTROL_VOLUME_LEVEL Kind_NumericRange ''control.volume.level'' ''volume''
        [native_observed (CV_Decimal (nv_value_db v))] None
        (Some \<lparr>nr_min = Some (nv_min_db v), nr_max = Some (nv_max_db v), nr_step = nv_step_db v,
           nr_unit = Some ''dB'', nr_authority = Auth_Runtime, nr_revision = None\<rparr>)
        (if nv_enabled v then availability_available else hqp_read_only ''reason.volume.fixed'')
        (if nv_enabled v then Some \<lparr>as_lane = AL_Immediate, as_effect = Eff_VerifiedPending,
           as_disruption = Dis_NoDisruption, as_risk = Risk_Caution,
           as_verification = \<lparr>vf_verify_via = None, vf_verify_lane = VL_Observed,
             vf_provisional_ack = True, vf_preserves = []\<rparr>,
           as_invalidates = [], as_coupled_with = []\<rparr> else None)
        (Some ''dB''))"

text \<open>The identity of an engine's option is the hex text of its name.\<close>

definition hex_digit :: "nat \<Rightarrow> char" where
  "hex_digit n = char_of (if n < 10 then 48 + n else 87 + n)"

definition hex_byte :: "char \<Rightarrow> string" where
  "hex_byte c = [hex_digit (of_char c div 16), hex_digit (of_char c mod 16)]"

definition native_choice_id :: "string \<Rightarrow> string \<Rightarrow> string" where
  "native_choice_id control engine_name = control @ ''.engine.'' @ concat (map hex_byte engine_name)"

definition add_choice :: "string \<Rightarrow> choice list \<Rightarrow> string \<Rightarrow> choice list" where
  "add_choice control choices name =
     (let i = native_choice_id control name in
      if list_ex (\<lambda>c. ch_id c = i) choices then choices else choices @ [choice_new i name])"

definition native_choice_set :: "string \<Rightarrow> string list \<Rightarrow> choice_set" where
  "native_choice_set control engine_names = choice_set_runtime (foldl (add_choice control) [] engine_names)"

definition selection_control ::
  "string \<Rightarrow> string \<Rightarrow> hqp_observation \<Rightarrow> hqp_native_selection \<Rightarrow> apply_semantics option \<Rightarrow>
     availability \<Rightarrow> projection_error + control" where
  "selection_control i label ob selection apply avail =
     (let choices = native_choice_set i (ns_choices selection);
          selected = native_choice_id i (ns_selected selection)
      in if \<not> choice_set_contains choices selected
         then Inl (SelectedChoiceMissing i (ns_selected selection))
         else Inr (hqp_control i Kind_Enumeration label ''pipeline''
           [native_observed (if i = CONTROL_PIPELINE_MODE \<and> ho_mode_is_source ob then CV_Empty
              else CV_Choice selected)]
           (Some choices) None avail apply None))"

definition pipeline_apply ::
  "disruption \<Rightarrow> risk_class \<Rightarrow> string list \<Rightarrow> string list \<Rightarrow> apply_semantics" where
  "pipeline_apply dis risk invalidates preserves =
     \<lparr>as_lane = AL_Immediate, as_effect = Eff_LiveImmediate, as_disruption = dis, as_risk = risk,
      as_verification = \<lparr>vf_verify_via = None, vf_verify_lane = VL_Observed, vf_provisional_ack = False,
        vf_preserves = map ControlId preserves\<rparr>,
      as_invalidates = map ControlId invalidates, as_coupled_with = []\<rparr>"

section \<open>The document\<close>

definition mode_control :: "hqp_observation \<Rightarrow> projection_error + control" where
  "mode_control ob =
     selection_control CONTROL_PIPELINE_MODE ''control.pipeline.mode'' ob (ho_mode ob)
       (Some (pipeline_apply Dis_PlaybackInterruption Risk_Disruptive
         [CONTROL_PIPELINE_FILTER_1X, CONTROL_PIPELINE_FILTER_NX, CONTROL_PIPELINE_SHAPER,
          CONTROL_PIPELINE_RATE] []))
       availability_available"

definition filter_1x_control :: "hqp_observation \<Rightarrow> projection_error + control" where
  "filter_1x_control ob =
     selection_control CONTROL_PIPELINE_FILTER_1X ''control.pipeline.filter_1x'' ob (ho_filter_1x ob)
       (Some (pipeline_apply Dis_AudibleGlitch Risk_Caution [] [CONTROL_PIPELINE_FILTER_NX]))
       availability_available"

definition filter_nx_control :: "hqp_observation \<Rightarrow> projection_error + control" where
  "filter_nx_control ob =
     selection_control CONTROL_PIPELINE_FILTER_NX ''control.pipeline.filter_nx'' ob (ho_filter_nx ob)
       (Some (pipeline_apply Dis_AudibleGlitch Risk_Caution [] [CONTROL_PIPELINE_FILTER_1X]))
       availability_available"

definition shaper_control :: "hqp_observation \<Rightarrow> projection_error + control" where
  "shaper_control ob =
     selection_control CONTROL_PIPELINE_SHAPER ''control.pipeline.shaper'' ob (ho_shaper ob)
       (Some (pipeline_apply Dis_AudibleGlitch Risk_Caution [] [])) availability_available"

definition rate_control :: "hqp_observation \<Rightarrow> projection_error + control" where
  "rate_control ob =
     selection_control CONTROL_PIPELINE_RATE ''control.pipeline.rate'' ob (ho_rate ob)
       (if \<not> ho_mode_is_source ob then Some (pipeline_apply Dis_AudibleGlitch Risk_Caution [] []) else None)
       (if ho_mode_is_source ob
        then hqp_unavailable RC_NotApplicableInMode Scope_Observed ''reason.pipeline.rate_source_mode''
        else availability_available)"

definition transport_controls :: "hqp_observation \<Rightarrow> control list" where
  "transport_controls ob =
     [transport_action_control CONTROL_TRANSPORT_PLAY ''control.transport.play'' CONTROL_TRANSPORT_STATE True,
      transport_action_control CONTROL_TRANSPORT_PAUSE ''control.transport.pause'' CONTROL_TRANSPORT_STATE True,
      transport_action_control CONTROL_TRANSPORT_STOP ''control.transport.stop'' CONTROL_TRANSPORT_STATE True,
      transport_action_control CONTROL_TRANSPORT_PREVIOUS ''control.transport.previous''
        CONTROL_METADATA_TRACK_ID (zn_is_previous_allowed (ho_zone ob)),
      transport_action_control CONTROL_TRANSPORT_NEXT ''control.transport.next''
        CONTROL_METADATA_TRACK_ID (zn_is_next_allowed (ho_zone ob)),
      transport_state_control ob]"

definition metadata_controls :: "hqp_observation \<Rightarrow> control list" where
  "metadata_controls ob =
     [metadata_control CONTROL_METADATA_TRACK_ID ''control.metadata.track_id'' ob (nm_track_id (ho_metadata ob)),
      metadata_control CONTROL_METADATA_TITLE ''control.metadata.title'' ob (nm_title (ho_metadata ob)),
      metadata_control CONTROL_METADATA_ARTIST ''control.metadata.artist'' ob (nm_artist (ho_metadata ob)),
      metadata_control CONTROL_METADATA_ALBUM ''control.metadata.album'' ob (nm_album (ho_metadata ob))]"

definition hqp_groups :: "control_group list" where
  "hqp_groups =
     [hqp_group ''transport'' ''group.transport''
        [CONTROL_TRANSPORT_PLAY, CONTROL_TRANSPORT_PAUSE, CONTROL_TRANSPORT_STOP,
         CONTROL_TRANSPORT_PREVIOUS, CONTROL_TRANSPORT_NEXT, CONTROL_TRANSPORT_STATE],
      hqp_group ''metadata'' ''group.metadata''
        [CONTROL_METADATA_TRACK_ID, CONTROL_METADATA_TITLE, CONTROL_METADATA_ARTIST, CONTROL_METADATA_ALBUM],
      hqp_group ''volume'' ''group.volume'' [CONTROL_VOLUME_LEVEL],
      hqp_group ''pipeline'' ''group.pipeline''
        [CONTROL_PIPELINE_MODE, CONTROL_PIPELINE_FILTER_1X, CONTROL_PIPELINE_FILTER_NX,
         CONTROL_PIPELINE_SHAPER, CONTROL_PIPELINE_RATE]]"

type_synonym instant_text = "system_time \<Rightarrow> string"

definition contract_timestamp :: "instant_text \<Rightarrow> system_time \<Rightarrow> timestamp" where
  "contract_timestamp rfc3339 tm = Timestamp (rfc3339 tm)"

definition native_lane :: "instant_text \<Rightarrow> hqp_observation \<Rightarrow> lane_health" where
  "native_lane rfc3339 ob =
     \<lparr>lh_lane = TL_Native, lh_state = LS_Connected,
      lh_last_success = Some (contract_timestamp rfc3339 (ho_observed_at ob)), lh_last_error = None,
      lh_freshness = \<lparr>fr_observed_at = Some (contract_timestamp rfc3339 (ho_observed_at ob)),
        fr_age_ms = None, fr_stale = False\<rparr>,
      lh_extensions = []\<rparr>"

definition native_document :: "instant_text \<Rightarrow> hqp_observation \<Rightarrow> control list \<Rightarrow> producer_document" where
  "native_document rfc3339 ob controls =
     \<lparr>pd_schema_version = CONSUMER_SCHEMA_VERSION,
      pd_producer = \<lparr>pi_producer_id = ''hqplayer:'' @ ho_instance_name ob, pi_producer_type = ''hqplayer'',
        pi_instance_label = ho_instance_label ob, pi_product_version = ho_product_version ob,
        pi_epoch = ProducerEpoch (ho_producer_epoch ob), pi_extensions = []\<rparr>,
      pd_target = \<lparr>pt_role = Role_DspEngine, pt_zone_id = None, pt_extensions = []\<rparr>,
      pd_revisions = dr_new 0 0, pd_lanes = [native_lane rfc3339 ob], pd_groups = hqp_groups,
      pd_controls = controls, pd_constraints = [], pd_draft_policy = None, pd_change_sets = [],
      pd_operations = [], pd_stale = False, pd_extensions = []\<rparr>"

text \<open>The first failing step decides the error, in the order of the code.\<close>

fun all_ok :: "('e + 'a) list \<Rightarrow> 'e + 'a list" where
  "all_ok [] = Inr []"
| "all_ok (Inl e # rs) = Inl e"
| "all_ok (Inr x # rs) = (case all_ok rs of Inl e \<Rightarrow> Inl e | Inr xs \<Rightarrow> Inr (x # xs))"

definition project_native :: "instant_text \<Rightarrow> hqp_observation \<Rightarrow> projection_error + producer_document" where
  "project_native rfc3339 ob =
     (case validate_native_observation ob of
        Inl e \<Rightarrow> Inl e
      | Inr _ \<Rightarrow>
     (case all_ok [mode_control ob, filter_1x_control ob, filter_nx_control ob, shaper_control ob,
          rate_control ob] of
        Inl e \<Rightarrow> Inl e
      | Inr pipeline \<Rightarrow>
          (let controls = transport_controls ob @ metadata_controls ob @ hqp_volume_control ob # pipeline
           in case validate_mutable_control_operations controls of
                Inl e \<Rightarrow> Inl e
              | Inr _ \<Rightarrow> Inr (native_document rfc3339 ob controls))))"

section \<open>Revisions\<close>

text \<open>
  The two views whose changes count. Both forget the revisions, the lanes and the change sets; the
  first one also what describes state, the second one what describes the controls.
\<close>

definition canonical_choices :: "choice_set \<Rightarrow> choice_set" where
  "canonical_choices cs = cs\<lparr>cset_choices := map (\<lambda>c. c\<lparr>ch_availability := None\<rparr>) (cset_choices cs)\<rparr>"

definition control_plane_control :: "control \<Rightarrow> control" where
  "control_plane_control c = c\<lparr>ct_values := [], ct_availability := availability_available,
     ct_divergences := [], ct_choices := map_option canonical_choices (ct_choices c)\<rparr>"

definition canonical_control_plane :: "producer_document \<Rightarrow> producer_document" where
  "canonical_control_plane d = d\<lparr>pd_revisions := dr_new 0 0, pd_lanes := [], pd_change_sets := [],
     pd_operations := [], pd_stale := False, pd_controls := map control_plane_control (pd_controls d)\<rparr>"

definition state_value :: "lane_value \<Rightarrow> lane_value" where
  "state_value v = v\<lparr>lv_freshness := freshness_default,
     lv_provenance := (lv_provenance v)\<lparr>pv_revision := None\<rparr>\<rparr>"

definition state_control :: "control \<Rightarrow> control" where
  "state_control c = c\<lparr>ct_kind := Kind_Text, ct_label_key := None, ct_description_key := None,
     ct_group := None, ct_order := None, ct_widget_hint := None, ct_unit := None, ct_choices := None,
     ct_range := None, ct_apply := None, ct_members := [], ct_values := map state_value (ct_values c)\<rparr>"

definition canonical_state :: "producer_document \<Rightarrow> producer_document" where
  "canonical_state d = d\<lparr>pd_revisions := dr_new 0 0,
     pd_producer := (pd_producer d)\<lparr>pi_instance_label := None, pi_product_version := None,
       pi_epoch := ProducerEpoch 0\<rparr>,
     pd_target := (pd_target d)\<lparr>pt_zone_id := None\<rparr>, pd_lanes := [], pd_groups := [],
     pd_constraints := [], pd_draft_policy := None, pd_change_sets := [],
     pd_controls := map state_control (pd_controls d)\<rparr>"

datatype revision_error =
    EpochBehind u64 u64
  | CounterExhausted string

record revision_tracker =
  tk_epoch :: "u64 option"
  tk_control_plane :: u64
  tk_state :: u64
  tk_previous_control_view :: "producer_document option"
  tk_previous_state_view :: "producer_document option"
  tk_last_document :: "producer_document option"

definition tracker_default :: revision_tracker where
  "tracker_default = \<lparr>tk_epoch = None, tk_control_plane = 0, tk_state = 0,
     tk_previous_control_view = None, tk_previous_state_view = None, tk_last_document = None\<rparr>"

definition next_revision :: "u64 \<Rightarrow> string \<Rightarrow> revision_error + u64" where
  "next_revision current plane = (if current = - 1 then Inl (CounterExhausted plane) else Inr (current + 1))"

text \<open>\<open>is_none_or (previous != view)\<close>, with the derived equality of documents.\<close>

definition differs_from :: "producer_document option \<Rightarrow> producer_document \<Rightarrow> bool" where
  "differs_from previous view = (case previous of None \<Rightarrow> True | Some p \<Rightarrow> \<not> doc_eq p view)"

definition materialize ::
  "revision_tracker \<Rightarrow> producer_document \<Rightarrow> (revision_error + producer_document) \<times> revision_tracker" where
  "materialize tr projected =
     (let epoch = epoch_no (pi_epoch (pd_producer projected)) in
      case (case tk_epoch tr of None \<Rightarrow> None | Some current \<Rightarrow>
              if epoch < current then Some (EpochBehind current epoch) else None) of
        Some e \<Rightarrow> (Inl e, tr)
      | None \<Rightarrow>
     (let control_view = canonical_control_plane projected;
          state_view = canonical_state projected;
          epoch_changed = (tk_epoch tr \<noteq> Some epoch);
          control_plane_advanced = (epoch_changed \<or> differs_from (tk_previous_control_view tr) control_view);
          state_advanced = (epoch_changed \<or> differs_from (tk_previous_state_view tr) state_view);
          numbers =
            (if epoch_changed then Inr (1, 1)
             else case (if control_plane_advanced then next_revision (tk_control_plane tr) ''control_plane''
                        else Inr (tk_control_plane tr)) of
               Inl e \<Rightarrow> Inl e
             | Inr cp \<Rightarrow>
                 (case (if state_advanced then next_revision (tk_state tr) ''state''
                        else Inr (tk_state tr)) of
                    Inl e \<Rightarrow> Inl e
                  | Inr st \<Rightarrow> Inr (cp, st)))
      in case numbers of
           Inl e \<Rightarrow> (Inl e, tr)
         | Inr (cp, st) \<Rightarrow>
             (let document = projected\<lparr>pd_revisions := dr_new cp st\<rparr>
              in (Inr document,
                  \<lparr>tk_epoch = Some epoch, tk_control_plane = cp, tk_state = st,
                   tk_previous_control_view = Some control_view, tk_previous_state_view = Some state_view,
                   tk_last_document = Some document\<rparr>))))"

definition stale_lane :: "timestamp \<Rightarrow> lane_health \<Rightarrow> lane_health" where
  "stale_lane tm h = h\<lparr>lh_state := LS_Disconnected,
     lh_last_error := Some (reason_observed RC_RequiresConnection),
     lh_freshness := (lh_freshness h)\<lparr>fr_observed_at := Some tm, fr_stale := True\<rparr>\<rparr>"

fun update_first :: "('a \<Rightarrow> bool) \<Rightarrow> ('a \<Rightarrow> 'a) \<Rightarrow> 'a list \<Rightarrow> 'a list" where
  "update_first P f [] = []"
| "update_first P f (x # xs) = (if P x then f x # xs else x # update_first P f xs)"

definition mark_transient_failure ::
  "revision_tracker \<Rightarrow> timestamp \<Rightarrow> (revision_error + producer_document option) \<times> revision_tracker" where
  "mark_transient_failure tr tm =
     (case tk_last_document tr of
        None \<Rightarrow> (Inr None, tr)
      | Some d \<Rightarrow>
          (let retained = d\<lparr>pd_stale := True,
                 pd_lanes := update_first (\<lambda>h. lh_lane h = TL_Native) (stale_lane tm) (pd_lanes d)\<rparr>
           in case materialize tr retained of
                (Inl e, tr') \<Rightarrow> (Inl e, tr')
              | (Inr document, tr') \<Rightarrow> (Inr (Some document), tr')))"

end
