(* ===== verification/Hqp_Project_Facts.thy ===== *)
theory Hqp_Project_Facts
  imports Hqp_Project Admission
begin

text \<open>
  What the projection promises: an option has one identity, which determines its name; a projection
  fails only on the evidence it checks; what it builds passes the admission gate; and the numbers the
  tracker gives make each document admissible after the one before it.
\<close>

section \<open>The identity of an option\<close>

lemma hex_digit_inj: "m < 16 \<Longrightarrow> n < 16 \<Longrightarrow> hex_digit m = hex_digit n \<longleftrightarrow> m = n"
proof -
  have e: "char_of i = char_of j \<longleftrightarrow> i = j" if "i < 256" "j < 256" for i j :: nat
    using that by (metis mod_less of_char_of)
  assume "m < 16" "n < 16"
  then show ?thesis unfolding hex_digit_def by (subst e) (auto split: if_splits)
qed

lemma hex_byte_inj [simp]: "hex_byte a = hex_byte b \<longleftrightarrow> a = b"
proof
  assume e: "hex_byte a = hex_byte b"
  let ?a = "of_char a :: nat" and ?b = "of_char b :: nat"
  have l: "?a < 256" "?b < 256" by simp_all
  have "?a div 16 = ?b div 16" "?a mod 16 = ?b mod 16"
    using e l by (simp_all add: hex_byte_def hex_digit_inj less_mult_imp_div_less)
  then have "?a = ?b" by (metis div_mult_mod_eq)
  then show "a = b" by (simp only: of_char_eq_iff)
qed simp

lemma hex_text_inj: "concat (map hex_byte xs) = concat (map hex_byte ys) \<longleftrightarrow> xs = ys"
proof (induction xs arbitrary: ys)
  case Nil
  then show ?case by (cases ys) (simp_all add: hex_byte_def)
next
  case (Cons x xs)
  show ?case
  proof (cases ys)
    case Nil
    then show ?thesis by (simp add: hex_byte_def)
  next
    case (Cons y ys')
    have "length (hex_byte x) = length (hex_byte y)" by (simp add: hex_byte_def)
    then show ?thesis using Cons.IH by (simp add: Cons)
  qed
qed

lemma native_choice_id_inj [simp]: "native_choice_id c a = native_choice_id c b \<longleftrightarrow> a = b"
  by (simp add: native_choice_id_def hex_text_inj)

definition choice_of :: "string \<Rightarrow> string \<Rightarrow> choice" where
  "choice_of c n = choice_new (native_choice_id c n) n"

definition first_occurrences :: "'a list \<Rightarrow> 'a list" where
  "first_occurrences xs = List.rev (remdups (List.rev xs))"

lemma first_occurrences_snoc:
  "first_occurrences (xs @ [x]) = (if x \<in> set xs then first_occurrences xs else first_occurrences xs @ [x])"
  by (simp add: first_occurrences_def)

lemma set_first_occurrences [simp]: "set (first_occurrences xs) = set xs"
  by (simp add: first_occurrences_def)

lemma distinct_first_occurrences [simp]: "distinct (first_occurrences xs)"
  by (simp add: first_occurrences_def)

lemma add_choice_map:
  "add_choice c (map (choice_of c) ns) n = map (choice_of c) (if n \<in> set ns then ns else ns @ [n])"
  by (auto simp: add_choice_def Let_def list_ex_iff choice_of_def choice_new_def)

lemma native_choice_set_eq:
  "native_choice_set c ns = choice_set_runtime (map (choice_of c) (first_occurrences ns))"
proof -
  have "foldl (add_choice c) [] ns = map (choice_of c) (first_occurrences ns)"
  proof (induction ns rule: rev_induct)
    case Nil
    then show ?case by (simp add: first_occurrences_def)
  next
    case (snoc n ns)
    then show ?case by (simp add: add_choice_map first_occurrences_snoc)
  qed
  then show ?thesis by (simp add: native_choice_set_def)
qed

lemma native_choice_set_contains:
  "choice_set_contains (native_choice_set c ns) (native_choice_id c n) \<longleftrightarrow> n \<in> set ns"
  by (auto simp: native_choice_set_eq choice_set_contains_def choice_set_runtime_def list_ex_iff
      choice_of_def choice_new_def)

lemma choice_set_ids_distinct: "distinct (map ch_id (cset_choices (native_choice_set c ns)))"
  by (auto simp: native_choice_set_eq choice_set_runtime_def comp_def choice_of_def choice_new_def
      distinct_map inj_on_def)

section \<open>When a projection succeeds\<close>

definition selection_ok :: "hqp_native_selection \<Rightarrow> bool" where
  "selection_ok s \<longleftrightarrow> ns_selected s \<in> set (ns_choices s)"

definition selection_descriptor ::
  "string \<Rightarrow> string \<Rightarrow> hqp_observation \<Rightarrow> hqp_native_selection \<Rightarrow> apply_semantics option \<Rightarrow>
     availability \<Rightarrow> control" where
  "selection_descriptor i label ob s apply avail =
     hqp_control i Kind_Enumeration label ''pipeline''
       [native_observed (if i = CONTROL_PIPELINE_MODE \<and> ho_mode_is_source ob then CV_Empty
          else CV_Choice (native_choice_id i (ns_selected s)))]
       (Some (native_choice_set i (ns_choices s))) None avail apply None"

lemma selection_control_cases:
  "selection_control i label ob s apply avail =
     (if selection_ok s then Inr (selection_descriptor i label ob s apply avail)
      else Inl (SelectedChoiceMissing i (ns_selected s)))"
  by (simp add: selection_control_def selection_descriptor_def selection_ok_def
      native_choice_set_contains Let_def)

definition native_controls :: "hqp_observation \<Rightarrow> control list" where
  "native_controls ob = transport_controls ob @ metadata_controls ob @ hqp_volume_control ob #
     [projr (mode_control ob), projr (filter_1x_control ob), projr (filter_nx_control ob),
      projr (shaper_control ob), projr (rate_control ob)]"

lemmas pipeline_controls =
  mode_control_def filter_1x_control_def filter_nx_control_def shaper_control_def rate_control_def

lemmas control_builders =
  transport_controls_def metadata_controls_def transport_action_control_def transport_state_control_def
  metadata_control_def hqp_volume_control_def Let_def hqp_control_def selection_descriptor_def

definition observation_ok :: "hqp_observation \<Rightarrow> bool" where
  "observation_ok ob \<longleftrightarrow> validate_native_observation ob = Inr () \<and> selection_ok (ho_mode ob) \<and>
     selection_ok (ho_filter_1x ob) \<and> selection_ok (ho_filter_nx ob) \<and> selection_ok (ho_shaper ob) \<and>
     selection_ok (ho_rate ob)"

lemma semantic_operation_some [simp]:
  "hqp_semantic_operation (ControlId CONTROL_TRANSPORT_PLAY) = Some Op_Play"
  "hqp_semantic_operation (ControlId CONTROL_TRANSPORT_PAUSE) = Some Op_Pause"
  "hqp_semantic_operation (ControlId CONTROL_TRANSPORT_STOP) = Some Op_Stop"
  "hqp_semantic_operation (ControlId CONTROL_TRANSPORT_PREVIOUS) = Some Op_Previous"
  "hqp_semantic_operation (ControlId CONTROL_TRANSPORT_NEXT) = Some Op_Next"
  "hqp_semantic_operation (ControlId CONTROL_VOLUME_LEVEL) = Some Op_SetVolumeDb"
  "hqp_semantic_operation (ControlId CONTROL_PIPELINE_MODE) = Some Op_SetMode"
  "hqp_semantic_operation (ControlId CONTROL_PIPELINE_FILTER_1X) = Some Op_SetFilter1x"
  "hqp_semantic_operation (ControlId CONTROL_PIPELINE_FILTER_NX) = Some Op_SetFilterNx"
  "hqp_semantic_operation (ControlId CONTROL_PIPELINE_SHAPER) = Some Op_SetShaper"
  "hqp_semantic_operation (ControlId CONTROL_PIPELINE_RATE) = Some Op_SetRate"
  by (simp_all add: hqp_semantic_operation_def HQP_SEMANTIC_OPERATION_REGISTRY_def control_names)

text \<open>Every control that can be mutable is in the registry, so the last check never refuses.\<close>

lemma native_controls_executable:
  assumes "observation_ok ob"
  shows "validate_mutable_control_operations (native_controls ob) = Inr ()"
  unfolding validate_mutable_ok_iff
  using assms
  by (auto simp: native_controls_def control_builders pipeline_controls selection_control_cases
      observation_ok_def is_mutable_def)

lemma project_native_cases:
  "project_native rfc3339 ob =
     (case validate_native_observation ob of Inl e \<Rightarrow> Inl e
      | Inr _ \<Rightarrow>
        (if \<not> selection_ok (ho_mode ob)
         then Inl (SelectedChoiceMissing CONTROL_PIPELINE_MODE (ns_selected (ho_mode ob)))
         else if \<not> selection_ok (ho_filter_1x ob)
         then Inl (SelectedChoiceMissing CONTROL_PIPELINE_FILTER_1X (ns_selected (ho_filter_1x ob)))
         else if \<not> selection_ok (ho_filter_nx ob)
         then Inl (SelectedChoiceMissing CONTROL_PIPELINE_FILTER_NX (ns_selected (ho_filter_nx ob)))
         else if \<not> selection_ok (ho_shaper ob)
         then Inl (SelectedChoiceMissing CONTROL_PIPELINE_SHAPER (ns_selected (ho_shaper ob)))
         else if \<not> selection_ok (ho_rate ob)
         then Inl (SelectedChoiceMissing CONTROL_PIPELINE_RATE (ns_selected (ho_rate ob)))
         else Inr (native_document rfc3339 ob (native_controls ob))))"
proof (cases "observation_ok ob")
  case True
  then have v: "validate_native_observation ob = Inr ()"
    and m: "mode_control ob = Inr (projr (mode_control ob))"
      "filter_1x_control ob = Inr (projr (filter_1x_control ob))"
      "filter_nx_control ob = Inr (projr (filter_nx_control ob))"
      "shaper_control ob = Inr (projr (shaper_control ob))"
      "rate_control ob = Inr (projr (rate_control ob))"
    by (simp_all add: observation_ok_def pipeline_controls selection_control_cases)
  have a: "all_ok [mode_control ob, filter_1x_control ob, filter_nx_control ob, shaper_control ob,
      rate_control ob] = Inr [projr (mode_control ob), projr (filter_1x_control ob),
      projr (filter_nx_control ob), projr (shaper_control ob), projr (rate_control ob)]"
    by (subst m(1), subst m(2), subst m(3), subst m(4), subst m(5)) simp
  have "project_native rfc3339 ob = Inr (native_document rfc3339 ob (native_controls ob))"
    using native_controls_executable [OF True]
    by (simp only: project_native_def v a sum.case Let_def native_controls_def)
  then show ?thesis using True by (simp add: observation_ok_def)
next
  case False
  then show ?thesis
    by (cases "validate_native_observation ob")
      (simp_all add: project_native_def observation_ok_def pipeline_controls selection_control_cases)
qed

lemma project_native_ok:
  "project_native rfc3339 ob = Inr d \<longleftrightarrow>
     observation_ok ob \<and> d = native_document rfc3339 ob (native_controls ob)"
  by (auto simp: project_native_cases observation_ok_def split: sum.splits)

section \<open>Quiet documents\<close>

text \<open>
  A document is quiet when nothing in it escapes both views except what a lane refresh may change: no
  change sets, no value with a freshness or a provenance revision of its own, no option that is
  unavailable by itself. The projector builds only such documents.
\<close>

definition quiet_value :: "lane_value \<Rightarrow> bool" where
  "quiet_value v \<longleftrightarrow> lv_freshness v = freshness_default \<and> pv_revision (lv_provenance v) = None"

definition quiet_control :: "control \<Rightarrow> bool" where
  "quiet_control c \<longleftrightarrow> list_all quiet_value (ct_values c) \<and>
     (case ct_choices c of None \<Rightarrow> True
      | Some cs \<Rightarrow> list_all (\<lambda>x. ch_availability x = None) (cset_choices cs))"

definition quiet_document :: "producer_document \<Rightarrow> bool" where
  "quiet_document d \<longleftrightarrow> pd_change_sets d = [] \<and> list_all quiet_control (pd_controls d)"

lemma state_value_quiet: "quiet_value v \<Longrightarrow> state_value v = v"
  by (simp add: quiet_value_def state_value_def)

lemma map_quiet_values: "list_all quiet_value vs \<Longrightarrow> map state_value vs = vs"
  by (induction vs) (simp_all add: state_value_quiet)

lemma quiet_choices: "list_all (\<lambda>x. ch_availability x = None) cs \<Longrightarrow>
    map (\<lambda>c. c\<lparr>ch_availability := None\<rparr>) cs = cs"
  by (induction cs) simp_all

lemma control_plane_control_eq:
  "control_plane_control c = control_plane_control c' \<longleftrightarrow>
     ct_id c = ct_id c' \<and> ct_kind c = ct_kind c' \<and> ct_label_key c = ct_label_key c' \<and>
     ct_description_key c = ct_description_key c' \<and> ct_group c = ct_group c' \<and> ct_order c = ct_order c' \<and>
     ct_widget_hint c = ct_widget_hint c' \<and> ct_unit c = ct_unit c' \<and>
     map_option canonical_choices (ct_choices c) = map_option canonical_choices (ct_choices c') \<and>
     ct_range c = ct_range c' \<and> ct_apply c = ct_apply c' \<and> ct_members c = ct_members c' \<and>
     ct_extensions c = ct_extensions c'"
  unfolding control_plane_control_def by (cases c; cases c') auto

lemma state_control_eq:
  "state_control c = state_control c' \<longleftrightarrow>
     ct_id c = ct_id c' \<and> map state_value (ct_values c) = map state_value (ct_values c') \<and>
     ct_availability c = ct_availability c' \<and> ct_divergences c = ct_divergences c' \<and>
     ct_extensions c = ct_extensions c'"
  unfolding state_control_def by (cases c; cases c') auto

lemma canonical_choices_quiet:
  "list_all (\<lambda>x. ch_availability x = None) (cset_choices cs) \<Longrightarrow> canonical_choices cs = cs"
  by (simp add: canonical_choices_def quiet_choices)

text \<open>A quiet control is the two views of it together.\<close>

lemma quiet_control_eq:
  assumes q: "quiet_control c" "quiet_control c'"
    and e: "control_plane_control c = control_plane_control c'" "state_control c = state_control c'"
  shows "c = c'"
proof -
  have "map_option canonical_choices (ct_choices c) = ct_choices c"
    "map_option canonical_choices (ct_choices c') = ct_choices c'"
    using q by (cases "ct_choices c"; cases "ct_choices c'"; simp add: quiet_control_def canonical_choices_quiet)+
  moreover have "map state_value (ct_values c) = ct_values c" "map state_value (ct_values c') = ct_values c'"
    using q by (simp_all add: quiet_control_def map_quiet_values)
  ultimately show ?thesis
    using e unfolding control_plane_control_eq state_control_eq by (cases c; cases c') simp
qed

lemma quiet_controls_eq:
  "list_all quiet_control cs \<Longrightarrow> list_all quiet_control cs' \<Longrightarrow>
     map control_plane_control cs = map control_plane_control cs' \<Longrightarrow>
     map state_control cs = map state_control cs' \<Longrightarrow> cs = cs'"
proof (induction cs arbitrary: cs')
  case (Cons c cs)
  then show ?case by (cases cs') (auto dest: quiet_control_eq)
qed simp

lemma canonical_control_plane_eq:
  "canonical_control_plane d = canonical_control_plane d' \<longleftrightarrow>
     pd_schema_version d = pd_schema_version d' \<and> pd_producer d = pd_producer d' \<and>
     pd_target d = pd_target d' \<and> pd_groups d = pd_groups d' \<and>
     map control_plane_control (pd_controls d) = map control_plane_control (pd_controls d') \<and>
     pd_constraints d = pd_constraints d' \<and> pd_draft_policy d = pd_draft_policy d' \<and>
     pd_extensions d = pd_extensions d'"
  unfolding canonical_control_plane_def by (cases d; cases d') auto

lemma canonical_state_eqD:
  "canonical_state d = canonical_state d' \<Longrightarrow>
     map state_control (pd_controls d) = map state_control (pd_controls d') \<and>
     pd_operations d = pd_operations d' \<and> pd_stale d = pd_stale d'"
  unfolding canonical_state_def by (cases d; cases d') auto

text \<open>Two quiet documents with the same views differ in lanes and revisions at most.\<close>

lemma quiet_document_eq:
  assumes "quiet_document d" "quiet_document d'"
    "canonical_control_plane d = canonical_control_plane d'" "canonical_state d = canonical_state d'"
  shows "d' = d\<lparr>pd_revisions := pd_revisions d', pd_lanes := pd_lanes d'\<rparr>"
proof -
  note f = assms(3) [unfolded canonical_control_plane_eq] and g = canonical_state_eqD [OF assms(4)]
  have q: "list_all quiet_control (pd_controls d)" "list_all quiet_control (pd_controls d')"
    "pd_change_sets d = []" "pd_change_sets d' = []"
    using assms(1,2) by (simp_all add: quiet_document_def)
  have m: "map control_plane_control (pd_controls d) = map control_plane_control (pd_controls d')"
    using f by (elim conjE)
  have n: "map state_control (pd_controls d) = map state_control (pd_controls d')"
    using g by (elim conjE)
  have c: "pd_controls d = pd_controls d'" by (rule quiet_controls_eq [OF q(1,2) m n])
  have h: "pd_schema_version d' = pd_schema_version d" "pd_producer d' = pd_producer d"
    "pd_target d' = pd_target d" "pd_groups d' = pd_groups d" "pd_constraints d' = pd_constraints d"
    "pd_draft_policy d' = pd_draft_policy d" "pd_extensions d' = pd_extensions d"
    "pd_operations d' = pd_operations d" "pd_stale d' = pd_stale d"
    by (simp_all only: f g)
  show ?thesis
    by (rule producer_document.equality) (simp_all add: h c q)
qed

text \<open>NaN inside a document shows in one of the views.\<close>

lemma views_nan_free:
  assumes "doc_nan_free (canonical_control_plane d)" "doc_nan_free (canonical_state d)" "pd_change_sets d = []"
  shows "doc_nan_free d"
proof -
  have v: "lane_value_nan_free (state_value v) = lane_value_nan_free v" for v
    by (simp add: lane_value_nan_free_def state_value_def)
  have "control_nan_free c" if "control_nan_free (control_plane_control c)" "control_nan_free (state_control c)" for c
    using that by (simp add: control_nan_free_def control_plane_control_def state_control_def list_all_iff v)
  then show ?thesis
    using assms by (auto simp: doc_nan_free_def canonical_control_plane_def canonical_state_def list_all_iff)
qed

section \<open>The tracker\<close>

definition epoch_of :: "producer_document \<Rightarrow> u64" where
  "epoch_of d = epoch_no (pi_epoch (pd_producer d))"

definition tracker_ok :: "revision_tracker \<Rightarrow> bool" where
  "tracker_ok tr =
     (case tk_last_document tr of
        None \<Rightarrow> tk_epoch tr = None
      | Some d \<Rightarrow> tk_epoch tr = Some (epoch_of d) \<and>
          tk_previous_control_view tr = Some (canonical_control_plane d) \<and>
          tk_previous_state_view tr = Some (canonical_state d) \<and>
          pd_revisions d = dr_new (tk_control_plane tr) (tk_state tr) \<and> quiet_document d)"

lemma tracker_default_ok [simp]: "tracker_ok tracker_default"
  by (simp add: tracker_ok_def tracker_default_def)

definition control_plane_changed :: "revision_tracker \<Rightarrow> producer_document \<Rightarrow> bool" where
  "control_plane_changed tr p \<longleftrightarrow> tk_epoch tr \<noteq> Some (epoch_of p) \<or>
     differs_from (tk_previous_control_view tr) (canonical_control_plane p)"

definition state_changed :: "revision_tracker \<Rightarrow> producer_document \<Rightarrow> bool" where
  "state_changed tr p \<longleftrightarrow> tk_epoch tr \<noteq> Some (epoch_of p) \<or>
     differs_from (tk_previous_state_view tr) (canonical_state p)"

definition publication_kind :: "revision_tracker \<Rightarrow> producer_document \<Rightarrow> admission_kind" where
  "publication_kind tr p =
     (if tk_epoch tr \<noteq> Some (epoch_of p) then Fresh
      else if control_plane_changed tr p \<or> state_changed tr p then Advanced else HealthRefresh)"

lemma views_ignore_revisions [simp]:
  "canonical_control_plane (d\<lparr>pd_revisions := r\<rparr>) = canonical_control_plane d"
  "canonical_state (d\<lparr>pd_revisions := r\<rparr>) = canonical_state d"
  by (simp_all add: canonical_control_plane_def canonical_state_def)

lemma epoch_of_revisions [simp]: "epoch_of (d\<lparr>pd_revisions := r\<rparr>) = epoch_of d"
  by (simp add: epoch_of_def)

lemma quiet_revisions [simp]: "quiet_document (d\<lparr>pd_revisions := r\<rparr>) = quiet_document d"
  by (simp add: quiet_document_def)

definition tracked :: "producer_document \<Rightarrow> u64 \<Rightarrow> u64 \<Rightarrow> revision_tracker" where
  "tracked p cp st = \<lparr>tk_epoch = Some (epoch_of p), tk_control_plane = cp, tk_state = st,
     tk_previous_control_view = Some (canonical_control_plane p),
     tk_previous_state_view = Some (canonical_state p),
     tk_last_document = Some (p\<lparr>pd_revisions := dr_new cp st\<rparr>)\<rparr>"

lemma materialize_cases:
  "materialize tr p =
     (if (case tk_epoch tr of None \<Rightarrow> False | Some current \<Rightarrow> epoch_of p < current)
      then (Inl (EpochBehind (the (tk_epoch tr)) (epoch_of p)), tr)
      else if tk_epoch tr \<noteq> Some (epoch_of p)
      then (Inr (p\<lparr>pd_revisions := dr_new 1 1\<rparr>), tracked p 1 1)
      else if control_plane_changed tr p \<and> tk_control_plane tr = - 1
      then (Inl (CounterExhausted ''control_plane''), tr)
      else if state_changed tr p \<and> tk_state tr = - 1 then (Inl (CounterExhausted ''state''), tr)
      else let cp = (if control_plane_changed tr p then tk_control_plane tr + 1 else tk_control_plane tr);
               st = (if state_changed tr p then tk_state tr + 1 else tk_state tr)
           in (Inr (p\<lparr>pd_revisions := dr_new cp st\<rparr>), tracked p cp st))"
proof (cases "tk_epoch tr = Some (epoch_of p)")
  case True
  then show ?thesis
    by (simp add: materialize_def Let_def epoch_of_def [symmetric] next_revision_def
        control_plane_changed_def state_changed_def tracked_def)
next
  case False
  then show ?thesis
    by (cases "tk_epoch tr") (simp_all add: materialize_def Let_def epoch_of_def [symmetric] tracked_def)
qed

lemma materialize_Inl_unchanged: "materialize tr p = (Inl e, tr') \<Longrightarrow> tr' = tr"
  by (auto simp: materialize_cases Let_def split: if_splits)

lemma materialize_InrE:
  assumes "materialize tr p = (Inr d, tr')"
  obtains cp st where "d = p\<lparr>pd_revisions := dr_new cp st\<rparr>" "tr' = tracked p cp st"
    "tk_epoch tr \<noteq> Some (epoch_of p) \<Longrightarrow> cp = 1 \<and> st = 1 \<and> (\<forall>e. tk_epoch tr = Some e \<longrightarrow> e < epoch_of p)"
    "tk_epoch tr = Some (epoch_of p) \<Longrightarrow>
       cp = (if control_plane_changed tr p then tk_control_plane tr + 1 else tk_control_plane tr) \<and>
       st = (if state_changed tr p then tk_state tr + 1 else tk_state tr) \<and>
       (control_plane_changed tr p \<longrightarrow> tk_control_plane tr \<noteq> - 1) \<and> (state_changed tr p \<longrightarrow> tk_state tr \<noteq> - 1)"
proof (cases "tk_epoch tr = Some (epoch_of p)")
  case True
  then show ?thesis
    using assms by (intro that [of "if control_plane_changed tr p then tk_control_plane tr + 1 else tk_control_plane tr"
        "if state_changed tr p then tk_state tr + 1 else tk_state tr"])
      (auto simp: materialize_cases Let_def split: if_splits)
next
  case False
  then show ?thesis
    using assms by (intro that [of 1 1])
      (auto simp: materialize_cases split: if_splits option.splits)
qed

lemma tracked_ok: "quiet_document p \<Longrightarrow> tracker_ok (tracked p cp st)"
  by (simp add: tracker_ok_def tracked_def)

lemma dr_new_le:
  "dr_new a b = dr_new c d \<longleftrightarrow> a = c \<and> b = d"
  "regresses_from (dr_new a b) (dr_new c d) \<longleftrightarrow> a < c \<or> b < d"
  by (auto simp: dr_new_def regresses_from_def less_revision_def)

text \<open>The number given and the kind the gate will see agree.\<close>

lemma unchanged_differs_in_lanes:
  assumes "tracker_ok tr" "quiet_document p" "tk_epoch tr = Some (epoch_of p)"
    "tk_last_document tr = Some held" "\<not> control_plane_changed tr p" "\<not> state_changed tr p"
  shows "\<exists>lanes. p\<lparr>pd_revisions := pd_revisions held\<rparr> = held\<lparr>pd_lanes := lanes\<rparr>" "doc_nan_free held"
proof -
  have q: "quiet_document held" using assms(1,4) by (simp add: tracker_ok_def)
  have v: "doc_eq (canonical_control_plane held) (canonical_control_plane p)"
    "doc_eq (canonical_state held) (canonical_state p)"
    using assms by (simp_all add: tracker_ok_def control_plane_changed_def state_changed_def differs_from_def)
  then have e: "p = held\<lparr>pd_revisions := pd_revisions p, pd_lanes := pd_lanes p\<rparr>"
    by - (rule quiet_document_eq [OF q assms(2)], simp_all only: doc_eq_def)
  have "p\<lparr>pd_revisions := pd_revisions held\<rparr> =
      (held\<lparr>pd_revisions := pd_revisions p, pd_lanes := pd_lanes p\<rparr>)\<lparr>pd_revisions := pd_revisions held\<rparr>"
    by (rule arg_cong [OF e, of "\<lambda>x. x\<lparr>pd_revisions := pd_revisions held\<rparr>"])
  also have "\<dots> = held\<lparr>pd_lanes := pd_lanes p\<rparr>" by simp
  finally show "\<exists>lanes. p\<lparr>pd_revisions := pd_revisions held\<rparr> = held\<lparr>pd_lanes := lanes\<rparr>" by blast
  show "doc_nan_free held"
    by (rule views_nan_free [OF v(1) [unfolded doc_eq_def, THEN conjunct2]
          v(2) [unfolded doc_eq_def, THEN conjunct2] q [unfolded quiet_document_def, THEN conjunct1]])
qed

lemma materialize_orders:
  assumes "tracker_ok tr" "quiet_document p" "materialize tr p = (Inr d, tr')"
  shows "relate (tk_last_document tr) d = Inr (publication_kind tr p)"
proof (cases "tk_last_document tr")
  case None
  then have "tk_epoch tr = None" using assms(1) by (simp add: tracker_ok_def)
  then show ?thesis by (simp add: relate_def None publication_kind_def)
next
  case (Some held)
  obtain cp st where d: "d = p\<lparr>pd_revisions := dr_new cp st\<rparr>"
    and fresh: "tk_epoch tr \<noteq> Some (epoch_of p) \<Longrightarrow> cp = 1 \<and> st = 1 \<and> (\<forall>e. tk_epoch tr = Some e \<longrightarrow> e < epoch_of p)"
    and same: "tk_epoch tr = Some (epoch_of p) \<Longrightarrow>
       cp = (if control_plane_changed tr p then tk_control_plane tr + 1 else tk_control_plane tr) \<and>
       st = (if state_changed tr p then tk_state tr + 1 else tk_state tr) \<and>
       (control_plane_changed tr p \<longrightarrow> tk_control_plane tr \<noteq> - 1) \<and> (state_changed tr p \<longrightarrow> tk_state tr \<noteq> - 1)"
    using assms(3) by (rule materialize_InrE) blast
  have h: "tk_epoch tr = Some (epoch_of held)" "pd_revisions held = dr_new (tk_control_plane tr) (tk_state tr)"
    using assms(1) Some by (simp_all add: tracker_ok_def)
  have pd: "pi_epoch (pd_producer p) = ProducerEpoch (epoch_of p)" "pi_epoch (pd_producer held) = ProducerEpoch (epoch_of held)"
    by (simp_all add: epoch_of_def)
  show ?thesis
  proof (cases "tk_epoch tr = Some (epoch_of p)")
    case False
    then have "epoch_of held < epoch_of p" using fresh h by simp
    then have "ordering held d = Inr Fresh"
      by (simp add: ordering_Fresh_iff d pd less_producer_epoch_def)
    then show ?thesis using False by (simp add: relate_def Some publication_kind_def)
  next
    case True
    note s = same [OF True]
    have eq: "pi_epoch (pd_producer held) = pi_epoch (pd_producer d)" using True h by (simp add: d pd)
    show ?thesis
    proof (cases "control_plane_changed tr p \<or> state_changed tr p")
      case True
      then have "advances_over (pd_revisions d) (pd_revisions held)"
        using s by (auto simp: advances_over_def d h dr_new_le not_less dest: wrap_succ_gt
            intro: order_less_imp_le)
      then have "ordering held d = Inr Advanced" by (simp add: ordering_Advanced_iff eq)
      then show ?thesis using True \<open>tk_epoch tr = Some (epoch_of p)\<close>
        by (simp add: relate_def Some publication_kind_def)
    next
      case False
      then have n: "pd_revisions d = pd_revisions held" using s by (simp add: d h)
      obtain lanes where "p\<lparr>pd_revisions := pd_revisions held\<rparr> = held\<lparr>pd_lanes := lanes\<rparr>"
        and nf: "doc_nan_free held"
        using unchanged_differs_in_lanes [OF assms(1,2) True Some] False by blast
      then have "d = held\<lparr>pd_lanes := lanes, pd_stale := pd_stale held\<rparr>"
        using n by (simp add: d)
      then have "ordering held d = Inr HealthRefresh" unfolding ordering_HealthRefresh_iff using nf by blast
      then show ?thesis using True False by (simp add: relate_def Some publication_kind_def)
    qed
  qed
qed

section \<open>The gate admits what the projector builds\<close>

definition audit_ok :: "instant_parser \<Rightarrow> operation_record list \<Rightarrow> bool" where
  "audit_ok parse ops \<longleftrightarrow> (\<forall>r \<in> set ops. \<forall>t \<in> set (or_history r).
     may_transition_to (ot_from t) (ot_to t) \<and> parse (ts_str (ot_at t)) \<noteq> None)"

definition plain_value :: "lane_value \<Rightarrow> bool" where
  "plain_value v \<longleftrightarrow> quiet_value v \<and> is_consistent v"

definition plain_control :: "control \<Rightarrow> bool" where
  "plain_control c \<longleftrightarrow> quiet_control c \<and> list_all plain_value (ct_values c) \<and> has_unique_lanes c \<and>
     is_well_formed (ct_availability c) \<and> ct_divergences c = []"

lemma observed_plain [simp]: "plain_value (native_observed v)" "plain_value (native_unobserved r)"
  by (simp_all add: plain_value_def quiet_value_def native_observed_def native_unobserved_def
      lv_grounded_def lv_ungrounded_def is_consistent_def provenance_runtime_def)

lemma metadata_lane_plain [simp]: "plain_value (metadata_lane t v)"
  by (simp add: metadata_lane_def split: hqp_native_transport_state.split option.split)

lemma plain_is_quiet [simp]: "plain_value v \<Longrightarrow> quiet_value v"
  by (simp add: plain_value_def)

lemma availabilities_well_formed [simp]:
  "is_well_formed availability_available" "is_well_formed (hqp_read_only k)"
  "is_well_formed (hqp_unavailable c s k)"
  by (simp_all add: is_well_formed_def availability_available_def hqp_read_only_def
      hqp_unavailable_def availability_unavailable_def)

lemma native_choices_quiet [simp]:
  "list_all (\<lambda>x. ch_availability x = None) (cset_choices (native_choice_set c ns))"
  by (simp add: native_choice_set_eq choice_set_runtime_def list_all_iff choice_of_def choice_new_def)

lemma hqp_control_plain [simp]:
  "plain_control (hqp_control i k l g vs cs rg av ap u) \<longleftrightarrow>
     list_all plain_value vs \<and> distinct (map lv_lane vs) \<and> is_well_formed av \<and>
     (case cs of None \<Rightarrow> True | Some x \<Rightarrow> list_all (\<lambda>x. ch_availability x = None) (cset_choices x))"
  by (auto simp: plain_control_def quiet_control_def hqp_control_def has_unique_lanes_iff list_all_iff
      split: option.splits)

lemma native_controls_plain:
  assumes "observation_ok ob"
  shows "list_all plain_control (native_controls ob)"
  using assms
  by (simp add: native_controls_def transport_controls_def metadata_controls_def transport_action_control_def
      transport_state_control_def metadata_control_def hqp_volume_control_def Let_def selection_descriptor_def
      pipeline_controls selection_control_cases observation_ok_def)

lemma plain_controls_quiet: "list_all plain_control cs \<Longrightarrow> list_all quiet_control cs"
  by (auto simp: list_all_iff plain_control_def)

definition publishable :: "instant_parser \<Rightarrow> producer_document \<Rightarrow> bool" where
  "publishable parse d \<longleftrightarrow>
     pd_schema_version d = CONSUMER_SCHEMA_VERSION \<and> pd_constraints d = [] \<and>
     pt_zone_id (pd_target d) = None \<and> list_all plain_control (pd_controls d) \<and>
     pd_draft_policy d = None \<and> pd_change_sets d = [] \<and> distinct (map lh_lane (pd_lanes d)) \<and>
     (\<forall>h \<in> set (pd_lanes d). \<forall>t. lh_last_success h = Some t \<or> fr_observed_at (lh_freshness h) = Some t \<longrightarrow>
        parse (ts_str t) \<noteq> None) \<and>
     audit_ok parse (pd_operations d)"

lemma publishable_quiet: "publishable parse d \<Longrightarrow> quiet_document d"
  by (simp add: publishable_def quiet_document_def plain_controls_quiet)

lemma publishable_revisions [simp]: "publishable parse (d\<lparr>pd_revisions := r\<rparr>) = publishable parse d"
  by (simp add: publishable_def)

lemma enumerate_mem: "(i, x) \<in> set (enumerate n xs) \<Longrightarrow> x \<in> set xs"
  by (auto simp: in_set_enumerate_eq)

lemma publishable_timestamps:
  assumes "publishable parse d" "f \<in> set (timestamp_fields d)"
  shows "parse (ts_str (snd f)) \<noteq> None"
proof -
  have c: "fr_observed_at (lv_freshness v) = None" if "c \<in> set (pd_controls d)" "v \<in> set (ct_values c)" for c v
    using assms(1) that by (auto simp: publishable_def list_all_iff plain_control_def plain_value_def
        quiet_value_def freshness_default_def)
  have g: "ct_divergences c = []" if "c \<in> set (pd_controls d)" for c
    using assms(1) that by (auto simp: publishable_def list_all_iff plain_control_def)
  show ?thesis
    using assms
    by (auto simp: timestamp_fields_def opt_field_def publishable_def audit_ok_def
        dest!: enumerate_mem split: option.splits dest: c g)
qed

lemma publishable_envelope: "publishable parse d \<Longrightarrow> envelope_ok parse d"
proof -
  assume p: "publishable parse d"
  then have "first_timestamp_defect parse d = None"
    unfolding first_timestamp_None_iff using publishable_timestamps by blast
  moreover have "first_lane_defect d = None"
    using p by (auto simp: first_lane_None_iff publishable_def list_all_iff plain_control_def plain_value_def)
  moreover have "first_shape_defect parse d = None"
    using p by (auto simp: first_shape_None_iff publishable_def list_all_iff plain_control_def)
  moreover have "first_illegal_transition d = None"
    using p by (auto simp: first_illegal_None_iff publishable_def audit_ok_def)
  ultimately show ?thesis
    using p by (simp add: envelope_ok_def publishable_def zone_id_defect_def)
qed

lemma no_intent_coherent: "pd_change_sets d = [] \<Longrightarrow> coherent d"
  by (simp add: coherent_def valid_pairs_def)

lemma publishable_admitted:
  assumes "publishable parse d" "relate held d = Inr kind"
  shows "admit parse held d = Admitted \<lparr>ad_document = d, ad_repairs = [], ad_kind = kind\<rparr>"
proof -
  have "repair_intent d = (d, [])"
    using assms(1) by (intro repair_of_coherent no_intent_coherent) (simp add: publishable_def)
  then show ?thesis using assms by (simp add: admit_envelope_ok publishable_envelope)
qed

lemma native_document_publishable:
  assumes "observation_ok ob" "\<And>t. parse (text t) \<noteq> None" "audit_ok parse ops"
  shows "publishable parse ((native_document text ob (native_controls ob))\<lparr>pd_operations := ops\<rparr>)"
  using assms native_controls_plain [OF assms(1)]
  by (auto simp: publishable_def native_document_def native_lane_def contract_timestamp_def)

lemma update_first_lane:
  "(\<And>h. P h \<Longrightarrow> lh_lane (f h) = lh_lane h) \<Longrightarrow> map lh_lane (update_first P f hs) = map lh_lane hs"
  by (induction hs) simp_all

lemma update_first_mem: "x \<in> set (update_first P f xs) \<Longrightarrow> x \<in> set xs \<or> (\<exists>y \<in> set xs. x = f y)"
  by (induction xs) (auto split: if_splits)

definition retained_stale :: "timestamp \<Rightarrow> producer_document \<Rightarrow> producer_document" where
  "retained_stale tm d = d\<lparr>pd_stale := True,
     pd_lanes := update_first (\<lambda>h. lh_lane h = TL_Native) (stale_lane tm) (pd_lanes d)\<rparr>"

lemma retained_stale_publishable:
  assumes "publishable parse d" "parse (ts_str tm) \<noteq> None"
  shows "publishable parse (retained_stale tm d)"
  using assms
  by (auto simp: publishable_def retained_stale_def update_first_lane stale_lane_def dest!: update_first_mem)

lemma mark_transient_failure_cases:
  "mark_transient_failure tr tm =
     (case tk_last_document tr of None \<Rightarrow> (Inr None, tr)
      | Some d \<Rightarrow> (case materialize tr (retained_stale tm d) of
           (Inl e, tr') \<Rightarrow> (Inl e, tr') | (Inr d', tr') \<Rightarrow> (Inr (Some d'), tr')))"
  unfolding mark_transient_failure_def retained_stale_def Let_def by (rule HOL.refl)

text \<open>
  Once the tracker holds a stale document, one more failure only refreshes the lanes: the document
  keeps its revisions, unless it holds a NaN.
\<close>

lemma stale_again:
  assumes "tracker_ok tr" "tk_last_document tr = Some d" "pd_stale d" "doc_nan_free d"
  shows "mark_transient_failure tr tm =
    (Inr (Some (retained_stale tm d)), tracked (retained_stale tm d) (tk_control_plane tr) (tk_state tr))"
proof -
  let ?p = "retained_stale tm d"
  have v: "canonical_control_plane ?p = canonical_control_plane d" "canonical_state ?p = canonical_state d"
    and e: "epoch_of ?p = epoch_of d" and r: "pd_revisions ?p = pd_revisions d"
    using assms(3) by (simp_all add: retained_stale_def canonical_control_plane_def canonical_state_def epoch_of_def)
  have vn: "lane_value_nan_free (state_value v) = lane_value_nan_free v" for v
    by (simp add: lane_value_nan_free_def state_value_def)
  have cn: "control_nan_free c \<Longrightarrow> control_nan_free (control_plane_control c) \<and> control_nan_free (state_control c)" for c
    by (simp add: control_nan_free_def control_plane_control_def state_control_def list_all_iff vn)
  have "doc_nan_free (canonical_control_plane d)" "doc_nan_free (canonical_state d)"
    using assms(4) cn by (auto simp: doc_nan_free_def canonical_control_plane_def canonical_state_def list_all_iff)
  then have n: "\<not> control_plane_changed tr ?p" "\<not> state_changed tr ?p"
    using assms(1,2) by (simp_all add: tracker_ok_def control_plane_changed_def state_changed_def
        differs_from_def doc_eq_def v e)
  have "?p\<lparr>pd_revisions := dr_new (tk_control_plane tr) (tk_state tr)\<rparr> = ?p"
    using assms(1,2) r by (simp add: tracker_ok_def)
  then show ?thesis
    using assms(1,2) n by (simp add: mark_transient_failure_cases materialize_cases tracker_ok_def e Let_def)
qed

end
