(* ===== verification/Hqp_Command.thy ===== *)
theory Hqp_Command
  imports Hqp_Project_Facts Producer_Aggregator Naa_Frame
begin

text \<open>
  The advisory checks of an immediate HQPlayer command and the fingerprint that identifies a request
  (\<open>src/producers/hqplayer_command.rs\<close>).

  Two texts are parameters: \<open>bits\<close> is \<open>f64::to_bits\<close> (the model's doubles do not keep the sign of
  zero), \<open>num_text\<close> prints a JSON number as \<open>serde_json\<close> does.
\<close>

section \<open>Requests\<close>

record hqp_immediate_command_request =
  hr_key :: producer_key
  hr_expected :: revision_ref
  hr_control :: control_id
  hr_requested :: control_value
  hr_lane :: apply_lane
  hr_correlation_id :: string

datatype hqp_command_fingerprint = HqpCommandFingerprint (fp_bytes: "u8 list")

datatype hqp_engine_value = EngineName string | EngineRate u32

record hqp_validated_command =
  vc_request :: hqp_immediate_command_request
  vc_operation :: hqp_semantic_operation_kind
  vc_engine_value :: hqp_engine_value
  vc_fingerprint :: hqp_command_fingerprint

datatype hqp_preflight_refusal =
    CorrelationIdEmpty
  | CorrelationIdTooLong nat nat
  | ProducerMismatch
  | RevisionMismatch revision_ref revision_ref
  | ProducerNotLive
  | ProducerStale
  | NativeLaneMissing
  | NativeLaneUnavailable
  | NativeLaneStale
  | ControlUnknown
  | ControlUnavailable
  | ControlReadOnly
  | WrongApplyLane
  | NonImmediateRequest
  | WrongControlKind
  | WrongValueKind
  | UnknownChoice
  | ChoiceUnavailable
  | ChoiceMissingEngineName
  | InvalidRateEngineName
  | DeferredToIssue328 hqp_semantic_operation_kind
  | UnsupportedControl

definition MAX_CORRELATION_ID_BYTES :: nat where
  "MAX_CORRELATION_ID_BYTES = 256"

definition validate_correlation_id :: "string \<Rightarrow> hqp_preflight_refusal + unit" where
  "validate_correlation_id i =
     (if i = [] then Inl CorrelationIdEmpty
      else if length i > MAX_CORRELATION_ID_BYTES
      then Inl (CorrelationIdTooLong MAX_CORRELATION_ID_BYTES (length i))
      else Inr ())"

section \<open>The fingerprint\<close>

definition u64_to_be :: "u64 \<Rightarrow> u8 list" where
  "u64_to_be w = map (\<lambda>i. word_of_nat (unat w div 256 ^ i)) [7, 6, 5, 4, 3, 2, 1, 0]"

definition append_bytes :: "u8 list \<Rightarrow> u8 list" where
  "append_bytes bs = u64_to_be (word_of_nat (length bs)) @ bs"

definition append_optional_bytes :: "u8 list option \<Rightarrow> u8 list" where
  "append_optional_bytes v = (case v of None \<Rightarrow> [0] | Some bs \<Rightarrow> 1 # append_bytes bs)"

definition length_bytes :: "'a list \<Rightarrow> u8 list" where
  "length_bytes xs = u64_to_be (word_of_nat (length xs))"

definition bool_byte :: "bool \<Rightarrow> u8" where
  "bool_byte b = (if b then 1 else 0)"

text \<open>\<open>sort_unstable_by_key\<close>: the keys of an object are distinct, so the order is unique.\<close>

fun append_json_value :: "(json_number \<Rightarrow> string) \<Rightarrow> json \<Rightarrow> u8 list" where
  "append_json_value num_text JNull = [0]"
| "append_json_value num_text (JBool b) = [1, bool_byte b]"
| "append_json_value num_text (JNum n) = 2 # append_bytes (bytes_of (num_text n))"
| "append_json_value num_text (JStr s) = 3 # append_bytes (bytes_of s)"
| "append_json_value num_text (JArr xs) =
     4 # length_bytes xs @ concat (map (append_json_value num_text) xs)"
| "append_json_value num_text (JObj es) =
     5 # length_bytes es @ concat (map (\<lambda>kv. append_bytes (bytes_of (fst kv)) @
       append_json_value num_text (snd kv)) (sort_key fst es))"

fun append_control_value :: "(f64 \<Rightarrow> u64) \<Rightarrow> (json_number \<Rightarrow> string) \<Rightarrow> control_value \<Rightarrow> u8 list" where
  "append_control_value bits num_text CV_Empty = [0]"
| "append_control_value bits num_text (CV_Bool b) = [1, bool_byte b]"
| "append_control_value bits num_text (CV_Integer i) = 2 # u64_to_be i"
| "append_control_value bits num_text (CV_Decimal x) = 3 # u64_to_be (bits x)"
| "append_control_value bits num_text (CV_Text s) = 4 # append_bytes (bytes_of s)"
| "append_control_value bits num_text (CV_Choice s) = 5 # append_bytes (bytes_of s)"
| "append_control_value bits num_text (CV_Composite es) =
     6 # length_bytes es @ concat (map (\<lambda>kv. append_bytes (bytes_of (fst kv)) @
       append_control_value bits num_text (snd kv)) es)"
| "append_control_value bits num_text (CV_List vs) =
     7 # length_bytes vs @ concat (map (append_control_value bits num_text) vs)"
| "append_control_value bits num_text (CV_Unrecognized kind raw) =
     8 # append_bytes (bytes_of kind) @ append_json_value num_text raw"

definition fingerprint ::
  "(f64 \<Rightarrow> u64) \<Rightarrow> (json_number \<Rightarrow> string) \<Rightarrow> hqp_immediate_command_request \<Rightarrow> hqp_command_fingerprint" where
  "fingerprint bits num_text r = HqpCommandFingerprint
     (bytes_of ''hqp-immediate-command-v1'' @ [0] @
      append_bytes (bytes_of (pk_producer_id (hr_key r))) @
      append_bytes (bytes_of (target_role_as_str (pk_role (hr_key r)))) @
      append_optional_bytes (map_option bytes_of (pk_zone_id (hr_key r))) @
      u64_to_be (epoch_no (rr_epoch (hr_expected r))) @
      u64_to_be (rev_no (rr_control_plane (hr_expected r))) @
      u64_to_be (rev_no (rr_state (hr_expected r))) @
      append_bytes (bytes_of (cid_str (hr_control r))) @
      append_bytes (bytes_of (apply_lane_as_str (hr_lane r))) @
      append_control_value bits num_text (hr_requested r))"

section \<open>The checks\<close>

definition choice_is_mutable :: "choice \<Rightarrow> bool" where
  "choice_is_mutable c = (case ch_availability c of None \<Rightarrow> True | Some a \<Rightarrow> permits_mutation a)"

definition parse_u32 :: "string \<Rightarrow> u32 option" where
  "parse_u32 s =
     (let ds = (case s of c # cs \<Rightarrow> if c = CHR ''+'' then cs else s | [] \<Rightarrow> []) in
      if ds = [] \<or> \<not> list_all is_ascii_digit ds then None
      else if digits_value ds < 2 ^ 32 then Some (word_of_nat (digits_value ds)) else None)"

fun is_deferred :: "hqp_semantic_operation_kind \<Rightarrow> bool" where
  "is_deferred Op_Play = True"
| "is_deferred Op_Pause = True"
| "is_deferred Op_Stop = True"
| "is_deferred Op_Previous = True"
| "is_deferred Op_Next = True"
| "is_deferred Op_SetVolumeDb = True"
| "is_deferred p = False"

text \<open>The part of the checks that looks at the snapshot alone.\<close>

definition preflight_snapshot ::
  "producer_snapshot \<Rightarrow> hqp_immediate_command_request \<Rightarrow> hqp_preflight_refusal option" where
  "preflight_snapshot sn r =
     (let actual = doc_position (sn_document sn) in
      if sn_key sn \<noteq> hr_key r then Some ProducerMismatch
      else if actual \<noteq> hr_expected r then Some (RevisionMismatch (hr_expected r) actual)
      else if sn_presence sn \<noteq> Live then Some ProducerNotLive
      else if pd_stale (sn_document sn) then Some ProducerStale
      else case doc_lane_health (sn_document sn) TL_Native of
        None \<Rightarrow> Some NativeLaneMissing
      | Some native \<Rightarrow>
          (if lh_state native \<noteq> LS_Connected then Some NativeLaneUnavailable
           else if fr_stale (lh_freshness native) then Some NativeLaneStale
           else None))"

definition preflight_choice ::
  "control \<Rightarrow> control_value \<Rightarrow> hqp_preflight_refusal + string" where
  "preflight_choice c requested =
     (case requested of
        CV_Choice wanted \<Rightarrow>
          (case Option.bind (ct_choices c) (\<lambda>cs. find (\<lambda>x. ch_id x = wanted) (cset_choices cs)) of
             None \<Rightarrow> Inl UnknownChoice
           | Some x \<Rightarrow>
               (if \<not> choice_is_mutable x then Inl ChoiceUnavailable
                else case ch_engine_name x of
                  None \<Rightarrow> Inl ChoiceMissingEngineName
                | Some n \<Rightarrow> (if n = [] then Inl ChoiceMissingEngineName else Inr n)))
      | _ \<Rightarrow> Inl WrongValueKind)"

definition preflight_control ::
  "hqp_semantic_operation_kind \<Rightarrow> control \<Rightarrow> hqp_immediate_command_request \<Rightarrow>
     hqp_preflight_refusal + hqp_engine_value" where
  "preflight_control operation c r =
     (if \<not> permits_mutation (ct_availability c) then Inl ControlUnavailable
      else if \<not> is_mutable c then Inl ControlReadOnly
      else case ct_apply c of
        None \<Rightarrow> Inl ControlReadOnly
      | Some apply \<Rightarrow>
          (if as_lane apply \<noteq> hr_lane r then Inl WrongApplyLane
           else if ct_kind c \<noteq> Kind_Enumeration then Inl WrongControlKind
           else case preflight_choice c (hr_requested r) of
             Inl e \<Rightarrow> Inl e
           | Inr engine_name \<Rightarrow>
               (if is_deferred operation then Inl (DeferredToIssue328 operation)
                else if operation = Op_SetRate
                then (case parse_u32 engine_name of None \<Rightarrow> Inl InvalidRateEngineName
                      | Some rate \<Rightarrow> Inr (EngineRate rate))
                else Inr (EngineName engine_name))))"

definition preflight ::
  "(f64 \<Rightarrow> u64) \<Rightarrow> (json_number \<Rightarrow> string) \<Rightarrow> producer_snapshot \<Rightarrow> hqp_immediate_command_request \<Rightarrow>
     hqp_preflight_refusal + hqp_validated_command" where
  "preflight bits num_text sn r =
     (case validate_correlation_id (hr_correlation_id r) of
        Inl e \<Rightarrow> Inl e
      | Inr _ \<Rightarrow>
     (case preflight_snapshot sn r of
        Some e \<Rightarrow> Inl e
      | None \<Rightarrow>
          (if hr_lane r \<noteq> AL_Immediate then Inl NonImmediateRequest
           else case hqp_semantic_operation (hr_control r) of
             None \<Rightarrow> Inl UnsupportedControl
           | Some operation \<Rightarrow>
               (if is_deferred operation then Inl (DeferredToIssue328 operation)
                else case doc_control (sn_document sn) (hr_control r) of
                  None \<Rightarrow> Inl ControlUnknown
                | Some c \<Rightarrow>
                    (case preflight_control operation c r of
                       Inl e \<Rightarrow> Inl e
                     | Inr value \<Rightarrow>
                         Inr \<lparr>vc_request = r, vc_operation = operation, vc_engine_value = value,
                              vc_fingerprint = fingerprint bits num_text r\<rparr>)))))"

end
