(* ===== verification/Hqp_Coord.thy ===== *)
theory Hqp_Coord
  imports Hqp_Command
begin

text \<open>
  The coordinator of the HQPlayer producer (\<open>src/producers/hqplayer.rs\<close>): the one actor that owns
  the run, the documents, the operation ledgers and the leases. Each command it takes from its channel
  is one step. While a step awaits the adaptive handle nothing else touches its state, so the answers
  of the handle are an input: a list that each publication and each retirement takes the next entry
  of. A closed channel is an answer that failed.

  The order in which a \<open>HashMap\<close> yields its keys is the order of the association list, which no
  definition here restricts. An error text is the value that is printed into it.
\<close>

section \<open>Leases and replies\<close>

datatype hqp_conflict_set = ConflictPipeline

record hqp_command_lease =
  le_producer_id :: string
  le_producer_epoch :: producer_epoch
  le_run_id :: "adapter_run_id option"
  le_conflict_set :: hqp_conflict_set
  le_generation :: u64
  le_correlation_id :: string
  le_operation_id :: operation_id
  le_execution_target :: "hqp_execution_target option"

datatype hqp_reservation_disposition = NewReservation | DuplicateReservation

record hqp_command_reservation =
  rv_lease :: hqp_command_lease
  rv_operation :: operation_record
  rv_disposition :: hqp_reservation_disposition

record hqp_command_completion =
  cp_outcome :: command_outcome
  cp_write_attempt :: write_attempt
  cp_at :: timestamp
  cp_recovery :: "recovery_state option"
  cp_reason :: "reason option"

datatype revision_failure =
    ByProjection projection_error
  | ByRevision revision_error
  | GenerationExhausted

datatype hqp_coordinator_refusal =
    CoordinatorClosed
  | LifecycleNotRunning
  | ProducerUnknown
  | RefusedByPreflight hqp_preflight_refusal
  | HqpCorrelationConflict
  | InvalidCorrelation
  | ConflictBusy
  | UnresolvedRetentionFull
  | StaleLease
  | LeaseStillCurrent
  | IllegalTransition
  | RevisionFailed revision_failure
  | PublicationFailed string
  | RetirementFailed string

section \<open>State\<close>

definition MAX_TERMINAL_OPERATIONS :: nat where "MAX_TERMINAL_OPERATIONS = 32"
definition MAX_CORRELATION_TOMBSTONES :: nat where "MAX_CORRELATION_TOMBSTONES = 256"
definition MAX_RETIRED_INSTANCES :: nat where "MAX_RETIRED_INSTANCES = 64"
definition MAX_UNRESOLVED_OPERATIONS :: nat where "MAX_UNRESOLVED_OPERATIONS = 32"
definition TERMINAL_PUBLICATION_RETRIES :: nat where "TERMINAL_PUBLICATION_RETRIES = 1"

record hqp_correlation_reservation =
  kr_fingerprint :: hqp_command_fingerprint
  kr_lease :: hqp_command_lease

type_synonym correlation_map = "(string \<times> hqp_correlation_reservation) list"
type_synonym tombstone_map = "(string \<times> hqp_command_fingerprint) list"

record hqp_deferred_commit =
  dc_tracker :: revision_tracker
  dc_ledger :: "operation_record list"
  dc_active_pipeline :: "u64 option"
  dc_dispatch_in_progress :: "u64 set"
  dc_correlation_tombstones :: tombstone_map
  dc_correlation_tombstone_order :: "string list"

record hqp_instance =
  in_tracker :: revision_tracker
  in_ledger :: "operation_record list"
  in_next_generation :: u64
  in_correlations :: correlation_map
  in_correlation_tombstones :: tombstone_map
  in_correlation_tombstone_order :: "string list"
  in_active_pipeline :: "u64 option"
  in_dispatch_in_progress :: "u64 set"
  in_execution_target :: "hqp_execution_target option"
  in_deferred_commit :: "hqp_deferred_commit option"
  in_retirement_requested :: "producer_epoch option"

definition instance_default :: hqp_instance where
  "instance_default = \<lparr>in_tracker = tracker_default, in_ledger = [], in_next_generation = 0,
     in_correlations = [], in_correlation_tombstones = [], in_correlation_tombstone_order = [],
     in_active_pipeline = None, in_dispatch_in_progress = {}, in_execution_target = None,
     in_deferred_commit = None, in_retirement_requested = None\<rparr>"

record hqp_retired_instance =
  ri_producer_epoch :: producer_epoch
  ri_ledger :: "operation_record list"
  ri_correlations :: correlation_map

datatype publish_answer = PublishAdmitted | PublishFailed string

datatype retire_answer = RetireDone | RetireFailed string

text \<open>
  The fields of the coordinator, and its world: the registry of runs, the answers the handle will
  give, and the documents offered so far with the answer to each. \<open>hc_panicked\<close> is set when the
  registry has no run id left, which ends the actor.
\<close>

record hqp_coordinator =
  hc_run :: "publication_origin option"
  hc_instances :: "(string \<times> hqp_instance) list"
  hc_retired_instances :: "(string \<times> hqp_retired_instance) list"
  hc_retired_instance_order :: "string list"
  hc_stop_requested :: bool
  hc_runs :: run_state
  hc_publish_answers :: "publish_answer list"
  hc_retire_answers :: "retire_answer list"
  hc_offered :: "(publication_origin \<times> producer_document \<times> publish_answer) list"
  hc_panicked :: bool

definition hqp_coordinator_new :: "run_state \<Rightarrow> hqp_coordinator" where
  "hqp_coordinator_new runs = \<lparr>hc_run = None, hc_instances = [], hc_retired_instances = [],
     hc_retired_instance_order = [], hc_stop_requested = False, hc_runs = runs, hc_publish_answers = [],
     hc_retire_answers = [], hc_offered = [], hc_panicked = False\<rparr>"

type_synonym 'a reply = "hqp_coordinator_refusal + 'a"

section \<open>Small helpers\<close>

definition put_instance :: "string \<Rightarrow> hqp_instance \<Rightarrow> hqp_coordinator \<Rightarrow> hqp_coordinator" where
  "put_instance name st co = co\<lparr>hc_instances := hm_insert name st (hc_instances co)\<rparr>"

definition drop_instance :: "string \<Rightarrow> hqp_coordinator \<Rightarrow> hqp_coordinator" where
  "drop_instance name co = co\<lparr>hc_instances := hm_remove name (hc_instances co)\<rparr>"

definition instance_of :: "hqp_coordinator \<Rightarrow> string \<Rightarrow> hqp_instance option" where
  "instance_of co name = map_of (hc_instances co) name"

definition validate_correlation :: "string \<Rightarrow> unit reply" where
  "validate_correlation i =
     (if i = [] \<or> length i > MAX_CORRELATION_ID_BYTES then Inl InvalidCorrelation else Inr ())"

definition instance_name_from_producer_id :: "string \<Rightarrow> string" where
  "instance_name_from_producer_id i = (case strip_prefix i ''hqplayer:'' of None \<Rightarrow> [] | Some n \<Rightarrow> n)"

definition named_instance :: "string \<Rightarrow> string option" where
  "named_instance producer_id =
     (case strip_prefix producer_id ''hqplayer:'' of None \<Rightarrow> None
      | Some n \<Rightarrow> if n = [] then None else Some n)"

definition operation_is_unresolved :: "operation_record \<Rightarrow> bool" where
  "operation_is_unresolved r = awaits_convergence (or_outcome r)"

definition has_pending_operations :: "hqp_instance \<Rightarrow> bool" where
  "has_pending_operations st \<longleftrightarrow> list_ex (\<lambda>r. or_outcome r = CO_Pending) (in_ledger st)"

definition retain_retired_instance ::
  "string \<Rightarrow> hqp_retired_instance \<Rightarrow> hqp_coordinator \<Rightarrow> hqp_coordinator" where
  "retain_retired_instance name retired co =
     (let order = filter (\<lambda>n. n \<noteq> name) (hc_retired_instance_order co) @ [name];
          excess = length order - MAX_RETIRED_INSTANCES
      in co\<lparr>hc_retired_instances := foldl (\<lambda>m n. hm_remove n m)
              (hm_insert name retired (hc_retired_instances co)) (take excess order),
            hc_retired_instance_order := drop excess order\<rparr>)"

definition remove_retired_instance :: "string \<Rightarrow> hqp_coordinator \<Rightarrow> hqp_coordinator" where
  "remove_retired_instance name co =
     co\<lparr>hc_retired_instances := hm_remove name (hc_retired_instances co),
        hc_retired_instance_order := filter (\<lambda>n. n \<noteq> name) (hc_retired_instance_order co)\<rparr>"

definition has_deferred_commits :: "hqp_coordinator \<Rightarrow> bool" where
  "has_deferred_commits co \<longleftrightarrow> list_ex (\<lambda>e. in_deferred_commit (snd e) \<noteq> None) (hc_instances co)"

definition has_requested_retirements :: "hqp_coordinator \<Rightarrow> bool" where
  "has_requested_retirements co \<longleftrightarrow>
     list_ex (\<lambda>e. in_retirement_requested (snd e) \<noteq> None \<and> \<not> has_pending_operations (snd e)) (hc_instances co)"

definition instance_quiescent :: "hqp_instance \<Rightarrow> bool" where
  "instance_quiescent st \<longleftrightarrow> in_deferred_commit st = None \<and> in_dispatch_in_progress st = {} \<and>
     \<not> has_pending_operations st \<and> in_retirement_requested st = None"

text \<open>Taking the run drops the lease, which ends the run in the registry.\<close>

definition take_run :: "hqp_coordinator \<Rightarrow> hqp_coordinator" where
  "take_run co =
     (case hc_run co of None \<Rightarrow> co
      | Some og \<Rightarrow> co\<lparr>hc_run := None, hc_runs := snd (mark_ended og (hc_runs co))\<rparr>)"

definition finish_stop_if_quiescent :: "hqp_coordinator \<Rightarrow> hqp_coordinator" where
  "finish_stop_if_quiescent co =
     (if hc_stop_requested co \<and> list_all (\<lambda>e. instance_quiescent (snd e)) (hc_instances co)
      then take_run co else co)"

definition begin_hqplayer_run :: "hqp_coordinator \<Rightarrow> hqp_coordinator" where
  "begin_hqplayer_run co =
     (case begin_run ''hqplayer'' (hc_runs co) of
        (None, rs) \<Rightarrow> co\<lparr>hc_runs := rs, hc_panicked := True\<rparr>
      | (Some og, rs) \<Rightarrow> co\<lparr>hc_runs := rs, hc_run := Some og\<rparr>)"

section \<open>Terminal history\<close>

definition retain_correlation_tombstone ::
  "string \<Rightarrow> hqp_command_fingerprint \<Rightarrow> tombstone_map \<times> string list \<Rightarrow> tombstone_map \<times> string list" where
  "retain_correlation_tombstone i fp t =
     (case t of (tombstones, order) \<Rightarrow>
        (let order1 = (if map_of tombstones i = None then order @ [i] else order);
             excess = length order1 - MAX_CORRELATION_TOMBSTONES
         in (foldl (\<lambda>m n. hm_remove n m) (hm_insert i fp tombstones) (take excess order1),
             drop excess order1)))"

text \<open>The \<open>retain\<close> loop, with the number of records still to drop.\<close>

fun prune_loop ::
  "nat \<Rightarrow> operation_id set \<Rightarrow> correlation_map \<Rightarrow> operation_record list \<Rightarrow> tombstone_map \<times> string list \<Rightarrow>
     operation_record list \<times> tombstone_map \<times> string list" where
  "prune_loop n protected corr [] t = ([], t)"
| "prune_loop n protected corr (r # rs) t =
     (if 0 < n \<and> \<not> operation_is_unresolved r \<and> or_id r \<notin> protected
      then prune_loop (n - 1) protected corr rs
        (case map_of corr (or_correlation_id r) of None \<Rightarrow> t
         | Some rv \<Rightarrow> retain_correlation_tombstone (or_correlation_id r) (kr_fingerprint rv) t)
      else case prune_loop n protected corr rs t of (kept, t') \<Rightarrow> (r # kept, t'))"

definition prune_terminal_history_preserving ::
  "operation_record list \<Rightarrow> correlation_map \<Rightarrow> tombstone_map \<times> string list \<Rightarrow> operation_id set \<Rightarrow>
     operation_record list \<times> tombstone_map \<times> string list" where
  "prune_terminal_history_preserving ledger corr t protected =
     (let n = length (filter (\<lambda>r. \<not> operation_is_unresolved r) ledger) - MAX_TERMINAL_OPERATIONS
      in if n = 0 then (ledger, t) else prune_loop n protected corr ledger t)"

definition prune_terminal_history ::
  "operation_record list \<Rightarrow> correlation_map \<Rightarrow> tombstone_map \<times> string list \<Rightarrow>
     operation_record list \<times> tombstone_map \<times> string list" where
  "prune_terminal_history ledger corr t = prune_terminal_history_preserving ledger corr t {}"

definition retain_live_correlations :: "hqp_instance \<Rightarrow> hqp_instance" where
  "retain_live_correlations st = st\<lparr>in_correlations :=
     filter (\<lambda>e. le_operation_id (kr_lease (snd e)) \<in> or_id ` set (in_ledger st)) (in_correlations st)\<rparr>"

section \<open>Publication\<close>

definition publish :: "producer_document \<Rightarrow> hqp_coordinator \<Rightarrow> unit reply \<times> hqp_coordinator" where
  "publish d co =
     (case hc_run co of
        None \<Rightarrow> (Inl LifecycleNotRunning, co)
      | Some og \<Rightarrow>
          (let answer = (case hc_publish_answers co of [] \<Rightarrow> PublishFailed ''closed'' | a # _ \<Rightarrow> a);
               co' = co\<lparr>hc_publish_answers := tl (hc_publish_answers co),
                 hc_offered := hc_offered co @ [(og, d, answer)]\<rparr>
           in case answer of PublishAdmitted \<Rightarrow> (Inr (), co') | PublishFailed e \<Rightarrow> (Inl (PublicationFailed e), co')))"

fun publish_attempts :: "nat \<Rightarrow> producer_document \<Rightarrow> hqp_coordinator \<Rightarrow> unit reply \<times> hqp_coordinator" where
  "publish_attempts 0 d co = publish d co"
| "publish_attempts (Suc n) d co =
     (case publish d co of
        (Inl (PublicationFailed e), co') \<Rightarrow> publish_attempts n d co'
      | res \<Rightarrow> res)"

definition publish_terminal :: "producer_document \<Rightarrow> hqp_coordinator \<Rightarrow> unit reply \<times> hqp_coordinator" where
  "publish_terminal d co = publish_attempts TERMINAL_PUBLICATION_RETRIES d co"

definition install_commit :: "hqp_deferred_commit \<Rightarrow> hqp_instance \<Rightarrow> hqp_instance" where
  "install_commit c st = retain_live_correlations
     (st\<lparr>in_tracker := dc_tracker c, in_ledger := dc_ledger c, in_active_pipeline := dc_active_pipeline c,
         in_dispatch_in_progress := dc_dispatch_in_progress c,
         in_correlation_tombstones := dc_correlation_tombstones c,
         in_correlation_tombstone_order := dc_correlation_tombstone_order c,
         in_deferred_commit := None\<rparr>)"

definition publish_deferred ::
  "hqp_instance \<Rightarrow> hqp_deferred_commit \<Rightarrow> hqp_coordinator \<Rightarrow> unit reply \<times> hqp_instance \<times> hqp_coordinator" where
  "publish_deferred st c co =
     (case tk_last_document (dc_tracker c) of
        None \<Rightarrow> (Inl ProducerUnknown, st, co)
      | Some d \<Rightarrow>
          (case publish_terminal d co of
             (Inr _, co') \<Rightarrow> (Inr (), install_commit c st, co')
           | (Inl e, co') \<Rightarrow> (Inl e, st\<lparr>in_deferred_commit := Some c\<rparr>, co')))"

text \<open>A commit that is still deferred goes first.\<close>

definition settle_deferred ::
  "hqp_instance \<Rightarrow> hqp_coordinator \<Rightarrow> unit reply \<times> hqp_instance \<times> hqp_coordinator" where
  "settle_deferred st co =
     (case in_deferred_commit st of None \<Rightarrow> (Inr (), st, co) | Some c \<Rightarrow> publish_deferred st c co)"

text \<open>
  The common end of every terminal transition: prune, number the last document with the new ledger,
  and publish. \<open>missing\<close> is the refusal when no document was ever published.
\<close>

definition offer_ledger ::
  "hqp_coordinator_refusal \<Rightarrow> operation_id set \<Rightarrow> u64 option \<Rightarrow> u64 set \<Rightarrow> operation_record list \<Rightarrow>
     hqp_instance \<Rightarrow> hqp_coordinator \<Rightarrow> unit reply \<times> hqp_instance \<times> hqp_coordinator" where
  "offer_ledger missing protected active dispatch ledger st co =
     (case prune_terminal_history_preserving ledger (in_correlations st)
         (in_correlation_tombstones st, in_correlation_tombstone_order st) protected of
        (ledger', tombstones, order) \<Rightarrow>
          (case tk_last_document (in_tracker st) of
             None \<Rightarrow> (Inl missing, st, co)
           | Some d \<Rightarrow>
               (case materialize (in_tracker st) (d\<lparr>pd_operations := ledger'\<rparr>) of
                  (Inl e, _) \<Rightarrow> (Inl (RevisionFailed (ByRevision e)), st, co)
                | (Inr _, tr) \<Rightarrow>
                    publish_deferred st \<lparr>dc_tracker = tr, dc_ledger = ledger', dc_active_pipeline = active,
                      dc_dispatch_in_progress = dispatch, dc_correlation_tombstones = tombstones,
                      dc_correlation_tombstone_order = order\<rparr> co)))"

section \<open>Retirement and stop\<close>

definition producer_reason :: "reason_code \<Rightarrow> string \<Rightarrow> reason" where
  "producer_reason code detail = \<lparr>rs_code = code, rs_scope = Scope_Producer, rs_display_text_key = None,
     rs_detail = Some detail\<rparr>"

definition fenced :: "u64 set \<Rightarrow> operation_record \<Rightarrow> bool" where
  "fenced dispatch r = (case or_generation r of None \<Rightarrow> False | Some g \<Rightarrow> g \<in> dispatch)"

definition legal_transition ::
  "operation_record \<Rightarrow> command_outcome \<Rightarrow> timestamp \<Rightarrow> reason option \<Rightarrow> operation_record reply" where
  "legal_transition r to tm rsn =
     (case transition r to tm None rsn of Inl e \<Rightarrow> Inl IllegalTransition | Inr r' \<Rightarrow> Inr r')"

definition expires :: "operation_record \<Rightarrow> bool" where
  "expires r \<longleftrightarrow> or_outcome r \<noteq> CO_Pending \<and> awaits_convergence (or_outcome r)"

definition expire_operation :: "timestamp \<Rightarrow> operation_record \<Rightarrow> operation_record reply" where
  "expire_operation tm r =
     (if \<not> expires r then Inr r
      else legal_transition (r\<lparr>or_recovery := Some Rec_ReplanRequired\<rparr>) CO_Expired tm
        (Some (producer_reason RC_Expired ''HQPlayer instance retired before authoritative convergence'')))"

definition expire_unresolved_before_retirement ::
  "timestamp \<Rightarrow> hqp_instance \<Rightarrow> hqp_coordinator \<Rightarrow> unit reply \<times> hqp_instance \<times> hqp_coordinator" where
  "expire_unresolved_before_retirement tm st co =
     (case all_ok (map (expire_operation tm) (in_ledger st)) of
        Inl e \<Rightarrow> (Inl e, st, co)
      | Inr ledger \<Rightarrow>
          (let frontier = or_id ` set (filter expires (in_ledger st)) in
           if filter expires (in_ledger st) = [] then (Inr (), st, co)
           else if card frontier > MAX_TERMINAL_OPERATIONS then (Inl UnresolvedRetentionFull, st, co)
           else offer_ledger ProducerUnknown frontier (in_active_pipeline st) (in_dispatch_in_progress st)
             ledger st co))"

definition retire_admitted_instance ::
  "timestamp \<Rightarrow> string \<Rightarrow> hqp_instance \<Rightarrow> producer_epoch \<Rightarrow> hqp_coordinator \<Rightarrow> unit reply \<times> hqp_coordinator" where
  "retire_admitted_instance now name st0 epoch co0 =
     (let st1 = st0\<lparr>in_retirement_requested := Some epoch\<rparr>;
          co1 = (if hc_run co0 = None then begin_hqplayer_run co0 else co0)
      in if hc_panicked co1 then (Inl CoordinatorClosed, co1)
         else case expire_unresolved_before_retirement now st1 co1 of
           (Inl e, st, co) \<Rightarrow> (Inl e, put_instance name st co)
         | (Inr _, st, co) \<Rightarrow>
             (let answer = (case hc_retire_answers co of [] \<Rightarrow> RetireFailed ''closed'' | a # _ \<Rightarrow> a);
                  co' = co\<lparr>hc_retire_answers := tl (hc_retire_answers co)\<rparr>
              in case answer of
                   RetireFailed e \<Rightarrow> (Inl (RetirementFailed e), put_instance name st co')
                 | RetireDone \<Rightarrow>
                     (Inr (), finish_stop_if_quiescent (retain_retired_instance name
                       \<lparr>ri_producer_epoch = epoch, ri_ledger = in_ledger st, ri_correlations = in_correlations st\<rparr>
                       co'))))"

definition supersede_unsent ::
  "timestamp \<Rightarrow> string \<Rightarrow> operation_record \<Rightarrow> operation_record reply" where
  "supersede_unsent tm detail r =
     legal_transition (r\<lparr>or_write_attempt := WA_NotAttempted, or_recovery := Some Rec_ReplanRequired\<rparr>)
       CO_Superseded tm (Some (producer_reason RC_Superseded detail))"

definition terminalizes :: "u64 set \<Rightarrow> operation_record \<Rightarrow> bool" where
  "terminalizes dispatch r \<longleftrightarrow> or_outcome r = CO_Pending \<and> \<not> fenced dispatch r"

definition terminalize_pending_without_dispatch ::
  "timestamp \<Rightarrow> string \<Rightarrow> hqp_instance \<Rightarrow> hqp_coordinator \<Rightarrow> unit reply \<times> hqp_instance \<times> hqp_coordinator" where
  "terminalize_pending_without_dispatch tm detail st co =
     (let dispatch = in_dispatch_in_progress st in
      case all_ok (map (\<lambda>r. if terminalizes dispatch r then supersede_unsent tm detail r else Inr r)
          (in_ledger st)) of
        Inl e \<Rightarrow> (Inl e, st, co)
      | Inr ledger \<Rightarrow>
          (let still = list_ex (\<lambda>r. or_outcome r = CO_Pending \<and> fenced dispatch r) ledger;
               done = (if still then Inl LeaseStillCurrent else Inr ())
           in if \<not> list_ex (terminalizes dispatch) (in_ledger st) then (done, st, co)
              else case offer_ledger ProducerUnknown {} None dispatch ledger st co of
                (Inl e, st', co') \<Rightarrow> (Inl e, st', co')
              | (Inr _, st', co') \<Rightarrow> (done, st', co')))"

definition STOP_DETAIL :: string where
  "STOP_DETAIL = ''HQPlayer manager stopped before native execution''"

definition retry_instance :: "timestamp \<Rightarrow> hqp_coordinator \<Rightarrow> string \<Rightarrow> hqp_coordinator" where
  "retry_instance now co name =
     (case instance_of co name of None \<Rightarrow> co
      | Some st0 \<Rightarrow>
          (case settle_deferred st0 (drop_instance name co) of
             (Inl e, st, co1) \<Rightarrow> put_instance name st co1
           | (Inr _, st, co1) \<Rightarrow>
               (case (if has_pending_operations st then None else in_retirement_requested st) of
                  Some epoch \<Rightarrow> snd (retire_admitted_instance now name st epoch co1)
                | None \<Rightarrow>
                    (if hc_stop_requested co1
                     then case terminalize_pending_without_dispatch now STOP_DETAIL st co1 of
                       (r, st', co2) \<Rightarrow> put_instance name st' co2
                     else put_instance name st co1))))"

definition retry_deferred_commits :: "timestamp \<Rightarrow> hqp_coordinator \<Rightarrow> hqp_coordinator" where
  "retry_deferred_commits now co =
     finish_stop_if_quiescent (foldl (retry_instance now) co (map fst (hc_instances co)))"

definition hqp_manager_started :: "hqp_coordinator \<Rightarrow> unit reply \<times> hqp_coordinator" where
  "hqp_manager_started co =
     (if hc_run co \<noteq> None \<and> hc_stop_requested co then (Inl LeaseStillCurrent, co)
      else if hc_run co = None then (Inr (), (begin_hqplayer_run co)\<lparr>hc_stop_requested := False\<rparr>)
      else (Inr (), co))"

definition stop_instance ::
  "timestamp \<Rightarrow> hqp_coordinator_refusal option \<times> hqp_coordinator \<Rightarrow> string \<Rightarrow>
     hqp_coordinator_refusal option \<times> hqp_coordinator" where
  "stop_instance now acc name =
     (case acc of (failure, co) \<Rightarrow>
        (case instance_of co name of None \<Rightarrow> (failure, co)
         | Some st0 \<Rightarrow>
             (case (case settle_deferred st0 (drop_instance name co) of
                  (Inl e, st, co1) \<Rightarrow> (Inl e, st, co1)
                | (Inr _, st, co1) \<Rightarrow> terminalize_pending_without_dispatch now STOP_DETAIL st co1) of
                (r, st', co2) \<Rightarrow>
                  (case failure of Some e \<Rightarrow> Some e | None \<Rightarrow> (case r of Inl e \<Rightarrow> Some e | Inr _ \<Rightarrow> None),
                   put_instance name st' co2))))"

definition hqp_manager_stopped :: "timestamp \<Rightarrow> hqp_coordinator \<Rightarrow> unit reply \<times> hqp_coordinator" where
  "hqp_manager_stopped now co =
     (if hc_run co = None then (Inr (), co)
      else let co0 = co\<lparr>hc_stop_requested := True\<rparr> in
        case foldl (stop_instance now) (None, co0) (map fst (hc_instances co0)) of
          (Some e, co1) \<Rightarrow> (Inl e, co1)
        | (None, co1) \<Rightarrow> (Inr (), finish_stop_if_quiescent co1))"

section \<open>Observations\<close>

definition semantic_request_matches :: "producer_document \<Rightarrow> operation_request \<Rightarrow> bool" where
  "semantic_request_matches d q =
     (case doc_control d (oq_control q) of None \<Rightarrow> False
      | Some c \<Rightarrow>
          (case control_observed c of None \<Rightarrow> False
           | Some v \<Rightarrow> cv_eq v (oq_requested q) \<or>
               (cid_str (ct_id c) = CONTROL_PIPELINE_MODE \<and> cv_eq v CV_Empty \<and>
                (case oq_requested q of
                   CV_Choice w \<Rightarrow> (case ct_choices c of None \<Rightarrow> False
                     | Some cs \<Rightarrow> list_ex (\<lambda>x. ch_id x = w \<and> ch_engine_name x = Some ''[source]'') (cset_choices cs))
                 | _ \<Rightarrow> False))))"

definition generation_no :: "operation_record \<Rightarrow> u64" where
  "generation_no r = (case or_generation r of None \<Rightarrow> 0 | Some g \<Rightarrow> g)"

definition replaced_later :: "operation_record list \<Rightarrow> u64 \<Rightarrow> control_id \<Rightarrow> bool" where
  "replaced_later later g c \<longleftrightarrow> list_ex (\<lambda>r. generation_no r > g \<and>
     (case or_request r of None \<Rightarrow> False | Some q \<Rightarrow> oq_control q = c)) later"

definition resolution ::
  "producer_document \<Rightarrow> u64 set \<Rightarrow> operation_record list \<Rightarrow> operation_record \<Rightarrow> operation_request \<Rightarrow>
     (command_outcome \<times> recovery_state \<times> reason option) option" where
  "resolution d dispatch later r q =
     (let matches = semantic_request_matches d q;
          restarted = (rr_epoch (oq_base q) \<noteq> pi_epoch (pd_producer d))
      in if generation_no r \<in> dispatch then None
         else if restarted \<or> \<not> matches \<and> replaced_later later (generation_no r) (oq_control q)
         then Some (CO_Superseded, Rec_ReplanRequired, Some (producer_reason RC_Superseded
           (if restarted then ''HQPlayer producer epoch advanced before convergence''
            else ''a later HQPlayer operation generation replaced this request'')))
         else if matches
         then Some (if or_outcome r = CO_Pending \<and> or_write_attempt r = WA_NotAttempted
             then CO_Ignored else CO_Applied, Rec_NotRequired, None)
         else if or_outcome r = CO_Indeterminate \<or> or_outcome r = CO_TimedOut
         then Some (CO_Divergent, Rec_ReplanRequired, None)
         else None)"

definition observed_instant :: "producer_document \<Rightarrow> timestamp" where
  "observed_instant d =
     (case Option.bind (doc_lane_health d TL_Native) (\<lambda>h. fr_observed_at (lh_freshness h)) of
        None \<Rightarrow> Timestamp ''unknown'' | Some t \<Rightarrow> t)"

definition reconcile_operation ::
  "producer_document \<Rightarrow> u64 set \<Rightarrow> operation_record list \<Rightarrow> operation_record \<Rightarrow> (operation_record \<times> bool) reply" where
  "reconcile_operation d dispatch later r =
     (if \<not> awaits_convergence (or_outcome r) then Inr (r, False)
      else case or_request r of None \<Rightarrow> Inr (r, False)
      | Some q \<Rightarrow>
          (case resolution d dispatch later r q of None \<Rightarrow> Inr (r, False)
           | Some (outcome, recovery, rsn) \<Rightarrow>
               (case legal_transition (r\<lparr>or_write_attempt :=
                      (if outcome = CO_Applied then WA_Confirmed else or_write_attempt r),
                    or_recovery := Some recovery\<rparr>) outcome (observed_instant d) rsn of
                  Inl e \<Rightarrow> Inl e
                | Inr r' \<Rightarrow> Inr (r', True))))"

fun reconcile_operations ::
  "producer_document \<Rightarrow> u64 set \<Rightarrow> operation_record list \<Rightarrow> (operation_record list \<times> operation_id list) reply" where
  "reconcile_operations d dispatch [] = Inr ([], [])"
| "reconcile_operations d dispatch (r # rs) =
     (case reconcile_operation d dispatch rs r of Inl e \<Rightarrow> Inl e
      | Inr (r', converged) \<Rightarrow>
          (case reconcile_operations d dispatch rs of Inl e \<Rightarrow> Inl e
           | Inr (rs', ids) \<Rightarrow> Inr (r' # rs', if converged then or_id r # ids else ids)))"

definition cite_observation :: "operation_id list \<Rightarrow> revision_ref \<Rightarrow> operation_record \<Rightarrow> operation_record" where
  "cite_observation converged at_position r =
     (if or_id r \<notin> set converged then r
      else r\<lparr>or_observed := Some at_position,
             or_history := (case or_history r of [] \<Rightarrow> []
               | h \<Rightarrow> butlast h @ [(last h)\<lparr>ot_observed := Some at_position\<rparr>])\<rparr>)"

text \<open>The document and the ledger an observation leads to, and the tracker that numbered it.\<close>

definition observation_candidate ::
  "producer_document \<Rightarrow> operation_id list \<Rightarrow> operation_record list \<Rightarrow> revision_tracker \<Rightarrow>
     (producer_document \<times> operation_record list \<times> revision_tracker) reply" where
  "observation_candidate projected converged ledger tr =
     (case materialize tr (projected\<lparr>pd_operations := ledger\<rparr>) of
        (Inl e, _) \<Rightarrow> Inl (RevisionFailed (ByRevision e))
      | (Inr d, tr1) \<Rightarrow>
          (if converged = [] then Inr (d, ledger, tr1)
           else let cited = map (cite_observation converged (doc_position d)) ledger in
             case materialize tr (d\<lparr>pd_operations := cited\<rparr>) of
               (Inl e, _) \<Rightarrow> Inl (RevisionFailed (ByRevision e))
             | (Inr d2, tr2) \<Rightarrow> Inr (d2, cited, tr2)))"

definition release_pipeline :: "hqp_instance \<Rightarrow> hqp_instance" where
  "release_pipeline st =
     (case in_active_pipeline st of None \<Rightarrow> st
      | Some g \<Rightarrow> (if list_ex (\<lambda>r. or_generation r = Some g \<and> or_outcome r = CO_Pending) (in_ledger st)
                  then st else st\<lparr>in_active_pipeline := None\<rparr>))"

definition adopt_observation ::
  "revision_tracker \<Rightarrow> operation_record list \<Rightarrow> tombstone_map \<Rightarrow> string list \<Rightarrow> hqp_execution_target \<Rightarrow>
     hqp_instance \<Rightarrow> hqp_instance" where
  "adopt_observation tr ledger tombstones order target st =
     retain_live_correlations (release_pipeline
       (st\<lparr>in_tracker := tr, in_ledger := ledger, in_correlation_tombstones := tombstones,
           in_correlation_tombstone_order := order, in_execution_target := Some target\<rparr>))"

text \<open>
  The instance is taken out of the map first. The three places where an error returns before it is put
  back leave it out.
\<close>

definition observed_instance ::
  "hqp_observation \<Rightarrow> producer_document \<Rightarrow> hqp_instance \<Rightarrow> hqp_coordinator \<Rightarrow> unit reply \<times> hqp_coordinator" where
  "observed_instance ob projected st co =
     (let name = ho_instance_name ob in
      case reconcile_operations projected (in_dispatch_in_progress st) (in_ledger st) of
        Inl e \<Rightarrow> (Inl e, co)
      | Inr (ledger1, converged) \<Rightarrow>
     (case prune_terminal_history ledger1 (in_correlations st)
         (in_correlation_tombstones st, in_correlation_tombstone_order st) of
        (ledger2, tombstones, order) \<Rightarrow>
     (case observation_candidate projected converged ledger2 (in_tracker st) of
        Inl e \<Rightarrow> (Inl e, co)
      | Inr (d, ledger3, tr) \<Rightarrow>
          (case publish d co of
             (Inl e, co') \<Rightarrow> (Inl e, put_instance name st co')
           | (Inr _, co') \<Rightarrow>
               (Inr (), put_instance name
                  (adopt_observation tr ledger3 tombstones order (ho_execution_target ob) st) co')))))"

text \<open>\<open>unwrap_or_default\<close> of what the map holds.\<close>

definition start_of :: "hqp_coordinator \<Rightarrow> string \<Rightarrow> hqp_instance" where
  "start_of co name = (case instance_of co name of None \<Rightarrow> instance_default | Some st \<Rightarrow> st)"

definition retired_after :: "hqp_coordinator \<Rightarrow> string \<Rightarrow> u64 \<Rightarrow> bool" where
  "retired_after co name epoch =
     (case map_of (hc_retired_instances co) name of None \<Rightarrow> False
      | Some r \<Rightarrow> epoch \<le> epoch_no (ri_producer_epoch r))"

definition forget_retired :: "string \<Rightarrow> hqp_coordinator \<Rightarrow> hqp_coordinator" where
  "forget_retired name co =
     (if map_of (hc_retired_instances co) name = None then co else remove_retired_instance name co)"

definition hqp_observed ::
  "instant_text \<Rightarrow> hqp_observation \<Rightarrow> hqp_coordinator \<Rightarrow> unit reply \<times> hqp_coordinator" where
  "hqp_observed text ob co =
     (let name = ho_instance_name ob in
      if hc_run co = None \<or> hc_stop_requested co then (Inl LifecycleNotRunning, co)
      else case project_native text ob of
        Inl e \<Rightarrow> (Inl (RevisionFailed (ByProjection e)), co)
      | Inr projected \<Rightarrow>
          (if retired_after co name (ho_producer_epoch ob) then (Inl StaleLease, co)
           else
             let co0 = forget_retired name co; st0 = start_of co0 name; co1 = drop_instance name co0
             in if in_retirement_requested st0 \<noteq> None
                then (Inl LifecycleNotRunning, put_instance name st0 co1)
                else case settle_deferred st0 co1 of
                  (Inl e, st, co2) \<Rightarrow> (Inl e, put_instance name st co2)
                | (Inr _, st, co2) \<Rightarrow> observed_instance ob projected st co2))"

definition transient_failure ::
  "instant_text \<Rightarrow> string \<Rightarrow> system_time \<Rightarrow> hqp_coordinator \<Rightarrow> unit reply \<times> hqp_coordinator" where
  "transient_failure text name tm co =
     (if hc_run co = None \<or> hc_stop_requested co then (Inl LifecycleNotRunning, co)
      else case settle_deferred (start_of co name) (drop_instance name co) of
          (Inl e, st, co1) \<Rightarrow> (Inl e, put_instance name st co1)
        | (Inr _, st, co1) \<Rightarrow>
            (case fst (mark_transient_failure (in_tracker st) (contract_timestamp text tm)) of
               Inl e \<Rightarrow> (Inl (RevisionFailed (ByRevision e)), co1)
             | Inr None \<Rightarrow> (Inr (), put_instance name st co1)
             | Inr (Some d) \<Rightarrow>
                 (case materialize (in_tracker st) (d\<lparr>pd_operations := in_ledger st\<rparr>) of
                    (Inl e, _) \<Rightarrow> (Inl (RevisionFailed (ByRevision e)), co1)
                  | (Inr d2, tr) \<Rightarrow>
                      (case publish d2 co1 of
                         (Inl e, co2) \<Rightarrow> (Inl e, put_instance name st co2)
                       | (Inr _, co2) \<Rightarrow> (Inr (), put_instance name (st\<lparr>in_tracker := tr\<rparr>) co2)))))"

definition hqp_instance_removed ::
  "timestamp \<Rightarrow> string \<Rightarrow> u64 \<Rightarrow> hqp_coordinator \<Rightarrow> unit reply \<times> hqp_coordinator" where
  "hqp_instance_removed now name epoch co =
     (case instance_of co name of None \<Rightarrow> (Inr (), co)
      | Some st0 \<Rightarrow>
          (case settle_deferred st0 (drop_instance name co) of
             (Inl e, st, co1) \<Rightarrow> (Inl e, put_instance name st co1)
           | (Inr _, st, co1) \<Rightarrow>
               (if has_pending_operations st
                then (Inr (), put_instance name (st\<lparr>in_retirement_requested := Some (ProducerEpoch epoch)\<rparr>) co1)
                else (Inr (), snd (retire_admitted_instance now name st (ProducerEpoch epoch) co1)))))"

section \<open>Reservation\<close>

definition reservation_for_correlation ::
  "hqp_correlation_reservation \<Rightarrow> operation_record list \<Rightarrow> hqp_command_fingerprint \<Rightarrow>
     hqp_command_reservation reply" where
  "reservation_for_correlation existing ledger expected =
     (if kr_fingerprint existing \<noteq> expected then Inl HqpCorrelationConflict
      else case find (\<lambda>r. or_id r = le_operation_id (kr_lease existing)) ledger of
        None \<Rightarrow> Inl StaleLease
      | Some r \<Rightarrow> Inr \<lparr>rv_lease = kr_lease existing, rv_operation = r, rv_disposition = DuplicateReservation\<rparr>)"

definition lookup_correlation ::
  "(f64 \<Rightarrow> u64) \<Rightarrow> (json_number \<Rightarrow> string) \<Rightarrow> hqp_immediate_command_request \<Rightarrow> hqp_coordinator \<Rightarrow>
     hqp_command_reservation option reply" where
  "lookup_correlation bits num_text r co =
     (case validate_correlation (hr_correlation_id r) of
        Inl e \<Rightarrow> Inl e
      | Inr _ \<Rightarrow>
     (case named_instance (pk_producer_id (hr_key r)) of
        None \<Rightarrow> Inl ProducerUnknown
      | Some name \<Rightarrow>
          (let fp = fingerprint bits num_text r;
               known = (\<lambda>e ledger. case reservation_for_correlation e ledger fp of
                  Inl e \<Rightarrow> Inl e | Inr rv \<Rightarrow> Inr (Some rv));
               retired = (case map_of (hc_retired_instances co) name of None \<Rightarrow> Inr None
                 | Some ri \<Rightarrow> (case map_of (ri_correlations ri) (hr_correlation_id r) of
                     None \<Rightarrow> Inr None | Some e \<Rightarrow> known e (ri_ledger ri)))
           in case instance_of co name of
                None \<Rightarrow> retired
              | Some st \<Rightarrow>
                  (case map_of (in_correlations st) (hr_correlation_id r) of
                     Some e \<Rightarrow> known e (in_ledger st)
                   | None \<Rightarrow>
                       (if map_of (in_correlation_tombstones st) (hr_correlation_id r) \<noteq> None
                        then Inl HqpCorrelationConflict else retired)))))"

definition matching_target :: "string \<Rightarrow> producer_epoch \<Rightarrow> hqp_execution_target option \<Rightarrow> hqp_execution_target option"
where
  "matching_target producer_id epoch target =
     (case target of None \<Rightarrow> None
      | Some t \<Rightarrow> (if et_instance_name t = instance_name_from_producer_id producer_id \<and>
                     et_producer_epoch t = epoch_no epoch then Some t else None))"

definition operation_id_of :: "string \<Rightarrow> u64 \<Rightarrow> operation_id" where
  "operation_id_of producer_id g = OperationId (producer_id @ '':operation:'' @ show_nat (unat g))"

definition pending_operation :: "hqp_immediate_command_request \<Rightarrow> u64 \<Rightarrow> operation_record" where
  "pending_operation r g =
     \<lparr>or_id = operation_id_of (pk_producer_id (hr_key r)) g, or_correlation_id = hr_correlation_id r,
      or_request = Some \<lparr>oq_control = hr_control r, oq_requested = hr_requested r, oq_lane = hr_lane r,
        oq_base = hr_expected r\<rparr>,
      or_change_set = None, or_generation = Some g, or_write_attempt = WA_NotAttempted,
      or_outcome = CO_Pending, or_observed = Some (hr_expected r), or_steps = [],
      or_revision_boundaries = [], or_history = [], or_recovery = None, or_reason = None,
      or_extensions = []\<rparr>"

definition lease_of ::
  "hqp_immediate_command_request \<Rightarrow> producer_epoch \<Rightarrow> adapter_run_id \<Rightarrow> u64 \<Rightarrow> hqp_execution_target \<Rightarrow>
     hqp_command_lease" where
  "lease_of r epoch run_id g target =
     \<lparr>le_producer_id = pk_producer_id (hr_key r), le_producer_epoch = epoch, le_run_id = Some run_id,
      le_conflict_set = ConflictPipeline, le_generation = g, le_correlation_id = hr_correlation_id r,
      le_operation_id = operation_id_of (pk_producer_id (hr_key r)) g, le_execution_target = Some target\<rparr>"

definition own_snapshot :: "producer_document \<Rightarrow> producer_snapshot" where
  "own_snapshot d = \<lparr>sn_key = key_of d, sn_document = d, sn_lanes = [], sn_presence = Live,
     sn_repairs = [], sn_last_refusal = None\<rparr>"

text \<open>What is reserved: the refusals before the generation is allocated.\<close>

definition reserve_checks ::
  "(f64 \<Rightarrow> u64) \<Rightarrow> (json_number \<Rightarrow> string) \<Rightarrow> hqp_validated_command \<Rightarrow> hqp_instance \<Rightarrow>
     (hqp_command_reservation + producer_document) reply" where
  "reserve_checks bits num_text cmd st =
     (let r = vc_request cmd in
      if map_of (in_correlation_tombstones st) (hr_correlation_id r) \<noteq> None then Inl HqpCorrelationConflict
      else case map_of (in_correlations st) (hr_correlation_id r) of
        Some existing \<Rightarrow>
          (case reservation_for_correlation existing (in_ledger st) (vc_fingerprint cmd) of
             Inl e \<Rightarrow> Inl e | Inr rv \<Rightarrow> Inr (Inl rv))
      | None \<Rightarrow>
          (if in_retirement_requested st \<noteq> None then Inl LifecycleNotRunning
           else case tk_last_document (in_tracker st) of
             None \<Rightarrow> Inl ProducerUnknown
           | Some d \<Rightarrow>
               (case preflight bits num_text (own_snapshot d) r of
                  Inl e \<Rightarrow> Inl (RefusedByPreflight e)
                | Inr checked \<Rightarrow>
                    (if vc_fingerprint checked \<noteq> vc_fingerprint cmd then Inl HqpCorrelationConflict
                     else if in_active_pipeline st \<noteq> None then Inl ConflictBusy
                     else if length (filter operation_is_unresolved (in_ledger st)) \<ge> MAX_UNRESOLVED_OPERATIONS
                     then Inl UnresolvedRetentionFull
                     else if in_next_generation st = - 1 then Inl (RevisionFailed GenerationExhausted)
                     else Inr (Inr d)))))"

definition reserve_for_instance ::
  "(f64 \<Rightarrow> u64) \<Rightarrow> (json_number \<Rightarrow> string) \<Rightarrow> hqp_validated_command \<Rightarrow> adapter_run_id \<Rightarrow>
     hqp_instance \<Rightarrow> hqp_coordinator \<Rightarrow> hqp_command_reservation reply \<times> hqp_instance \<times> hqp_coordinator" where
  "reserve_for_instance bits num_text cmd run_id st co =
     (let r = vc_request cmd; g = in_next_generation st + 1 in
      case reserve_checks bits num_text cmd st of
        Inl e \<Rightarrow> (Inl e, st, co)
      | Inr (Inl rv) \<Rightarrow> (Inr rv, st, co)
      | Inr (Inr d) \<Rightarrow>
          (let epoch = pi_epoch (pd_producer d) in
           case matching_target (pk_producer_id (hr_key r)) epoch (in_execution_target st) of
             None \<Rightarrow> (Inl StaleLease, st, co)
           | Some target \<Rightarrow>
               (let lease = lease_of r epoch run_id g target;
                    operation = pending_operation r g;
                    ledger = in_ledger st @ [operation]
                in case materialize (in_tracker st) (d\<lparr>pd_operations := ledger\<rparr>) of
                     (Inl e, _) \<Rightarrow> (Inl (RevisionFailed (ByRevision e)), st, co)
                   | (Inr d', tr) \<Rightarrow>
                       (case publish d' co of
                          (Inl e, co') \<Rightarrow> (Inl e, st, co')
                        | (Inr _, co') \<Rightarrow>
                            (Inr \<lparr>rv_lease = lease, rv_operation = operation, rv_disposition = NewReservation\<rparr>,
                             st\<lparr>in_tracker := tr, in_ledger := ledger, in_next_generation := g,
                                in_active_pipeline := Some g,
                                in_correlations := hm_insert (hr_correlation_id r)
                                  \<lparr>kr_fingerprint = fingerprint bits num_text r, kr_lease = lease\<rparr>
                                  (in_correlations st)\<rparr>,
                             co')))))"

definition reserve ::
  "(f64 \<Rightarrow> u64) \<Rightarrow> (json_number \<Rightarrow> string) \<Rightarrow> hqp_validated_command \<Rightarrow> hqp_coordinator \<Rightarrow>
     hqp_command_reservation reply \<times> hqp_coordinator" where
  "reserve bits num_text cmd co =
     (let r = vc_request cmd in
      case validate_correlation (hr_correlation_id r) of
        Inl e \<Rightarrow> (Inl e, co)
      | Inr _ \<Rightarrow>
          (if hc_stop_requested co then (Inl LifecycleNotRunning, co)
           else case hc_run co of
             None \<Rightarrow> (Inl LifecycleNotRunning, co)
           | Some run \<Rightarrow>
          (case named_instance (pk_producer_id (hr_key r)) of
             None \<Rightarrow> (Inl ProducerUnknown, co)
           | Some name \<Rightarrow>
          (case instance_of co name of
             None \<Rightarrow> (Inl ProducerUnknown, co)
           | Some st0 \<Rightarrow>
               (case settle_deferred st0 (drop_instance name co) of
                  (Inl e, st, co1) \<Rightarrow> (Inl e, put_instance name st co1)
                | (Inr _, st, co1) \<Rightarrow>
                    (case reserve_for_instance bits num_text cmd (po_run run) st co1 of
                       (res, st', co2) \<Rightarrow> (res, put_instance name st' co2)))))))"

section \<open>Leases\<close>

definition lease_instance :: "hqp_command_lease \<Rightarrow> hqp_coordinator \<Rightarrow> (string \<times> hqp_instance) option" where
  "lease_instance l co =
     (case strip_prefix (le_producer_id l) ''hqplayer:'' of None \<Rightarrow> None
      | Some name \<Rightarrow> map_option (Pair name) (instance_of co name))"

definition holds_operation ::
  "hqp_command_lease \<Rightarrow> (command_outcome \<Rightarrow> bool) \<Rightarrow> operation_record \<Rightarrow> bool" where
  "holds_operation l P r \<longleftrightarrow> or_id r = le_operation_id l \<and> or_generation r = Some (le_generation l) \<and>
     P (or_outcome r)"

definition exact_lease :: "hqp_command_lease \<Rightarrow> correlation_map \<Rightarrow> bool" where
  "exact_lease l corr =
     (case map_of corr (le_correlation_id l) of None \<Rightarrow> False | Some rv \<Rightarrow> kr_lease rv = l)"

definition active_run_id :: "hqp_coordinator \<Rightarrow> adapter_run_id option" where
  "active_run_id co = map_option po_run (hc_run co)"

definition validate_lease :: "hqp_command_lease \<Rightarrow> hqp_coordinator \<Rightarrow> unit reply" where
  "validate_lease l co =
     (if le_run_id l = None \<or> le_run_id l \<noteq> active_run_id co then Inl StaleLease
      else case lease_instance l co of
        None \<Rightarrow> Inl StaleLease
      | Some (name, st) \<Rightarrow>
          (if tk_epoch (in_tracker st) \<noteq> Some (epoch_no (le_producer_epoch l)) \<or>
              le_conflict_set l \<noteq> ConflictPipeline \<or> in_active_pipeline st \<noteq> Some (le_generation l)
           then Inl StaleLease
           else if \<not> exact_lease l (in_correlations st) then Inl StaleLease
           else if list_ex (holds_operation l (\<lambda>c. c = CO_Pending)) (in_ledger st) then Inr ()
           else Inl StaleLease))"

definition hqp_begin_dispatch :: "hqp_command_lease \<Rightarrow> hqp_coordinator \<Rightarrow> unit reply \<times> hqp_coordinator" where
  "hqp_begin_dispatch l co =
     (if hc_stop_requested co then (Inl LifecycleNotRunning, co)
      else case validate_lease l co of
        Inl e \<Rightarrow> (Inl e, co)
      | Inr _ \<Rightarrow>
     (case lease_instance l co of
        None \<Rightarrow> (Inl StaleLease, co)
      | Some (name, st) \<Rightarrow>
          (if in_retirement_requested st \<noteq> None then (Inl StaleLease, co)
           else if le_generation l \<in> in_dispatch_in_progress st then (Inl LeaseStillCurrent, co)
           else (Inr (), put_instance name (st\<lparr>in_dispatch_in_progress :=
                   insert (le_generation l) (in_dispatch_in_progress st)\<rparr>) co))))"

definition is_exact_fenced_pending :: "hqp_command_lease \<Rightarrow> hqp_coordinator \<Rightarrow> bool" where
  "is_exact_fenced_pending l co =
     (case lease_instance l co of None \<Rightarrow> False
      | Some (name, st) \<Rightarrow> le_generation l \<in> in_dispatch_in_progress st \<and>
          exact_lease l (in_correlations st) \<and>
          list_ex (holds_operation l (\<lambda>c. c = CO_Pending)) (in_ledger st))"

definition retained_terminal_operation :: "hqp_command_lease \<Rightarrow> hqp_coordinator \<Rightarrow> operation_record option" where
  "retained_terminal_operation l co =
     (case strip_prefix (le_producer_id l) ''hqplayer:'' of None \<Rightarrow> None
      | Some name \<Rightarrow>
          (case map_of (hc_retired_instances co) name of None \<Rightarrow> None
           | Some ri \<Rightarrow>
               (if \<not> exact_lease l (ri_correlations ri) then None
                else find (holds_operation l (\<lambda>c. c \<noteq> CO_Pending)) (ri_ledger ri))))"

text \<open>
  A change of the first record that matches: \<open>iter_mut().find\<close>, then a fallible change in place.
\<close>

fun change_first ::
  "(operation_record \<Rightarrow> bool) \<Rightarrow> (operation_record \<Rightarrow> operation_record reply) \<Rightarrow> operation_record list \<Rightarrow>
     (operation_record \<times> operation_record list) reply" where
  "change_first P f [] = Inl StaleLease"
| "change_first P f (r # rs) =
     (if P r then (case f r of Inl e \<Rightarrow> Inl e | Inr r' \<Rightarrow> Inr (r', r' # rs))
      else case change_first P f rs of Inl e \<Rightarrow> Inl e | Inr (r', rs') \<Rightarrow> Inr (r', r # rs'))"

definition apply_completion ::
  "hqp_command_completion \<Rightarrow> operation_record \<Rightarrow> operation_record reply" where
  "apply_completion c r = legal_transition
     (r\<lparr>or_write_attempt := cp_write_attempt c, or_recovery := cp_recovery c\<rparr>) (cp_outcome c) (cp_at c) (cp_reason c)"

definition complete_for_instance ::
  "hqp_command_lease \<Rightarrow> hqp_command_completion \<Rightarrow> hqp_instance \<Rightarrow> hqp_coordinator \<Rightarrow>
     operation_record reply \<times> hqp_instance \<times> hqp_coordinator" where
  "complete_for_instance l c st co =
     (case change_first (holds_operation l (\<lambda>c. True)) (apply_completion c) (in_ledger st) of
        Inl e \<Rightarrow> (Inl e, st, co)
      | Inr (completed, ledger) \<Rightarrow>
          (case offer_ledger StaleLease {} None (in_dispatch_in_progress st - {le_generation l}) ledger st co of
             (Inl e, st', co') \<Rightarrow> (Inl e, st', co')
           | (Inr _, st', co') \<Rightarrow> (Inr completed, st', co')))"

text \<open>What both ways of ending an operation do with the instance afterwards.\<close>

definition after_terminal ::
  "timestamp \<Rightarrow> string \<Rightarrow> operation_record reply \<times> hqp_instance \<times> hqp_coordinator \<Rightarrow>
     operation_record reply \<times> hqp_coordinator" where
  "after_terminal now name res =
     (case res of
        (Inl e, st, co) \<Rightarrow> (Inl e, put_instance name st co)
      | (Inr r, st, co) \<Rightarrow>
          (case (if has_pending_operations st then None else in_retirement_requested st) of
             Some epoch \<Rightarrow> (Inr r, finish_stop_if_quiescent (snd (retire_admitted_instance now name st epoch co)))
           | None \<Rightarrow> (Inr r, finish_stop_if_quiescent (put_instance name st co))))"

definition complete ::
  "timestamp \<Rightarrow> hqp_command_lease \<Rightarrow> hqp_command_completion \<Rightarrow> hqp_coordinator \<Rightarrow>
     operation_record reply \<times> hqp_coordinator" where
  "complete now l c co =
     (if validate_lease l co \<noteq> Inr () \<and> \<not> is_exact_fenced_pending l co
      then (case retained_terminal_operation l co of None \<Rightarrow> Inl StaleLease | Some r \<Rightarrow> Inr r, co)
      else case lease_instance l co of
        None \<Rightarrow> (Inl StaleLease, co)
      | Some (name, st) \<Rightarrow>
          after_terminal now name (complete_for_instance l c st (drop_instance name co)))"

definition supersede_stale_for_instance ::
  "hqp_command_lease \<Rightarrow> adapter_run_id option \<Rightarrow> bool \<Rightarrow> timestamp \<Rightarrow> hqp_instance \<Rightarrow> hqp_coordinator \<Rightarrow>
     operation_record reply \<times> hqp_instance \<times> hqp_coordinator" where
  "supersede_stale_for_instance l active_run stopping tm st co =
     (if le_generation l \<in> in_dispatch_in_progress st then (Inl LeaseStillCurrent, st, co)
      else if \<not> (le_run_id l \<noteq> active_run \<or> tk_epoch (in_tracker st) \<noteq> Some (epoch_no (le_producer_epoch l)) \<or>
                 in_retirement_requested st \<noteq> None \<or> stopping)
      then (Inl LeaseStillCurrent, st, co)
      else if \<not> exact_lease l (in_correlations st) then (Inl StaleLease, st, co)
      else case find (\<lambda>r. holds_operation l (\<lambda>c. c = CO_Superseded) r \<and> or_write_attempt r = WA_NotAttempted)
          (in_ledger st) of
        Some r \<Rightarrow> (Inr r, st, co)
      | None \<Rightarrow>
          (if in_active_pipeline st \<noteq> Some (le_generation l) then (Inl StaleLease, st, co)
           else case change_first (holds_operation l (\<lambda>c. c = CO_Pending))
               (supersede_unsent tm ''producer run or epoch advanced before HQPlayer native dispatch'')
               (in_ledger st) of
             Inl e \<Rightarrow> (Inl e, st, co)
           | Inr (superseded, ledger) \<Rightarrow>
               (case offer_ledger StaleLease {} None (in_dispatch_in_progress st) ledger st co of
                  (Inl e, st', co') \<Rightarrow> (Inl e, st', co')
                | (Inr _, st', co') \<Rightarrow> (Inr superseded, st', co'))))"

definition supersede_stale_before_dispatch ::
  "timestamp \<Rightarrow> hqp_command_lease \<Rightarrow> timestamp \<Rightarrow> hqp_coordinator \<Rightarrow>
     operation_record reply \<times> hqp_coordinator" where
  "supersede_stale_before_dispatch now l tm co =
     (case retained_terminal_operation l co of
        Some r \<Rightarrow> (Inr r, co)
      | None \<Rightarrow>
     (case lease_instance l co of
        None \<Rightarrow> (Inl StaleLease, co)
      | Some (name, st) \<Rightarrow>
          after_terminal now name (supersede_stale_for_instance l (active_run_id co) (hc_stop_requested co) tm st
            (drop_instance name co))))"

section \<open>The actor\<close>

datatype coordinator_command =
    ManagerStarted
  | Observed hqp_observation
  | TransientFailure string system_time
  | InstanceRemoved string u64
  | ManagerStopped
  | Reserve hqp_validated_command
  | LookupCorrelation hqp_immediate_command_request
  | BeginDispatch hqp_command_lease
  | Complete hqp_command_lease hqp_command_completion
  | SupersedeStale hqp_command_lease timestamp
  | RetryTick

datatype coordinator_reply =
    UnitReply "unit reply"
  | ReservationReply "hqp_command_reservation reply"
  | LookupReply "hqp_command_reservation option reply"
  | OperationReply "operation_record reply"

text \<open>A panicked actor answers nothing any more: its callers read a closed channel.\<close>

fun closed_reply :: "coordinator_command \<Rightarrow> coordinator_reply" where
  "closed_reply (Reserve c) = ReservationReply (Inl CoordinatorClosed)"
| "closed_reply (LookupCorrelation r) = LookupReply (Inl CoordinatorClosed)"
| "closed_reply (Complete l c) = OperationReply (Inl CoordinatorClosed)"
| "closed_reply (SupersedeStale l t) = OperationReply (Inl CoordinatorClosed)"
| "closed_reply c = UnitReply (Inl CoordinatorClosed)"

fun coordinator_handle ::
  "instant_text \<Rightarrow> (f64 \<Rightarrow> u64) \<Rightarrow> (json_number \<Rightarrow> string) \<Rightarrow> timestamp \<Rightarrow> coordinator_command \<Rightarrow>
     hqp_coordinator \<Rightarrow> coordinator_reply \<times> hqp_coordinator" where
  "coordinator_handle text bits num_text now ManagerStarted co =
     (case hqp_manager_started co of (r, co') \<Rightarrow> (UnitReply r, co'))"
| "coordinator_handle text bits num_text now (Observed ob) co =
     (case hqp_observed text ob co of (r, co') \<Rightarrow> (UnitReply r, co'))"
| "coordinator_handle text bits num_text now (TransientFailure name tm) co =
     (case transient_failure text name tm co of (r, co') \<Rightarrow> (UnitReply r, co'))"
| "coordinator_handle text bits num_text now (InstanceRemoved name epoch) co =
     (case hqp_instance_removed now name epoch co of (r, co') \<Rightarrow> (UnitReply r, co'))"
| "coordinator_handle text bits num_text now ManagerStopped co =
     (case hqp_manager_stopped now co of (r, co') \<Rightarrow> (UnitReply r, co'))"
| "coordinator_handle text bits num_text now (Reserve cmd) co =
     (case reserve bits num_text cmd co of (r, co') \<Rightarrow> (ReservationReply r, co'))"
| "coordinator_handle text bits num_text now (LookupCorrelation rq) co =
     (LookupReply (lookup_correlation bits num_text rq co), co)"
| "coordinator_handle text bits num_text now (BeginDispatch l) co =
     (case hqp_begin_dispatch l co of (r, co') \<Rightarrow> (UnitReply r, co'))"
| "coordinator_handle text bits num_text now (Complete l c) co =
     (case complete now l c co of (r, co') \<Rightarrow> (OperationReply r, co'))"
| "coordinator_handle text bits num_text now (SupersedeStale l tm) co =
     (case supersede_stale_before_dispatch now l tm co of (r, co') \<Rightarrow> (OperationReply r, co'))"
| "coordinator_handle text bits num_text now RetryTick co =
     (UnitReply (Inr ()), if has_deferred_commits co \<or> has_requested_retirements co
        then retry_deferred_commits now co else co)"

definition coordinator_step ::
  "instant_text \<Rightarrow> (f64 \<Rightarrow> u64) \<Rightarrow> (json_number \<Rightarrow> string) \<Rightarrow> timestamp \<Rightarrow> coordinator_command \<Rightarrow>
     hqp_coordinator \<Rightarrow> coordinator_reply \<times> hqp_coordinator" where
  "coordinator_step text bits num_text now c co =
     (if hc_panicked co then (closed_reply c, co)
      else case coordinator_handle text bits num_text now c co of
        (r, co') \<Rightarrow> (if hc_panicked co' then closed_reply c else r, co'))"

end
