(* ===== verification/Hqp_Command_Facts.thy ===== *)
theory Hqp_Command_Facts
  imports Hqp_Command
begin

text \<open>
  The fingerprint is a prefix code: reading it back from any stream of bytes determines what was
  written and what is left. The contract of one part is the locale \<open>prefix_code\<close>; the parts of a
  request are its interpretations.
\<close>

section \<open>Prefix codes\<close>

locale prefix_code =
  fixes enc :: "'a \<Rightarrow> u8 list"
    and fits :: "'a \<Rightarrow> bool"
    and same :: "'a \<Rightarrow> 'a \<Rightarrow> bool"
  assumes code: "fits x \<Longrightarrow> fits y \<Longrightarrow> enc x @ s = enc y @ t \<longleftrightarrow> same x y \<and> s = t"
begin

lemma code_alone: "fits x \<Longrightarrow> fits y \<Longrightarrow> enc x = enc y \<longleftrightarrow> same x y"
  using code [of x y "[]" "[]"] by simp

end

text \<open>A number is determined by its digits.\<close>

lemma digits_determine:
  "m < b ^ k \<Longrightarrow> n < b ^ k \<Longrightarrow> (\<And>i. i < k \<Longrightarrow> m div b ^ i mod b = n div b ^ i mod b) \<Longrightarrow> m = (n :: nat)"
proof (induction k arbitrary: m n)
  case (Suc k)
  have d: "m div b div b ^ i mod b = n div b div b ^ i mod b" if "i < k" for i
    using Suc.prems(3) [of "Suc i"] that by (simp only: power_Suc div_mult2_eq Suc_less_eq)
  have l: "m div b < b ^ k" "n div b < b ^ k"
    using Suc.prems(1,2) by (simp_all only: power_Suc2 less_mult_imp_div_less)
  have "m div b = n div b" by (rule Suc.IH [OF l d])
  moreover have "m mod b = n mod b" using Suc.prems(3) [of 0] by simp
  ultimately show ?case by (metis div_mult_mod_eq)
qed simp

lemma u64_to_be_inj [simp]: "u64_to_be v = u64_to_be w \<longleftrightarrow> v = w"
proof
  assume e: "u64_to_be v = u64_to_be w"
  have u: "unat (word_of_nat k :: u8) = k mod 256" for k by (simp add: unat_of_nat)
  have d: "unat v div 256 ^ i mod 256 = unat w div 256 ^ i mod 256" if "i \<in> {7, 6, 5, 4, 3, 2, 1, 0}" for i :: nat
  proof -
    have "word_of_nat (unat v div 256 ^ i) = (word_of_nat (unat w div 256 ^ i) :: u8)"
      using e that unfolding u64_to_be_def by (auto simp only: list.map list.inject insert_iff empty_iff)
    then show ?thesis by (metis u)
  qed
  have "unat v = unat w"
  proof (rule digits_determine [of _ 256 8])
    show "unat v < 256 ^ 8" "unat w < 256 ^ 8" using unsigned_less [of v] unsigned_less [of w] by simp_all
    show "unat v div 256 ^ i mod 256 = unat w div 256 ^ i mod 256" if "i < 8" for i
      using that by (intro d) auto
  qed
  then show "v = w" by (simp add: word_unat_eq_iff)
qed simp

lemma length_u64_to_be [simp]: "length (u64_to_be w) = 8"
  by (simp add: u64_to_be_def)

lemma u64_to_be_code [simp]: "u64_to_be v @ s = u64_to_be w @ t \<longleftrightarrow> v = w \<and> s = t"
  by (simp add: append_eq_append_conv)

definition short :: "'a list \<Rightarrow> bool" where
  "short xs \<longleftrightarrow> length xs < 2 ^ 64"

lemma length_bytes_code [simp]:
  assumes "short xs" "short ys"
  shows "length_bytes xs @ s = length_bytes ys @ t \<longleftrightarrow> length xs = length ys \<and> s = t"
proof -
  have "(word_of_nat (length xs) :: u64) = word_of_nat (length ys) \<longleftrightarrow> length xs = length ys"
    using assms by (simp add: short_def word_of_nat_eq_iff take_bit_eq_mod)
  then show ?thesis by (simp add: length_bytes_def)
qed

lemma append_bytes_code:
  assumes "short xs" "short ys"
  shows "append_bytes xs @ s = append_bytes ys @ t \<longleftrightarrow> xs = ys \<and> s = t"
proof -
  have "append_bytes xs @ s = length_bytes xs @ xs @ s" for xs s
    by (simp add: append_bytes_def length_bytes_def)
  then show ?thesis using assms by auto
qed

lemma bytes_of_inj [simp]: "bytes_of s = bytes_of t \<longleftrightarrow> s = t"
proof -
  have "inj (\<lambda>c. word_of_nat (of_char c) :: u8)"
  proof (rule injI)
    fix a b :: char assume "word_of_nat (of_char a) = (word_of_nat (of_char b) :: u8)"
    then have "of_char a mod 256 = (of_char b mod 256 :: nat)"
      by (simp add: word_of_nat_eq_iff take_bit_eq_mod)
    then show "a = b" by simp
  qed
  then show ?thesis by (simp add: bytes_of_def inj_map_eq_map)
qed

lemma length_bytes_of [simp]: "length (bytes_of s) = length s"
  by (simp add: bytes_of_def)

lemma short_bytes_of [simp]: "short (bytes_of s) \<longleftrightarrow> short s"
  by (simp add: short_def)

definition string_code :: "string \<Rightarrow> u8 list" where
  "string_code s = append_bytes (bytes_of s)"

interpretation str: prefix_code string_code short "(=)"
  by unfold_locales (simp add: string_code_def append_bytes_code)

interpretation opt_str: prefix_code "\<lambda>v. append_optional_bytes (map_option bytes_of v)"
  "\<lambda>v. case v of None \<Rightarrow> True | Some s \<Rightarrow> short s" "(=)"
proof
  fix x y :: "string option" and s t :: "u8 list"
  show "case x of None \<Rightarrow> True | Some s \<Rightarrow> short s \<Longrightarrow> case y of None \<Rightarrow> True | Some s \<Rightarrow> short s \<Longrightarrow>
      append_optional_bytes (map_option bytes_of x) @ s = append_optional_bytes (map_option bytes_of y) @ t
        \<longleftrightarrow> x = y \<and> s = t"
    by (cases x; cases y) (auto simp: append_optional_bytes_def append_bytes_code)
qed

interpretation word: prefix_code u64_to_be "\<lambda>_. True" "(=)"
  by unfold_locales simp

section \<open>Values\<close>

text \<open>When two JSON values are the same to the code: numbers by their text, objects by their sorted entries.\<close>

fun json_fits :: "(json_number \<Rightarrow> string) \<Rightarrow> json \<Rightarrow> bool" where
  "json_fits num_text (JNum n) = short (num_text n)"
| "json_fits num_text (JStr s) = short s"
| "json_fits num_text (JArr xs) = (short xs \<and> list_all (json_fits num_text) xs)"
| "json_fits num_text (JObj es) =
     (short es \<and> list_all (\<lambda>kv. short (fst kv) \<and> json_fits num_text (snd kv)) es)"
| "json_fits num_text j = True"

fun json_same :: "(json_number \<Rightarrow> string) \<Rightarrow> json \<Rightarrow> json \<Rightarrow> bool" where
  "json_same num_text JNull b = (b = JNull)"
| "json_same num_text (JBool v) b = (b = JBool v)"
| "json_same num_text (JNum n) b = (case b of JNum m \<Rightarrow> num_text n = num_text m | _ \<Rightarrow> False)"
| "json_same num_text (JStr s) b = (b = JStr s)"
| "json_same num_text (JArr xs) b =
     (case b of JArr ys \<Rightarrow> list_all2 (json_same num_text) xs ys | _ \<Rightarrow> False)"
| "json_same num_text (JObj es) b =
     (case b of JObj fs \<Rightarrow> list_all2 (\<lambda>kv lw. fst kv = fst lw \<and> json_same num_text (snd kv) (snd lw))
        (sort_key fst es) (sort_key fst fs) | _ \<Rightarrow> False)"

fun value_fits :: "(json_number \<Rightarrow> string) \<Rightarrow> control_value \<Rightarrow> bool" where
  "value_fits num_text (CV_Text s) = short s"
| "value_fits num_text (CV_Choice s) = short s"
| "value_fits num_text (CV_Composite es) =
     (short es \<and> list_all (\<lambda>kv. short (fst kv) \<and> value_fits num_text (snd kv)) es)"
| "value_fits num_text (CV_List vs) = (short vs \<and> list_all (value_fits num_text) vs)"
| "value_fits num_text (CV_Unrecognized kind raw) = (short kind \<and> json_fits num_text raw)"
| "value_fits num_text v = True"

fun value_same :: "(f64 \<Rightarrow> u64) \<Rightarrow> (json_number \<Rightarrow> string) \<Rightarrow> control_value \<Rightarrow> control_value \<Rightarrow> bool" where
  "value_same bits num_text (CV_Decimal x) b = (case b of CV_Decimal y \<Rightarrow> bits x = bits y | _ \<Rightarrow> False)"
| "value_same bits num_text (CV_Composite es) b =
     (case b of CV_Composite fs \<Rightarrow> list_all2 (\<lambda>kv lw. fst kv = fst lw \<and>
        value_same bits num_text (snd kv) (snd lw)) es fs | _ \<Rightarrow> False)"
| "value_same bits num_text (CV_List vs) b =
     (case b of CV_List ws \<Rightarrow> list_all2 (value_same bits num_text) vs ws | _ \<Rightarrow> False)"
| "value_same bits num_text (CV_Unrecognized kind raw) b =
     (case b of CV_Unrecognized kind' raw' \<Rightarrow> kind = kind' \<and> json_same num_text raw raw' | _ \<Rightarrow> False)"
| "value_same bits num_text v b = (b = v)"

lemma concat_code:
  "length xs = length ys \<Longrightarrow>
     (\<And>x y s t. x \<in> set xs \<Longrightarrow> y \<in> set ys \<Longrightarrow> enc x @ s = enc y @ t \<longleftrightarrow> same x y \<and> s = t) \<Longrightarrow>
     concat (map enc xs) @ s = concat (map enc ys) @ t \<longleftrightarrow> list_all2 same xs ys \<and> s = t"
  by (induction xs ys rule: list_induct2) simp_all

lemma counted_code:
  assumes "short xs" "short ys" "length (f xs) = length xs" "length (f ys) = length ys"
    and "\<And>x y s t. x \<in> set (f xs) \<Longrightarrow> y \<in> set (f ys) \<Longrightarrow> enc x @ s = enc y @ t \<longleftrightarrow> same x y \<and> s = t"
  shows "length_bytes xs @ concat (map enc (f xs)) @ s = length_bytes ys @ concat (map enc (f ys)) @ t \<longleftrightarrow>
    list_all2 same (f xs) (f ys) \<and> s = t"
proof (cases "length xs = length ys")
  case True
  then have "length (f xs) = length (f ys)" using assms(3,4) by simp
  from concat_code [OF this assms(5)] show ?thesis using assms(1,2) True by simp
next
  case False
  then show ?thesis using assms by (auto dest: list_all2_lengthD)
qed

lemma field_code:
  "short k \<Longrightarrow> short l \<Longrightarrow> (\<And>s t. e1 @ s = e2 @ t \<longleftrightarrow> P \<and> s = t) \<Longrightarrow>
     (append_bytes (bytes_of k) @ e1) @ s = (append_bytes (bytes_of l) @ e2) @ t \<longleftrightarrow> (k = l \<and> P) \<and> s = t"
  by (simp add: append_bytes_code)

lemma bool_byte_inj [simp]: "bool_byte a = bool_byte b \<longleftrightarrow> a = b"
  by (simp add: bool_byte_def)

lemma json_code:
  "json_fits num_text a \<Longrightarrow> json_fits num_text b \<Longrightarrow>
     append_json_value num_text a @ s = append_json_value num_text b @ t \<longleftrightarrow> json_same num_text a b \<and> s = t"
proof (induction num_text a b arbitrary: s t rule: json_same.induct)
  case (5 num_text xs b)
  show ?case
  proof (cases b)
    case (JArr ys)
    have "length_bytes xs @ concat (map (append_json_value num_text) xs) @ s =
        length_bytes ys @ concat (map (append_json_value num_text) ys) @ t \<longleftrightarrow>
        list_all2 (json_same num_text) xs ys \<and> s = t"
      using 5 JArr by (intro counted_code [of _ _ "\<lambda>x. x"]) (auto simp: list_all_iff)
    then show ?thesis by (simp add: JArr)
  qed simp_all
next
  case (6 num_text es b)
  show ?case
  proof (cases b)
    case (JObj fs)
    let ?e = "\<lambda>kv. append_bytes (bytes_of (fst kv)) @ append_json_value num_text (snd kv)"
    have "length_bytes es @ concat (map ?e (sort_key fst es)) @ s =
        length_bytes fs @ concat (map ?e (sort_key fst fs)) @ t \<longleftrightarrow>
        list_all2 (\<lambda>kv lw. fst kv = fst lw \<and> json_same num_text (snd kv) (snd lw)) (sort_key fst es) (sort_key fst fs)
          \<and> s = t"
      using 6 JObj by (intro counted_code [of _ _ "sort_key fst"] field_code) (auto simp: list_all_iff)
    then show ?thesis by (simp add: JObj)
  qed simp_all
next
  case (1 num_text b)
  then show ?case by (cases b) (auto simp: append_bytes_code)
next
  case (2 num_text v b)
  then show ?case by (cases b) (auto simp: append_bytes_code)
next
  case (3 num_text n b)
  then show ?case by (cases b) (auto simp: append_bytes_code)
next
  case (4 num_text str b)
  then show ?case by (cases b) (auto simp: append_bytes_code)
qed

lemma value_code:
  "value_fits num_text a \<Longrightarrow> value_fits num_text b \<Longrightarrow>
     append_control_value bits num_text a @ s = append_control_value bits num_text b @ t \<longleftrightarrow>
       value_same bits num_text a b \<and> s = t"
proof (induction bits num_text a b arbitrary: s t rule: value_same.induct [case_names decimal composite items raw empty boolean integer textual chosen])
  case (composite bits num_text es b)
  show ?case
  proof (cases b)
    case (CV_Composite fs)
    let ?e = "\<lambda>kv. append_bytes (bytes_of (fst kv)) @ append_control_value bits num_text (snd kv)"
    have "length_bytes es @ concat (map ?e es) @ s = length_bytes fs @ concat (map ?e fs) @ t \<longleftrightarrow>
        list_all2 (\<lambda>kv lw. fst kv = fst lw \<and> value_same bits num_text (snd kv) (snd lw)) es fs \<and> s = t"
      using composite CV_Composite by (intro counted_code [of _ _ "\<lambda>x. x"] field_code) (auto simp: list_all_iff)
    then show ?thesis by (simp add: CV_Composite)
  qed simp_all
next
  case (items bits num_text vs b)
  show ?case
  proof (cases b)
    case (CV_List ws)
    have "length_bytes vs @ concat (map (append_control_value bits num_text) vs) @ s =
        length_bytes ws @ concat (map (append_control_value bits num_text) ws) @ t \<longleftrightarrow>
        list_all2 (value_same bits num_text) vs ws \<and> s = t"
      using items CV_List by (intro counted_code [of _ _ "\<lambda>x. x"]) (auto simp: list_all_iff)
    then show ?thesis by (simp add: CV_List)
  qed simp_all
next
  case (raw bits num_text kind json b)
  then show ?case by (cases b) (simp_all add: append_bytes_code json_code)
next
  case (decimal bits num_text x b)
  then show ?case by (cases b) (auto simp: append_bytes_code)
next
  case (empty bits num_text b)
  then show ?case by (cases b) (auto simp: append_bytes_code)
next
  case (boolean bits num_text v b)
  then show ?case by (cases b) (auto simp: append_bytes_code)
next
  case (integer bits num_text v b)
  then show ?case by (cases b) (auto simp: append_bytes_code)
next
  case (textual bits num_text v b)
  then show ?case by (cases b) (auto simp: append_bytes_code)
next
  case (chosen bits num_text v b)
  then show ?case by (cases b) (auto simp: append_bytes_code)
qed

section \<open>Requests\<close>

definition request_fits :: "(json_number \<Rightarrow> string) \<Rightarrow> hqp_immediate_command_request \<Rightarrow> bool" where
  "request_fits num_text r \<longleftrightarrow> short (pk_producer_id (hr_key r)) \<and>
     short (target_role_as_str (pk_role (hr_key r))) \<and>
     (case pk_zone_id (hr_key r) of None \<Rightarrow> True | Some z \<Rightarrow> short z) \<and> short (cid_str (hr_control r)) \<and>
     short (apply_lane_as_str (hr_lane r)) \<and> value_fits num_text (hr_requested r)"

definition request_same ::
  "(f64 \<Rightarrow> u64) \<Rightarrow> (json_number \<Rightarrow> string) \<Rightarrow> hqp_immediate_command_request \<Rightarrow>
     hqp_immediate_command_request \<Rightarrow> bool" where
  "request_same bits num_text r q \<longleftrightarrow>
     pk_producer_id (hr_key r) = pk_producer_id (hr_key q) \<and>
     target_role_as_str (pk_role (hr_key r)) = target_role_as_str (pk_role (hr_key q)) \<and>
     pk_zone_id (hr_key r) = pk_zone_id (hr_key q) \<and> hr_expected r = hr_expected q \<and>
     hr_control r = hr_control q \<and> apply_lane_as_str (hr_lane r) = apply_lane_as_str (hr_lane q) \<and>
     value_same bits num_text (hr_requested r) (hr_requested q)"

lemma hr_expected_eq:
  "hr_expected r = hr_expected q \<longleftrightarrow>
     epoch_no (rr_epoch (hr_expected r)) = epoch_no (rr_epoch (hr_expected q)) \<and>
     rev_no (rr_control_plane (hr_expected r)) = rev_no (rr_control_plane (hr_expected q)) \<and>
     rev_no (rr_state (hr_expected r)) = rev_no (rr_state (hr_expected q))"
  by (cases "hr_expected r"; cases "hr_expected q")
    (auto intro: producer_epoch.expand revision.expand)

interpretation request: prefix_code "\<lambda>r. fp_bytes (fingerprint bits num_text r)"
  "request_fits num_text" "request_same bits num_text"
proof
  fix r q s t assume f: "request_fits num_text r" "request_fits num_text q"
  have parts: "append_bytes (bytes_of a) @ s = append_bytes (bytes_of b) @ t \<longleftrightarrow> a = b \<and> s = t"
    if "short a" "short b" for a b s t
    using that by (simp add: append_bytes_code)
  have c: "hr_control r = hr_control q \<longleftrightarrow> cid_str (hr_control r) = cid_str (hr_control q)"
    by (auto intro: control_id.expand)
  have z: "append_optional_bytes (map_option bytes_of (pk_zone_id (hr_key r))) @ s =
      append_optional_bytes (map_option bytes_of (pk_zone_id (hr_key q))) @ t \<longleftrightarrow>
      pk_zone_id (hr_key r) = pk_zone_id (hr_key q) \<and> s = t" for s t
    using f by (intro opt_str.code) (simp_all add: request_fits_def)
  show "fp_bytes (fingerprint bits num_text r) @ s = fp_bytes (fingerprint bits num_text q) @ t \<longleftrightarrow>
      request_same bits num_text r q \<and> s = t"
    using f by (simp add: fingerprint_def request_same_def request_fits_def parts z value_code hr_expected_eq c conj_assoc)
qed

lemma fingerprint_iff:
  "request_fits num_text r \<Longrightarrow> request_fits num_text q \<Longrightarrow>
     fingerprint bits num_text r = fingerprint bits num_text q \<longleftrightarrow> request_same bits num_text r q"
  using request.code_alone [of num_text r q bits] by (auto intro: hqp_command_fingerprint.expand)

lemma fingerprint_ignores_correlation [simp]:
  "fingerprint bits num_text (r\<lparr>hr_correlation_id := i\<rparr>) = fingerprint bits num_text r"
  by (simp add: fingerprint_def)

section \<open>What an accepted request is\<close>

definition actionable :: "producer_snapshot \<Rightarrow> hqp_immediate_command_request \<Rightarrow> bool" where
  "actionable sn r \<longleftrightarrow> sn_key sn = hr_key r \<and> doc_position (sn_document sn) = hr_expected r \<and>
     sn_presence sn = Live \<and> \<not> pd_stale (sn_document sn) \<and>
     (\<exists>h. doc_lane_health (sn_document sn) TL_Native = Some h \<and> lh_state h = LS_Connected \<and>
        \<not> fr_stale (lh_freshness h))"

lemma preflight_snapshot_None_iff: "preflight_snapshot sn r = None \<longleftrightarrow> actionable sn r"
  by (auto simp: preflight_snapshot_def actionable_def Let_def split: option.splits)

lemma preflight_choice_iff:
  "preflight_choice c v = Inr n \<longleftrightarrow>
     (\<exists>w cs x. v = CV_Choice w \<and> ct_choices c = Some cs \<and> find (\<lambda>x. ch_id x = w) (cset_choices cs) = Some x \<and>
        choice_is_mutable x \<and> ch_engine_name x = Some n \<and> n \<noteq> [])"
  by (cases "ct_choices c") (auto simp: preflight_choice_def split: control_value.splits option.splits)

definition engine_value_of :: "hqp_semantic_operation_kind \<Rightarrow> string \<Rightarrow> hqp_engine_value option" where
  "engine_value_of p n =
     (if p = Op_SetRate then map_option EngineRate (parse_u32 n) else Some (EngineName n))"

lemma preflight_iff:
  "preflight bits num_text sn r = Inr c \<longleftrightarrow>
     hr_correlation_id r \<noteq> [] \<and> length (hr_correlation_id r) \<le> 256 \<and> actionable sn r \<and>
     hr_lane r = AL_Immediate \<and>
     (\<exists>p ct ap n v. hqp_semantic_operation (hr_control r) = Some p \<and> \<not> is_deferred p \<and>
        doc_control (sn_document sn) (hr_control r) = Some ct \<and> permits_mutation (ct_availability ct) \<and>
        ct_apply ct = Some ap \<and> as_lane ap = AL_Immediate \<and> ct_kind ct = Kind_Enumeration \<and>
        preflight_choice ct (hr_requested r) = Inr n \<and> engine_value_of p n = Some v \<and>
        c = \<lparr>vc_request = r, vc_operation = p, vc_engine_value = v, vc_fingerprint = fingerprint bits num_text r\<rparr>)"
proof -
  have ctl: "preflight_control p ct r = Inr v \<longleftrightarrow>
      permits_mutation (ct_availability ct) \<and> \<not> is_deferred p \<and>
      (\<exists>ap n. ct_apply ct = Some ap \<and> as_lane ap = hr_lane r \<and> ct_kind ct = Kind_Enumeration \<and>
        preflight_choice ct (hr_requested r) = Inr n \<and> engine_value_of p n = Some v)" for p ct v
    by (auto simp: preflight_control_def engine_value_of_def is_mutable_def split: option.splits sum.splits)
  have refused: "engine_value_of p n \<noteq> Some v"
    if "preflight_control p ct r = Inl e" "permits_mutation (ct_availability ct)" "\<not> is_deferred p"
      "ct_apply ct = Some ap" "as_lane ap = hr_lane r" "ct_kind ct = Kind_Enumeration"
      "preflight_choice ct (hr_requested r) = Inr n" for p ct e ap n v
    using that ctl [of p ct v] by auto
  show ?thesis
    unfolding preflight_def
    by (auto simp: preflight_snapshot_None_iff [symmetric] validate_correlation_id_def MAX_CORRELATION_ID_BYTES_def
        ctl not_less dest: refused split: option.splits sum.splits if_splits)
qed

text \<open>On a document the projector built, the name that is executed is a name the engine offered.\<close>

lemma find_choice:
  "find (\<lambda>x. ch_id x = w) (cset_choices (native_choice_set i ns)) = Some x \<longleftrightarrow>
     (\<exists>n \<in> set ns. w = native_choice_id i n \<and> x = choice_of i n)"
proof -
  have f: "find (\<lambda>x. ch_id x = w) (map (choice_of i) ms) = Some x \<longleftrightarrow>
      (\<exists>n \<in> set ms. w = native_choice_id i n \<and> x = choice_of i n)" for ms
    by (induction ms) (auto simp: choice_of_def choice_new_def)
  show ?thesis by (simp add: native_choice_set_eq choice_set_runtime_def f)
qed

lemma choice_of_fields [simp]:
  "ch_id (choice_of i n) = native_choice_id i n" "ch_engine_name (choice_of i n) = Some n"
  "ch_availability (choice_of i n) = None" "choice_is_mutable (choice_of i n)"
  by (simp_all add: choice_of_def choice_new_def choice_is_mutable_def)

lemma descriptor_choice:
  "preflight_choice (selection_descriptor i label ob s ap av) v = Inr m \<longleftrightarrow>
     m \<in> set (ns_choices s) \<and> m \<noteq> [] \<and> v = CV_Choice (native_choice_id i m)"
  by (auto simp: preflight_choice_iff selection_descriptor_def hqp_control_def find_choice)

end
