(* ===== verification/Hqp_Coord_Facts.thy ===== *)
theory Hqp_Coord_Facts
  imports Hqp_Coord Hqp_Command_Facts
begin

text \<open>
  The coordinator seen from one instance. The abstract specification is the step relation
  \<open>istep\<close>: how one instance may change. Every command of the actor moves each instance by such
  steps, removes it, or creates it; so what holds along \<open>istep\<close> holds of the coordinator.
\<close>

section \<open>Small facts\<close>

lemma all_ok_Inr: "all_ok rs = Inr xs \<Longrightarrow> rs = map Inr xs"
proof (induction rs arbitrary: xs)
  case (Cons r rs)
  then show ?case by (cases r) (auto split: sum.splits)
qed simp

lemma all_ok_map:
  "all_ok (map f xs) = Inr ys \<Longrightarrow> list_all2 (\<lambda>x y. f x = Inr y) xs ys"
  by (drule all_ok_Inr) (auto simp: list_all2_conv_all_nth list_eq_iff_nth_eq)

lemma instance_of_put [simp]:
  "instance_of (put_instance n st co) m = (if m = n then Some st else instance_of co m)"
  by (simp add: instance_of_def put_instance_def)

lemma instance_of_drop [simp]:
  "instance_of (drop_instance n co) m = (if m = n then None else instance_of co m)"
  by (simp add: instance_of_def drop_instance_def)

text \<open>What only changes the world leaves the instances.\<close>

lemma publish_instances: "publish d co = (r, co') \<Longrightarrow> hc_instances co' = hc_instances co"
  by (auto simp: publish_def Let_def split: option.splits publish_answer.splits)

lemma publish_attempts_instances:
  "publish_attempts n d co = (r, co') \<Longrightarrow> hc_instances co' = hc_instances co"
proof (induction n arbitrary: co)
  case (Suc n)
  obtain r1 co1 where p: "publish d co = (r1, co1)" by (metis prod.collapse)
  have "publish_attempts n d co1 = (r, co') \<or> (r, co') = (r1, co1)"
    using Suc.prems by (simp add: p split: sum.splits hqp_coordinator_refusal.splits)
  then show ?case using Suc.IH [of co1] publish_instances [OF p] by auto
qed (simp add: publish_instances)

lemma publish_terminal_instances: "publish_terminal d co = (r, co') \<Longrightarrow> hc_instances co' = hc_instances co"
  unfolding publish_terminal_def by (rule publish_attempts_instances)

lemma retain_retired_instances [simp]: "hc_instances (retain_retired_instance n r co) = hc_instances co"
  by (simp add: retain_retired_instance_def Let_def)

lemma remove_retired_instances [simp]: "hc_instances (remove_retired_instance n co) = hc_instances co"
  by (simp add: remove_retired_instance_def)

lemma take_run_instances [simp]: "hc_instances (take_run co) = hc_instances co"
  by (simp add: take_run_def split: option.split)

lemma finish_stop_instances [simp]: "hc_instances (finish_stop_if_quiescent co) = hc_instances co"
  by (simp add: finish_stop_if_quiescent_def)

lemma begin_run_instances [simp]: "hc_instances (begin_hqplayer_run co) = hc_instances co"
  by (simp add: begin_hqplayer_run_def split: prod.split option.split)

lemma instance_of_cong: "hc_instances co = hc_instances co' \<Longrightarrow> instance_of co = instance_of co'"
  by (simp add: instance_of_def fun_eq_iff)

section \<open>The steps of one instance\<close>

text \<open>A commit that a terminal transition may offer, and the four transitions.\<close>

definition commit_from ::
  "hqp_instance \<Rightarrow> operation_id set \<Rightarrow> u64 option \<Rightarrow> u64 set \<Rightarrow> operation_record list \<Rightarrow> hqp_deferred_commit \<Rightarrow> bool"
where
  "commit_from st protected active dispatch ledger c \<longleftrightarrow>
     dc_active_pipeline c = active \<and> dc_dispatch_in_progress c = dispatch \<and>
     (dc_ledger c, dc_correlation_tombstones c, dc_correlation_tombstone_order c) =
       prune_terminal_history_preserving ledger (in_correlations st)
         (in_correlation_tombstones st, in_correlation_tombstone_order st) protected \<and>
     (\<exists>d d'. tk_last_document (in_tracker st) = Some d \<and>
        materialize (in_tracker st) (d\<lparr>pd_operations := dc_ledger c\<rparr>) = (Inr d', dc_tracker c))"

inductive commit_of :: "hqp_instance \<Rightarrow> hqp_deferred_commit \<Rightarrow> bool" where
  commit_expire: "in_retirement_requested st \<noteq> None \<Longrightarrow> all_ok (map (expire_operation tm) (in_ledger st)) = Inr ledger \<Longrightarrow>
     card (or_id ` set (filter expires (in_ledger st))) \<le> MAX_TERMINAL_OPERATIONS \<Longrightarrow>
     commit_from st (or_id ` set (filter expires (in_ledger st))) (in_active_pipeline st)
       (in_dispatch_in_progress st) ledger c \<Longrightarrow> commit_of st c"
| commit_stop: "all_ok (map (\<lambda>r. if terminalizes (in_dispatch_in_progress st) r
       then supersede_unsent tm detail r else Inr r) (in_ledger st)) = Inr ledger \<Longrightarrow>
     commit_from st {} None (in_dispatch_in_progress st) ledger c \<Longrightarrow> commit_of st c"
| commit_complete: "list_ex (holds_operation l (\<lambda>c. c = CO_Pending)) (in_ledger st) \<Longrightarrow>
     change_first (holds_operation l (\<lambda>c. True)) (apply_completion cp) (in_ledger st) = Inr (r, ledger) \<Longrightarrow>
     commit_from st {} None (in_dispatch_in_progress st - {le_generation l}) ledger c \<Longrightarrow> commit_of st c"
| commit_supersede: "le_generation l \<notin> in_dispatch_in_progress st \<Longrightarrow>
     change_first (holds_operation l (\<lambda>c. c = CO_Pending)) (supersede_unsent tm detail) (in_ledger st) = Inr (r, ledger) \<Longrightarrow>
     commit_from st {} None (in_dispatch_in_progress st) ledger c \<Longrightarrow> commit_of st c"

text \<open>What an observation projects to.\<close>

definition native_of :: "string \<Rightarrow> producer_document \<Rightarrow> bool" where
  "native_of name d \<longleftrightarrow> quiet_document d \<and> pi_producer_id (pd_producer d) = ''hqplayer:'' @ name"

lemma project_native_of: "project_native text ob = Inr d \<Longrightarrow> native_of (ho_instance_name ob) d"
  unfolding project_native_ok native_of_def quiet_document_def
  by (auto simp: native_document_def intro: plain_controls_quiet native_controls_plain)

lemma marked_stale:
  "fst (mark_transient_failure tr tm) = Inr (Some d2) \<Longrightarrow> \<exists>d lanes r. tk_last_document tr = Some d \<and>
     d2 = d\<lparr>pd_stale := True, pd_lanes := lanes, pd_revisions := r\<rparr>"
  by (auto simp: mark_transient_failure_cases retained_stale_def elim!: materialize_InrE split: option.splits sum.splits prod.splits)

inductive istep :: "string \<Rightarrow> hqp_instance \<Rightarrow> hqp_instance \<Rightarrow> bool" for name where
  step_defer: "commit_of st c \<Longrightarrow> istep name st (st\<lparr>in_deferred_commit := Some c\<rparr>)"
| step_commit: "commit_of st c \<Longrightarrow> istep name st (install_commit c st)"
| step_settle: "in_deferred_commit st = Some c \<Longrightarrow> istep name st (install_commit c st)"
| step_retire: "istep name st (st\<lparr>in_retirement_requested := Some e\<rparr>)"
| step_observe: "in_deferred_commit st = None \<Longrightarrow> in_retirement_requested st = None \<Longrightarrow>
     native_of name d0 \<Longrightarrow>
     reconcile_operations d0 (in_dispatch_in_progress st) (in_ledger st) = Inr (ledger1, converged) \<Longrightarrow>
     prune_terminal_history ledger1 (in_correlations st)
       (in_correlation_tombstones st, in_correlation_tombstone_order st) = (ledger2, tombs, order) \<Longrightarrow>
     observation_candidate d0 converged ledger2 (in_tracker st) = Inr (d, ledger3, tr) \<Longrightarrow>
     istep name st (adopt_observation tr ledger3 tombs order target st)"
| step_stale: "in_deferred_commit st = None \<Longrightarrow> tk_last_document (in_tracker st) = Some d \<Longrightarrow>
     materialize (in_tracker st) (d\<lparr>pd_stale := True, pd_lanes := lanes, pd_revisions := rev0,
       pd_operations := in_ledger st\<rparr>) = (Inr d2, tr) \<Longrightarrow>
     istep name st (st\<lparr>in_tracker := tr\<rparr>)"
| step_reserve: "in_deferred_commit st = None \<Longrightarrow> in_retirement_requested st = None \<Longrightarrow>
     map_of (in_correlation_tombstones st) (hr_correlation_id r) = None \<Longrightarrow>
     map_of (in_correlations st) (hr_correlation_id r) = None \<Longrightarrow>
     pk_producer_id (hr_key r) = ''hqplayer:'' @ name \<Longrightarrow> in_active_pipeline st = None \<Longrightarrow>
     length (filter operation_is_unresolved (in_ledger st)) < MAX_UNRESOLVED_OPERATIONS \<Longrightarrow>
     in_next_generation st \<noteq> - 1 \<Longrightarrow> g = in_next_generation st + 1 \<Longrightarrow>
     tk_last_document (in_tracker st) = Some d \<Longrightarrow>
     materialize (in_tracker st) (d\<lparr>pd_operations := in_ledger st @ [pending_operation r g]\<rparr>) = (Inr d', tr) \<Longrightarrow>
     istep name st (st\<lparr>in_tracker := tr, in_ledger := in_ledger st @ [pending_operation r g],
       in_next_generation := g, in_active_pipeline := Some g,
       in_correlations := hm_insert (hr_correlation_id r)
         \<lparr>kr_fingerprint = fingerprint bits num_text r, kr_lease = lease_of r epoch run_id g target\<rparr>
         (in_correlations st)\<rparr>)"
| step_begin: "in_retirement_requested st = None \<Longrightarrow> in_active_pipeline st = Some (le_generation l) \<Longrightarrow>
     le_generation l \<notin> in_dispatch_in_progress st \<Longrightarrow>
     list_ex (holds_operation l (\<lambda>c. c = CO_Pending)) (in_ledger st) \<Longrightarrow>
     istep name st (st\<lparr>in_dispatch_in_progress := insert (le_generation l) (in_dispatch_in_progress st)\<rparr>)"

abbreviation isteps :: "string \<Rightarrow> hqp_instance \<Rightarrow> hqp_instance \<Rightarrow> bool" where
  "isteps name \<equiv> (istep name)\<^sup>*\<^sup>*"

lemma istep_one: "istep name a b \<Longrightarrow> isteps name a b"
  by (rule r_into_rtranclp)

section \<open>The commands refine the steps\<close>

text \<open>The pieces of a command that work on an instance outside the map.\<close>

lemma publish_deferred_step:
  assumes "publish_deferred st c co = (r, st', co')" "commit_of st c \<or> in_deferred_commit st = Some c"
  shows "isteps name st st' \<and> hc_instances co' = hc_instances co \<and> (r = Inr () \<longrightarrow> in_deferred_commit st' = None)"
proof (cases "tk_last_document (dc_tracker c)")
  case None
  then show ?thesis using assms(1) by (auto simp: publish_deferred_def)
next
  case (Some d)
  obtain p co1 where p: "publish_terminal d co = (p, co1)" by (metis prod.collapse)
  note i = publish_terminal_instances [OF p]
  have n: "in_deferred_commit (install_commit c st) = None"
    by (simp add: install_commit_def retain_live_correlations_def)
  have "isteps name st (install_commit c st)"
    using assms(2) by (auto intro: istep_one step_commit step_settle)
  moreover have "isteps name st (st\<lparr>in_deferred_commit := Some c\<rparr>)"
    using assms(2)
  proof
    assume "commit_of st c"
    then show ?thesis by (intro istep_one step_defer)
  next
    assume "in_deferred_commit st = Some c"
    then have "st\<lparr>in_deferred_commit := Some c\<rparr> = st" by simp
    then show ?thesis by simp
  qed
  ultimately show ?thesis
    using assms(1) i n Some p by (cases p) (auto simp: publish_deferred_def)
qed

lemma settle_deferred_step:
  "settle_deferred st co = (r, st', co') \<Longrightarrow>
     isteps name st st' \<and> hc_instances co' = hc_instances co \<and> (r = Inr () \<longrightarrow> in_deferred_commit st' = None)"
  by (cases "in_deferred_commit st") (auto simp: settle_deferred_def dest: publish_deferred_step)

lemma offer_ledger_step:
  assumes "offer_ledger missing protected active dispatch ledger st co = (r, st', co')"
    "\<And>c. commit_from st protected active dispatch ledger c \<Longrightarrow> commit_of st c"
  shows "isteps name st st' \<and> hc_instances co' = hc_instances co"
proof -
  obtain ledger' tombs order where p: "prune_terminal_history_preserving ledger (in_correlations st)
      (in_correlation_tombstones st, in_correlation_tombstone_order st) protected = (ledger', tombs, order)"
    by (metis prod_cases3)
  show ?thesis
  proof (cases "tk_last_document (in_tracker st)")
    case None
    then show ?thesis using assms(1) p by (auto simp: offer_ledger_def)
  next
    case (Some d)
    obtain m tr where m: "materialize (in_tracker st) (d\<lparr>pd_operations := ledger'\<rparr>) = (m, tr)"
      by (metis prod.collapse)
    show ?thesis
    proof (cases m)
      case (Inl e)
      then show ?thesis using assms(1) p m Some by (auto simp: offer_ledger_def)
    next
      case (Inr d')
      let ?c = "\<lparr>dc_tracker = tr, dc_ledger = ledger', dc_active_pipeline = active,
        dc_dispatch_in_progress = dispatch, dc_correlation_tombstones = tombs,
        dc_correlation_tombstone_order = order\<rparr>"
      have "commit_of st ?c" using p m Some Inr by (intro assms(2)) (simp add: commit_from_def)
      moreover have "publish_deferred st ?c co = (r, st', co')"
        using assms(1) p m Some Inr by (simp add: offer_ledger_def)
      ultimately show ?thesis by (blast dest: publish_deferred_step)
    qed
  qed
qed

lemma expire_unresolved_step:
  assumes "expire_unresolved_before_retirement tm st co = (r, st', co')" "in_retirement_requested st \<noteq> None"
  shows "isteps name st st' \<and> hc_instances co' = hc_instances co"
proof (cases "all_ok (map (expire_operation tm) (in_ledger st))")
  case (Inl e)
  then show ?thesis using assms(1) by (simp add: expire_unresolved_before_retirement_def)
next
  case (Inr ledger)
  let ?frontier = "or_id ` set (filter expires (in_ledger st))"
  show ?thesis
  proof (cases "filter expires (in_ledger st) = [] \<or> card ?frontier > MAX_TERMINAL_OPERATIONS")
    case True
    then show ?thesis using assms(1) Inr by (auto simp: expire_unresolved_before_retirement_def Let_def split: if_splits)
  next
    case False
    then have o: "offer_ledger ProducerUnknown ?frontier (in_active_pipeline st) (in_dispatch_in_progress st)
        ledger st co = (r, st', co')"
      using assms(1) Inr by (simp add: expire_unresolved_before_retirement_def Let_def)
    show ?thesis
      by (rule offer_ledger_step [OF o], rule commit_expire [OF assms(2) Inr]) (use False in auto)
  qed
qed

lemma terminalize_step:
  assumes "terminalize_pending_without_dispatch tm detail st co = (r, st', co')"
  shows "isteps name st st' \<and> hc_instances co' = hc_instances co"
proof -
  let ?D = "in_dispatch_in_progress st"
  let ?f = "\<lambda>r. if terminalizes ?D r then supersede_unsent tm detail r else Inr r"
  show ?thesis
  proof (cases "all_ok (map ?f (in_ledger st))")
    case (Inl e)
    then show ?thesis using assms by (simp add: terminalize_pending_without_dispatch_def Let_def)
  next
    case (Inr ledger)
    obtain p st1 co1 where o: "offer_ledger ProducerUnknown {} None ?D ledger st co = (p, st1, co1)"
      by (metis prod_cases3)
    have "isteps name st st1 \<and> hc_instances co1 = hc_instances co"
      by (rule offer_ledger_step [OF o], rule commit_stop [OF Inr])
    then show ?thesis
      using assms Inr o by (auto simp: terminalize_pending_without_dispatch_def Let_def split: if_splits sum.splits)
  qed
qed

text \<open>
  A command takes the instance out of the map. \<open>lands\<close>: the rest of the map is untouched, and what
  stands under the name afterwards comes from \<open>st\<close> by steps.
\<close>

definition lands :: "string \<Rightarrow> hqp_instance \<Rightarrow> hqp_coordinator \<Rightarrow> hqp_coordinator \<Rightarrow> bool" where
  "lands name st co co' \<longleftrightarrow> (\<forall>n. n \<noteq> name \<longrightarrow> instance_of co' n = instance_of co n) \<and>
     (\<forall>st'. instance_of co' name = Some st' \<longrightarrow> isteps name st st')"

definition moves :: "hqp_coordinator \<Rightarrow> hqp_coordinator \<Rightarrow> bool" where
  "moves co co' \<longleftrightarrow> (\<forall>n st'. instance_of co' n = Some st' \<longrightarrow>
     (\<exists>st. instance_of co n = Some st \<and> isteps n st st'))"

lemma lands_put: "hc_instances co1 = hc_instances co \<Longrightarrow> isteps name st st' \<Longrightarrow> lands name st co (put_instance name st' co1)"
  by (simp add: lands_def instance_of_cong [of co1 co])

lemma lands_after: "isteps name st0 st \<Longrightarrow> hc_instances co1 = hc_instances co \<Longrightarrow> lands name st co1 co' \<Longrightarrow> lands name st0 co co'"
  by (auto simp: lands_def instance_of_cong [of co1 co] intro: rtranclp_trans)

lemma lands_moves: "instance_of co name = Some st \<Longrightarrow> lands name st (drop_instance name co) co' \<Longrightarrow> moves co co'"
  unfolding moves_def lands_def by (metis instance_of_drop rtranclp.rtrancl_refl)

lemma lands_world: "hc_instances co2 = hc_instances co' \<Longrightarrow> lands name st co co' \<Longrightarrow> lands name st co co2"
  by (simp add: lands_def instance_of_cong [of co2 co'])

lemma moves_refl [simp]: "moves co co"
  by (auto simp: moves_def)

lemma moves_world: "hc_instances co' = hc_instances co \<Longrightarrow> moves co co'"
  by (auto simp: moves_def instance_of_cong [of co' co])

lemma moves_trans: "moves a b \<Longrightarrow> moves b c \<Longrightarrow> moves a c"
  unfolding moves_def by (meson rtranclp_trans)

lemma retire_lands:
  assumes "retire_admitted_instance now name st epoch co = (r, co')" "instance_of co name = None"
  shows "lands name st co co'"
proof -
  let ?st1 = "st\<lparr>in_retirement_requested := Some epoch\<rparr>"
  let ?co1 = "if hc_run co = None then begin_hqplayer_run co else co"
  have i: "hc_instances ?co1 = hc_instances co" by simp
  have gone: "hc_instances c = hc_instances co \<Longrightarrow> lands name st co c" for c
    using assms(2) by (simp add: lands_def instance_of_cong [of c co])
  have one: "isteps name st ?st1" by (intro istep_one step_retire)
  obtain p st2 co2 where e: "expire_unresolved_before_retirement now ?st1 ?co1 = (p, st2, co2)"
    by (metis prod_cases3)
  have s: "isteps name ?st1 st2 \<and> hc_instances co2 = hc_instances ?co1"
    by (rule expire_unresolved_step [OF e]) simp
  have put: "hc_instances c = hc_instances co \<Longrightarrow> lands name st co (put_instance name st2 c)" for c
    by (rule lands_put) (use s one in \<open>auto intro: rtranclp_trans\<close>)
  show ?thesis
  proof (cases "hc_panicked ?co1")
    case True
    then show ?thesis using assms(1) i by (auto simp: retire_admitted_instance_def Let_def intro!: gone)
  next
    case False
    then show ?thesis
      using assms(1) e s i
      by (auto simp: retire_admitted_instance_def Let_def intro: put gone
          split: sum.splits list.splits retire_answer.splits)
  qed
qed

lemma retry_instance_moves: "moves co (retry_instance now co name)"
proof (cases "instance_of co name")
  case None
  then show ?thesis by (simp add: retry_instance_def)
next
  case (Some st0)
  obtain r st co1 where d: "settle_deferred st0 (drop_instance name co) = (r, st, co1)" by (metis prod_cases3)
  note s = settle_deferred_step [OF d, of name]
  have absent: "instance_of co1 name = None"
    using s instance_of_cong [of co1 "drop_instance name co"] by simp
  have put: "lands name st co1 (put_instance name st' co2)"
    if "isteps name st st'" "hc_instances co2 = hc_instances co1" for st' co2
    using that by (intro lands_put)
  obtain tr st' co2 where t: "terminalize_pending_without_dispatch now STOP_DETAIL st co1 = (tr, st', co2)"
    by (metis prod_cases3)
  have ts: "lands name st co1 (put_instance name st' co2)"
    using terminalize_step [OF t, of name] by (intro put) auto
  have rl: "lands name st co1 (snd (retire_admitted_instance now name st epoch co1))" for epoch
    by (rule retire_lands [OF prod.collapse [symmetric] absent])
  have "lands name st co1 (retry_instance now co name)"
    using Some d t ts rl put [of st co1]
    by (auto simp: retry_instance_def split: sum.splits option.splits if_splits)
  then show ?thesis using s by (intro lands_moves [OF Some]) (auto intro: lands_after)
qed

lemma foldl_moves: "(\<And>c x. moves (g c) (g (f c x))) \<Longrightarrow> moves (g c) (g (foldl f c xs))"
proof (induction xs arbitrary: c)
  case (Cons x xs)
  have "moves (g c) (g (f c x))" by (rule Cons.prems)
  moreover have "moves (g (f c x)) (g (foldl f (f c x) xs))" by (rule Cons.IH) (rule Cons.prems)
  ultimately show ?case by (auto intro: moves_trans)
qed simp

lemma retry_deferred_moves: "moves co (retry_deferred_commits now co)"
proof -
  have "moves co (foldl (retry_instance now) co (map fst (hc_instances co)))"
    by (rule foldl_moves [where g = "\<lambda>c. c"]) (rule retry_instance_moves)
  then show ?thesis
    unfolding retry_deferred_commits_def by (rule moves_trans) (rule moves_world, simp)
qed

lemma stop_instance_moves: "moves (snd acc) (snd (stop_instance now acc name))"
proof -
  obtain failure co where acc: "acc = (failure, co)" by (cases acc)
  show ?thesis
  proof (cases "instance_of co name")
    case None
    then show ?thesis by (simp add: stop_instance_def acc)
  next
    case (Some st0)
    obtain r st co1 where d: "settle_deferred st0 (drop_instance name co) = (r, st, co1)" by (metis prod_cases3)
    note s = settle_deferred_step [OF d, of name]
    obtain tr st' co2 where t: "terminalize_pending_without_dispatch now STOP_DETAIL st co1 = (tr, st', co2)"
      by (metis prod_cases3)
    have "lands name st0 (drop_instance name co) (snd (stop_instance now acc name))"
      using s terminalize_step [OF t, of name] acc Some d t
      by (auto simp: stop_instance_def intro!: lands_put intro: rtranclp_trans split: sum.splits option.splits)
    then show ?thesis unfolding acc snd_conv by (rule lands_moves [OF Some])
  qed
qed

lemma manager_stopped_moves: "hqp_manager_stopped now co = (r, co') \<Longrightarrow> moves co co'"
proof (cases "hc_run co = None")
  case False
  assume m: "hqp_manager_stopped now co = (r, co')"
  let ?co0 = "co\<lparr>hc_stop_requested := True\<rparr>"
  obtain f co1 where f: "foldl (stop_instance now) (None, ?co0) (map fst (hc_instances ?co0)) = (f, co1)"
    by (metis prod.collapse)
  have "moves ?co0 co1"
    using foldl_moves [of snd "stop_instance now" "(None, ?co0)", OF stop_instance_moves] f by (metis snd_conv)
  moreover have "moves co ?co0" by (rule moves_world) simp
  moreover have "hc_instances co' = hc_instances co1"
    using m f False by (auto simp: hqp_manager_stopped_def Let_def split: option.splits)
  ultimately show ?thesis by (meson moves_trans moves_world)
qed (simp add: hqp_manager_stopped_def)

lemma manager_started_moves: "hqp_manager_started co = (r, co') \<Longrightarrow> moves co co'"
  by (auto simp: hqp_manager_started_def intro!: moves_world split: if_splits)

definition evolves :: "hqp_coordinator \<Rightarrow> hqp_coordinator \<Rightarrow> bool" where
  "evolves co co' \<longleftrightarrow> (\<forall>n st'. instance_of co' n = Some st' \<longrightarrow> isteps n (start_of co n) st')"

lemma moves_evolves: "moves co co' \<Longrightarrow> evolves co co'"
  unfolding moves_def evolves_def start_of_def by fastforce

lemma lands_evolves:
  assumes "lands name (start_of co name) (drop_instance name co) co'"
  shows "evolves co co'"
  unfolding evolves_def
proof (intro allI impI)
  fix n st' assume "instance_of co' n = Some st'"
  then show "isteps n (start_of co n) st'"
    using assms by (cases "n = name") (auto simp: lands_def start_of_def)
qed

lemma lands_gone: "hc_instances co' = hc_instances co \<Longrightarrow> instance_of co name = None \<Longrightarrow> lands name st co co'"
  by (simp add: lands_def instance_of_cong [of co' co])

lemma observed_instance_lands:
  assumes "observed_instance ob projected st co = (r, co')" "instance_of co (ho_instance_name ob) = None"
    "in_deferred_commit st = None" "in_retirement_requested st = None"
    "native_of (ho_instance_name ob) projected"
  shows "lands (ho_instance_name ob) st co co'"
proof (cases "reconcile_operations projected (in_dispatch_in_progress st) (in_ledger st)")
  case (Inl e)
  then show ?thesis using assms by (auto simp: observed_instance_def intro: lands_gone)
next
  case (Inr lc)
  obtain ledger1 converged where lc: "lc = (ledger1, converged)" by (cases lc)
  obtain ledger2 tombs order where p: "prune_terminal_history ledger1 (in_correlations st)
      (in_correlation_tombstones st, in_correlation_tombstone_order st) = (ledger2, tombs, order)"
    by (metis prod_cases3)
  show ?thesis
  proof (cases "observation_candidate projected converged ledger2 (in_tracker st)")
    case (Inl e)
    then show ?thesis using assms Inr lc p by (auto simp: observed_instance_def intro: lands_gone)
  next
    case (Inr dlt)
    obtain d ledger3 tr where dlt: "dlt = (d, ledger3, tr)" by (cases dlt)
    obtain q co1 where q: "publish d co = (q, co1)" by (metis prod.collapse)
    note i = publish_instances [OF q]
    have "isteps (ho_instance_name ob) st (adopt_observation tr ledger3 tombs order (ho_execution_target ob) st)"
      using step_observe [OF assms(3,4,5)] \<open>reconcile_operations _ _ _ = Inr lc\<close> p Inr
      unfolding lc dlt by (intro istep_one) blast
    then show ?thesis
      using assms(1) \<open>reconcile_operations _ _ _ = Inr lc\<close> lc p Inr dlt q i
      by (cases q) (auto simp: observed_instance_def Let_def intro!: lands_put)
  qed
qed

lemma forget_retired_instances [simp]: "hc_instances (forget_retired n co) = hc_instances co"
  by (simp add: forget_retired_def)

lemma hqp_observed_evolves: "hqp_observed text ob co = (r, co') \<Longrightarrow> evolves co co'"
proof -
  assume o: "hqp_observed text ob co = (r, co')"
  define n where "n = ho_instance_name ob"
  define co0 where "co0 = forget_retired n co"
  define st0 where "st0 = start_of co0 n"
  have i0: "hc_instances co0 = hc_instances co" by (simp add: co0_def)
  have st0: "st0 = start_of co n" by (simp only: st0_def start_of_def instance_of_cong [OF i0])
  have d0: "hc_instances (drop_instance n co0) = hc_instances (drop_instance n co)"
    by (simp add: drop_instance_def i0)
  have same: "evolves co co" by (intro moves_evolves) simp
  show ?thesis
  proof (cases "hc_run co = None \<or> hc_stop_requested co \<or> (\<exists>e. project_native text ob = Inl e) \<or>
      retired_after co n (ho_producer_epoch ob)")
    case True
    then show ?thesis
      using o same by (auto simp: hqp_observed_def Let_def n_def split: if_splits sum.splits)
  next
    case False
    then obtain projected og where pr: "project_native text ob = Inr projected" and og: "hc_run co = Some og"
      by (cases "project_native text ob") auto
    obtain p st co2 where s: "settle_deferred st0 (drop_instance n co0) = (p, st, co2)" by (metis prod_cases3)
    note ss = settle_deferred_step [OF s, of n]
    have absent: "instance_of co2 n = None"
      using ss instance_of_cong [of co2 "drop_instance n co0"] by simp
    have o': "(r, co') = (if in_retirement_requested st0 \<noteq> None
        then (Inl LifecycleNotRunning, put_instance n st0 (drop_instance n co0))
        else case p of Inl e \<Rightarrow> (Inl e, put_instance n st co2)
          | Inr _ \<Rightarrow> observed_instance ob projected st co2)"
      using o [symmetric] False pr og
      unfolding hqp_observed_def Let_def n_def [symmetric] co0_def [symmetric] st0_def [symmetric] s
      by (cases p) simp_all
    have "lands n (start_of co n) (drop_instance n co) co'"
    proof (cases "in_retirement_requested st0 \<noteq> None")
      case True
      then show ?thesis using o' by (auto simp: st0 intro: lands_put [OF d0])
    next
      case ret: False
      show ?thesis
      proof (cases p)
        case (Inl e)
        then show ?thesis using o' ret ss d0 st0 by (auto intro!: lands_put)
      next
        case (Inr u)
        have "in_retirement_requested st = None"
          using s ret Inr by (auto simp: settle_deferred_def publish_deferred_def install_commit_def
              retain_live_correlations_def split: option.splits prod.splits sum.splits)
        moreover have "in_deferred_commit st = None" using ss Inr by simp
        moreover have "observed_instance ob projected st co2 = (r, co')" using o' ret Inr by simp
        ultimately have "lands n st co2 co'"
          using absent project_native_of [OF pr] unfolding n_def by (intro observed_instance_lands)
        then show ?thesis using ss d0 st0 by (auto intro: lands_after)
      qed
    qed
    then show ?thesis by (rule lands_evolves)
  qed
qed

lemma transient_failure_evolves: "transient_failure text name tm co = (r, co') \<Longrightarrow> evolves co co'"
proof -
  assume o: "transient_failure text name tm co = (r, co')"
  show ?thesis
  proof (cases "hc_run co = None \<or> hc_stop_requested co")
    case True
    then show ?thesis using o moves_evolves [OF moves_refl] by (auto simp: transient_failure_def)
  next
    case False
    obtain p st co1 where s: "settle_deferred (start_of co name) (drop_instance name co) = (p, st, co1)"
      by (metis prod_cases3)
    note ss = settle_deferred_step [OF s, of name]
    have absent: "instance_of co1 name = None"
      using ss instance_of_cong [of co1 "drop_instance name co"] by simp
    let ?m = "fst (mark_transient_failure (in_tracker st) (contract_timestamp text tm))"
    have o': "(r, co') = (case p of Inl e \<Rightarrow> (Inl e, put_instance name st co1) | Inr _ \<Rightarrow>
        (case ?m of Inl e \<Rightarrow> (Inl (RevisionFailed (ByRevision e)), co1)
         | Inr None \<Rightarrow> (Inr (), put_instance name st co1)
         | Inr (Some d) \<Rightarrow> (case materialize (in_tracker st) (d\<lparr>pd_operations := in_ledger st\<rparr>) of
             (Inl e, _) \<Rightarrow> (Inl (RevisionFailed (ByRevision e)), co1)
           | (Inr d2, tr) \<Rightarrow> (case publish d2 co1 of
               (Inl e, co2) \<Rightarrow> (Inl e, put_instance name st co2)
             | (Inr _, co2) \<Rightarrow> (Inr (), put_instance name (st\<lparr>in_tracker := tr\<rparr>) co2)))))"
      using o [symmetric] False unfolding transient_failure_def s by (cases p) simp_all
    have "lands name st co1 co'" if "p = Inr u" for u
    proof -
      have dn: "in_deferred_commit st = None" using ss that by simp
      have st: "isteps name st (st\<lparr>in_tracker := tr\<rparr>)"
        if d: "?m = Inr (Some d)" and m: "materialize (in_tracker st) (d\<lparr>pd_operations := in_ledger st\<rparr>) = (Inr d2, tr)"
        for d d2 tr
      proof -
        obtain d1 lanes r where "tk_last_document (in_tracker st) = Some d1"
          and e: "d = d1\<lparr>pd_stale := True, pd_lanes := lanes, pd_revisions := r\<rparr>"
          using marked_stale [OF d] by blast
        then show ?thesis using m unfolding e by (intro istep_one step_stale [OF dn])
      qed
      show ?thesis
        using o' that absent
        by (auto intro!: lands_gone lands_put st dest!: publish_instances
            split: sum.splits option.splits prod.splits)
    qed
    then have "lands name (start_of co name) (drop_instance name co) co'"
      using ss o' by (cases p) (auto intro: lands_put lands_after)
    then show ?thesis by (rule lands_evolves)
  qed
qed

lemma instance_removed_moves: "hqp_instance_removed now name epoch co = (r, co') \<Longrightarrow> moves co co'"
proof (cases "instance_of co name")
  case None
  then show "hqp_instance_removed now name epoch co = (r, co') \<Longrightarrow> ?thesis" by (simp add: hqp_instance_removed_def)
next
  case (Some st0)
  assume o: "hqp_instance_removed now name epoch co = (r, co')"
  obtain p st co1 where s: "settle_deferred st0 (drop_instance name co) = (p, st, co1)" by (metis prod_cases3)
  note ss = settle_deferred_step [OF s, of name]
  have absent: "instance_of co1 name = None"
    using ss instance_of_cong [of co1 "drop_instance name co"] by simp
  have rl: "lands name st co1 (snd (retire_admitted_instance now name st e co1))" for e
    by (rule retire_lands [OF prod.collapse [symmetric] absent])
  have put: "lands name st co1 (put_instance name st co1)"
    "lands name st co1 (put_instance name (st\<lparr>in_retirement_requested := Some e\<rparr>) co1)" for e
    by (auto intro: lands_put istep_one step_retire)
  have "lands name st co1 co'"
    using o Some s rl put by (cases p) (auto simp: hqp_instance_removed_def split: if_splits)
  then show ?thesis using ss by (intro lands_moves [OF Some]) (auto intro: lands_after)
qed

lemma hqplayer_prefix: "strip_prefix (''hqplayer:'' @ name) ''hqplayer:'' = Some name"
  by (simp only: strip_prefix_Some_iff)

lemma named_instance_Some: "named_instance pid = Some name \<longleftrightarrow> pid = ''hqplayer:'' @ name \<and> name \<noteq> []"
proof
  assume "named_instance pid = Some name"
  then show "pid = ''hqplayer:'' @ name \<and> name \<noteq> []"
    unfolding named_instance_def by (auto simp only: strip_prefix_Some_iff split: option.splits if_splits)
next
  assume "pid = ''hqplayer:'' @ name \<and> name \<noteq> []"
  then show "named_instance pid = Some name" by (simp only: named_instance_def hqplayer_prefix option.case if_False)
qed

lemma preflight_Inr_fingerprint: "preflight bits num_text sn r = Inr c \<Longrightarrow> vc_fingerprint c = fingerprint bits num_text r"
  by (auto simp: preflight_iff)

lemma reserve_checks_new:
  "reserve_checks bits num_text cmd st = Inr (Inr d) \<Longrightarrow>
     map_of (in_correlation_tombstones st) (hr_correlation_id (vc_request cmd)) = None \<and>
     map_of (in_correlations st) (hr_correlation_id (vc_request cmd)) = None \<and>
     in_retirement_requested st = None \<and> tk_last_document (in_tracker st) = Some d \<and>
     in_active_pipeline st = None \<and>
     length (filter operation_is_unresolved (in_ledger st)) < MAX_UNRESOLVED_OPERATIONS \<and>
     in_next_generation st \<noteq> - 1"
  by (auto simp: reserve_checks_def Let_def not_le split: if_splits option.splits sum.splits)

lemma reserve_for_instance_step:
  assumes "reserve_for_instance bits num_text cmd run_id st co = (r, st', co')"
    "in_deferred_commit st = None" "pk_producer_id (hr_key (vc_request cmd)) = ''hqplayer:'' @ name"
  shows "isteps name st st' \<and> hc_instances co' = hc_instances co"
proof (cases "reserve_checks bits num_text cmd st")
  case (Inl e)
  then show ?thesis using assms(1) by (simp add: reserve_for_instance_def Let_def)
next
  case (Inr x)
  show ?thesis
  proof (cases x)
    case (Inl rv)
    then show ?thesis using assms(1) Inr by (simp add: reserve_for_instance_def Let_def)
  next
    case new: (Inr d)
    let ?r = "vc_request cmd" and ?g = "in_next_generation st + 1" and ?e = "pi_epoch (pd_producer d)"
    note c = reserve_checks_new [OF Inr [unfolded new]]
    show ?thesis
    proof (cases "matching_target (pk_producer_id (hr_key ?r)) ?e (in_execution_target st)")
      case None
      then show ?thesis using assms(1) Inr new by (simp add: reserve_for_instance_def Let_def)
    next
      case (Some target)
      obtain m tr where m: "materialize (in_tracker st)
          (d\<lparr>pd_operations := in_ledger st @ [pending_operation ?r ?g]\<rparr>) = (m, tr)"
        by (metis prod.collapse)
      show ?thesis
      proof (cases m)
        case (Inl e)
        then show ?thesis using assms(1) Inr new Some m by (simp add: reserve_for_instance_def Let_def)
      next
        case Inr': (Inr d')
        obtain q co1 where q: "publish d' co = (q, co1)" by (metis prod.collapse)
        note i = publish_instances [OF q]
        have "isteps name st (st\<lparr>in_tracker := tr, in_ledger := in_ledger st @ [pending_operation ?r ?g],
            in_next_generation := ?g, in_active_pipeline := Some ?g,
            in_correlations := hm_insert (hr_correlation_id ?r)
              \<lparr>kr_fingerprint = fingerprint bits num_text ?r, kr_lease = lease_of ?r ?e run_id ?g target\<rparr>
              (in_correlations st)\<rparr>)"
          using c assms(2,3) m Inr' by (intro istep_one step_reserve) auto
        then show ?thesis
          using assms(1) Inr new Some m Inr' q i by (cases q) (auto simp: reserve_for_instance_def Let_def)
      qed
    qed
  qed
qed

lemma reserve_moves: "reserve bits num_text cmd co = (r, co') \<Longrightarrow> moves co co'"
proof -
  assume o: "reserve bits num_text cmd co = (r, co')"
  let ?pid = "pk_producer_id (hr_key (vc_request cmd))"
  show ?thesis
  proof (cases "\<exists>run name st. validate_correlation (hr_correlation_id (vc_request cmd)) = Inr () \<and>
      \<not> hc_stop_requested co \<and> hc_run co = Some run \<and> named_instance ?pid = Some name \<and> instance_of co name = Some st")
    case False
    then show ?thesis using o
      by (auto simp: reserve_def Let_def split: sum.splits if_splits option.splits)
  next
    case True
    then obtain run name st0 where c: "validate_correlation (hr_correlation_id (vc_request cmd)) = Inr ()"
      "\<not> hc_stop_requested co" "hc_run co = Some run" "named_instance ?pid = Some name"
      and i: "instance_of co name = Some st0" by blast
    obtain p st co1 where s: "settle_deferred st0 (drop_instance name co) = (p, st, co1)" by (metis prod_cases3)
    note ss = settle_deferred_step [OF s, of name]
    obtain q st' co2 where q: "reserve_for_instance bits num_text cmd (po_run run) st co1 = (q, st', co2)"
      by (metis prod_cases3)
    have "lands name st co1 co'"
    proof (cases p)
      case (Inl e)
      then show ?thesis using o c i s by (auto simp: reserve_def Let_def intro: lands_put)
    next
      case (Inr u)
      then have "isteps name st st' \<and> hc_instances co2 = hc_instances co1"
        using ss c(4) by (intro reserve_for_instance_step [OF q]) (auto simp: named_instance_Some)
      then show ?thesis using o c i s Inr q by (auto simp: reserve_def Let_def intro: lands_put)
    qed
    then show ?thesis using ss by (intro lands_moves [OF i]) (auto intro: lands_after)
  qed
qed

lemma validate_lease_ok:
  "validate_lease l co = Inr () \<Longrightarrow> \<exists>name st. lease_instance l co = Some (name, st) \<and>
     in_active_pipeline st = Some (le_generation l) \<and> exact_lease l (in_correlations st) \<and>
     list_ex (holds_operation l (\<lambda>c. c = CO_Pending)) (in_ledger st)"
  by (auto simp: validate_lease_def split: if_splits option.splits prod.splits)

lemma lease_instance_Some:
  "lease_instance l co = Some (name, st) \<longleftrightarrow> le_producer_id l = ''hqplayer:'' @ name \<and> instance_of co name = Some st"
proof (cases "strip_prefix (le_producer_id l) ''hqplayer:''")
  case None
  then have "le_producer_id l \<noteq> ''hqplayer:'' @ name" using hqplayer_prefix [of name] by (metis option.distinct(1))
  then show ?thesis by (simp only: lease_instance_def None option.case) simp
next
  case (Some n)
  then have "le_producer_id l = ''hqplayer:'' @ n" by (simp only: strip_prefix_Some_iff)
  then have "le_producer_id l = ''hqplayer:'' @ name \<longleftrightarrow> n = name" by (simp only: append_same_eq same_append_eq)
  then show ?thesis by (cases "instance_of co n") (auto simp only: lease_instance_def Some option.case option.map prod.inject)
qed

lemma hqp_begin_dispatch_ok:
  "hqp_begin_dispatch l co = (Inr (), co') \<Longrightarrow> \<exists>name st. lease_instance l co = Some (name, st) \<and>
     validate_lease l co = Inr () \<and> in_active_pipeline st = Some (le_generation l) \<and>
     list_ex (holds_operation l (\<lambda>c. c = CO_Pending)) (in_ledger st) \<and>
     in_retirement_requested st = None \<and> le_generation l \<notin> in_dispatch_in_progress st \<and>
     co' = put_instance name (st\<lparr>in_dispatch_in_progress :=
       insert (le_generation l) (in_dispatch_in_progress st)\<rparr>) co"
  by (auto simp: hqp_begin_dispatch_def dest: validate_lease_ok split: if_splits sum.splits option.splits prod.splits)

lemma begin_dispatch_refused: "hqp_begin_dispatch l co = (Inl e, co') \<Longrightarrow> co' = co"
  by (auto simp: hqp_begin_dispatch_def split: if_splits sum.splits option.splits prod.splits)

lemma moves_put: "instance_of co name = Some st \<Longrightarrow> istep name st st' \<Longrightarrow> moves co (put_instance name st' co)"
  by (auto simp: moves_def)

lemma begin_dispatch_moves: "hqp_begin_dispatch l co = (r, co') \<Longrightarrow> moves co co'"
proof (cases r)
  case (Inl e)
  then show "hqp_begin_dispatch l co = (r, co') \<Longrightarrow> ?thesis"
    using begin_dispatch_refused [of l co e co'] by auto
next
  case (Inr u)
  assume "hqp_begin_dispatch l co = (r, co')"
  then obtain name st where b: "lease_instance l co = Some (name, st)"
    "in_active_pipeline st = Some (le_generation l)"
    "list_ex (holds_operation l (\<lambda>c. c = CO_Pending)) (in_ledger st)"
    "in_retirement_requested st = None" "le_generation l \<notin> in_dispatch_in_progress st"
    "co' = put_instance name (st\<lparr>in_dispatch_in_progress :=
       insert (le_generation l) (in_dispatch_in_progress st)\<rparr>) co"
    using hqp_begin_dispatch_ok [of l co co'] Inr by auto
  show ?thesis unfolding b(6)
    by (rule moves_put) (use b in \<open>auto simp: lease_instance_Some intro: step_begin\<close>)
qed

lemma after_terminal_lands:
  assumes "after_terminal now name res = (r, co')" "isteps name st0 (fst (snd res))"
    "hc_instances (snd (snd res)) = hc_instances co" "instance_of co name = None"
  shows "lands name st0 co co'"
proof -
  obtain p st co1 where res: "res = (p, st, co1)" by (metis prod_cases3)
  have absent: "instance_of co1 name = None" using assms(3,4) res instance_of_cong [of co1 co] by simp
  have rl: "lands name st co1 (snd (retire_admitted_instance now name st e co1))" for e
    by (rule retire_lands [OF prod.collapse [symmetric] absent])
  have rf: "lands name st co1 (finish_stop_if_quiescent (snd (retire_admitted_instance now name st e co1)))" for e
    by (rule lands_world [OF _ rl]) simp
  have put: "lands name st co1 (put_instance name st co1)" by (rule lands_put) auto
  have pf: "lands name st co1 (finish_stop_if_quiescent (put_instance name st co1))"
    by (rule lands_world [OF _ put]) simp
  have "lands name st co1 co'"
    using assms(1) rf put pf by (auto simp: after_terminal_def res split: sum.splits option.splits if_splits)
  then show ?thesis using assms(2,3) res by (auto intro: lands_after)
qed

lemma complete_for_instance_step:
  assumes "complete_for_instance l c st co = (r, st', co')"
    "list_ex (holds_operation l (\<lambda>c. c = CO_Pending)) (in_ledger st)"
  shows "isteps name st st' \<and> hc_instances co' = hc_instances co"
proof (cases "change_first (holds_operation l (\<lambda>c. True)) (apply_completion c) (in_ledger st)")
  case (Inl e)
  then show ?thesis using assms(1) by (simp add: complete_for_instance_def)
next
  case (Inr x)
  obtain completed ledger where x: "x = (completed, ledger)" by (cases x)
  obtain p st1 co1 where o: "offer_ledger StaleLease {} None (in_dispatch_in_progress st - {le_generation l})
      ledger st co = (p, st1, co1)" by (metis prod_cases3)
  have "isteps name st st1 \<and> hc_instances co1 = hc_instances co"
    by (rule offer_ledger_step [OF o], rule commit_complete [OF assms(2) Inr [unfolded x]])
  then show ?thesis using assms(1) Inr x o by (cases p) (auto simp: complete_for_instance_def)
qed

lemma complete_moves: "complete now l c co = (r, co') \<Longrightarrow> moves co co'"
proof -
  assume o: "complete now l c co = (r, co')"
  show ?thesis
  proof (cases "validate_lease l co \<noteq> Inr () \<and> \<not> is_exact_fenced_pending l co")
    case True
    then show ?thesis using o by (simp add: complete_def)
  next
    case False
    then obtain name st where i: "lease_instance l co = Some (name, st)"
      and p: "list_ex (holds_operation l (\<lambda>c. c = CO_Pending)) (in_ledger st)"
      by (auto simp: is_exact_fenced_pending_def dest: validate_lease_ok split: option.splits)
    obtain q st1 co1 where q: "complete_for_instance l c st (drop_instance name co) = (q, st1, co1)"
      by (metis prod_cases3)
    have "lands name st (drop_instance name co) co'"
      using o False i q complete_for_instance_step [OF q p, of name]
      by (intro after_terminal_lands [of now name "(q, st1, co1)" r]) (auto simp: complete_def)
    then show ?thesis using i by (intro lands_moves) (simp_all add: lease_instance_Some)
  qed
qed

lemma supersede_for_instance_step:
  assumes "supersede_stale_for_instance l active stopping tm st co = (r, st', co')"
  shows "isteps name st st' \<and> hc_instances co' = hc_instances co"
proof -
  let ?d = "''producer run or epoch advanced before HQPlayer native dispatch''"
  show ?thesis
  proof (cases "le_generation l \<notin> in_dispatch_in_progress st \<and>
      (\<exists>x. change_first (holds_operation l (\<lambda>c. c = CO_Pending)) (supersede_unsent tm ?d) (in_ledger st) = Inr x)")
    case False
    then show ?thesis using assms
      by (auto simp: supersede_stale_for_instance_def split: if_splits option.splits sum.splits)
  next
    case True
    then obtain s ledger where c: "change_first (holds_operation l (\<lambda>c. c = CO_Pending)) (supersede_unsent tm ?d)
        (in_ledger st) = Inr (s, ledger)" and g: "le_generation l \<notin> in_dispatch_in_progress st" by auto
    obtain p st1 co1 where o: "offer_ledger StaleLease {} None (in_dispatch_in_progress st) ledger st co = (p, st1, co1)"
      by (metis prod_cases3)
    have "isteps name st st1 \<and> hc_instances co1 = hc_instances co"
      by (rule offer_ledger_step [OF o], rule commit_supersede [OF g c])
    then show ?thesis using assms c o
      by (auto simp: supersede_stale_for_instance_def split: if_splits option.splits sum.splits)
  qed
qed

lemma supersede_moves: "supersede_stale_before_dispatch now l tm co = (r, co') \<Longrightarrow> moves co co'"
proof -
  assume o: "supersede_stale_before_dispatch now l tm co = (r, co')"
  show ?thesis
  proof (cases "lease_instance l co")
    case None
    then show ?thesis using o by (auto simp: supersede_stale_before_dispatch_def split: option.splits)
  next
    case (Some ns)
    obtain name st where ns: "ns = (name, st)" by (cases ns)
    show ?thesis
    proof (cases "retained_terminal_operation l co")
      case (Some x)
      then show ?thesis using o by (simp add: supersede_stale_before_dispatch_def)
    next
      case None
      obtain q st1 co1 where q: "supersede_stale_for_instance l (active_run_id co) (hc_stop_requested co) tm st
          (drop_instance name co) = (q, st1, co1)" by (metis prod_cases3)
      have "lands name st (drop_instance name co) co'"
        using o None Some ns q supersede_for_instance_step [OF q, of name]
        by (intro after_terminal_lands [of now name "(q, st1, co1)" r])
          (auto simp: supersede_stale_before_dispatch_def)
      then show ?thesis using Some ns by (intro lands_moves) (simp_all add: lease_instance_Some)
    qed
  qed
qed

text \<open>The refinement.\<close>

lemma coordinator_handle_evolves:
  "coordinator_handle text bits num_text now c co = (r, co') \<Longrightarrow> evolves co co'"
  by (cases c) (auto split: prod.splits if_splits intro: hqp_observed_evolves transient_failure_evolves
      moves_evolves manager_started_moves manager_stopped_moves instance_removed_moves reserve_moves
      begin_dispatch_moves complete_moves supersede_moves retry_deferred_moves)

lemma coordinator_step_evolves:
  assumes "coordinator_step text bits num_text now c co = (r, co')"
  shows "evolves co co'"
proof -
  obtain r1 co1 where h: "coordinator_handle text bits num_text now c co = (r1, co1)" by (metis prod.collapse)
  have "co' = co \<or> co' = co1"
    using assms h by (auto simp: coordinator_step_def split: if_splits)
  then show ?thesis using coordinator_handle_evolves [OF h] moves_evolves [OF moves_refl] by auto
qed

end
