(* ===== verification/Hqp_Coord_Inv.thy ===== *)
theory Hqp_Coord_Inv
  imports Hqp_Coord_Facts "HOL-Library.Sublist"
begin

text \<open>
  The invariant of an instance along the steps of \<open>Hqp_Coord_Facts\<close>: bounded histories, generations
  that name the operations, a correlation for every operation and the other way round, and a last
  document that carries the ledger. From it: a generation is dispatched once, a bounded memory, an
  answer for every correlation that is still remembered.
\<close>

section \<open>Operations through a transition\<close>

definition op_key :: "operation_record \<Rightarrow> operation_id \<times> string \<times> u64 option" where
  "op_key r = (or_id r, or_correlation_id r, or_generation r)"

text \<open>A change that keeps the operation and does not reopen it.\<close>

definition settles :: "operation_record \<Rightarrow> operation_record \<Rightarrow> bool" where
  "settles r r' \<longleftrightarrow> op_key r' = op_key r \<and> (operation_is_unresolved r' \<longrightarrow> operation_is_unresolved r)"

lemma settles_refl [simp]: "settles r r"
  by (simp add: settles_def)

lemma legal_transition_key:
  "legal_transition r to tm rsn = Inr r' \<Longrightarrow> op_key r' = op_key r \<and> or_outcome r' = to"
  by (auto simp: legal_transition_def transition_def op_key_def split: sum.splits if_splits)

lemma expire_settles: "expire_operation tm r = Inr r' \<Longrightarrow> settles r r'"
  by (auto simp: expire_operation_def settles_def operation_is_unresolved_def op_key_def
      split: if_splits dest!: legal_transition_key)

lemma supersede_settles: "supersede_unsent tm detail r = Inr r' \<Longrightarrow> settles r r' \<and> or_outcome r' = CO_Superseded"
  by (auto simp: supersede_unsent_def settles_def operation_is_unresolved_def op_key_def dest!: legal_transition_key)

lemma completion_key: "apply_completion c r = Inr r' \<Longrightarrow> op_key r' = op_key r"
  by (auto simp: apply_completion_def op_key_def dest!: legal_transition_key)

lemma resolution_settled:
  "resolution d dispatch later r q = Some (outcome, recovery, rsn) \<Longrightarrow> \<not> awaits_convergence outcome"
  by (auto simp: resolution_def Let_def split: if_splits)

lemma reconcile_settles: "reconcile_operation d dispatch later r = Inr (r', b) \<Longrightarrow> settles r r'"
  by (auto simp: reconcile_operation_def settles_def operation_is_unresolved_def op_key_def
      split: if_splits option.splits sum.splits dest!: legal_transition_key dest: resolution_settled)

abbreviation ledger_settles :: "operation_record list \<Rightarrow> operation_record list \<Rightarrow> bool" where
  "ledger_settles \<equiv> list_all2 settles"

lemma ledger_settles_refl: "ledger_settles rs rs"
  by (simp add: list_all2_refl)

lemma all_ok_settles:
  assumes "all_ok (map f rs) = Inr rs'" "\<And>r r'. f r = Inr r' \<Longrightarrow> settles r r'"
  shows "ledger_settles rs rs'"
  using all_ok_map [OF assms(1)] by (rule list_all2_mono) (rule assms(2))

lemma change_first_changes:
  "change_first P f rs = Inr (r, rs') \<Longrightarrow> list_all2 (\<lambda>x x'. x' = x \<or> P x \<and> f x = Inr x') rs rs'"
proof (induction P f rs arbitrary: r rs' rule: change_first.induct)
  case (2 P f x xs)
  have "list_all2 (\<lambda>x x'. x' = x \<or> P x \<and> f x = Inr x') xs xs" by (simp add: list_all2_refl)
  with 2 show ?case by (auto split: if_splits sum.splits)
qed simp

text \<open>A fenced operation is left alone.\<close>

lemma reconcile_fenced:
  "reconcile_operation d dispatch later r = Inr (r', b) \<Longrightarrow> g \<in> dispatch \<Longrightarrow> or_generation r = Some g \<Longrightarrow> r' = r"
  by (auto simp: reconcile_operation_def resolution_def generation_no_def split: if_splits option.splits)

lemma reconcile_ledger:
  "reconcile_operations d dispatch rs = Inr (rs', ids) \<Longrightarrow>
     list_all2 (\<lambda>r r'. settles r r' \<and> (\<forall>g \<in> dispatch. or_generation r = Some g \<longrightarrow> r' = r)) rs rs'"
  by (induction d dispatch rs arbitrary: rs' ids rule: reconcile_operations.induct)
    (auto split: sum.splits prod.splits dest: reconcile_settles reconcile_fenced)

lemma cite_key [simp]: "op_key (cite_observation ids p r) = op_key r"
  "operation_is_unresolved (cite_observation ids p r) = operation_is_unresolved r"
  by (simp_all add: cite_observation_def op_key_def operation_is_unresolved_def)

abbreviation unresolved_count :: "operation_record list \<Rightarrow> nat" where
  "unresolved_count rs \<equiv> length (filter operation_is_unresolved rs)"

abbreviation terminal_count :: "operation_record list \<Rightarrow> nat" where
  "terminal_count rs \<equiv> length (filter (\<lambda>r. \<not> operation_is_unresolved r) rs)"

lemma ledger_settles_keys: "ledger_settles rs rs' \<Longrightarrow> map op_key rs' = map op_key rs"
  by (induction rule: list_all2_induct) (auto simp: settles_def)

lemma ledger_settles_count: "ledger_settles rs rs' \<Longrightarrow> unresolved_count rs' \<le> unresolved_count rs"
  by (induction rule: list_all2_induct) (auto simp: settles_def)

section \<open>Pruning\<close>

definition tombs_ok :: "tombstone_map \<times> string list \<Rightarrow> bool" where
  "tombs_ok t \<longleftrightarrow> length (snd t) \<le> MAX_CORRELATION_TOMBSTONES \<and> distinct (snd t) \<and>
     (\<forall>i. map_of (fst t) i = None \<longleftrightarrow> i \<notin> set (snd t)) \<and> hm_wf (fst t)"

lemma foldl_remove:
  "map_of (foldl (\<lambda>m n. hm_remove n m) t xs) i = (if i \<in> set xs then None else map_of t i)"
  "hm_wf t \<Longrightarrow> hm_wf (foldl (\<lambda>m n. hm_remove n m) t xs)"
  by (induction xs arbitrary: t) auto

lemma take_drop_distinct: "distinct xs \<Longrightarrow> x \<in> set (drop n xs) \<longleftrightarrow> x \<in> set xs \<and> x \<notin> set (take n xs)"
  by (metis (no_types, lifting) Un_iff append_take_drop_id disjoint_iff distinct_append set_append)

lemma retain_tombstone_ok: "tombs_ok t \<Longrightarrow> tombs_ok (retain_correlation_tombstone i fp t)"
proof -
  assume ok: "tombs_ok t"
  obtain m order where t: "t = (m, order)" by (cases t)
  define order1 where "order1 = (if map_of m i = None then order @ [i] else order)"
  define n where "n = length order1 - MAX_CORRELATION_TOMBSTONES"
  have d: "distinct order1" and s: "set order1 = insert i (set order)"
    using ok by (auto simp: tombs_ok_def order1_def t)
  have "retain_correlation_tombstone i fp t =
      (foldl (\<lambda>m n. hm_remove n m) (hm_insert i fp m) (take n order1), drop n order1)"
    by (simp add: retain_correlation_tombstone_def t order1_def n_def Let_def)
  then show ?thesis
    using ok d s take_drop_distinct [OF d, of _ n]
    by (auto simp: tombs_ok_def t foldl_remove n_def)
qed

lemma prune_loop_ok:
  "prune_loop n P corr rs t = (rs', t') \<Longrightarrow>
     subseq rs' rs \<and> filter operation_is_unresolved rs' = filter operation_is_unresolved rs \<and>
     (tombs_ok t \<longrightarrow> tombs_ok t') \<and>
     terminal_count rs' = terminal_count rs - min n (length (filter (\<lambda>r. \<not> operation_is_unresolved r \<and> or_id r \<notin> P) rs))"
proof (induction rs arbitrary: n t rs' t')
  case (Cons r rs)
  show ?case
  proof (cases "0 < n \<and> \<not> operation_is_unresolved r \<and> or_id r \<notin> P")
    case True
    let ?t = "case map_of corr (or_correlation_id r) of None \<Rightarrow> t
      | Some rv \<Rightarrow> retain_correlation_tombstone (or_correlation_id r) (kr_fingerprint rv) t"
    have "prune_loop (n - 1) P corr rs ?t = (rs', t')" using Cons.prems by (simp only: prune_loop.simps if_P [OF True])
    note ih = Cons.IH [OF this]
    have "tombs_ok t \<longrightarrow> tombs_ok ?t" by (simp add: retain_tombstone_ok split: option.split)
    then show ?thesis using ih True by (auto simp: min_def)
  next
    case False
    obtain kept t1 where p: "prune_loop n P corr rs t = (kept, t1)" by (metis prod.collapse)
    then have e: "rs' = r # kept" "t' = t1" using Cons.prems False by auto
    note ih = Cons.IH [OF p]
    have "length (filter (\<lambda>r. \<not> operation_is_unresolved r \<and> or_id r \<notin> P) rs) \<le> terminal_count rs"
      by (induction rs) auto
    then show ?thesis using ih False e by auto
  qed
qed simp

lemma terminal_split:
  "terminal_count rs = length (filter (\<lambda>r. \<not> operation_is_unresolved r \<and> or_id r \<notin> P) rs) +
     length (filter (\<lambda>r. \<not> operation_is_unresolved r \<and> or_id r \<in> P) rs)"
  by (induction rs) auto

lemma protected_count: "distinct (map or_id rs) \<Longrightarrow> finite P \<Longrightarrow> length (filter (\<lambda>r. Q r \<and> or_id r \<in> P) rs) \<le> card P"
proof -
  assume d: "distinct (map or_id rs)" and f: "finite P"
  let ?xs = "map or_id (filter (\<lambda>r. Q r \<and> or_id r \<in> P) rs)"
  have "distinct ?xs" using d by (induction rs) auto
  then have "length ?xs = card (set ?xs)" by (simp only: distinct_card)
  also have "\<dots> \<le> card P" by (rule card_mono [OF f]) auto
  finally show ?thesis by simp
qed

lemma prune_ok:
  assumes "prune_terminal_history_preserving rs corr t P = (rs', t')" "distinct (map or_id rs)"
    "finite P" "card P \<le> MAX_TERMINAL_OPERATIONS"
  shows "subseq rs' rs \<and> filter operation_is_unresolved rs' = filter operation_is_unresolved rs \<and> (tombs_ok t \<longrightarrow> tombs_ok t') \<and>
    terminal_count rs' \<le> MAX_TERMINAL_OPERATIONS"
proof -
  define n where "n = terminal_count rs - MAX_TERMINAL_OPERATIONS"
  show ?thesis
  proof (cases "n = 0")
    case True
    then show ?thesis using assms(1) by (auto simp: prune_terminal_history_preserving_def Let_def n_def)
  next
    case False
    then have "prune_loop n P corr rs t = (rs', t')"
      using assms(1) by (simp add: prune_terminal_history_preserving_def n_def [symmetric] Let_def)
    note ok = prune_loop_ok [OF this]
    have "length (filter (\<lambda>r. \<not> operation_is_unresolved r \<and> or_id r \<in> P) rs) \<le> MAX_TERMINAL_OPERATIONS"
      using protected_count [OF assms(2,3), of "\<lambda>r. \<not> operation_is_unresolved r"] assms(4) by simp
    then have "n \<le> length (filter (\<lambda>r. \<not> operation_is_unresolved r \<and> or_id r \<notin> P) rs)"
      using terminal_split [of rs P] by (simp add: n_def)
    then show ?thesis using ok by (auto simp: n_def min_def)
  qed
qed

section \<open>The invariant\<close>

definition names_ok :: "string \<Rightarrow> u64 \<Rightarrow> (operation_id \<times> string \<times> u64 option) list \<Rightarrow> bool" where
  "names_ok name n ks \<longleftrightarrow> distinct (map fst ks) \<and>
     (\<forall>(i, c, g) \<in> set ks. \<exists>x. g = Some x \<and> x \<le> n \<and> i = operation_id_of (''hqplayer:'' @ name) x)"

definition counts_ok :: "operation_record list \<Rightarrow> bool" where
  "counts_ok rs \<longleftrightarrow> unresolved_count rs \<le> MAX_UNRESOLVED_OPERATIONS \<and> terminal_count rs \<le> MAX_TERMINAL_OPERATIONS"

text \<open>Each operation has its correlation, and each correlation its operation.\<close>

definition correlated :: "operation_record list \<Rightarrow> correlation_map \<Rightarrow> bool" where
  "correlated rs corr \<longleftrightarrow> hm_wf corr \<and>
     (\<forall>(i, c, g) \<in> set (map op_key rs). \<exists>rv. map_of corr c = Some rv \<and> le_operation_id (kr_lease rv) = i) \<and>
     (\<forall>c rv. map_of corr c = Some rv \<longrightarrow> le_correlation_id (kr_lease rv) = c \<and>
        (le_operation_id (kr_lease rv), c, Some (le_generation (kr_lease rv))) \<in> set (map op_key rs))"

text \<open>A generation that is being dispatched is a pending operation of the ledger.\<close>

definition fences_ok :: "u64 set \<Rightarrow> operation_record list \<Rightarrow> bool" where
  "fences_ok dispatch rs \<longleftrightarrow> (\<forall>g \<in> dispatch. \<exists>r \<in> set rs. or_generation r = Some g \<and> or_outcome r = CO_Pending)"

text \<open>The last document is the instance's own and carries the ledger.\<close>

definition documented :: "string \<Rightarrow> revision_tracker \<Rightarrow> operation_record list \<Rightarrow> bool" where
  "documented name tr rs \<longleftrightarrow> tracker_ok tr \<and>
     (case tk_last_document tr of None \<Rightarrow> rs = []
      | Some d \<Rightarrow> pd_operations d = rs \<and> pi_producer_id (pd_producer d) = ''hqplayer:'' @ name)"

definition commit_ok :: "string \<Rightarrow> hqp_instance \<Rightarrow> hqp_deferred_commit \<Rightarrow> bool" where
  "commit_ok name st c \<longleftrightarrow> subseq (map op_key (dc_ledger c)) (map op_key (in_ledger st)) \<and>
     counts_ok (dc_ledger c) \<and> tombs_ok (dc_correlation_tombstones c, dc_correlation_tombstone_order c) \<and>
     documented name (dc_tracker c) (dc_ledger c) \<and> tk_last_document (dc_tracker c) \<noteq> None \<and>
     dc_dispatch_in_progress c \<subseteq> in_dispatch_in_progress st \<and>
     fences_ok (dc_dispatch_in_progress c) (dc_ledger c) \<and>
     (dc_active_pipeline c = None \<or>
      in_retirement_requested st \<noteq> None \<and> dc_active_pipeline c = in_active_pipeline st)"

definition inst_ok :: "string \<Rightarrow> hqp_instance \<Rightarrow> bool" where
  "inst_ok name st \<longleftrightarrow> names_ok name (in_next_generation st) (map op_key (in_ledger st)) \<and>
     counts_ok (in_ledger st) \<and> correlated (in_ledger st) (in_correlations st) \<and>
     tombs_ok (in_correlation_tombstones st, in_correlation_tombstone_order st) \<and>
     documented name (in_tracker st) (in_ledger st) \<and>
     fences_ok (in_dispatch_in_progress st) (in_ledger st) \<and>
     (\<forall>g. in_active_pipeline st = Some g \<longrightarrow> g \<le> in_next_generation st) \<and>
     (\<forall>c. in_deferred_commit st = Some c \<longrightarrow> commit_ok name st c)"

lemma inst_ok_default [simp]: "inst_ok name instance_default"
  by (simp add: inst_ok_def instance_default_def names_ok_def counts_ok_def correlated_def tombs_ok_def
      documented_def fences_ok_def) (simp add: tracker_default_def)

subsection \<open>The pieces under a change\<close>

lemma subseq_set: "subseq xs ys \<Longrightarrow> x \<in> set xs \<Longrightarrow> x \<in> set ys"
  using set_nths_subset by (fastforce simp: subseq_conv_nths)

lemma subseq_distinct: "subseq xs ys \<Longrightarrow> distinct ys \<Longrightarrow> distinct xs"
  by (auto simp: subseq_conv_nths)

lemma names_subseq: "names_ok name n ks \<Longrightarrow> subseq ks' ks \<Longrightarrow> names_ok name n ks'"
  unfolding names_ok_def by (blast dest: subseq_map [of ks' ks fst] subseq_distinct subseq_set)

lemma map_of_filter_wf:
  "hm_wf m \<Longrightarrow> map_of (filter P m) k =
     (case map_of m k of None \<Rightarrow> None | Some v \<Rightarrow> if P (k, v) then Some v else None)"
proof (induction m)
  case (Cons e m)
  obtain a b where e: "e = (a, b)" by (cases e)
  have "a \<notin> fst ` set m" "hm_wf m" using Cons.prems by (simp_all add: hm_wf_def e)
  moreover have "map_of (filter P m) a = None" if "a \<notin> fst ` set m"
    using that by (induction m) auto
  ultimately show ?case using Cons.IH by (auto simp: e split: option.split)
qed simp

lemma filter_wf: "hm_wf m \<Longrightarrow> hm_wf (filter P m)"
  unfolding hm_wf_def by (rule distinct_map_filter)

lemma key_ids: "or_id ` set rs = fst ` set (map op_key rs)"
  by (force simp: op_key_def)

lemma correlated_subseq:
  assumes "correlated rs corr" "names_ok name n (map op_key rs)" "subseq (map op_key rs') (map op_key rs)"
  shows "correlated rs' (filter (\<lambda>e. le_operation_id (kr_lease (snd e)) \<in> or_id ` set rs') corr)"
proof -
  let ?P = "\<lambda>e. le_operation_id (kr_lease (snd e)) \<in> or_id ` set rs'"
  have wf: "hm_wf corr" using assms(1) by (simp add: correlated_def)
  have sub: "k \<in> set (map op_key rs') \<Longrightarrow> k \<in> set (map op_key rs)" for k
    by (rule subseq_set [OF assms(3)])
  have "distinct (map fst (map op_key rs))" using assms(2) unfolding names_ok_def by (rule conjunct1)
  then have io: "inj_on fst (set (map op_key rs))" unfolding distinct_map by (rule conjunct2)
  have inj: "k = k'" if "k \<in> set (map op_key rs)" "k' \<in> set (map op_key rs)" "fst k = fst k'" for k k'
    by (rule inj_onD [OF io that(3,1,2)])
  have "\<exists>rv. map_of (filter ?P corr) c = Some rv \<and> le_operation_id (kr_lease rv) = i"
    if k: "(i, c, g) \<in> set (map op_key rs')" for i c g
  proof -
    obtain rv where rv: "map_of corr c = Some rv" "le_operation_id (kr_lease rv) = i"
      using assms(1) sub [OF k] unfolding correlated_def by blast
    have "i \<in> or_id ` set rs'" using imageI [OF k, of fst] unfolding key_ids by (simp only: fst_conv)
    then show ?thesis using rv by (simp add: map_of_filter_wf [OF wf])
  qed
  moreover have "le_correlation_id (kr_lease rv) = c \<and>
      (le_operation_id (kr_lease rv), c, Some (le_generation (kr_lease rv))) \<in> set (map op_key rs')"
    if m: "map_of (filter ?P corr) c = Some rv" for c rv
  proof -
    have rv: "map_of corr c = Some rv" "le_operation_id (kr_lease rv) \<in> or_id ` set rs'"
      using m by (auto simp: map_of_filter_wf [OF wf] split: option.splits if_splits)
    then have old: "le_correlation_id (kr_lease rv) = c"
      "(le_operation_id (kr_lease rv), c, Some (le_generation (kr_lease rv))) \<in> set (map op_key rs)"
      using assms(1) unfolding correlated_def by blast+
    obtain k where k: "k \<in> set (map op_key rs')" "fst k = le_operation_id (kr_lease rv)"
      using rv(2) unfolding key_ids by force
    have "k = (le_operation_id (kr_lease rv), c, Some (le_generation (kr_lease rv)))"
      by (rule inj) (use sub k old in auto)
    then show ?thesis using old k by simp
  qed
  ultimately show ?thesis unfolding correlated_def using filter_wf [OF wf] by blast
qed

lemma correlated_bound:
  assumes "correlated rs corr"
  shows "length corr \<le> length rs"
proof -
  have wf: "hm_wf corr" using assms by (simp add: correlated_def)
  have "fst ` set corr \<subseteq> or_correlation_id ` set rs"
  proof
    fix c assume "c \<in> fst ` set corr"
    then obtain rv where "map_of corr c = Some rv" by (metis domD domI dom_map_of_conv_image_fst)
    then have "(le_operation_id (kr_lease rv), c, Some (le_generation (kr_lease rv))) \<in> set (map op_key rs)"
      using assms unfolding correlated_def by blast
    then show "c \<in> or_correlation_id ` set rs" by (auto simp: op_key_def)
  qed
  then have "card (fst ` set corr) \<le> card (or_correlation_id ` set rs)" by (intro card_mono) auto
  also have "\<dots> \<le> length rs" by (metis card_length length_map list.set_map)
  finally show ?thesis using wf by (metis hm_wf_def distinct_card length_map list.set_map)
qed

lemma materialize_documented:
  assumes "materialize tr (p\<lparr>pd_operations := rs\<rparr>) = (Inr d, tr')" "native_of name p"
  shows "documented name tr' rs \<and> tk_last_document tr' = Some d \<and> native_of name d \<and> pd_operations d = rs"
proof -
  obtain cp s where d: "d = p\<lparr>pd_operations := rs, pd_revisions := dr_new cp s\<rparr>"
    and tr': "tr' = tracked (p\<lparr>pd_operations := rs\<rparr>) cp s"
    using assms(1) by (elim materialize_InrE) simp
  have "quiet_document (p\<lparr>pd_operations := rs\<rparr>)" using assms(2) by (simp add: native_of_def quiet_document_def)
  then show ?thesis
    using assms(2) tracked_ok [of "p\<lparr>pd_operations := rs\<rparr>" cp s] unfolding tr' documented_def d
    by (auto simp: tracked_def native_of_def quiet_document_def)
qed

lemma documented_last: "documented name tr rs \<Longrightarrow> tk_last_document tr = Some d \<Longrightarrow> native_of name d \<and> pd_operations d = rs"
  by (simp add: documented_def tracker_ok_def native_of_def)

subsection \<open>Every commit keeps it\<close>

lemma fences_transfer:
  assumes "fences_ok D rs" "list_all2 R rs rs'" "D' \<subseteq> D"
    "\<And>r r' g. R r r' \<Longrightarrow> g \<in> D' \<Longrightarrow> or_generation r = Some g \<Longrightarrow> or_outcome r = CO_Pending \<Longrightarrow>
       or_generation r' = Some g \<and> or_outcome r' = CO_Pending"
  shows "fences_ok D' rs'"
  unfolding fences_ok_def
proof
  fix g assume g: "g \<in> D'"
  then obtain r where r: "r \<in> set rs" "or_generation r = Some g" "or_outcome r = CO_Pending"
    using assms(1,3) unfolding fences_ok_def by blast
  obtain i where i: "i < length rs" "rs ! i = r" using r(1) by (auto simp: in_set_conv_nth)
  then have "R r (rs' ! i)" "i < length rs'"
    using assms(2) by (auto simp: list_all2_conv_all_nth)
  then show "\<exists>r \<in> set rs'. or_generation r = Some g \<and> or_outcome r = CO_Pending"
    using assms(4) [OF _ g r(2,3)] by (auto intro!: bexI [of _ "rs' ! i"])
qed

lemma fences_filter:
  assumes "fences_ok D rs" "filter operation_is_unresolved rs' = filter operation_is_unresolved rs"
  shows "fences_ok D rs'"
  unfolding fences_ok_def
proof
  fix g assume "g \<in> D"
  then obtain r where r: "r \<in> set rs" "or_generation r = Some g" "or_outcome r = CO_Pending"
    using assms(1) unfolding fences_ok_def by blast
  then have "r \<in> set (filter operation_is_unresolved rs')"
    unfolding assms(2) by (simp add: operation_is_unresolved_def)
  then show "\<exists>r \<in> set rs'. or_generation r = Some g \<and> or_outcome r = CO_Pending" using r by auto
qed

lemma commit_from_ok:
  assumes "inst_ok name st" "commit_from st P active dispatch ledger c" "ledger_settles (in_ledger st) ledger"
    "finite P" "card P \<le> MAX_TERMINAL_OPERATIONS" "fences_ok dispatch ledger"
    "dispatch \<subseteq> in_dispatch_in_progress st"
    "active = None \<or> in_retirement_requested st \<noteq> None \<and> active = in_active_pipeline st"
  shows "commit_ok name st c"
proof -
  note k = ledger_settles_keys [OF assms(3)]
  have n: "names_ok name (in_next_generation st) (map op_key (in_ledger st))"
    and u: "unresolved_count (in_ledger st) \<le> MAX_UNRESOLVED_OPERATIONS"
    and t: "tombs_ok (in_correlation_tombstones st, in_correlation_tombstone_order st)"
    and d: "documented name (in_tracker st) (in_ledger st)"
    using assms(1) by (simp_all add: inst_ok_def counts_ok_def)
  have p: "prune_terminal_history_preserving ledger (in_correlations st)
      (in_correlation_tombstones st, in_correlation_tombstone_order st) P =
      (dc_ledger c, dc_correlation_tombstones c, dc_correlation_tombstone_order c)"
    and a: "dc_active_pipeline c = active" "dc_dispatch_in_progress c = dispatch"
    using assms(2) by (simp_all add: commit_from_def)
  obtain d0 d1 where d0: "tk_last_document (in_tracker st) = Some d0"
    and m: "materialize (in_tracker st) (d0\<lparr>pd_operations := dc_ledger c\<rparr>) = (Inr d1, dc_tracker c)"
    using assms(2) by (auto simp: commit_from_def)
  have "map or_id ledger = map fst (map op_key (in_ledger st))" by (simp flip: k) (simp add: op_key_def)
  then have "distinct (map or_id ledger)" using n by (simp add: names_ok_def)
  note ok = prune_ok [OF p this assms(4,5)]
  have "subseq (map op_key (dc_ledger c)) (map op_key (in_ledger st))"
    unfolding k [symmetric] by (rule subseq_map) (use ok in blast)
  moreover have "counts_ok (dc_ledger c)"
    using ok ledger_settles_count [OF assms(3)] u by (simp add: counts_ok_def)
  moreover have "documented name (dc_tracker c) (dc_ledger c)" "tk_last_document (dc_tracker c) \<noteq> None"
    using materialize_documented [OF m] documented_last [OF d d0] by auto
  moreover have "fences_ok dispatch (dc_ledger c)" by (rule fences_filter [OF assms(6)]) (use ok in blast)
  ultimately show ?thesis using ok t a assms(7,8) by (simp add: commit_ok_def)
qed

lemma names_key_inj:
  assumes "names_ok name n (map op_key rs)" "r \<in> set rs" "r' \<in> set rs" "or_id r = or_id r'"
  shows "r = r'"
proof -
  have "inj_on (fst \<circ> op_key) (set rs)"
    using assms(1) by (simp add: names_ok_def distinct_map comp_def)
  then show ?thesis by (rule inj_onD) (use assms in \<open>simp_all add: op_key_def\<close>)
qed

lemma commit_of_ok:
  assumes "commit_of st c" "inst_ok name st"
  shows "commit_ok name st c"
  using assms
proof cases
  case (commit_expire tm ledger)
  have s: "ledger_settles (in_ledger st) ledger" by (rule all_ok_settles [OF commit_expire(2) expire_settles])
  have "fences_ok (in_dispatch_in_progress st) ledger"
    by (rule fences_transfer [OF _ all_ok_map [OF commit_expire(2)] order_refl])
      (use assms(2) in \<open>auto simp: inst_ok_def expire_operation_def expires_def\<close>)
  with s show ?thesis using commit_expire by (intro commit_from_ok [OF assms(2) commit_expire(4)]) auto
next
  case (commit_stop tm detail ledger)
  let ?D = "in_dispatch_in_progress st"
  have s: "ledger_settles (in_ledger st) ledger"
    by (rule all_ok_settles [OF commit_stop(1)]) (auto dest: supersede_settles split: if_splits)
  have "fences_ok ?D ledger"
    by (rule fences_transfer [OF _ all_ok_map [OF commit_stop(1)] order_refl])
      (use assms(2) in \<open>auto simp: inst_ok_def terminalizes_def fenced_def\<close>)
  with s show ?thesis by (intro commit_from_ok [OF assms(2) commit_stop(2)]) auto
next
  case (commit_complete l cp r ledger)
  let ?D = "in_dispatch_in_progress st - {le_generation l}"
  note ch = change_first_changes [OF commit_complete(2)]
  obtain p where p: "p \<in> set (in_ledger st)" "holds_operation l (\<lambda>c. c = CO_Pending) p"
    using commit_complete(1) by (auto simp: list_ex_iff)
  have n: "names_ok name (in_next_generation st) (map op_key (in_ledger st))" using assms(2) by (simp add: inst_ok_def)
  have "ledger_settles (in_ledger st) ledger"
  proof (rule list.rel_mono_strong [OF ch])
    fix x x' assume x: "x \<in> set (in_ledger st)"
      "x' = x \<or> holds_operation l (\<lambda>c. True) x \<and> apply_completion cp x = Inr x'"
    show "settles x x'"
    proof (cases "x' = x")
      case False
      then have h: "or_id x = or_id p" "apply_completion cp x = Inr x'" using x p by (auto simp: holds_operation_def)
      then have "x = p" by (intro names_key_inj [OF n x(1) p(1)])
      then show ?thesis using completion_key [OF h(2)] p
        by (simp add: settles_def holds_operation_def operation_is_unresolved_def)
    qed simp
  qed
  moreover have "fences_ok ?D ledger"
    by (rule fences_transfer [OF _ ch]) (use assms(2) in \<open>auto simp: inst_ok_def holds_operation_def\<close>)
  ultimately show ?thesis by (intro commit_from_ok [OF assms(2) commit_complete(3)]) auto
next
  case (commit_supersede l tm detail r ledger)
  let ?D = "in_dispatch_in_progress st"
  note ch = change_first_changes [OF commit_supersede(2)]
  have "ledger_settles (in_ledger st) ledger"
    by (rule list_all2_mono [OF ch]) (auto dest: supersede_settles)
  moreover have "fences_ok ?D ledger"
    by (rule fences_transfer [OF _ ch order_refl])
      (use assms(2) commit_supersede(1) in \<open>auto simp: inst_ok_def holds_operation_def\<close>)
  ultimately show ?thesis by (intro commit_from_ok [OF assms(2) commit_supersede(3)]) auto
qed

lemma install_simps [simp]:
  "in_tracker (install_commit c st) = dc_tracker c" "in_ledger (install_commit c st) = dc_ledger c"
  "in_next_generation (install_commit c st) = in_next_generation st"
  "in_active_pipeline (install_commit c st) = dc_active_pipeline c"
  "in_dispatch_in_progress (install_commit c st) = dc_dispatch_in_progress c"
  "in_correlation_tombstones (install_commit c st) = dc_correlation_tombstones c"
  "in_correlation_tombstone_order (install_commit c st) = dc_correlation_tombstone_order c"
  "in_execution_target (install_commit c st) = in_execution_target st"
  "in_deferred_commit (install_commit c st) = None"
  "in_retirement_requested (install_commit c st) = in_retirement_requested st"
  "in_correlations (install_commit c st) =
     filter (\<lambda>e. le_operation_id (kr_lease (snd e)) \<in> or_id ` set (dc_ledger c)) (in_correlations st)"
  by (simp_all add: install_commit_def retain_live_correlations_def)

lemma install_ok:
  assumes "inst_ok name st" "commit_ok name st c"
  shows "inst_ok name (install_commit c st)"
proof -
  have n: "names_ok name (in_next_generation st) (map op_key (in_ledger st))"
    and r: "correlated (in_ledger st) (in_correlations st)"
    and s: "subseq (map op_key (dc_ledger c)) (map op_key (in_ledger st))"
    using assms by (simp_all add: inst_ok_def commit_ok_def)
  show ?thesis
    using assms names_subseq [OF n s] correlated_subseq [OF r n s]
    by (auto simp: inst_ok_def commit_ok_def)
qed

lemma commit_ok_world:
  "commit_ok name st c \<Longrightarrow> in_ledger st' = in_ledger st \<Longrightarrow>
     in_dispatch_in_progress st \<subseteq> in_dispatch_in_progress st' \<Longrightarrow>
     (in_retirement_requested st \<noteq> None \<Longrightarrow> in_retirement_requested st' \<noteq> None) \<Longrightarrow>
     in_active_pipeline st' = in_active_pipeline st \<Longrightarrow> commit_ok name st' c"
  by (auto simp: commit_ok_def)

lemma show_nat_inj [simp]: "show_nat m = show_nat n \<longleftrightarrow> m = n"
  by (metis digits_value_show_nat)

lemma operation_id_inj [simp]: "operation_id_of p g = operation_id_of p h \<longleftrightarrow> g = h"
  by (simp add: operation_id_of_def word_unat_eq_iff)

lemma cited_observation:
  assumes "observation_candidate d0 converged ledger tr = Inr (d, ledger', tr')" "native_of name d0"
  shows "map op_key ledger' = map op_key ledger \<and>
    map operation_is_unresolved ledger' = map operation_is_unresolved ledger \<and>
    map or_outcome ledger' = map or_outcome ledger \<and> documented name tr' ledger' \<and>
    tk_last_document tr' = Some d"
proof -
  obtain d1 tr1 where m: "materialize tr (d0\<lparr>pd_operations := ledger\<rparr>) = (Inr d1, tr1)"
    using assms(1) by (auto simp: observation_candidate_def split: sum.splits prod.splits)
  note md = materialize_documented [OF m assms(2)]
  show ?thesis
  proof (cases "converged = []")
    case True
    then show ?thesis using assms(1) m md by (simp add: observation_candidate_def)
  next
    case False
    then have "ledger' = map (cite_observation converged (doc_position d1)) ledger"
      "materialize tr (d1\<lparr>pd_operations := ledger'\<rparr>) = (Inr d, tr')"
      using assms(1) m by (auto simp: observation_candidate_def Let_def split: sum.splits prod.splits)
    then show ?thesis using md materialize_documented [where tr = tr and p = d1 and rs = ledger' and d = d and tr' = tr' and name = name]
      by (auto simp: cite_observation_def op_key_def operation_is_unresolved_def)
  qed
qed

lemma counts_of_map:
  "map operation_is_unresolved rs' = map operation_is_unresolved rs \<Longrightarrow> counts_ok rs' = counts_ok rs"
proof -
  assume e: "map operation_is_unresolved rs' = map operation_is_unresolved rs"
  have "unresolved_count xs = length (filter (\<lambda>b. b) (map operation_is_unresolved xs))"
    "terminal_count xs = length (filter Not (map operation_is_unresolved xs))" for xs
    by (simp_all add: filter_map comp_def)
  then show ?thesis unfolding counts_ok_def by (metis e)
qed

lemma correlated_keys: "map op_key rs' = map op_key rs \<Longrightarrow> correlated rs' corr = correlated rs corr"
  by (simp only: correlated_def)

lemma release_simps [simp]:
  "in_tracker (release_pipeline st) = in_tracker st" "in_ledger (release_pipeline st) = in_ledger st"
  "in_next_generation (release_pipeline st) = in_next_generation st"
  "in_dispatch_in_progress (release_pipeline st) = in_dispatch_in_progress st"
  "in_correlation_tombstones (release_pipeline st) = in_correlation_tombstones st"
  "in_correlation_tombstone_order (release_pipeline st) = in_correlation_tombstone_order st"
  "in_execution_target (release_pipeline st) = in_execution_target st"
  "in_deferred_commit (release_pipeline st) = in_deferred_commit st"
  "in_retirement_requested (release_pipeline st) = in_retirement_requested st"
  "in_correlations (release_pipeline st) = in_correlations st"
  by (simp_all add: release_pipeline_def split: option.split)

lemma release_active: "in_active_pipeline (release_pipeline st) = Some g \<Longrightarrow> in_active_pipeline st = Some g"
  by (simp add: release_pipeline_def split: option.splits if_splits)

subsection \<open>Every step keeps it\<close>

lemma pruned_observation:
  assumes "reconcile_operations d0 D rs = Inr (rs1, ids)" "prune_terminal_history rs1 corr t = (rs2, t')"
    "names_ok name n (map op_key rs)" "counts_ok rs" "tombs_ok t" "fences_ok D rs"
  shows "subseq (map op_key rs2) (map op_key rs)" "counts_ok rs2" "tombs_ok t'" "fences_ok D rs2"
proof -
  note rl = reconcile_ledger [OF assms(1)]
  have s: "ledger_settles rs rs1" by (rule list_all2_mono [OF rl]) simp
  note k = ledger_settles_keys [OF s]
  have "map or_id rs1 = map fst (map op_key rs)" by (simp flip: k) (simp add: op_key_def)
  then have d: "distinct (map or_id rs1)" using assms(3) by (simp add: names_ok_def)
  note ok = prune_ok [OF assms(2) [unfolded prune_terminal_history_def] d finite.emptyI]
  have f: "fences_ok D rs1" by (rule fences_transfer [OF assms(6) rl order_refl]) auto
  show "fences_ok D rs2" by (rule fences_filter [OF f]) (use ok in simp)
  show "subseq (map op_key rs2) (map op_key rs)"
    unfolding k [symmetric] by (rule subseq_map) (use ok in simp)
  show "counts_ok rs2" using ok ledger_settles_count [OF s] assms(4) by (simp add: counts_ok_def)
  show "tombs_ok t'" using ok assms(5) by simp
qed

lemma fences_of_map:
  assumes "fences_ok D rs" "map op_key rs' = map op_key rs" "map or_outcome rs' = map or_outcome rs"
  shows "fences_ok D rs'"
proof -
  have "list_all2 (\<lambda>r r'. op_key r' = op_key r \<and> or_outcome r' = or_outcome r) rs rs'"
    using assms(2,3) by (auto simp: list_all2_conv_all_nth list_eq_iff_nth_eq)
  then show ?thesis by (rule fences_transfer [OF assms(1) _ order_refl]) (simp add: op_key_def)
qed

lemma adopt_simps [simp]:
  "in_tracker (adopt_observation tr rs tombs order target st) = tr"
  "in_ledger (adopt_observation tr rs tombs order target st) = rs"
  "in_next_generation (adopt_observation tr rs tombs order target st) = in_next_generation st"
  "in_dispatch_in_progress (adopt_observation tr rs tombs order target st) = in_dispatch_in_progress st"
  "in_correlation_tombstones (adopt_observation tr rs tombs order target st) = tombs"
  "in_correlation_tombstone_order (adopt_observation tr rs tombs order target st) = order"
  "in_deferred_commit (adopt_observation tr rs tombs order target st) = in_deferred_commit st"
  "in_retirement_requested (adopt_observation tr rs tombs order target st) = in_retirement_requested st"
  "in_correlations (adopt_observation tr rs tombs order target st) =
     filter (\<lambda>e. le_operation_id (kr_lease (snd e)) \<in> or_id ` set rs) (in_correlations st)"
  by (simp_all add: adopt_observation_def retain_live_correlations_def)

lemma adopt_active:
  "in_active_pipeline (adopt_observation tr rs tombs order target st) = Some g \<Longrightarrow> in_active_pipeline st = Some g"
  by (auto simp: adopt_observation_def retain_live_correlations_def dest: release_active)

lemma observe_ok:
  assumes "inst_ok name st" "in_deferred_commit st = None" "native_of name d0"
    "reconcile_operations d0 (in_dispatch_in_progress st) (in_ledger st) = Inr (ledger1, converged)"
    "prune_terminal_history ledger1 (in_correlations st)
       (in_correlation_tombstones st, in_correlation_tombstone_order st) = (ledger2, tombs, order)"
    "observation_candidate d0 converged ledger2 (in_tracker st) = Inr (d, ledger3, tr)"
  shows "inst_ok name (adopt_observation tr ledger3 tombs order target st)"
proof -
  have n: "names_ok name (in_next_generation st) (map op_key (in_ledger st))"
    and c: "counts_ok (in_ledger st)" and r: "correlated (in_ledger st) (in_correlations st)"
    and t: "tombs_ok (in_correlation_tombstones st, in_correlation_tombstone_order st)"
    and f: "fences_ok (in_dispatch_in_progress st) (in_ledger st)"
    using assms(1) by (simp_all add: inst_ok_def)
  note p = pruned_observation [OF assms(4,5) n c t f]
  note o = cited_observation [OF assms(6,3)]
  have s: "subseq (map op_key ledger3) (map op_key (in_ledger st))" using p(1) o by simp
  have "counts_ok ledger3" using p(2) o counts_of_map [of ledger3 ledger2] by simp
  moreover have "fences_ok (in_dispatch_in_progress st) ledger3" using o by (intro fences_of_map [OF p(4)]) auto
  ultimately show ?thesis
    using assms(1,2) names_subseq [OF n s] correlated_subseq [OF r n s] p(3) o
    by (auto simp: inst_ok_def dest: adopt_active)
qed

lemma correlated_snoc:
  assumes "correlated rs corr" "map_of corr c = None" "op_key r = (i, c, Some g)"
    "le_operation_id l = i" "le_correlation_id l = c" "le_generation l = g"
  shows "correlated (rs @ [r]) (hm_insert c \<lparr>kr_fingerprint = fp, kr_lease = l\<rparr> corr)"
proof -
  have wf: "hm_wf corr"
    and a: "\<And>i c g. (i, c, g) \<in> set (map op_key rs) \<Longrightarrow> \<exists>rv. map_of corr c = Some rv \<and> le_operation_id (kr_lease rv) = i"
    and b: "\<And>c rv. map_of corr c = Some rv \<Longrightarrow> le_correlation_id (kr_lease rv) = c \<and>
        (le_operation_id (kr_lease rv), c, Some (le_generation (kr_lease rv))) \<in> set (map op_key rs)"
    using assms(1) unfolding correlated_def by blast+
  have "\<exists>rv. map_of (hm_insert c \<lparr>kr_fingerprint = fp, kr_lease = l\<rparr> corr) c' = Some rv \<and> le_operation_id (kr_lease rv) = i'"
    if "(i', c', g') \<in> set (map op_key (rs @ [r]))" for i' c' g'
    using that assms a [of i' c' g'] by (cases "(i', c', g') \<in> set (map op_key rs)") auto
  moreover have "le_correlation_id (kr_lease rv) = c' \<and>
      (le_operation_id (kr_lease rv), c', Some (le_generation (kr_lease rv))) \<in> set (map op_key (rs @ [r]))"
    if "map_of (hm_insert c \<lparr>kr_fingerprint = fp, kr_lease = l\<rparr> corr) c' = Some rv" for c' rv
    using that assms b [of c' rv] by (cases "c' = c") auto
  ultimately show ?thesis unfolding correlated_def using hm_wf_insert [OF wf] by blast
qed

lemma reserve_ok:
  assumes "inst_ok name st" "in_deferred_commit st = None" "map_of (in_correlations st) (hr_correlation_id r) = None"
    "pk_producer_id (hr_key r) = ''hqplayer:'' @ name"
    "length (filter operation_is_unresolved (in_ledger st)) < MAX_UNRESOLVED_OPERATIONS"
    "in_next_generation st \<noteq> - 1" "g = in_next_generation st + 1" "tk_last_document (in_tracker st) = Some d"
    "materialize (in_tracker st) (d\<lparr>pd_operations := in_ledger st @ [pending_operation r g]\<rparr>) = (Inr d', tr)"
  shows "inst_ok name (st\<lparr>in_tracker := tr, in_ledger := in_ledger st @ [pending_operation r g],
       in_next_generation := g, in_active_pipeline := Some g,
       in_correlations := hm_insert (hr_correlation_id r)
         \<lparr>kr_fingerprint = fp, kr_lease = lease_of r epoch run_id g target\<rparr> (in_correlations st)\<rparr>)"
proof -
  let ?op = "pending_operation r g"
  have g: "in_next_generation st < g" unfolding assms(7) by (rule wrap_succ_gt [OF assms(6)])
  have n: "names_ok name (in_next_generation st) (map op_key (in_ledger st))"
    and c: "counts_ok (in_ledger st)" and ra: "correlated (in_ledger st) (in_correlations st)"
    and d: "documented name (in_tracker st) (in_ledger st)"
    and f: "fences_ok (in_dispatch_in_progress st) (in_ledger st)"
    using assms(1) by (simp_all add: inst_ok_def)
  have k: "op_key ?op = (operation_id_of (''hqplayer:'' @ name) g, hr_correlation_id r, Some g)"
    by (simp add: op_key_def pending_operation_def assms(4))
  have u: "operation_is_unresolved ?op" by (simp add: pending_operation_def operation_is_unresolved_def)
  have "fst (op_key ?op) \<notin> set (map fst (map op_key (in_ledger st)))"
    using n g unfolding k names_ok_def by fastforce
  then have "names_ok name g (map op_key (in_ledger st) @ [op_key ?op])"
    using n g unfolding names_ok_def k by (fastforce intro: order.strict_implies_order order.strict_trans1)
  moreover have "counts_ok (in_ledger st @ [?op])" using c u assms(5) by (simp add: counts_ok_def)
  moreover have "correlated (in_ledger st @ [?op]) (hm_insert (hr_correlation_id r)
      \<lparr>kr_fingerprint = fp, kr_lease = lease_of r epoch run_id g target\<rparr> (in_correlations st))"
    by (rule correlated_snoc [OF ra assms(3) k]) (simp_all add: lease_of_def assms(4))
  moreover have "documented name tr (in_ledger st @ [?op])"
    using materialize_documented [OF assms(9)] documented_last [OF d assms(8)] by blast
  moreover have "fences_ok (in_dispatch_in_progress st) (in_ledger st @ [?op])"
    using f unfolding fences_ok_def by auto
  ultimately show ?thesis using assms(1,2) by (simp add: inst_ok_def)
qed

lemma istep_ok:
  assumes "istep name st st'" "inst_ok name st"
  shows "inst_ok name st'"
  using assms
proof cases
  case (step_defer c)
  have "commit_ok name (st\<lparr>in_deferred_commit := Some c\<rparr>) c"
    by (rule commit_ok_world [OF commit_of_ok [OF step_defer(2) assms(2)]]) auto
  then show ?thesis using assms(2) step_defer by (simp add: inst_ok_def)
next
  case (step_commit c)
  then show ?thesis using install_ok [OF assms(2) commit_of_ok [OF step_commit(2) assms(2)]] by simp
next
  case (step_settle c)
  then have "commit_ok name st c" using assms(2) by (simp add: inst_ok_def)
  then show ?thesis unfolding step_settle(1) by (rule install_ok [OF assms(2)])
next
  case (step_retire e)
  have "commit_ok name st' c" if "in_deferred_commit st = Some c" for c
    by (rule commit_ok_world [of name st c]) (use assms(2) that step_retire in \<open>auto simp: inst_ok_def\<close>)
  then show ?thesis using assms(2) step_retire by (simp add: inst_ok_def)
next
  case (step_observe d0 ledger1 converged ledger2 tombs order d ledger3 tr target)
  then show ?thesis using observe_ok [OF assms(2)] by blast
next
  case (step_stale d rev0 lanes d2 tr)
  have d: "documented name (in_tracker st) (in_ledger st)" using assms(2) by (simp add: inst_ok_def)
  have "native_of name (d\<lparr>pd_stale := True, pd_lanes := lanes, pd_revisions := rev0\<rparr>)"
    using documented_last [OF d step_stale(3)] by (simp add: native_of_def quiet_document_def)
  then have "documented name tr (in_ledger st)" using materialize_documented [OF step_stale(4)] by blast
  then show ?thesis using assms(2) step_stale by (simp add: inst_ok_def)
next
  case (step_reserve r g d d' tr bits num_text epoch run_id target)
  then show ?thesis using reserve_ok [OF assms(2)] by blast
next
  case (step_begin l)
  have "fences_ok (in_dispatch_in_progress st') (in_ledger st')"
    using assms(2) step_begin by (auto simp: inst_ok_def fences_ok_def holds_operation_def list_ex_iff)
  moreover have "commit_ok name st' c" if "in_deferred_commit st = Some c" for c
    by (rule commit_ok_world [of name st c]) (use assms(2) that step_begin in \<open>auto simp: inst_ok_def\<close>)
  ultimately show ?thesis using assms(2) step_begin by (simp add: inst_ok_def)
qed

lemma isteps_ok: "isteps name st st' \<Longrightarrow> inst_ok name st \<Longrightarrow> inst_ok name st'"
  by (induction rule: rtranclp_induct) (auto intro: istep_ok)

end
