(* ===== verification/Hqp_Coord_Once.thy ===== *)
theory Hqp_Coord_Once
  imports Hqp_Coord_Inv
begin

text \<open>
  What the coordinator promises over a whole run: the invariant of every instance, one dispatch for a
  generation, one reservation for a correlation.
\<close>

section \<open>Runs\<close>

text \<open>
  One command with what it meets: the time its handling reads, and the answers the handle gives to the
  publications and retirements it makes.
\<close>

record coordinator_input =
  ci_now :: timestamp
  ci_publish :: "publish_answer list"
  ci_retire :: "retire_answer list"
  ci_command :: coordinator_command

definition with_answers :: "coordinator_input \<Rightarrow> hqp_coordinator \<Rightarrow> hqp_coordinator" where
  "with_answers i co = co\<lparr>hc_publish_answers := ci_publish i, hc_retire_answers := ci_retire i\<rparr>"

definition coordinator_answer ::
  "instant_text \<Rightarrow> (f64 \<Rightarrow> u64) \<Rightarrow> (json_number \<Rightarrow> string) \<Rightarrow> coordinator_input \<Rightarrow> hqp_coordinator \<Rightarrow>
     coordinator_reply" where
  "coordinator_answer tx bits num_text i co =
     fst (coordinator_step tx bits num_text (ci_now i) (ci_command i) (with_answers i co))"

definition coordinator_after ::
  "instant_text \<Rightarrow> (f64 \<Rightarrow> u64) \<Rightarrow> (json_number \<Rightarrow> string) \<Rightarrow> hqp_coordinator \<Rightarrow> coordinator_input \<Rightarrow>
     hqp_coordinator" where
  "coordinator_after tx bits num_text co i =
     snd (coordinator_step tx bits num_text (ci_now i) (ci_command i) (with_answers i co))"

definition coordinator_run ::
  "instant_text \<Rightarrow> (f64 \<Rightarrow> u64) \<Rightarrow> (json_number \<Rightarrow> string) \<Rightarrow> coordinator_input list \<Rightarrow> hqp_coordinator \<Rightarrow>
     hqp_coordinator" where
  "coordinator_run tx bits num_text is co = foldl (coordinator_after tx bits num_text) co is"

definition coordinator_ok :: "hqp_coordinator \<Rightarrow> bool" where
  "coordinator_ok co \<longleftrightarrow> (\<forall>name st. instance_of co name = Some st \<longrightarrow> inst_ok name st)"

lemma with_answers_instances [simp]: "instance_of (with_answers i co) = instance_of co"
  by (rule instance_of_cong) (simp add: with_answers_def)

lemma after_evolves: "evolves co (coordinator_after tx bits num_text co i)"
proof -
  have "evolves (with_answers i co) (coordinator_after tx bits num_text co i)"
    unfolding coordinator_after_def by (rule coordinator_step_evolves [OF prod.collapse [symmetric]])
  then show ?thesis by (simp add: evolves_def start_of_def)
qed

lemma evolves_ok: "evolves co co' \<Longrightarrow> coordinator_ok co \<Longrightarrow> coordinator_ok co'"
  unfolding coordinator_ok_def evolves_def start_of_def
  by (metis isteps_ok inst_ok_default option.case_eq_if option.collapse)

lemma run_ok: "coordinator_ok co \<Longrightarrow> coordinator_ok (coordinator_run tx bits num_text is co)"
  unfolding coordinator_run_def
  by (induction "is" arbitrary: co) (auto intro: evolves_ok after_evolves)

lemma new_ok [simp]: "coordinator_ok (hqp_coordinator_new runs)"
  by (simp add: coordinator_ok_def hqp_coordinator_new_def instance_of_def)

text \<open>The instance is there all along.\<close>

fun kept_through ::
  "instant_text \<Rightarrow> (f64 \<Rightarrow> u64) \<Rightarrow> (json_number \<Rightarrow> string) \<Rightarrow> string \<Rightarrow> coordinator_input list \<Rightarrow>
     hqp_coordinator \<Rightarrow> bool" where
  "kept_through tx bits num_text name [] co = (instance_of co name \<noteq> None)"
| "kept_through tx bits num_text name (i # is) co =
     (instance_of co name \<noteq> None \<and> kept_through tx bits num_text name is (coordinator_after tx bits num_text co i))"

lemma evolvesD: "evolves co co' \<Longrightarrow> instance_of co n = Some st \<Longrightarrow> instance_of co' n = Some st' \<Longrightarrow> isteps n st st'"
  by (auto simp: evolves_def start_of_def dest: spec [where x = n])

lemma kept_steps:
  "kept_through tx bits num_text name is co \<Longrightarrow> instance_of co name = Some st \<Longrightarrow>
     \<exists>st'. instance_of (coordinator_run tx bits num_text is co) name = Some st' \<and> isteps name st st'"
proof (induction "is" arbitrary: co st)
  case (Cons i "is")
  let ?co = "coordinator_after tx bits num_text co i"
  have "instance_of ?co name \<noteq> None" using Cons.prems(1) by (cases "is") auto
  then obtain st1 where st1: "instance_of ?co name = Some st1" by blast
  have "isteps name st st1" by (rule evolvesD [OF after_evolves Cons.prems(2) st1])
  then show ?case using Cons.IH [OF _ st1] Cons.prems(1) by (auto simp: coordinator_run_def intro: rtranclp_trans)
qed (simp add: coordinator_run_def)

section \<open>One dispatch for a generation\<close>

text \<open>A generation that can never be dispatched again: given out, and fenced or no longer active.\<close>

definition spent :: "u64 \<Rightarrow> hqp_instance \<Rightarrow> bool" where
  "spent g st \<longleftrightarrow> g \<le> in_next_generation st \<and>
     (g \<in> in_dispatch_in_progress st \<or> in_active_pipeline st \<noteq> Some g) \<and>
     (\<forall>c. in_deferred_commit st = Some c \<longrightarrow> g \<in> dc_dispatch_in_progress c \<or> dc_active_pipeline c \<noteq> Some g)"

lemma commit_of_spent:
  assumes "commit_of st c" "spent g st"
  shows "g \<in> dc_dispatch_in_progress c \<or> dc_active_pipeline c \<noteq> Some g"
  using assms by cases (auto simp: commit_from_def spent_def)

lemma istep_spent:
  assumes "istep name st st'" "inst_ok name st" "spent g st"
  shows "spent g st'"
  using assms(1)
proof cases
  case (step_reserve r g' d d' tr bits num_text epoch run_id target)
  have "in_next_generation st < g'" unfolding step_reserve(10) by (rule wrap_succ_gt [OF step_reserve(9)])
  then show ?thesis using assms(3) step_reserve by (auto simp: spent_def)
qed (use assms(2,3) in \<open>auto simp: spent_def dest: commit_of_spent adopt_active\<close>)

lemma isteps_spent: "isteps name st st' \<Longrightarrow> inst_ok name st \<Longrightarrow> spent g st \<Longrightarrow> spent g st'"
proof (induction rule: rtranclp_induct)
  case (step st1 st2)
  then show ?case using isteps_ok [of name st st1] by (auto intro: istep_spent)
qed

lemma begun_spent:
  assumes "inst_ok name st" "in_active_pipeline st = Some g" "in_retirement_requested st = None"
  shows "spent g (st\<lparr>in_dispatch_in_progress := insert g (in_dispatch_in_progress st)\<rparr>)"
  using assms by (auto simp: spent_def inst_ok_def commit_ok_def)

lemma spent_not_begun:
  assumes "spent (le_generation l) st" "lease_instance l co = Some (name, st)"
  shows "fst (hqp_begin_dispatch l co) \<noteq> Inr ()"
proof
  assume "fst (hqp_begin_dispatch l co) = Inr ()"
  then obtain co' where "hqp_begin_dispatch l co = (Inr (), co')" by (metis prod.collapse)
  then show False using hqp_begin_dispatch_ok [of l co co'] assms by (auto simp: spent_def)
qed

lemma begin_dispatch_step:
  "coordinator_step tx bits num_text now (BeginDispatch l) co = (UnitReply (Inr ()), co') \<longleftrightarrow>
     \<not> hc_panicked co \<and> hqp_begin_dispatch l co = (Inr (), co') \<and> \<not> hc_panicked co'"
  by (auto simp: coordinator_step_def split: prod.splits if_splits)

lemma lease_instance_answers [simp]: "lease_instance l (with_answers i co) = lease_instance l co"
  by (simp add: lease_instance_def split: option.split)

section \<open>One reservation for a correlation\<close>

text \<open>Remembered as a tombstone, or the memory for tombstones has run full.\<close>

definition kept_tomb :: "string \<Rightarrow> tombstone_map \<times> string list \<Rightarrow> bool" where
  "kept_tomb i t \<longleftrightarrow> map_of (fst t) i \<noteq> None \<or> length (snd t) = MAX_CORRELATION_TOMBSTONES"

lemma retain_keeps:
  assumes "tombs_ok t" "kept_tomb j t \<or> j = i"
  shows "kept_tomb j (retain_correlation_tombstone i fp t)"
proof -
  obtain m order where t: "t = (m, order)" by (cases t)
  define order1 where "order1 = (if map_of m i = None then order @ [i] else order)"
  define n where "n = length order1 - MAX_CORRELATION_TOMBSTONES"
  have r: "retain_correlation_tombstone i fp t =
      (foldl (\<lambda>m n. hm_remove n m) (hm_insert i fp m) (take n order1), drop n order1)"
    by (simp add: retain_correlation_tombstone_def t order1_def n_def Let_def)
  show ?thesis
  proof (cases "n = 0")
    case True
    then have "length order1 \<le> MAX_CORRELATION_TOMBSTONES" "length order \<le> length order1"
      by (simp_all add: n_def order1_def)
    then show ?thesis using assms(2) True unfolding r by (auto simp: kept_tomb_def t)
  next
    case False
    then have "length (drop n order1) = MAX_CORRELATION_TOMBSTONES" by (simp add: n_def)
    then show ?thesis unfolding r by (simp add: kept_tomb_def)
  qed
qed

lemma prune_loop_keeps:
  "prune_loop n P corr rs t = (rs', t') \<Longrightarrow> tombs_ok t \<Longrightarrow>
     (\<forall>i. kept_tomb i t \<longrightarrow> kept_tomb i t') \<and>
     (\<forall>r \<in> set rs. map_of corr (or_correlation_id r) \<noteq> None \<longrightarrow> r \<in> set rs' \<or> kept_tomb (or_correlation_id r) t')"
proof (induction rs arbitrary: n t rs' t')
  case (Cons r rs)
  show ?case
  proof (cases "0 < n \<and> \<not> operation_is_unresolved r \<and> or_id r \<notin> P")
    case True
    let ?t = "case map_of corr (or_correlation_id r) of None \<Rightarrow> t
      | Some rv \<Rightarrow> retain_correlation_tombstone (or_correlation_id r) (kr_fingerprint rv) t"
    have p: "prune_loop (n - 1) P corr rs ?t = (rs', t')"
      using Cons.prems(1) by (simp only: prune_loop.simps if_P [OF True])
    have ok: "tombs_ok ?t" using Cons.prems(2) by (simp add: retain_tombstone_ok split: option.split)
    have k: "kept_tomb i ?t" if "kept_tomb i t \<or> i = or_correlation_id r \<and> map_of corr i \<noteq> None" for i
      using that Cons.prems(2) by (auto intro: retain_keeps split: option.split)
    show ?thesis using Cons.IH [OF p ok] k by auto
  next
    case False
    obtain kept t1 where p: "prune_loop n P corr rs t = (kept, t1)" by (metis prod.collapse)
    then have "rs' = r # kept" "t' = t1" using Cons.prems(1) False by auto
    then show ?thesis using Cons.IH [OF p Cons.prems(2)] by auto
  qed
qed simp

lemma prune_keeps:
  "prune_terminal_history_preserving rs corr t P = (rs', t') \<Longrightarrow> tombs_ok t \<Longrightarrow>
     (\<forall>i. kept_tomb i t \<longrightarrow> kept_tomb i t') \<and>
     (\<forall>r \<in> set rs. map_of corr (or_correlation_id r) \<noteq> None \<longrightarrow> r \<in> set rs' \<or> kept_tomb (or_correlation_id r) t')"
  by (auto simp: prune_terminal_history_preserving_def Let_def dest: prune_loop_keeps split: if_splits)

definition live_in :: "string \<Rightarrow> correlation_map \<Rightarrow> operation_record list \<Rightarrow> bool" where
  "live_in i corr rs \<longleftrightarrow> (\<exists>rv. map_of corr i = Some rv \<and> le_operation_id (kr_lease rv) \<in> or_id ` set rs)"

definition remembered :: "string \<Rightarrow> hqp_instance \<Rightarrow> bool" where
  "remembered i st \<longleftrightarrow>
     (map_of (in_correlations st) i \<noteq> None \<or>
      kept_tomb i (in_correlation_tombstones st, in_correlation_tombstone_order st)) \<and>
     (\<forall>c. in_deferred_commit st = Some c \<longrightarrow> live_in i (in_correlations st) (dc_ledger c) \<or>
        kept_tomb i (dc_correlation_tombstones c, dc_correlation_tombstone_order c))"

text \<open>Pruning a ledger whose operations are those of the instance.\<close>

lemma prune_remembers:
  assumes "inst_ok name st" "remembered i st" "map op_key rs = map op_key (in_ledger st)"
    "prune_terminal_history_preserving rs (in_correlations st)
       (in_correlation_tombstones st, in_correlation_tombstone_order st) P = (rs', t')"
  shows "live_in i (in_correlations st) rs' \<or> kept_tomb i t'"
proof -
  have t: "tombs_ok (in_correlation_tombstones st, in_correlation_tombstone_order st)"
    and co: "correlated rs (in_correlations st)"
    using assms(1) correlated_keys [OF assms(3)] by (simp_all add: inst_ok_def)
  note pk = prune_keeps [OF assms(4) t]
  show ?thesis
  proof (cases "map_of (in_correlations st) i")
    case None
    then show ?thesis using assms(2) pk by (auto simp: remembered_def)
  next
    case (Some rv)
    then have "(le_operation_id (kr_lease rv), i, Some (le_generation (kr_lease rv))) \<in> set (map op_key rs)"
      using co unfolding correlated_def by blast
    then obtain r where r: "r \<in> set rs" "or_id r = le_operation_id (kr_lease rv)" "or_correlation_id r = i"
      by (auto simp: op_key_def)
    then have "r \<in> set rs' \<or> kept_tomb i t'" using pk Some by auto
    then show ?thesis using Some imageI [of r "set rs'" or_id] r(2) by (auto simp: live_in_def)
  qed
qed

lemma commit_of_remembers:
  assumes "commit_of st c" "inst_ok name st" "remembered i st"
  shows "live_in i (in_correlations st) (dc_ledger c) \<or>
    kept_tomb i (dc_correlation_tombstones c, dc_correlation_tombstone_order c)"
proof -
  have "\<exists>P rs. map op_key rs = map op_key (in_ledger st) \<and>
      prune_terminal_history_preserving rs (in_correlations st)
        (in_correlation_tombstones st, in_correlation_tombstone_order st) P =
      (dc_ledger c, dc_correlation_tombstones c, dc_correlation_tombstone_order c)"
    using assms(1)
  proof cases
    case (commit_expire tm ledger)
    have "ledger_settles (in_ledger st) ledger" by (rule all_ok_settles [OF commit_expire(2) expire_settles])
    then show ?thesis using commit_expire(4) ledger_settles_keys unfolding commit_from_def by metis
  next
    case (commit_stop tm detail ledger)
    have "ledger_settles (in_ledger st) ledger"
      by (rule all_ok_settles [OF commit_stop(1)]) (auto dest: supersede_settles split: if_splits)
    then show ?thesis using commit_stop(2) ledger_settles_keys unfolding commit_from_def by metis
  next
    case (commit_complete l cp r ledger)
    have "list_all2 (\<lambda>x y. op_key y = op_key x) (in_ledger st) ledger"
      by (rule list_all2_mono [OF change_first_changes [OF commit_complete(2)]]) (auto dest: completion_key)
    then have "map op_key ledger = map op_key (in_ledger st)" by (induction rule: list_all2_induct) auto
    then show ?thesis using commit_complete(3) unfolding commit_from_def by metis
  next
    case (commit_supersede l tm detail r ledger)
    have "ledger_settles (in_ledger st) ledger"
      by (rule list_all2_mono [OF change_first_changes [OF commit_supersede(2)]]) (auto dest: supersede_settles)
    then show ?thesis using commit_supersede(3) ledger_settles_keys unfolding commit_from_def by metis
  qed
  then show ?thesis using prune_remembers [OF assms(2,3)] by metis
qed

lemma live_kept:
  "hm_wf corr \<Longrightarrow> live_in i corr rs \<Longrightarrow>
     map_of (filter (\<lambda>e. le_operation_id (kr_lease (snd e)) \<in> or_id ` set rs) corr) i \<noteq> None"
  by (auto simp: live_in_def map_of_filter_wf)

lemma istep_remembers:
  assumes "istep name st st'" "inst_ok name st" "remembered i st"
  shows "remembered i st'"
proof -
  have wf: "hm_wf (in_correlations st)" using assms(2) by (simp add: inst_ok_def correlated_def)
  have inst: "remembered i (install_commit c st)"
    if "live_in i (in_correlations st) (dc_ledger c) \<or>
      kept_tomb i (dc_correlation_tombstones c, dc_correlation_tombstone_order c)" for c
    using that live_kept [OF wf, of i "dc_ledger c"] by (auto simp: remembered_def)
  show ?thesis
    using assms(1)
  proof cases
    case (step_defer c)
    then show ?thesis using commit_of_remembers [OF step_defer(2) assms(2,3)] assms(3) by (simp add: remembered_def)
  next
    case (step_commit c)
    then show ?thesis using commit_of_remembers [OF step_commit(2) assms(2,3)] inst by simp
  next
    case (step_settle c)
    then show ?thesis using assms(3) inst by (simp add: remembered_def)
  next
    case (step_observe d0 ledger1 converged ledger2 tombs order d ledger3 tr target)
    have s: "ledger_settles (in_ledger st) ledger1"
      by (rule list_all2_mono [OF reconcile_ledger [OF step_observe(5)]]) simp
    have "live_in i (in_correlations st) ledger2 \<or> kept_tomb i (tombs, order)"
      by (rule prune_remembers [OF assms(2,3) ledger_settles_keys [OF s]
            step_observe(6) [unfolded prune_terminal_history_def]])
    moreover have "or_id ` set ledger3 = or_id ` set ledger2"
      using cited_observation [OF step_observe(7,4)] unfolding key_ids by simp
    ultimately have "live_in i (in_correlations st) ledger3 \<or> kept_tomb i (tombs, order)"
      by (simp add: live_in_def)
    then show ?thesis using live_kept [OF wf, of i ledger3] step_observe by (auto simp: remembered_def)
  qed (use assms(3) in \<open>auto simp: remembered_def\<close>)
qed

lemma isteps_remember: "isteps name st st' \<Longrightarrow> inst_ok name st \<Longrightarrow> remembered i st \<Longrightarrow> remembered i st'"
proof (induction rule: rtranclp_induct)
  case (step st1 st2)
  then show ?case using isteps_ok [of name st st1] by (auto intro: istep_remembers)
qed

lemma reserve_step:
  "coordinator_step tx bits num_text now (Reserve cmd) co = (ReservationReply (Inr rv), co') \<longleftrightarrow>
     \<not> hc_panicked co \<and> reserve bits num_text cmd co = (Inr rv, co') \<and> \<not> hc_panicked co'"
  by (auto simp: coordinator_step_def split: prod.splits if_splits)

lemma reserve_known:
  assumes "reserve_for_instance bits num_text cmd run_id st co = (Inr rv, st', co')"
    "kept_tomb (hr_correlation_id (vc_request cmd)) (in_correlation_tombstones st, in_correlation_tombstone_order st) \<or>
     map_of (in_correlations st) (hr_correlation_id (vc_request cmd)) \<noteq> None"
    "length (in_correlation_tombstone_order st') \<noteq> MAX_CORRELATION_TOMBSTONES"
  shows "\<exists>e. map_of (in_correlations st) (hr_correlation_id (vc_request cmd)) = Some e \<and>
    kr_fingerprint e = vc_fingerprint cmd \<and> rv_lease rv = kr_lease e \<and> rv_disposition rv = DuplicateReservation"
proof (cases "reserve_checks bits num_text cmd st")
  case (Inl e)
  then show ?thesis using assms(1) by (simp add: reserve_for_instance_def Let_def)
next
  case (Inr x)
  show ?thesis
  proof (cases x)
    case (Inl r)
    then show ?thesis using assms(1) Inr
      by (auto simp: reserve_for_instance_def reserve_checks_def reservation_for_correlation_def Let_def
          split: option.splits if_splits sum.splits)
  next
    case new: (Inr d)
    have "in_correlation_tombstone_order st' = in_correlation_tombstone_order st"
      using assms(1) Inr new
      by (auto simp: reserve_for_instance_def Let_def split: option.splits sum.splits prod.splits)
    then show ?thesis using reserve_checks_new [OF Inr [unfolded new]] assms(2,3) by (auto simp: kept_tomb_def)
  qed
qed

lemma reserve_remembered:
  assumes "reserve bits num_text cmd co = (Inr rv, co')" "instance_of co name = Some st" "inst_ok name st"
    "named_instance (pk_producer_id (hr_key (vc_request cmd))) = Some name"
    "remembered (hr_correlation_id (vc_request cmd)) st" "instance_of co' name = Some st'"
    "length (in_correlation_tombstone_order st') \<noteq> MAX_CORRELATION_TOMBSTONES"
  shows "rv_disposition rv = DuplicateReservation \<and>
    le_correlation_id (rv_lease rv) = hr_correlation_id (vc_request cmd)"
proof -
  let ?i = "hr_correlation_id (vc_request cmd)"
  obtain run where run: "hc_run co = Some run" "\<not> hc_stop_requested co" "validate_correlation ?i = Inr ()"
    using assms(1) by (auto simp: reserve_def Let_def split: sum.splits if_splits option.splits)
  obtain p st1 co1 where s: "settle_deferred st (drop_instance name co) = (p, st1, co1)" by (metis prod_cases3)
  have steps: "isteps name st st1" using settle_deferred_step [OF s] by blast
  obtain q st2 co2 where q: "reserve_for_instance bits num_text cmd (po_run run) st1 co1 = (q, st2, co2)"
    by (metis prod_cases3)
  have p: "p = Inr ()" and r: "q = Inr rv" "co' = put_instance name st2 co2"
    using assms(1,2,4) run s q by (auto simp: reserve_def Let_def split: sum.splits)
  have st2: "st' = st2" using assms(6) r by simp
  have known: "map_of (in_correlations st1) ?i \<noteq> None \<or>
      kept_tomb ?i (in_correlation_tombstones st1, in_correlation_tombstone_order st1)"
    using isteps_remember [OF steps assms(3,5)] by (simp add: remembered_def)
  have c: "correlated (in_ledger st1) (in_correlations st1)"
    using isteps_ok [OF steps assms(3)] by (simp add: inst_ok_def)
  obtain e where e: "map_of (in_correlations st1) ?i = Some e" "rv_lease rv = kr_lease e"
    "rv_disposition rv = DuplicateReservation"
    using reserve_known [OF q [unfolded r]] known assms(7) st2 by blast
  have "le_correlation_id (kr_lease e) = ?i" using c e(1) unfolding correlated_def by blast
  then show ?thesis using e by simp
qed

text \<open>A new reservation is remembered from then on.\<close>

lemma reserve_new_remembered:
  assumes "reserve bits num_text cmd co = (Inr rv, co')" "rv_disposition rv = NewReservation"
  shows "\<exists>name st'. named_instance (pk_producer_id (hr_key (vc_request cmd))) = Some name \<and>
    instance_of co' name = Some st' \<and> remembered (hr_correlation_id (vc_request cmd)) st'"
proof -
  let ?i = "hr_correlation_id (vc_request cmd)"
  obtain run name st where run: "hc_run co = Some run" "\<not> hc_stop_requested co" "validate_correlation ?i = Inr ()"
    "named_instance (pk_producer_id (hr_key (vc_request cmd))) = Some name" "instance_of co name = Some st"
    using assms(1) by (auto simp: reserve_def Let_def split: sum.splits if_splits option.splits)
  obtain p st1 co1 where s: "settle_deferred st (drop_instance name co) = (p, st1, co1)" by (metis prod_cases3)
  obtain q st2 co2 where q: "reserve_for_instance bits num_text cmd (po_run run) st1 co1 = (q, st2, co2)"
    by (metis prod_cases3)
  have p: "p = Inr ()" and r: "q = Inr rv" "co' = put_instance name st2 co2"
    using assms(1) run s q by (auto simp: reserve_def Let_def split: sum.splits)
  have "in_deferred_commit st1 = None" using settle_deferred_step [OF s, of name] p by simp
  then have "remembered ?i st2"
    using q r assms(2)
    by (auto simp: reserve_for_instance_def Let_def reserve_checks_def reservation_for_correlation_def remembered_def
        split: option.splits sum.splits prod.splits if_splits)
  then show ?thesis using run r by simp
qed

end
