(* ===== verification/Hqp_Coord_Live.thy ===== *)
theory Hqp_Coord_Live
  imports Hqp_Coord_Once
begin

text \<open>
  A command that nothing stands in the way of runs through: an observation makes the instance, the
  request the projector's own choice allows passes the preflight, and reservation, dispatch and
  completion each succeed. And what happens instead when an observation is refused inside the
  coordinator.
\<close>

section \<open>The preflight of a projected document\<close>

fun pipeline_id :: "hqp_semantic_operation_kind \<Rightarrow> string" where
  "pipeline_id Op_SetMode = CONTROL_PIPELINE_MODE"
| "pipeline_id Op_SetFilter1x = CONTROL_PIPELINE_FILTER_1X"
| "pipeline_id Op_SetFilterNx = CONTROL_PIPELINE_FILTER_NX"
| "pipeline_id Op_SetShaper = CONTROL_PIPELINE_SHAPER"
| "pipeline_id Op_SetRate = CONTROL_PIPELINE_RATE"
| "pipeline_id p = []"

fun pipeline_selection :: "hqp_semantic_operation_kind \<Rightarrow> hqp_observation \<Rightarrow> hqp_native_selection" where
  "pipeline_selection Op_SetMode ob = ho_mode ob"
| "pipeline_selection Op_SetFilter1x ob = ho_filter_1x ob"
| "pipeline_selection Op_SetFilterNx ob = ho_filter_nx ob"
| "pipeline_selection Op_SetShaper ob = ho_shaper ob"
| "pipeline_selection p ob = ho_rate ob"

definition pipeline_open :: "hqp_semantic_operation_kind \<Rightarrow> hqp_observation \<Rightarrow> bool" where
  "pipeline_open p ob \<longleftrightarrow> pipeline_id p \<noteq> [] \<and> (p = Op_SetRate \<longrightarrow> \<not> ho_mode_is_source ob)"

definition pipeline_control :: "hqp_semantic_operation_kind \<Rightarrow> hqp_observation \<Rightarrow> control" where
  "pipeline_control p ob =
     (case p of
        Op_SetMode \<Rightarrow> projr (mode_control ob) | Op_SetFilter1x \<Rightarrow> projr (filter_1x_control ob)
      | Op_SetFilterNx \<Rightarrow> projr (filter_nx_control ob) | Op_SetShaper \<Rightarrow> projr (shaper_control ob)
      | _ \<Rightarrow> projr (rate_control ob))"

lemma pipeline_control_eq:
  assumes "observation_ok ob" "pipeline_open p ob"
  shows "\<exists>label ap av. pipeline_control p ob =
      selection_descriptor (pipeline_id p) label ob (pipeline_selection p ob) (Some ap) av \<and>
      as_lane ap = AL_Immediate \<and> permits_mutation av"
proof -
  have l: "as_lane (pipeline_apply a b c d) = AL_Immediate" for a b c d by (simp add: pipeline_apply_def)
  have a: "permits_mutation availability_available" by (simp add: permits_mutation_def availability_available_def)
  have ex: "\<exists>label' ap av. selection_descriptor i label ob s (Some (pipeline_apply a b c d)) availability_available =
      selection_descriptor i label' ob s (Some ap) av \<and> as_lane ap = AL_Immediate \<and> permits_mutation av"
    for i label s a b c d using l a by blast
  show ?thesis
    using assms
    by (cases p) (simp_all add: pipeline_control_def pipeline_controls selection_control_cases observation_ok_def
        pipeline_open_def ex)
qed

lemma pipeline_control_found:
  assumes "observation_ok ob" "pipeline_open p ob"
  shows "find (\<lambda>c. ct_id c = ControlId (pipeline_id p)) (native_controls ob) = Some (pipeline_control p ob)"
  using assms
  by (cases p) (simp_all add: native_controls_def control_builders pipeline_controls selection_control_cases
      observation_ok_def pipeline_open_def pipeline_control_def control_names)

lemma pipeline_operation: "pipeline_open p ob \<Longrightarrow> hqp_semantic_operation (ControlId (pipeline_id p)) = Some p \<and> \<not> is_deferred p"
  by (cases p) (simp_all add: pipeline_open_def)

text \<open>
  The document of an observation under the numbers of the tracker. A request for a pipeline control of
  it is accepted exactly when it names a choice the engine offered, and what is executed is that name.
\<close>

definition numbered :: "instant_text \<Rightarrow> hqp_observation \<Rightarrow> u64 \<Rightarrow> u64 \<Rightarrow> producer_document" where
  "numbered tx ob cp st = (native_document tx ob (native_controls ob))\<lparr>pd_revisions := dr_new cp st\<rparr>"

lemma native_lane_fresh: "doc_lane_health (numbered tx ob cp st) TL_Native = Some (native_lane tx ob) \<and>
    lh_state (native_lane tx ob) = LS_Connected \<and> \<not> fr_stale (lh_freshness (native_lane tx ob))"
  by (simp add: numbered_def native_document_def doc_lane_health_def native_lane_def)

lemma actionable_numbered:
  "actionable (own_snapshot (numbered tx ob cp st)) r \<longleftrightarrow>
     hr_key r = key_of (numbered tx ob cp st) \<and> hr_expected r = doc_position (numbered tx ob cp st)"
  using native_lane_fresh [of tx ob cp st]
  by (auto simp: actionable_def own_snapshot_def numbered_def native_document_def)

lemma selection_choice:
  "preflight_choice (selection_descriptor i label ob s ap av) v = Inr m \<longleftrightarrow>
     m \<in> set (ns_choices s) \<and> m \<noteq> [] \<and> v = CV_Choice (native_choice_id i m)"
  by (rule descriptor_choice)

lemma pipeline_preflight:
  assumes "observation_ok ob" "pipeline_open p ob" "hr_control r = ControlId (pipeline_id p)"
  shows "preflight bits num_text (own_snapshot (numbered tx ob cp st)) r = Inr c \<longleftrightarrow>
    hr_correlation_id r \<noteq> [] \<and> length (hr_correlation_id r) \<le> 256 \<and>
    hr_key r = key_of (numbered tx ob cp st) \<and> hr_expected r = doc_position (numbered tx ob cp st) \<and>
    hr_lane r = AL_Immediate \<and>
    (\<exists>n \<in> set (ns_choices (pipeline_selection p ob)). n \<noteq> [] \<and>
       hr_requested r = CV_Choice (native_choice_id (pipeline_id p) n) \<and>
       engine_value_of p n = Some (vc_engine_value c)) \<and>
    vc_request c = r \<and> vc_operation c = p \<and> vc_fingerprint c = fingerprint bits num_text r"
proof -
  obtain label ap av where pc: "pipeline_control p ob =
      selection_descriptor (pipeline_id p) label ob (pipeline_selection p ob) (Some ap) av"
    "as_lane ap = AL_Immediate" "permits_mutation av"
    using pipeline_control_eq [OF assms(1,2)] by blast
  have dc: "doc_control (sn_document (own_snapshot (numbered tx ob cp st))) (hr_control r) = Some (pipeline_control p ob)"
    using pipeline_control_found [OF assms(1,2)]
    by (simp add: doc_control_def own_snapshot_def numbered_def native_document_def assms(3))
  have kinds: "permits_mutation (ct_availability (pipeline_control p ob))"
    "ct_apply (pipeline_control p ob) = Some ap" "ct_kind (pipeline_control p ob) = Kind_Enumeration"
    using pc by (simp_all add: selection_descriptor_def hqp_control_def)
  have ch: "preflight_choice (pipeline_control p ob) v = Inr m \<longleftrightarrow>
      m \<in> set (ns_choices (pipeline_selection p ob)) \<and> m \<noteq> [] \<and> v = CV_Choice (native_choice_id (pipeline_id p) m)" for v m
    unfolding pc(1) by (rule descriptor_choice)
  show ?thesis
    unfolding preflight_iff actionable_numbered dc
    using pipeline_operation [OF assms(2)] kinds pc(2)
    by (cases c) (auto simp: assms(3) ch)
qed

text \<open>The only pipeline control that can be closed is the rate, while the engine follows the source.\<close>

lemma pipeline_closed:
  assumes "observation_ok ob" "pipeline_id p \<noteq> []" "\<not> pipeline_open p ob" "hr_control r = ControlId (pipeline_id p)"
  shows "preflight bits num_text (own_snapshot (numbered tx ob cp st)) r \<noteq> Inr c"
proof -
  have p: "p = Op_SetRate" "ho_mode_is_source ob" using assms(2,3) by (auto simp: pipeline_open_def)
  have "doc_control (sn_document (own_snapshot (numbered tx ob cp st))) (hr_control r) = Some (projr (rate_control ob))"
    using assms(1,4) p
    by (simp add: doc_control_def own_snapshot_def numbered_def native_document_def native_controls_def control_builders
        pipeline_controls selection_control_cases observation_ok_def control_names)
  moreover have "\<not> permits_mutation (ct_availability (projr (rate_control ob)))"
    using assms(1) p by (simp add: pipeline_controls selection_control_cases observation_ok_def selection_descriptor_def
        hqp_control_def hqp_unavailable_def availability_unavailable_def permits_mutation_def)
  ultimately show ?thesis by (simp add: preflight_iff)
qed

section \<open>Through the coordinator\<close>

lemma observe_step:
  "coordinator_step tx bits num_text now (Observed ob) co =
     (if hc_panicked co then (UnitReply (Inl CoordinatorClosed), co)
      else case hqp_observed tx ob co of
        (r, co') \<Rightarrow> (UnitReply (if hc_panicked co' then Inl CoordinatorClosed else r), co'))"
  by (simp add: coordinator_step_def split: prod.split)

definition ready :: "string \<Rightarrow> publication_origin \<Rightarrow> publish_answer list \<Rightarrow> hqp_coordinator \<Rightarrow> bool" where
  "ready name og answers co \<longleftrightarrow> \<not> hc_panicked co \<and> hc_run co = Some og \<and> \<not> hc_stop_requested co \<and>
     hc_publish_answers co = answers \<and> map_of (hc_retired_instances co) name = None"

lemma ready_put [simp]: "ready name og a (put_instance n st co) = ready name og a co"
  by (simp add: ready_def put_instance_def)

lemma ready_drop [simp]: "ready name og a (drop_instance n co) = ready name og a co"
  by (simp add: ready_def drop_instance_def)

lemma offered_put [simp]: "hc_offered (put_instance n st co) = hc_offered co"
  by (simp add: put_instance_def)

lemma offered_drop [simp]: "hc_offered (drop_instance n co) = hc_offered co"
  by (simp add: drop_instance_def)

lemma offered_answers [simp]: "hc_offered (with_answers i co) = hc_offered co"
  by (simp add: with_answers_def)

lemma ready_publish:
  assumes "ready name og (PublishAdmitted # a) co"
  shows "\<exists>co'. publish d co = (Inr (), co') \<and> ready name og a co' \<and> hc_instances co' = hc_instances co \<and>
    hc_offered co' = hc_offered co @ [(og, d, PublishAdmitted)]"
  using assms by (simp add: publish_def ready_def Let_def)

lemma empty_instance_observed:
  assumes "quiet_document p"
  shows "observed_instance ob p instance_default co =
    (case publish (p\<lparr>pd_operations := [], pd_revisions := dr_new 1 1\<rparr>) co of
       (Inl e, co') \<Rightarrow> (Inl e, put_instance (ho_instance_name ob) instance_default co')
     | (Inr _, co') \<Rightarrow> (Inr (), put_instance (ho_instance_name ob)
         (instance_default\<lparr>in_tracker := tracked (p\<lparr>pd_operations := []\<rparr>) 1 1,
            in_execution_target := Some (ho_execution_target ob)\<rparr>) co'))"
  by (simp add: observed_instance_def instance_default_def prune_terminal_history_def
      prune_terminal_history_preserving_def observation_candidate_def materialize_cases tracker_default_def
      Let_def adopt_observation_def release_pipeline_def retain_live_correlations_def
      split: prod.split sum.split)

definition fresh_instance :: "instant_text \<Rightarrow> hqp_observation \<Rightarrow> hqp_instance" where
  "fresh_instance tx ob = instance_default\<lparr>
     in_tracker := tracked (native_document tx ob (native_controls ob)) 1 1,
     in_execution_target := Some (ho_execution_target ob)\<rparr>"

lemma fresh_simps [simp]:
  "in_tracker (fresh_instance tx ob) = tracked (native_document tx ob (native_controls ob)) 1 1"
  "in_ledger (fresh_instance tx ob) = []" "in_next_generation (fresh_instance tx ob) = 0"
  "in_correlations (fresh_instance tx ob) = []" "in_correlation_tombstones (fresh_instance tx ob) = []"
  "in_correlation_tombstone_order (fresh_instance tx ob) = []" "in_active_pipeline (fresh_instance tx ob) = None"
  "in_dispatch_in_progress (fresh_instance tx ob) = {}" "in_deferred_commit (fresh_instance tx ob) = None"
  "in_execution_target (fresh_instance tx ob) = Some (ho_execution_target ob)"
  "in_retirement_requested (fresh_instance tx ob) = None"
  by (simp_all add: fresh_instance_def instance_default_def)

lemma native_ops [simp]: "(native_document tx ob cs)\<lparr>pd_operations := []\<rparr> = native_document tx ob cs"
  by (simp add: native_document_def)

lemma first_observation:
  assumes "observation_ok ob" "ready (ho_instance_name ob) og (PublishAdmitted # a) co"
    "instance_of co (ho_instance_name ob) = None"
  shows "\<exists>co'. coordinator_step tx bits num_text now (Observed ob) co = (UnitReply (Inr ()), co') \<and>
    ready (ho_instance_name ob) og a co' \<and> instance_of co' (ho_instance_name ob) = Some (fresh_instance tx ob) \<and>
    hc_offered co' = hc_offered co @ [(og, numbered tx ob 1 1, PublishAdmitted)]"
proof -
  let ?n = "ho_instance_name ob" and ?p = "native_document tx ob (native_controls ob)"
  have p: "project_native tx ob = Inr ?p" using assms(1) by (simp add: project_native_ok)
  have q: "quiet_document ?p" using project_native_of [OF p] by (simp add: native_of_def)
  have r: "ready ?n og (PublishAdmitted # a) (drop_instance ?n co)" using assms(2) by simp
  obtain co1 where c: "publish (?p\<lparr>pd_revisions := dr_new 1 1\<rparr>) (drop_instance ?n co) = (Inr (), co1)"
    "ready ?n og a co1" "hc_instances co1 = hc_instances (drop_instance ?n co)"
    "hc_offered co1 = hc_offered (drop_instance ?n co) @ [(og, numbered tx ob 1 1, PublishAdmitted)]"
    using ready_publish [OF r] unfolding numbered_def by blast
  have "hqp_observed tx ob co = (Inr (), put_instance ?n (fresh_instance tx ob) co1)"
    using assms(2,3) p c empty_instance_observed [OF q, of ob "drop_instance ?n co"]
    by (simp add: hqp_observed_def Let_def ready_def retired_after_def forget_retired_def start_of_def
        settle_deferred_def instance_default_def fresh_instance_def)
  moreover have r': "ready ?n og a (put_instance ?n (fresh_instance tx ob) co1)" using c(2) by simp
  ultimately have "coordinator_step tx bits num_text now (Observed ob) co =
      (UnitReply (Inr ()), put_instance ?n (fresh_instance tx ob) co1)"
    using assms(2) by (simp add: observe_step ready_def)
  moreover have "hc_offered (put_instance ?n (fresh_instance tx ob) co1) =
      hc_offered co @ [(og, numbered tx ob 1 1, PublishAdmitted)]" using c(4) by simp
  ultimately show ?thesis using r' by (metis instance_of_put)
qed


definition target_fits :: "hqp_observation \<Rightarrow> bool" where
  "target_fits ob \<longleftrightarrow> et_instance_name (ho_execution_target ob) = ho_instance_name ob \<and>
     et_producer_epoch (ho_execution_target ob) = ho_producer_epoch ob"

lemma reserve_fresh:
  assumes "observation_ok ob" "target_fits ob"
    "preflight bits num_text (own_snapshot (numbered tx ob 1 1)) r = Inr cmd"
  shows "\<exists>tr. (\<exists>cp st. tr = tracked ((numbered tx ob 1 1)\<lparr>pd_operations := [pending_operation r 1]\<rparr>) cp st \<and>
       cp \<noteq> - 1 \<and> st \<noteq> - 1) \<and>
    materialize (in_tracker (fresh_instance tx ob)) ((numbered tx ob 1 1)\<lparr>pd_operations := [pending_operation r 1]\<rparr>) =
      (Inr ((numbered tx ob 1 1)\<lparr>pd_operations := [pending_operation r 1],
         pd_revisions := dr_new (tk_control_plane tr) (tk_state tr)\<rparr>), tr) \<and>
    reserve_for_instance bits num_text cmd run_id (fresh_instance tx ob) co =
    (let l = lease_of r (ProducerEpoch (ho_producer_epoch ob)) run_id 1 (ho_execution_target ob) in
     case publish ((numbered tx ob 1 1)\<lparr>pd_operations := [pending_operation r 1],
        pd_revisions := dr_new (tk_control_plane tr) (tk_state tr)\<rparr>) co of
       (Inl e, co') \<Rightarrow> (Inl e, fresh_instance tx ob, co')
     | (Inr _, co') \<Rightarrow> (Inr \<lparr>rv_lease = l, rv_operation = pending_operation r 1, rv_disposition = NewReservation\<rparr>,
        (fresh_instance tx ob)\<lparr>in_tracker := tr, in_ledger := [pending_operation r 1], in_next_generation := 1,
          in_active_pipeline := Some 1,
          in_correlations := [(hr_correlation_id r, \<lparr>kr_fingerprint = fingerprint bits num_text r, kr_lease = l\<rparr>)]\<rparr>, co'))"
proof -
  let ?p = "native_document tx ob (native_controls ob)" and ?d = "numbered tx ob 1 1"
  let ?tr0 = "tracked ?p 1 1"
  have vc: "vc_request cmd = r" "vc_fingerprint cmd = fingerprint bits num_text r"
    and key: "hr_key r = key_of ?d"
    using assms(3) by (auto simp: preflight_iff actionable_numbered)
  have pid: "pk_producer_id (hr_key r) = ''hqplayer:'' @ ho_instance_name ob"
    by (simp add: key key_of_def numbered_def native_document_def)
  have inst: "instance_name_from_producer_id (pk_producer_id (hr_key r)) = ho_instance_name ob"
    unfolding pid by (simp only: instance_name_from_producer_id_def hqplayer_prefix option.case)
  have ep: "pi_epoch (pd_producer ?d) = ProducerEpoch (ho_producer_epoch ob)"
    by (simp add: numbered_def native_document_def)
  have tgt: "matching_target (pk_producer_id (hr_key r)) (pi_epoch (pd_producer ?d)) (Some (ho_execution_target ob)) =
      Some (ho_execution_target ob)"
    using assms(2) by (simp add: matching_target_def inst ep target_fits_def)
  have last: "tk_last_document ?tr0 = Some ?d" by (simp add: tracked_def numbered_def)
  let ?q = "?d\<lparr>pd_operations := [pending_operation r 1]\<rparr>"
  have "tk_epoch ?tr0 = Some (epoch_of ?q)" by (simp add: tracked_def epoch_of_def numbered_def)
  moreover have "tk_control_plane ?tr0 \<noteq> - 1" "tk_state ?tr0 \<noteq> - 1" by (simp_all add: tracked_def)
  ultimately obtain tr where m: "materialize ?tr0 ?q =
      (Inr (?q\<lparr>pd_revisions := dr_new (tk_control_plane tr) (tk_state tr)\<rparr>), tr)"
    and tr: "\<exists>cp st. tr = tracked ?q cp st \<and> cp \<noteq> - 1 \<and> st \<noteq> - 1"
    by (auto simp: materialize_cases Let_def) (auto simp: tracked_def)
  have ck: "reserve_checks bits num_text cmd (fresh_instance tx ob) = Inr (Inr ?d)"
    using assms(3) vc last
    by (simp add: reserve_checks_def Let_def MAX_UNRESOLVED_OPERATIONS_def)
  show ?thesis
    by (rule exI [of _ tr])
      (use tr ck tgt m vc ep in \<open>simp add: reserve_for_instance_def Let_def hm_insert_def split: prod.split sum.split\<close>)
qed


lemma ready_answers: "ready name og a co \<Longrightarrow> ready name og (ci_publish i) (with_answers i co)"
  by (simp add: ready_def with_answers_def)

text \<open>The instance while its first command is pending, and while it is dispatched.\<close>

definition first_lease ::
  "hqp_observation \<Rightarrow> adapter_run_id \<Rightarrow> hqp_immediate_command_request \<Rightarrow> hqp_command_lease" where
  "first_lease ob run_id r = lease_of r (ProducerEpoch (ho_producer_epoch ob)) run_id 1 (ho_execution_target ob)"

definition first_pending ::
  "hqp_observation \<Rightarrow> hqp_command_lease \<Rightarrow> hqp_immediate_command_request \<Rightarrow> u64 set \<Rightarrow> hqp_instance \<Rightarrow> bool" where
  "first_pending ob l r dispatch st \<longleftrightarrow> in_ledger st = [pending_operation r 1] \<and>
     in_active_pipeline st = Some 1 \<and> in_dispatch_in_progress st = dispatch \<and>
     in_retirement_requested st = None \<and> in_deferred_commit st = None \<and> exact_lease l (in_correlations st) \<and>
     (\<exists>d cp rv. in_tracker st = tracked d cp rv \<and> cp \<noteq> - 1 \<and> rv \<noteq> - 1 \<and> epoch_of d = ho_producer_epoch ob)"

definition first_known ::
  "(f64 \<Rightarrow> u64) \<Rightarrow> (json_number \<Rightarrow> string) \<Rightarrow> hqp_observation \<Rightarrow> adapter_run_id \<Rightarrow>
     hqp_immediate_command_request \<Rightarrow> hqp_instance \<Rightarrow> bool" where
  "first_known bits num_text ob run_id r st \<longleftrightarrow>
     in_correlations st = [(hr_correlation_id r,
       \<lparr>kr_fingerprint = fingerprint bits num_text r, kr_lease = first_lease ob run_id r\<rparr>)] \<and>
     in_correlation_tombstones st = [] \<and> in_correlation_tombstone_order st = []"

lemma first_reservation:
  assumes "observation_ok ob" "target_fits ob"
    "preflight bits num_text (own_snapshot (numbered tx ob 1 1)) r = Inr cmd"
    "ready (ho_instance_name ob) og (PublishAdmitted # a) co"
    "instance_of co (ho_instance_name ob) = Some (fresh_instance tx ob)"
  shows "\<exists>co' st. coordinator_step tx bits num_text now (Reserve cmd) co =
      (ReservationReply (Inr \<lparr>rv_lease = first_lease ob (po_run og) r, rv_operation = pending_operation r 1,
         rv_disposition = NewReservation\<rparr>), co') \<and>
    ready (ho_instance_name ob) og a co' \<and> instance_of co' (ho_instance_name ob) = Some st \<and>
    first_pending ob (first_lease ob (po_run og) r) r {} st \<and> first_known bits num_text ob (po_run og) r st \<and>
    (\<exists>d tr. materialize (tracked (native_document tx ob (native_controls ob)) 1 1)
        ((numbered tx ob 1 1)\<lparr>pd_operations := [pending_operation r 1]\<rparr>) = (Inr d, tr) \<and>
      hc_offered co' = hc_offered co @ [(og, d, PublishAdmitted)])"
proof -
  let ?n = "ho_instance_name ob" and ?l = "first_lease ob (po_run og) r"
  let ?co = "drop_instance ?n co"
  let ?rv = "\<lparr>rv_lease = ?l, rv_operation = pending_operation r 1, rv_disposition = NewReservation\<rparr>"
  have vc: "vc_request cmd = r" and key: "hr_key r = key_of (numbered tx ob 1 1)"
    and cid: "validate_correlation (hr_correlation_id r) = Inr ()"
    using assms(3)
    by (auto simp: preflight_iff actionable_numbered validate_correlation_def MAX_CORRELATION_ID_BYTES_def)
  have pid: "pk_producer_id (hr_key r) = ''hqplayer:'' @ ?n"
    by (simp add: key key_of_def numbered_def native_document_def)
  have "?n \<noteq> []" using assms(1) by (auto simp: observation_ok_def validate_native_observation_def is_blank_def Let_def)
  then have nm: "named_instance (pk_producer_id (hr_key r)) = Some ?n" using pid by (simp add: named_instance_Some)
  obtain tr where tr: "\<exists>cp st. tr = tracked ((numbered tx ob 1 1)\<lparr>pd_operations := [pending_operation r 1]\<rparr>) cp st \<and>
       cp \<noteq> - 1 \<and> st \<noteq> - 1"
    and m: "materialize (in_tracker (fresh_instance tx ob)) ((numbered tx ob 1 1)\<lparr>pd_operations := [pending_operation r 1]\<rparr>) =
      (Inr ((numbered tx ob 1 1)\<lparr>pd_operations := [pending_operation r 1],
         pd_revisions := dr_new (tk_control_plane tr) (tk_state tr)\<rparr>), tr)"
    and rf: "reserve_for_instance bits num_text cmd (po_run og) (fresh_instance tx ob) ?co =
    (case publish ((numbered tx ob 1 1)\<lparr>pd_operations := [pending_operation r 1],
        pd_revisions := dr_new (tk_control_plane tr) (tk_state tr)\<rparr>) ?co of
       (Inl e, co') \<Rightarrow> (Inl e, fresh_instance tx ob, co')
     | (Inr _, co') \<Rightarrow> (Inr ?rv,
        (fresh_instance tx ob)\<lparr>in_tracker := tr, in_ledger := [pending_operation r 1], in_next_generation := 1,
          in_active_pipeline := Some 1,
          in_correlations := [(hr_correlation_id r, \<lparr>kr_fingerprint = fingerprint bits num_text r, kr_lease = ?l\<rparr>)]\<rparr>, co'))"
    using reserve_fresh [OF assms(1-3), of "po_run og" ?co] unfolding Let_def first_lease_def by blast
  define st where "st = (fresh_instance tx ob)\<lparr>in_tracker := tr, in_ledger := [pending_operation r 1], in_next_generation := 1,
          in_active_pipeline := Some 1,
          in_correlations := [(hr_correlation_id r, \<lparr>kr_fingerprint = fingerprint bits num_text r, kr_lease = ?l\<rparr>)]\<rparr>"
  have r: "ready ?n og (PublishAdmitted # a) ?co" using assms(4) by simp
  obtain co1 where c: "publish ((numbered tx ob 1 1)\<lparr>pd_operations := [pending_operation r 1],
        pd_revisions := dr_new (tk_control_plane tr) (tk_state tr)\<rparr>) ?co = (Inr (), co1)" "ready ?n og a co1"
    "hc_offered co1 = hc_offered ?co @ [(og, (numbered tx ob 1 1)\<lparr>pd_operations := [pending_operation r 1],
        pd_revisions := dr_new (tk_control_plane tr) (tk_state tr)\<rparr>, PublishAdmitted)]"
    using ready_publish [OF r] by blast
  have "reserve bits num_text cmd co = (Inr ?rv, put_instance ?n st co1)"
    using assms(4,5) rf c(1) nm cid
    by (simp add: reserve_def vc Let_def ready_def settle_deferred_def st_def)
  moreover have rd: "ready ?n og a (put_instance ?n st co1)" using c(2) by simp
  ultimately have "coordinator_step tx bits num_text now (Reserve cmd) co =
      (ReservationReply (Inr ?rv), put_instance ?n st co1)"
    using assms(4) by (simp add: reserve_step ready_def)
  moreover have "epoch_of ((numbered tx ob 1 1)\<lparr>pd_operations := [pending_operation r 1]\<rparr>) = ho_producer_epoch ob"
    by (simp add: epoch_of_def numbered_def native_document_def)
  then have "\<exists>d cp rv. tr = tracked d cp rv \<and> cp \<noteq> - 1 \<and> rv \<noteq> - 1 \<and> epoch_of d = ho_producer_epoch ob"
    using tr by blast
  then have "first_pending ob ?l r {} st"
    by (simp add: first_pending_def st_def exact_lease_def first_lease_def lease_of_def)
  moreover have "first_known bits num_text ob (po_run og) r st" by (simp add: first_known_def st_def)
  moreover have "hc_offered (put_instance ?n st co1) = hc_offered co @ [(og, (numbered tx ob 1 1)\<lparr>pd_operations :=
      [pending_operation r 1], pd_revisions := dr_new (tk_control_plane tr) (tk_state tr)\<rparr>, PublishAdmitted)]"
    using c(3) by simp
  ultimately show ?thesis using rd m unfolding fresh_simps
    by (intro exI [of _ "put_instance ?n st co1"] exI [of _ st]) auto
qed


lemma first_lease_fields [simp]:
  "le_run_id (first_lease ob run_id r) = Some run_id" "le_generation (first_lease ob run_id r) = 1"
  "le_producer_epoch (first_lease ob run_id r) = ProducerEpoch (ho_producer_epoch ob)"
  "le_conflict_set (first_lease ob run_id r) = ConflictPipeline"
  "le_producer_id (first_lease ob run_id r) = pk_producer_id (hr_key r)"
  "le_operation_id (first_lease ob run_id r) = or_id (pending_operation r 1)"
  by (simp_all add: first_lease_def lease_of_def pending_operation_def)

lemma pending_fields [simp]:
  "or_outcome (pending_operation r g) = CO_Pending" "or_generation (pending_operation r g) = Some g"
  "or_history (pending_operation r g) = []"
  by (simp_all add: pending_operation_def)

lemma first_valid:
  assumes "ready name og a co" "instance_of co name = Some st" "pk_producer_id (hr_key r) = ''hqplayer:'' @ name"
    "first_pending ob (first_lease ob (po_run og) r) r D st"
  shows "validate_lease (first_lease ob (po_run og) r) co = Inr () \<and>
    lease_instance (first_lease ob (po_run og) r) co = Some (name, st)"
proof -
  have l: "lease_instance (first_lease ob (po_run og) r) co = Some (name, st)"
    using assms(2,3) by (simp add: lease_instance_Some del: append.simps)
  have "tk_epoch (in_tracker st) = Some (ho_producer_epoch ob)"
    using assms(4) by (auto simp: first_pending_def tracked_def)
  then show ?thesis
    using l assms(1,4)
    by (simp add: validate_lease_def ready_def active_run_id_def first_pending_def holds_operation_def)
qed

lemma first_dispatch:
  assumes "ready name og a co" "instance_of co name = Some st" "pk_producer_id (hr_key r) = ''hqplayer:'' @ name"
    "first_pending ob (first_lease ob (po_run og) r) r {} st"
  shows "\<exists>co' st'. coordinator_step tx bits num_text now (BeginDispatch (first_lease ob (po_run og) r)) co =
      (UnitReply (Inr ()), co') \<and> ready name og a co' \<and> instance_of co' name = Some st' \<and>
    first_pending ob (first_lease ob (po_run og) r) r {1} st' \<and> hc_offered co' = hc_offered co"
proof -
  let ?l = "first_lease ob (po_run og) r" and ?st = "st\<lparr>in_dispatch_in_progress := {1}\<rparr>"
  have "hqp_begin_dispatch ?l co = (Inr (), put_instance name ?st co)"
    using first_valid [OF assms] assms(1,4) by (simp add: hqp_begin_dispatch_def ready_def first_pending_def)
  moreover have r: "ready name og a (put_instance name ?st co)" using assms(1) by simp
  ultimately have "coordinator_step tx bits num_text now (BeginDispatch ?l) co = (UnitReply (Inr ()), put_instance name ?st co)"
    using assms(1) by (simp add: begin_dispatch_step ready_def)
  moreover have "first_pending ob ?l r {1} ?st" using assms(4) by (simp add: first_pending_def)
  ultimately show ?thesis using r by (metis instance_of_put offered_put)
qed

text \<open>The record a completion of a pending operation leaves.\<close>

definition completed_as :: "hqp_command_completion \<Rightarrow> operation_record \<Rightarrow> operation_record" where
  "completed_as c r = r\<lparr>or_write_attempt := cp_write_attempt c, or_recovery := cp_recovery c,
     or_history := or_history r @ [\<lparr>ot_from = or_outcome r, ot_to = cp_outcome c, ot_at = cp_at c,
       ot_observed = None, ot_reason = cp_reason c\<rparr>],
     or_outcome := cp_outcome c, or_reason := cp_reason c\<rparr>"

lemma complete_pending: "or_outcome r = CO_Pending \<Longrightarrow> apply_completion c r = Inr (completed_as c r)"
  by (auto simp: apply_completion_def legal_transition_def transition_def completed_as_def may_transition_to_def)

lemma complete_step:
  "coordinator_step tx bits num_text now (Complete l c) co = (OperationReply (Inr r), co') \<longleftrightarrow>
     \<not> hc_panicked co \<and> complete now l c co = (Inr r, co') \<and> \<not> hc_panicked co'"
  by (auto simp: coordinator_step_def split: prod.splits if_splits)

lemma first_completion:
  assumes "ready name og (PublishAdmitted # a) co" "instance_of co name = Some st"
    "pk_producer_id (hr_key r) = ''hqplayer:'' @ name"
    "first_pending ob (first_lease ob (po_run og) r) r {1} st"
  shows "\<exists>co' st'. coordinator_step tx bits num_text now (Complete (first_lease ob (po_run og) r) c) co =
      (OperationReply (Inr (completed_as c (pending_operation r 1))), co') \<and> ready name og a co' \<and>
    instance_of co' name = Some st' \<and> in_ledger st' = [completed_as c (pending_operation r 1)] \<and>
    in_active_pipeline st' = None \<and> in_dispatch_in_progress st' = {}"
proof -
  let ?l = "first_lease ob (po_run og) r" and ?op = "pending_operation r 1"
  let ?done = "completed_as c ?op"
  obtain d cp rv where tr: "in_tracker st = tracked d cp rv" "cp \<noteq> - 1" "rv \<noteq> - 1"
    using assms(4) by (auto simp: first_pending_def)
  have p: "prune_terminal_history_preserving [?done] k t {} = ([?done], t)" for k t
    by (simp add: prune_terminal_history_preserving_def MAX_TERMINAL_OPERATIONS_def Let_def)
  let ?d = "d\<lparr>pd_revisions := dr_new cp rv, pd_operations := [?done]\<rparr>"
  obtain d' tr' where m: "materialize (in_tracker st) ?d = (Inr d', tr')" "tk_last_document tr' = Some d'"
    using tr by (auto simp: materialize_cases tracked_def Let_def epoch_of_def)
  have r: "ready name og (PublishAdmitted # a) (drop_instance name co)" using assms(1) by simp
  obtain co1 where pub: "publish d' (drop_instance name co) = (Inr (), co1)" "ready name og a co1"
    using ready_publish [OF r] by blast
  define cm where "cm = \<lparr>dc_tracker = tr', dc_ledger = [?done], dc_active_pipeline = None,
      dc_dispatch_in_progress = ({} :: u64 set), dc_correlation_tombstones = in_correlation_tombstones st,
      dc_correlation_tombstone_order = in_correlation_tombstone_order st\<rparr>"
  have pt: "publish_terminal d' (drop_instance name co) = (Inr (), co1)"
    using pub(1) by (simp add: publish_terminal_def TERMINAL_PUBLICATION_RETRIES_def)
  have ch: "change_first (holds_operation ?l (\<lambda>c. True)) (apply_completion c) (in_ledger st) = Inr (?done, [?done])"
    using assms(4) by (simp add: first_pending_def holds_operation_def complete_pending)
  have "complete_for_instance ?l c st (drop_instance name co) = (Inr ?done, install_commit cm st, co1)"
    using assms(4) ch p m pt tr
    by (simp add: complete_for_instance_def offer_ledger_def publish_deferred_def first_pending_def cm_def tracked_def)
  then have "complete now ?l c co = (Inr ?done, finish_stop_if_quiescent (put_instance name (install_commit cm st) co1))"
    using first_valid [OF assms] assms(4)
    by (simp add: complete_def after_terminal_def first_pending_def)
  moreover have "finish_stop_if_quiescent (put_instance name (install_commit cm st) co1) =
      put_instance name (install_commit cm st) co1"
    using pub(2) by (simp add: finish_stop_if_quiescent_def ready_def put_instance_def)
  moreover have rd: "ready name og a (put_instance name (install_commit cm st) co1)" using pub(2) by simp
  ultimately have "coordinator_step tx bits num_text now (Complete ?l c) co =
      (OperationReply (Inr ?done), put_instance name (install_commit cm st) co1)"
    using assms(1) by (simp add: complete_step ready_def)
  then show ?thesis using rd by (intro exI [of _ "put_instance name (install_commit cm st) co1"]
        exI [of _ "install_commit cm st"]) (simp add: cm_def)
qed

section \<open>An observation that is refused inside\<close>

text \<open>
  An observation of an older epoch, or one whose reconciliation is refused, returns after the instance
  has been taken out of the map: the instance is gone, and with it the operations, the correlations and
  the generation counter.
\<close>

lemma older_refused:
  assumes "epoch_of p < e" "tk_epoch (in_tracker st) = Some e"
  shows "\<exists>f. observed_instance ob p st co = (Inl f, co)"
proof -
  have "observation_candidate p ids led (in_tracker st) \<noteq> Inr x" for ids led x
    using assms by (simp add: observation_candidate_def materialize_cases epoch_of_def)
  then show ?thesis by (auto simp: observed_instance_def Let_def split: sum.split prod.split)
qed

lemma older_epoch_drops:
  assumes "ready name og a co" "instance_of co name = Some st" "in_deferred_commit st = None"
    "in_retirement_requested st = None" "tk_epoch (in_tracker st) = Some e" "observation_ok ob"
    "ho_instance_name ob = name" "ho_producer_epoch ob < e"
  shows "\<exists>f co'. coordinator_step tx bits num_text now (Observed ob) co = (UnitReply (Inl f), co') \<and>
    ready name og a co' \<and> instance_of co' name = None \<and> hc_offered co' = hc_offered co"
proof -
  let ?p = "native_document tx ob (native_controls ob)" and ?co = "drop_instance name co"
  have p: "project_native tx ob = Inr ?p" using assms(6) by (simp add: project_native_ok)
  have "epoch_of ?p < e" using assms(8) by (simp add: epoch_of_def native_document_def)
  then obtain f where "observed_instance ob ?p st ?co = (Inl f, ?co)" using older_refused assms(5) by blast
  then have "hqp_observed tx ob co = (Inl f, ?co)"
    using assms(1-4,7) p
    by (simp add: hqp_observed_def Let_def ready_def retired_after_def forget_retired_def start_of_def settle_deferred_def)
  moreover have r: "ready name og a ?co" using assms(1) by simp
  ultimately have "coordinator_step tx bits num_text now (Observed ob) co = (UnitReply (Inl f), ?co)"
    using assms(1) by (simp add: observe_step ready_def)
  then show ?thesis using r by (metis instance_of_drop offered_drop)
qed

section \<open>The replies of a run\<close>

definition admitting :: "timestamp \<Rightarrow> coordinator_command \<Rightarrow> coordinator_input" where
  "admitting now c = \<lparr>ci_now = now, ci_publish = [PublishAdmitted], ci_retire = [], ci_command = c\<rparr>"

fun coordinator_replies ::
  "instant_text \<Rightarrow> (f64 \<Rightarrow> u64) \<Rightarrow> (json_number \<Rightarrow> string) \<Rightarrow> coordinator_input list \<Rightarrow> hqp_coordinator \<Rightarrow>
     coordinator_reply list" where
  "coordinator_replies tx bits num_text [] co = []"
| "coordinator_replies tx bits num_text (i # is) co =
     coordinator_answer tx bits num_text i co #
     coordinator_replies tx bits num_text is (coordinator_after tx bits num_text co i)"

text \<open>One reply, when the step is known from a state with its answers in place.\<close>

lemma replies_step:
  assumes "coordinator_step tx bits num_text now c (with_answers (admitting now c) co) = (r, co')"
    "coordinator_replies tx bits num_text is co' = rs"
  shows "coordinator_replies tx bits num_text (admitting now c # is) co = r # rs"
  using assms by (simp add: coordinator_answer_def coordinator_after_def admitting_def)

lemma ready_admitting: "ready name og a co \<Longrightarrow> ready name og [PublishAdmitted] (with_answers (admitting now c) co)"
  by (simp add: ready_def with_answers_def admitting_def)

definition first_origin :: "run_state \<Rightarrow> publication_origin" where
  "first_origin runs = \<lparr>po_adapter = ''hqplayer'', po_run = AdapterRunId (rn_next runs + 1)\<rparr>"

lemma started:
  assumes "rn_next runs \<noteq> - 1"
  shows "\<exists>co. coordinator_step tx bits num_text now ManagerStarted
      (with_answers (admitting now c) (hqp_coordinator_new runs)) = (UnitReply (Inr ()), co) \<and>
    ready name (first_origin runs) [PublishAdmitted] co \<and> instance_of co name = None \<and> hc_offered co = []"
proof -
  have "rn_next runs + 1 \<noteq> 0" using assms by (auto simp: max_word_wrap)
  then show ?thesis
    by (simp add: coordinator_step_def hqp_manager_started_def hqp_coordinator_new_def with_answers_def admitting_def
        begin_hqplayer_run_def begin_run_def Let_def ready_def instance_of_def first_origin_def)
qed

text \<open>Observe, reserve and begin, from a coordinator that does not have the instance.\<close>

definition prologue ::
  "timestamp \<Rightarrow> hqp_observation \<Rightarrow> hqp_validated_command \<Rightarrow> hqp_command_lease \<Rightarrow> coordinator_input list" where
  "prologue now ob cmd l = [admitting now (Observed ob), admitting now (Reserve cmd), admitting now (BeginDispatch l)]"

definition prologue_replies :: "hqp_command_lease \<Rightarrow> hqp_immediate_command_request \<Rightarrow> coordinator_reply list" where
  "prologue_replies l r = [UnitReply (Inr ()), ReservationReply (Inr \<lparr>rv_lease = l,
     rv_operation = pending_operation r 1, rv_disposition = NewReservation\<rparr>), UnitReply (Inr ())]"

lemma prologue_runs:
  assumes "observation_ok ob" "target_fits ob"
    "preflight bits num_text (own_snapshot (numbered tx ob 1 1)) r = Inr cmd"
    "ready (ho_instance_name ob) og a co" "instance_of co (ho_instance_name ob) = None"
  defines "l \<equiv> first_lease ob (po_run og) r"
  shows "\<exists>co' a' st. coordinator_replies tx bits num_text (prologue now ob cmd l @ is) co =
      prologue_replies l r @ coordinator_replies tx bits num_text is co' \<and>
    ready (ho_instance_name ob) og a' co' \<and> instance_of co' (ho_instance_name ob) = Some st \<and>
    first_pending ob l r {1} st"
proof -
  let ?n = "ho_instance_name ob"
  have "hr_key r = key_of (numbered tx ob 1 1)" using assms(3) by (auto simp: preflight_iff actionable_numbered)
  then have pid: "pk_producer_id (hr_key r) = ''hqplayer:'' @ ?n"
    by (simp add: key_of_def numbered_def native_document_def)
  have i: "instance_of (with_answers (admitting now (Observed ob)) co) ?n = None" using assms(5) by simp
  obtain co1 where 1: "coordinator_step tx bits num_text now (Observed ob)
      (with_answers (admitting now (Observed ob)) co) = (UnitReply (Inr ()), co1)"
    "ready ?n og [] co1" "instance_of co1 ?n = Some (fresh_instance tx ob)"
    using first_observation [OF assms(1) ready_admitting [OF assms(4)] i] by blast
  have i1: "instance_of (with_answers (admitting now (Reserve cmd)) co1) ?n = Some (fresh_instance tx ob)"
    using 1(3) by simp
  obtain co2 st2 where 2: "coordinator_step tx bits num_text now (Reserve cmd)
      (with_answers (admitting now (Reserve cmd)) co1) = (ReservationReply (Inr \<lparr>rv_lease = l,
         rv_operation = pending_operation r 1, rv_disposition = NewReservation\<rparr>), co2)"
    "ready ?n og [] co2" "instance_of co2 ?n = Some st2" "first_pending ob l r {} st2"
    using first_reservation [OF assms(1-3) ready_admitting [OF 1(2)] i1] unfolding l_def by blast
  have i2: "instance_of (with_answers (admitting now (BeginDispatch l)) co2) ?n = Some st2" using 2(3) by simp
  obtain co3 st3 where 3: "coordinator_step tx bits num_text now (BeginDispatch l)
      (with_answers (admitting now (BeginDispatch l)) co2) = (UnitReply (Inr ()), co3)"
    "ready ?n og [PublishAdmitted] co3" "instance_of co3 ?n = Some st3" "first_pending ob l r {1} st3"
    using first_dispatch [OF ready_admitting [OF 2(2)] i2 pid 2(4) [unfolded l_def]] unfolding l_def by blast
  show ?thesis
    unfolding prologue_def prologue_replies_def
    by (rule exI [of _ co3], rule exI [of _ "[PublishAdmitted]"], rule exI [of _ st3])
      (simp add: 3 replies_step [OF 1(1) HOL.refl] replies_step [OF 2(1) HOL.refl] replies_step [OF 3(1) HOL.refl] del: coordinator_replies.simps)
qed

lemma pending_steady:
  assumes "first_pending ob l r D st"
  shows "in_deferred_commit st = None" "in_retirement_requested st = None"
    "tk_epoch (in_tracker st) = Some (ho_producer_epoch ob)"
  using assms by (auto simp: first_pending_def tracked_def)

section \<open>States of such a run\<close>

lemma admitted_step:
  assumes "coordinator_step tx bits num_text now c (with_answers (admitting now c) co) = (r, co')"
  shows "coordinator_answer tx bits num_text (admitting now c) co = r"
    "coordinator_after tx bits num_text co (admitting now c) = co'"
  using assms by (simp_all add: coordinator_answer_def coordinator_after_def admitting_def)

lemma coordinator_run_append:
  "coordinator_run tx bits num_text (xs @ ys) co = coordinator_run tx bits num_text ys (coordinator_run tx bits num_text xs co)"
  by (simp add: coordinator_run_def)

lemma coordinator_run_Cons [simp]:
  "coordinator_run tx bits num_text [] co = co"
  "coordinator_run tx bits num_text (i # is) co =
     coordinator_run tx bits num_text is (coordinator_after tx bits num_text co i)"
  by (simp_all add: coordinator_run_def)

definition start_observed :: "timestamp \<Rightarrow> hqp_observation \<Rightarrow> coordinator_input list" where
  "start_observed now ob = [admitting now ManagerStarted, admitting now (Observed ob)]"

lemma run_to_reservation:
  fixes now :: timestamp
  assumes "observation_ok ob" "target_fits ob" "rn_next runs \<noteq> - 1"
    "preflight bits num_text (own_snapshot (numbered tx ob 1 1)) r = Inr cmd"
  defines "co1 \<equiv> coordinator_run tx bits num_text (start_observed now ob) (hqp_coordinator_new runs)"
    and "run_id \<equiv> po_run (first_origin runs)"
  shows "\<exists>st. coordinator_answer tx bits num_text (admitting now (Reserve cmd)) co1 =
      ReservationReply (Inr \<lparr>rv_lease = first_lease ob run_id r, rv_operation = pending_operation r 1,
        rv_disposition = NewReservation\<rparr>) \<and>
    ready (ho_instance_name ob) (first_origin runs) [] (coordinator_after tx bits num_text co1 (admitting now (Reserve cmd))) \<and>
    instance_of (coordinator_after tx bits num_text co1 (admitting now (Reserve cmd))) (ho_instance_name ob) = Some st \<and>
    first_pending ob (first_lease ob run_id r) r {} st \<and> first_known bits num_text ob run_id r st"
proof -
  let ?n = "ho_instance_name ob" and ?og = "first_origin runs"
  obtain c0 where 0: "coordinator_step tx bits num_text now ManagerStarted
      (with_answers (admitting now ManagerStarted) (hqp_coordinator_new runs)) = (UnitReply (Inr ()), c0)"
    "ready ?n ?og [PublishAdmitted] c0" "instance_of c0 ?n = None"
    using started [OF assms(3)] by blast
  have i: "instance_of (with_answers (admitting now (Observed ob)) c0) ?n = None" using 0(3) by simp
  obtain c1 where 1: "coordinator_step tx bits num_text now (Observed ob)
      (with_answers (admitting now (Observed ob)) c0) = (UnitReply (Inr ()), c1)"
    "ready ?n ?og [] c1" "instance_of c1 ?n = Some (fresh_instance tx ob)"
    using first_observation [OF assms(1) ready_admitting [OF 0(2)] i] by blast
  have c1: "co1 = c1"
    by (simp add: co1_def start_observed_def admitted_step(2) [OF 0(1)] admitted_step(2) [OF 1(1)])
  have i1: "instance_of (with_answers (admitting now (Reserve cmd)) c1) ?n = Some (fresh_instance tx ob)" using 1(3) by simp
  show ?thesis
    using first_reservation [OF assms(1,2,4) ready_admitting [OF 1(2)] i1] admitted_step [of tx bits num_text now "Reserve cmd" c1]
    unfolding c1 run_id_def by metis
qed

text \<open>The same request again, while the instance knows it.\<close>

lemma reserve_again:
  assumes "ready name og (ci_publish i) (with_answers i co)" "instance_of co name = Some st" "ci_command i = Reserve cmd"
    "vc_request cmd = r" "vc_fingerprint cmd = fingerprint bits num_text r" "hr_correlation_id r \<noteq> []"
    "length (hr_correlation_id r) \<le> 256" "pk_producer_id (hr_key r) = ''hqplayer:'' @ name" "name \<noteq> []"
    "first_pending ob (first_lease ob run_id r) r D st" "first_known bits num_text ob run_id r st"
  shows "coordinator_answer tx bits num_text i co = ReservationReply (Inr \<lparr>rv_lease = first_lease ob run_id r,
      rv_operation = pending_operation r 1, rv_disposition = DuplicateReservation\<rparr>) \<and>
    instance_of (coordinator_after tx bits num_text co i) name = Some st"
proof -
  let ?co = "with_answers i co"
  let ?rv = "\<lparr>rv_lease = first_lease ob run_id r, rv_operation = pending_operation r 1, rv_disposition = DuplicateReservation\<rparr>"
  have ck: "reserve_checks bits num_text cmd st = Inr (Inl ?rv)"
    using assms(4,5,10,11)
    by (simp add: reserve_checks_def reservation_for_correlation_def first_known_def first_pending_def Let_def)
  have v: "validate_correlation (hr_correlation_id r) = Inr ()" "named_instance (pk_producer_id (hr_key r)) = Some name"
    using assms(6-9) by (simp_all add: validate_correlation_def MAX_CORRELATION_ID_BYTES_def named_instance_Some del: append.simps)
  have "reserve bits num_text cmd ?co = (Inr ?rv, put_instance name st (drop_instance name ?co))"
    using assms(1,2,4,10) ck v
    by (simp add: reserve_def reserve_for_instance_def Let_def ready_def settle_deferred_def first_pending_def)
  moreover have "\<not> hc_panicked ?co" "\<not> hc_panicked (put_instance name st (drop_instance name ?co))"
    using assms(1) by (simp_all add: ready_def put_instance_def drop_instance_def)
  ultimately have "coordinator_step tx bits num_text (ci_now i) (Reserve cmd) ?co =
      (ReservationReply (Inr ?rv), put_instance name st (drop_instance name ?co))"
    by (simp add: reserve_step)
  then show ?thesis by (simp add: coordinator_answer_def coordinator_after_def assms(3))
qed

section \<open>Promises over runs\<close>

lemma inst_ok_bounds:
  assumes "inst_ok name st"
  shows "length (in_ledger st) \<le> 64 \<and> length (in_correlations st) \<le> 64 \<and>
    length (in_correlation_tombstone_order st) \<le> 256 \<and> length (in_correlation_tombstones st) \<le> 256"
proof -
  let ?t = "in_correlation_tombstones st" and ?o = "in_correlation_tombstone_order st"
  have "length (in_ledger st) = unresolved_count (in_ledger st) + terminal_count (in_ledger st)"
    by (rule sum_length_filter_compl [symmetric])
  then have l: "length (in_ledger st) \<le> 64"
    using assms by (simp add: inst_ok_def counts_ok_def MAX_UNRESOLVED_OPERATIONS_def MAX_TERMINAL_OPERATIONS_def)
  have c: "length (in_correlations st) \<le> length (in_ledger st)"
    using assms by (intro correlated_bound) (simp add: inst_ok_def)
  have t: "length ?o \<le> 256" "hm_wf ?t" "distinct ?o" "\<forall>i. map_of ?t i = None \<longleftrightarrow> i \<notin> set ?o"
    using assms by (simp_all add: inst_ok_def tombs_ok_def MAX_CORRELATION_TOMBSTONES_def)
  have "fst ` set ?t \<subseteq> set ?o" using t(4) by (metis domIff dom_map_of_conv_image_fst subsetI)
  then have "card (fst ` set ?t) \<le> card (set ?o)" by (intro card_mono) auto
  moreover have "card (fst ` set ?t) = length ?t"
    using t(2) by (metis hm_wf_def distinct_card length_map list.set_map)
  moreover have "card (set ?o) = length ?o" by (rule distinct_card [OF t(3)])
  ultimately have "length ?t \<le> length ?o" by simp
  then show ?thesis using l c t(1) by (meson order_trans)
qed

lemma answer_step:
  "coordinator_step tx bits num_text (ci_now i) (ci_command i) (with_answers i co) =
     (coordinator_answer tx bits num_text i co, coordinator_after tx bits num_text co i)"
  by (simp add: coordinator_answer_def coordinator_after_def)

lemma after_ok: "coordinator_ok co \<Longrightarrow> coordinator_ok (coordinator_after tx bits num_text co i)"
  by (rule evolves_ok [OF after_evolves])

lemma fenced_once:
  assumes "coordinator_ok co" "coordinator_answer tx bits num_text i co = UnitReply (Inr ())"
    "ci_command i = BeginDispatch l" "le_producer_id l = ''hqplayer:'' @ name" "le_producer_id l' = ''hqplayer:'' @ name"
    "kept_through tx bits num_text name is (coordinator_after tx bits num_text co i)"
    "ci_command j = BeginDispatch l'" "le_generation l' = le_generation l"
  shows "coordinator_answer tx bits num_text j
    (coordinator_run tx bits num_text is (coordinator_after tx bits num_text co i)) \<noteq> UnitReply (Inr ())"
proof
  let ?co1 = "coordinator_after tx bits num_text co i"
  let ?co2 = "coordinator_run tx bits num_text is ?co1"
  assume a: "coordinator_answer tx bits num_text j ?co2 = UnitReply (Inr ())"
  have b: "hqp_begin_dispatch l (with_answers i co) = (Inr (), ?co1)"
    using answer_step [of tx bits num_text i co] assms(2,3) by (simp add: begin_dispatch_step)
  obtain n st where st: "lease_instance l co = Some (n, st)" "in_active_pipeline st = Some (le_generation l)"
    "in_retirement_requested st = None" "?co1 = put_instance n (st\<lparr>in_dispatch_in_progress :=
       insert (le_generation l) (in_dispatch_in_progress st)\<rparr>) (with_answers i co)"
    using hqp_begin_dispatch_ok [OF b] by auto
  have n: "n = name" "instance_of co name = Some st"
    using st(1) assms(4) by (auto simp: lease_instance_Some simp del: append.simps)
  define st1 where "st1 = st\<lparr>in_dispatch_in_progress := insert (le_generation l) (in_dispatch_in_progress st)\<rparr>"
  have i1: "instance_of ?co1 name = Some st1" using st(4) n by (simp add: st1_def)
  have "inst_ok name st" using assms(1) n by (simp add: coordinator_ok_def)
  then have "spent (le_generation l) st1" unfolding st1_def using st(2,3) by (rule begun_spent)
  moreover have "inst_ok name st1" using after_ok [OF assms(1)] i1 by (simp add: coordinator_ok_def)
  moreover obtain st2 where i2: "instance_of ?co2 name = Some st2" "isteps name st1 st2"
    using kept_steps [OF assms(6) i1] by blast
  ultimately have sp: "spent (le_generation l') st2" using isteps_spent assms(8) by metis
  have "lease_instance l' (with_answers j ?co2) = Some (name, st2)"
    using i2(1) assms(5) by (simp add: lease_instance_Some del: append.simps)
  then have "fst (hqp_begin_dispatch l' (with_answers j ?co2)) \<noteq> Inr ()" by (rule spent_not_begun [OF sp])
  then show False
    using answer_step [of tx bits num_text j ?co2] a assms(7) by (simp add: begin_dispatch_step)
qed

lemma reserved_once:
  assumes "coordinator_ok co" "coordinator_answer tx bits num_text i co = ReservationReply (Inr rv)"
    "ci_command i = Reserve cmd" "rv_disposition rv = NewReservation"
    "pk_producer_id (hr_key (vc_request cmd)) = ''hqplayer:'' @ name"
    "pk_producer_id (hr_key (vc_request cmd')) = ''hqplayer:'' @ name"
    "hr_correlation_id (vc_request cmd') = hr_correlation_id (vc_request cmd)"
    "kept_through tx bits num_text name is (coordinator_after tx bits num_text co i)"
    "ci_command j = Reserve cmd'"
    "coordinator_answer tx bits num_text j
      (coordinator_run tx bits num_text is (coordinator_after tx bits num_text co i)) = ReservationReply (Inr rv')"
    "instance_of (coordinator_after tx bits num_text
      (coordinator_run tx bits num_text is (coordinator_after tx bits num_text co i)) j) name = Some st"
    "length (in_correlation_tombstone_order st) \<noteq> MAX_CORRELATION_TOMBSTONES"
  shows "rv_disposition rv' = DuplicateReservation \<and>
    le_correlation_id (rv_lease rv') = hr_correlation_id (vc_request cmd)"
proof -
  let ?co1 = "coordinator_after tx bits num_text co i" and ?c = "hr_correlation_id (vc_request cmd)"
  let ?co2 = "coordinator_run tx bits num_text is ?co1"
  have r: "reserve bits num_text cmd (with_answers i co) = (Inr rv, ?co1)"
    using answer_step [of tx bits num_text i co] assms(2,3) by (simp add: reserve_step)
  obtain n st1 where n: "named_instance (pk_producer_id (hr_key (vc_request cmd))) = Some n"
    and i1: "instance_of ?co1 n = Some st1" "remembered ?c st1"
    using reserve_new_remembered [OF r assms(4)] by blast
  have nn: "n = name" "name \<noteq> []" using n assms(5) by (auto simp: named_instance_Some simp del: append.simps)
  obtain st2 where i2: "instance_of ?co2 name = Some st2" "isteps name st1 st2"
    using kept_steps [OF assms(8)] i1(1) nn by blast
  have ok1: "inst_ok name st1" using after_ok [OF assms(1)] i1 nn by (simp add: coordinator_ok_def)
  have ok2: "inst_ok name st2" by (rule isteps_ok [OF i2(2) ok1])
  have m2: "remembered (hr_correlation_id (vc_request cmd')) st2"
    unfolding assms(7) using isteps_remember [OF i2(2) ok1] i1(2) by blast
  have r2: "reserve bits num_text cmd' (with_answers j ?co2) = (Inr rv', coordinator_after tx bits num_text ?co2 j)"
    using answer_step [of tx bits num_text j ?co2] assms(9,10) by (simp add: reserve_step)
  have i3: "instance_of (with_answers j ?co2) name = Some st2" using i2(1) by simp
  have n2: "named_instance (pk_producer_id (hr_key (vc_request cmd'))) = Some name"
    unfolding assms(6) using nn(2) by (simp add: named_instance_Some del: append.simps)
  show ?thesis using reserve_remembered [OF r2 i3 ok2 n2 m2 assms(11,12)] assms(7) by simp
qed

end
