(* ===== verification/Hqp_Service.thy ===== *)
theory Hqp_Service
  imports Hqp_Coord_Live
begin

text \<open>
  The command service (\<open>src/producers/hqplayer_command_service.rs\<close>): one actor that takes requests
  from a bounded channel and owns each accepted one through reservation, dispatch, native execution and
  completion.

  Between two calls of the service the coordinator handles commands of others: observations, stops,
  removals, ticks. A \<open>turn\<close> lists those that come before the next call, and what that call meets. The
  executor is the engine behind the adapter: its answers are an input, and each call of it is recorded.
  \<open>debug\<close> is the text of a readback in the format \<open>{:?}\<close>.
\<close>

section \<open>Native receipts\<close>

record hqp_rejected =
  hx_element :: string
  hx_reason :: "string option"

definition hqp_rejected_display :: "hqp_rejected \<Rightarrow> string" where
  "hqp_rejected_display x =
     (case hx_reason x of
        Some r \<Rightarrow> ''HQPlayer rejected '' @ hx_element x @ '': '' @ r
      | None \<Rightarrow> ''HQPlayer rejected '' @ hx_element x @ '' (no reason given)'')"

datatype native_setting_readback =
    ReadbackVerified
  | ReadbackNoop
  | ReadbackDivergent string string
  | ReadbackUnavailable string

datatype native_setting_receipt =
    NativeNotAttempted string native_setting_readback
  | NativeSuppressed string
  | NativeDaemonRejected hqp_rejected
  | NativeDaemonAcknowledged native_setting_readback
  | NativePossibleAttempt string native_setting_readback

datatype hqp_native_setting =
    SettingMode string
  | SettingFilter1x string
  | SettingFilterNx string
  | SettingShaper string
  | SettingRate u32

fun native_setting :: "hqp_semantic_operation_kind \<Rightarrow> hqp_engine_value \<Rightarrow> hqp_native_setting option" where
  "native_setting Op_SetMode (EngineName v) = Some (SettingMode v)"
| "native_setting Op_SetFilter1x (EngineName v) = Some (SettingFilter1x v)"
| "native_setting Op_SetFilterNx (EngineName v) = Some (SettingFilterNx v)"
| "native_setting Op_SetShaper (EngineName v) = Some (SettingShaper v)"
| "native_setting Op_SetRate (EngineRate v) = Some (SettingRate v)"
| "native_setting p v = None"

section \<open>Evidence\<close>

record completion_evidence =
  ev_outcome :: command_outcome
  ev_write_attempt :: write_attempt
  ev_recovery :: recovery_state
  ev_reason :: "reason option"

definition service_reason :: "reason_code \<Rightarrow> reason_scope \<Rightarrow> string \<Rightarrow> reason" where
  "service_reason code scope detail =
     \<lparr>rs_code = code, rs_scope = scope, rs_display_text_key = None, rs_detail = Some detail\<rparr>"

definition evidence ::
  "command_outcome \<Rightarrow> write_attempt \<Rightarrow> recovery_state \<Rightarrow> reason option \<Rightarrow> completion_evidence" where
  "evidence outcome attempt recovery rsn =
     \<lparr>ev_outcome = outcome, ev_write_attempt = attempt, ev_recovery = recovery, ev_reason = rsn\<rparr>"

definition divergent_evidence :: "write_attempt \<Rightarrow> string \<Rightarrow> string \<Rightarrow> completion_evidence" where
  "divergent_evidence attempt requested observed = evidence CO_Divergent attempt Rec_ReplanRequired
     (Some (service_reason RC_Unobservable Scope_Observed
       (''requested '' @ requested @ ''; authoritative readback reported '' @ observed)))"

definition indeterminate_evidence :: "write_attempt \<Rightarrow> recovery_state \<Rightarrow> string \<Rightarrow> completion_evidence" where
  "indeterminate_evidence attempt recovery detail = evidence CO_Indeterminate attempt recovery
     (Some (service_reason RC_Unobservable Scope_Lane detail))"

fun receipt_evidence ::
  "(native_setting_readback \<Rightarrow> string) \<Rightarrow> native_setting_receipt \<Rightarrow> completion_evidence" where
  "receipt_evidence debug (NativeNotAttempted detail rb) =
     (if rb = ReadbackNoop \<or> rb = ReadbackVerified
      then evidence CO_Ignored WA_NotAttempted Rec_NotRequired
        (Some (service_reason RC_LockedByProducer Scope_Observed detail))
      else evidence CO_Superseded WA_NotAttempted Rec_ReplanRequired
        (Some (service_reason RC_Superseded Scope_Observed (detail @ ''; native readback: '' @ debug rb))))"
| "receipt_evidence debug (NativeSuppressed detail) =
     evidence CO_Superseded WA_NotAttempted Rec_ReplanRequired
       (Some (service_reason RC_Superseded Scope_Observed detail))"
| "receipt_evidence debug (NativeDaemonRejected x) =
     evidence CO_Rejected WA_AcknowledgedProvisional Rec_NotRequired
       (Some (service_reason RC_LockedByProducer Scope_Producer (hqp_rejected_display x)))"
| "receipt_evidence debug (NativeDaemonAcknowledged ReadbackVerified) =
     evidence CO_Applied WA_Confirmed Rec_NotRequired None"
| "receipt_evidence debug (NativeDaemonAcknowledged ReadbackNoop) =
     evidence CO_Ignored WA_Confirmed Rec_NotRequired None"
| "receipt_evidence debug (NativeDaemonAcknowledged (ReadbackDivergent requested observed)) =
     divergent_evidence WA_AcknowledgedProvisional requested observed"
| "receipt_evidence debug (NativeDaemonAcknowledged (ReadbackUnavailable detail)) =
     indeterminate_evidence WA_AcknowledgedProvisional Rec_AwaitingReadback detail"
| "receipt_evidence debug (NativePossibleAttempt delivery (ReadbackDivergent requested observed)) =
     divergent_evidence WA_Attempted requested observed"
| "receipt_evidence debug (NativePossibleAttempt delivery (ReadbackUnavailable rb)) =
     indeterminate_evidence WA_Attempted Rec_AwaitingReconnect (delivery @ ''; '' @ rb)"
| "receipt_evidence debug (NativePossibleAttempt delivery rb) =
     evidence CO_Applied WA_Confirmed Rec_NotRequired None"

definition execution_error_evidence :: "string \<Rightarrow> completion_evidence" where
  "execution_error_evidence error = indeterminate_evidence WA_Attempted Rec_AwaitingReconnect error"

definition completion_of :: "timestamp \<Rightarrow> completion_evidence \<Rightarrow> hqp_command_completion" where
  "completion_of now e = \<lparr>cp_outcome = ev_outcome e, cp_write_attempt = ev_write_attempt e, cp_at = now,
     cp_recovery = Some (ev_recovery e), cp_reason = ev_reason e\<rparr>"

definition unsent_evidence :: "string \<Rightarrow> completion_evidence" where
  "unsent_evidence detail = evidence CO_Superseded WA_NotAttempted Rec_ReplanRequired
     (Some (service_reason RC_Superseded Scope_Producer detail))"

section \<open>The world of the service\<close>

record service_turn =
  tn_before :: "coordinator_input list"
  tn_now :: timestamp
  tn_publish :: "publish_answer list"
  tn_retire :: "retire_answer list"

record service_world =
  sw_coordinator :: hqp_coordinator
  sw_turns :: "service_turn list"
  sw_receipts :: "(string + native_setting_receipt) list"
  sw_executed :: "(hqp_execution_target \<times> hqp_native_setting) list"

definition next_turn :: "service_world \<Rightarrow> service_turn" where
  "next_turn w = (case sw_turns w of [] \<Rightarrow>
       \<lparr>tn_before = [], tn_now = Timestamp [], tn_publish = [], tn_retire = []\<rparr> | t # ts \<Rightarrow> t)"

definition coordinator_call ::
  "instant_text \<Rightarrow> (f64 \<Rightarrow> u64) \<Rightarrow> (json_number \<Rightarrow> string) \<Rightarrow> coordinator_command \<Rightarrow> service_world \<Rightarrow>
     coordinator_reply \<times> service_world" where
  "coordinator_call tx bits num_text c w =
     (let t = next_turn w;
          co = coordinator_run tx bits num_text (tn_before t) (sw_coordinator w);
          i = \<lparr>ci_now = tn_now t, ci_publish = tn_publish t, ci_retire = tn_retire t, ci_command = c\<rparr>
      in (coordinator_answer tx bits num_text i co,
          w\<lparr>sw_coordinator := coordinator_after tx bits num_text co i, sw_turns := tl (sw_turns w)\<rparr>))"

text \<open>The executor gives its next answer; with none left, the call fails.\<close>

definition native_execute ::
  "hqp_execution_target \<Rightarrow> hqp_native_setting \<Rightarrow> service_world \<Rightarrow>
     (string + native_setting_receipt) \<times> service_world" where
  "native_execute target setting w =
     (case sw_receipts w of [] \<Rightarrow> Inl ''closed'' | r # _ \<Rightarrow> r,
      w\<lparr>sw_receipts := tl (sw_receipts w), sw_executed := sw_executed w @ [(target, setting)]\<rparr>)"

section \<open>One request\<close>

record hqp_command_acknowledgement =
  ak_operation :: operation_record
  ak_duplicate :: bool

datatype hqp_command_service_refusal =
    ServiceProducerUnknown
  | InvalidProducerIdentity
  | ServicePreflight hqp_preflight_refusal
  | ServiceCoordinator hqp_coordinator_refusal
  | ServiceClosed

type_synonym service_reply = "hqp_command_service_refusal + hqp_command_acknowledgement"

text \<open>The accepted job, after its acknowledgement went out.\<close>

definition job_evidence ::
  "(native_setting_readback \<Rightarrow> string) \<Rightarrow> hqp_execution_target option \<Rightarrow> hqp_native_setting option \<Rightarrow>
     service_world \<Rightarrow> completion_evidence \<times> service_world" where
  "job_evidence debug target setting w =
     (case target of
        None \<Rightarrow> (unsent_evidence ''the admitted HQPlayer command did not retain its native execution target'', w)
      | Some t \<Rightarrow>
          (case setting of
             None \<Rightarrow> (unsent_evidence ''the validated command had no #329 native setting arm'', w)
           | Some s \<Rightarrow>
               (case native_execute t s w of
                  (Inl e, w') \<Rightarrow> (execution_error_evidence e, w')
                | (Inr r, w') \<Rightarrow> (receipt_evidence debug r, w'))))"

definition run_job ::
  "instant_text \<Rightarrow> (f64 \<Rightarrow> u64) \<Rightarrow> (json_number \<Rightarrow> string) \<Rightarrow> (native_setting_readback \<Rightarrow> string) \<Rightarrow>
     timestamp \<Rightarrow> hqp_command_lease \<Rightarrow> hqp_native_setting option \<Rightarrow> service_world \<Rightarrow> service_world" where
  "run_job tx bits num_text debug now l setting w =
     (case coordinator_call tx bits num_text (BeginDispatch l) w of
        (UnitReply (Inr _), w1) \<Rightarrow>
          (case job_evidence debug (le_execution_target l) setting w1 of
             (e, w2) \<Rightarrow> snd (coordinator_call tx bits num_text (Complete l (completion_of now e)) w2))
      | (_, w1) \<Rightarrow> snd (coordinator_call tx bits num_text (SupersedeStale l now) w1))"

definition process_reserved ::
  "instant_text \<Rightarrow> (f64 \<Rightarrow> u64) \<Rightarrow> (json_number \<Rightarrow> string) \<Rightarrow> (native_setting_readback \<Rightarrow> string) \<Rightarrow>
     timestamp \<Rightarrow> hqp_validated_command \<Rightarrow> service_world \<Rightarrow> service_reply \<times> service_world" where
  "process_reserved tx bits num_text debug now cmd w =
     (case coordinator_call tx bits num_text (Reserve cmd) w of
        (ReservationReply (Inr rv), w1) \<Rightarrow>
          (let duplicate = (rv_disposition rv = DuplicateReservation) in
           (Inr \<lparr>ak_operation = rv_operation rv, ak_duplicate = duplicate\<rparr>,
            if duplicate then w1
            else run_job tx bits num_text debug now (rv_lease rv)
              (native_setting (vc_operation cmd) (vc_engine_value cmd)) w1))
      | (ReservationReply (Inl e), w1) \<Rightarrow> (Inl (ServiceCoordinator e), w1)
      | (_, w1) \<Rightarrow> (Inl (ServiceCoordinator CoordinatorClosed), w1))"

definition process ::
  "instant_text \<Rightarrow> (f64 \<Rightarrow> u64) \<Rightarrow> (json_number \<Rightarrow> string) \<Rightarrow> (native_setting_readback \<Rightarrow> string) \<Rightarrow>
     (producer_key \<Rightarrow> producer_snapshot option) \<Rightarrow> timestamp \<Rightarrow> hqp_immediate_command_request \<Rightarrow>
     service_world \<Rightarrow> service_reply \<times> service_world" where
  "process tx bits num_text debug view now r w =
     (case validate_correlation_id (hr_correlation_id r) of
        Inl e \<Rightarrow> (Inl (ServicePreflight e), w)
      | Inr _ \<Rightarrow>
     (case coordinator_call tx bits num_text (LookupCorrelation r) w of
        (LookupReply (Inr (Some rv)), w1) \<Rightarrow>
          (Inr \<lparr>ak_operation = rv_operation rv, ak_duplicate = True\<rparr>, w1)
      | (LookupReply (Inr None), w1) \<Rightarrow>
          (case view (hr_key r) of
             None \<Rightarrow> (Inl ServiceProducerUnknown, w1)
           | Some sn \<Rightarrow>
               (case preflight bits num_text sn r of
                  Inl e \<Rightarrow> (Inl (ServicePreflight e), w1)
                | Inr cmd \<Rightarrow>
                    (if named_instance (pk_producer_id (hr_key (vc_request cmd))) = None
                     then (Inl InvalidProducerIdentity, w1)
                     else process_reserved tx bits num_text debug now cmd w1)))
      | (LookupReply (Inl e), w1) \<Rightarrow> (Inl (ServiceCoordinator e), w1)
      | (_, w1) \<Rightarrow> (Inl (ServiceCoordinator CoordinatorClosed), w1)))"

section \<open>The actor\<close>

text \<open>
  The channel as the actor reads it: the messages in the order they were accepted. A shutdown closes
  the channel, so what follows it in the list was accepted before that. Each message carries the number
  of its sender's reply slot.
\<close>

datatype service_message = Submit nat hqp_immediate_command_request | Shutdown nat

datatype service_event = Acknowledged nat service_reply | Drained nat

fun drain_messages ::
  "(hqp_immediate_command_request \<Rightarrow> service_world \<Rightarrow> service_reply \<times> service_world) \<Rightarrow> service_message list \<Rightarrow>
     nat list \<Rightarrow> service_world \<Rightarrow> service_event list \<times> service_world" where
  "drain_messages f [] waiters w = (map Drained waiters, w)"
| "drain_messages f (Shutdown n # ms) waiters w = drain_messages f ms (waiters @ [n]) w"
| "drain_messages f (Submit n r # ms) waiters w =
     (case f r w of (reply, w1) \<Rightarrow>
        (case drain_messages f ms waiters w1 of (es, w2) \<Rightarrow> (Acknowledged n reply # es, w2)))"

fun service_run ::
  "(hqp_immediate_command_request \<Rightarrow> service_world \<Rightarrow> service_reply \<times> service_world) \<Rightarrow> service_message list \<Rightarrow>
     service_world \<Rightarrow> service_event list \<times> service_world" where
  "service_run f [] w = ([], w)"
| "service_run f (Submit n r # ms) w =
     (case f r w of (reply, w1) \<Rightarrow>
        (case service_run f ms w1 of (es, w2) \<Rightarrow> (Acknowledged n reply # es, w2)))"
| "service_run f (Shutdown n # ms) w = drain_messages f ms [n] w"

end
