(* ===== verification/Hqp_Service_Facts.thy ===== *)
theory Hqp_Service_Facts
  imports Hqp_Service
begin

text \<open>
  What the command service promises: typed completions, one native execution for a request at most and
  none for a correlation that is known, an answer for every accepted message.
\<close>

section \<open>The type of a completion\<close>

text \<open>
  What may be written next to what. Only a confirmed or an unsent write carries no replanning or
  waiting; \<open>NotAttempted\<close> is claimed for nothing that may have left.
\<close>

inductive evidence_typed :: "completion_evidence \<Rightarrow> bool" where
  typed_applied: "evidence_typed (evidence CO_Applied WA_Confirmed Rec_NotRequired None)"
| typed_noop: "evidence_typed (evidence CO_Ignored WA_Confirmed Rec_NotRequired None)"
| typed_unsent: "rs_code rsn = RC_LockedByProducer \<Longrightarrow>
     evidence_typed (evidence CO_Ignored WA_NotAttempted Rec_NotRequired (Some rsn))"
| typed_superseded: "rs_code rsn = RC_Superseded \<Longrightarrow>
     evidence_typed (evidence CO_Superseded WA_NotAttempted Rec_ReplanRequired (Some rsn))"
| typed_rejected: "rs_code rsn = RC_LockedByProducer \<Longrightarrow>
     evidence_typed (evidence CO_Rejected WA_AcknowledgedProvisional Rec_NotRequired (Some rsn))"
| typed_divergent: "a = WA_AcknowledgedProvisional \<or> a = WA_Attempted \<Longrightarrow> rs_code rsn = RC_Unobservable \<Longrightarrow>
     evidence_typed (evidence CO_Divergent a Rec_ReplanRequired (Some rsn))"
| typed_unread: "rs_code rsn = RC_Unobservable \<Longrightarrow>
     evidence_typed (evidence CO_Indeterminate WA_AcknowledgedProvisional Rec_AwaitingReadback (Some rsn))"
| typed_unsure: "rs_code rsn = RC_Unobservable \<Longrightarrow>
     evidence_typed (evidence CO_Indeterminate WA_Attempted Rec_AwaitingReconnect (Some rsn))"

text \<open>What a receipt says about the write, and about what was read back.\<close>

fun receipt_sent :: "native_setting_receipt \<Rightarrow> bool" where
  "receipt_sent (NativeNotAttempted d rb) = False"
| "receipt_sent (NativeSuppressed d) = False"
| "receipt_sent r = True"

fun receipt_readback :: "native_setting_receipt \<Rightarrow> native_setting_readback option" where
  "receipt_readback (NativeNotAttempted d rb) = Some rb"
| "receipt_readback (NativeDaemonAcknowledged rb) = Some rb"
| "receipt_readback (NativePossibleAttempt d rb) = Some rb"
| "receipt_readback r = None"

lemma evidence_fields [simp]:
  "ev_outcome (evidence c a r n) = c" "ev_write_attempt (evidence c a r n) = a"
  "ev_recovery (evidence c a r n) = r" "ev_reason (evidence c a r n) = n"
  by (simp_all add: evidence_def)

lemma service_reason_code [simp]: "rs_code (service_reason c s d) = c"
  by (simp add: service_reason_def)

lemma receipt_evidence_typed: "evidence_typed (receipt_evidence debug r)"
  by (induction debug r rule: receipt_evidence.induct)
    (auto simp: divergent_evidence_def indeterminate_evidence_def intro: evidence_typed.intros)

lemma receipt_attempt: "ev_write_attempt (receipt_evidence debug r) = WA_NotAttempted \<longleftrightarrow> \<not> receipt_sent r"
  by (induction debug r rule: receipt_evidence.induct)
    (auto simp: divergent_evidence_def indeterminate_evidence_def)

lemma receipt_applied:
  "ev_outcome (receipt_evidence debug r) = CO_Applied \<Longrightarrow>
     receipt_sent r \<and> (receipt_readback r = Some ReadbackVerified \<or> receipt_readback r = Some ReadbackNoop)"
  by (induction debug r rule: receipt_evidence.induct)
    (auto simp: divergent_evidence_def indeterminate_evidence_def split: if_splits)

lemma error_typed: "evidence_typed (execution_error_evidence e)"
  by (simp add: execution_error_evidence_def indeterminate_evidence_def typed_unsure)

lemma unsent_typed: "evidence_typed (unsent_evidence d)"
  by (simp add: unsent_evidence_def typed_superseded)

lemma job_evidence_typed: "job_evidence debug t s w = (e, w') \<Longrightarrow> evidence_typed e"
  by (auto simp: job_evidence_def unsent_typed error_typed receipt_evidence_typed
      split: option.splits prod.splits sum.splits)

section \<open>Native executions\<close>

lemma call_executed [simp]: "coordinator_call tx bits num_text c w = (r, w') \<Longrightarrow> sw_executed w' = sw_executed w"
  by (auto simp: coordinator_call_def Let_def)

lemma job_executed:
  "job_evidence debug t s w = (e, w') \<Longrightarrow>
     sw_executed w' = sw_executed w \<or> (\<exists>x y. t = Some x \<and> s = Some y \<and> sw_executed w' = sw_executed w @ [(x, y)])"
  by (auto simp: job_evidence_def native_execute_def split: option.splits prod.splits sum.splits)

lemma run_job_executed:
  "sw_executed (run_job tx bits num_text debug now l s w) = sw_executed w \<or>
     (\<exists>x y. le_execution_target l = Some x \<and> s = Some y \<and>
        fst (coordinator_call tx bits num_text (BeginDispatch l) w) = UnitReply (Inr ()) \<and>
        sw_executed (run_job tx bits num_text debug now l s w) = sw_executed w @ [(x, y)])"
proof -
  obtain r w1 where b: "coordinator_call tx bits num_text (BeginDispatch l) w = (r, w1)" by (metis prod.collapse)
  obtain e w2 where j: "job_evidence debug (le_execution_target l) s w1 = (e, w2)" by (metis prod.collapse)
  have c: "sw_executed (snd (coordinator_call tx bits num_text d v)) = sw_executed v" for d v
    using call_executed [OF prod.collapse [symmetric]] by simp
  show ?thesis
    using job_executed [OF j] call_executed [OF b] b j c
    by (auto simp: run_job_def split: coordinator_reply.split sum.split)
qed

text \<open>
  A request leads to one native call at most; then it was accepted as new, and the call is the setting
  the preflight derived, on the target of its lease.
\<close>

lemma process_executed:
  assumes "process tx bits num_text debug view now r w = (reply, w')" "sw_executed w' \<noteq> sw_executed w"
  shows "\<exists>sn cmd ak x y. view (hr_key r) = Some sn \<and> preflight bits num_text sn r = Inr cmd \<and>
    reply = Inr ak \<and> \<not> ak_duplicate ak \<and> native_setting (vc_operation cmd) (vc_engine_value cmd) = Some y \<and>
    sw_executed w' = sw_executed w @ [(x, y)]"
proof -
  obtain rl w1 where l: "coordinator_call tx bits num_text (LookupCorrelation r) w = (rl, w1)" by (metis prod.collapse)
  note e1 = call_executed [OF l]
  have "rl = LookupReply (Inr None) \<and> (\<exists>sn cmd. view (hr_key r) = Some sn \<and> preflight bits num_text sn r = Inr cmd \<and>
      process_reserved tx bits num_text debug now cmd w1 = (reply, w'))"
    using assms e1 l
    by (auto simp: process_def split: sum.splits coordinator_reply.splits option.splits if_splits)
  then obtain sn cmd where p: "view (hr_key r) = Some sn" "preflight bits num_text sn r = Inr cmd"
    and pr: "process_reserved tx bits num_text debug now cmd w1 = (reply, w')" by blast
  obtain rr w2 where c: "coordinator_call tx bits num_text (Reserve cmd) w1 = (rr, w2)" by (metis prod.collapse)
  note e2 = call_executed [OF c]
  let ?s = "native_setting (vc_operation cmd) (vc_engine_value cmd)"
  obtain rv where rv: "rr = ReservationReply (Inr rv)" "rv_disposition rv \<noteq> DuplicateReservation"
    "reply = Inr \<lparr>ak_operation = rv_operation rv, ak_duplicate = False\<rparr>"
    "w' = run_job tx bits num_text debug now (rv_lease rv) ?s w2"
    using pr assms(2) e1 e2 c
    by (auto simp: process_reserved_def Let_def split: sum.splits coordinator_reply.splits if_splits)
  obtain x y where xy: "?s = Some y" "sw_executed w' = sw_executed w @ [(x, y)]"
    using run_job_executed [of tx bits num_text debug now "rv_lease rv" ?s w2] assms(2) e1 e2 rv(4) by auto
  have "\<exists>ak. reply = Inr ak \<and> \<not> ak_duplicate ak" using rv(3) by (metis hqp_command_acknowledgement.select_convs(2))
  then show ?thesis using p xy by blast
qed

section \<open>A correlation that is known\<close>

lemma lookup_step:
  "coordinator_step tx bits num_text now (LookupCorrelation r) co =
     (LookupReply (if hc_panicked co then Inl CoordinatorClosed else lookup_correlation bits num_text r co), co)"
  by (simp add: coordinator_step_def)

lemma lookup_known:
  assumes "instance_of co name = Some st" "named_instance (pk_producer_id (hr_key r)) = Some name"
    "map_of (in_correlations st) (hr_correlation_id r) \<noteq> None \<or>
     map_of (in_correlation_tombstones st) (hr_correlation_id r) \<noteq> None"
  shows "lookup_correlation bits num_text r co \<noteq> Inr None"
  using assms
  by (auto simp: lookup_correlation_def Let_def split: sum.split option.split)

lemma with_answers_correlation [simp]:
  "lookup_correlation bits num_text r (with_answers i co) = lookup_correlation bits num_text r co"
proof -
  have r: "hc_retired_instances (with_answers i co) = hc_retired_instances co" by (simp add: with_answers_def)
  show ?thesis unfolding lookup_correlation_def with_answers_instances r by (rule HOL.refl)
qed

lemma known_correlation:
  assumes "instance_of (coordinator_run tx bits num_text (tn_before (next_turn w)) (sw_coordinator w)) name = Some st"
    "named_instance (pk_producer_id (hr_key r)) = Some name"
    "map_of (in_correlations st) (hr_correlation_id r) \<noteq> None \<or>
     map_of (in_correlation_tombstones st) (hr_correlation_id r) \<noteq> None"
    "process tx bits num_text debug view now r w = (reply, w')"
  shows "sw_executed w' = sw_executed w \<and>
    (reply = Inr ak \<longrightarrow> ak_duplicate ak)"
proof (cases "validate_correlation_id (hr_correlation_id r)")
  case (Inl e)
  then show ?thesis using assms(4) by (auto simp: process_def)
next
  case (Inr u)
  obtain rl w1 where l: "coordinator_call tx bits num_text (LookupCorrelation r) w = (rl, w1)" by (metis prod.collapse)
  have "rl \<noteq> LookupReply (Inr None)"
    using l lookup_known [OF assms(1-3), of bits num_text]
    by (auto simp: coordinator_call_def coordinator_answer_def Let_def lookup_step split: if_splits)
  then show ?thesis
    using assms(4) l Inr call_executed [OF l]
    by (auto simp: process_def split: sum.splits coordinator_reply.splits option.splits)
qed

section \<open>Every message is answered\<close>

fun submitted :: "service_message list \<Rightarrow> nat list" where
  "submitted [] = []"
| "submitted (Submit n r # ms) = n # submitted ms"
| "submitted (Shutdown n # ms) = submitted ms"

fun shutdowns :: "service_message list \<Rightarrow> nat list" where
  "shutdowns [] = []"
| "shutdowns (Submit n r # ms) = shutdowns ms"
| "shutdowns (Shutdown n # ms) = n # shutdowns ms"

fun acknowledged :: "service_event list \<Rightarrow> nat list" where
  "acknowledged [] = []"
| "acknowledged (Acknowledged n r # es) = n # acknowledged es"
| "acknowledged (Drained n # es) = acknowledged es"

lemma acknowledged_append [simp]: "acknowledged (xs @ ys) = acknowledged xs @ acknowledged ys"
  by (induction xs rule: acknowledged.induct) auto

lemma acknowledged_drained [simp]: "acknowledged (map Drained ns) = []"
  by (induction ns) auto

lemma drain_events:
  "drain_messages f ms waiters w = (es, w') \<Longrightarrow>
     \<exists>as. es = as @ map Drained (waiters @ shutdowns ms) \<and> acknowledged as = submitted ms \<and>
       length as = length (submitted ms)"
proof (induction f ms waiters w arbitrary: es w' rule: drain_messages.induct)
  case (3 f n r ms waiters w)
  obtain reply w1 where f: "f r w = (reply, w1)" by (metis prod.collapse)
  obtain es1 w2 where d: "drain_messages f ms waiters w1 = (es1, w2)" by (metis prod.collapse)
  obtain as where "es1 = as @ map Drained (waiters @ shutdowns ms)" "acknowledged as = submitted ms"
    "length as = length (submitted ms)" using 3(1) [OF f [symmetric] d] by blast
  then show ?case using 3(2) f d by (intro exI [of _ "Acknowledged n reply # as"]) auto
qed fastforce+

lemma service_events:
  "service_run f ms w = (es, w') \<Longrightarrow>
     \<exists>as. es = as @ map Drained (shutdowns ms) \<and> acknowledged as = submitted ms \<and> length as = length (submitted ms)"
proof (induction f ms w arbitrary: es w' rule: service_run.induct)
  case (2 f n r ms w)
  obtain reply w1 where f: "f r w = (reply, w1)" by (metis prod.collapse)
  obtain es1 w2 where d: "service_run f ms w1 = (es1, w2)" by (metis prod.collapse)
  obtain as where "es1 = as @ map Drained (shutdowns ms)" "acknowledged as = submitted ms"
    "length as = length (submitted ms)" using 2(1) [OF f [symmetric] d] by blast
  then show ?case using 2(2) f d by (intro exI [of _ "Acknowledged n reply # as"]) auto
next
  case (3 f n ms w)
  then show ?case using drain_events [of f ms "[n]" w es w'] by auto
qed simp

end
