(* ===== verification/Samples.thy ===== *)
theory Samples
  imports Producer_Facts Runtime_Claims Zone_Claims Bridge_Lane
begin

text \<open>
  Concrete values at which the root theory instantiates its theorems: a zone, an HQPlayer
  observation, an output document, a producer document, and a few projection updates.
\<close>

section \<open>Zones and projections\<close>

definition sample_np :: now_playing where
  "sample_np = \<lparr>np_title = ''A'', np_artist = ''B'', np_album = ''C'', np_image_key = None,
     np_seek_position = Some (Fin 12), np_duration = None, np_metadata = None,
     np_repeat_mode = None, np_shuffle = None\<rparr>"

definition sample_zone :: "string \<Rightarrow> zone" where
  "sample_zone i = \<lparr>zn_zone_id = i, zn_zone_name = ''Z'', zn_state = Playing,
     zn_volume_control = None, zn_now_playing = Some sample_np, zn_source = ''hqplayer'',
     zn_is_controllable = True, zn_is_seekable = True, zn_last_updated = 0,
     zn_is_play_allowed = True, zn_is_pause_allowed = True, zn_is_next_allowed = True,
     zn_is_previous_allowed = True\<rparr>"

definition sample_source :: "u64 \<Rightarrow> projection_source" where
  "sample_source e = \<lparr>src_adapter = ''hqplayer'', src_instance = Some ''m'', src_epoch = e\<rparr>"

definition sample_update ::
  "u64 \<Rightarrow> u64 \<Rightarrow> projection_kind \<Rightarrow> projection_payload \<Rightarrow> projection_update" where
  "sample_update e q k p = \<lparr>pu_source = sample_source e, pu_sequence = q, pu_kind = k,
     pu_caused_by = None, pu_entries = [\<lparr>pe_key = ''k'', pe_payload = p\<rparr>]\<rparr>"

definition marker_update :: "u64 \<Rightarrow> u64 \<Rightarrow> projection_kind \<Rightarrow> projection_update" where
  "marker_update e q k = sample_update e q k (PP_Marker [])"

lemmas sample_update_defs = marker_update_def sample_update_def sample_source_def

text \<open>An aggregator whose lane \<open>hqplayer/m\<close> stands at epoch 1 and sequence 1.\<close>

definition sample_aggregate :: aggregate_state where
  "sample_aggregate = aggregate_default\<lparr>ag_projection_revision := 1,
     ag_source_cursors := [(source_identity (sample_source 1),
       \<lparr>pc_epoch = 1, pc_sequence = 1, pc_freshness = PF_Fresh\<rparr>)]\<rparr>"

lemma sample_aggregate_ok: "ag_ok sample_aggregate"
  by (simp add: sample_aggregate_def ag_ok_def aggregate_default_def entries_ok_def hm_wf_def)

section \<open>HQPlayer\<close>

definition sample_target :: hqp_execution_target where
  "sample_target = \<lparr>et_instance_name = ''m'', et_producer_epoch = 1, et_endpoint_generation = 1,
     et_transport_generation = 1\<rparr>"

definition sample_setting :: pipeline_setting where
  "sample_setting = \<lparr>pst_selected = \<lparr>so_value = [], so_label = []\<rparr>, pst_options = []\<rparr>"

definition sample_selection :: hqp_native_selection where
  "sample_selection = \<lparr>ns_selected = [], ns_choices = []\<rparr>"

definition sample_pipeline :: pipeline_status where
  "sample_pipeline =
     \<lparr>pl_status = \<lparr>pls_state = [], pls_mode = [], pls_active_mode = [], pls_active_filter = [],
        pls_active_shaper = [], pls_active_rate = 0, pls_convolution = False, pls_invert = False\<rparr>,
      pl_volume = \<lparr>plv_value = 0, plv_min = 0, plv_max = 0, plv_is_fixed = False\<rparr>,
      pl_settings = \<lparr>plg_mode = sample_setting, plg_filter1x = sample_setting,
        plg_filter_nx = sample_setting, plg_shaper = sample_setting, plg_shaper_label = [],
        plg_samplerate = sample_setting\<rparr>\<rparr>"

definition sample_observation :: hqp_observation where
  "sample_observation =
     \<lparr>ho_instance_name = ''m'', ho_instance_label = None, ho_product_version = None,
      ho_producer_epoch = 1, ho_execution_target = sample_target, ho_observed_at = 0,
      ho_zone = sample_zone ''hqplayer:m'',
      ho_connection = \<lparr>hcs_connected = True, hcs_host = None, hcs_port = 4321, hcs_web_port = 8088,
        hcs_info = None\<rparr>,
      ho_pipeline = sample_pipeline, ho_active_profile = None, ho_transport = NT_Playing,
      ho_metadata = \<lparr>nm_track_id = None, nm_title = None, nm_artist = None, nm_album = None\<rparr>,
      ho_volume = \<lparr>nv_value_db = Fin 0, nv_min_db = Fin 0, nv_max_db = Fin 0, nv_step_db = None,
        nv_enabled = False, nv_adaptive = False\<rparr>,
      ho_mode_is_source = False, ho_mode = sample_selection, ho_filter_1x = sample_selection,
      ho_filter_nx = sample_selection, ho_shaper = sample_selection, ho_rate = sample_selection\<rparr>"

text \<open>An output document whose session forwards audio.\<close>

definition sample_session :: hqp_relay_session_view where
  "sample_session = \<lparr>ses_session_id = 1, ses_route_id = ''r'', ses_route_generation = 1,
     ses_state = ''forwarding'', ses_peer = [], ses_connected_at = 0, ses_bytes_to_naa = 1,
     ses_bytes_from_naa = 0, ses_initialized = True, ses_started = True,
     ses_current_stream_audio_bytes = 1\<rparr>"

definition sample_operation :: hqp_output_operation where
  "sample_operation = \<lparr>oo_operation_id = ''o'', oo_correlation_id = None, oo_request_fingerprint = [],
     oo_zone_id = ''hqplayer:m'', oo_action = ''select'', oo_route_id = Some ''r'',
     oo_phase = Ph_Complete, oo_outcome = Some Oc_Complete, oo_source_epoch = 1,
     oo_output_revision_at_admission = 0, oo_route_generation = Some 1, oo_admitted_at = 0,
     oo_updated_at = 0, oo_detail = None, oo_result = None,
     oo_evidence = \<lparr>ev_native_state_before = None, ev_native_stop_verified = None,
       ev_session_id = Some 1, ev_initialized = True, ev_started = True,
       ev_current_stream_audio_bytes = 1, ev_native_state_after = None,
       ev_position_restored = None\<rparr>\<rparr>"

definition sample_outputs :: hqp_output_projection where
  "sample_outputs = \<lparr>op_zone_id = ''hqplayer:m'', op_instance = ''m'', op_source_epoch = 1,
     op_aggregate_revision = 0, op_output_revision = 1, op_route_generation = 1,
     op_availability = OA_Available,
     op_relay = \<lparr>rc_enabled = True, rc_adapter_name = [], rc_virtual_device_id = [], rc_bind = None,
       rc_hqp_allow = [], rc_discovery_interface = None, rc_discovery_port = 0,
       rc_discovery_responder = None\<rparr>,
     op_routes = [], op_selected_route_id = Some ''r'', op_desired_destination = None,
     op_observed_forwarding_destination = None, op_session = Some sample_session,
     op_discovery = None, op_dac_observations = [],
     op_native = \<lparr>ncv_transport_state = None, ncv_track = None, ncv_position = None,
       ncv_position_restored = None\<rparr>,
     op_current_operation_id = None, op_operations = [sample_operation], op_last_error = None,
     op_observed_at = 0\<rparr>"

lemma sample_audio: "operation_confirms_current_audio sample_outputs ''o''"
  by (simp add: operation_confirms_current_audio_def sample_outputs_def find_operation_def
      sample_operation_def sample_session_def historical_audio_evidence_def session_confirms_audio_def)

definition sample_playing :: aggregate_state where
  "sample_playing = sample_aggregate\<lparr>ag_hqplayer_outputs := [(''m'', sample_outputs)],
     ag_zones := [(''hqplayer:m'', sample_zone ''hqplayer:m'')]\<rparr>"

lemma sample_playing_ok: "ag_ok sample_playing"
  using sample_aggregate_ok
  by (simp add: sample_playing_def ag_ok_def zones_ok_def outputs_ok_def hm_wf_def sample_zone_def
      sample_outputs_def)

section \<open>A watch channel\<close>

text \<open>A watch cell that counts its receivers: a send without receivers stores nothing.\<close>

definition demo_watch :: "(command_status \<times> nat) watch_ops" where
  "demo_watch = \<lparr>wo_channel = (\<lambda>s. (s, 1)), wo_send = (\<lambda>s w. if snd w = 0 then w else (s, snd w)),
     wo_subscribe = (\<lambda>w. (fst w, snd w + 1)), wo_borrow = fst\<rparr>"

lemma demo_watch_sends: "watch_sends demo_watch (\<lambda>w. snd w \<noteq> 0)"
  by (simp add: watch_sends_def demo_watch_def)

text \<open>A ledger with one dispatched command all of whose tickets were dropped.\<close>

definition dropped_tickets :: "(command_status \<times> nat) runtime_data" where
  "dropped_tickets = \<lparr>rd_next_id = 2,
     rd_commands = [(CommandId 1, \<lparr>cr_target = rq_target demo_request, cr_command = rq_command demo_request,
        cr_status = AwaitingProjection, cr_updates = (AwaitingProjection, 0)\<rparr>)],
     rd_correlations = [(''c'', CommandId 1)]\<rparr>"

section \<open>A producer document\<close>

definition sample_document :: "u64 \<Rightarrow> producer_document" where
  "sample_document e = \<lparr>pd_schema_version = \<lparr>sv_major = 1, sv_minor = 0\<rparr>,
     pd_producer = \<lparr>pi_producer_id = ''hqplayer:m'', pi_producer_type = ''dsp'',
       pi_instance_label = None, pi_product_version = None, pi_epoch = ProducerEpoch e,
       pi_extensions = []\<rparr>,
     pd_target = \<lparr>pt_role = Role_DspEngine, pt_zone_id = None, pt_extensions = []\<rparr>,
     pd_revisions = \<lparr>dr_control_plane = Revision 1, dr_state = Revision 1\<rparr>,
     pd_lanes = [], pd_groups = [], pd_controls = [], pd_constraints = [], pd_draft_policy = None,
     pd_change_sets = [], pd_operations = [], pd_stale = False, pd_extensions = []\<rparr>"

end
