(* ===== verification/Hqp_Samples.thy ===== *)
theory Hqp_Samples
  imports Hqp_Service_Facts Samples
begin

text \<open>
  Concrete requests, observations and runs of the HQPlayer coordinator and its command service, at which
  the properties are instantiated.
\<close>

definition sample_request :: hqp_immediate_command_request where
  "sample_request = \<lparr>hr_key = ProducerKey ''hqplayer:m'' Role_DspEngine None,
     hr_expected = \<lparr>rr_epoch = ProducerEpoch 2, rr_control_plane = Revision 1, rr_state = Revision 1\<rparr>,
     hr_control = ControlId CONTROL_PIPELINE_SHAPER,
     hr_requested = CV_Choice (native_choice_id CONTROL_PIPELINE_SHAPER ''b''), hr_lane = AL_Immediate,
     hr_correlation_id = ''c''\<rparr>"

definition pipeline_observation :: "u64 \<Rightarrow> hqp_observation" where
  "pipeline_observation e = (let s = \<lparr>ns_selected = ''a'', ns_choices = [''a'', ''b'']\<rparr> in
     sample_observation\<lparr>ho_producer_epoch := e, ho_execution_target := sample_target\<lparr>et_producer_epoch := e\<rparr>,
       ho_mode := s, ho_filter_1x := s, ho_filter_nx := s, ho_shaper := s, ho_rate := s\<rparr>)"

definition sample_validated :: "(f64 \<Rightarrow> u64) \<Rightarrow> (json_number \<Rightarrow> string) \<Rightarrow> hqp_validated_command" where
  "sample_validated bits num_text = \<lparr>vc_request = sample_request, vc_operation = Op_SetShaper,
     vc_engine_value = EngineName ''b'', vc_fingerprint = fingerprint bits num_text sample_request\<rparr>"

definition sample_lease :: hqp_command_lease where
  "sample_lease = first_lease (pipeline_observation 2) (AdapterRunId 1) sample_request"

definition sample_completion :: hqp_command_completion where
  "sample_completion = \<lparr>cp_outcome = CO_Applied, cp_write_attempt = WA_Confirmed, cp_at = Timestamp ''t'',
     cp_recovery = Some Rec_NotRequired, cp_reason = None\<rparr>"

lemma pipeline_observation_ok: "observation_ok (pipeline_observation e)" "target_fits (pipeline_observation e)"
  "ho_instance_name (pipeline_observation e) = ''m''" "ho_producer_epoch (pipeline_observation e) = e"
  by (simp_all add: observation_ok_def target_fits_def pipeline_observation_def sample_observation_def sample_target_def
      validate_native_observation_def is_blank_def selection_ok_def f64_lt_def Let_def)

lemma sample_preflight:
  "preflight bits num_text (own_snapshot (numbered tx (pipeline_observation 2) 1 1)) sample_request =
     Inr (sample_validated bits num_text)"
proof -
  have o: "pipeline_open Op_SetShaper (pipeline_observation 2)" by (simp add: pipeline_open_def control_names)
  have c: "hr_control sample_request = ControlId (pipeline_id Op_SetShaper)" by (simp add: sample_request_def)
  show ?thesis
    unfolding pipeline_preflight [OF pipeline_observation_ok(1) o c]
    by (simp add: sample_request_def sample_validated_def numbered_def native_document_def key_of_def doc_position_def
        pipeline_observation_def Let_def engine_value_of_def dr_new_def at_epoch_def sample_observation_def sample_target_def)
qed

text \<open>The parameters of the model at plain values.\<close>

definition plain_instant :: instant_text where
  "plain_instant t = ''t''"

definition plain_bits :: "f64 \<Rightarrow> u64" where
  "plain_bits x = 0"

definition plain_number :: "json_number \<Rightarrow> string" where
  "plain_number n = ''0''"

definition sample_now :: timestamp where
  "sample_now = Timestamp ''t''"

abbreviation sample_command :: hqp_validated_command where
  "sample_command \<equiv> sample_validated plain_bits plain_number"

abbreviation sample_run :: "coordinator_input list \<Rightarrow> hqp_coordinator" where
  "sample_run is \<equiv> coordinator_run plain_instant plain_bits plain_number is (hqp_coordinator_new run_state_default)"

abbreviation sample_answer :: "coordinator_input \<Rightarrow> hqp_coordinator \<Rightarrow> coordinator_reply" where
  "sample_answer \<equiv> coordinator_answer plain_instant plain_bits plain_number"

definition sample_reserving :: "coordinator_input list" where
  "sample_reserving = start_observed sample_now (pipeline_observation 2)"

lemma sample_lease_first: "sample_lease = first_lease (pipeline_observation 2) (po_run (first_origin run_state_default)) sample_request"
  by (simp add: sample_lease_def first_origin_def run_state_default_def)

lemma sample_producer: "pk_producer_id (hr_key sample_request) = ''hqplayer:'' @ ''m''"
  "le_producer_id sample_lease = ''hqplayer:'' @ ''m''"
  by (simp_all add: sample_request_def sample_lease_def)

lemma sample_validated_request [simp]: "vc_request (sample_validated b n) = sample_request"
  "vc_fingerprint (sample_validated b n) = fingerprint b n sample_request"
  by (simp_all add: sample_validated_def)

lemma sample_reserved:
  "\<exists>st. sample_answer (admitting sample_now (Reserve sample_command)) (sample_run sample_reserving) =
      ReservationReply (Inr \<lparr>rv_lease = sample_lease, rv_operation = pending_operation sample_request 1,
        rv_disposition = NewReservation\<rparr>) \<and>
    ready ''m'' (first_origin run_state_default) []
      (sample_run (sample_reserving @ [admitting sample_now (Reserve sample_command)])) \<and>
    instance_of (sample_run (sample_reserving @ [admitting sample_now (Reserve sample_command)])) ''m'' = Some st \<and>
    first_pending (pipeline_observation 2) sample_lease sample_request {} st \<and>
    first_known plain_bits plain_number (pipeline_observation 2) (po_run (first_origin run_state_default)) sample_request st"
  using run_to_reservation [OF pipeline_observation_ok(1,2) _ sample_preflight, where runs = run_state_default
      and now = sample_now and tx = plain_instant and bits = plain_bits and num_text = plain_number]
  by (simp add: run_state_default_def first_origin_def sample_lease_def pipeline_observation_ok(3) sample_reserving_def
      coordinator_run_append)

definition sample_prefix :: "coordinator_input list" where
  "sample_prefix = sample_reserving @ [admitting sample_now (Reserve sample_command)]"

lemma sample_begun:
  "\<exists>st. sample_answer (admitting sample_now (BeginDispatch sample_lease)) (sample_run sample_prefix) = UnitReply (Inr ()) \<and>
    instance_of (sample_run (sample_prefix @ [admitting sample_now (BeginDispatch sample_lease)])) ''m'' = Some st"
proof -
  let ?c = "BeginDispatch sample_lease" and ?co = "sample_run sample_prefix"
  obtain st where st: "ready ''m'' (first_origin run_state_default) [] ?co" "instance_of ?co ''m'' = Some st"
    "first_pending (pipeline_observation 2) sample_lease sample_request {} st"
    using sample_reserved unfolding sample_prefix_def by blast
  have i: "instance_of (with_answers (admitting sample_now ?c) ?co) ''m'' = Some st" using st(2) by simp
  obtain co' st' where d: "coordinator_step plain_instant plain_bits plain_number sample_now ?c
      (with_answers (admitting sample_now ?c) ?co) = (UnitReply (Inr ()), co')" "instance_of co' ''m'' = Some st'"
    using first_dispatch [OF ready_admitting [OF st(1)] i sample_producer(1) st(3) [unfolded sample_lease_first]]
    unfolding sample_lease_first by blast
  show ?thesis
    using admitted_step [OF d(1)] d(2) by (simp add: coordinator_run_append)
qed

lemma sample_again:
  "\<exists>st. sample_answer (admitting sample_now (Reserve sample_command)) (sample_run sample_prefix) =
      ReservationReply (Inr \<lparr>rv_lease = sample_lease, rv_operation = pending_operation sample_request 1,
        rv_disposition = DuplicateReservation\<rparr>) \<and>
    instance_of (sample_run (sample_prefix @ [admitting sample_now (Reserve sample_command)])) ''m'' = Some st \<and>
    in_correlation_tombstone_order st = []"
proof -
  let ?i = "admitting sample_now (Reserve sample_command)" and ?co = "sample_run sample_prefix"
  obtain st where st: "ready ''m'' (first_origin run_state_default) [] ?co" "instance_of ?co ''m'' = Some st"
    "first_pending (pipeline_observation 2) sample_lease sample_request {} st"
    "first_known plain_bits plain_number (pipeline_observation 2) (po_run (first_origin run_state_default)) sample_request st"
    using sample_reserved unfolding sample_prefix_def by blast
  have c: "hr_correlation_id sample_request \<noteq> []" "length (hr_correlation_id sample_request) \<le> 256"
    by (simp_all add: sample_request_def)
  have "sample_answer ?i ?co = ReservationReply (Inr \<lparr>rv_lease = sample_lease,
        rv_operation = pending_operation sample_request 1, rv_disposition = DuplicateReservation\<rparr>) \<and>
      instance_of (coordinator_after plain_instant plain_bits plain_number ?co ?i) ''m'' = Some st"
    unfolding sample_lease_first
    by (rule reserve_again [where cmd = sample_command, OF ready_answers [OF st(1)] st(2) _ _ _ c sample_producer(1) _ st(3) [unfolded sample_lease_first] st(4)])
      (simp_all add: admitting_def)
  then show ?thesis using st(4) by (simp add: coordinator_run_append first_known_def)
qed

section \<open>The service at work\<close>

lemma sample_observed:
  "ready ''m'' (first_origin run_state_default) [] (sample_run sample_reserving) \<and>
   instance_of (sample_run sample_reserving) ''m'' = Some (fresh_instance plain_instant (pipeline_observation 2))"
proof -
  let ?o = "pipeline_observation 2" and ?og = "first_origin run_state_default"
  have n: "rn_next run_state_default \<noteq> - 1" by (simp add: run_state_default_def)
  obtain c0 where 0: "coordinator_step plain_instant plain_bits plain_number sample_now ManagerStarted
      (with_answers (admitting sample_now ManagerStarted) (hqp_coordinator_new run_state_default)) = (UnitReply (Inr ()), c0)"
    "ready (ho_instance_name ?o) ?og [PublishAdmitted] c0" "instance_of c0 (ho_instance_name ?o) = None"
    using started [OF n] by blast
  have i: "instance_of (with_answers (admitting sample_now (Observed ?o)) c0) (ho_instance_name ?o) = None"
    using 0(3) by simp
  obtain c1 where 1: "coordinator_step plain_instant plain_bits plain_number sample_now (Observed ?o)
      (with_answers (admitting sample_now (Observed ?o)) c0) = (UnitReply (Inr ()), c1)"
    "ready (ho_instance_name ?o) ?og [] c1" "instance_of c1 (ho_instance_name ?o) = Some (fresh_instance plain_instant ?o)"
    using first_observation [OF pipeline_observation_ok(1) ready_admitting [OF 0(2)] i] by blast
  have "sample_run sample_reserving = c1"
    by (simp add: sample_reserving_def start_observed_def admitted_step(2) [OF 0(1)] admitted_step(2) [OF 1(1)])
  then show ?thesis using 1(2,3) by (simp add: pipeline_observation_ok(3))
qed

definition sample_turn :: service_turn where
  "sample_turn = \<lparr>tn_before = [], tn_now = sample_now, tn_publish = [PublishAdmitted], tn_retire = []\<rparr>"

definition sample_world :: "hqp_coordinator \<Rightarrow> service_world" where
  "sample_world co = \<lparr>sw_coordinator = co, sw_turns = replicate 4 sample_turn,
     sw_receipts = [Inr (NativeDaemonAcknowledged ReadbackVerified)], sw_executed = []\<rparr>"

definition hqp_sample_view :: "producer_key \<Rightarrow> producer_snapshot option" where
  "hqp_sample_view k = Some (own_snapshot (numbered plain_instant (pipeline_observation 2) 1 1))"

definition no_debug :: "native_setting_readback \<Rightarrow> string" where
  "no_debug rb = []"

abbreviation sample_process :: "service_world \<Rightarrow> service_reply \<times> service_world" where
  "sample_process \<equiv> process plain_instant plain_bits plain_number no_debug hqp_sample_view sample_now sample_request"

lemma call_turn:
  "sw_turns w = sample_turn # ts \<Longrightarrow> coordinator_call tx bits num_text c w =
     (coordinator_answer tx bits num_text (admitting sample_now c) (sw_coordinator w),
      w\<lparr>sw_coordinator := coordinator_after tx bits num_text (sw_coordinator w) (admitting sample_now c), sw_turns := ts\<rparr>)"
  by (simp add: coordinator_call_def next_turn_def sample_turn_def admitting_def Let_def)

lemma with_answers_twice [simp]: "with_answers i (with_answers j co) = with_answers i co"
  by (simp add: with_answers_def)

lemma sample_executes:
  "sw_executed (snd (sample_process (sample_world (sample_run sample_reserving)))) =
     [(ho_execution_target (pipeline_observation 2), SettingShaper ''b'')] \<and>
   fst (sample_process (sample_world (sample_run sample_reserving))) =
     Inr \<lparr>ak_operation = pending_operation sample_request 1, ak_duplicate = False\<rparr>"
proof -
  let ?co = "sample_run sample_reserving" and ?l = "admitting sample_now (LookupCorrelation sample_request)"
  let ?r = "admitting sample_now (Reserve sample_command)" and ?b = "admitting sample_now (BeginDispatch sample_lease)"
  let ?w = "sample_world ?co" and ?ans = sample_answer and ?aft = "coordinator_after plain_instant plain_bits plain_number"
  have c: "validate_correlation_id (hr_correlation_id sample_request) = Inr ()"
    "validate_correlation (hr_correlation_id sample_request) = Inr ()"
    by (simp_all add: sample_request_def validate_correlation_id_def validate_correlation_def MAX_CORRELATION_ID_BYTES_def)
  have n: "named_instance (pk_producer_id (hr_key sample_request)) = Some ''m''"
    unfolding sample_producer named_instance_Some by simp
  have "lookup_correlation plain_bits plain_number sample_request ?co = Inr None" and np: "\<not> hc_panicked ?co"
    using sample_observed c(2) n by (simp_all add: lookup_correlation_def ready_def)
  then have L: "?ans ?l ?co = LookupReply (Inr None)" "?aft ?co ?l = with_answers ?l ?co"
    by (simp_all add: coordinator_answer_def coordinator_after_def admitting_def lookup_step with_answers_def [of _ ?co, symmetric])
      (simp_all add: with_answers_def)
  have R: "?ans ?r (with_answers ?l ?co) = ?ans ?r ?co" "?aft (with_answers ?l ?co) ?r = ?aft ?co ?r"
    by (simp_all add: coordinator_answer_def coordinator_after_def)
  have R1: "?ans ?r ?co = ReservationReply (Inr \<lparr>rv_lease = sample_lease, rv_operation = pending_operation sample_request 1,
        rv_disposition = NewReservation\<rparr>)" using sample_reserved by blast
  have B: "?ans ?b (?aft ?co ?r) = UnitReply (Inr ())"
    using sample_begun by (simp add: sample_prefix_def coordinator_run_append)
  have t: "le_execution_target sample_lease = Some (ho_execution_target (pipeline_observation 2))"
    by (simp add: sample_lease_def first_lease_def lease_of_def)
  have o: "vc_operation sample_command = Op_SetShaper" "vc_engine_value sample_command = EngineName ''b''"
    by (simp_all add: sample_validated_def)
  have w: "sw_turns ?w = [sample_turn, sample_turn, sample_turn, sample_turn]" "sw_coordinator ?w = ?co"
    "sw_receipts ?w = [Inr (NativeDaemonAcknowledged ReadbackVerified)]" "sw_executed ?w = []"
    by (simp_all add: sample_world_def numeral_eq_Suc)
  have E: "sw_executed (snd (process_reserved plain_instant plain_bits plain_number no_debug sample_now sample_command
      (?w\<lparr>sw_coordinator := with_answers ?l ?co, sw_turns := [sample_turn, sample_turn, sample_turn]\<rparr>))) =
    [(ho_execution_target (pipeline_observation 2), SettingShaper ''b'')]"
    "fst (process_reserved plain_instant plain_bits plain_number no_debug sample_now sample_command
      (?w\<lparr>sw_coordinator := with_answers ?l ?co, sw_turns := [sample_turn, sample_turn, sample_turn]\<rparr>)) =
    Inr \<lparr>ak_operation = pending_operation sample_request 1, ak_duplicate = False\<rparr>"
    by (simp_all add: process_reserved_def call_turn R R1 run_job_def B job_evidence_def t native_execute_def w Let_def o)
  show ?thesis
    using n E by (simp add: process_def c call_turn w L hqp_sample_view_def sample_preflight)
qed

lemmas sample_acknowledged = sample_executes [THEN conjunct2]

end
