(* ===== verification/Contract_Samples.thy ===== *)
theory Contract_Samples
  imports Change_Set Constraint_Model
begin

text \<open>Concrete values of the producer contract at which the root theory instantiates its theorems.\<close>

definition sample_view :: value_lookup where
  "sample_view c l = Some (lv_grounded l (CV_Bool True) provenance_runtime)"

definition sample_operation_record :: operation_record where
  "sample_operation_record = \<lparr>or_id = OperationId ''o'', or_correlation_id = ''c'', or_request = None,
     or_change_set = None, or_generation = None, or_write_attempt = WA_NotAttempted,
     or_outcome = CO_Pending, or_observed = None, or_steps = [], or_revision_boundaries = [],
     or_history = [], or_recovery = None, or_reason = None, or_extensions = []\<rparr>"

definition sample_entry :: "string \<Rightarrow> change_set_entry" where
  "sample_entry c = \<lparr>en_control = ControlId c, en_lane = AL_Immediate, en_desired = CV_Bool True,
     en_base_observed = None, en_validity = Valid, en_extensions = []\<rparr>"

definition sample_origin :: origin where
  "sample_origin = \<lparr>og_actor_class = Actor_Human, og_surface = Surf_Web, og_actor_id = None\<rparr>"

definition sample_change_set :: change_set where
  "sample_change_set = \<lparr>cs_id = ChangeSetId ''d'', cs_producer_id = ''p'', cs_origin = sample_origin,
     cs_base = \<lparr>rr_epoch = ProducerEpoch 1, rr_control_plane = Revision 1, rr_state = Revision 1\<rparr>,
     cs_generation = 0, cs_state = CSS_Draft, cs_created_at = Timestamp [], cs_updated_at = Timestamp [],
     cs_entries = [], cs_retention = \<lparr>rt_survives_reconnect = True, rt_survives_producer_restart = False,
       rt_on_epoch_change = EP_Expire, rt_expires_at = None, rt_apply_requires_authorization = None\<rparr>,
     cs_contributors = [], cs_extensions = []\<rparr>"

end
