(* ===== verification/Contract_Claims.thy ===== *)
theory Contract_Claims
  imports Samples Contract_Samples Constraint_Wire Schema_Version Producer_Facts Runtime_Claims Zone_Claims
begin

text \<open>
  Further facts on single components with their concrete instances: the wire forms of values, versions
  and operators, the document gate, refusals and republications, the histories of operations, and two
  behaviours of the command lanes.
\<close>

text \<open>Output documents never go back. Along every run in which the instance is not retired and the
  unfenced sink is not used, a document that was visible stays visible, and only documents of a newer
  source epoch, or of the same epoch and no older output revision, replace it.\<close>

theorem output_document_monotone:
  assumes "list_all (keeps_document i) es"
    and "get_hqplayer_outputs i (foldl za_step aggregator_new es0) = Some p"
  shows "\<exists>p'. get_hqplayer_outputs i (foldl za_step aggregator_new (es0 @ es)) = Some p' \<and> doc_le p p'"
  using za_run_docs [OF za.inv_run [OF aggregator_new_ok, of es0] assms(1)] assms(2)
  by (simp add: get_hqplayer_outputs_def docs_le_def)

theorem output_document_monotone_witness:
  "\<exists>p'. get_hqplayer_outputs ''m'' (foldl za_step aggregator_new
     ([ZE_Commit 0 (sample_update 1 1 PK_Delta (PP_HqpOutputs ''m'' sample_outputs))] @
      [ZE_Commit 0 (sample_update 2 1 PK_Delta (PP_HqpOutputs ''m'' (sample_outputs\<lparr>op_output_revision := 0\<rparr>)))])) =
     Some p' \<and>
   doc_le (sample_outputs\<lparr>op_source_epoch := 1, op_aggregate_revision := 1\<rparr>) p'"
  by (rule output_document_monotone)
    (simp_all add: keeps_document_def sample_update_defs za_step_def on_state_def aggregator_new_def
      aggregate_default_def commit_reliable_projection_def check_cursor_def open_commit_def
      commit_entry_def apply_payload_def map_outputs_def admit_outputs_def get_hqplayer_outputs_def
      sat_succ_def Let_def)

text \<open>A native failure reported after the projection confirmed the command overwrites the final
  status.\<close>

theorem late_failure_overwrites_confirmed:
  "status_of (rs_data (rt_run wo runtime_system_new late_failure)) (CommandId 1) = Some (Confirmed 7) \<and>
   status_of (rs_data (rt_run wo runtime_system_new
     (late_failure @ [RtComplete (demo_work 1) (NativeFailed d)]))) (CommandId 1) = Some (Failed d)"
  using late_failure_status by blast

text \<open>A repeated submission can be handed a dead watcher. If every ticket of a command was dropped
  before its projection committed, the command is Confirmed in the ledger, a repetition of the submission
  finds it, but the watcher it is given still shows AwaitingProjection.\<close>

theorem repeated_submission_watches_stale_status:
  assumes "watch_sends wo live"
    and "map_of (rd_commands rd) i = Some rec" "cr_status rec = AwaitingProjection"
      "\<not> live (cr_updates rec)" "wo_borrow wo (cr_updates rec) = AwaitingProjection"
    and "source_matches_target src (cr_target rec)"
    and "rq_correlation_id rq = Some c" "map_of (rd_correlations rd) c = Some i"
      "rq_target rq = cr_target rec" "rq_command rq = cr_command rec"
      "runtime_command_nan_free (cr_command rec)"
  shows "let rd1 = snd (record_projection_outcome wo src (Some i) (Committed r) rd);
             (ans, rd2) = submit_lookup wo rq rd1
         in status_of rd2 i = Some (Confirmed r) \<and> ans = Inr (Some i) \<and>
            (\<exists>rec2. map_of (rd_commands rd2) i = Some rec2 \<and>
               wo_borrow wo (cr_updates rec2) = AwaitingProjection)"
  by (rule stale_watcher [OF assms])

theorem repeated_submission_watches_stale_status_witness:
  "let rd1 = snd (record_projection_outcome demo_watch demo_source (Some (CommandId 1)) (Committed 7) dropped_tickets);
       (ans, rd2) = submit_lookup demo_watch demo_request rd1
   in status_of rd2 (CommandId 1) = Some (Confirmed 7) \<and> ans = Inr (Some (CommandId 1)) \<and>
      (\<exists>rec2. map_of (rd_commands rd2) (CommandId 1) = Some rec2 \<and>
         wo_borrow demo_watch (cr_updates rec2) = AwaitingProjection)"
proof (rule repeated_submission_watches_stale_status [OF demo_watch_sends])
  show "map_of (rd_commands dropped_tickets) (CommandId 1) = Some \<lparr>cr_target = rq_target demo_request,
      cr_command = rq_command demo_request, cr_status = AwaitingProjection, cr_updates = (AwaitingProjection, 0)\<rparr>"
    by (simp add: dropped_tickets_def)
  show "source_matches_target demo_source (cr_target \<lparr>cr_target = rq_target demo_request,
      cr_command = rq_command demo_request, cr_status = AwaitingProjection, cr_updates = (AwaitingProjection, 0)\<rparr>)"
    by code_simp
qed (simp_all add: demo_watch_def demo_request_def dropped_tickets_def)

text \<open>The incoherences the producer document reports are exactly its incoherences: the list is empty
  if and only if every valid entry has a matching grounded desired lane and no two drafts hold a valid
  entry for one control.\<close>

theorem incoherences_complete: "intent_coherence_violations d = [] \<longleftrightarrow> coherent d"
  by (rule violations_empty_iff)

text \<open>Publishing an admitted document again is a health refresh that admits the same document with
  the same repairs, provided it holds no NaN.\<close>

theorem republication_is_refresh:
  assumes "admit rfc3339 previous d = Admitted a" "doc_nan_free d"
  shows "admit rfc3339 (Some (ad_document a)) d = Admitted (a\<lparr>ad_kind := HealthRefresh\<rparr>)"
  by (rule republication [OF assms])

theorem republication_is_refresh_witness:
  "admit (\<lambda>s. Some 0) (Some (sample_document 1)) (sample_document 1) =
     Admitted \<lparr>ad_document = sample_document 1, ad_repairs = [], ad_kind = HealthRefresh\<rparr>"
proof -
  have c: "coherent (sample_document 1)"
    by (simp add: violations_empty_iff [symmetric] intent_coherence_violations_def sample_document_def)
  have "envelope_ok (\<lambda>s. Some 0) (sample_document 1)" by code_simp
  then have a: "admit (\<lambda>s. Some 0) None (sample_document 1) =
      Admitted \<lparr>ad_document = sample_document 1, ad_repairs = [], ad_kind = Fresh\<rparr>"
    by (simp add: admit_Admitted_iff repair_of_coherent [OF c] relate_def)
  have "doc_nan_free (sample_document 1)" by (simp add: doc_nan_free_def sample_document_def)
  from republication_is_refresh [OF a this] show ?thesis by simp
qed

text \<open>A refused document changes no snapshot, no watermark and no retirement floor.\<close>

theorem refusal_changes_nothing:
  "case agg_admit_document rfc3339 runs og d st of
     (Refused r, evs, st') \<Rightarrow> st_producers st' = st_producers st \<and> st_watermarks st' = st_watermarks st \<and>
       (\<forall>k. retired_at st' k = retired_at st k)
   | (Admitted a, evs, st') \<Rightarrow> True"
proof (cases "agg_admit_document rfc3339 runs og d st")
  case (fields ad evs st')
  then show ?thesis using refused_keeps_snapshot [of rfc3339 runs og d st] by (cases ad) simp_all
qed

text \<open>An operator this version does not know is neither refused nor lost: the expression is read, and
  written back as it was.\<close>

theorem unknown_operator_kept:
  assumes "map_of ob ''op'' = Some (JStr operator)" "operator \<notin> set known_ops"
  shows "\<exists>e. expr_from_json ops (JObj ob) = Inr e \<and> expr_to_json ops e = JObj ob"
  by (rule unknown_operator_passthrough [OF assms])

theorem unknown_operator_kept_witness:
  "\<exists>e. expr_from_json plain_ops (JObj [(''op'', JStr ''xor''), (''of'', JNull)]) = Inr e \<and>
     expr_to_json plain_ops e = JObj [(''op'', JStr ''xor''), (''of'', JNull)]"
  by (rule unknown_operator_kept [of _ "''xor''"]) (simp_all add: known_ops_def)

text \<open>A control value survives the wire.\<close>

theorem control_value_roundtrip:
  assumes "json_numbers ops" "cv_wire_ok v"
  shows "cv_from_json ops (cv_to_json ops v) = Inr v"
  by (rule json_numbers.cv_roundtrip [OF assms])

theorem control_value_roundtrip_witness:
  "cv_from_json plain_ops (cv_to_json plain_ops (CV_List [CV_Integer 7, CV_Empty])) =
     Inr (CV_List [CV_Integer 7, CV_Empty])"
  using control_value_roundtrip [OF plain.json_numbers_axioms, of "CV_List [CV_Integer 7, CV_Empty]"] by simp

text \<open>A schema version survives printing and parsing, and a stored document is readable at the version
  it was adopted at.\<close>

theorem schema_version_roundtrip:
  "sv_parse (sv_display v) = Some v \<and>
   (adoption_version (stored_evaluate stamp reader) = Some v \<longrightarrow> stored_evaluate (Some v) reader = Readable)"
  using sv_parse_display adoption_is_stable by blast

theorem schema_version_roundtrip_witness:
  "stored_evaluate (Some STORED_ARTIFACT_SCHEMA_VERSION) STORED_ARTIFACT_SCHEMA_VERSION = Readable"
  using schema_version_roundtrip [of STORED_ARTIFACT_SCHEMA_VERSION None STORED_ARTIFACT_SCHEMA_VERSION]
  by (simp add: stored_evaluate_def)

text \<open>Raw JSON becomes a producer document exactly when it is an object with a parsable schema version
  of this major version, the typed reader accepts it, and every constraint is within the published
  bounds.\<close>

theorem document_gate_exact:
  "admit_document to_text from_value raw = Inr d \<longleftrightarrow>
     (\<exists>ob txt v. raw = JObj ob \<and> map_of ob ''schema_version'' = Some (JStr txt) \<and> sv_parse txt = Some v \<and>
        sv_major v = 1 \<and> from_value raw = Inr d \<and>
        list_all (\<lambda>c. constraint_validate c = Inr ()) (pd_constraints d))"
  unfolding admit_document_ok_iff list_all_iff ..

text \<open>An operation's history is a legal path. Whatever transitions are attempted, the history is only
  ever extended, and it stays a chain of permitted transitions that ends in the current outcome.\<close>

theorem operation_history_legal:
  assumes "chained c0 (or_history r) (or_outcome r)"
  shows "chained c0 (or_history (transition_steps r ts)) (or_outcome (transition_steps r ts)) \<and>
    (\<exists>new. or_history (transition_steps r ts) = or_history r @ new)"
  using transition_steps_chained [OF assms] transition_steps_append_only by blast

theorem operation_history_legal_witness:
  "chained CO_Pending (or_history (transition_steps sample_operation_record
      [(CO_Applied, Timestamp [], None, None), (CO_Pending, Timestamp [], None, None)]))
     (or_outcome (transition_steps sample_operation_record
      [(CO_Applied, Timestamp [], None, None), (CO_Pending, Timestamp [], None, None)]))"
  using operation_history_legal [of CO_Pending sample_operation_record]
  by (simp only: sample_operation_record_def operation_record.simps chained.simps simp_thms)

end
