(* ===== verification/Further_Claims.thy ===== *)
theory Further_Claims
  imports Producer_Facts Runtime_Claims Zone_Claims Bridge_Lane Surface_Claims Relay_Claims Change_Set Samples Contract_Samples
begin

text \<open>
  Facts on single components beside the properties of the root theory, with their concrete instances:
  the bridge's lanes, the history of observations, the order of the zone list, start-up and companions,
  reconfiguration, change sets, retirement floors and the delays between connection attempts.
\<close>

text \<open>A triple with a known first component, in the shape the theorems about commits ask for.\<close>

lemma triple_collapse: "fst x = a \<Longrightarrow> x = (a, fst (snd x), snd (snd x))"
  by auto

text \<open>A gap leaves everything but the lane's freshness alone, and only a snapshot closes it. After a
  delta was refused as a gap, every delta of the same epoch at or past the refused one is refused with
  the same expected sequence, and any such snapshot is committed.\<close>

theorem gap_needs_snapshot:
  assumes "ag_ok ag" "commit_reliable_projection now u ag = (GapDetected x y, ag', out)"
    and "pu_source u' = pu_source u" "pu_sequence u \<le> pu_sequence u'"
  shows "out = [] \<and> ag'\<lparr>ag_source_cursors := ag_source_cursors ag\<rparr> = ag \<and>
    map_option pc_freshness (map_of (ag_source_cursors ag') (source_identity (pu_source u))) =
      Some PF_Reconciling \<and>
    fst (commit_reliable_projection now' u' ag') =
      (case pu_kind u' of PK_Delta \<Rightarrow> GapDetected x (pu_sequence u')
       | PK_Snapshot \<Rightarrow> Committed (sat_succ (ag_projection_revision ag)))"
proof -
  from gap_only_freshness [OF assms(1,2)] obtain c where
    c: "x = sat_succ (pc_sequence c)" "x < pu_sequence u" "src_epoch (pu_source u) = pc_epoch c" "out = []"
      "map_of (ag_source_cursors ag') (source_identity (pu_source u)) = Some (c\<lparr>pc_freshness := PF_Reconciling\<rparr>)"
      "ag'\<lparr>ag_source_cursors := ag_source_cursors ag\<rparr> = ag"
    by blast
  have rev: "ag_projection_revision ag' = ag_projection_revision ag"
    using c(6) by (metis aggregate_state.select_convs(5) aggregate_state.update_convs(6) aggregate_state.surjective)
  have "pc_sequence c < pu_sequence u'"
    using c(1,2) assms(4) by (meson sat_succ_ge order.strict_trans1 order.strict_trans2)
  moreover have "sat_succ (pc_sequence c) < pu_sequence u'" using c(1,2) assms(4) by (simp only: order.strict_trans2)
  ultimately show ?thesis
    using c snapshot_commits [of ag' u' "c\<lparr>pc_freshness := PF_Reconciling\<rparr>" now']
      delta_gap [of ag' u' "c\<lparr>pc_freshness := PF_Reconciling\<rparr>" now'] assms(3) rev
    by (cases "pu_kind u'") auto
qed

theorem gap_needs_snapshot_witness:
  "fst (commit_reliable_projection 0 (marker_update 1 6 PK_Snapshot)
      (fst (snd (commit_reliable_projection 0 (marker_update 1 5 PK_Delta) sample_aggregate)))) = Committed 2"
proof -
  have "fst (commit_reliable_projection 0 (marker_update 1 5 PK_Delta) sample_aggregate) = GapDetected 2 5"
    by code_simp
  from gap_needs_snapshot [OF sample_aggregate_ok triple_collapse [OF this], of "marker_update 1 6 PK_Snapshot" 0]
  show ?thesis
    by (simp add: sample_update_defs) (simp add: sample_aggregate_def sat_succ_def)
qed

text \<open>The aggregator reads its own compatibility events without harm. If a zone is the current one,
  its seek position is a whole number of seconds a double holds, and no other zone has the output the
  volume event names, then hearing all the hints of the zone leaves every zone as it was.\<close>

theorem own_hints_idempotent:
  assumes "za_ok za" "get_zone (zn_zone_id z) za = Some z"
    and "\<And>np p. zn_now_playing z = Some np \<Longrightarrow> np_seek_position np = Some p \<Longrightarrow>
      i64_to_f64 (f64_round_i64 p) = p"
    and "\<And>vc k z'. zn_volume_control z = Some vc \<Longrightarrow> get_zone k za = Some z' \<Longrightarrow>
      volume_matches (case vc_output_id vc of None \<Rightarrow> zn_zone_id z | Some x \<Rightarrow> x) z' \<Longrightarrow> z' = z"
  shows "get_zones (hear now (zone_hints z) za) = get_zones za"
  by (simp add: get_zones_def hear_own_hints [OF assms(1)] assms(2-4) [unfolded get_zone_def])

theorem own_hints_idempotent_witness:
  "get_zones (hear 0 (zone_hints (sample_zone ''hqplayer:m'')) (aggregator_new\<lparr>za_state := sample_playing\<rparr>)) =
   get_zones (aggregator_new\<lparr>za_state := sample_playing\<rparr>)"
proof (rule own_hints_idempotent)
  show "za_ok (aggregator_new\<lparr>za_state := sample_playing\<rparr>)"
    using aggregator_new_ok sample_playing_ok by (simp add: za_ok_def)
next
  fix np p assume "zn_now_playing (sample_zone ''hqplayer:m'') = Some np" "np_seek_position np = Some p"
  then have "p = Fin 12" by (auto simp: sample_zone_def sample_np_def)
  moreover have "i64_to_f64 (f64_round_i64 (Fin 12)) = Fin 12" by code_simp
  ultimately show "i64_to_f64 (f64_round_i64 p) = p" by simp
qed (auto simp: get_zone_def sample_playing_def sample_zone_def)

text \<open>The observation history is bounded whatever is seen: at most 32 zones, at most 64 observations
  in one answer, every one of the asked Apple Music owner and without an identity; and an owner that was
  cleared leaves nothing behind.\<close>

theorem history_bounded:
  "let h = za_observed_playback (foldl za_step aggregator_new es)
   in length h \<le> MAX_ZONES \<and> length (recent z n h) \<le> min n MAX_RECORDS_PER_ZONE \<and>
      list_all (\<lambda>x. po_zone_id x = z \<and> po_reference x = None \<and> is_applemusic_zone_id z) (recent z n h) \<and>
      recent z n (clear_zone z h) = (if is_applemusic_zone_id z then [] else recent z n h)"
proof -
  have "history_ok (za_observed_playback (foldl za_step aggregator_new es))"
    using za.inv_run [OF aggregator_new_ok, of es] by (simp add: za_ok_def)
  then show ?thesis
    using recent_zone [of _ _ z n] recent_bounds [of z n]
    by (simp add: Let_def list_all_iff recent_clear) (simp add: history_ok_def clear_zone_def)
qed

text \<open>A player that goes on playing the same track fills its history. The poll of the adapter
  publishes the state and then the track, and each poll of an unchanged player records two observations:
  the bare state, and the track again.\<close>

theorem unchanged_poll_recorded_twice:
  assumes "history_ok h" "map_of h z = Some vs" "same_snapshot (last vs) (observation_of z st (Some np) t0)"
    and "bounded (np_title np) \<noteq> None"
  shows "recent z 2 (record_now_playing z st (Some np) t2 (record_state z st t1 h)) =
    [observation_of z st (Some np) t2, observation_of z st None t1]"
  by (rule poll_pushes_two [OF assms])

theorem unchanged_poll_recorded_twice_witness:
  "let poll = (\<lambda>t h. record_now_playing ''applemusic:a'' Playing (Some sample_np) t
         (record_state ''applemusic:a'' Playing t h))
   in recent ''applemusic:a'' 2 (poll 2 (poll 1 [])) =
      [observation_of ''applemusic:a'' Playing (Some sample_np) 2, observation_of ''applemusic:a'' Playing None 2]"
proof -
  let ?z = "''applemusic:a''"
  let ?h = "record_now_playing ?z Playing (Some sample_np) 1 (record_state ?z Playing 1 [])"
  have h: "?h = [(?z, [observation_of ?z Playing None 1, observation_of ?z Playing (Some sample_np) 1])]"
    by code_simp
  have ok: "history_ok ?h" by simp
  have vs: "map_of ?h ?z = Some [observation_of ?z Playing None 1, observation_of ?z Playing (Some sample_np) 1]"
    by (subst h) simp
  have same: "same_snapshot (last [observation_of ?z Playing None 1, observation_of ?z Playing (Some sample_np) 1])
      (observation_of ?z Playing (Some sample_np) 1)"
    by code_simp
  have title: "bounded (np_title sample_np) \<noteq> None" by code_simp
  show ?thesis using unchanged_poll_recorded_twice [OF ok vs same title, of 2 2] by (simp add: Let_def)
qed

text \<open>Reconfiguring one endpoint leaves the others admitting: the flag raised is the endpoint's own,
  and dropping the guard restores the registry's flags.\<close>

theorem reconfiguration_is_isolated:
  assumes "registry_ok rg" "map_of (rg_endpoints rg) k = Some s" "map_of (rg_endpoints rg) l = Some t" "k \<noteq> l"
    and "ce_reconfiguring ep = es_reconfiguring s" "try_begin_reconfiguration ep rg = (Inr guard, rg1)"
  shows "rg_flags rg1 ! es_reconfiguring s \<and>
    rg_flags rg1 ! es_reconfiguring t = rg_flags rg ! es_reconfiguring t \<and>
    rg_flags (reconfiguration_guard_drop guard rg1) = rg_flags rg"
  by (rule reconfiguration_isolated [OF assms])

theorem reconfiguration_is_isolated_witness:
  "let rg = snd (register (EK_Provider ''lms'') 4 demo_registry);
       ep = \<lparr>ce_key = EK_Provider ''roon'', ce_generation = 1, ce_receiver = 0, ce_reconfiguring = 0\<rparr>
   in rg_flags (snd (try_begin_reconfiguration ep rg)) ! 0 \<and>
      rg_flags (snd (try_begin_reconfiguration ep rg)) ! 1 = rg_flags rg ! 1"
proof -
  let ?rg = "snd (register (EK_Provider ''lms'') 4 demo_registry)"
  let ?ep = "\<lparr>ce_key = EK_Provider ''roon'', ce_generation = 1, ce_receiver = 0, ce_reconfiguring = 0\<rparr>"
  have d: "demo_registry = \<lparr>rg_endpoints = [(EK_Provider ''roon'',
      \<lparr>es_generation = 1, es_sender = 0, es_reconfiguring = 0\<rparr>)], rg_generation = 2, rg_flags = [False]\<rparr>"
    by (simp add: demo_registry_def register_provider_def endpoint_key_provider_def is_blank_def
        register_def registry_new_def Let_def hm_insert_def)
  have "registry_ok demo_registry"
    using register_ok [OF registry_ok_new, of "EK_Provider ''roon''" 4]
    by (simp add: demo_registry_def register_provider_def endpoint_key_provider_def is_blank_def registry_new_def)
  then have "registry_ok ?rg" by (rule register_ok) (simp add: d)
  then show ?thesis
    using reconfiguration_is_isolated [of ?rg "EK_Provider ''roon''" "\<lparr>es_generation = 1, es_sender = 0,
        es_reconfiguring = 0\<rparr>" "EK_Provider ''lms''" "\<lparr>es_generation = 2, es_sender = 1, es_reconfiguring = 1\<rparr>" ?ep]
    by (simp add: d register_def Let_def hm_insert_def try_begin_reconfiguration_def)
qed

text \<open>A step of a visible zone does what the user sees. When the order endpoint has computed a step
  and saved it, the list shows the zone and its visible neighbour in that direction exchanged, and every
  other zone where it was, however many hidden zones lie between the two.\<close>

theorem reorder_moves_visibly:
  assumes "distinct (map zn_zone_id zones)" "zor_target_zone_id rq = None" "zor_direction rq = Some d"
    and "zone_order_read lc p rq zones file = Some ids"
    and "zor_zone_id rq \<notin> set (hidden_zone_ids (load_app_settings p file))"
    and "zone_order_write p w (Some ids) file = (True, file')"
  shows "\<exists>xs y ys.
    map zn_zone_id (apply_zone_list_policy lc (load_app_settings p file) zones) =
      (case d of Up \<Rightarrow> xs @ [y, zor_zone_id rq] @ ys | Down \<Rightarrow> xs @ [zor_zone_id rq, y] @ ys) \<and>
    map zn_zone_id (apply_zone_list_policy lc (load_app_settings p file') zones) =
      (case d of Up \<Rightarrow> xs @ [zor_zone_id rq, y] @ ys | Down \<Rightarrow> xs @ [y, zor_zone_id rq] @ ys)"
  by (rule saved_step [OF assms]) blast

theorem reorder_moves_visibly_witness:
  "\<exists>xs y ys. [''roon:a'', ''roon:c''] = xs @ [y, ''roon:c''] @ ys \<and> [''roon:c'', ''roon:a''] = xs @ [''roon:c'', y] @ ys"
proof -
  let ?zones = "map sample_zone [''roon:a'', ''roon:b'', ''roon:c'']"
  let ?s = "app_settings_default\<lparr>aps_hidden_zones := Some [''roon:b''],
    aps_zone_order := Some [''roon:a'', ''roon:b'', ''roon:c'']\<rparr>"
  let ?rq = "\<lparr>zor_zone_id = ''roon:c'', zor_direction = Some Up, zor_target_zone_id = None\<rparr>"
  let ?s' = "?s\<lparr>aps_zone_order := Some [''roon:c'', ''roon:a'', ''roon:b'']\<rparr>"
  have "zone_order_read (\<lambda>x. x) False ?rq ?zones (Some ?s) = Some [''roon:c'', ''roon:a'', ''roon:b'']"
    by code_simp
  moreover have "zone_order_write False True (Some [''roon:c'', ''roon:a'', ''roon:b'']) (Some ?s) = (True, Some ?s')"
    by code_simp
  ultimately have "\<exists>xs y ys.
    map zn_zone_id (apply_zone_list_policy (\<lambda>x. x) (load_app_settings False (Some ?s)) ?zones) = xs @ [y, ''roon:c''] @ ys \<and>
    map zn_zone_id (apply_zone_list_policy (\<lambda>x. x) (load_app_settings False (Some ?s')) ?zones) = xs @ [''roon:c'', y] @ ys"
    using reorder_moves_visibly [of ?zones ?rq Up "\<lambda>x. x" False "Some ?s" _ True "Some ?s'"]
    by (simp add: sample_zone_def load_app_settings_def hidden_zone_ids_def Let_def app_settings_default_def)
  moreover have "map zn_zone_id (apply_zone_list_policy (\<lambda>x. x) (load_app_settings False (Some ?s)) ?zones) =
      [''roon:a'', ''roon:c'']"
    "map zn_zone_id (apply_zone_list_policy (\<lambda>x. x) (load_app_settings False (Some ?s')) ?zones) =
      [''roon:c'', ''roon:a'']"
    by code_simp+
  ultimately show ?thesis by (simp only:)
qed

text \<open>Two browser tabs can lose a move. Each request computes its order before it takes the write
  lock. If both read before either writes, the file ends as if the first move had never been made; made
  one after the other, both moves land.\<close>

theorem concurrent_reorder_lost:
  "zone_order_write p True (zone_order_read lc p rq2 zones file)
     (snd (zone_order_write p True (zone_order_read lc p rq1 zones file) file)) =
   (if zone_order_read lc p rq2 zones file = None
    then (True, snd (zone_order_write p True (zone_order_read lc p rq1 zones file) file))
    else zone_order_write p True (zone_order_read lc p rq2 zones file) file) \<and>
   (let zs = map sample_zone [''roon:a'', ''roon:b'', ''roon:c'', ''roon:d''];
        up = (\<lambda>z. \<lparr>zor_zone_id = z, zor_direction = Some Up, zor_target_zone_id = None\<rparr>);
        f0 = Some app_settings_default;
        tab1 = zone_order_read (\<lambda>x. x) False (up ''roon:b'') zs f0;
        tab2 = zone_order_read (\<lambda>x. x) False (up ''roon:d'') zs f0;
        f1 = snd (zone_order_write False True tab1 f0);
        raced = snd (zone_order_write False True tab2 f1);
        later = snd (zone_order_write False True (zone_order_read (\<lambda>x. x) False (up ''roon:d'') zs f1) f1)
    in map_option zone_order_ids raced = Some [''roon:a'', ''roon:b'', ''roon:d'', ''roon:c''] \<and>
       map_option zone_order_ids later = Some [''roon:b'', ''roon:a'', ''roon:d'', ''roon:c''])"
proof (rule conjI)
  show "zone_order_write p True (zone_order_read lc p rq2 zones file)
     (snd (zone_order_write p True (zone_order_read lc p rq1 zones file) file)) =
   (if zone_order_read lc p rq2 zones file = None
    then (True, snd (zone_order_write p True (zone_order_read lc p rq1 zones file) file))
    else zone_order_write p True (zone_order_read lc p rq2 zones file) file)"
    using second_order_wins
    by (cases "zone_order_read lc p rq1 zones file"; cases "zone_order_read lc p rq2 zones file")
      (simp_all add: zone_order_write_def [of _ _ None])
qed code_simp

text \<open>At startup only what is enabled is started. The workers that the start-up loop calls start on are
  enabled adapters that are nobody's companion, and the companions of such adapters.\<close>

theorem startup_starts_enabled:
  "set (started (co_log (start_all_enabled env ws c))) \<subseteq> set (started (co_log c)) \<union>
     {v. \<exists>w \<in> set ws. is_enabled c w \<and> w \<notin> set (companion_names c) \<and> (v = w \<or> v \<in> set (companions_of c w))}"
  using start_all_started unfolding may_start_def .

text \<open>A failed companion leaves the ones before it running. When a companion fails to start, the
  adapter itself is stopped and nothing else is: every companion started before the failing one is still
  marked as running when the call reports the failure.\<close>

theorem failed_companion_leaves_others:
  assumes "start_companions env w xs c = (Inl e, c')"
  shows "\<exists>ys x zs es. xs = ys @ x # zs \<and> co_log c' = co_log c @ es \<and> (\<forall>v. StopCalled v \<in> set es \<longleftrightarrow> v = w) \<and>
    (\<forall>y \<in> set ys. y \<noteq> w \<longrightarrow> is_registered c y \<longrightarrow> is_running c' y)"
  by (rule failed_companion [OF assms]) blast

theorem failed_companion_leaves_others_witness:
  "let c = register_from_settings (aps_adapters app_settings_default) coordinator_new;
       env = \<lparr>env_can_start = \<lambda>es w. True, env_start = \<lambda>es w. if w = ''upnp'' then Some ''no socket'' else None\<rparr>;
       c' = snd (start_companions env ''roon'' [''lms-cli'', ''upnp''] c)
   in is_running c' ''lms-cli'' \<and> StopCalled ''lms-cli'' \<notin> set (co_log c')"
proof -
  define c where "c = register_from_settings (aps_adapters app_settings_default) coordinator_new"
  define env where "env = \<lparr>env_can_start = \<lambda>(es :: co_effect list) (w :: string). True,
    env_start = \<lambda>(es :: co_effect list) (w :: string). if w = ''upnp'' then Some ''no socket'' else None\<rparr>"
  define r where "r = start_companions env ''roon'' [''lms-cli'', ''upnp''] c"
  have f: "fst r = Inl ''no socket''" "is_running (snd r) ''lms-cli''" "co_log c = []"
    unfolding r_def env_def c_def by code_simp+
  from f(1) have "start_companions env ''roon'' [''lms-cli'', ''upnp''] c = (Inl ''no socket'', snd r)"
    unfolding r_def by (metis prod.collapse)
  from failed_companion_leaves_others [OF this] obtain es where
    "co_log (snd r) = co_log c @ es" "\<forall>v. (StopCalled v \<in> set es) = (v = ''roon'')" by (elim exE conjE)
  then have "StopCalled ''lms-cli'' \<notin> set (co_log (snd r))" by (simp add: f(3))
  with f(2) show ?thesis unfolding r_def env_def c_def Let_def by (rule conjI)
qed

text \<open>Nothing the actor does lowers a retirement floor or moves a watermark back.\<close>

theorem producer_floors_monotone:
  "store_le (ps_store (ps_run rfc3339 ps_init es)) (ps_store (ps_run rfc3339 ps_init (es @ fs)))"
  using ps_run_le [of rfc3339 "ps_run rfc3339 ps_init es" fs] ps_reachable_ok [of rfc3339 es]
  by (simp add: ps_run_def)

text \<open>A change set holds one entry per control and lane, and its generation counts the edits: after any
  sequence of calls the slots are distinct, and the generation has grown by the number of accepted
  edits.\<close>

theorem change_set_slots_and_generation:
  assumes "slots_distinct (cs_entries s)"
  shows "slots_distinct (cs_entries (cs_run s evs)) \<and>
    cs_generation (cs_run s evs) = cs_generation s + of_nat (staged_count s evs)"
  using cs_run_slots [OF assms] cs_run_generation by blast

theorem change_set_slots_and_generation_witness:
  "slots_distinct (cs_entries (cs_run sample_change_set [EvStage (sample_entry ''a'') (Timestamp []),
     EvStage (sample_entry ''a'') (Timestamp []), EvStage (sample_entry ''b'') (Timestamp [])]))"
  using change_set_slots_and_generation [of sample_change_set]
  by (simp add: sample_change_set_def slots_distinct_def)

text \<open>The delays between attempts are exact. Whatever was observed before, every delay is between one
  millisecond and the cap; in an outage that has outlasted the restart window the delays double with every
  failure up to the cap, with no overflow; and the debt is forgiven only by a coherent observation at
  least the stability threshold after another, with no failure between the two.\<close>

theorem recovery_delays_exact:
  fixes config defines "c \<equiv> sanitize_config config"
  assumes "rc_backoff_cap config \<le> DURATION_MAX"
  shows "(let d = fst (on_failure t (observed (recovery_new config) obs)) in MIN_DELAY \<le> d \<and> d \<le> rc_backoff_cap c) \<and>
    ((\<forall>t \<in> set ts. rc_restart_window c < t - t0) \<and> i < length ts \<longrightarrow>
       failure_delays (recovery_new config) (t0 # ts) ! Suc i = min (rc_backoff_cap c) (rc_backoff_initial c * 2 ^ i)) \<and>
    (fst (on_coherent_success t (observed (recovery_new config) obs)) \<longrightarrow>
       (\<exists>h. ObsCoherent h \<in> set (healthy_tail (obs @ [ObsCoherent t])) \<and> rc_stable_threshold config \<le> t - h))"
proof (intro conjI impI)
  have "rv_config (recovery_new config) = c" by (simp add: recovery_new_def c_def Let_def)
  then show "let d = fst (on_failure t (observed (recovery_new config) obs)) in MIN_DELAY \<le> d \<and> d \<le> rc_backoff_cap c"
    using on_failure_delay [OF observed_ok [OF recovery_new_ok], of t config obs] by (simp add: Let_def)
next
  assume "(\<forall>t \<in> set ts. rc_restart_window c < t - t0) \<and> i < length ts"
  then show "failure_delays (recovery_new config) (t0 # ts) ! Suc i = min (rc_backoff_cap c) (rc_backoff_initial c * 2 ^ i)"
    using outage_delays [OF assms(2), of i ts t0] by (simp add: c_def)
next
  assume "fst (on_coherent_success t (observed (recovery_new config) obs))"
  then show "\<exists>h. ObsCoherent h \<in> set (healthy_tail (obs @ [ObsCoherent t])) \<and> rc_stable_threshold config \<le> t - h"
    by (rule forgiven_after_stability)
qed

theorem recovery_delays_exact_witness:
  "failure_delays (recovery_new recovery_config_default) (0 # map (\<lambda>n. n * SECOND) [13, 20, 30, 40, 60, 100]) ! Suc 3 =
     16 * SECOND"
proof -
  define ts where "ts = map (\<lambda>n. n * SECOND) [13, 20, 30, 40, 60, 100]"
  have c: "rc_backoff_cap recovery_config_default \<le> DURATION_MAX"
    by (simp add: recovery_config_default_def SECOND_def DURATION_MAX_def)
  have d: "sanitize_config recovery_config_default = recovery_config_default"
    by (simp add: sanitize_config_def recovery_config_default_def SECOND_def MIN_DELAY_def Let_def)
  have "(\<forall>t \<in> set ts. rc_restart_window recovery_config_default < t - 0) \<and> 3 < length ts"
    by (simp add: ts_def recovery_config_default_def SECOND_def)
  with recovery_delays_exact [OF c, of 0 "[]" ts 0 3] have
    "failure_delays (recovery_new recovery_config_default) (0 # ts) ! Suc 3 =
      min (rc_backoff_cap recovery_config_default) (rc_backoff_initial recovery_config_default * 2 ^ 3)"
    unfolding d by blast
  then show ?thesis unfolding ts_def by (simp add: recovery_config_default_def)
qed

text \<open>Stopping an adapter flushes exactly its own zones: those whose identifier starts with its name
  and a colon. The acknowledgement lists them, no other zone changes, and the adapter's account and
  error are forgotten.\<close>

theorem adapter_flush_exact:
  "let za' = fst (handle_event now (AdapterStopping a why) za);
       ids = adapter_zone_ids a (za_state za)
   in snd (handle_event now (AdapterStopping a why) za) = [ZonesFlushed a ids] \<and>
      set ids = {k. get_zone k za \<noteq> None \<and> starts_with k (a @ '':'')} \<and>
      (\<forall>k. get_zone k za' = (if starts_with k (a @ '':'') then None else get_zone k za)) \<and>
      (\<forall>p. get_provider_account p za' = (if p = a then None else get_provider_account p za)) \<and>
      (\<forall>p. get_adapter_error p za' = (if p = a then None else get_adapter_error p za))"
  using flush_ids [of a "za_state za"] flush_lookup [of a "za_state za"]
  by (simp add: handle_event_def case_prod_beta get_zone_def get_provider_account_def
      get_adapter_error_def on_stopping_def Let_def)

text \<open>A run that has ended never publishes again. Whatever happens afterwards, a document that the
  ended run offers for a producer it owns is refused with the run that is active by then.\<close>

theorem ended_run_never_publishes:
  assumes "\<not> is_active (ps_runs s) x" "po_run x \<le> AdapterRunId (rn_next (ps_runs s))"
    and "unat (rn_next (ps_runs s)) + length es < 2 ^ 64" "owns x (pi_producer_id (pd_producer d))"
  shows "let s' = ps_run rfc3339 s es
    in fst (agg_admit_document rfc3339 (ps_runs s') (Some x) d (ps_store s')) =
       Refused (StaleAdapterRun (po_adapter x) (po_run x) (run_active (ps_runs s') (po_adapter x)))"
proof -
  have "length (run_events es) \<le> length es" by (induction es rule: run_events.induct) auto
  then have "\<not> is_active (ps_runs (ps_run rfc3339 s es)) x"
    using ended_stays_ended [of x "ps_runs s" "run_events es"] assms(1-3) by (simp add: ps_runs_run)
  from stale_run_refused [OF this assms(4)] show ?thesis by (simp add: Let_def)
qed

theorem ended_run_never_publishes_witness:
  "let x = \<lparr>po_adapter = ''hqplayer'', po_run = AdapterRunId 1\<rparr>;
       s = ps_run (\<lambda>s. Some 0) ps_init [PsRun (RunBegin ''hqplayer''), PsRun (RunEnd x)];
       s' = ps_run (\<lambda>s. Some 0) s [PsRun (RunBegin ''hqplayer'')]
   in fst (agg_admit_document (\<lambda>s. Some 0) (ps_runs s') (Some x) (sample_document 1) (ps_store s')) =
      Refused (StaleAdapterRun ''hqplayer'' (AdapterRunId 1) (run_active (ps_runs s') ''hqplayer''))"
proof -
  let ?x = "\<lparr>po_adapter = ''hqplayer'', po_run = AdapterRunId 1\<rparr>"
  let ?s = "ps_run (\<lambda>s. Some 0) ps_init [PsRun (RunBegin ''hqplayer''), PsRun (RunEnd ?x)]"
  have r: "ps_runs ?s = \<lparr>rn_next = 1, rn_live = []\<rparr>" by code_simp
  have "\<not> is_active (ps_runs ?s) ?x" by (simp add: r is_active_def) code_simp
  moreover have "po_run ?x \<le> AdapterRunId (rn_next (ps_runs ?s))"
    by (simp add: r less_eq_adapter_run_id_def)
  moreover have "unat (rn_next (ps_runs ?s)) + length [PsRun (RunBegin ''hqplayer'')] < 2 ^ 64" by (simp add: r)
  moreover have "owns ?x (pi_producer_id (pd_producer (sample_document 1)))" by code_simp
  ultimately have "let s' = ps_run (\<lambda>s. Some 0) ?s [PsRun (RunBegin ''hqplayer'')]
    in fst (agg_admit_document (\<lambda>s. Some 0) (ps_runs s') (Some ?x) (sample_document 1) (ps_store s')) =
       Refused (StaleAdapterRun (po_adapter ?x) (po_run ?x) (run_active (ps_runs s') (po_adapter ?x)))"
    by (rule ended_run_never_publishes)
  then show ?thesis by (simp only: Let_def publication_origin.simps)
qed

text \<open>A correlation answers for the request it was bound to. However the runtime went on, short of
  another insertion under the same correlation, a repeated submission of the same request returns the
  first command's identifier and adds no work, and a different request under it is refused.\<close>

theorem correlation_answers:
  assumes "rt_ok s" "unat (rd_next_id (rs_data s)) + length es < 2 ^ 64"
    and "bound_to (rs_data s) c i rq" "runtime_command_nan_free (rq_command rq)"
    and "list_all (\<lambda>e. \<not> inserts_under c e) es" "rq_correlation_id rq' = Some c"
  shows "let (ans, work, ns, rd) = submit wo rg an rq' (rs_data (rt_run wo s es))
    in work = None \<and> ns = [] \<and>
       ans = (if rq_target rq' = rq_target rq \<and> rq_command rq' = rq_command rq then Inr i
              else Inl (CorrelationConflict c))"
proof -
  have b: "bound_to (rs_data (rt_run wo s es)) c i rq" by (rule run_keeps_bound [OF assms(1-3,5)])
  show ?thesis
  proof (cases "rq_target rq' = rq_target rq \<and> rq_command rq' = rq_command rq")
    case True
    then obtain rd where "submit_lookup wo rq' (rs_data (rt_run wo s es)) = (Inr (Some i), rd)"
      using lookup_bound [OF b assms(6) _ _ assms(4)] by blast
    with True show ?thesis by (simp add: submit_def)
  next
    case False
    then show ?thesis using submit_conflict [OF b assms(6)] by auto
  qed
qed

theorem correlation_answers_witness:
  "fst (submit demo_watch demo_registry Reserved demo_request (rs_data (rt_run demo_watch (rt_run demo_watch runtime_system_new late_failure)
     [RtComplete (demo_work 1) NativeAccepted]))) = Inr (CommandId 1)"
proof -
  let ?s = "rt_run demo_watch runtime_system_new late_failure"
  have "rt_ok ?s" by (rule rt_run_new_ok) (simp add: late_failure_def)
  moreover have "bound_to (rs_data ?s) ''c'' (CommandId 1) demo_request \<and> rd_next_id (rs_data ?s) = 2"
    by (rule late_failure_bound)
  ultimately show ?thesis
    using correlation_answers [of ?s "[RtComplete (demo_work 1) NativeAccepted]" "''c''" "CommandId 1"
        demo_request demo_request demo_watch demo_registry Reserved]
    by (simp add: demo_request_def split: prod.splits)
qed

text \<open>A record is read whole, from the first byte of the stream. The probe takes a prefix of at most 13
  bytes and calls the record a control line exactly if it begins with one of the three roots; the rest of
  a control line is read up to its newline, however the bytes are chunked, and refused exactly if the line
  is longer than the limit or does not end; a binary record of 16 or 32 bytes is its bytes, and no input
  panics.\<close>

theorem record_read_exactly:
  assumes "probe [] bs = Some (c, p, rest)"
  shows "p @ rest = bs \<and> length p \<le> 13 \<and> (c \<longleftrightarrow> is_control bs) \<and>
    (c \<and> concat bufs = rest \<longrightarrow>
      (case first_index 10 bs of
         None \<Rightarrow> \<exists>e. line_loop p bufs = ReadFailed e
       | Some i \<Rightarrow> if Suc i \<le> CONTROL_LIMIT
           then \<exists>left. line_loop p bufs = ReadOk (take (Suc i) bs, left) \<and> concat left = drop (Suc i) bs
           else \<exists>e. line_loop p bufs = ReadFailed e)) \<and>
    (PROBE \<le> len \<longrightarrow> binary p len rest = (if length bs < len then ReadFailed ''unexpected end of file''
       else ReadOk (take len bs, drop len bs)))"
  using probe_result [OF undecided_Nil assms] probe_control_iff(1) [OF assms] control_line [of bs p bufs]
    binary_no_panic [OF assms, of len] assms
  by auto

theorem record_read_exactly_witness:
  "\<exists>left. line_loop (bytes_of ''<?xml'') [bytes_of '' x'', bytes_of (''>'' @ [CHR 0x0A] @ ''next'')] =
     ReadOk (bytes_of (''<?xml x>'' @ [CHR 0x0A]), left) \<and> concat left = bytes_of ''next''"
proof -
  let ?bufs = "[bytes_of '' x'', bytes_of (''>'' @ [CHR 0x0A] @ ''next'')]"
  define bs where "bs = bytes_of (''<?xml x>'' @ [CHR 0x0A] @ ''next'')"
  have p: "probe [] bs = Some (True, bytes_of ''<?xml'', concat ?bufs)" unfolding bs_def by code_simp
  have i: "first_index 10 bs = Some 8" "Suc 8 \<le> CONTROL_LIMIT" unfolding bs_def by code_simp (simp add: CONTROL_LIMIT_def)
  have "take (Suc 8) bs = bytes_of (''<?xml x>'' @ [CHR 0x0A])" "drop (Suc 8) bs = bytes_of ''next''"
    unfolding bs_def by code_simp+
  with record_read_exactly [OF p, of ?bufs] i show ?thesis by (simp only: option.case if_True simp_thms)
qed

text \<open>The zone list is a function of the set of zones. Whatever order the registry iterates its zones
  in, the list comes out the same; it holds every enabled zone that is not hidden, once, under its custom
  name, and nothing else.\<close>

theorem zone_list_deterministic:
  assumes "mset zones = mset zones'" "distinct (map zn_zone_id zones)"
  shows "apply_zone_list_policy lc s zones = apply_zone_list_policy lc s zones' \<and>
    distinct (map zn_zone_id (apply_zone_list_policy lc s zones)) \<and>
    (z \<in> set (apply_zone_list_policy lc s zones) \<longleftrightarrow>
      (\<exists>y \<in> set zones. adapter_enabled (zn_zone_id y) s \<and> zn_zone_id y \<notin> set (hidden_zone_ids s) \<and>
         z = apply_custom_name s y))"
proof (intro conjI)
  show "distinct (map zn_zone_id (apply_zone_list_policy lc s zones))"
    unfolding apply_zone_list_policy_def by (rule distinct_map_filter [OF distinct_managed [OF assms(2)]])
qed (rule policy_of_mset [OF assms], rule policy_members)

theorem zone_list_deterministic_witness:
  "apply_zone_list_policy (\<lambda>x. x) app_settings_default [sample_zone ''roon:b'', sample_zone ''roon:a''] =
   apply_zone_list_policy (\<lambda>x. x) app_settings_default [sample_zone ''roon:a'', sample_zone ''roon:b'']"
  using zone_list_deterministic [of "[sample_zone ''roon:b'', sample_zone ''roon:a'']"
      "[sample_zone ''roon:a'', sample_zone ''roon:b'']" "\<lambda>x. x" app_settings_default]
  by (simp add: sample_zone_def)

end
