(* ===== verification/Hqp_Strand.thy ===== *)
theory Hqp_Strand
  imports Hqp_Coord_Live
begin

text \<open>
  The coordinator and the producer gate together, for an instance that the coordinator has lost: the
  answers to its publications are those the gate gives on the documents it offers, in their order.
\<close>

section \<open>Answers of the gate\<close>

text \<open>
  The log of offered documents, checked against the gate: a document is answered as admitted exactly
  when the gate admits it beside the document held so far, and an admitted document is held from then on.
\<close>

fun answered_by_gate ::
  "instant_parser \<Rightarrow> producer_document option \<Rightarrow> (publication_origin \<times> producer_document \<times> publish_answer) list \<Rightarrow> bool"
where
  "answered_by_gate parse held [] = True"
| "answered_by_gate parse held ((og, d, a) # ps) =
     (case admit parse held d of
        Admitted ad \<Rightarrow> a = PublishAdmitted \<and> answered_by_gate parse (Some (ad_document ad)) ps
      | Refused x \<Rightarrow> a \<noteq> PublishAdmitted \<and> answered_by_gate parse held ps)"

lemma first_document_admitted:
  assumes "observation_ok ob" "\<And>t. parse (tx t) \<noteq> None"
  shows "\<exists>k. admit parse None (numbered tx ob 1 1) = Admitted \<lparr>ad_document = numbered tx ob 1 1, ad_repairs = [], ad_kind = k\<rparr>"
proof -
  have "publishable parse ((native_document tx ob (native_controls ob))\<lparr>pd_operations := []\<rparr>)"
    by (rule native_document_publishable [of ob parse tx, OF assms]) (simp add: audit_ok_def)
  then have "publishable parse (numbered tx ob 1 1)" unfolding numbered_def by simp
  from publishable_admitted [OF this, of None] show ?thesis by (simp add: relate_def)
qed

text \<open>A reservation advances the state revision, and the gate admits the document.\<close>

lemma reserved_document_admitted:
  assumes "observation_ok ob" "\<And>t. parse (tx t) \<noteq> None"
    and m: "materialize (tracked (native_document tx ob (native_controls ob)) 1 1)
      ((numbered tx ob 1 1)\<lparr>pd_operations := [pending_operation r 1]\<rparr>) = (Inr d, tr)"
  shows "\<exists>k. admit parse (Some (numbered tx ob 1 1)) d = Admitted \<lparr>ad_document = d, ad_repairs = [], ad_kind = k\<rparr>"
    and "epoch_of d = ho_producer_epoch ob" "\<exists>cp. pd_revisions d = dr_new cp 2"
proof -
  let ?p = "native_document tx ob (native_controls ob)"
  let ?q = "(numbered tx ob 1 1)\<lparr>pd_operations := [pending_operation r 1]\<rparr>"
  have q: "?q = (?p\<lparr>pd_operations := [pending_operation r 1]\<rparr>)\<lparr>pd_revisions := dr_new 1 1\<rparr>" by (simp add: numbered_def)
  have pub: "publishable parse ?q"
    unfolding q publishable_revisions by (rule native_document_publishable [of ob parse tx, OF assms(1,2)]) (simp add: audit_ok_def)
  have "publishable parse (?p\<lparr>pd_operations := []\<rparr>)"
    by (rule native_document_publishable [of ob parse tx, OF assms(1,2)]) (simp add: audit_ok_def)
  then have ok: "tracker_ok (tracked ?p 1 1)" by (intro tracked_ok publishable_quiet) simp
  have "epoch_of ?q = ho_producer_epoch ob" "epoch_of ?p = ho_producer_epoch ob"
    by (simp_all add: epoch_of_def numbered_def native_document_def)
  then have same: "tk_epoch (tracked ?p 1 1) = Some (epoch_of ?q)" by (simp add: tracked_def)
  have ch: "state_changed (tracked ?p 1 1) ?q"
    by (simp add: state_changed_def differs_from_def tracked_def canonical_state_def numbered_def native_document_def doc_eq_def)
  obtain cp st where d: "d = ?q\<lparr>pd_revisions := dr_new cp st\<rparr>" "st = 2"
    using m by (rule materialize_InrE) (use same ch in \<open>auto simp: tracked_def\<close>)
  show "epoch_of d = ho_producer_epoch ob" "\<exists>cp. pd_revisions d = dr_new cp 2"
    by (simp_all add: d epoch_of_def numbered_def native_document_def) blast
  have "publishable parse d" using pub unfolding d(1) by simp
  moreover have "tk_last_document (tracked ?p 1 1) = Some (numbered tx ob 1 1)" by (simp add: tracked_def numbered_def)
  ultimately show "\<exists>k. admit parse (Some (numbered tx ob 1 1)) d = Admitted \<lparr>ad_document = d, ad_repairs = [], ad_kind = k\<rparr>"
    using publishable_admitted materialize_orders [OF ok publishable_quiet [OF pub] m] by metis
qed

text \<open>Beside it, the first document of a fresh tracker in the same epoch has gone back.\<close>

lemma restarted_document_refused:
  assumes "observation_ok ob" "\<And>t. parse (tx t) \<noteq> None" "epoch_of d = ho_producer_epoch ob" "pd_revisions d = dr_new cp 2"
  shows "admit parse (Some d) (numbered tx ob 1 1) = Refused (RevisionRegressed (dr_new cp 2) (dr_new 1 1))"
proof -
  have "publishable parse ((native_document tx ob (native_controls ob))\<lparr>pd_operations := []\<rparr>)"
    by (rule native_document_publishable [of ob parse tx, OF assms(1,2)]) (simp add: audit_ok_def)
  then have pub: "publishable parse (numbered tx ob 1 1)" unfolding numbered_def by simp
  have "repair_intent (numbered tx ob 1 1) = (numbered tx ob 1 1, [])"
    using pub by (intro repair_of_coherent no_intent_coherent) (simp add: publishable_def)
  moreover have "pi_epoch (pd_producer d) = pi_epoch (pd_producer (numbered tx ob 1 1))"
    using assms(3) by (cases "pi_epoch (pd_producer d)") (simp add: epoch_of_def numbered_def native_document_def)
  then have "ordering d (numbered tx ob 1 1) = Inl (RevisionRegressed (dr_new cp 2) (dr_new 1 1))"
    using assms(4) by (simp add: ordering_def Let_def numbered_def dr_new_le less_producer_epoch_def)
  ultimately show ?thesis by (simp add: admit_envelope_ok [OF publishable_envelope [OF pub]] relate_def)
qed

section \<open>A lost instance\<close>

definition refusing :: "timestamp \<Rightarrow> string \<Rightarrow> coordinator_command \<Rightarrow> coordinator_input" where
  "refusing now e c = \<lparr>ci_now = now, ci_publish = [PublishFailed e], ci_retire = [], ci_command = c\<rparr>"

text \<open>
  A command up to its dispatch, one observation of an older epoch, further observations whose
  publications are refused, and the executor's report.
\<close>

definition stranding ::
  "timestamp \<Rightarrow> hqp_observation \<Rightarrow> hqp_validated_command \<Rightarrow> hqp_command_lease \<Rightarrow> hqp_observation \<Rightarrow>
     (hqp_observation \<times> string) list \<Rightarrow> hqp_command_completion \<Rightarrow> coordinator_input list" where
  "stranding now ob cmd l old later c = [admitting now ManagerStarted] @ prologue now ob cmd l @
     [admitting now (Observed old)] @ map (\<lambda>(ob', e). refusing now e (Observed ob')) later @
     [admitting now (Complete l c)]"

definition runs_to ::
  "instant_text \<Rightarrow> (f64 \<Rightarrow> u64) \<Rightarrow> (json_number \<Rightarrow> string) \<Rightarrow> coordinator_input list \<Rightarrow> hqp_coordinator \<Rightarrow>
     coordinator_reply list \<Rightarrow> hqp_coordinator \<Rightarrow> bool" where
  "runs_to tx bits num_text is co rs co' \<longleftrightarrow> coordinator_replies tx bits num_text is co = rs \<and>
     coordinator_run tx bits num_text is co = co'"

lemma runs_to_Nil: "runs_to tx bits num_text [] co [] co"
  by (simp add: runs_to_def)

lemma runs_to_Cons:
  assumes "coordinator_step tx bits num_text (ci_now i) (ci_command i) (with_answers i co) = (r, co1)"
    "runs_to tx bits num_text is co1 rs co'"
  shows "runs_to tx bits num_text (i # is) co (r # rs) co'"
  using assms by (simp add: runs_to_def coordinator_answer_def coordinator_after_def)

definition lost :: "string \<Rightarrow> publication_origin \<Rightarrow> hqp_coordinator \<Rightarrow> bool" where
  "lost name og co \<longleftrightarrow> (\<exists>a. ready name og a co) \<and> start_of co name = instance_default"

lemma refused_observation:
  assumes "observation_ok ob" "lost (ho_instance_name ob) og co"
  shows "\<exists>co'. coordinator_step tx bits num_text now (Observed ob) (with_answers (refusing now e c) co) =
      (UnitReply (Inl (PublicationFailed e)), co') \<and> lost (ho_instance_name ob) og co' \<and>
    hc_offered co' = hc_offered co @ [(og, numbered tx ob 1 1, PublishFailed e)]"
proof -
  let ?n = "ho_instance_name ob" and ?p = "native_document tx ob (native_controls ob)"
  let ?co = "with_answers (refusing now e c) co"
  have p: "project_native tx ob = Inr ?p" using assms(1) by (simp add: project_native_ok)
  have q: "quiet_document ?p" using project_native_of [OF p] by (simp add: native_of_def)
  have r: "ready ?n og [PublishFailed e] ?co"
    using assms(2) by (auto simp: lost_def ready_def with_answers_def refusing_def)
  have st: "start_of ?co ?n = instance_default" using assms(2) by (simp add: lost_def start_of_def)
  define co1 where "co1 = snd (publish (?p\<lparr>pd_revisions := dr_new 1 1\<rparr>) (drop_instance ?n ?co))"
  have c: "publish (?p\<lparr>pd_revisions := dr_new 1 1\<rparr>) (drop_instance ?n ?co) = (Inl (PublicationFailed e), co1)"
    "ready ?n og [] co1" "hc_offered co1 = hc_offered co @ [(og, numbered tx ob 1 1, PublishFailed e)]"
    using r by (simp_all add: co1_def publish_def ready_def Let_def numbered_def drop_instance_def)
  have "hqp_observed tx ob ?co = (Inl (PublicationFailed e), put_instance ?n instance_default co1)"
    using r st p c(1) empty_instance_observed [OF q, of ob "drop_instance ?n ?co"]
    by (simp add: hqp_observed_def Let_def ready_def retired_after_def forget_retired_def
        settle_deferred_def instance_default_def)
  moreover have rd: "ready ?n og [] (put_instance ?n instance_default co1)" using c(2) by simp
  ultimately have "coordinator_step tx bits num_text now (Observed ob) ?co =
      (UnitReply (Inl (PublicationFailed e)), put_instance ?n instance_default co1)"
    using r by (simp add: observe_step ready_def)
  moreover have "start_of (put_instance ?n instance_default co1) ?n = instance_default" by (simp add: start_of_def)
  ultimately show ?thesis
    using rd c(3) by (intro exI [of _ "put_instance ?n instance_default co1"]) (auto simp: lost_def)
qed

lemma refused_observations:
  assumes "lost name og co"
    and "\<forall>(ob, e) \<in> set later. observation_ok ob \<and> ho_instance_name ob = name"
    and "\<And>co1. lost name og co1 \<Longrightarrow> \<exists>co'. runs_to tx bits num_text is co1 rs co' \<and> hc_offered co' = hc_offered co1"
  shows "\<exists>co'. runs_to tx bits num_text (map (\<lambda>(ob, e). refusing now e (Observed ob)) later @ is) co
      (map (\<lambda>(ob, e). UnitReply (Inl (PublicationFailed e))) later @ rs) co' \<and>
    hc_offered co' = hc_offered co @ map (\<lambda>(ob, e). (og, numbered tx ob 1 1, PublishFailed e)) later"
  using assms(1,2)
proof (induction later arbitrary: co)
  case Nil
  then show ?case using assms(3) by simp
next
  case (Cons x later)
  obtain ob e where x: "x = (ob, e)" by (cases x)
  have ob: "observation_ok ob" "ho_instance_name ob = name" using Cons.prems(2) by (auto simp: x)
  obtain co1 where 1: "coordinator_step tx bits num_text now (Observed ob) (with_answers (refusing now e (Observed ob)) co) =
      (UnitReply (Inl (PublicationFailed e)), co1)" "lost name og co1"
    "hc_offered co1 = hc_offered co @ [(og, numbered tx ob 1 1, PublishFailed e)]"
    using refused_observation [OF ob(1), of og co tx bits num_text now e "Observed ob"] Cons.prems(1) ob(2) by blast
  have "\<forall>(ob, e) \<in> set later. observation_ok ob \<and> ho_instance_name ob = name" using Cons.prems(2) by simp
  from Cons.IH [OF 1(2) this] obtain co2 where
    2: "runs_to tx bits num_text (map (\<lambda>(ob, e). refusing now e (Observed ob)) later @ is) co1
      (map (\<lambda>(ob, e). UnitReply (Inl (PublicationFailed e))) later @ rs) co2"
    "hc_offered co2 = hc_offered co1 @ map (\<lambda>(ob, e). (og, numbered tx ob 1 1, PublishFailed e)) later"
    by blast
  have "runs_to tx bits num_text (refusing now e (Observed ob) #
      (map (\<lambda>(ob, e). refusing now e (Observed ob)) later @ is)) co
      (UnitReply (Inl (PublicationFailed e)) # (map (\<lambda>(ob, e). UnitReply (Inl (PublicationFailed e))) later @ rs)) co2"
    by (rule runs_to_Cons [OF _ 2(1)]) (use 1(1) in \<open>simp add: refusing_def\<close>)
  then show ?case using 1(3) 2(2) by (intro exI [of _ co2]) (simp add: x)
qed

text \<open>The executor's report on a command the instance no longer knows.\<close>

lemma lost_completion:
  assumes "lost name og co" "le_producer_id l = ''hqplayer:'' @ name"
  shows "\<exists>co'. coordinator_step tx bits num_text now (Complete l c) (with_answers i co) =
      (OperationReply (Inl StaleLease), co') \<and> hc_offered co' = hc_offered co"
proof -
  let ?co = "with_answers i co"
  have s: "strip_prefix (le_producer_id l) ''hqplayer:'' = Some name" unfolding assms(2) by (simp only: hqplayer_prefix)
  have d: "instance_of ?co name = None \<or> instance_of ?co name = Some instance_default"
    using assms(1) by (auto simp: lost_def start_of_def split: option.splits)
  have "validate_lease l ?co \<noteq> Inr ()"
    using d s by (auto simp: validate_lease_def lease_instance_def instance_default_def tracker_default_def)
  moreover have "\<not> is_exact_fenced_pending l ?co"
    using d s by (auto simp: is_exact_fenced_pending_def lease_instance_def instance_default_def)
  moreover have "retained_terminal_operation l ?co = None"
    using assms(1) s by (auto simp: retained_terminal_operation_def lost_def ready_def with_answers_def)
  ultimately have "complete now l c ?co = (Inl StaleLease, ?co)" by (simp add: complete_def)
  moreover have "\<not> hc_panicked ?co" using assms(1) by (auto simp: lost_def ready_def with_answers_def)
  ultimately show ?thesis by (simp add: coordinator_step_def)
qed

section \<open>Observation, reservation and dispatch, with what they offer\<close>

lemma prologue_offers:
  assumes "observation_ok ob" "target_fits ob" "preflight bits num_text (own_snapshot (numbered tx ob 1 1)) r = Inr cmd"
    "ready (ho_instance_name ob) og [PublishAdmitted] co" "instance_of co (ho_instance_name ob) = None"
  defines "l \<equiv> first_lease ob (po_run og) r"
  obtains co' a st d tr where
    "\<And>is rs co2. runs_to tx bits num_text is co' rs co2 \<Longrightarrow>
       runs_to tx bits num_text (prologue now ob cmd l @ is) co (prologue_replies l r @ rs) co2"
    "ready (ho_instance_name ob) og a co'" "instance_of co' (ho_instance_name ob) = Some st" "first_pending ob l r {1} st"
    "materialize (tracked (native_document tx ob (native_controls ob)) 1 1)
       ((numbered tx ob 1 1)\<lparr>pd_operations := [pending_operation r 1]\<rparr>) = (Inr d, tr)"
    "hc_offered co' = hc_offered co @ [(og, numbered tx ob 1 1, PublishAdmitted), (og, d, PublishAdmitted)]"
proof -
  let ?n = "ho_instance_name ob"
  let ?i1 = "admitting now (Observed ob)" and ?i2 = "admitting now (Reserve cmd)" and ?i3 = "admitting now (BeginDispatch l)"
  have "hr_key r = key_of (numbered tx ob 1 1)" using assms(3) by (auto simp: preflight_iff actionable_numbered)
  then have pid: "pk_producer_id (hr_key r) = ''hqplayer:'' @ ?n"
    by (simp add: key_of_def numbered_def native_document_def)
  have i: "instance_of (with_answers ?i1 co) ?n = None" using assms(5) by simp
  obtain co1 where 1: "coordinator_step tx bits num_text now (Observed ob) (with_answers ?i1 co) = (UnitReply (Inr ()), co1)"
    "ready ?n og [] co1" "instance_of co1 ?n = Some (fresh_instance tx ob)"
    "hc_offered co1 = hc_offered co @ [(og, numbered tx ob 1 1, PublishAdmitted)]"
    using first_observation [OF assms(1) ready_admitting [OF assms(4)] i] unfolding offered_answers by blast
  have i1: "instance_of (with_answers ?i2 co1) ?n = Some (fresh_instance tx ob)" using 1(3) by simp
  obtain co2 st2 d tr where 2: "coordinator_step tx bits num_text now (Reserve cmd) (with_answers ?i2 co1) =
      (ReservationReply (Inr \<lparr>rv_lease = l, rv_operation = pending_operation r 1, rv_disposition = NewReservation\<rparr>), co2)"
    "ready ?n og [] co2" "instance_of co2 ?n = Some st2" "first_pending ob l r {} st2"
    "materialize (tracked (native_document tx ob (native_controls ob)) 1 1)
       ((numbered tx ob 1 1)\<lparr>pd_operations := [pending_operation r 1]\<rparr>) = (Inr d, tr)"
    "hc_offered co2 = hc_offered co1 @ [(og, d, PublishAdmitted)]"
    using first_reservation [OF assms(1-3) ready_admitting [OF 1(2)] i1] unfolding l_def offered_answers by blast
  have i2: "instance_of (with_answers ?i3 co2) ?n = Some st2" using 2(3) by simp
  obtain co3 st3 where 3: "coordinator_step tx bits num_text now (BeginDispatch l) (with_answers ?i3 co2) = (UnitReply (Inr ()), co3)"
    "ready ?n og [PublishAdmitted] co3" "instance_of co3 ?n = Some st3" "first_pending ob l r {1} st3" "hc_offered co3 = hc_offered co2"
    using first_dispatch [OF ready_admitting [OF 2(2)] i2 pid 2(4) [unfolded l_def]] unfolding l_def offered_answers by blast
  have "runs_to tx bits num_text (prologue now ob cmd l @ is) co (prologue_replies l r @ rs) c"
    if "runs_to tx bits num_text is co3 rs c" for "is" rs c
    unfolding prologue_def prologue_replies_def append_Cons append_Nil
    by (intro runs_to_Cons [where ?co1.0 = co1] runs_to_Cons [where ?co1.0 = co2] runs_to_Cons [where ?co1.0 = co3] that)
      (use 1(1) 2(1) 3(1) in \<open>simp_all add: admitting_def\<close>)
  moreover have "hc_offered co3 = hc_offered co @ [(og, numbered tx ob 1 1, PublishAdmitted), (og, d, PublishAdmitted)]"
    using 1(4) 2(6) 3(5) by simp
  ultimately show ?thesis using that 3(2-4) 2(5) by blast
qed

lemma dropped_lost: "ready name og a co \<Longrightarrow> instance_of co name = None \<Longrightarrow> lost name og co"
  by (auto simp: lost_def start_of_def)

text \<open>What the gate says to the two documents of the first run and to every later one.\<close>

lemma all_refused:
  assumes "\<forall>(ob', e) \<in> set later. admit parse (Some d) (numbered tx ob' 1 1) = Refused (x ob')"
  shows "answered_by_gate parse (Some d) (map (\<lambda>(ob', e). (og, numbered tx ob' 1 1, PublishFailed e)) later)"
  using assms by (induction later) auto

lemma strand_answered:
  assumes "observation_ok ob" "\<And>t. parse (tx t) \<noteq> None"
    "materialize (tracked (native_document tx ob (native_controls ob)) 1 1)
       ((numbered tx ob 1 1)\<lparr>pd_operations := [pending_operation r 1]\<rparr>) = (Inr d, tr)"
    "\<forall>(ob', e) \<in> set later. observation_ok ob' \<and> ho_producer_epoch ob' = ho_producer_epoch ob"
  shows "answered_by_gate parse None ([(og, numbered tx ob 1 1, PublishAdmitted), (og, d, PublishAdmitted)] @
    map (\<lambda>(ob', e). (og, numbered tx ob' 1 1, PublishFailed e)) later)"
proof -
  note res = reserved_document_admitted [where parse = parse, OF assms(1-3)]
  obtain cp where cp: "pd_revisions d = dr_new cp 2" using res(3) by blast
  have "\<forall>(ob', e) \<in> set later.
      admit parse (Some d) (numbered tx ob' 1 1) = Refused (RevisionRegressed (dr_new cp 2) (dr_new 1 1))"
    using assms(4) restarted_document_refused [where parse = parse and tx = tx, OF _ assms(2) _ cp] res(2) by fastforce
  from all_refused [OF this] show ?thesis
    using first_document_admitted [where parse = parse and tx = tx, OF assms(1,2)] res(1) by auto
qed

end
