(* ===== verification/Runtime_Race.thy ===== *)
theory Runtime_Race
  imports Runtime_Claims "HOL-Library.Multiset"
begin

text \<open>
  Submissions under interleaving: what stands in a run between the parts of a submission, and does not
  concern its command, leaves the submission as it is. With this, two submissions of one correlation
  are followed from their lookups to their dispatch.
\<close>

section \<open>Events that do not concern a command\<close>

text \<open>The events that handle the command: its admission, dispatch, refusal, expiry and completion.\<close>

fun concerns :: "command_id \<Rightarrow> rt_event \<Rightarrow> bool" where
  "concerns i (RtAdmit rg an ir) = (fst ir = i)"
| "concerns i (RtBegin now w) = (ew_id w = i)"
| "concerns i (RtRefuse w d) = (ew_id w = i)"
| "concerns i (RtExpire j) = (j = i)"
| "concerns i (RtComplete w res) = (ew_id w = i)"
| "concerns i e = False"

lemma not_dispatched_other:
  "j \<noteq> i \<Longrightarrow> status_of (snd (not_dispatched wo j d rd)) i = status_of rd i"
  by (simp add: not_dispatched_def rt_transition_status)

lemma admit_other:
  "j \<noteq> i \<Longrightarrow> status_of (snd (snd (submit_admit wo rg an j rq rd))) i = status_of rd i"
  by (simp add: submit_admit_def not_dispatched_other split: option.split reserve_answer.split)

lemma begin_other:
  assumes "ew_id w \<noteq> i"
  shows "status_of (snd (snd (begin_dispatch wo now w rd))) i = status_of rd i"
proof -
  obtain won ns rd1 where t: "rt_transition wo (ew_id w) (\<lambda>s. if s = Queued then Some Dispatched else None) rd =
      (won, ns, rd1)" by (rule prod_cases3)
  have "status_of rd1 i = status_of rd i"
    using assms rt_transition_status [of wo "ew_id w" "\<lambda>s. if s = Queued then Some Dispatched else None" rd i] t by simp
  then show ?thesis
    using assms t not_dispatched_other [of "ew_id w" i wo _ rd]
    by (simp add: begin_dispatch_def Let_def split_beta)
qed

lemma complete_other:
  "j \<noteq> i \<Longrightarrow> status_of (snd (complete_native wo j res rd)) i = status_of rd i"
  by (cases res) (simp_all add: complete_native_def set_status_status rt_transition_status)

lemma timeout_queued:
  "status_of rd i = Some Queued \<Longrightarrow> status_of (snd (confirmation_timeout wo j rd)) i = Some Queued"
  by (auto simp: confirmation_timeout_def rt_transition_status)

lemma outcome_queued:
  "status_of rd i = Some Queued \<Longrightarrow> status_of (snd (record_projection_outcome wo src cb c rd)) i = Some Queued"
  unfolding outcome_data
  by (auto simp: status_of_put_status split: projection_commit.split option.split) (auto simp: status_of_def)

lemma insert_other:
  assumes "ledger_ok rd" "status_of rd i = Some st"
  shows "status_of (snd (submit_insert wo rq rd)) i = Some st" "fst (submit_insert wo rq rd) \<noteq> i"
proof -
  have "cmd_no i < rd_next_id rd" using assms by (auto simp: ledger_ok_def status_of_def)
  then show "fst (submit_insert wo rq rd) \<noteq> i" by (auto simp: submit_insert_def Let_def)
  then show "status_of (snd (submit_insert wo rq rd)) i = Some st"
    using assms(2) by (auto simp: submit_insert_def insert_record_def status_of_def Let_def split: option.split)
qed

lemma step_queued:
  assumes "ledger_ok (rs_data s)" "status_of (rs_data s) i = Some Queued" "\<not> concerns i e"
  shows "status_of (rs_data (rt_step wo s e)) i = Some Queued"
proof (cases e)
  case (RtInsert rq)
  then show ?thesis using assms insert_other [OF assms(1,2), of wo rq] by (simp add: split_beta Let_def)
next
  case (RtBegin now w)
  then show ?thesis
    using assms begin_other [of w i wo now "rs_data s"] by (auto split: prod.split sum.split)
qed (use assms in \<open>auto simp: split_beta Let_def lookup_status admit_other refuse_def dispatch_expired_def
    not_dispatched_other complete_other timeout_queued outcome_queued\<close>)

section \<open>What a submission carries\<close>

text \<open>
  Submissions past their lookup, inserted commands and queued work, with every command still queued.
\<close>

definition carried ::
  "string \<Rightarrow> command_request multiset \<Rightarrow> (command_id \<times> command_request) set \<Rightarrow> endpoint_work set \<Rightarrow>
     'w runtime_system \<Rightarrow> bool" where
  "carried c A I W s \<longleftrightarrow> rt_ok s \<and> A \<subseteq># mset (rs_pending s) \<and> (\<forall>rq \<in># A. rq_correlation_id rq = Some c) \<and>
     I \<subseteq> set (rs_inserted s) \<and> W \<subseteq> set (rs_works s) \<and>
     (\<forall>i \<in> fst ` I \<union> ew_id ` W. status_of (rs_data s) i = Some Queued)"

lemma other_removed: "x \<in> set ys \<Longrightarrow> x \<noteq> y \<Longrightarrow> x \<in> set (remove1 y ys)"
  by simp

lemma pending_kept:
  assumes "A \<subseteq># mset (rs_pending s)" "\<forall>rq \<in># A. rq_correlation_id rq = Some c" "\<not> inserts_under c e"
  shows "A \<subseteq># mset (rs_pending (rt_step wo s e))"
proof (cases e)
  case (RtSubmit rq)
  then show ?thesis using assms(1) by (auto simp: split_beta Let_def intro: subset_mset.order_trans)
next
  case (RtInsert rq)
  then have "rq \<notin># A" using assms(2,3) by auto
  then have "A \<subseteq># mset (rs_pending s) - {#rq#}"
    using assms(1) by (simp add: subseteq_mset_def count_eq_zero_iff [symmetric])
  then show ?thesis using assms(1) RtInsert by (simp add: split_beta Let_def)
next
  case (RtBegin now w)
  then show ?thesis using assms(1) by (auto split: prod.split sum.split)
qed (use assms(1) in \<open>auto simp: split_beta Let_def\<close>)

lemma inserted_kept:
  "\<not> concerns (fst ir) e \<Longrightarrow> ir \<in> set (rs_inserted s) \<Longrightarrow> ir \<in> set (rs_inserted (rt_step wo s e))"
  by (cases e) (auto simp: split_beta Let_def split: prod.split sum.split intro!: other_removed)

lemma works_kept:
  "\<not> concerns (ew_id w) e \<Longrightarrow> w \<in> set (rs_works s) \<Longrightarrow> w \<in> set (rs_works (rt_step wo s e))"
  by (cases e) (auto simp: split_beta Let_def split: prod.split sum.split option.split intro!: other_removed)

definition room :: "nat \<Rightarrow> 'w runtime_system \<Rightarrow> bool" where
  "room n s \<longleftrightarrow> unat (rd_next_id (rs_data s)) + n < 2 ^ 64"

lemma room_next: "room (Suc n) s \<Longrightarrow> rd_next_id (rs_data s) \<noteq> - 1 \<and> room n (rt_step wo s e)"
  using below_wrap [of "rd_next_id (rs_data s)" n] rt_step_next [of wo s e] unat_succ_le [of "rd_next_id (rs_data s)"]
  by (auto simp: room_def)

lemma carriedD:
  assumes "carried c A I W s"
  shows "rt_ok s" "ledger_ok (rs_data s)" "A \<subseteq># mset (rs_pending s)" "\<forall>rq \<in># A. rq_correlation_id rq = Some c"
    "ir \<in> I \<Longrightarrow> ir \<in> set (rs_inserted s)" "w \<in> W \<Longrightarrow> w \<in> set (rs_works s)"
    "i \<in> fst ` I \<union> ew_id ` W \<Longrightarrow> status_of (rs_data s) i = Some Queued"
proof -
  note c = assms [unfolded carried_def]
  show "rt_ok s" using c by simp
  then show "ledger_ok (rs_data s)" by (rule rt_ok_fields(1))
  show "A \<subseteq># mset (rs_pending s)" "\<forall>rq \<in># A. rq_correlation_id rq = Some c" using c by simp_all
  show "ir \<in> I \<Longrightarrow> ir \<in> set (rs_inserted s)" "w \<in> W \<Longrightarrow> w \<in> set (rs_works s)" using c by blast+
  show "i \<in> fst ` I \<union> ew_id ` W \<Longrightarrow> status_of (rs_data s) i = Some Queued" using c by blast
qed

lemma carriedI:
  assumes "rt_ok s" "A \<subseteq># mset (rs_pending s)" "\<forall>rq \<in># A. rq_correlation_id rq = Some c"
    "\<And>ir. ir \<in> I \<Longrightarrow> ir \<in> set (rs_inserted s)" "\<And>w. w \<in> W \<Longrightarrow> w \<in> set (rs_works s)"
    "\<And>i. i \<in> fst ` I \<union> ew_id ` W \<Longrightarrow> status_of (rs_data s) i = Some Queued"
  shows "carried c A I W s"
  unfolding carried_def using assms by blast

lemma carried_step:
  assumes "carried c A I W s" "rd_next_id (rs_data s) \<noteq> - 1" "\<not> inserts_under c e"
    "\<forall>i \<in> fst ` I \<union> ew_id ` W. \<not> concerns i e"
  shows "carried c A I W (rt_step wo s e)"
proof (rule carriedI)
  note d = carriedD [OF assms(1)]
  show "rt_ok (rt_step wo s e)" by (rule rt_ok_step [OF d(1) assms(2)])
  show "A \<subseteq># mset (rs_pending (rt_step wo s e))" by (rule pending_kept [OF d(3,4) assms(3)])
  show "\<forall>rq \<in># A. rq_correlation_id rq = Some c" by (rule d(4))
  show "ir \<in> set (rs_inserted (rt_step wo s e))" if "ir \<in> I" for ir
    using assms(4) that by (intro inserted_kept d(5)) auto
  show "w \<in> set (rs_works (rt_step wo s e))" if "w \<in> W" for w
    using assms(4) that by (intro works_kept d(6)) auto
  show "status_of (rs_data (rt_step wo s e)) i = Some Queued" if "i \<in> fst ` I \<union> ew_id ` W" for i
    using assms(4) that by (intro step_queued d(2,7)) auto
qed

lemma carried_run:
  assumes "carried c A I W s" "room (length es + n) s" "list_all (\<lambda>e. \<not> inserts_under c e) es"
    "\<forall>i \<in> fst ` I \<union> ew_id ` W. list_all (\<lambda>e. \<not> concerns i e) es"
  shows "carried c A I W (rt_run wo s es) \<and> room n (rt_run wo s es)"
  using assms
proof (induction es arbitrary: s)
  case (Cons e es)
  have r: "room (Suc (length es + n)) s" using Cons.prems(2) by simp
  have "carried c A I W (rt_step wo s e)"
    using Cons.prems room_next [OF r] by (intro carried_step) auto
  then show ?case
    using Cons.IH [of "rt_step wo s e"] Cons.prems(3,4) room_next [OF r, of wo e] by (simp add: rt_run_def)
qed (simp add: rt_run_def)

section \<open>The parts of a submission\<close>

text \<open>A correlation no record stands under stays free until an insertion under it.\<close>

definition unused :: "string \<Rightarrow> 'w runtime_system \<Rightarrow> bool" where
  "unused c s \<longleftrightarrow> map_of (rd_correlations (rs_data s)) c = None"

lemma step_correlations:
  fixes s :: "'w runtime_system"
  assumes "\<not> inserts_under c e"
  shows "map_of (rd_correlations (rs_data (rt_step wo s e))) c = map_of (rd_correlations (rs_data s)) c"
proof -
  have sr: "map_of (rd_correlations b) c = map_of (rd_correlations a) c" if "same_requests a b" for a b :: "'w runtime_data"
    using that by (simp add: same_requests_def)
  show ?thesis
  proof (cases e)
    case (RtSubmit rq)
    then show ?thesis using sr [OF calm_same [OF ledger_calm_lookup]] by (simp add: split_beta Let_def)
  next
    case (RtInsert rq)
    then show ?thesis
      using assms by (auto simp: submit_insert_def insert_record_def Let_def split: option.split)
  next
    case (RtAdmit rg an ir)
    then show ?thesis using sr [OF calm_same [OF ledger_calm_admit]] by (simp add: split_beta Let_def)
  next
    case (RtBegin now w)
    then show ?thesis using sr [OF begin_same_requests] by (auto split: prod.split sum.split) (metis snd_conv)+
  qed (use sr [OF outcome_same_requests] sr [OF complete_same_requests] sr [OF calm_same [OF ledger_calm_not_dispatched]]
      sr [OF calm_same [OF ledger_calm_timeout]] in \<open>auto simp: refuse_def dispatch_expired_def\<close>)
qed

lemma run_correlations:
  "list_all (\<lambda>e. \<not> inserts_under c e) es \<Longrightarrow>
     map_of (rd_correlations (rs_data (rt_run wo s es))) c = map_of (rd_correlations (rs_data s)) c"
  by (induction es arbitrary: s) (simp_all add: rt_run_def step_correlations)

lemma submission_looked_up:
  assumes "carried c A I W s" "unused c s" "rq_correlation_id rq = Some c" "rd_next_id (rs_data s) \<noteq> - 1"
  shows "carried c (add_mset rq A) I W (rt_step wo s (RtSubmit rq)) \<and> unused c (rt_step wo s (RtSubmit rq))"
proof -
  have l: "submit_lookup wo rq (rs_data s) = (Inr None, rs_data s)"
    using assms(2,3) by (simp add: submit_lookup_def ticket_for_correlation_def unused_def)
  have "rt_ok (rt_step wo s (RtSubmit rq))" using assms(1,4) by (intro rt_ok_step) (simp_all add: carried_def)
  then show ?thesis using assms(1-3) l by (simp add: carried_def unused_def)
qed

lemma submission_inserted:
  assumes "carried c (add_mset rq A) I W s" "rd_next_id (rs_data s) \<noteq> - 1"
  defines "i \<equiv> CommandId (rd_next_id (rs_data s))"
  shows "carried c A (insert (i, rq) I) W (rt_step wo s (RtInsert rq))" "i \<notin> fst ` I \<union> ew_id ` W"
    "map_of (rd_correlations (rs_data (rt_step wo s (RtInsert rq)))) c = Some i"
proof -
  let ?s = "rt_step wo s (RtInsert rq)"
  note d = carriedD [OF assms(1)]
  have m: "rq \<in> set (rs_pending s)" "A \<subseteq># mset (rs_pending s) - {#rq#}"
    using d(3) unfolding insert_subset_eq_iff by simp_all
  have q: "rq_correlation_id rq = Some c" using d(4) by simp
  obtain rd where rd: "submit_insert wo rq (rs_data s) = (i, rd)"
    "rd = insert_record wo i rq ((rs_data s)\<lparr>rd_next_id := rd_next_id (rs_data s) + 1\<rparr>)"
    by (simp add: submit_insert_def i_def Let_def)
  have s: "?s = s\<lparr>rs_data := rd, rs_pending := remove1 rq (rs_pending s), rs_inserted := (i, rq) # rs_inserted s\<rparr>"
    using m(1) rd(1) by simp
  have st: "status_of rd j = Some Queued" "i \<noteq> j" if "j \<in> fst ` I \<union> ew_id ` W" for j
    using insert_other [OF d(2) d(7) [OF that], of wo rq] rd(1) by simp_all
  show "i \<notin> fst ` I \<union> ew_id ` W" using st(2) by blast
  show "map_of (rd_correlations (rs_data ?s)) c = Some i"
    using q unfolding s rd(2) by (simp add: insert_record_def Let_def)
  have new: "status_of rd i = Some Queued" using q by (simp add: rd(2) insert_record_def status_of_def Let_def)
  show "carried c A (insert (i, rq) I) W ?s"
  proof (rule carriedI)
    show "rt_ok ?s" by (rule rt_ok_step [OF d(1) assms(2)])
    show "A \<subseteq># mset (rs_pending ?s)" using m(2) unfolding s by simp
    show "\<forall>rq \<in># A. rq_correlation_id rq = Some c" using d(4) by simp
    show "ir \<in> set (rs_inserted ?s)" if "ir \<in> insert (i, rq) I" for ir
      using that d(5) [of ir] unfolding s by auto
    show "w \<in> set (rs_works ?s)" if "w \<in> W" for w using d(6) [OF that] unfolding s by simp
    show "status_of (rs_data ?s) j = Some Queued" if "j \<in> fst ` insert (i, rq) I \<union> ew_id ` W" for j
      using that st(1) [of j] new unfolding s by auto
  qed
qed

lemma submission_admitted:
  assumes "carried c A (insert (i, rq) I) W s" "i \<notin> fst ` I" "rd_next_id (rs_data s) \<noteq> - 1"
    "route rg (rq_target rq) = Some slot" "\<not> rg_flags rg ! es_reconfiguring slot"
  shows "carried c A I (insert \<lparr>ew_request = rq, ew_id = i\<rparr> W) (rt_step wo s (RtAdmit rg Reserved (i, rq)))"
proof -
  let ?s = "rt_step wo s (RtAdmit rg Reserved (i, rq))"
  note d = carriedD [OF assms(1)]
  have s: "?s = s\<lparr>rs_data := rs_data s, rs_inserted := remove1 (i, rq) (rs_inserted s),
      rs_works := \<lparr>ew_request = rq, ew_id = i\<rparr> # rs_works s\<rparr>"
    using d(5) [of "(i, rq)"] assms(4,5) by (simp add: submit_admit_def)
  show ?thesis
  proof (rule carriedI)
    show "rt_ok ?s" by (rule rt_ok_step [OF d(1) assms(3)])
    show "A \<subseteq># mset (rs_pending ?s)" using d(3) unfolding s by simp
    show "\<forall>rq \<in># A. rq_correlation_id rq = Some c" by (rule d(4))
    show "ir \<in> set (rs_inserted ?s)" if "ir \<in> I" for ir
    proof -
      have "ir \<noteq> (i, rq)" using that assms(2) by force
      moreover have "ir \<in> set (rs_inserted s)" using that by (intro d(5)) simp
      ultimately show ?thesis unfolding s by (simp add: other_removed)
    qed
    show "w \<in> set (rs_works ?s)" if "w \<in> insert \<lparr>ew_request = rq, ew_id = i\<rparr> W" for w
      using that d(6) [of w] unfolding s by auto
    show "status_of (rs_data ?s) j = Some Queued" if "j \<in> fst ` I \<union> ew_id ` insert \<lparr>ew_request = rq, ew_id = i\<rparr> W" for j
      using that d(7) [of j] unfolding s by auto
  qed
qed

lemma submission_begun:
  assumes "carried c A I (insert w W) s" "ew_id w \<notin> fst ` I \<union> ew_id ` W" "rd_next_id (rs_data s) \<noteq> - 1"
    "now < cd_dispatch_by (rq_deadlines (ew_request w))"
  shows "carried c A I W (rt_step wo s (RtBegin now w))"
    "rs_dispatched (rt_step wo s (RtBegin now w)) = ew_id w # rs_dispatched s"
proof -
  let ?s = "rt_step wo s (RtBegin now w)"
  note d = carriedD [OF assms(1)]
  obtain rec where rec: "map_of (rd_commands (rs_data s)) (ew_id w) = Some rec" "cr_status rec = Queued"
    using d(7) [of "ew_id w"] by (auto simp: status_of_def)
  have b: "begin_dispatch wo now w (rs_data s) =
      (Inr w, [CommandStateChanged (ew_id w) Dispatched], put_status wo (ew_id w) rec Dispatched (rs_data s))"
    using assms(4) rec by (simp add: begin_dispatch_def rt_transition_def)
  have s: "?s = s\<lparr>rs_data := put_status wo (ew_id w) rec Dispatched (rs_data s), rs_works := remove1 w (rs_works s),
      rs_permits := w # rs_permits s, rs_dispatched := ew_id w # rs_dispatched s\<rparr>"
    using d(6) [of w] b by simp
  show "rs_dispatched ?s = ew_id w # rs_dispatched s" unfolding s by simp
  show "carried c A I W ?s"
  proof (rule carriedI)
    show "rt_ok ?s" by (rule rt_ok_step [OF d(1) assms(3)])
    show "A \<subseteq># mset (rs_pending ?s)" using d(3) unfolding s by simp
    show "\<forall>rq \<in># A. rq_correlation_id rq = Some c" by (rule d(4))
    show "ir \<in> set (rs_inserted ?s)" if "ir \<in> I" for ir using d(5) [OF that] unfolding s by simp
    show "w' \<in> set (rs_works ?s)" if "w' \<in> W" for w'
    proof -
      have "w' \<noteq> w" using that assms(2) by force
      then show ?thesis using that d(6) [of w'] unfolding s by simp
    qed
    show "status_of (rs_data ?s) j = Some Queued" if "j \<in> fst ` I \<union> ew_id ` W" for j
    proof -
      have "j \<noteq> ew_id w" using that assms(2) by blast
      then show ?thesis using that d(7) [of j] unfolding s by (auto simp: status_of_put_status [OF rec(1)])
    qed
  qed
qed

lemma dispatched_kept: "i \<in> set (rs_dispatched s) \<Longrightarrow> i \<in> set (rs_dispatched (rt_run wo s es))"
proof (induction es arbitrary: s)
  case (Cons e es)
  have "i \<in> set (rs_dispatched (rt_step wo s e))"
    using Cons.prems by (cases e) (auto simp: split_beta Let_def split: prod.split sum.split)
  then show ?case using Cons.IH by (simp add: rt_run_def)
qed (simp add: rt_run_def)

text \<open>Events that neither insert under the correlation nor handle one of the commands.\<close>

definition apart :: "string \<Rightarrow> command_id set \<Rightarrow> rt_event list \<Rightarrow> bool" where
  "apart c J es \<longleftrightarrow> list_all (\<lambda>e. \<not> inserts_under c e \<and> (\<forall>i \<in> J. \<not> concerns i e)) es"

lemma apart_run:
  assumes "carried c A I W s" "room (length es + n) s" "apart c J es" "fst ` I \<union> ew_id ` W \<subseteq> J"
  shows "carried c A I W (rt_run wo s es)" "room n (rt_run wo s es)"
    "map_of (rd_correlations (rs_data (rt_run wo s es))) c = map_of (rd_correlations (rs_data s)) c"
proof -
  have "list_all (\<lambda>e. \<not> inserts_under c e) es" "\<forall>i \<in> fst ` I \<union> ew_id ` W. list_all (\<lambda>e. \<not> concerns i e) es"
    using assms(3,4) unfolding apart_def by (auto simp: list_all_iff)
  with carried_run [OF assms(1,2)] run_correlations
  show "carried c A I W (rt_run wo s es)" "room n (rt_run wo s es)"
    "map_of (rd_correlations (rs_data (rt_run wo s es))) c = map_of (rd_correlations (rs_data s)) c"
    by blast+
qed

lemma rt_run_Cons: "rt_run wo s (e # es) = rt_run wo (rt_step wo s e) es"
  by (simp add: rt_run_def)

text \<open>Both lookups, one after the other, on a correlation nobody has used.\<close>

lemma both_looked_up:
  assumes "rt_ok s" "room (Suc (length e1 + Suc (length e2 + n))) s"
    "map_of (rd_correlations (rs_data s)) c = None" "rq_correlation_id rq1 = Some c" "rq_correlation_id rq2 = Some c"
    "apart c {} e1" "apart c {} e2"
    "s1 = rt_run wo (rt_step wo (rt_run wo (rt_step wo s (RtSubmit rq1)) e1) (RtSubmit rq2)) e2"
  shows "carried c {#rq1, rq2#} {} {} s1 \<and> room n s1"
proof -
  have "carried c {#} {} {} s" using assms(1) by (simp add: carried_def)
  then have 1: "carried c {#rq1#} {} {} (rt_step wo s (RtSubmit rq1))" "unused c (rt_step wo s (RtSubmit rq1))"
    "room (length e1 + Suc (length e2 + n)) (rt_step wo s (RtSubmit rq1))"
    using submission_looked_up [of c "{#}" "{}" "{}" s rq1 wo] room_next [OF assms(2), of wo "RtSubmit rq1"] assms(3,4)
    by (simp_all add: unused_def)
  let ?t = "rt_run wo (rt_step wo s (RtSubmit rq1)) e1"
  have 2: "carried c {#rq1#} {} {} ?t" "unused c ?t" "room (Suc (length e2 + n)) ?t"
    using apart_run [OF 1(1,3) assms(6), of wo] 1(2) by (simp_all add: unused_def)
  let ?u = "rt_step wo ?t (RtSubmit rq2)"
  have 3: "carried c {#rq1, rq2#} {} {} ?u" "room (length e2 + n) ?u"
    using submission_looked_up [OF 2(1,2) assms(5), of wo] room_next [OF 2(3), of wo "RtSubmit rq2"]
    by (simp_all add: add_mset_commute)
  show ?thesis unfolding assms(8) using apart_run [OF 3 assms(7), of wo] by simp
qed

end
