(* ===== verification/Roon_Match.thy ===== *)
theory Roon_Match
  imports Uhc_Prelude
begin

text \<open>
  adapters/roon\_match.rs: whether a Roon search result is what the caller asked for, and the text that
  goes into Roon's search box. adapters/roon\_queue.rs: what follows the playing track. A text is a list of Unicode code points here, since the code works on
  \<open>char\<close>s. The Unicode tables of the standard library are parameters: \<open>lc\<close> is \<open>to_lowercase\<close> of a
  whole string, \<open>alnum\<close> is \<open>char::is_alphanumeric\<close>.
\<close>

type_synonym utext = "nat list"

definition ascii :: "string \<Rightarrow> utext" where
  "ascii s = map of_char s"

section \<open>Markup\<close>

text \<open>\<open>str::find\<close> and the two parts around the match.\<close>

fun cut_at :: "utext \<Rightarrow> utext \<Rightarrow> (utext \<times> utext) option" where
  "cut_at p [] = (if p = [] then Some ([], []) else None)"
| "cut_at p (x # xs) =
     (if take (length p) (x # xs) = p then Some ([], drop (length p) (x # xs))
      else map_option (apfst (Cons x)) (cut_at p xs))"

lemma cut_at_Some: "cut_at p xs = Some (a, b) \<Longrightarrow> xs = a @ p @ b"
  by (induction p xs arbitrary: a rule: cut_at.induct)
    (auto split: if_splits, metis append_take_drop_id)

definition link_name :: "utext \<Rightarrow> utext" where
  "link_name inner = (case cut_at (ascii ''|'') inner of None \<Rightarrow> inner | Some (_, name) \<Rightarrow> name)"

function clean_markup :: "utext \<Rightarrow> utext" where
  "clean_markup s =
     (case cut_at (ascii ''[['') s of
        None \<Rightarrow> s
      | Some (before, after) \<Rightarrow>
          (case cut_at (ascii '']]'') after of
             None \<Rightarrow> s
           | Some (inner, rest) \<Rightarrow> before @ link_name inner @ clean_markup rest))"
  by pat_completeness auto

termination clean_markup
  by (relation "measure length") (auto simp: ascii_def dest!: cut_at_Some)

declare clean_markup.simps [simp del]

section \<open>Words\<close>

definition FOLDS :: "(utext \<times> char) list" where
  "FOLDS =
     [([0xE0 ..< 0xE6], CHR ''a''), ([0xE7], CHR ''c''), ([0xE8 ..< 0xEC], CHR ''e''),
      ([0xEC ..< 0xF0], CHR ''i''), ([0xF1], CHR ''n''), ([0xF2 ..< 0xF7] @ [0xF8], CHR ''o''),
      ([0xF9 ..< 0xFD], CHR ''u''), ([0xFD, 0xFF], CHR ''y'')]"

definition fold_char :: "nat \<Rightarrow> nat" where
  "fold_char c = (case find (\<lambda>(cs, l). c \<in> set cs) FOLDS of None \<Rightarrow> c | Some (_, l) \<Rightarrow> of_char l)"

text \<open>The loop over the folded characters: \<open>cur\<close> is the word in progress, \<open>out\<close> the words before it.\<close>

fun words_loop :: "(nat \<Rightarrow> bool) \<Rightarrow> utext list \<Rightarrow> utext \<Rightarrow> utext \<Rightarrow> utext list" where
  "words_loop alnum out cur [] = (if cur = [] then out else out @ [cur])"
| "words_loop alnum out cur (c # cs) =
     (if alnum c then words_loop alnum out (cur @ [c]) cs
      else if cur = [] then words_loop alnum out cur cs
      else words_loop alnum (out @ [cur]) [] cs)"

definition tokens :: "(utext \<Rightarrow> utext) \<Rightarrow> (nat \<Rightarrow> bool) \<Rightarrow> utext \<Rightarrow> utext list" where
  "tokens lc alnum s = words_loop alnum [] [] (map fold_char (lc s))"

definition GENERIC :: "utext list" where
  "GENERIC = map ascii
     [''a'', ''an'', ''the'', ''of'', ''and'', ''or'', ''in'', ''on'', ''to'', ''for'', ''with'', ''by'',
      ''from'', ''at'', ''my'', ''some'', ''play'', ''best'', ''greatest'', ''hits'', ''hit'',
      ''collection'', ''complete'', ''essential'', ''essentials'', ''ultimate'', ''very'', ''songs'',
      ''song'', ''music'', ''album'', ''albums'', ''track'', ''tracks'', ''live'', ''deluxe'', ''edition'',
      ''remaster'', ''remastered'', ''version'', ''vol'', ''volume'', ''disc'', ''cd'']"

definition distinctive_tokens :: "(utext \<Rightarrow> utext) \<Rightarrow> (nat \<Rightarrow> bool) \<Rightarrow> utext \<Rightarrow> utext list" where
  "distinctive_tokens lc alnum query = filter (\<lambda>t. t \<notin> set GENERIC) (tokens lc alnum query)"

section \<open>One typo\<close>

text \<open>
  The two indices as the two remaining suffixes; \<open>la\<close> and \<open>lb\<close> are the lengths of the whole words, which
  decide which index moves.
\<close>

fun edit_loop :: "nat \<Rightarrow> nat \<Rightarrow> nat \<Rightarrow> 'a list \<Rightarrow> 'a list \<Rightarrow> bool" where
  "edit_loop la lb edits (x # xs) (y # ys) =
     (if x = y then edit_loop la lb edits xs ys
      else if edits + 1 > 1 then False
      else if la > lb then edit_loop la lb (edits + 1) xs (y # ys)
      else if lb > la then edit_loop la lb (edits + 1) (x # xs) ys
      else edit_loop la lb (edits + 1) xs ys)"
| "edit_loop la lb edits xs ys = (edits + length xs + length ys \<le> 1)"

definition edit_distance_at_most_one :: "'a list \<Rightarrow> 'a list \<Rightarrow> bool" where
  "edit_distance_at_most_one a b =
     (if length a - length b > 1 \<or> length b - length a > 1 then False
      else edit_loop (length a) (length b) 0 a b)"

text \<open>The edits themselves: nothing, one replacement, one deletion or one insertion.\<close>

definition one_edit :: "'a list \<Rightarrow> 'a list \<Rightarrow> bool" where
  "one_edit a b \<longleftrightarrow> a = b \<or> (\<exists>u x y v. a = u @ x # v \<and> b = u @ y # v) \<or>
     (\<exists>u x v. a = u @ x # v \<and> b = u @ v) \<or> (\<exists>u x v. a = u @ v \<and> b = u @ x # v)"

lemma edit_loop_spent: "edit_loop la lb 1 xs ys \<longleftrightarrow> xs = ys"
  by (induction xs ys rule: list_induct2') auto

lemma one_edit_Cons: "one_edit xs ys \<Longrightarrow> one_edit (x # xs) (x # ys)"
  unfolding one_edit_def by (metis append_Cons)

lemma one_edit_Cons_same: "one_edit (x # xs) (x # ys) \<longleftrightarrow> one_edit xs ys"
proof
  assume "one_edit (x # xs) (x # ys)"
  then consider "xs = ys" | u a b v where "x # xs = u @ a # v" "x # ys = u @ b # v"
    | u a v where "x # xs = u @ a # v" "x # ys = u @ v" | u a v where "x # xs = u @ v" "x # ys = u @ a # v"
    unfolding one_edit_def by blast
  then show "one_edit xs ys"
  proof cases
    case (2 u a b v)
    then show ?thesis
    proof (cases u)
      case (Cons z u')
      then have "xs = u' @ a # v" "ys = u' @ b # v" using 2 by simp_all
      then show ?thesis unfolding one_edit_def by blast
    qed (simp add: one_edit_def)
  next
    case (3 u a v)
    show ?thesis
    proof (cases u)
      case Nil
      then have "xs = [] @ x # ys" using 3 by simp
      then show ?thesis unfolding one_edit_def by (metis append_Nil)
    next
      case (Cons z u')
      then have "xs = u' @ a # v" "ys = u' @ v" using 3 by simp_all
      then show ?thesis unfolding one_edit_def by blast
    qed
  next
    case (4 u a v)
    show ?thesis
    proof (cases u)
      case Nil
      then have "ys = [] @ x # xs" using 4 by simp
      then show ?thesis unfolding one_edit_def by (metis append_Nil)
    next
      case (Cons z u')
      then have "xs = u' @ v" "ys = u' @ a # v" using 4 by simp_all
      then show ?thesis unfolding one_edit_def by blast
    qed
  qed (simp add: one_edit_def)
qed (rule one_edit_Cons)

lemma one_edit_Cons_other:
  "x \<noteq> y \<Longrightarrow> one_edit (x # xs) (y # ys) \<longleftrightarrow> xs = ys \<or> xs = y # ys \<or> ys = x # xs"
  unfolding one_edit_def by (fastforce simp: Cons_eq_append_conv)

lemma one_edit_Nil: "one_edit [] ys \<longleftrightarrow> length ys \<le> 1" "one_edit xs [] \<longleftrightarrow> length xs \<le> 1"
  unfolding one_edit_def by (auto simp: le_Suc_eq length_Suc_conv)

lemma edit_loop_exact:
  "int la - int lb = int (length xs) - int (length ys) \<Longrightarrow> edit_loop la lb 0 xs ys \<longleftrightarrow> one_edit xs ys"
proof (induction xs ys rule: list_induct2')
  case (4 x xs y ys)
  show ?case
  proof (cases "x = y")
    case True
    then show ?thesis using 4 by (simp add: one_edit_Cons_same)
  next
    case False
    have "xs = ys \<Longrightarrow> la = lb" "xs = y # ys \<Longrightarrow> lb < la" "ys = x # xs \<Longrightarrow> la < lb"
      "length xs < length ys \<Longrightarrow> la < lb" "length ys < length xs \<Longrightarrow> lb < la" using 4(2) by auto
    then show ?thesis using False
      by (auto simp: edit_loop_spent [unfolded One_nat_def] one_edit_Cons_other)
  qed
qed (auto simp: one_edit_Nil)

lemma edit_distance_exact: "edit_distance_at_most_one a b \<longleftrightarrow> one_edit a b"
proof -
  have "one_edit a b \<Longrightarrow> length a - length b \<le> 1 \<and> length b - length a \<le> 1"
    by (auto simp: one_edit_def)
  then show ?thesis
    using edit_loop_exact [of "length a" "length b" a b] by (auto simp: edit_distance_at_most_one_def)
qed

section \<open>Candidates\<close>

definition token_matches :: "utext \<Rightarrow> utext \<Rightarrow> bool" where
  "token_matches wanted have_it \<longleftrightarrow> wanted = have_it \<or>
     length wanted \<ge> 4 \<and> take (length wanted) have_it = wanted \<or>
     length have_it \<ge> 4 \<and> take (length have_it) wanted = have_it \<or>
     length wanted \<ge> 5 \<and> edit_distance_at_most_one wanted have_it"

lemma token_matches_refl [simp]: "token_matches w w"
  by (simp add: token_matches_def)

definition missing_tokens ::
  "(utext \<Rightarrow> utext) \<Rightarrow> (nat \<Rightarrow> bool) \<Rightarrow> utext \<Rightarrow> utext \<Rightarrow> utext option \<Rightarrow> utext list" where
  "missing_tokens lc alnum query title subtitle =
     (let wanted = distinctive_tokens lc alnum query in
      if wanted = [] then []
      else let haystack = clean_markup title @ (case subtitle of None \<Rightarrow> [] | Some s \<Rightarrow> ascii '' '' @ clean_markup s);
               words = tokens lc alnum haystack
           in filter (\<lambda>w. \<not> list_ex (token_matches w) words) wanted)"

definition candidate_matches ::
  "(utext \<Rightarrow> utext) \<Rightarrow> (nat \<Rightarrow> bool) \<Rightarrow> utext \<Rightarrow> utext \<Rightarrow> utext option \<Rightarrow> bool" where
  "candidate_matches lc alnum query title subtitle \<longleftrightarrow> missing_tokens lc alnum query title subtitle = []"

text \<open>\<open>split(&[',', '/'][..])\<close>: the pieces between commas and slashes.\<close>

fun segments :: "utext \<Rightarrow> utext list" where
  "segments [] = [[]]"
| "segments (c # cs) =
     (if c \<in> set (ascii '',/'') then [] # segments cs
      else case segments cs of [] \<Rightarrow> [[c]] | p # ps \<Rightarrow> (c # p) # ps)"

text \<open>\<open>wanted\<close> is a set, what the segment has is a list.\<close>

definition subtitle_names_artist ::
  "(utext \<Rightarrow> utext) \<Rightarrow> (nat \<Rightarrow> bool) \<Rightarrow> utext \<Rightarrow> utext \<Rightarrow> bool" where
  "subtitle_names_artist lc alnum artist subtitle =
     (let wanted = remdups (tokens lc alnum artist) in
      if wanted = [] then False
      else list_ex (\<lambda>segment. let words = tokens lc alnum segment in
             length words = length wanted \<and> list_all (\<lambda>h. list_ex (\<lambda>w. token_matches w h) wanted) words)
           (segments (clean_markup subtitle)))"

definition best_candidate ::
  "(utext \<Rightarrow> utext) \<Rightarrow> (nat \<Rightarrow> bool) \<Rightarrow> utext \<Rightarrow> utext option \<Rightarrow> 'i list \<Rightarrow> ('i \<Rightarrow> utext) \<Rightarrow>
     ('i \<Rightarrow> utext option) \<Rightarrow> 'i option" where
  "best_candidate lc alnum query artist items title subtitle =
     find (\<lambda>i. candidate_matches lc alnum query (title i) (subtitle i) \<and>
       (case artist of None \<Rightarrow> True
        | Some a \<Rightarrow> subtitle_names_artist lc alnum a (case subtitle i of None \<Rightarrow> [] | Some s \<Rightarrow> s))) items"

section \<open>The search box\<close>

definition WHITE_SPACE :: "nat set" where
  "WHITE_SPACE = set ([9 ..< 14] @ [32, 0x85, 0xA0, 0x1680] @ [0x2000 ..< 0x200B] @
     [0x2028, 0x2029, 0x202F, 0x205F, 0x3000])"

definition search_char :: "nat \<Rightarrow> nat" where
  "search_char c =
     (if c \<in> set ([0x2013, 0x2014, 0x2012] @ ascii ''!?:;,'' @ [34] @ ascii ''()[]'') then 32
      else if c = 0x2019 then 39 else c)"

text \<open>\<open>split_whitespace\<close>: the maximal runs of characters that are not white space.\<close>

definition split_whitespace :: "utext \<Rightarrow> utext list" where
  "split_whitespace s = words_loop (\<lambda>c. c \<notin> WHITE_SPACE) [] [] s"

text \<open>\<open>trim_matches('\'')\<close>.\<close>

definition trim_quotes :: "utext \<Rightarrow> utext" where
  "trim_quotes w = List.rev (dropWhile (\<lambda>c. c = 39) (List.rev (dropWhile (\<lambda>c. c = 39) w)))"

definition is_by :: "utext \<Rightarrow> bool" where
  "is_by w \<longleftrightarrow> w \<in> set (map ascii [''by'', ''By'', ''bY'', ''BY''])"

fun join_words :: "utext list \<Rightarrow> utext" where
  "join_words [] = []"
| "join_words [w] = w"
| "join_words (w # v # ws) = w @ 32 # join_words (v # ws)"

definition roon_search_input :: "utext \<Rightarrow> utext" where
  "roon_search_input query =
     (let words = filter (\<lambda>w. w \<noteq> []) (map trim_quotes (split_whitespace (map search_char query)));
          without_by = filter (\<lambda>w. \<not> is_by w) words;
          kept = (if without_by = [] then words else without_by);
          out = join_words kept
      in if out = [] then query else out)"

text \<open>\<open>trim\<close>, and \<open>Title - Artist\<close> for messages.\<close>

definition trim_white :: "utext \<Rightarrow> utext" where
  "trim_white s = List.rev (dropWhile (\<lambda>c. c \<in> WHITE_SPACE) (List.rev (dropWhile (\<lambda>c. c \<in> WHITE_SPACE) s)))"

definition display_title :: "utext \<Rightarrow> utext option \<Rightarrow> utext" where
  "display_title title subtitle =
     (case map_option clean_markup subtitle of
        Some s \<Rightarrow> if trim_white s \<noteq> [] then clean_markup title @ ascii '' - '' @ s else clean_markup title
      | None \<Rightarrow> clean_markup title)"

section \<open>The next track of a queue\<close>

text \<open>adapters/roon\_queue.rs. Instants are nanoseconds of the monotonic clock.\<close>

record queue_track =
  qt_title :: utext
  qt_artist :: utext

datatype queue_next = QueueNext queue_track | QueueLast | QueueUnknown

definition QUEUE_LOOK_AHEAD :: nat where "QUEUE_LOOK_AHEAD = 3"
definition QUEUE_NEXT_MAX_AGE :: nat where "QUEUE_NEXT_MAX_AGE = 600 * 10 ^ 9"

definition ascii_fold :: "nat \<Rightarrow> nat" where
  "ascii_fold c = (if 65 \<le> c \<and> c \<le> 90 then c + 32 else c)"

definition same_title :: "utext \<Rightarrow> utext \<Rightarrow> bool" where
  "same_title a b \<longleftrightarrow> map ascii_fold (trim_white a) = map ascii_fold (trim_white b)"

fun next_after_current :: "queue_track list \<Rightarrow> utext \<Rightarrow> queue_next" where
  "next_after_current items playing =
     (case dropWhile (\<lambda>t. \<not> same_title (qt_title t) playing) items of
        [] \<Rightarrow> QueueUnknown
      | [t] \<Rightarrow> if length items < QUEUE_LOOK_AHEAD then QueueLast else QueueUnknown
      | t # u # ts \<Rightarrow> QueueNext u)"

record queue_next_entry =
  qe_for_title :: utext
  qe_next :: queue_next
  qe_fetched_at :: nat

record queue_next_view =
  qv_zone_id :: utext
  qv_for_title :: "utext option"
  qv_status :: utext
  qv_next_title :: "utext option"
  qv_next_artist :: "utext option"
  qv_age_secs :: "nat option"

definition queue_view_unknown :: "utext \<Rightarrow> queue_next_view" where
  "queue_view_unknown z = \<lparr>qv_zone_id = z, qv_for_title = None, qv_status = ascii ''unknown'',
     qv_next_title = None, qv_next_artist = None, qv_age_secs = None\<rparr>"

definition queue_view_from_entry :: "utext \<Rightarrow> queue_next_entry \<Rightarrow> nat \<Rightarrow> queue_next_view" where
  "queue_view_from_entry z e now =
     (let age = now - qe_fetched_at e in
      if age > QUEUE_NEXT_MAX_AGE then queue_view_unknown z
      else case (case qe_next e of
          QueueNext t \<Rightarrow> (ascii ''next'', Some (qt_title t), Some (qt_artist t))
        | QueueLast \<Rightarrow> (ascii ''last'', None, None)
        | QueueUnknown \<Rightarrow> (ascii ''unknown'', None, None)) of
        (status, title, artist) \<Rightarrow>
          \<lparr>qv_zone_id = z, qv_for_title = Some (qe_for_title e), qv_status = status, qv_next_title = title,
           qv_next_artist = artist, qv_age_secs = Some (age div 10 ^ 9)\<rparr>)"

text \<open>
  What it answers is read off the queue: a next track follows the first entry with the playing title,
  and the end of the queue is claimed only when the playing entry is last and fewer entries came back
  than were asked for.
\<close>

lemma next_after_current_read:
  "next_after_current items playing = QueueNext u \<longleftrightarrow>
     (\<exists>before t after. items = before @ t # u # after \<and> same_title (qt_title t) playing \<and>
       (\<forall>b \<in> set before. \<not> same_title (qt_title b) playing))" (is "?l \<longleftrightarrow> ?r")
proof
  assume ?l
  then obtain t after where d: "dropWhile (\<lambda>t. \<not> same_title (qt_title t) playing) items = t # u # after"
    by (auto split: list.splits if_splits)
  define before where "before = takeWhile (\<lambda>t. \<not> same_title (qt_title t) playing) items"
  have "items = before @ t # u # after" unfolding before_def by (metis d takeWhile_dropWhile_id)
  moreover have "same_title (qt_title t) playing"
    using hd_dropWhile [of "\<lambda>t. \<not> same_title (qt_title t) playing" items] d by simp
  moreover have "\<forall>b \<in> set before. \<not> same_title (qt_title b) playing"
    by (auto simp: before_def dest: set_takeWhileD)
  ultimately show ?r by blast
qed (auto simp: dropWhile_append)

lemma queue_last_complete:
  "next_after_current items playing = QueueLast \<Longrightarrow>
     length items < QUEUE_LOOK_AHEAD \<and> items \<noteq> [] \<and> same_title (qt_title (last items)) playing"
proof -
  assume a: "next_after_current items playing = QueueLast"
  then obtain t where d: "dropWhile (\<lambda>t. \<not> same_title (qt_title t) playing) items = [t]"
    and n: "length items < QUEUE_LOOK_AHEAD" by (auto split: list.splits if_splits)
  then have "items = takeWhile (\<lambda>t. \<not> same_title (qt_title t) playing) items @ [t]"
    by (metis takeWhile_dropWhile_id)
  then have "items \<noteq> []" "last items = t" by (metis append_is_Nil_conv list.discI, metis last_snoc)
  then show ?thesis using n hd_dropWhile [of "\<lambda>t. \<not> same_title (qt_title t) playing" items] d by simp
qed

section \<open>Facts\<close>

lemma words_loop_out: "words_loop f out cur cs = out @ words_loop f [] cur cs"
proof (induction cs arbitrary: out cur)
  case (Cons c cs)
  show ?case
    using Cons.IH [of out] Cons.IH [of "out @ [cur]" "[]"] Cons.IH [of "[cur]" "[]"] by simp
qed simp

lemma segments_single: "set s \<inter> set (ascii '',/'') = {} \<Longrightarrow> segments s = [s]"
  by (induction s) auto

lemma cut_at_absent: "cut_at p s = None \<Longrightarrow> p \<noteq> [] \<Longrightarrow> \<not> (\<exists>a b. s = a @ p @ b)"
proof (induction p s rule: cut_at.induct)
  case (2 p x xs)
  then show ?case
    by (auto simp: append_eq_Cons_conv Cons_eq_append_conv split: if_splits)
qed simp

lemma clean_markup_plain: "CHR ''['' \<notin> char_of ` set s \<Longrightarrow> clean_markup s = s"
proof -
  assume a: "CHR ''['' \<notin> char_of ` set s"
  have "cut_at (ascii ''[['') s = None"
  proof (cases "cut_at (ascii ''[['') s")
    case (Some e)
    then obtain u v where "s = u @ ascii ''[['' @ v" by (cases e) (auto dest: cut_at_Some)
    then have "of_char CHR ''['' \<in> set s" by (simp add: ascii_def)
    then have "char_of (of_char CHR ''['' :: nat) \<in> char_of ` set s" by blast
    with a show ?thesis by (metis char_of_char)
  qed
  then show ?thesis by (subst clean_markup.simps) simp
qed

text \<open>
  An artist's own name, as a plain credit, is recognised exactly when no word of it is repeated.
\<close>

lemma own_credit_exact:
  assumes "CHR ''['' \<notin> char_of ` set artist" "set artist \<inter> set (ascii '',/'') = {}"
  shows "subtitle_names_artist lc alnum artist artist \<longleftrightarrow>
    tokens lc alnum artist \<noteq> [] \<and> distinct (tokens lc alnum artist)"
proof -
  let ?t = "tokens lc alnum artist"
  have "list_all (\<lambda>h. list_ex (\<lambda>w. token_matches w h) (remdups ?t)) ?t"
    by (auto simp: list_all_iff list_ex_iff intro: token_matches_refl)
  moreover have "length ?t = length (remdups ?t) \<longleftrightarrow> distinct ?t"
    by (metis card_distinct length_remdups_card_conv distinct_card)
  ultimately show ?thesis
    by (simp add: subtitle_names_artist_def clean_markup_plain [OF assms(1)] segments_single [OF assms(2)] Let_def)
qed

text \<open>
  What goes into the search box is a fixed point: its words are free of punctuation, of white space and
  of quotes at their ends.
\<close>

lemma words_loop_word:
  "list_all f w \<Longrightarrow> words_loop f out cur (w @ rest) = words_loop f out (cur @ w) rest"
  by (induction w arbitrary: cur) auto

definition is_word :: "utext \<Rightarrow> bool" where
  "is_word w \<longleftrightarrow> w \<noteq> [] \<and> list_all (\<lambda>c. c \<notin> WHITE_SPACE) w"

lemma space_is_white: "32 \<in> WHITE_SPACE"
  by (simp add: WHITE_SPACE_def)

lemma split_join: "list_all is_word ws \<Longrightarrow> split_whitespace (join_words ws) = ws"
proof (induction ws rule: join_words.induct)
  case (2 w)
  then show ?case using words_loop_word [of _ w "[]" "[]" "[]"]
    by (simp add: split_whitespace_def is_word_def)
next
  case (3 w v ws)
  have "words_loop (\<lambda>c. c \<notin> WHITE_SPACE) [] [] (join_words (w # v # ws)) =
      words_loop (\<lambda>c. c \<notin> WHITE_SPACE) [w] [] (join_words (v # ws))"
    using 3(2) space_is_white by (simp add: words_loop_word is_word_def)
  then show ?case using 3 words_loop_out [of _ "[w]" "[]" "join_words (v # ws)"]
    by (simp add: split_whitespace_def)
qed (simp add: split_whitespace_def)

lemma split_whitespace_words:
  "(\<forall>w \<in> set out. P w) \<Longrightarrow> (\<And>w. w \<noteq> [] \<Longrightarrow> set w \<subseteq> set cur \<union> {c \<in> set cs. f c} \<Longrightarrow> P w) \<Longrightarrow>
   \<forall>w \<in> set (words_loop f out cur cs). P w"
proof (induction cs arbitrary: out cur)
  case (Cons c cs)
  show ?case
  proof (cases "f c")
    case True
    have "\<forall>w \<in> set (words_loop f out (cur @ [c]) cs). P w"
      by (rule Cons.IH [OF Cons.prems(1)], rule Cons.prems(2)) (use True in auto)
    then show ?thesis using True by simp
  next
    case False
    have "\<forall>w \<in> set (words_loop f out cur cs). P w"
      by (rule Cons.IH [OF Cons.prems(1)], rule Cons.prems(2)) auto
    moreover have "cur \<noteq> [] \<Longrightarrow> \<forall>w \<in> set (words_loop f (out @ [cur]) [] cs). P w"
      by (rule Cons.IH) (use Cons.prems in \<open>auto intro: Cons.prems(2)\<close>)
    ultimately show ?thesis using False by simp
  qed
qed auto

lemma trim_quotes_ends:
  "trim_quotes w = [] \<or> hd (trim_quotes w) \<noteq> 39 \<and> last (trim_quotes w) \<noteq> 39"
proof -
  define u where "u = dropWhile (\<lambda>c. c = 39) w"
  define v where "v = dropWhile (\<lambda>c. c = 39) (List.rev u)"
  have t: "trim_quotes w = List.rev v" by (simp add: trim_quotes_def u_def v_def)
  have "v \<noteq> [] \<Longrightarrow> hd v \<noteq> 39" using hd_dropWhile [of "\<lambda>c. c = 39" "List.rev u"] by (simp add: v_def)
  moreover have "v \<noteq> [] \<Longrightarrow> last v \<noteq> 39"
  proof -
    assume "v \<noteq> []"
    obtain p where p: "List.rev u = p @ v" unfolding v_def by (metis takeWhile_dropWhile_id)
    then have "u = List.rev v @ List.rev p" by (metis rev_append rev_rev_ident)
    then have "hd u = last v" "u \<noteq> []" using \<open>v \<noteq> []\<close> by (simp_all add: hd_rev)
    moreover have "hd u \<noteq> 39" using \<open>u \<noteq> []\<close> hd_dropWhile [of "\<lambda>c. c = 39" w] by (simp add: u_def)
    ultimately show ?thesis by simp
  qed
  ultimately show ?thesis by (auto simp: t hd_rev last_rev)
qed

lemma trim_quotes_fixed: "w \<noteq> [] \<Longrightarrow> hd w \<noteq> 39 \<Longrightarrow> last w \<noteq> 39 \<Longrightarrow> trim_quotes w = w"
proof -
  assume a: "w \<noteq> []" "hd w \<noteq> 39" "last w \<noteq> 39"
  have "dropWhile (\<lambda>c. c = 39) w = w" using a by (cases w) auto
  moreover have "dropWhile (\<lambda>c. c = 39) (List.rev w) = List.rev w"
    using a by (cases w rule: rev_cases) auto
  ultimately show ?thesis by (simp add: trim_quotes_def)
qed

lemma set_trim_quotes: "set (trim_quotes w) \<subseteq> set w"
  unfolding trim_quotes_def by (metis set_dropWhileD set_rev subsetI)

lemma search_char_idem [simp]: "search_char (search_char c) = search_char c"
  by (auto simp: search_char_def ascii_def)

text \<open>The words that are kept.\<close>

definition search_words :: "utext \<Rightarrow> utext list" where
  "search_words query = filter (\<lambda>w. w \<noteq> []) (map trim_quotes (split_whitespace (map search_char query)))"

definition clean_word :: "utext \<Rightarrow> bool" where
  "clean_word w \<longleftrightarrow> is_word w \<and> hd w \<noteq> 39 \<and> last w \<noteq> 39 \<and> map search_char w = w"

lemma search_words_clean: "list_all clean_word (search_words query)"
proof -
  have "\<forall>w \<in> set (split_whitespace (map search_char query)).
      list_all (\<lambda>c. c \<notin> WHITE_SPACE \<and> search_char c = c) w"
    unfolding split_whitespace_def
    by (rule split_whitespace_words) (auto simp: list_all_iff)
  then have "clean_word (trim_quotes w)"
    if "w \<in> set (split_whitespace (map search_char query))" "trim_quotes w \<noteq> []" for w
    using that trim_quotes_ends [of w] set_trim_quotes [of w]
    by (auto simp: clean_word_def is_word_def list_all_iff intro!: map_idI)
  then show ?thesis by (auto simp: search_words_def list_all_iff)
qed

lemma search_words_join: "list_all clean_word ws \<Longrightarrow> search_words (join_words ws) = ws"
proof -
  assume a: "list_all clean_word ws"
  have m: "map search_char (join_words ws) = join_words ws" using a
    by (induction ws rule: join_words.induct) (auto simp: clean_word_def search_char_def ascii_def)
  have "list_all is_word ws" using a by (auto simp: list_all_iff clean_word_def)
  then have "split_whitespace (map search_char (join_words ws)) = ws" by (simp add: m split_join)
  moreover have "map trim_quotes ws = ws" "filter (\<lambda>w. w \<noteq> []) ws = ws" using a
    by (auto simp: list_all_iff clean_word_def is_word_def intro!: map_idI trim_quotes_fixed filter_True)
  ultimately show ?thesis by (simp add: search_words_def)
qed

lemma roon_search_input_idem: "roon_search_input (roon_search_input q) = roon_search_input q"
proof -
  define keep where "keep ws = (if filter (\<lambda>w. \<not> is_by w) ws = [] then ws else filter (\<lambda>w. \<not> is_by w) ws)"
    for ws
  have r: "roon_search_input x = (let out = join_words (keep (search_words x)) in if out = [] then x else out)"
    for x by (simp add: roon_search_input_def search_words_def keep_def Let_def)
  have "list_all clean_word (keep (search_words q))"
    using search_words_clean [of q] by (auto simp: keep_def list_all_iff)
  then have "search_words (join_words (keep (search_words q))) = keep (search_words q)"
    by (rule search_words_join)
  moreover have "keep (keep ws) = keep ws" for ws by (simp add: keep_def)
  ultimately show ?thesis by (simp add: r Let_def)
qed

end
