(* ===== verification/Surface_Rules.thy ===== *)
theory Surface_Rules
  imports Uhc_Prelude Bus_Events
begin

text \<open>
  Two rules the surfaces share: mcp/routing.rs, which adapter a zone identifier means and which of its
  operations have a route; and knobs/zone\_grace.rs, the memory that answers for a zone that has just
  disappeared. Instants are nanoseconds of the monotonic clock.
\<close>

section \<open>Routing by prefix\<close>

datatype zone_target =
    TargetRoon | TargetLms | TargetOpenHome | TargetUpnp | TargetHqPlayer | TargetAppleMusic
  | TargetSpotify | TargetMusicAssistant | TargetUnprefixed | TargetUnknown

definition PROVIDERS :: "zone_target list" where
  "PROVIDERS = [TargetRoon, TargetLms, TargetOpenHome, TargetUpnp, TargetHqPlayer, TargetAppleMusic,
     TargetSpotify, TargetMusicAssistant]"

definition classify :: "string \<Rightarrow> zone_target" where
  "classify z =
     (if starts_with z ''roon:'' then TargetRoon
      else if starts_with z ''lms:'' then TargetLms
      else if starts_with z ''openhome:'' then TargetOpenHome
      else if starts_with z ''upnp:'' then TargetUpnp
      else if starts_with z ''hqplayer:'' then TargetHqPlayer
      else if starts_with z ''applemusic:'' then TargetAppleMusic
      else if starts_with z ''spotify:'' then TargetSpotify
      else if starts_with z ''musicassistant:'' then TargetMusicAssistant
      else if CHR '':'' \<in> set z then TargetUnknown
      else TargetUnprefixed)"

definition classify_opt :: "string option \<Rightarrow> zone_target" where
  "classify_opt z = (case z of None \<Rightarrow> TargetRoon | Some z \<Rightarrow> classify z)"

fun target_prefix :: "zone_target \<Rightarrow> string option" where
  "target_prefix TargetRoon = Some ''roon:''"
| "target_prefix TargetLms = Some ''lms:''"
| "target_prefix TargetOpenHome = Some ''openhome:''"
| "target_prefix TargetUpnp = Some ''upnp:''"
| "target_prefix TargetHqPlayer = Some ''hqplayer:''"
| "target_prefix TargetAppleMusic = Some ''applemusic:''"
| "target_prefix TargetSpotify = Some ''spotify:''"
| "target_prefix TargetMusicAssistant = Some ''musicassistant:''"
| "target_prefix t = None"

fun target_label :: "zone_target \<Rightarrow> string" where
  "target_label TargetRoon = ''roon''"
| "target_label TargetLms = ''lms''"
| "target_label TargetOpenHome = ''openhome''"
| "target_label TargetUpnp = ''upnp''"
| "target_label TargetHqPlayer = ''hqplayer''"
| "target_label TargetAppleMusic = ''applemusic''"
| "target_label TargetSpotify = ''spotify''"
| "target_label TargetMusicAssistant = ''musicassistant''"
| "target_label TargetUnprefixed = ''unprefixed''"
| "target_label TargetUnknown = ''unknown''"

definition ACCEPTED_ZONE_PREFIXES :: "string list" where
  "ACCEPTED_ZONE_PREFIXES = [''roon:'', ''lms:'', ''openhome:'', ''upnp:'', ''hqplayer:'', ''applemusic:'',
     ''spotify:'', ''musicassistant:'']"

text \<open>The three route types have the same constructors as far as they go: the target, or a refusal.\<close>

datatype zone_route = RouteTo zone_target | RouteRefused zone_target

fun for_transport :: "zone_target \<Rightarrow> zone_route" where
  "for_transport TargetUnprefixed = RouteRefused TargetUnprefixed"
| "for_transport TargetUnknown = RouteRefused TargetUnknown"
| "for_transport t = RouteTo t"

fun for_volume :: "zone_target \<Rightarrow> zone_route" where
  "for_volume TargetUnprefixed = RouteRefused TargetUnprefixed"
| "for_volume TargetUnknown = RouteRefused TargetUnknown"
| "for_volume t = RouteTo t"

fun for_library :: "zone_target \<Rightarrow> zone_route" where
  "for_library TargetOpenHome = RouteRefused TargetOpenHome"
| "for_library TargetUpnp = RouteRefused TargetUpnp"
| "for_library TargetHqPlayer = RouteRefused TargetHqPlayer"
| "for_library TargetUnprefixed = RouteRefused TargetUnprefixed"
| "for_library TargetUnknown = RouteRefused TargetUnknown"
| "for_library t = RouteTo t"

fun join_text :: "string \<Rightarrow> string list \<Rightarrow> string" where
  "join_text sep [] = []"
| "join_text sep [s] = s"
| "join_text sep (s # t # ss) = s @ sep @ join_text sep (t # ss)"

definition quoted :: "string \<Rightarrow> string" where
  "quoted s = [CHR 0x27] @ s @ [CHR 0x27]"

definition unplaceable_zone_text :: "string \<Rightarrow> zone_target \<Rightarrow> string" where
  "unplaceable_zone_text z t =
     (let prefixes = join_text '', '' ACCEPTED_ZONE_PREFIXES in
      case t of
        TargetUnknown \<Rightarrow>
          (let pre = (case split_once CHR '':'' z of None \<Rightarrow> [] | Some (p, _) \<Rightarrow> p @ '':'') in
           ''Zone id '' @ quoted z @ '' uses the prefix '' @ quoted pre @
           '', which names no adapter. Accepted prefixes: '' @ prefixes @ ''. Call hifi_zones for valid zone ids.'')
      | _ \<Rightarrow>
          ''Zone id '' @ quoted z @ '' has no provider prefix. Accepted prefixes: '' @ prefixes @
          ''. If this is a Roon zone id, call again with '' @ quoted (''roon:'' @ z) @
          ''. Call hifi_zones for valid zone ids.'')"

text \<open>
  No prefix begins another, so the classification is the prefix: a target is meant exactly by the
  identifiers that start with its prefix, and the prefixes that are offered are those of the providers.
\<close>

lemma classify_prefixed: "target_prefix t = Some p \<Longrightarrow> classify (p @ r) = t"
  by (cases t) (auto simp: classify_def starts_with_def)

lemma classify_starts: "target_prefix t = Some p \<Longrightarrow> classify z = t \<Longrightarrow> starts_with z p"
  by (cases t) (auto simp: classify_def split: if_splits)

lemma classify_exact: "target_prefix t = Some p \<Longrightarrow> classify z = t \<longleftrightarrow> starts_with z p"
  using classify_prefixed classify_starts by (metis starts_with_iff)

lemma accepted_prefixes_recognised: "map Some ACCEPTED_ZONE_PREFIXES = map target_prefix PROVIDERS"
  by (simp add: ACCEPTED_ZONE_PREFIXES_def PROVIDERS_def)

lemma classify_cases: "classify z \<in> set PROVIDERS \<or> classify z = TargetUnknown \<or> classify z = TargetUnprefixed"
  by (simp add: classify_def PROVIDERS_def)

lemma routed_exact:
  "for_transport (classify z) = RouteTo t \<longleftrightarrow> t \<in> set PROVIDERS \<and> (\<exists>p. target_prefix t = Some p \<and> starts_with z p)"
proof -
  have "for_transport (classify z) = RouteTo t \<longleftrightarrow> t = classify z \<and> t \<in> set PROVIDERS"
    by (cases "classify z") (auto simp: PROVIDERS_def)
  moreover have "t \<in> set PROVIDERS \<Longrightarrow> \<exists>p. target_prefix t = Some p" by (auto simp: PROVIDERS_def)
  ultimately show ?thesis using classify_exact [of t _ z] by auto
qed

section \<open>A zone that has just disappeared\<close>

definition ZONE_ABSENCE_GRACE :: nat where "ZONE_ABSENCE_GRACE = 90 * 10 ^ 9"

type_synonym zone_memory = "(string \<times> nat \<times> zone) list"

definition remember_zone :: "nat \<Rightarrow> zone \<Rightarrow> zone_memory \<Rightarrow> zone_memory" where
  "remember_zone now z m = hm_insert (zn_zone_id z) (now, z) m"

definition degraded :: "zone \<Rightarrow> zone" where
  "degraded z = z\<lparr>zn_state := PS_Unknown, zn_is_play_allowed := False, zn_is_pause_allowed := False,
     zn_is_next_allowed := False, zn_is_previous_allowed := False, zn_is_seekable := False\<rparr>"

definition recall_zone :: "nat \<Rightarrow> string \<Rightarrow> nat \<Rightarrow> zone_memory \<Rightarrow> zone option \<times> zone_memory" where
  "recall_zone now z grace m =
     (let kept = filter (\<lambda>e. now - fst (snd e) \<le> grace) m
      in (map_option (\<lambda>e. degraded (snd e)) (map_of kept z), kept))"

definition recall_recent :: "nat \<Rightarrow> string \<Rightarrow> zone_memory \<Rightarrow> zone option \<times> zone_memory" where
  "recall_recent now z m = recall_zone now z ZONE_ABSENCE_GRACE m"

lemma recall_exact:
  assumes "hm_wf m"
  shows "fst (recall_recent now z m) = Some r \<longleftrightarrow>
    (\<exists>t v. map_of m z = Some (t, v) \<and> now - t \<le> ZONE_ABSENCE_GRACE \<and> r = degraded v)"
  using map_of_filter_value [OF assms, of "\<lambda>v. now - fst v \<le> ZONE_ABSENCE_GRACE" z]
  by (auto simp: recall_recent_def recall_zone_def Let_def split: option.splits)

end
