(* ===== verification/Controller_Auth.thy ===== *)
theory Controller_Auth
  imports App_Settings
begin

text \<open>
  Controller authentication (api/controller\_auth.rs) and the trust rule for Home Assistant's ingress
  (api/ingress.rs). \<open>hash\<close> is SHA-256 of a token's bytes; random tokens are inputs. A request's headers
  map a lower-case name to the first value, if it is text. The parsers of addresses are the standard
  library's and parameters.
\<close>

definition COOKIE_NAME :: string where "COOKIE_NAME = ''uhc_controller''"
definition SESSION_TTL :: u64 where "SESSION_TTL = 30 * 24 * 60 * 60"

record auth_session =
  as_csrf :: string
  as_expires_at :: u64

record auth_state =
  au_bootstrap_hash :: "u8 list option"
  au_sessions :: "(string \<times> auth_session) list"
  au_bootstrap_display :: "string option"

type_synonym headers = "(string \<times> string) list"

record http_request =
  rq_method :: string
  rq_path :: string
  rq_headers :: headers

section \<open>Tokens\<close>

definition parse_hash :: "u8 list \<Rightarrow> u8 list option" where
  "parse_hash bytes = (if length bytes = 32 then Some bytes else None)"

text \<open>The fold over the pairs: the bits in which some pair differs.\<close>

definition constant_time_eq :: "u8 list \<Rightarrow> u8 list \<Rightarrow> bool" where
  "constant_time_eq l r \<longleftrightarrow> length l = length r \<and>
     foldl (\<lambda>acc (a, b). or acc (xor a b)) 0 (zip l r) = 0"

definition token_bytes :: "string \<Rightarrow> u8 list" where
  "token_bytes s = map (\<lambda>c. word_of_nat (of_char c)) s"

lemma xor_zero_iff: "xor a b = (0 :: u8) \<longleftrightarrow> a = b"
  by (metis xor.assoc xor.right_neutral xor_self_eq xor.commute)

lemma fold_or_zero: "foldl (\<lambda>acc (a, b). or acc (xor a b)) (z :: u8) ps = 0 \<longleftrightarrow> z = 0 \<and> (\<forall>(a, b) \<in> set ps. a = b)"
  by (induction ps arbitrary: z) (auto simp: or_eq_0_iff xor_zero_iff split: prod.splits)

lemma constant_time_eq_iff: "constant_time_eq l r \<longleftrightarrow> l = r"
proof
  assume "constant_time_eq l r"
  then have "length l = length r" "\<forall>(a, b) \<in> set (zip l r). a = b"
    by (simp_all add: constant_time_eq_def fold_or_zero)
  then show "l = r" by (induction l r rule: list_induct2) auto
qed (auto simp: constant_time_eq_def fold_or_zero in_set_zip)

lemma token_bytes_inj: "token_bytes a = token_bytes b \<longleftrightarrow> a = b"
proof -
  have "inj (\<lambda>c. word_of_nat (of_char c) :: u8)"
  proof (rule injI)
    fix x y :: char assume "(word_of_nat (of_char x) :: u8) = word_of_nat (of_char y)"
    then have "unat (word_of_nat (of_char x) :: u8) = unat (word_of_nat (of_char y) :: u8)" by simp
    then show "x = y" by (simp add: unsigned_of_nat take_bit_eq_mod)
  qed
  then show ?thesis by (simp add: token_bytes_def inj_map_eq_map)
qed

text \<open>
  \<open>ControllerAuthState::new\<close>: the operator's token, or the stored hash, or a token made up now, whose
  hash is stored if it can be written.
\<close>

definition auth_new ::
  "(string \<Rightarrow> u8 list) \<Rightarrow> string option \<Rightarrow> string \<Rightarrow> bool \<Rightarrow> u8 list option \<Rightarrow> auth_state \<times> u8 list option" where
  "auth_new hash env generated writable file =
     (case env of
        Some token \<Rightarrow>
          (\<lparr>au_bootstrap_hash = Some (hash token), au_sessions = [], au_bootstrap_display = None\<rparr>, file)
      | None \<Rightarrow>
          (case Option.bind file parse_hash of
             Some h \<Rightarrow> (\<lparr>au_bootstrap_hash = Some h, au_sessions = [], au_bootstrap_display = None\<rparr>, file)
           | None \<Rightarrow>
               (\<lparr>au_bootstrap_hash = Some (hash generated), au_sessions = [], au_bootstrap_display = Some generated\<rparr>,
                if writable then Some (hash generated) else file)))"

definition take_bootstrap_secret :: "auth_state \<Rightarrow> string option \<times> auth_state" where
  "take_bootstrap_secret st = (au_bootstrap_display st, st\<lparr>au_bootstrap_display := None\<rparr>)"

definition auth_bootstrap ::
  "(string \<Rightarrow> u8 list) \<Rightarrow> string \<Rightarrow> string \<Rightarrow> string \<Rightarrow> u64 \<Rightarrow> auth_state \<Rightarrow>
     (string \<times> string \<times> u64) option \<times> auth_state" where
  "auth_bootstrap hash supplied session csrf now st =
     (case au_bootstrap_hash st of
        None \<Rightarrow> (None, st)
      | Some expected \<Rightarrow>
          (if \<not> constant_time_eq expected (hash supplied) then (None, st)
           else (Some (session, csrf, now + SESSION_TTL),
                 st\<lparr>au_bootstrap_hash := None, au_sessions := hm_insert session
                      \<lparr>as_csrf = csrf, as_expires_at = now + SESSION_TTL\<rparr> (au_sessions st)\<rparr>)))"

section \<open>Sessions\<close>

definition cookie_token :: "headers \<Rightarrow> string option" where
  "cookie_token h =
     (case map_of h ''cookie'' of None \<Rightarrow> None
      | Some cookie \<Rightarrow>
          first_some (\<lambda>part. case split_once CHR ''='' (str_trim part) of None \<Rightarrow> None
            | Some (name, v) \<Rightarrow> if name = COOKIE_NAME \<and> v \<noteq> [] then Some v else None)
            (split_on CHR '';'' cookie))"

definition auth_session_of :: "headers \<Rightarrow> u64 \<Rightarrow> auth_state \<Rightarrow> auth_session option \<times> auth_state" where
  "auth_session_of h now st =
     (case cookie_token h of None \<Rightarrow> (None, st)
      | Some token \<Rightarrow>
          (case map_of (au_sessions st) token of None \<Rightarrow> (None, st)
           | Some s \<Rightarrow>
               (if as_expires_at s \<le> now then (None, st\<lparr>au_sessions := hm_remove token (au_sessions st)\<rparr>)
                else (Some s, st))))"

record controller_status =
  cs_auth_required :: bool
  cs_authenticated :: bool
  cs_bootstrap_required :: bool
  cs_expires_at :: "u64 option"

definition auth_status :: "bool \<Rightarrow> headers \<Rightarrow> u64 \<Rightarrow> auth_state \<Rightarrow> controller_status \<times> auth_state" where
  "auth_status required h now st =
     (case auth_session_of h now st of (session, st') \<Rightarrow>
        (\<lparr>cs_auth_required = required, cs_authenticated = session \<noteq> None,
          cs_bootstrap_required = au_bootstrap_hash st' \<noteq> None, cs_expires_at = map_option as_expires_at session\<rparr>,
         st'))"

section \<open>Routes\<close>

definition env_switch :: "string option \<Rightarrow> bool" where
  "env_switch v = (v \<in> Some ` {''1'', ''true'', ''TRUE'', ''yes'', ''on''})"

definition requires_controller_auth :: "string \<Rightarrow> bool" where
  "requires_controller_auth path \<longleftrightarrow>
     starts_with path ''/api/providers/'' \<and> path \<noteq> ''/api/providers/spotify/oauth/callback'' \<or>
     path = ''/api/bridges/applemusic/pair''"

definition is_public :: "string \<Rightarrow> bool" where
  "is_public path \<longleftrightarrow>
     path \<in> {''/status'', ''/api/controller/bootstrap'', ''/api/controller/status''} \<or>
     starts_with path ''/assets/'' \<or>
     path \<in> {''/favicon.ico'', ''/tailwind.css'', ''/dx-components-theme.css'', ''/apple-touch-icon.png'',
       ''/webmcp-bridge.js''}"

definition is_native_bridge :: "string \<Rightarrow> bool" where
  "is_native_bridge path \<longleftrightarrow>
     path = ''/api/bridges/applemusic/discover'' \<or> path = ''/api/bridges/applemusic/claim'' \<or>
     path = ''/api/bridges/applemusic/revoke'' \<or> path = ''/api/bridges/applemusic/state'' \<or>
     path = ''/api/bridges/applemusic/commands'' \<or> starts_with path ''/api/bridges/applemusic/commands/'' \<or>
     path = ''/api/bridges/applemusic/content'' \<or> starts_with path ''/api/bridges/applemusic/content/''"

definition PROTECTED_WRITES :: "string list" where
  "PROTECTED_WRITES =
     [''/control'', ''/knob/control'', ''/knob/config'', ''/roon/control'', ''/roon/volume'', ''/roon/play'',
      ''/roon/play_item'', ''/roon/browse'', ''/hqplayer/control'', ''/hqplayer/volume'', ''/hqplayer/setting'',
      ''/hqplayer/profile'', ''/hqplayer/configure'', ''/hqplayer/outputs/command'', ''/lms/configure'',
      ''/lms/control'', ''/lms/volume'', ''/openhome/control'', ''/upnp/control'']"

definition is_protected :: "string \<Rightarrow> string \<Rightarrow> bool" where
  "is_protected path meth =
     (if starts_with path ''/api/hiphi/pairing/'' \<or> starts_with path ''/api/hiphi/connection/'' then True
      else if starts_with path ''/api/providers/'' \<and> path \<noteq> ''/api/providers/spotify/oauth/callback'' \<or>
        path = ''/mcp'' then True
      else if path = ''/api/settings'' then meth \<noteq> ''GET''
      else if path \<in> {''/api/bridges/applemusic/pair'', ''/api/bridges/applemusic/revoke'',
        ''/api/bridges/applemusic/rename'', ''/api/bridges/applemusic/remove''} then True
      else if meth = ''GET'' \<or> meth = ''HEAD'' then False
      else path \<in> set PROTECTED_WRITES)"

definition csrf_matches :: "headers \<Rightarrow> string \<Rightarrow> bool" where
  "csrf_matches h expected = (case map_of h ''x-uhc-csrf-token'' of None \<Rightarrow> False
     | Some v \<Rightarrow> constant_time_eq (token_bytes v) (token_bytes expected))"

definition same_origin :: "headers \<Rightarrow> bool" where
  "same_origin h = (case map_of h ''origin'' of None \<Rightarrow> False | Some origin \<Rightarrow>
     (case map_of h ''host'' of None \<Rightarrow> False | Some host \<Rightarrow>
        origin = ''http://'' @ host \<or> origin = ''https://'' @ host))"

datatype auth_verdict = AuthPass | AuthUnauthorized | AuthForbidden

definition auth_middleware ::
  "bool \<Rightarrow> bool \<Rightarrow> http_request \<Rightarrow> u64 \<Rightarrow> auth_state \<Rightarrow> auth_verdict \<times> auth_state" where
  "auth_middleware ingress required rq now st =
     (let path = rq_path rq; owner_operation = requires_controller_auth path in
      if ingress \<or> \<not> required then (AuthPass, st)
      else if is_public path \<or> is_native_bridge path \<or> (\<not> owner_operation \<and> \<not> is_protected path (rq_method rq))
      then (AuthPass, st)
      else case auth_session_of (rq_headers rq) now st of
        (None, st') \<Rightarrow> (AuthUnauthorized, st')
      | (Some s, st') \<Rightarrow>
          (if rq_method rq \<noteq> ''GET'' \<and> rq_method rq \<noteq> ''HEAD'' \<and>
              (\<not> same_origin (rq_headers rq) \<or> \<not> csrf_matches (rq_headers rq) (as_csrf s))
           then (AuthForbidden, st') else (AuthPass, st')))"

section \<open>Ingress\<close>

datatype ip_addr = IpV4 u32 | IpV6 "128 word"

definition ip_matches ::
  "(string \<Rightarrow> u32 option) \<Rightarrow> (string \<Rightarrow> ip_addr option) \<Rightarrow> (string \<Rightarrow> u32 option) \<Rightarrow> ip_addr \<Rightarrow> string \<Rightarrow> bool" where
  "ip_matches parse_v4 parse_ip parse_u32 ip entry =
     (case split_once CHR ''/'' entry of
        Some (net, len) \<Rightarrow>
          (case (parse_v4 net, parse_u32 len) of
             (Some n, Some l) \<Rightarrow>
               (case ip of
                  IpV6 a \<Rightarrow> False
                | IpV4 a \<Rightarrow>
                    (if l > 32 then False
                     else let mask = (if l = 0 then 0 else push_bit (unat (32 - l)) (- 1)) in
                       and a mask = and n mask))
           | _ \<Rightarrow> False)
      | None \<Rightarrow> parse_ip entry = Some ip)"

definition trusted_peer ::
  "(string \<Rightarrow> u32 option) \<Rightarrow> (string \<Rightarrow> ip_addr option) \<Rightarrow> (string \<Rightarrow> u32 option) \<Rightarrow> string option \<Rightarrow> ip_addr \<Rightarrow> bool" where
  "trusted_peer parse_v4 parse_ip parse_u32 env ip =
     (case env of
        Some raw \<Rightarrow> list_ex (ip_matches parse_v4 parse_ip parse_u32 ip)
          (filter (\<lambda>e. e \<noteq> []) (map str_trim (split_on CHR '','' raw)))
      | None \<Rightarrow> ip_matches parse_v4 parse_ip parse_u32 ip ''172.30.32.0/23'')"

definition path_char :: "char \<Rightarrow> bool" where
  "path_char c \<longleftrightarrow> (let n = of_char c :: nat in
     48 \<le> n \<and> n \<le> 57 \<or> 65 \<le> n \<and> n \<le> 90 \<or> 97 \<le> n \<and> n \<le> 122) \<or> c \<in> set ''/_-.''"

fun has_dots :: "string \<Rightarrow> bool" where
  "has_dots (a # b # s) = (a = CHR ''.'' \<and> b = CHR ''.'' \<or> has_dots (b # s))"
| "has_dots s = False"

definition valid_ingress_path :: "string \<Rightarrow> bool" where
  "valid_ingress_path v \<longleftrightarrow> starts_with v ''/'' \<and> length v > 1 \<and> length v \<le> 256 \<and> \<not> has_dots v \<and>
     last v \<noteq> CHR ''/'' \<and> list_all path_char v"

text \<open>\<open>trim_end_matches('/')\<close>.\<close>

definition trim_slashes :: "string \<Rightarrow> string" where
  "trim_slashes s = List.rev (dropWhile (\<lambda>c. c = CHR ''/'') (List.rev s))"

definition request_ingress_base ::
  "bool \<Rightarrow> (ip_addr \<Rightarrow> bool) \<Rightarrow> ip_addr option \<Rightarrow> headers \<Rightarrow> string option" where
  "request_ingress_base enabled trusted peer h =
     (if \<not> enabled then None
      else case peer of None \<Rightarrow> None | Some ip \<Rightarrow>
        (if \<not> trusted ip then None
         else case map_of h ''x-ingress-path'' of None \<Rightarrow> None
           | Some v \<Rightarrow> let value = trim_slashes (str_trim v) in if valid_ingress_path value then Some value else None))"

section \<open>Runs\<close>

datatype auth_event =
    AuthBootstrap string string string u64
  | AuthStatus headers u64
  | AuthRequest bool bool http_request u64
  | AuthTakeSecret

fun auth_step :: "(string \<Rightarrow> u8 list) \<Rightarrow> auth_state \<Rightarrow> auth_event \<Rightarrow> auth_state" where
  "auth_step hash st (AuthBootstrap supplied session csrf now) = snd (auth_bootstrap hash supplied session csrf now st)"
| "auth_step hash st (AuthStatus h now) = snd (auth_status True h now st)"
| "auth_step hash st (AuthRequest ingress required rq now) = snd (auth_middleware ingress required rq now st)"
| "auth_step hash st AuthTakeSecret = snd (take_bootstrap_secret st)"

text \<open>
  Every session there is was made by a bootstrap with the secret; and as long as the secret is unused
  there is none.
\<close>

definition earned :: "(string \<Rightarrow> u8 list) \<Rightarrow> u8 list \<Rightarrow> auth_event set \<Rightarrow> auth_state \<Rightarrow> bool" where
  "earned hash secret past st \<longleftrightarrow>
     (\<forall>token s. map_of (au_sessions st) token = Some s \<longrightarrow>
        (\<exists>supplied now. AuthBootstrap supplied token (as_csrf s) now \<in> past \<and> hash supplied = secret \<and>
           as_expires_at s = now + SESSION_TTL)) \<and>
     hm_wf (au_sessions st) \<and> length (au_sessions st) \<le> 1 \<and>
     (\<forall>h. au_bootstrap_hash st = Some h \<longrightarrow> h = secret \<and> au_sessions st = [])"

lemma earned_mono: "earned hash secret past st \<Longrightarrow> past \<subseteq> past' \<Longrightarrow> earned hash secret past' st"
  unfolding earned_def by blast

lemma earned_session: "earned hash secret past st \<Longrightarrow> earned hash secret past (snd (auth_session_of h now st))"
proof -
  assume a: "earned hash secret past st"
  have "length (hm_remove t (au_sessions st)) \<le> length (au_sessions st)" for t
    unfolding hm_remove_def by (rule length_delete_le)
  with a show ?thesis
    by (auto simp: auth_session_of_def earned_def split: option.splits intro: order_trans)
qed

lemma earned_step: "earned hash secret past st \<Longrightarrow> earned hash secret (insert e past) (auth_step hash st e)"
proof -
  assume "earned hash secret past st"
  then have a: "earned hash secret (insert e past) st" by (rule earned_mono) blast
  show ?thesis
  proof (cases e)
    case (AuthBootstrap supplied session csrf now)
    then show ?thesis using a
      by (auto simp: auth_bootstrap_def constant_time_eq_iff earned_def hm_insert_def hm_wf_def split: option.splits)
  next
    case (AuthStatus h now)
    then show ?thesis using earned_session [OF a, of h now] by (auto simp: auth_status_def split: prod.splits)
  next
    case (AuthRequest ingress required rq now)
    then show ?thesis using a earned_session [OF a, of "rq_headers rq" now]
      by (auto simp: auth_middleware_def Let_def split: prod.splits option.splits)
  next
    case AuthTakeSecret
    then show ?thesis using a by (simp add: take_bootstrap_secret_def earned_def)
  qed
qed

lemma earned_run: "earned hash secret past st \<Longrightarrow> earned hash secret (past \<union> set es) (foldl (auth_step hash) st es)"
proof (induction es arbitrary: past st)
  case (Cons e es)
  from Cons.IH [OF earned_step [OF Cons.prems, of e]] show ?case by simp
qed simp

lemma earned_new: "earned hash (the (au_bootstrap_hash (fst (auth_new hash env generated w file)))) {}
    (fst (auth_new hash env generated w file))"
  by (auto simp: auth_new_def earned_def split: option.splits)

lemma guarded_pass:
  assumes "fst (auth_middleware False True rq now st) = AuthPass"
    and "\<not> is_public (rq_path rq)" "\<not> is_native_bridge (rq_path rq)"
    and "requires_controller_auth (rq_path rq) \<or> is_protected (rq_path rq) (rq_method rq)"
    and "rq_method rq \<noteq> ''GET''" "rq_method rq \<noteq> ''HEAD''"
  shows "\<exists>token s. cookie_token (rq_headers rq) = Some token \<and> map_of (au_sessions st) token = Some s \<and>
    now < as_expires_at s \<and> same_origin (rq_headers rq) \<and> map_of (rq_headers rq) ''x-uhc-csrf-token'' = Some (as_csrf s)"
  using assms
  by (auto simp: auth_middleware_def Let_def auth_session_of_def csrf_matches_def constant_time_eq_iff token_bytes_inj
      split: option.splits if_splits prod.splits)

end
