(* ===== verification/Cloud_Commands.thy ===== *)
theory Cloud_Commands
  imports Uhc_Prelude Float64
begin

text \<open>
  The commands of the cloud relay (cloud\_connector/commands.rs, and the branch of runtime.rs that
  handles one): the verification of a signed grant with its replay cache, and the ledger of results. What
  third-party code computes is one record of parameters: Base64, the JSON readers of header and claims,
  the signature check, the hash of a payload. Identifiers are their texts; an \<open>i64\<close> is an \<open>int\<close>, with
  the saturation of the code written out.
\<close>

definition MAX_REPLAY_REQUESTS :: nat where "MAX_REPLAY_REQUESTS = 256"

definition sat_i64 :: "int \<Rightarrow> int" where
  "sat_i64 x = max (- (2 ^ 63)) (min (2 ^ 63 - 1) x)"

datatype cloud_action =
    CloudPlayPause | CloudNext | CloudPrevious | CloudVolumeUp | CloudVolumeDown | CloudVolumeAbsolute f64

definition action_scope :: "cloud_action \<Rightarrow> string" where
  "action_scope a = ''playback_control''"

record command_payload =
  cy_zone_handle :: string
  cy_action :: cloud_action

record grant_claims =
  gc_protocol_version :: u16
  gc_issuer :: string
  gc_audience :: string
  gc_installation_id :: string
  gc_control_node_id :: string
  gc_request_id :: string
  gc_idempotency_key :: string
  gc_scope :: string
  gc_payload_sha256 :: string
  gc_epoch :: u64
  gc_issued_at :: int
  gc_expires_at :: int
  gc_generation :: u64

record command_envelope =
  ce_protocol_version :: u16
  ce_installation_id :: string
  ce_control_node_id :: string
  ce_epoch :: u64
  ce_message_id :: string
  ce_request_id :: string
  ce_idempotency_key :: string
  ce_created_at :: int
  ce_expires_at :: int
  ce_payload :: command_payload
  ce_grant :: string

datatype grant_error =
    GrantMalformed | GrantUnknownKey | GrantInvalidSignature | GrantBindingMismatch | GrantWrongAudience
  | GrantRevoked | GrantExpired | GrantReplayed | GrantAtCapacity

record jws_header =
  jh_alg :: string
  jh_key_id :: string

record cloud_crypto =
  cr_base64 :: "string \<Rightarrow> u8 list option"
  cr_header :: "u8 list \<Rightarrow> jws_header option"
  cr_signature :: "u8 list \<Rightarrow> u8 list option"
  cr_claims :: "u8 list \<Rightarrow> grant_claims option"
  cr_verify :: "u8 list \<Rightarrow> string \<Rightarrow> u8 list \<Rightarrow> bool"
  cr_payload_hash :: "command_payload \<Rightarrow> string option"

definition handle_byte :: "char \<Rightarrow> bool" where
  "handle_byte c \<longleftrightarrow> (let n = of_char c :: nat in
     48 \<le> n \<and> n \<le> 57 \<or> 65 \<le> n \<and> n \<le> 90 \<or> 97 \<le> n \<and> n \<le> 122) \<or> c \<in> set ''_-''"

definition payload_well_formed :: "command_payload \<Rightarrow> bool" where
  "payload_well_formed p \<longleftrightarrow>
     16 \<le> length (cy_zone_handle p) \<and> length (cy_zone_handle p) \<le> 128 \<and> list_all handle_byte (cy_zone_handle p) \<and>
     (case cy_action p of CloudVolumeAbsolute v \<Rightarrow> is_finite v | _ \<Rightarrow> True)"

text \<open>\<open>decode_jws\<close>: the header, the signed text, the bytes of the claims, the signature.\<close>

definition decode_jws ::
  "cloud_crypto \<Rightarrow> string \<Rightarrow> grant_error + (jws_header \<times> string \<times> u8 list \<times> u8 list)" where
  "decode_jws cr input =
     (case split_on CHR ''.'' input of
        [h, p, s] \<Rightarrow>
          (case Option.bind (cr_base64 cr h) (cr_header cr) of None \<Rightarrow> Inl GrantMalformed
           | Some header \<Rightarrow>
               (if jh_alg header \<noteq> ''EdDSA'' \<or> jh_key_id header = [] then Inl GrantMalformed
                else case cr_base64 cr p of None \<Rightarrow> Inl GrantMalformed
                | Some payload \<Rightarrow>
                    (case Option.bind (cr_base64 cr s) (cr_signature cr) of None \<Rightarrow> Inl GrantMalformed
                     | Some sig \<Rightarrow> Inr (header, h @ ''.'' @ p, payload, sig))))
      | _ \<Rightarrow> Inl GrantMalformed)"

section \<open>The verifier\<close>

record grant_verifier =
  gv_issuer :: string
  gv_audience :: string
  gv_installation_id :: string
  gv_epoch :: u64
  gv_generation :: u64
  gv_keys :: "(string \<times> u8 list) list"
  gv_seen :: "(string \<times> int) list"

definition grant_verifier_new :: "string \<Rightarrow> string \<Rightarrow> string \<Rightarrow> u64 \<Rightarrow> u64 \<Rightarrow> grant_verifier" where
  "grant_verifier_new issuer audience installation epoch generation =
     \<lparr>gv_issuer = issuer, gv_audience = audience, gv_installation_id = installation, gv_epoch = epoch,
      gv_generation = generation, gv_keys = [], gv_seen = []\<rparr>"

definition pin_key :: "string \<Rightarrow> u8 list \<Rightarrow> grant_verifier \<Rightarrow> grant_verifier" where
  "pin_key i k v = v\<lparr>gv_keys := hm_insert i k (gv_keys v)\<rparr>"

definition revoke_generation :: "u64 \<Rightarrow> grant_verifier \<Rightarrow> grant_verifier" where
  "revoke_generation g v = v\<lparr>gv_generation := g, gv_seen := []\<rparr>"

text \<open>The claims of an envelope whose grant is signed by a pinned key.\<close>

definition signed_claims :: "cloud_crypto \<Rightarrow> command_envelope \<Rightarrow> grant_verifier \<Rightarrow> grant_error + grant_claims" where
  "signed_claims cr e v =
     (case decode_jws cr (ce_grant e) of Inl x \<Rightarrow> Inl x | Inr (header, body, payload, sig) \<Rightarrow>
     (case map_of (gv_keys v) (jh_key_id header) of None \<Rightarrow> Inl GrantUnknownKey | Some key \<Rightarrow>
        (if \<not> cr_verify cr key body sig then Inl GrantInvalidSignature
         else case cr_claims cr payload of None \<Rightarrow> Inl GrantMalformed | Some c \<Rightarrow> Inr c)))"

definition claims_bind :: "command_envelope \<Rightarrow> grant_verifier \<Rightarrow> string \<Rightarrow> grant_claims \<Rightarrow> bool" where
  "claims_bind e v payload_hash c \<longleftrightarrow>
     gc_protocol_version c = 1 \<and> ce_installation_id e = gv_installation_id v \<and> ce_epoch e = gv_epoch v \<and>
     gc_issuer c = gv_issuer v \<and> gc_installation_id c = gv_installation_id v \<and>
     gc_control_node_id c = ce_control_node_id e \<and> gc_epoch c = gv_epoch v \<and> gc_generation c = gv_generation v \<and>
     gc_request_id c = ce_request_id e \<and> gc_idempotency_key c = ce_idempotency_key e \<and>
     gc_scope c = action_scope (cy_action (ce_payload e)) \<and> gc_payload_sha256 c = payload_hash \<and>
     gc_expires_at c = ce_expires_at e"

definition claims_live :: "int \<Rightarrow> grant_claims \<Rightarrow> bool" where
  "claims_live now c \<longleftrightarrow> \<not> (gc_expires_at c \<le> now \<or> gc_issued_at c > sat_i64 (now + 60000) \<or>
     sat_i64 (gc_expires_at c - gc_issued_at c) > 15000)"

definition seen_lately :: "int \<Rightarrow> (string \<times> int) list \<Rightarrow> (string \<times> int) list" where
  "seen_lately now seen = filter (\<lambda>e. sat_i64 (now - snd e) \<le> 60000) seen"

definition verify_command ::
  "cloud_crypto \<Rightarrow> command_envelope \<Rightarrow> int \<Rightarrow> grant_verifier \<Rightarrow>
     (grant_error + (grant_claims \<times> command_payload)) \<times> grant_verifier" where
  "verify_command cr e now v =
     (if ce_protocol_version e \<noteq> 1 \<or> ce_expires_at e \<le> now then (Inl GrantExpired, v)
      else case signed_claims cr e v of Inl x \<Rightarrow> (Inl x, v) | Inr c \<Rightarrow>
        (if \<not> claims_live now c then (Inl GrantExpired, v)
         else if gc_generation c < gv_generation v then (Inl GrantRevoked, v)
         else if gc_audience c \<noteq> gv_audience v then (Inl GrantWrongAudience, v)
         else if \<not> payload_well_formed (ce_payload e) then (Inl GrantBindingMismatch, v)
         else case cr_payload_hash cr (ce_payload e) of None \<Rightarrow> (Inl GrantMalformed, v) | Some h \<Rightarrow>
           (if \<not> claims_bind e v h c then (Inl GrantBindingMismatch, v)
            else let kept = seen_lately now (gv_seen v); v' = v\<lparr>gv_seen := kept\<rparr> in
              if map_of kept (ce_request_id e) \<noteq> None then (Inl GrantReplayed, v')
              else if length kept \<ge> MAX_REPLAY_REQUESTS then (Inl GrantAtCapacity, v')
              else (Inr (c, ce_payload e), v\<lparr>gv_seen := hm_insert (ce_request_id e) now kept\<rparr>))))"

section \<open>The ledger\<close>

datatype cloud_outcome =
    CloudExecuted | CloudRejected | CloudExpired | CloudBusy | CloudInstallationOffline | CloudForbidden
  | CloudUnknownOutcome | CloudStaleState

record ledger_entry =
  lg_outcome :: cloud_outcome
  lg_recorded_at :: nat
  lg_payload_hash :: "string option"

type_synonym command_ledger = "(string \<times> ledger_entry) list"

datatype ledger_error = LedgerAtCapacity | LedgerConflict

definition ledger_expire :: "nat \<Rightarrow> command_ledger \<Rightarrow> command_ledger" where
  "ledger_expire now l = filter (\<lambda>e. lg_recorded_at (snd e) = 0 \<or> now - lg_recorded_at (snd e) \<le> 60000) l"

definition ledger_is_full :: "command_ledger \<Rightarrow> bool" where
  "ledger_is_full l \<longleftrightarrow> length l \<ge> 256"

definition record_at :: "string \<Rightarrow> cloud_outcome \<Rightarrow> nat \<Rightarrow> command_ledger \<Rightarrow> command_ledger" where
  "record_at k outcome now l =
     (let l1 = ledger_expire now l in
      if length l1 < 256 \<or> map_of l1 k \<noteq> None
      then hm_insert k \<lparr>lg_outcome = outcome, lg_recorded_at = now, lg_payload_hash = None\<rparr> l1 else l1)"

definition get_at :: "string \<Rightarrow> nat \<Rightarrow> command_ledger \<Rightarrow> cloud_outcome option \<times> command_ledger" where
  "get_at k now l = (let l1 = ledger_expire now l in (map_option lg_outcome (map_of l1 k), l1))"

definition lookup_command_at ::
  "string \<Rightarrow> string \<Rightarrow> nat \<Rightarrow> command_ledger \<Rightarrow> (ledger_error + cloud_outcome option) \<times> command_ledger" where
  "lookup_command_at k payload_hash now l =
     (let l1 = ledger_expire now l in
      (case map_of l1 k of None \<Rightarrow> Inr None
       | Some e \<Rightarrow> if lg_payload_hash e = Some payload_hash then Inr (Some (lg_outcome e)) else Inl LedgerConflict, l1))"

definition record_command_at ::
  "string \<Rightarrow> string \<Rightarrow> cloud_outcome \<Rightarrow> nat \<Rightarrow> command_ledger \<Rightarrow> (ledger_error + unit) \<times> command_ledger" where
  "record_command_at k payload_hash outcome now l =
     (let l1 = ledger_expire now l in
      case map_of l1 k of
        Some e \<Rightarrow> (if lg_payload_hash e = Some payload_hash then Inr () else Inl LedgerConflict, l1)
      | None \<Rightarrow>
          (if ledger_is_full l1 then (Inl LedgerAtCapacity, l1)
           else (Inr (), hm_insert k \<lparr>lg_outcome = outcome, lg_recorded_at = now, lg_payload_hash = Some payload_hash\<rparr> l1)))"

section \<open>One command\<close>

record command_session =
  cx_verifier :: grant_verifier
  cx_ledger :: command_ledger

text \<open>
  The branch for a command: the answer, and whether \<open>dispatch\<close> was called; \<open>executed\<close> is what it
  returns. \<open>None\<close> is the error that ends the connection.
\<close>

definition as_u64 :: "int \<Rightarrow> nat" where "as_u64 x = nat (x mod 2 ^ 64)"

definition handle_command ::
  "cloud_crypto \<Rightarrow> cloud_outcome \<Rightarrow> int \<Rightarrow> command_envelope \<Rightarrow> command_session \<Rightarrow>
     (cloud_outcome option \<times> bool) \<times> command_session" where
  "handle_command cr executed now e s =
     (let h = cr_payload_hash cr (ce_payload e); k = ce_idempotency_key e in
      case verify_command cr e now (cx_verifier s) of
        (Inr _, v) \<Rightarrow>
          (case h of None \<Rightarrow> ((None, False), s\<lparr>cx_verifier := v\<rparr>)
           | Some ph \<Rightarrow>
               (case lookup_command_at k ph (as_u64 now) (cx_ledger s) of
                  (Inr (Some previous), l) \<Rightarrow> ((Some previous, False), s\<lparr>cx_verifier := v, cx_ledger := l\<rparr>)
                | (Inl LedgerConflict, l) \<Rightarrow> ((Some CloudForbidden, False), s\<lparr>cx_verifier := v, cx_ledger := l\<rparr>)
                | (Inl LedgerAtCapacity, l) \<Rightarrow> ((Some CloudBusy, False), s\<lparr>cx_verifier := v, cx_ledger := l\<rparr>)
                | (Inr None, l) \<Rightarrow>
                    (if ledger_is_full l then ((Some CloudBusy, False), s\<lparr>cx_verifier := v, cx_ledger := l\<rparr>)
                     else case record_command_at k ph executed (as_u64 now) l of
                       (Inl x, l') \<Rightarrow> ((Some CloudBusy, True), s\<lparr>cx_verifier := v, cx_ledger := l'\<rparr>)
                     | (Inr _, l') \<Rightarrow> ((Some executed, True), s\<lparr>cx_verifier := v, cx_ledger := l'\<rparr>))))
      | (Inl GrantReplayed, v) \<Rightarrow>
          (case h of None \<Rightarrow> ((Some CloudForbidden, False), s\<lparr>cx_verifier := v\<rparr>)
           | Some ph \<Rightarrow>
               (case lookup_command_at k ph (as_u64 now) (cx_ledger s) of
                  (Inr (Some previous), l) \<Rightarrow> ((Some previous, False), s\<lparr>cx_verifier := v, cx_ledger := l\<rparr>)
                | (_, l) \<Rightarrow> ((Some CloudForbidden, False), s\<lparr>cx_verifier := v, cx_ledger := l\<rparr>)))
      | (Inl GrantAtCapacity, v) \<Rightarrow> ((Some CloudBusy, False), s\<lparr>cx_verifier := v\<rparr>)
      | (Inl GrantExpired, v) \<Rightarrow> ((Some CloudExpired, False), s\<lparr>cx_verifier := v\<rparr>)
      | (Inl x, v) \<Rightarrow> ((Some CloudForbidden, False), s\<lparr>cx_verifier := v\<rparr>))"

section \<open>Used once\<close>

text \<open>What a session does between two commands: other commands, and revocations.\<close>

datatype session_event = SessionCommand cloud_outcome int command_envelope | SessionRevoke u64

fun session_step :: "cloud_crypto \<Rightarrow> command_session \<Rightarrow> session_event \<Rightarrow> command_session" where
  "session_step cr s (SessionCommand executed now e) = snd (handle_command cr executed now e s)"
| "session_step cr s (SessionRevoke g) = s\<lparr>cx_verifier := revoke_generation g (cx_verifier s)\<rparr>"

fun session_forward :: "int \<Rightarrow> session_event list \<Rightarrow> bool" where
  "session_forward t [] = (t < 2 ^ 63)"
| "session_forward t (SessionCommand x now e # es) = (t \<le> now \<and> session_forward now es)"
| "session_forward t (SessionRevoke g # es) = session_forward t es"

lemma verifier_step: "cx_verifier (snd (handle_command cr x now e s)) = snd (verify_command cr e now (cx_verifier s))"
  by (auto simp: handle_command_def Let_def
      split: prod.splits sum.splits option.splits grant_error.splits ledger_error.splits)

lemma dispatched_verified:
  "snd (fst (handle_command cr x now e s)) \<Longrightarrow> \<exists>r. fst (verify_command cr e now (cx_verifier s)) = Inr r"
  by (auto simp: handle_command_def Let_def
      split: prod.splits sum.splits option.splits grant_error.splits ledger_error.splits)

lemma verified_facts:
  assumes "verify_command cr e now v = (Inr (c, p), v')"
  shows "signed_claims cr e v = Inr c \<and> claims_live now c \<and> gc_generation c = gv_generation v \<and>
    map_of (seen_lately now (gv_seen v)) (ce_request_id e) = None \<and>
    v' = v\<lparr>gv_seen := hm_insert (ce_request_id e) now (seen_lately now (gv_seen v))\<rparr>"
  using assms
  by (auto simp: verify_command_def Let_def claims_bind_def split: if_splits sum.splits option.splits)

lemma verify_frames: "snd (verify_command cr e now v) = v\<lparr>gv_seen := gv_seen (snd (verify_command cr e now v))\<rparr>"
  by (auto simp: verify_command_def Let_def split: if_splits sum.splits option.splits)

lemma verify_seen:
  "gv_seen (snd (verify_command cr e now v)) = gv_seen v \<or>
   gv_seen (snd (verify_command cr e now v)) = seen_lately now (gv_seen v) \<or>
   map_of (seen_lately now (gv_seen v)) (ce_request_id e) = None \<and>
     gv_seen (snd (verify_command cr e now v)) = hm_insert (ce_request_id e) now (seen_lately now (gv_seen v))"
  by (auto simp: verify_command_def Let_def split: if_splits sum.splits option.splits)

lemma verify_frame:
  "gv_generation (snd (verify_command cr e now v)) = gv_generation v"
  "gv_keys (snd (verify_command cr e now v)) = gv_keys v"
  by (auto simp: verify_command_def Let_def split: if_splits sum.splits option.splits)

lemma signed_claims_keys: "gv_keys v = gv_keys v' \<Longrightarrow> signed_claims cr e v = signed_claims cr e v'"
  by (simp add: signed_claims_def split: sum.splits prod.splits)

lemma seen_lately_lookup:
  "hm_wf seen \<Longrightarrow> map_of (seen_lately now seen) k =
     (case map_of seen k of None \<Rightarrow> None | Some u \<Rightarrow> if sat_i64 (now - u) \<le> 60000 then Some u else None)"
  unfolding seen_lately_def using map_of_filter_value [of seen "\<lambda>u. sat_i64 (now - u) \<le> 60000" k] by simp

lemma hm_wf_seen_lately: "hm_wf seen \<Longrightarrow> hm_wf (seen_lately now seen)"
  unfolding seen_lately_def hm_wf_def by (rule distinct_map_filter)

text \<open>
  After an acceptance at \<open>t\<close>: the request is still in the cache, or more than a minute has passed, or
  the generation is another one.
\<close>

definition used_up :: "string \<Rightarrow> u64 \<Rightarrow> int \<Rightarrow> int \<Rightarrow> grant_verifier \<Rightarrow> bool" where
  "used_up rid g t cur v \<longleftrightarrow> hm_wf (gv_seen v) \<and>
     (gv_generation v \<noteq> g \<or> 60000 < cur - t \<or> (\<exists>u. map_of (gv_seen v) rid = Some u \<and> t \<le> u \<and> u \<le> cur))"

lemma seen_lately_used:
  assumes "hm_wf seen" "map_of seen rid = Some u" "t \<le> u" "u \<le> now" "0 \<le> t" "now < 2 ^ 63"
  shows "60000 < now - t \<or> map_of (seen_lately now seen) rid = Some u"
proof -
  have "sat_i64 (now - u) = now - u" using assms(3-6) by (simp add: sat_i64_def)
  then show ?thesis using assms by (simp add: seen_lately_lookup)
qed

lemma used_up_verify:
  assumes u: "used_up rid g t cur v" and time: "0 \<le> t" "cur \<le> now" "now < 2 ^ 63"
  shows "used_up rid g t now (snd (verify_command cr e now v))"
proof -
  let ?v = "snd (verify_command cr e now v)"
  have wf: "hm_wf (gv_seen v)" using u by (simp add: used_up_def)
  then have wf': "hm_wf (gv_seen ?v)"
    using verify_seen [of cr e now v] hm_wf_seen_lately [OF wf, of now] by (elim disjE) auto
  consider "gv_generation v \<noteq> g" | "60000 < cur - t" | w where "map_of (gv_seen v) rid = Some w" "t \<le> w" "w \<le> cur"
    using u by (auto simp: used_up_def)
  then show ?thesis
  proof cases
    case (3 w)
    have w: "w \<le> now" using 3(3) time(2) by simp
    have "60000 < now - t \<or> map_of (gv_seen ?v) rid = Some w \<or> map_of (gv_seen ?v) rid = Some now"
      using verify_seen [of cr e now v] seen_lately_used [OF wf 3(1, 2) w time(1, 3)] 3(1) by auto
    then show ?thesis using wf' w 3(2) by (auto simp: used_up_def)
  qed (use wf' time in \<open>simp_all add: used_up_def verify_frame\<close>)
qed

lemma session_forward_now: "session_forward t es \<Longrightarrow> t < 2 ^ 63"
  by (induction t es rule: session_forward.induct) auto

lemma used_up_step:
  assumes "used_up rid g t cur (cx_verifier s)" "0 \<le> t" "\<And>g'. ev = SessionRevoke g' \<Longrightarrow> g' \<noteq> g"
    and "session_forward cur (ev # es)"
  shows "\<exists>cur'. used_up rid g t cur' (cx_verifier (session_step cr s ev)) \<and> session_forward cur' es"
proof (cases ev)
  case (SessionCommand x now e)
  then have f: "cur \<le> now" "session_forward now es" using assms(4) by simp_all
  from used_up_verify [OF assms(1, 2) f(1) session_forward_now [OF f(2)], of cr e] f(2)
  show ?thesis by (auto simp: SessionCommand verifier_step)
next
  case (SessionRevoke g')
  then show ?thesis using assms(3, 4) by (auto simp: used_up_def revoke_generation_def)
qed

lemma used_up_run:
  "used_up rid g t cur (cx_verifier s) \<Longrightarrow> 0 \<le> t \<Longrightarrow> SessionRevoke g \<notin> set es \<Longrightarrow> session_forward cur (es @ fs) \<Longrightarrow>
     \<exists>cur'. used_up rid g t cur' (cx_verifier (foldl (session_step cr) s es)) \<and> session_forward cur' fs"
proof (induction es arbitrary: s cur)
  case (Cons ev es)
  have "\<And>g'. ev = SessionRevoke g' \<Longrightarrow> g' \<noteq> g" using Cons.prems(3) by auto
  from used_up_step [OF Cons.prems(1, 2) this, where es = "es @ fs" and cr = cr] Cons.prems(4) obtain cur' where
    "used_up rid g t cur' (cx_verifier (session_step cr s ev))" "session_forward cur' (es @ fs)" by auto
  then show ?case using Cons.IH [of cur' "session_step cr s ev"] Cons.prems(2, 3) by simp
qed auto

lemma session_keys: "gv_keys (cx_verifier (foldl (session_step cr) s es)) = gv_keys (cx_verifier s)"
proof (induction es arbitrary: s)
  case (Cons ev es)
  have "gv_keys (cx_verifier (session_step cr s ev)) = gv_keys (cx_verifier s)"
    by (cases ev) (simp_all add: verifier_step verify_frame revoke_generation_def)
  then show ?case using Cons.IH by simp
qed simp

lemma signed_claims_grant:
  "gv_keys v = gv_keys v' \<Longrightarrow> ce_grant e = ce_grant e' \<Longrightarrow> signed_claims cr e v = signed_claims cr e' v'"
  by (simp add: signed_claims_def split: sum.splits prod.splits)

lemma verified_request:
  "verify_command cr e now v = (Inr r, v') \<Longrightarrow> signed_claims cr e v = Inr c \<Longrightarrow> ce_request_id e = gc_request_id c"
  by (auto simp: verify_command_def Let_def claims_bind_def split: if_splits sum.splits option.splits)

lemma accepted_used_up:
  assumes "verify_command cr e t v = (Inr (c, p), v')" "hm_wf (gv_seen v)"
  shows "used_up (gc_request_id c) (gc_generation c) t t v'"
  using verified_facts [OF assms(1)] verified_request [OF assms(1)] hm_wf_seen_lately [OF assms(2)]
  by (auto simp: used_up_def)

lemma used_up_refused:
  assumes u: "used_up (gc_request_id c) (gc_generation c) t cur v" and c: "signed_claims cr e v = Inr c"
    and time: "0 \<le> t" "cur \<le> now" "now < 2 ^ 63" and issued: "gc_issued_at c \<le> t + 45000"
  shows "fst (verify_command cr e now v) \<noteq> Inr r"
proof
  assume a: "fst (verify_command cr e now v) = Inr r"
  obtain v' where "verify_command cr e now v = (Inr r, v')" using a by (cases "verify_command cr e now v") auto
  then obtain p where v: "verify_command cr e now v = (Inr (c, p), v')"
    using verified_facts [of cr e now v "fst r" "snd r" v'] c by (cases r) auto
  note f = verified_facts [OF v]
  have live: "claims_live now c" using f by simp
  have "gc_expires_at c - gc_issued_at c \<le> 15000"
    using live by (auto simp: claims_live_def sat_i64_def)
  moreover have "now < gc_expires_at c" using live by (simp add: claims_live_def)
  ultimately have soon: "now < t + 60000" using issued by simp
  have "gv_generation v = gc_generation c" using f by simp
  then obtain w where w: "map_of (gv_seen v) (gc_request_id c) = Some w" "t \<le> w" "w \<le> cur"
    and wf: "hm_wf (gv_seen v)" using u soon time(2) by (auto simp: used_up_def)
  have "w \<le> now" using w(3) time(2) by simp
  from seen_lately_used [OF wf w(1, 2) this time(1, 3)] soon
  have "map_of (seen_lately now (gv_seen v)) (gc_request_id c) = Some w" by simp
  then show False using f verified_request [OF v c] by simp
qed

lemma grant_dispatched_once:
  assumes first: "snd (fst (handle_command cr x t e s))" and c: "signed_claims cr e (cx_verifier s) = Inr c"
    and "hm_wf (gv_seen (cx_verifier s))" "0 \<le> t" "gc_issued_at c \<le> t + 45000"
    and "session_forward t (es @ [SessionCommand x' now e'])" "SessionRevoke (gc_generation c) \<notin> set es"
    and "ce_grant e' = ce_grant e"
  shows "\<not> snd (fst (handle_command cr x' now e' (foldl (session_step cr) (snd (handle_command cr x t e s)) es)))"
proof
  let ?s1 = "snd (handle_command cr x t e s)" let ?s2 = "foldl (session_step cr) ?s1 es"
  assume "snd (fst (handle_command cr x' now e' ?s2))"
  then obtain r where r: "fst (verify_command cr e' now (cx_verifier ?s2)) = Inr r" using dispatched_verified by blast
  obtain r0 where "fst (verify_command cr e t (cx_verifier s)) = Inr r0" using dispatched_verified [OF first] by blast
  then obtain c0 p0 v0 where v0: "verify_command cr e t (cx_verifier s) = (Inr (c0, p0), v0)"
    by (cases "verify_command cr e t (cx_verifier s)"; cases r0) auto
  then have "c0 = c" using verified_facts [OF v0] c by simp
  then have "used_up (gc_request_id c) (gc_generation c) t t (cx_verifier ?s1)"
    using accepted_used_up [OF v0 assms(3)] by (simp add: verifier_step v0)
  from used_up_run [OF this assms(4, 7, 6), of cr] obtain cur where
    u: "used_up (gc_request_id c) (gc_generation c) t cur (cx_verifier ?s2)"
    and f: "session_forward cur [SessionCommand x' now e']" by blast
  have "gv_keys (cx_verifier ?s2) = gv_keys (cx_verifier s)"
    by (simp add: session_keys verifier_step verify_frame)
  then have "signed_claims cr e' (cx_verifier ?s2) = Inr c" using signed_claims_grant assms(8) c by metis
  from used_up_refused [OF u this assms(4) _ _ assms(5)] f r show False by simp
qed

section \<open>A grant that outlives the cache\<close>

text \<open>
  A grant may expire up to 75 seconds after it was accepted: it may be issued a minute in the future and
  live for 15 seconds more. The cache and the ledger forget it after 60.
\<close>

lemma verified_checks:
  assumes "verify_command cr e now v = (Inr r, v')"
  shows "ce_protocol_version e = 1 \<and> gc_audience c = gv_audience v \<or> signed_claims cr e v \<noteq> Inr c"
    and "signed_claims cr e v = Inr c \<Longrightarrow> ce_protocol_version e = 1 \<and> payload_well_formed (ce_payload e) \<and>
      length (seen_lately now (gv_seen v)) < MAX_REPLAY_REQUESTS \<and>
      (\<exists>h. cr_payload_hash cr (ce_payload e) = Some h \<and> claims_bind e v h c)"
  using assms by (auto simp: verify_command_def Let_def split: if_splits sum.splits option.splits)

lemma length_seen_lately: "length (seen_lately u xs) \<le> length xs"
  by (simp add: seen_lately_def)

lemma seen_lately_forgets:
  assumes "0 \<le> t" "t + 60001 < x" "x < (2::int) ^ 63"
  shows "seen_lately (t + 60001) (xs @ [(k, t)]) = seen_lately (t + 60001) xs"
  using assms by (simp add: seen_lately_def sat_i64_def)

lemma verify_again:
  assumes v: "verify_command cr e t v = (Inr (c, p), v')" and wf: "hm_wf (gv_seen v)"
    and "0 \<le> t" "t + 60001 < gc_expires_at c" "gc_expires_at c < 2 ^ 63"
  shows "\<exists>r. fst (verify_command cr e (t + 60001) v') = Inr r"
proof -
  let ?u = "t + 60001" let ?kept = "seen_lately t (gv_seen v)" let ?rid = "ce_request_id e"
  note f = verified_facts [OF v]
  have c: "signed_claims cr e v = Inr c" and live: "claims_live t c" and new: "map_of ?kept ?rid = None"
    and v': "v' = v\<lparr>gv_seen := hm_insert ?rid t ?kept\<rparr>" using f by simp_all
  obtain h where h: "cr_payload_hash cr (ce_payload e) = Some h" "claims_bind e v h c"
    and ok: "ce_protocol_version e = 1" "payload_well_formed (ce_payload e)" "length ?kept < MAX_REPLAY_REQUESTS"
    using verified_checks(2) [OF v c] by blast
  have aud: "gc_audience c = gv_audience v" using verified_checks(1) [OF v, of c] c by simp
  have b: "claims_bind e v' h c" "gc_audience c = gv_audience v'" using h(2) aud by (simp_all add: claims_bind_def v')
  have "signed_claims cr e v' = Inr c" using signed_claims_keys [of v' v cr e] c by (simp add: v')
  moreover have "claims_live ?u c"
    using live assms(3-5) by (auto simp: claims_live_def sat_i64_def)
  moreover have "ce_expires_at e = gc_expires_at c" using h(2) by (simp add: claims_bind_def)
  moreover have "seen_lately ?u (gv_seen v') = seen_lately ?u ?kept"
  proof -
    have "gv_seen v' = ?kept @ [(?rid, t)]" by (simp add: v' hm_insert_fresh [OF new])
    then show ?thesis by (simp only: seen_lately_forgets [OF assms(3-5)])
  qed
  moreover have "length (seen_lately ?u ?kept) < MAX_REPLAY_REQUESTS"
    by (rule le_less_trans [OF length_seen_lately ok(3)])
  moreover have "map_of (seen_lately ?u ?kept) ?rid = None"
    using seen_lately_lookup [OF hm_wf_seen_lately [OF wf], of ?u t ?rid] new by simp
  moreover have "\<not> gc_generation c < gv_generation v'" using b(1) by (simp add: claims_bind_def)
  ultimately show ?thesis using b h(1) ok(1, 2) assms(4) by (simp add: verify_command_def Let_def)
qed

lemma ledger_forgets:
  assumes "map_of l k = None" "length l < 256" "0 < n" "n + 60000 < m" "lg_recorded_at x = n"
  shows "map_of (ledger_expire m (hm_insert k x l)) k = None \<and> length (ledger_expire m (hm_insert k x l)) < 256"
proof -
  have "ledger_expire m (hm_insert k x l) = ledger_expire m l"
    using assms(3-5) by (simp add: hm_insert_fresh [OF assms(1)] ledger_expire_def)
  moreover have "k \<notin> fst ` set (ledger_expire m l)" using assms(1) by (auto simp: ledger_expire_def map_of_eq_None_iff)
  moreover have "length (ledger_expire m l) \<le> length l" by (simp add: ledger_expire_def)
  ultimately show ?thesis using assms(2) by (simp add: map_of_eq_None_iff)
qed

lemma ledger_expire_none: "map_of l k = None \<Longrightarrow> map_of (ledger_expire m l) k = None"
  by (auto simp: ledger_expire_def map_of_eq_None_iff)

lemma length_ledger_expire: "length (ledger_expire m l) \<le> length l"
  by (simp add: ledger_expire_def)

lemma handled_fresh:
  assumes "verify_command cr e t (cx_verifier s) = (Inr q, v)" "cr_payload_hash cr (ce_payload e) = Some ph"
    "map_of (ledger_expire (as_u64 t) (cx_ledger s)) (ce_idempotency_key e) = None"
    "length (ledger_expire (as_u64 t) (cx_ledger s)) < 256"
  shows "handle_command cr x t e s =
    ((Some x, True), s\<lparr>cx_verifier := v, cx_ledger := hm_insert (ce_idempotency_key e)
       \<lparr>lg_outcome = x, lg_recorded_at = as_u64 t, lg_payload_hash = Some ph\<rparr>
       (ledger_expire (as_u64 t) (ledger_expire (as_u64 t) (cx_ledger s)))\<rparr>)"
  using assms length_ledger_expire [of "as_u64 t" "ledger_expire (as_u64 t) (cx_ledger s)"]
  by (simp add: handle_command_def Let_def lookup_command_at_def record_command_at_def ledger_is_full_def ledger_expire_none)

lemma dispatched_was_fresh:
  assumes "verify_command cr e t (cx_verifier s) = (Inr q, v)" "cr_payload_hash cr (ce_payload e) = Some ph"
    "snd (fst (handle_command cr x t e s))"
  shows "map_of (ledger_expire (as_u64 t) (cx_ledger s)) (ce_idempotency_key e) = None"
    "length (ledger_expire (as_u64 t) (cx_ledger s)) < 256"
proof -
  let ?l = "ledger_expire (as_u64 t) (cx_ledger s)"
  have "map_of ?l (ce_idempotency_key e) = None \<and> length ?l < 256"
  proof (cases "map_of ?l (ce_idempotency_key e)")
    case None
    then show ?thesis using assms
      by (cases "length ?l < 256") (simp_all add: handle_command_def Let_def lookup_command_at_def ledger_is_full_def)
  next
    case (Some y)
    then show ?thesis using assms
      by (simp add: handle_command_def Let_def lookup_command_at_def ledger_is_full_def split: if_splits option.splits)
  qed
  then show "map_of ?l (ce_idempotency_key e) = None" "length ?l < 256" by simp_all
qed

lemma replay_after_cache:
  assumes first: "snd (fst (handle_command cr x t e s))" and c: "signed_claims cr e (cx_verifier s) = Inr c"
    and wf: "hm_wf (gv_seen (cx_verifier s))" and time: "0 < t" "t + 60001 < gc_expires_at c" "gc_expires_at c < 2 ^ 63"
  shows "snd (fst (handle_command cr x' (t + 60001) e (snd (handle_command cr x t e s))))"
proof -
  let ?k = "ce_idempotency_key e" let ?n = "as_u64 t"
  obtain r0 where "fst (verify_command cr e t (cx_verifier s)) = Inr r0" using dispatched_verified [OF first] by blast
  then obtain c0 p v' where v0: "verify_command cr e t (cx_verifier s) = (Inr (c0, p), v')"
    by (cases "verify_command cr e t (cx_verifier s)"; cases r0) auto
  then have v: "verify_command cr e t (cx_verifier s) = (Inr (c, p), v')" using verified_facts [OF v0] c by simp
  obtain ph where ph: "cr_payload_hash cr (ce_payload e) = Some ph" using verified_checks(2) [OF v c] by blast
  let ?l = "ledger_expire ?n (cx_ledger s)"
  note l = dispatched_was_fresh [OF v ph first]
  let ?l2 = "ledger_expire ?n ?l"
  have l2: "map_of ?l2 ?k = None" "length ?l2 < 256"
    by (rule ledger_expire_none [OF l(1)]) (rule le_less_trans [OF length_ledger_expire l(2)])
  define y where "y = \<lparr>lg_outcome = x, lg_recorded_at = ?n, lg_payload_hash = Some ph\<rparr>"
  define s1 where "s1 = s\<lparr>cx_verifier := v', cx_ledger := hm_insert ?k y ?l2\<rparr>"
  have s1: "snd (handle_command cr x t e s) = s1"
    unfolding handled_fresh [OF v ph l] s1_def y_def snd_conv ..
  have v1: "cx_verifier s1 = v'" "cx_ledger s1 = hm_insert ?k y ?l2" by (simp_all add: s1_def)
  obtain r where r: "fst (verify_command cr e (t + 60001) v') = Inr r"
    using verify_again [OF v wf _ time(2, 3)] time(1) by auto
  then have r1: "verify_command cr e (t + 60001) (cx_verifier s1) = (Inr r, snd (verify_command cr e (t + 60001) v'))"
    unfolding v1 by (cases "verify_command cr e (t + 60001) v'") simp
  have n: "0 < ?n" "?n + 60000 < as_u64 (t + 60001)" using time by (simp_all add: as_u64_def)
  have "lg_recorded_at y = ?n" by (simp add: y_def)
  note f = ledger_forgets [OF l2 n this]
  show ?thesis unfolding s1
    by (subst handled_fresh [OF r1 ph]) (use f in \<open>simp_all add: v1\<close>)
qed

end
