(* ===== verification/Cloud_Safety.thy ===== *)
theory Cloud_Safety
  imports Uhc_Prelude
begin

text \<open>
  The containment of the cloud connector (cloud\_connector/safety.rs and retry.rs): the traffic budget,
  the quarantine marker, the attempts file, and the reconnect schedule that survives a restart. The four
  files beside the epoch file are the state; a file's content is what the code reads from its text.
  Files are replaced by a rename, so a write leaves the old content, or the new one and then perhaps an
  error of the last \<open>sync_all\<close>; which one is an input. Times are milliseconds as \<open>u64\<close>.
\<close>

definition sat_sub :: "u64 \<Rightarrow> u64 \<Rightarrow> u64" where
  "sat_sub a b = (if a \<le> b then 0 else a - b)"

definition sat_add :: "u64 \<Rightarrow> u64 \<Rightarrow> u64" where
  "sat_add a b = (if unat a + unat b < 2 ^ 64 then a + b else - 1)"

lemma unat_sat_sub: "unat (sat_sub a b) = unat a - unat b"
  by (simp add: sat_sub_def word_le_nat_alt unat_sub_if_size)

lemma unat_sat_add: "unat (sat_add a b) = min (unat a + unat b) (2 ^ 64 - 1)"
proof (cases "unat a + unat b < 2 ^ 64")
  case True
  then show ?thesis by (simp add: sat_add_def unat_add_lem [where 'a = 64, simplified, THEN iffD1])
qed (simp add: sat_add_def unsigned_minus_1_eq_mask mask_eq_exp_minus_1)

section \<open>Traffic\<close>

definition heartbeat_delay :: "u32 \<Rightarrow> nat" where
  "heartbeat_delay step = (if step = 0 then 5 else if step = 1 then 30 else if step = 2 then 120
     else if step = 3 then 300 else 900)"

record traffic_budget =
  tb_minute :: u64
  tb_hour :: u64
  tb_messages :: u32
  tb_bytes :: u64
  tb_hourly_messages :: u32
  tb_artwork :: u32

definition traffic_default :: traffic_budget where
  "traffic_default = \<lparr>tb_minute = 0, tb_hour = 0, tb_messages = 0, tb_bytes = 0, tb_hourly_messages = 0,
     tb_artwork = 0\<rparr>"

definition new_minute :: "u64 \<Rightarrow> traffic_budget \<Rightarrow> traffic_budget" where
  "new_minute now t = (if sat_sub now (tb_minute t) \<ge> 60000
     then t\<lparr>tb_minute := now, tb_messages := 0, tb_bytes := 0\<rparr> else t)"

definition new_hour :: "u64 \<Rightarrow> traffic_budget \<Rightarrow> traffic_budget" where
  "new_hour now t = (if sat_sub now (tb_hour t) \<ge> 3600000
     then t\<lparr>tb_hour := now, tb_hourly_messages := 0, tb_artwork := 0\<rparr> else t)"

definition traffic_admit :: "u64 \<Rightarrow> u64 \<Rightarrow> traffic_budget \<Rightarrow> bool \<times> traffic_budget" where
  "traffic_admit now bytes t =
     (let t1 = new_hour now (new_minute now t);
          t2 = t1\<lparr>tb_messages := sat_succ (tb_messages t1), tb_hourly_messages := sat_succ (tb_hourly_messages t1),
            tb_bytes := sat_add (tb_bytes t1) bytes\<rparr>
      in (tb_messages t2 \<le> 120 \<and> tb_hourly_messages t2 \<le> 6000 \<and> tb_bytes t2 \<le> 8 * 1024 * 1024, t2))"

definition traffic_artwork :: "traffic_budget \<Rightarrow> bool \<times> traffic_budget" where
  "traffic_artwork t = (let t1 = t\<lparr>tb_artwork := sat_succ (tb_artwork t)\<rparr> in (tb_artwork t1 \<le> 60, t1))"

section \<open>Files\<close>

text \<open>
  \<open>Unreadable\<close>: it exists, but reading fails. \<open>Linked\<close>: not a regular file, readable through the link.
  \<open>Malformed\<close>: regular, but its text does not parse.
\<close>

datatype 'a persisted = Absent | Inaccessible | Unreadable | Malformed | Linked 'a | Holds 'a

datatype safety_error =
    IoError | NotRegular | BadText | InvalidSchedule | MissingBudget | NotPaused | CoolingDown | StateUnavailable

record saved_retry =
  sr_last_ms :: u64
  sr_next_ms :: u64
  sr_step :: u32

definition saved_retry_default :: saved_retry where
  "saved_retry_default = \<lparr>sr_last_ms = 0, sr_next_ms = 0, sr_step = 0\<rparr>"

record epoch_files =
  ef_retry :: "saved_retry persisted"
  ef_attempts :: "(u64 \<times> u32) persisted"
  ef_resume :: "u64 persisted"
  ef_quarantine :: "unit persisted"

datatype write_result = Written | NotWritten | WrittenNotSynced

definition write_file :: "write_result \<Rightarrow> 'a \<Rightarrow> 'a persisted \<Rightarrow> (safety_error + unit) \<times> 'a persisted" where
  "write_file w x old = (case w of Written \<Rightarrow> (Inr (), Holds x) | NotWritten \<Rightarrow> (Inl IoError, old)
     | WrittenNotSynced \<Rightarrow> (Inl IoError, Holds x))"

text \<open>\<open>read_regular\<close>; the inner option is whether the text parses.\<close>

fun read_regular :: "'a persisted \<Rightarrow> safety_error + 'a option option" where
  "read_regular Absent = Inr None"
| "read_regular Inaccessible = Inl IoError"
| "read_regular Unreadable = Inl IoError"
| "read_regular (Linked x) = Inl NotRegular"
| "read_regular Malformed = Inr (Some None)"
| "read_regular (Holds x) = Inr (Some (Some x))"

text \<open>Read and parsed.\<close>

definition read_parsed :: "'a persisted \<Rightarrow> safety_error + 'a option" where
  "read_parsed f = (case read_regular f of Inl e \<Rightarrow> Inl e | Inr None \<Rightarrow> Inr None
     | Inr (Some None) \<Rightarrow> Inl BadText | Inr (Some (Some x)) \<Rightarrow> Inr (Some x))"

definition MAX_DELAY_MS :: u64 where "MAX_DELAY_MS = 930000"
definition HEALTHY_FOR :: nat where "HEALTHY_FOR = 15 * 60 * 10 ^ 9"
definition RESUME_COOLDOWN_MS :: u64 where "RESUME_COOLDOWN_MS = 15 * 60 * 1000"

definition schedule_ok :: "saved_retry \<Rightarrow> bool" where
  "schedule_ok r \<longleftrightarrow> \<not> (sr_step r > 3 \<or> sr_next_ms r < sr_last_ms r \<or> sr_next_ms r - sr_last_ms r > MAX_DELAY_MS)"

definition read_retry :: "epoch_files \<Rightarrow> safety_error + saved_retry" where
  "read_retry ef = (case read_parsed (ef_retry ef) of
        Inl e \<Rightarrow> Inl e
      | Inr None \<Rightarrow> Inr saved_retry_default
      | Inr (Some r) \<Rightarrow> if schedule_ok r then Inr r else Inl InvalidSchedule)"

section \<open>The quarantine\<close>

datatype quarantine_write = MarkerCreated | MarkerOpenFails | MarkerTextFails

text \<open>\<open>create_new\<close>: an existing marker of any kind is left alone.\<close>

definition quarantine :: "quarantine_write \<Rightarrow> epoch_files \<Rightarrow> (safety_error + unit) \<times> epoch_files" where
  "quarantine w ef =
     (if ef_quarantine ef \<noteq> Absent then (if ef_quarantine ef = Inaccessible then Inl IoError else Inr (), ef)
      else case w of
        MarkerCreated \<Rightarrow> (Inr (), ef\<lparr>ef_quarantine := Holds ()\<rparr>)
      | MarkerOpenFails \<Rightarrow> (Inl IoError, ef)
      | MarkerTextFails \<Rightarrow> (Inl IoError, ef\<lparr>ef_quarantine := Holds ()\<rparr>))"

definition inspect :: "epoch_files \<Rightarrow> safety_error + bool" where
  "inspect ef =
     (case read_retry ef of Inl e \<Rightarrow> Inl e | Inr _ \<Rightarrow>
     (case read_parsed (ef_resume ef) of Inl e \<Rightarrow> Inl e | Inr _ \<Rightarrow>
     (case read_parsed (ef_attempts ef) of Inl e \<Rightarrow> Inl e | Inr _ \<Rightarrow>
     (case read_regular (ef_quarantine ef) of Inl e \<Rightarrow> Inl e | Inr q \<Rightarrow> Inr (q \<noteq> None)))))"

datatype pause_reason = CostLimit | SafetyStateUnavailable

definition pause_reason :: "epoch_files \<Rightarrow> pause_reason option" where
  "pause_reason ef = (case inspect ef of Inr True \<Rightarrow> Some CostLimit | Inr False \<Rightarrow> None
     | Inl e \<Rightarrow> Some SafetyStateUnavailable)"

definition check_resume_cooldown :: "epoch_files \<Rightarrow> u64 \<Rightarrow> safety_error + unit" where
  "check_resume_cooldown ef now =
     (case read_parsed (ef_resume ef) of Inl e \<Rightarrow> Inl e | Inr None \<Rightarrow> Inr ()
      | Inr (Some previous) \<Rightarrow> if sat_sub now previous < RESUME_COOLDOWN_MS then Inl CoolingDown else Inr ())"

definition can_resume :: "epoch_files \<Rightarrow> u64 \<Rightarrow> bool" where
  "can_resume ef now \<longleftrightarrow> pause_reason ef = Some CostLimit \<and> check_resume_cooldown ef now = Inr ()"

text \<open>What of the file operations of a resume goes through: the write, the two removals.\<close>

record resume_io =
  rio_write :: write_result
  rio_remove_attempts :: bool
  rio_remove_quarantine :: bool

definition resume :: "resume_io \<Rightarrow> u64 \<Rightarrow> epoch_files \<Rightarrow> (safety_error + unit) \<times> epoch_files" where
  "resume io now ef =
     (case inspect ef of Inl e \<Rightarrow> (Inl e, ef) | Inr False \<Rightarrow> (Inl NotPaused, ef) | Inr True \<Rightarrow>
     (case check_resume_cooldown ef now of Inl e \<Rightarrow> (Inl e, ef) | Inr _ \<Rightarrow>
     (case write_file (rio_write io) now (ef_resume ef) of
        (Inl e, r) \<Rightarrow> (Inl e, ef\<lparr>ef_resume := r\<rparr>)
      | (Inr _, r) \<Rightarrow>
          (let ef1 = ef\<lparr>ef_resume := r\<rparr> in
           if ef_attempts ef1 \<noteq> Absent \<and> \<not> rio_remove_attempts io then (Inl IoError, ef1)
           else let ef2 = ef1\<lparr>ef_attempts := Absent\<rparr> in
             if \<not> rio_remove_quarantine io then (Inl IoError, ef2)
             else (Inr (), ef2\<lparr>ef_quarantine := Absent\<rparr>)))))"

section \<open>Reconnects\<close>

text \<open>\<open>read_to_string\<close> follows links, \<open>try_exists\<close> too.\<close>

fun read_text :: "'a persisted \<Rightarrow> safety_error + 'a option" where
  "read_text Absent = Inr None"
| "read_text (Holds x) = Inr (Some x)"
| "read_text (Linked x) = Inr (Some x)"
| "read_text Malformed = Inl BadText"
| "read_text f = Inl IoError"

definition rebase_attempts :: "u64 \<Rightarrow> u64 \<times> u32 \<Rightarrow> u64 \<times> u32" where
  "rebase_attempts now sa =
     (case (if sat_sub now (fst sa) \<ge> 3600000 then (now, 0) else sa) of
        (start, attempts) \<Rightarrow> (if now < start then now else start, attempts))"

definition admit_reconnect :: "write_result \<Rightarrow> u64 \<Rightarrow> epoch_files \<Rightarrow> (safety_error + bool) \<times> epoch_files" where
  "admit_reconnect w now ef =
     (if ef_quarantine ef = Inaccessible then (Inl IoError, ef)
      else if ef_quarantine ef \<noteq> Absent then (Inr False, ef)
      else case read_text (ef_attempts ef) of
        Inl e \<Rightarrow> (Inl e, ef)
      | Inr sa \<Rightarrow>
          (case rebase_attempts now (case sa of None \<Rightarrow> (now, 0) | Some p \<Rightarrow> p) of
             (start, attempts) \<Rightarrow>
               (let full = attempts \<ge> 32; new = (start, if full then attempts else attempts + 1) in
                case write_file w new (ef_attempts ef) of
                  (Inl e, f) \<Rightarrow> (Inl e, ef\<lparr>ef_attempts := f\<rparr>)
                | (Inr _, f) \<Rightarrow> (Inr (\<not> full), ef\<lparr>ef_attempts := f\<rparr>))))"

definition reconnect_attempt_count :: "epoch_files \<Rightarrow> u32 option" where
  "reconnect_attempt_count ef = (case read_parsed (ef_attempts ef) of Inr (Some (s, n)) \<Rightarrow> Some n | _ \<Rightarrow> None)"

definition reconnect_budget_delay :: "epoch_files \<Rightarrow> u64 \<Rightarrow> safety_error + u64" where
  "reconnect_budget_delay ef now =
     (case read_parsed (ef_attempts ef) of Inl e \<Rightarrow> Inl e | Inr None \<Rightarrow> Inl MissingBudget
      | Inr (Some (start, n)) \<Rightarrow> Inr (max 1 (sat_sub 3600000 (sat_sub now start))))"

datatype reconnect_admission = Attempt | Wait u64 | Quarantined

text \<open>The policy in memory is \<open>saved\<close>; each operation returns it with the files.\<close>

definition save_retry :: "write_result \<Rightarrow> saved_retry \<Rightarrow> epoch_files \<Rightarrow> (safety_error + unit) \<times> epoch_files" where
  "save_retry w r ef = (case write_file w r (ef_retry ef) of (res, f) \<Rightarrow> (res, ef\<lparr>ef_retry := f\<rparr>))"

definition retry_load :: "write_result \<Rightarrow> u64 \<Rightarrow> epoch_files \<Rightarrow> (safety_error + saved_retry) \<times> epoch_files" where
  "retry_load w now ef =
     (case read_retry ef of Inl e \<Rightarrow> (Inl e, ef) | Inr r \<Rightarrow>
        (if now < sr_last_ms r
         then let r' = r\<lparr>sr_last_ms := now, sr_next_ms := sat_add now (sr_next_ms r - sr_last_ms r)\<rparr> in
           (case save_retry w r' ef of (Inl e, ef') \<Rightarrow> (Inl e, ef') | (Inr _, ef') \<Rightarrow> (Inr r', ef'))
         else (Inr r, ef)))"

definition minimum_delay :: "u32 \<Rightarrow> u64" where
  "minimum_delay step = (if step = 0 then 5000 else if step = 1 then 30000 else 900000)"

definition advance_schedule :: "u64 \<Rightarrow> u64 \<Rightarrow> saved_retry \<Rightarrow> saved_retry" where
  "advance_schedule random now r =
     \<lparr>sr_last_ms = now, sr_next_ms = sat_add now (minimum_delay (sr_step r) + random mod 30001),
      sr_step = min 3 (sat_succ (sr_step r))\<rparr>"

definition retry_reserve ::
  "write_result \<Rightarrow> write_result \<Rightarrow> u64 \<Rightarrow> u64 \<Rightarrow> saved_retry \<times> epoch_files \<Rightarrow>
     (safety_error + reconnect_admission) \<times> saved_retry \<times> epoch_files" where
  "retry_reserve wa wr random now s =
     (case s of (r, ef) \<Rightarrow>
       (case pause_reason ef of
          Some CostLimit \<Rightarrow> (Inr Quarantined, r, ef)
        | Some SafetyStateUnavailable \<Rightarrow> (Inl StateUnavailable, r, ef)
        | None \<Rightarrow>
            (if now < sr_next_ms r then (Inr (Wait (sr_next_ms r - now)), r, ef)
             else case admit_reconnect wa now ef of
               (Inl e, ef1) \<Rightarrow> (Inl e, r, ef1)
             | (Inr False, ef1) \<Rightarrow>
                 (case reconnect_budget_delay ef1 now of Inl e \<Rightarrow> (Inl e, r, ef1) | Inr d \<Rightarrow> (Inr (Wait d), r, ef1))
             | (Inr True, ef1) \<Rightarrow>
                 (let r' = advance_schedule random now r in
                  case save_retry wr r' ef1 of
                    (Inl e, ef2) \<Rightarrow> (Inl e, r', ef2)
                  | (Inr _, ef2) \<Rightarrow> (Inr Attempt, r', ef2)))))"

definition connected_for ::
  "write_result \<Rightarrow> nat \<Rightarrow> u64 \<Rightarrow> saved_retry \<times> epoch_files \<Rightarrow> (safety_error + unit) \<times> saved_retry \<times> epoch_files" where
  "connected_for w elapsed now s =
     (case s of (r, ef) \<Rightarrow>
       (if elapsed < HEALTHY_FOR then (Inr (), r, ef)
        else case pause_reason ef of
          Some CostLimit \<Rightarrow> (Inr (), r, ef)
        | Some SafetyStateUnavailable \<Rightarrow> (Inl StateUnavailable, r, ef)
        | None \<Rightarrow>
            (let r' = \<lparr>sr_last_ms = now, sr_next_ms = now, sr_step = 0\<rparr> in
             case save_retry w r' ef of (res, ef') \<Rightarrow> (res, r', ef'))))"

section \<open>Runs\<close>

text \<open>
  The connector over time, restarts included: the policy in memory, if there is one, and the files.
\<close>

type_synonym cloud_state = "saved_retry option \<times> epoch_files"

datatype cloud_event =
    CloudLoad write_result u64
  | CloudReserve write_result write_result u64 u64
  | CloudConnected write_result nat u64
  | CloudQuarantine quarantine_write
  | CloudResume resume_io u64

datatype cloud_answer = CloudAttempt | CloudResumed | CloudOther

fun cloud_step :: "cloud_state \<Rightarrow> cloud_event \<Rightarrow> cloud_answer \<times> cloud_state" where
  "cloud_step (p, ef) (CloudLoad w now) =
     (case retry_load w now ef of
        (Inl e, ef') \<Rightarrow> (CloudOther, None, ef')
      | (Inr r, ef') \<Rightarrow> (CloudOther, Some r, ef'))"
| "cloud_step (p, ef) (CloudReserve wa wr random now) =
     (case p of None \<Rightarrow> (CloudOther, p, ef)
      | Some r \<Rightarrow>
          (case retry_reserve wa wr random now (r, ef) of
             (Inr Attempt, r', ef') \<Rightarrow> (CloudAttempt, Some r', ef')
           | (_, r', ef') \<Rightarrow> (CloudOther, Some r', ef')))"
| "cloud_step (p, ef) (CloudConnected w elapsed now) =
     (case p of None \<Rightarrow> (CloudOther, p, ef)
      | Some r \<Rightarrow> (case connected_for w elapsed now (r, ef) of (_, r', ef') \<Rightarrow> (CloudOther, Some r', ef')))"
| "cloud_step (p, ef) (CloudQuarantine w) = (CloudOther, p, snd (quarantine w ef))"
| "cloud_step (p, ef) (CloudResume io now) =
     (case resume io now ef of
        (Inr _, ef') \<Rightarrow> (CloudResumed, p, ef')
      | (Inl e, ef') \<Rightarrow> (CloudOther, p, ef'))"

fun cloud_answers :: "cloud_state \<Rightarrow> cloud_event list \<Rightarrow> cloud_answer list" where
  "cloud_answers s [] = []"
| "cloud_answers s (e # es) = fst (cloud_step s e) # cloud_answers (snd (cloud_step s e)) es"

definition cloud_run :: "cloud_state \<Rightarrow> cloud_event list \<Rightarrow> cloud_state" where
  "cloud_run s es = foldl (\<lambda>s e. snd (cloud_step s e)) s es"

fun cloud_time :: "cloud_event \<Rightarrow> u64 option" where
  "cloud_time (CloudLoad w now) = Some now"
| "cloud_time (CloudReserve wa wr random now) = Some now"
| "cloud_time (CloudConnected w elapsed now) = Some now"
| "cloud_time (CloudQuarantine w) = None"
| "cloud_time (CloudResume io now) = Some now"

text \<open>The events come with times that do not go back.\<close>

fun forward_from :: "u64 \<Rightarrow> cloud_event list \<Rightarrow> bool" where
  "forward_from t [] = True"
| "forward_from t (e # es) = (case cloud_time e of None \<Rightarrow> forward_from t es
     | Some now \<Rightarrow> t \<le> now \<and> forward_from now es)"

subsection \<open>Containment\<close>

lemma paused_by_marker: "ef_quarantine ef \<noteq> Absent \<Longrightarrow> pause_reason ef \<noteq> None"
  by (cases "ef_quarantine ef") (auto simp: pause_reason_def inspect_def split: sum.splits)

lemma write_file_sum: "write_file w x old = (res, f) \<Longrightarrow> f = old \<or> f = Holds x"
  by (auto simp: write_file_def split: write_result.splits)

lemma marker_frames [frame_simps]:
  "ef_quarantine (snd (save_retry w r ef)) = ef_quarantine ef"
  "ef_resume (snd (save_retry w r ef)) = ef_resume ef"
  "ef_quarantine (snd (admit_reconnect w now ef)) = ef_quarantine ef"
  "ef_resume (snd (admit_reconnect w now ef)) = ef_resume ef"
  "ef_retry (snd (admit_reconnect w now ef)) = ef_retry ef"
  by (auto simp: save_retry_def admit_reconnect_def Let_def split: prod.splits sum.splits option.splits)

lemma load_frames [frame_simps]:
  "ef_quarantine (snd (retry_load w now ef)) = ef_quarantine ef"
  "ef_resume (snd (retry_load w now ef)) = ef_resume ef"
  using marker_frames(1, 2)
  by (auto simp: retry_load_def Let_def split: sum.splits prod.splits) (metis snd_conv)+

lemma reserve_frames [frame_simps]:
  "ef_quarantine (snd (snd (retry_reserve wa wr random now (r, ef)))) = ef_quarantine ef"
  "ef_resume (snd (snd (retry_reserve wa wr random now (r, ef)))) = ef_resume ef"
  unfolding retry_reserve_def Let_def
  using marker_frames(3, 4) [of wa now ef] marker_frames(1, 2) [of wr "advance_schedule random now r" "snd (admit_reconnect wa now ef)"]
  by (auto split: option.splits pause_reason.splits sum.splits prod.splits bool.splits)

lemma connected_frames [frame_simps]:
  "ef_quarantine (snd (snd (connected_for w elapsed now (r, ef)))) = ef_quarantine ef"
  "ef_resume (snd (snd (connected_for w elapsed now (r, ef)))) = ef_resume ef"
  unfolding connected_for_def Let_def using marker_frames(1, 2)
  by (auto split: option.splits pause_reason.splits prod.splits) (metis snd_conv)+

lemma reserve_paused:
  "pause_reason ef \<noteq> None \<Longrightarrow> fst (retry_reserve wa wr random now (r, ef)) \<noteq> Inr Attempt"
  by (auto simp: retry_reserve_def split: pause_reason.splits)

lemma resume_failed_keeps_marker: "resume io now ef = (Inl e, ef') \<Longrightarrow> ef_quarantine ef' = ef_quarantine ef"
  by (auto simp: resume_def Let_def split: sum.splits bool.splits prod.splits if_splits)

lemma resume_done:
  "resume io now ef = (Inr u, ef') \<Longrightarrow> ef_quarantine ef \<noteq> Absent \<and> ef_quarantine ef' = Absent \<and>
     ef_resume ef' = Holds now \<and> check_resume_cooldown ef now = Inr ()"
  by (cases "ef_quarantine ef")
    (auto simp: resume_def Let_def inspect_def write_file_def
      split: sum.splits bool.splits prod.splits if_splits write_result.splits)

lemma quarantine_keeps_marker: "ef_quarantine ef \<noteq> Absent \<Longrightarrow> snd (quarantine w ef) = ef"
  by (simp add: quarantine_def)

lemma contained_step:
  "ef_quarantine (snd s) \<noteq> Absent \<Longrightarrow> fst (cloud_step s e) \<noteq> CloudResumed \<Longrightarrow>
     fst (cloud_step s e) \<noteq> CloudAttempt \<and> ef_quarantine (snd (snd (cloud_step s e))) = ef_quarantine (snd s)"
proof -
  obtain p ef where s: "s = (p, ef)" by (cases s)
  assume a: "ef_quarantine (snd s) \<noteq> Absent" and n: "fst (cloud_step s e) \<noteq> CloudResumed"
  note [simp] = s
  show ?thesis
  proof (cases e)
    case (CloudLoad w now)
    then show ?thesis using load_frames(1) [of w now ef] by (auto split: prod.splits sum.splits)
  next
    case (CloudReserve wa wr random now)
    show ?thesis
    proof (cases p)
      case (Some r)
      obtain res r' ef' where rr: "retry_reserve wa wr random now (r, ef) = (res, r', ef')" by (metis prod_cases3)
      have "ef_quarantine ef' = ef_quarantine ef" using reserve_frames(1) [of wa wr random now r ef] rr by simp
      moreover have "res \<noteq> Inr Attempt"
        using reserve_paused [OF paused_by_marker, of ef wa wr random now r] a rr by simp
      ultimately show ?thesis
        by (auto simp: CloudReserve Some rr split: sum.splits reconnect_admission.splits)
    qed (simp add: CloudReserve)
  next
    case (CloudConnected w elapsed now)
    show ?thesis
      using connected_frames(1) [of w elapsed now "the p" ef]
      by (cases p) (auto simp: CloudConnected split: prod.splits)
  next
    case (CloudQuarantine w)
    then show ?thesis using quarantine_keeps_marker [of ef w] a by simp
  next
    case (CloudResume io now)
    then show ?thesis using n resume_failed_keeps_marker [of io now ef] by (auto split: prod.splits sum.splits)
  qed
qed

lemma contained_run:
  "ef_quarantine (snd s) \<noteq> Absent \<Longrightarrow> CloudResumed \<notin> set (cloud_answers s es) \<Longrightarrow>
     CloudAttempt \<notin> set (cloud_answers s es)"
proof (induction es arbitrary: s)
  case (Cons e es)
  let ?s = "snd (cloud_step s e)"
  have n: "fst (cloud_step s e) \<noteq> CloudResumed" "CloudResumed \<notin> set (cloud_answers ?s es)"
    using Cons.prems(2) by auto
  note c = contained_step [OF Cons.prems(1) n(1)]
  have "ef_quarantine (snd ?s) \<noteq> Absent" using c Cons.prems(1) by metis
  from Cons.IH [OF this n(2)] c show ?case by (metis cloud_answers.simps(2) set_ConsD)
qed simp

subsection \<open>The cool-down of a resume\<close>

lemma resume_file: "resume io now ef = (res, ef') \<Longrightarrow> ef_resume ef' = ef_resume ef \<or> ef_resume ef' = Holds now"
  by (auto simp: resume_def Let_def split: sum.splits bool.splits prod.splits if_splits dest!: write_file_sum)

lemma resume_file_step:
  "ef_resume (snd (snd (cloud_step (p, ef) e))) = ef_resume ef \<or>
     (\<exists>io now. e = CloudResume io now \<and> ef_resume (snd (snd (cloud_step (p, ef) e))) = Holds now)"
proof (cases e)
  case (CloudLoad w now)
  then show ?thesis using load_frames(2) [of w now ef] by (auto split: prod.splits sum.splits)
next
  case (CloudReserve wa wr random now)
  show ?thesis
    using reserve_frames(2) [of wa wr random now "the p" ef]
    by (cases p) (auto simp: CloudReserve split: prod.splits sum.splits reconnect_admission.splits)
next
  case (CloudConnected w elapsed now)
  show ?thesis using connected_frames(2) [of w elapsed now "the p" ef]
    by (cases p) (auto simp: CloudConnected split: prod.splits)
next
  case (CloudQuarantine w)
  then show ?thesis by (auto simp: quarantine_def split: quarantine_write.splits)
next
  case (CloudResume io now)
  then show ?thesis using resume_file [of io now ef] by (auto split: prod.splits sum.splits)
qed

definition resumed_since :: "u64 \<Rightarrow> cloud_state \<Rightarrow> bool" where
  "resumed_since t s \<longleftrightarrow> (\<exists>u. ef_resume (snd s) = Holds u \<and> t \<le> u)"

lemma resumed_since_step:
  "resumed_since t s \<Longrightarrow> (\<forall>now. cloud_time e = Some now \<longrightarrow> t \<le> now) \<Longrightarrow> resumed_since t (snd (cloud_step s e))"
  using resume_file_step [of "fst s" "snd s" e] by (auto simp: resumed_since_def)

lemma forward_from_mono: "forward_from t es \<Longrightarrow> t' \<le> t \<Longrightarrow> forward_from t' es"
  by (induction es) (auto split: option.splits)

lemma forward_from_head: "forward_from t (e # es) \<Longrightarrow> (\<forall>now. cloud_time e = Some now \<longrightarrow> t \<le> now) \<and> forward_from t es"
  by (auto split: option.splits intro: forward_from_mono)

lemma resumed_since_run:
  "resumed_since t s \<Longrightarrow> forward_from t (es @ [e]) \<Longrightarrow>
     resumed_since t (cloud_run s es) \<and> (\<forall>now. cloud_time e = Some now \<longrightarrow> t \<le> now)"
proof (induction es arbitrary: s)
  case Nil
  then show ?case by (auto simp: cloud_run_def split: option.splits)
next
  case (Cons x es)
  have f: "\<forall>now. cloud_time x = Some now \<longrightarrow> t \<le> now" "forward_from t (es @ [e])"
    using forward_from_head [of t x "es @ [e]"] Cons.prems(2) by simp_all
  from Cons.IH [OF resumed_since_step [OF Cons.prems(1) f(1)] f(2)] show ?case by (simp add: cloud_run_def)
qed

lemma resumes_apart:
  assumes "resumed_since t s" "forward_from t (es @ [CloudResume io now])"
    and "fst (cloud_step (cloud_run s es) (CloudResume io now)) = CloudResumed"
  shows "unat t + unat RESUME_COOLDOWN_MS \<le> unat now"
proof -
  obtain p ef where r: "cloud_run s es = (p, ef)" by (cases "cloud_run s es")
  obtain u ef' where d: "resume io now ef = (Inr u, ef')"
    using assms(3) by (auto simp: r split: prod.splits sum.splits)
  obtain v where v: "ef_resume ef = Holds v" "t \<le> v"
    using resumed_since_run [OF assms(1, 2)] by (auto simp: r resumed_since_def)
  have "\<not> sat_sub now v < RESUME_COOLDOWN_MS"
    using resume_done [OF d] v(1) by (auto simp: check_resume_cooldown_def read_parsed_def split: if_splits)
  then have "unat RESUME_COOLDOWN_MS \<le> unat now - unat v"
    by (simp add: word_less_nat_alt unat_sat_sub)
  moreover have "0 < unat RESUME_COOLDOWN_MS" by (simp add: RESUME_COOLDOWN_MS_def)
  ultimately show ?thesis using v(2) by (simp add: word_le_nat_alt)
qed

subsection \<open>The schedule\<close>

definition scheduled :: "u64 \<Rightarrow> u64 \<Rightarrow> cloud_state \<Rightarrow> bool" where
  "scheduled n t s \<longleftrightarrow> (\<exists>r. ef_retry (snd s) = Holds r \<and> n \<le> sr_next_ms r \<and> sr_last_ms r \<le> t) \<and>
     (\<forall>r. fst s = Some r \<longrightarrow> n \<le> sr_next_ms r)"

fun short_session :: "cloud_event \<Rightarrow> bool" where
  "short_session (CloudConnected w elapsed now) = (elapsed < HEALTHY_FOR)"
| "short_session e = True"

lemma sat_add_ge: "a \<le> sat_add a b"
  using unsigned_less [of a, where 'a = nat] by (simp add: word_le_nat_alt unat_sat_add)

lemma reserve_cases:
  "retry_reserve wa wr random now (r, ef) = (res, r', ef') \<Longrightarrow>
     (r' = r \<and> ef_retry ef' = ef_retry ef \<and> res \<noteq> Inr Attempt) \<or>
     (sr_next_ms r \<le> now \<and> r' = advance_schedule random now r \<and>
      (ef_retry ef' = Holds r' \<or> ef_retry ef' = ef_retry ef \<and> res \<noteq> Inr Attempt))"
  using marker_frames(5) [of wa now ef]
  by (auto simp: retry_reserve_def save_retry_def write_file_def Let_def
      split: option.splits pause_reason.splits sum.splits prod.splits bool.splits if_splits write_result.splits)

lemma scheduled_step:
  assumes s: "scheduled n t s" and e: "\<forall>now. cloud_time e = Some now \<longrightarrow> t \<le> now" "short_session e"
    and t': "t' = (case cloud_time e of None \<Rightarrow> t | Some now \<Rightarrow> now)"
  shows "scheduled n t' (snd (cloud_step s e))"
proof -
  obtain p ef where [simp]: "s = (p, ef)" by (cases s)
  obtain f where f: "ef_retry ef = Holds f" "n \<le> sr_next_ms f" "sr_last_ms f \<le> t" and
    p: "\<And>r. p = Some r \<Longrightarrow> n \<le> sr_next_ms r" using s by (auto simp: scheduled_def)
  have t: "t \<le> t'" using e(1) by (auto simp: t' split: option.splits)
  have fl: "sr_last_ms f \<le> t'" using f(3) t by simp
  show ?thesis
  proof (cases e)
    case (CloudLoad w now)
    then have "\<not> now < sr_last_ms f" using fl by (simp add: t')
    then have "retry_load w now ef = (Inr f, ef) \<or> retry_load w now ef = (Inl InvalidSchedule, ef)"
      by (simp add: retry_load_def read_retry_def read_parsed_def f(1))
    then show ?thesis using f fl by (auto simp: CloudLoad scheduled_def)
  next
    case (CloudReserve wa wr random now)
    show ?thesis
    proof (cases p)
      case (Some r)
      obtain res r' ef' where rr: "retry_reserve wa wr random now (r, ef) = (res, r', ef')" by (metis prod_cases3)
      have st: "snd (cloud_step s e) = (Some r', ef')"
        by (auto simp: CloudReserve Some rr split: sum.splits reconnect_admission.splits)
      have "n \<le> sr_next_ms r" by (rule p [OF Some])
      then have adv: "sr_next_ms r \<le> now \<Longrightarrow> n \<le> sr_next_ms (advance_schedule random now r)"
        using sat_add_ge [of now] by (simp add: advance_schedule_def) (meson order_trans)
      have t0: "t' = now" by (simp add: t' CloudReserve)
      from reserve_cases [OF rr] show ?thesis
        unfolding st scheduled_def using f fl adv \<open>n \<le> sr_next_ms r\<close>
        by (auto simp: advance_schedule_def t0)
    qed (use s f fl in \<open>simp add: CloudReserve scheduled_def\<close>)
  next
    case (CloudConnected w elapsed now)
    then show ?thesis using f fl p e(2) by (cases p) (auto simp: connected_for_def scheduled_def)
  next
    case (CloudQuarantine w)
    then show ?thesis using f fl p by (auto simp: quarantine_def scheduled_def split: quarantine_write.splits)
  next
    case (CloudResume io now)
    have "ef_retry (snd (resume io now ef)) = ef_retry ef"
      by (auto simp: resume_def Let_def split: sum.splits bool.splits prod.splits)
    then show ?thesis using f fl p by (auto simp: CloudResume scheduled_def split: prod.splits sum.splits)
  qed
qed

lemma scheduled_run:
  "scheduled n t s \<Longrightarrow> forward_from t (es @ [e]) \<Longrightarrow> list_all short_session es \<Longrightarrow> \<exists>t'. scheduled n t' (cloud_run s es)"
proof (induction es arbitrary: s t)
  case (Cons x es)
  let ?t = "case cloud_time x of None \<Rightarrow> t | Some now \<Rightarrow> now"
  have f: "\<forall>now. cloud_time x = Some now \<longrightarrow> t \<le> now" "forward_from ?t (es @ [e])"
    using Cons.prems(2) by (auto split: option.splits)
  have "scheduled n ?t (snd (cloud_step s x))"
    by (rule scheduled_step [OF Cons.prems(1) f(1)]) (use Cons.prems(3) in auto)
  from Cons.IH [OF this f(2)] Cons.prems(3) show ?case by (simp add: cloud_run_def)
qed (auto simp: cloud_run_def)

lemma minimum_plus_jitter: "unat (minimum_delay step) \<le> unat (minimum_delay step + random mod 30001)"
proof -
  have "unat (random mod 30001) < 30001" by (simp add: unat_mod)
  moreover have "unat (minimum_delay step) \<le> 900000" by (simp add: minimum_delay_def)
  ultimately have "unat (minimum_delay step) + unat (random mod 30001) < 2 ^ LENGTH(64)" by simp
  then show ?thesis by (simp add: unat_add_lem [THEN iffD1])
qed

lemma attempts_apart:
  assumes a: "cloud_step (Some r, ef) (CloudReserve wa wr random now) = (CloudAttempt, s1)"
    and "forward_from now (es @ [CloudReserve wa' wr' random' now'])" "list_all short_session es"
    and b: "fst (cloud_step (cloud_run s1 es) (CloudReserve wa' wr' random' now')) = CloudAttempt"
  shows "min (unat now + unat (minimum_delay (sr_step r))) (2 ^ 64 - 1) \<le> unat now'"
proof -
  obtain res r' ef' where rr: "retry_reserve wa wr random now (r, ef) = (res, r', ef')" by (metis prod_cases3)
  have res: "res = Inr Attempt" "s1 = (Some r', ef')"
    using a by (auto simp: rr split: sum.splits reconnect_admission.splits)
  have r': "r' = advance_schedule random now r" "ef_retry ef' = Holds r'"
    using reserve_cases [OF rr] res(1) by auto
  let ?n = "sr_next_ms r'"
  have "scheduled ?n now s1" by (simp add: scheduled_def res(2) r'(2)) (simp add: r'(1) advance_schedule_def)
  then obtain t' where sch: "scheduled ?n t' (cloud_run s1 es)" using scheduled_run assms(2, 3) by blast
  obtain p2 ef2 where c: "cloud_run s1 es = (p2, ef2)" by (cases "cloud_run s1 es")
  obtain r2 where p2: "p2 = Some r2" using b by (auto simp: c split: option.splits)
  obtain res2 r2' ef2' where rr2: "retry_reserve wa' wr' random' now' (r2, ef2) = (res2, r2', ef2')"
    by (metis prod_cases3)
  have "res2 = Inr Attempt" using b by (auto simp: c p2 rr2 split: sum.splits reconnect_admission.splits)
  then have "sr_next_ms r2 \<le> now'" using reserve_cases [OF rr2] by auto
  moreover have "?n \<le> sr_next_ms r2" using sch by (simp add: scheduled_def c p2)
  ultimately have "unat ?n \<le> unat now'" by (simp add: word_le_nat_alt)
  moreover have "min (unat now + unat (minimum_delay (sr_step r))) (2 ^ 64 - 1) \<le> unat ?n"
    using minimum_plus_jitter [of "sr_step r" random] by (simp add: r'(1) advance_schedule_def unat_sat_add)
  ultimately show ?thesis by simp
qed

end
