(* ===== verification/Listening_Plan.thy ===== *)
theory Listening_Plan
  imports Uhc_Prelude Bus_Events
begin

text \<open>
  The listening plans UHC keeps for Apple Music owners (src/mcp/listening\_plan.rs): one plan per zone
  with a bounded history of what was asked for, kept in memory and in one file. Each operation holds the
  write lock to its end, so it is one step. Whether the file could be written is an input; its content is
  what serde reads from it.
\<close>

definition MAX_PLANS :: nat where "MAX_PLANS = 32"
definition MAX_ITEMS :: nat where "MAX_ITEMS = 200"
definition MAX_HISTORY :: nat where "MAX_HISTORY = 16"
definition MAX_REFERENCE_LENGTH :: nat where "MAX_REFERENCE_LENGTH = 512"
definition MAX_TITLE_LENGTH :: nat where "MAX_TITLE_LENGTH = 512"

record plan_item =
  pi_reference :: string
  pi_title :: string

record plan_revision =
  pv_generation :: u64
  pv_operation :: string
  pv_references :: "string list"
  pv_legacy_items :: "plan_item list"
  pv_source :: string
  pv_confidence :: string
  pv_recorded_at :: u64

record listening_plan =
  lp_zone_id :: string
  lp_items :: "plan_item list"
  lp_current_index :: "nat option"
  lp_generation :: u64
  lp_updated_at :: u64
  lp_history :: "plan_revision list"

datatype plan_file = PlanFileAbsent | PlanFileUnreadable | PlanFileHolds "listening_plan list"

type_synonym plan_map = "(string \<times> listening_plan) list"

record plan_store =
  ps_plans :: plan_map
  ps_file :: "plan_file option"

datatype plan_error = PlanZone | PlanTooLong | PlanInvalidItem | PlanNotSaved

section \<open>Bounds\<close>

text \<open>Of several oldest plans the first is taken; the code takes the one its hash map yields first.\<close>

function trim_plans :: "plan_map \<Rightarrow> plan_map" where
  "trim_plans m =
     (if length m \<le> MAX_PLANS then m
      else case min_by_key (\<lambda>e. lp_updated_at (snd e)) m of
        None \<Rightarrow> m
      | Some oldest \<Rightarrow> trim_plans (hm_remove (fst oldest) m))"
  by pat_completeness auto
termination
  by (relation "measure length") (auto simp: length_hm_remove min_by_key_mem)

declare trim_plans.simps [simp del]

definition migrate_revision :: "plan_revision \<Rightarrow> plan_revision" where
  "migrate_revision r =
     (if pv_references r = [] \<and> pv_legacy_items r \<noteq> []
      then r\<lparr>pv_references := map pi_reference (pv_legacy_items r), pv_legacy_items := []\<rparr>
      else r\<lparr>pv_legacy_items := []\<rparr>)"

definition revision_kept :: "plan_revision \<Rightarrow> bool" where
  "revision_kept r \<longleftrightarrow> length (pv_references r) \<le> MAX_ITEMS \<and>
     list_all (\<lambda>x. x \<noteq> [] \<and> length x \<le> MAX_REFERENCE_LENGTH) (pv_references r) \<and>
     length (pv_operation r) \<le> 64 \<and> length (pv_source r) \<le> 64 \<and> length (pv_confidence r) \<le> 64"

definition trim_history :: "listening_plan \<Rightarrow> listening_plan" where
  "trim_history p =
     (let h = filter revision_kept (map migrate_revision (lp_history p))
      in p\<lparr>lp_history := drop (length h - MAX_HISTORY) h\<rparr>)"

definition record_revision :: "string \<Rightarrow> listening_plan \<Rightarrow> listening_plan" where
  "record_revision operation p = trim_history (p\<lparr>lp_history := lp_history p @
     [\<lparr>pv_generation = lp_generation p, pv_operation = operation,
       pv_references = map pi_reference (lp_items p), pv_legacy_items = [], pv_source = ''uhc_mcp'',
       pv_confidence = ''planned'', pv_recorded_at = lp_updated_at p\<rparr>]\<rparr>)"

definition item_ok :: "plan_item \<Rightarrow> bool" where
  "item_ok i \<longleftrightarrow> pi_reference i \<noteq> [] \<and> length (pi_reference i) \<le> MAX_REFERENCE_LENGTH \<and>
     length (pi_title i) \<le> MAX_TITLE_LENGTH"

definition validate_items :: "string \<Rightarrow> plan_item list \<Rightarrow> plan_error + unit" where
  "validate_items z items =
     (if \<not> is_applemusic_zone_id z then Inl PlanZone
      else if length items > MAX_ITEMS then Inl PlanTooLong
      else if list_ex (\<lambda>i. \<not> item_ok i) items then Inl PlanInvalidItem
      else Inr ())"

section \<open>Operations\<close>

definition restore_plan :: "string \<Rightarrow> listening_plan option \<Rightarrow> plan_map \<Rightarrow> plan_map" where
  "restore_plan z previous m = (case previous of None \<Rightarrow> hm_remove z m | Some p \<Rightarrow> hm_insert z p m)"

definition persist_plans :: "plan_map \<Rightarrow> plan_file" where
  "persist_plans m = PlanFileHolds (sort_key lp_zone_id (map snd m))"

text \<open>The common end: insert, trim, save; a failed save puts the zone's previous plan back.\<close>

definition store_plan ::
  "bool \<Rightarrow> string \<Rightarrow> listening_plan \<Rightarrow> plan_store \<Rightarrow> (plan_error + listening_plan) \<times> plan_store" where
  "store_plan writable z p s =
     (let previous = map_of (ps_plans s) z; m = trim_plans (hm_insert z p (ps_plans s)) in
      case ps_file s of
        None \<Rightarrow> (Inr p, s\<lparr>ps_plans := m\<rparr>)
      | Some f \<Rightarrow>
          (if writable then (Inr p, s\<lparr>ps_plans := m, ps_file := Some (persist_plans m)\<rparr>)
           else (Inl PlanNotSaved, s\<lparr>ps_plans := restore_plan z previous m\<rparr>)))"

definition replace_plan ::
  "bool \<Rightarrow> u64 \<Rightarrow> string \<Rightarrow> plan_item list \<Rightarrow> plan_store \<Rightarrow> (plan_error + listening_plan) \<times> plan_store" where
  "replace_plan writable now z items s =
     (case validate_items z items of
        Inl e \<Rightarrow> (Inl e, s)
      | Inr _ \<Rightarrow>
          (let previous = map_of (ps_plans s) z;
               p = \<lparr>lp_zone_id = z, lp_items = items, lp_current_index = None,
                 lp_generation = (case previous of None \<Rightarrow> 1 | Some q \<Rightarrow> sat_succ (lp_generation q)),
                 lp_updated_at = now, lp_history = (case previous of None \<Rightarrow> [] | Some q \<Rightarrow> lp_history q)\<rparr>
           in store_plan writable z (record_revision ''replace'' p) s))"

definition plan_or_new :: "string \<Rightarrow> plan_store \<Rightarrow> listening_plan" where
  "plan_or_new z s =
     (case map_of (ps_plans s) z of
        Some p \<Rightarrow> p
      | None \<Rightarrow> \<lparr>lp_zone_id = z, lp_items = [], lp_current_index = None, lp_generation = 0,
          lp_updated_at = 0, lp_history = []\<rparr>)"

definition next_plan :: "u64 \<Rightarrow> plan_item list \<Rightarrow> listening_plan \<Rightarrow> listening_plan" where
  "next_plan now items p = p\<lparr>lp_items := items, lp_generation := max 1 (sat_succ (lp_generation p)),
     lp_updated_at := now\<rparr>"

definition append_plan ::
  "bool \<Rightarrow> u64 \<Rightarrow> string \<Rightarrow> plan_item list \<Rightarrow> plan_store \<Rightarrow> (plan_error + listening_plan) \<times> plan_store" where
  "append_plan writable now z items s =
     (case validate_items z items of
        Inl e \<Rightarrow> (Inl e, s)
      | Inr _ \<Rightarrow>
          (let p = plan_or_new z s in
           if length (lp_items p) + length items > MAX_ITEMS then (Inl PlanTooLong, s)
           else store_plan writable z (record_revision ''append'' (next_plan now (lp_items p @ items) p)) s))"

definition insert_index :: "listening_plan \<Rightarrow> nat" where
  "insert_index p = (case lp_current_index p of None \<Rightarrow> 0 | Some c \<Rightarrow> min (c + 1) (length (lp_items p)))"

definition play_next ::
  "bool \<Rightarrow> u64 \<Rightarrow> string \<Rightarrow> plan_item \<Rightarrow> plan_store \<Rightarrow> (plan_error + listening_plan) \<times> plan_store" where
  "play_next writable now z item s =
     (case validate_items z [item] of
        Inl e \<Rightarrow> (Inl e, s)
      | Inr _ \<Rightarrow>
          (let p = plan_or_new z s; i = insert_index p in
           if length (lp_items p) \<ge> MAX_ITEMS then (Inl PlanTooLong, s)
           else store_plan writable z (record_revision ''play_next''
             (next_plan now (take i (lp_items p) @ item # drop i (lp_items p)) p)) s))"

definition get_plan :: "string \<Rightarrow> plan_store \<Rightarrow> listening_plan option" where
  "get_plan z s = map_of (ps_plans s) z"

definition loads :: "listening_plan \<Rightarrow> bool" where
  "loads p \<longleftrightarrow> is_applemusic_zone_id (lp_zone_id p) \<and> length (lp_items p) \<le> MAX_ITEMS \<and> list_all item_ok (lp_items p)"

fun load_plans :: "plan_file \<Rightarrow> plan_map" where
  "load_plans (PlanFileHolds ps) =
     trim_plans (foldl (\<lambda>m p. hm_insert (lp_zone_id p) (trim_history p) m) [] (filter loads ps))"
| "load_plans f = []"

definition plan_store_from_config :: "plan_file \<Rightarrow> plan_store" where
  "plan_store_from_config f = \<lparr>ps_plans = load_plans f, ps_file = Some f\<rparr>"

datatype plan_event =
    ReplacePlan bool u64 string "plan_item list"
  | AppendPlan bool u64 string "plan_item list"
  | PlayNext bool u64 string plan_item

fun plans_step :: "plan_store \<Rightarrow> plan_event \<Rightarrow> plan_store" where
  "plans_step s (ReplacePlan w now z items) = snd (replace_plan w now z items s)"
| "plans_step s (AppendPlan w now z items) = snd (append_plan w now z items s)"
| "plans_step s (PlayNext w now z item) = snd (play_next w now z item s)"

section \<open>The invariant\<close>

definition plan_ok :: "string \<Rightarrow> listening_plan \<Rightarrow> bool" where
  "plan_ok z p \<longleftrightarrow> lp_zone_id p = z \<and> loads p \<and> length (lp_history p) \<le> MAX_HISTORY \<and>
     list_all (\<lambda>r. revision_kept r \<and> pv_legacy_items r = []) (lp_history p)"

definition plans_ok :: "plan_map \<Rightarrow> bool" where
  "plans_ok m \<longleftrightarrow> hm_wf m \<and> length m \<le> MAX_PLANS \<and> (\<forall>(z, p) \<in> set m. plan_ok z p)"

lemma migrate_revision_clean [simp]: "pv_legacy_items (migrate_revision r) = []"
  by (simp add: migrate_revision_def)

lemma migrate_revision_id: "pv_legacy_items r = [] \<Longrightarrow> migrate_revision r = r"
  by (simp add: migrate_revision_def)

lemma trim_history_fields [simp]:
  "lp_zone_id (trim_history p) = lp_zone_id p" "lp_items (trim_history p) = lp_items p"
  "lp_generation (trim_history p) = lp_generation p" "lp_updated_at (trim_history p) = lp_updated_at p"
  "lp_current_index (trim_history p) = lp_current_index p"
  by (simp_all add: trim_history_def Let_def)

lemma loads_trim [simp]: "loads (trim_history p) = loads p"
  by (simp add: loads_def)

lemma trim_history_ok: "loads p \<Longrightarrow> lp_zone_id p = z \<Longrightarrow> plan_ok z (trim_history p)"
  by (auto simp: plan_ok_def) (auto simp: trim_history_def Let_def list_all_iff dest!: in_set_dropD)

lemma trim_history_id: "plan_ok z p \<Longrightarrow> trim_history p = p"
proof -
  assume a: "plan_ok z p"
  have "map migrate_revision (lp_history p) = lp_history p"
    using a by (auto simp: plan_ok_def list_all_iff intro!: map_idI migrate_revision_id)
  moreover have "filter revision_kept (lp_history p) = lp_history p"
    using a by (auto simp: plan_ok_def list_all_iff intro!: filter_True)
  ultimately show ?thesis using a by (simp add: trim_history_def plan_ok_def)
qed

lemma record_revision_fields [simp]:
  "lp_zone_id (record_revision op p) = lp_zone_id p" "lp_items (record_revision op p) = lp_items p"
  "lp_generation (record_revision op p) = lp_generation p"
  "lp_updated_at (record_revision op p) = lp_updated_at p"
  by (simp_all add: record_revision_def)

lemma record_revision_ok: "loads p \<Longrightarrow> lp_zone_id p = z \<Longrightarrow> plan_ok z (record_revision op p)"
  unfolding record_revision_def by (rule trim_history_ok) (simp_all add: loads_def)

lemma trim_plans_small: "length m \<le> MAX_PLANS \<Longrightarrow> trim_plans m = m"
  by (subst trim_plans.simps) simp

lemma trim_plans_one:
  assumes "hm_wf m" "length m = Suc MAX_PLANS"
    and k: "min_by_key (\<lambda>e. lp_updated_at (snd e)) m = Some k"
  shows "trim_plans m = hm_remove (fst k) m"
proof -
  have "fst k \<in> fst ` set m" using min_by_key_mem [OF k] by simp
  from length_hm_remove_wf [OF assms(1) this] assms(2) have "length (hm_remove (fst k) m) \<le> MAX_PLANS" by simp
  then have "trim_plans (hm_remove (fst k) m) = hm_remove (fst k) m" by (rule trim_plans_small)
  then show ?thesis using assms(2) k by (subst trim_plans.simps) simp
qed

lemma trim_plans_sub: "hm_wf m \<Longrightarrow> hm_wf (trim_plans m) \<and> length (trim_plans m) \<le> MAX_PLANS \<and> set (trim_plans m) \<subseteq> set m"
proof (induction m rule: trim_plans.induct)
  case (1 m)
  show ?case
  proof (cases "length m \<le> MAX_PLANS")
    case False
    then have "m \<noteq> []" by auto
    then obtain k where k: "min_by_key (\<lambda>e. lp_updated_at (snd e)) m = Some k"
      by (metis min_by_key_None not_None_eq)
    have "trim_plans m = trim_plans (hm_remove (fst k) m)" using False k by (subst trim_plans.simps) simp
    then show ?thesis using 1(1) [OF False k] 1(2) set_hm_remove [of "fst k" m] by auto
  qed (use 1 in \<open>simp add: trim_plans_small\<close>)
qed

lemma trim_plans_ok: "hm_wf m \<Longrightarrow> \<forall>(z, p) \<in> set m. plan_ok z p \<Longrightarrow> plans_ok (trim_plans m)"
  using trim_plans_sub [of m] by (auto simp: plans_ok_def)

lemma items_insert_ok:
  "length xs < MAX_ITEMS \<Longrightarrow> list_all item_ok xs \<Longrightarrow> item_ok i \<Longrightarrow>
     length (take n xs @ i # drop n xs) \<le> MAX_ITEMS \<and> list_all item_ok (take n xs @ i # drop n xs)"
  by (auto simp: list_all_iff dest: in_set_takeD in_set_dropD)

lemma store_plan_ok:
  assumes "plans_ok (ps_plans s)" "plan_ok z p"
  shows "plans_ok (ps_plans (snd (store_plan w z p s)))"
proof -
  let ?m = "ps_plans s"
  have wf: "hm_wf ?m" and pm: "\<forall>(z, p) \<in> set ?m. plan_ok z p" and n: "length ?m \<le> MAX_PLANS"
    using assms(1) by (auto simp: plans_ok_def)
  have pi: "\<forall>(z, p) \<in> set (hm_insert z p ?m). plan_ok z p"
    using pm assms(2) set_hm_insert_sub [of z p ?m] by auto
  then have t: "plans_ok (trim_plans (hm_insert z p ?m))" by (rule trim_plans_ok [OF hm_wf_insert [OF wf]])
  have "plans_ok (restore_plan z (map_of ?m z) (trim_plans (hm_insert z p ?m)))"
  proof (cases "map_of ?m z")
    case None
    have "length (hm_remove z (trim_plans (hm_insert z p ?m))) \<le> MAX_PLANS"
      using t unfolding plans_ok_def hm_remove_def by (meson dual_order.trans length_delete_le)
    then show ?thesis using t set_hm_remove [of z "trim_plans (hm_insert z p ?m)"]
      unfolding plans_ok_def restore_plan_def None by auto
  next
    case (Some q)
    then have k: "z \<in> fst ` set ?m" by (metis map_of_SomeD image_eqI fst_conv)
    have l: "length (hm_insert z v ?m) = length ?m" for v
      by (rule length_hm_insert_in [OF k])
    then have "trim_plans (hm_insert z p ?m) = hm_insert z p ?m" using n by (simp add: trim_plans_small)
    moreover have "hm_insert z q (hm_insert z p ?m) = hm_insert z q ?m" by (rule hm_insert_twice)
    moreover have "plan_ok z q" using Some pm by (auto dest: map_of_SomeD)
    ultimately show ?thesis using Some pm n l wf set_hm_insert_sub [of z q ?m]
      by (auto simp: plans_ok_def restore_plan_def)
  qed
  then show ?thesis using t by (auto simp: store_plan_def Let_def split: option.splits)
qed

lemma plan_or_new_zone: "plans_ok (ps_plans s) \<Longrightarrow> lp_zone_id (plan_or_new z s) = z"
  by (auto simp: plan_or_new_def plans_ok_def plan_ok_def split: option.splits dest!: map_of_SomeD)

lemma plan_or_new_items: "plans_ok (ps_plans s) \<Longrightarrow> list_all item_ok (lp_items (plan_or_new z s))"
  by (auto simp: plan_or_new_def plans_ok_def plan_ok_def loads_def split: option.splits dest!: map_of_SomeD)

lemma validate_items_ok:
  "validate_items z items = Inr u \<Longrightarrow>
     is_applemusic_zone_id z \<and> length items \<le> MAX_ITEMS \<and> list_all item_ok items"
  by (auto simp: validate_items_def list_ex_iff list_all_iff split: if_splits)

text \<open>Every operation leaves the store alone or stores one sound plan.\<close>

lemma plan_step_shape:
  assumes a: "plans_ok (ps_plans s)"
  shows "plans_step s e = s \<or> (\<exists>w z p. plan_ok z p \<and> plans_step s e = snd (store_plan w z p s))"
proof (cases e)
  case (ReplacePlan w now z items)
  show ?thesis
  proof (cases "validate_items z items")
    case (Inr u)
    from validate_items_ok [OF Inr] have "plan_ok z (record_revision ''replace'' \<lparr>lp_zone_id = z, lp_items = items,
        lp_current_index = None, lp_generation = g, lp_updated_at = now, lp_history = h\<rparr>)" for g h
      by (intro record_revision_ok) (simp_all add: loads_def)
    then show ?thesis unfolding ReplacePlan plans_step.simps replace_plan_def Inr Let_def sum.case by blast
  qed (simp add: ReplacePlan replace_plan_def)
next
  case (AppendPlan w now z items)
  let ?p = "plan_or_new z s"
  show ?thesis
  proof (cases "validate_items z items = Inr () \<and> length (lp_items ?p) + length items \<le> MAX_ITEMS")
    case True
    then have "plan_ok z (record_revision ''append'' (next_plan now (lp_items ?p @ items) ?p))"
      using validate_items_ok [of z items "()"] plan_or_new_zone [OF a, of z] plan_or_new_items [OF a, of z]
      by (intro record_revision_ok) (simp_all add: loads_def next_plan_def)
    then show ?thesis using True by (auto simp: AppendPlan append_plan_def Let_def)
  qed (auto simp: AppendPlan append_plan_def Let_def split: sum.splits)
next
  case (PlayNext w now z item)
  let ?p = "plan_or_new z s"
  show ?thesis
  proof (cases "validate_items z [item] = Inr () \<and> length (lp_items ?p) < MAX_ITEMS")
    case True
    then have i: "is_applemusic_zone_id z" "item_ok item"
      using validate_items_ok [of z "[item]" "()"] by simp_all
    have "length (lp_items ?p) < MAX_ITEMS" using True by simp
    note l = items_insert_ok [OF this plan_or_new_items [OF a] i(2), of "insert_index ?p"]
    have "plan_ok z (record_revision ''play_next''
        (next_plan now (take (insert_index ?p) (lp_items ?p) @ item # drop (insert_index ?p) (lp_items ?p)) ?p))"
      using l i(1) plan_or_new_zone [OF a, of z]
      by (intro record_revision_ok) (simp_all add: loads_def next_plan_def)
    then show ?thesis using True by (auto simp: PlayNext play_next_def Let_def)
  qed (auto simp: PlayNext play_next_def Let_def split: sum.splits)
qed

section \<open>The file\<close>

lemma inserts_fresh:
  "distinct (map lp_zone_id ps) \<Longrightarrow> lp_zone_id ` set ps \<inter> fst ` set m = {} \<Longrightarrow>
     foldl (\<lambda>m p. hm_insert (lp_zone_id p) (trim_history p) m) m ps =
     m @ map (\<lambda>p. (lp_zone_id p, trim_history p)) ps"
proof (induction ps arbitrary: m)
  case (Cons p ps)
  have f: "lp_zone_id p \<notin> fst ` set m" using Cons.prems(2) by auto
  have "foldl (\<lambda>m p. hm_insert (lp_zone_id p) (trim_history p) m) (m @ [(lp_zone_id p, trim_history p)]) ps =
      (m @ [(lp_zone_id p, trim_history p)]) @ map (\<lambda>p. (lp_zone_id p, trim_history p)) ps"
    by (rule Cons.IH) (use Cons.prems in auto)
  then show ?case by (simp add: hm_insert_new [OF f])
qed simp

lemma load_saved:
  assumes "plans_ok m"
  shows "map_of (load_plans (persist_plans m)) = map_of m"
proof -
  define ps where "ps = sort_key lp_zone_id (map snd m)"
  have wf: "distinct (map fst m)" and pm: "\<forall>(z, p) \<in> set m. plan_ok z p" and n: "length m \<le> MAX_PLANS"
    using assms by (auto simp: plans_ok_def hm_wf_def)
  have z: "map lp_zone_id (map snd m) = map fst m" using pm by (auto simp: plan_ok_def)
  have d: "distinct (map lp_zone_id ps)"
  proof -
    have "distinct (map lp_zone_id (map snd m))" using wf by (simp only: z)
    then have "distinct (map snd m) \<and> inj_on lp_zone_id (set (map snd m))" by (simp only: distinct_map)
    then show ?thesis by (simp add: ps_def distinct_map)
  qed
  have ok: "\<forall>p \<in> set ps. plan_ok (lp_zone_id p) p" using pm by (auto simp: ps_def plan_ok_def)
  then have "filter loads ps = ps" by (intro filter_True) (auto simp: plan_ok_def)
  moreover have "map (\<lambda>p. (lp_zone_id p, trim_history p)) ps = map (\<lambda>p. (lp_zone_id p, p)) ps"
    using ok by (auto simp: trim_history_id)
  moreover have "length ps \<le> MAX_PLANS" using n by (simp add: ps_def)
  ultimately have l: "load_plans (persist_plans m) = map (\<lambda>p. (lp_zone_id p, p)) ps"
    using inserts_fresh [OF d, of "[]"] by (simp add: persist_plans_def ps_def [symmetric] trim_plans_small)
  have "(\<lambda>e. (lp_zone_id (snd e), snd e)) ` set m = id ` set m"
    by (rule image_cong) (use pm in \<open>auto simp: plan_ok_def\<close>)
  then have "set (map (\<lambda>p. (lp_zone_id p, p)) ps) = set m" by (simp add: ps_def image_image)
  moreover have "distinct (map fst (map (\<lambda>p. (lp_zone_id p, p)) ps))" using d by (simp add: comp_def)
  ultimately show ?thesis unfolding l using wf map_of_inject_set [of "map (\<lambda>p. (lp_zone_id p, p)) ps" m] by simp
qed

lemma load_plans_ok: "plans_ok (load_plans f)"
proof (cases f)
  case (PlanFileHolds ps)
  let ?f = "\<lambda>m p. hm_insert (lp_zone_id p) (trim_history p) m"
  have "hm_wf m \<Longrightarrow> \<forall>(z, p) \<in> set m. plan_ok z p \<Longrightarrow> list_all loads qs \<Longrightarrow>
      hm_wf (foldl ?f m qs) \<and> (\<forall>(z, p) \<in> set (foldl ?f m qs). plan_ok z p)" for m qs
  proof (induction qs arbitrary: m)
    case (Cons q qs)
    have "\<forall>(z, p) \<in> set (?f m q). plan_ok z p"
      using set_hm_insert_sub [of "lp_zone_id q" "trim_history q" m] Cons.prems trim_history_ok [of q] by fastforce
    then show ?case using Cons.IH [of "?f m q"] Cons.prems by simp
  qed simp
  from this [of "[]" "filter loads ps"] show ?thesis
    by (auto simp: PlanFileHolds list_all_iff intro!: trim_plans_ok)
qed (simp_all add: plans_ok_def)

text \<open>What a failed save leaves in memory: nothing new, but not always everything old.\<close>

lemma failed_save_sub:
  assumes "plans_ok (ps_plans s)"
  shows "map_of (restore_plan z (map_of (ps_plans s) z) (trim_plans (hm_insert z p (ps_plans s)))) \<subseteq>\<^sub>m
    map_of (ps_plans s)"
proof -
  let ?m = "ps_plans s"
  have wf: "hm_wf (hm_insert z p ?m)" using assms by (simp add: plans_ok_def)
  let ?t = "trim_plans (hm_insert z p ?m)"
  have wt: "hm_wf ?t" "set ?t \<subseteq> set (hm_insert z p ?m)" using trim_plans_sub [OF wf] by auto
  have t: "map_of ?m k = Some v" if "map_of ?t k = Some v" "k \<noteq> z" for k v
  proof -
    have "(k, v) \<in> set (hm_insert z p ?m)" using map_of_SomeD [OF that(1)] wt(2) by blast
    then have "map_of (hm_insert z p ?m) k = Some v" using wf by (simp only: hm_entries)
    then show ?thesis using that(2) by simp
  qed
  have "map_of ?m k = Some v"
    if r: "map_of (restore_plan z (map_of ?m z) ?t) k = Some v" for k v
  proof (cases "map_of ?m z")
    case None
    then show ?thesis using r t by (simp add: restore_plan_def split: if_splits)
  next
    case (Some q)
    then show ?thesis using r t by (simp add: restore_plan_def split: if_splits)
  qed
  note r = this
  show ?thesis unfolding map_le_def
  proof
    fix k assume "k \<in> dom (map_of (restore_plan z (map_of ?m z) ?t))"
    then obtain v where v: "map_of (restore_plan z (map_of ?m z) ?t) k = Some v" by (auto simp: dom_def)
    then show "map_of (restore_plan z (map_of ?m z) ?t) k = map_of ?m k" using r [OF v] by simp
  qed
qed

definition memory_behind_file :: "plan_store \<Rightarrow> bool" where
  "memory_behind_file s \<longleftrightarrow> plans_ok (ps_plans s) \<and>
     (case ps_file s of None \<Rightarrow> True | Some f \<Rightarrow> map_of (ps_plans s) \<subseteq>\<^sub>m map_of (load_plans f))"

lemma store_plan_behind:
  assumes "memory_behind_file s" "plan_ok z p"
  shows "memory_behind_file (snd (store_plan w z p s))"
proof -
  have ok: "plans_ok (ps_plans s)" using assms(1) by (simp add: memory_behind_file_def)
  have t: "plans_ok (trim_plans (hm_insert z p (ps_plans s)))"
    using store_plan_ok [OF ok assms(2), of True] by (auto simp: store_plan_def Let_def split: option.splits)
  show ?thesis
    using assms(1) store_plan_ok [OF ok assms(2), of w] load_saved [OF t] failed_save_sub [OF ok, of z p]
    unfolding memory_behind_file_def
    by (auto simp: store_plan_def Let_def split: option.splits if_splits intro: map_le_trans)
qed

lemma plan_step_behind: "memory_behind_file s \<Longrightarrow> memory_behind_file (plans_step s e)"
proof -
  assume a: "memory_behind_file s"
  then have "plans_ok (ps_plans s)" by (simp add: memory_behind_file_def)
  from plan_step_shape [OF this, of e] show ?thesis
  proof (elim disjE exE conjE)
    fix w z p assume "plan_ok z p" "plans_step s e = snd (store_plan w z p s)"
    then show ?thesis using store_plan_behind [OF a] by simp
  qed (use a in simp)
qed

lemma from_config_behind: "memory_behind_file (plan_store_from_config f)"
  by (simp add: memory_behind_file_def plan_store_from_config_def load_plans_ok)

interpretation plan_events: event_system plans_step memory_behind_file "\<lambda>s t. True"
  by unfold_locales (simp_all add: plan_step_behind)

section \<open>What is answered and what is kept\<close>

lemma saved_plan_kept:
  assumes "plans_ok (ps_plans s)" "store_plan w z p s = (Inr q, s')"
    and room: "map_of (ps_plans s) z \<noteq> None \<or> length (ps_plans s) < MAX_PLANS \<or>
      (\<exists>k v. map_of (ps_plans s) k = Some v \<and> lp_updated_at v < lp_updated_at p)"
  shows "q = p \<and> get_plan z s' = Some p"
proof -
  let ?m = "ps_plans s" let ?n = "hm_insert z p ?m"
  have wf: "hm_wf ?m" "length ?m \<le> MAX_PLANS" using assms(1) by (auto simp: plans_ok_def)
  have s': "q = p" "ps_plans s' = trim_plans ?n"
    using assms(2) by (auto simp: store_plan_def Let_def split: option.splits if_splits)
  have "map_of (trim_plans ?n) z = Some p"
  proof (cases "length ?n \<le> MAX_PLANS")
    case False
    have new: "z \<notin> fst ` set ?m" using False wf(2) length_hm_insert_in [of z ?m p] by auto
    then have n: "length ?n = Suc (length ?m)" by (simp add: hm_insert_new)
    then have l: "length ?n = Suc MAX_PLANS" using False wf(2) by simp
    then have full: "\<not> length ?m < MAX_PLANS" using n by simp
    have "map_of ?m z = None" using new by (simp add: map_of_eq_None_iff)
    then obtain k v where kv: "map_of ?m k = Some v" "lp_updated_at v < lp_updated_at p"
      using room full by auto
    obtain o' where o: "min_by_key (\<lambda>e. lp_updated_at (snd e)) ?n = Some o'"
      using l by (metis min_by_key_None not_None_eq list.size(3) nat.distinct(1))
    have "(k, v) \<in> set ?n" using map_of_SomeD [OF kv(1)] by (simp add: hm_insert_new [OF new])
    from min_by_key_le [OF o this] kv(2) have "snd o' \<noteq> p" by auto
    moreover have "o' \<in> set ?n" by (rule min_by_key_mem [OF o])
    ultimately have "fst o' \<noteq> z" using new by (cases o') (force simp: hm_insert_new [OF new])
    then show ?thesis using trim_plans_one [OF hm_wf_insert [OF wf(1)] l o] by simp
  qed (simp add: trim_plans_small)
  then show ?thesis by (simp add: s' get_plan_def)
qed

text \<open>
  A failed save of a new zone's plan in a full store: the plan of another zone is gone from memory.
\<close>

lemma failed_save_loses_another:
  assumes "plans_ok (ps_plans s)" "ps_file s = Some f" "length (ps_plans s) = MAX_PLANS"
    and new: "map_of (ps_plans s) z = None" and old: "\<forall>k v. map_of (ps_plans s) k = Some v \<longrightarrow> lp_updated_at v < lp_updated_at p"
  shows "\<exists>s' k v. store_plan False z p s = (Inl PlanNotSaved, s') \<and> ps_file s' = Some f \<and>
    map_of (ps_plans s) k = Some v \<and> get_plan k s' = None"
proof -
  let ?m = "ps_plans s" let ?n = "hm_insert z p ?m"
  have wf: "hm_wf ?m" using assms(1) by (simp add: plans_ok_def)
  have nz: "z \<notin> fst ` set ?m" using new by (simp add: map_of_eq_None_iff)
  have l: "length ?n = Suc MAX_PLANS" using assms(3) by (simp add: hm_insert_new [OF nz])
  obtain o' where o: "min_by_key (\<lambda>e. lp_updated_at (snd e)) ?n = Some o'"
    using l by (metis min_by_key_None not_None_eq list.size(3) nat.distinct(1))
  have "?m \<noteq> []" using assms(3) by (auto simp: MAX_PLANS_def)
  then obtain k v where e: "(k, v) \<in> set ?m" by (metis list.set_intros(1) neq_Nil_conv surj_pair)
  then have "lp_updated_at v < lp_updated_at p" using old wf by (simp add: hm_entries)
  moreover have "lp_updated_at (snd o') \<le> lp_updated_at v"
    using min_by_key_le [OF o, of "(k, v)"] e by (simp add: hm_insert_new [OF nz])
  ultimately have "snd o' \<noteq> p" by auto
  then have m: "o' \<in> set ?m" using min_by_key_mem [OF o] by (auto simp: hm_insert_new [OF nz])
  then have k: "map_of ?m (fst o') = Some (snd o')" using wf by (metis hm_entries prod.collapse)
  have "fst o' \<noteq> z" using m nz by force
  then have "map_of (restore_plan z (map_of ?m z) (trim_plans ?n)) (fst o') = None"
    using trim_plans_one [OF hm_wf_insert [OF wf] l o] by (simp add: restore_plan_def new)
  then show ?thesis using k by (auto simp: store_plan_def Let_def assms(2) get_plan_def)
qed

end
