(* ===== verification/Mqtt_Surface.thy ===== *)
theory Mqtt_Surface
  imports App_Settings Projection_Commit
begin

text \<open>
  The Home Assistant surface (src/mqtt): topics.rs, the routing of inbound commands of command.rs, the
  slug map of mod.rs that finds the zone of a command, and the cache of dedupe.rs that drops retained
  publishes the broker already has. The broker client is third-party: whether a send succeeded is an
  input. \<open>read_f64\<close> is \<open>str::parse::<f64>\<close> and \<open>narrow\<close> the cast of an \<open>f64\<close> to an \<open>f32\<close>.
\<close>

section \<open>Topics\<close>

text \<open>One underscore for each character that is no ASCII letter or digit, whatever its length in bytes.\<close>

definition slug_char :: "char \<Rightarrow> char" where
  "slug_char c = (let n = of_char c :: nat in
     if 48 \<le> n \<and> n \<le> 57 \<or> 65 \<le> n \<and> n \<le> 90 \<or> 97 \<le> n \<and> n \<le> 122 then c else CHR ''_'')"

definition zone_slug :: "string \<Rightarrow> string" where
  "zone_slug z = map slug_char (filter (\<lambda>c. (of_char c :: nat) div 64 \<noteq> 2) z)"

definition availability_topic :: "string \<Rightarrow> string" where
  "availability_topic base = base @ ''/bridge/status''"

definition state_topic :: "string \<Rightarrow> string \<Rightarrow> string" where
  "state_topic base z = base @ ''/media_player/'' @ zone_slug z @ ''/state''"

definition command_topic :: "string \<Rightarrow> string \<Rightarrow> string \<Rightarrow> string" where
  "command_topic base z action = base @ ''/media_player/'' @ zone_slug z @ ''/'' @ action @ ''/set''"

definition discovery_topic :: "string \<Rightarrow> string \<Rightarrow> string \<Rightarrow> string \<Rightarrow> string" where
  "discovery_topic pre component z suf =
     pre @ ''/'' @ component @ ''/unified_hifi_control/'' @ zone_slug z @ ''_'' @ suf @ ''/config''"

definition knob_state_topic :: "string \<Rightarrow> string \<Rightarrow> string" where
  "knob_state_topic base k = base @ ''/knob/'' @ zone_slug k @ ''/state''"

definition knob_command_topic :: "string \<Rightarrow> string \<Rightarrow> string \<Rightarrow> string" where
  "knob_command_topic base k action = base @ ''/knob/'' @ zone_slug k @ ''/'' @ action @ ''/set''"

definition strip_suffix :: "string \<Rightarrow> string \<Rightarrow> string option" where
  "strip_suffix s p = map_option List.rev (strip_prefix (List.rev s) (List.rev p))"

definition rsplit_once :: "char \<Rightarrow> string \<Rightarrow> (string \<times> string) option" where
  "rsplit_once c s = (case split_once c (List.rev s) of None \<Rightarrow> None | Some (b, a) \<Rightarrow> Some (List.rev a, List.rev b))"

definition parse_command_topic :: "string \<Rightarrow> string \<Rightarrow> (string \<times> string) option" where
  "parse_command_topic base topic =
     (case strip_prefix topic base of None \<Rightarrow> None | Some r1 \<Rightarrow>
     (case strip_prefix r1 ''/media_player/'' of None \<Rightarrow> None | Some r2 \<Rightarrow>
     (case strip_suffix r2 ''/set'' of None \<Rightarrow> None | Some r3 \<Rightarrow>
     (case rsplit_once CHR ''/'' r3 of None \<Rightarrow> None | Some (slug, action) \<Rightarrow>
        if slug = [] \<or> action = [] then None else Some (slug, action)))))"

lemma strip_suffix_append [simp]: "strip_suffix (s @ p) p = Some s"
  by (simp add: strip_suffix_def strip_prefix_def)

lemma rsplit_once_Some_iff: "rsplit_once c s = Some (a, b) \<longleftrightarrow> s = a @ c # b \<and> c \<notin> set b"
proof -
  have "rsplit_once c s = Some (a, b) \<longleftrightarrow> split_once c (List.rev s) = Some (List.rev b, List.rev a)"
    by (auto simp: rsplit_once_def split: option.splits)
  also have "\<dots> \<longleftrightarrow> List.rev s = List.rev b @ c # List.rev a \<and> c \<notin> set b"
    by (simp add: split_once_Some_iff)
  also have "List.rev s = List.rev b @ c # List.rev a \<longleftrightarrow> s = a @ c # b"
    by (metis append_Cons append_Nil append_assoc rev.simps(2) rev_append rev_rev_ident)
  finally show ?thesis .
qed

lemma slash_not_slug: "CHR ''/'' \<notin> set (zone_slug z)"
  by (auto simp: zone_slug_def slug_char_def Let_def split: if_splits)

lemma parse_own_command_topic:
  "zone_slug z \<noteq> [] \<Longrightarrow> action \<noteq> [] \<Longrightarrow> CHR ''/'' \<notin> set action \<Longrightarrow>
     parse_command_topic base (command_topic base z action) = Some (zone_slug z, action)"
proof -
  assume a: "zone_slug z \<noteq> []" "action \<noteq> []" "CHR ''/'' \<notin> set action"
  have "strip_prefix (command_topic base z action) base =
      Some (''/media_player/'' @ zone_slug z @ ''/'' @ action @ ''/set'')"
    by (simp add: command_topic_def strip_prefix_Some_iff)
  moreover have "strip_prefix (''/media_player/'' @ zone_slug z @ ''/'' @ action @ ''/set'') ''/media_player/'' =
      Some ((zone_slug z @ ''/'' @ action) @ ''/set'')"
    by (subst strip_prefix_Some_iff) simp
  moreover have "rsplit_once CHR ''/'' (zone_slug z @ ''/'' @ action) = Some (zone_slug z, action)"
    using a(3) by (simp add: rsplit_once_Some_iff)
  ultimately show ?thesis using a(1, 2) by (simp add: parse_command_topic_def del: append.simps append_assoc)
qed

section \<open>Actions\<close>

datatype parsed_action =
    PA_Play | PA_Pause | PA_Next | PA_Previous | PA_VolumeUp | PA_VolumeDown
  | PA_Volume f64 | PA_VolumeNative f64 | PA_Mute bool

text \<open>\<open>f64::clamp(0.0, 100.0)\<close>, which leaves NaN as it is.\<close>

fun clamp_percent :: "f64 \<Rightarrow> f64" where
  "clamp_percent NaN = NaN"
| "clamp_percent NegInf = Fin 0"
| "clamp_percent PosInf = Fin 100"
| "clamp_percent (Fin q) = Fin (max 0 (min 100 q))"

definition upper_char :: "char \<Rightarrow> char" where
  "upper_char c = (let n = of_char c :: nat in if 97 \<le> n \<and> n \<le> 122 then char_of (n - 32) else c)"

definition parse_action :: "(string \<Rightarrow> f64 option) \<Rightarrow> string \<Rightarrow> string \<Rightarrow> parsed_action option" where
  "parse_action read_f64 action payload =
     (let p = str_trim payload in
      if action = ''play'' then Some PA_Play
      else if action = ''pause'' then Some PA_Pause
      else if action = ''next'' then Some PA_Next
      else if action = ''previous'' then Some PA_Previous
      else if action = ''volume'' then map_option (\<lambda>v. PA_Volume (clamp_percent v)) (read_f64 p)
      else if action = ''mute'' then
        (if map upper_char p \<in> {''ON'', ''TRUE'', ''1''} then Some (PA_Mute True)
         else if map upper_char p \<in> {''OFF'', ''FALSE'', ''0''} then Some (PA_Mute False)
         else None)
      else None)"

datatype adapter_command =
    AC_Play | AC_Pause | AC_PlayPause | AC_Stop | AC_Next | AC_Previous
  | AC_VolumeAbsolute int | AC_VolumeRelative int | AC_Mute bool
  | AC_SetRepeat repeat_mode | AC_SetShuffle bool

text \<open>\<open>value.round() as i32\<close>: half away from zero, saturating, NaN to zero.\<close>

fun round_i32 :: "f64 \<Rightarrow> int" where
  "round_i32 NaN = 0"
| "round_i32 NegInf = - (2 ^ 31)"
| "round_i32 PosInf = 2 ^ 31 - 1"
| "round_i32 (Fin q) = max (- (2 ^ 31)) (min (2 ^ 31 - 1)
     (if q \<ge> 0 then \<lfloor>q + 1 / 2\<rfloor> else - \<lfloor>1 / 2 - q\<rfloor>))"

fun into_adapter_command :: "parsed_action \<Rightarrow> adapter_command" where
  "into_adapter_command PA_Play = AC_Play"
| "into_adapter_command PA_Pause = AC_Pause"
| "into_adapter_command PA_Next = AC_Next"
| "into_adapter_command PA_Previous = AC_Previous"
| "into_adapter_command PA_VolumeUp = AC_VolumeRelative 1"
| "into_adapter_command PA_VolumeDown = AC_VolumeRelative (- 1)"
| "into_adapter_command (PA_Volume v) = AC_VolumeAbsolute (round_i32 v)"
| "into_adapter_command (PA_VolumeNative v) = AC_VolumeAbsolute (round_i32 v)"
| "into_adapter_command (PA_Mute m) = AC_Mute m"

fun into_gateway_command :: "(f64 \<Rightarrow> f32) \<Rightarrow> parsed_action \<Rightarrow> bus_command" where
  "into_gateway_command narrow PA_Play = Play"
| "into_gateway_command narrow PA_Pause = Pause"
| "into_gateway_command narrow PA_Next = Next"
| "into_gateway_command narrow PA_Previous = Previous"
| "into_gateway_command narrow PA_VolumeUp = VolumeRelative (Fin 1) None"
| "into_gateway_command narrow PA_VolumeDown = VolumeRelative (Fin (- 1)) None"
| "into_gateway_command narrow (PA_Volume v) = VolumeAbsolute (narrow v) None"
| "into_gateway_command narrow (PA_VolumeNative v) = VolumeAbsolute (narrow v) None"
| "into_gateway_command narrow (PA_Mute m) = Mute m None"

fun into_hqplayer_action :: "parsed_action \<Rightarrow> (string \<times> f64 option) option" where
  "into_hqplayer_action PA_Play = Some (''play'', None)"
| "into_hqplayer_action PA_Pause = Some (''pause'', None)"
| "into_hqplayer_action PA_Next = Some (''next'', None)"
| "into_hqplayer_action PA_Previous = Some (''previous'', None)"
| "into_hqplayer_action (PA_VolumeNative v) = Some (''volume'', Some v)"
| "into_hqplayer_action a = None"

section \<open>Routing\<close>

text \<open>The call \<open>dispatch\<close> makes, or the reason why it makes none.\<close>

datatype mqtt_route =
    ToAdapter string string adapter_command
  | ToGateway string string bus_command
  | ToHqplayer string string string "f64 option"
  | Unrouted string

definition dispatch_route ::
  "(f64 \<Rightarrow> f32) \<Rightarrow> (string \<Rightarrow> bool) \<Rightarrow> string \<Rightarrow> parsed_action \<Rightarrow> mqtt_route" where
  "dispatch_route narrow has_adapter z a =
     (let p = hd (split_on CHR '':'' z) in
      if p = [] then Unrouted ''zone id has no provider prefix''
      else if has_adapter p then ToAdapter p z (into_adapter_command a)
      else if p \<in> {''roon'', ''lms'', ''openhome'', ''upnp''} then ToGateway p z (into_gateway_command narrow a)
      else if p = ''hqplayer'' then
        (case into_hqplayer_action a of
           None \<Rightarrow> Unrouted ''HQPlayer volume/mute is not available over MQTT's 0-100 percentage scale''
         | Some (action, v) \<Rightarrow>
             ToHqplayer z (case strip_prefix z ''hqplayer:'' of None \<Rightarrow> z | Some i \<Rightarrow> i) action v)
      else Unrouted (''no bridged provider for '' @ [CHR 0x27] @ p @ [CHR 0x27] @ '' zones''))"

datatype slug_event =
    SlugAnnounce "string list"
  | SlugSeen string
  | SlugsGone "string list"

text \<open>\<open>announce_all_zones\<close> and the arms of \<open>handle_bus_event\<close>, as far as they touch \<open>zone_slugs\<close>.\<close>

fun slug_step :: "(string \<times> string) list \<Rightarrow> slug_event \<Rightarrow> (string \<times> string) list" where
  "slug_step m (SlugAnnounce zs) = foldl (\<lambda>m z. hm_insert (zone_slug z) z m) [] zs"
| "slug_step m (SlugSeen z) = hm_insert (zone_slug z) z m"
| "slug_step m (SlugsGone zs) = foldl (\<lambda>m z. hm_remove (zone_slug z) m) m zs"

text \<open>\<open>handle_incoming_publish\<close> for a zone command: the zone and the action it is dispatched with.\<close>

definition route_command ::
  "(string \<Rightarrow> f64 option) \<Rightarrow> string \<Rightarrow> (string \<times> string) list \<Rightarrow> string \<Rightarrow> string \<Rightarrow> (string \<times> parsed_action) option" where
  "route_command read_f64 base slugs topic payload =
     (case parse_command_topic base topic of None \<Rightarrow> None | Some (slug, action) \<Rightarrow>
     (case map_of slugs slug of None \<Rightarrow> None | Some z \<Rightarrow>
        map_option (Pair z) (parse_action read_f64 action payload)))"

text \<open>The zones that are known after the same events.\<close>

fun known_step :: "string set \<Rightarrow> slug_event \<Rightarrow> string set" where
  "known_step K (SlugAnnounce zs) = set zs"
| "known_step K (SlugSeen z) = insert z K"
| "known_step K (SlugsGone zs) = K - set zs"

fun event_zones :: "slug_event \<Rightarrow> string set" where
  "event_zones (SlugAnnounce zs) = set zs"
| "event_zones (SlugSeen z) = {z}"
| "event_zones (SlugsGone zs) = set zs"

definition slugs_exact :: "string set \<Rightarrow> (string \<times> string) list \<Rightarrow> bool" where
  "slugs_exact K m \<longleftrightarrow> (\<forall>s z. map_of m s = Some z \<longleftrightarrow> z \<in> K \<and> zone_slug z = s)"

lemma slugs_exact_insert:
  "inj_on zone_slug U \<Longrightarrow> insert z K \<subseteq> U \<Longrightarrow> slugs_exact K m \<Longrightarrow>
     slugs_exact (insert z K) (hm_insert (zone_slug z) z m)"
  by (auto simp: slugs_exact_def dest: inj_onD)

lemma slugs_exact_remove:
  "inj_on zone_slug U \<Longrightarrow> insert z K \<subseteq> U \<Longrightarrow> slugs_exact K m \<Longrightarrow>
     slugs_exact (K - {z}) (hm_remove (zone_slug z) m)"
  by (auto simp: slugs_exact_def dest: inj_onD)

lemma slugs_exact_inserts:
  "inj_on zone_slug U \<Longrightarrow> K \<union> set zs \<subseteq> U \<Longrightarrow> slugs_exact K m \<Longrightarrow>
     slugs_exact (K \<union> set zs) (foldl (\<lambda>m z. hm_insert (zone_slug z) z m) m zs)"
proof (induction zs arbitrary: K m)
  case (Cons z zs)
  from Cons.IH [OF Cons.prems(1) _ slugs_exact_insert [OF Cons.prems(1) _ Cons.prems(3), of z]] Cons.prems(2)
  show ?case by simp
qed simp

lemma slugs_exact_removes:
  "inj_on zone_slug U \<Longrightarrow> K \<union> set zs \<subseteq> U \<Longrightarrow> slugs_exact K m \<Longrightarrow>
     slugs_exact (K - set zs) (foldl (\<lambda>m z. hm_remove (zone_slug z) m) m zs)"
proof (induction zs arbitrary: K m)
  case (Cons z zs)
  have u: "K - {z} \<union> set zs \<subseteq> U" "insert z K \<subseteq> U" using Cons.prems(2) by auto
  have "K - set (z # zs) = K - {z} - set zs" by auto
  with Cons.IH [OF Cons.prems(1) u(1) slugs_exact_remove [OF Cons.prems(1) u(2) Cons.prems(3)]]
  show ?case by simp
qed simp

lemma slugs_exact_step:
  assumes "inj_on zone_slug U" "K \<subseteq> U" "event_zones e \<subseteq> U" "slugs_exact K m"
  shows "slugs_exact (known_step K e) (slug_step m e) \<and> known_step K e \<subseteq> U"
proof (cases e)
  case (SlugAnnounce zs)
  have "slugs_exact {} []" by (simp add: slugs_exact_def)
  from slugs_exact_inserts [OF assms(1) _ this, of zs] SlugAnnounce assms(3) show ?thesis by simp
next
  case (SlugSeen z)
  then show ?thesis using slugs_exact_insert [OF assms(1) _ assms(4), of z] assms(2, 3) by simp
next
  case (SlugsGone zs)
  then show ?thesis using slugs_exact_removes [OF assms(1) _ assms(4), of zs] assms(2, 3) by auto
qed

lemma slugs_exact_run:
  assumes "inj_on zone_slug U" "\<forall>e \<in> set es. event_zones e \<subseteq> U"
  shows "slugs_exact (foldl known_step {} es) (foldl slug_step [] es)"
proof -
  have "slugs_exact K m \<Longrightarrow> K \<subseteq> U \<Longrightarrow> \<forall>e \<in> set es. event_zones e \<subseteq> U \<Longrightarrow>
      slugs_exact (foldl known_step K es) (foldl slug_step m es)" for K m es
  proof (induction es arbitrary: K m)
    case (Cons e es)
    then show ?case using slugs_exact_step [OF assms(1), of K e m] by simp
  qed simp
  then show ?thesis using assms(2) by (simp add: slugs_exact_def)
qed

section \<open>Retained publishes\<close>

text \<open>
  \<open>PublishCache\<close> and \<open>MqttClient::publish\<close>. \<open>sent\<close> is whether the client accepted the message; the
  result says whether the caller sees an error, and whether the client was called at all.
\<close>

type_synonym publish_cache = "(string \<times> u8 list) list"

definition should_publish :: "string \<Rightarrow> bool \<Rightarrow> u8 list \<Rightarrow> publish_cache \<Rightarrow> bool \<times> publish_cache" where
  "should_publish topic retain payload cache =
     (if \<not> retain then (True, cache)
      else if map_of cache topic = Some payload then (False, cache)
      else (True, hm_insert topic payload cache))"

definition mqtt_publish ::
  "bool \<Rightarrow> string \<Rightarrow> bool \<Rightarrow> u8 list \<Rightarrow> publish_cache \<Rightarrow> (bool \<times> bool) \<times> publish_cache" where
  "mqtt_publish sent topic retain payload cache =
     (case should_publish topic retain payload cache of
        (False, cache') \<Rightarrow> ((True, False), cache')
      | (True, cache') \<Rightarrow> ((sent, True), if sent then cache' else hm_remove topic cache'))"

text \<open>
  What the broker retains: the last payload of each topic, nothing once an empty one was retained. A
  \<open>BrokerReset\<close> is a fresh connection: the broker may retain anything, and the cache is cleared.
\<close>

type_synonym broker = "string \<Rightarrow> u8 list option"

definition retained :: "string \<Rightarrow> u8 list \<Rightarrow> broker \<Rightarrow> broker" where
  "retained topic payload b = b(topic := if payload = [] then None else Some payload)"

datatype mqtt_event = MqttPublish bool string bool "u8 list" | BrokerReset broker

fun plain_step :: "broker \<Rightarrow> mqtt_event \<Rightarrow> broker" where
  "plain_step b (MqttPublish sent topic retain payload) = (if sent \<and> retain then retained topic payload b else b)"
| "plain_step b (BrokerReset b') = b'"

fun dedupe_step :: "broker \<times> publish_cache \<Rightarrow> mqtt_event \<Rightarrow> broker \<times> publish_cache" where
  "dedupe_step (b, cache) (MqttPublish sent topic retain payload) =
     (case mqtt_publish sent topic retain payload cache of
        ((accepted, called), cache') \<Rightarrow>
          (if called \<and> accepted \<and> retain then retained topic payload b else b, cache'))"
| "dedupe_step (b, cache) (BrokerReset b') = (b', [])"

definition cache_true :: "broker \<times> publish_cache \<Rightarrow> bool" where
  "cache_true s \<longleftrightarrow> (\<forall>t p. map_of (snd s) t = Some p \<longrightarrow> fst s t = (if p = [] then None else Some p))"

lemma dedupe_step_plain: "cache_true s \<Longrightarrow> fst (dedupe_step s e) = plain_step (fst s) e"
  by (cases s; cases e)
    (auto simp: mqtt_publish_def should_publish_def cache_true_def retained_def fun_eq_iff)

lemma dedupe_step_true: "cache_true s \<Longrightarrow> cache_true (dedupe_step s e)"
  by (cases s; cases e)
    (auto simp: mqtt_publish_def should_publish_def cache_true_def retained_def)

interpretation dedupe: event_system dedupe_step cache_true "\<lambda>s t. True"
  by unfold_locales (simp_all add: dedupe_step_true)

lemma dedupe_run_plain: "cache_true s \<Longrightarrow> fst (foldl dedupe_step s es) = foldl plain_step (fst s) es"
  by (induction es arbitrary: s) (simp_all add: dedupe_step_plain dedupe_step_true)

lemma dedupe_suppressed:
  "cache_true (b, cache) \<Longrightarrow> mqtt_publish sent topic retain payload cache = ((r, False), cache') \<Longrightarrow>
     retain \<and> r \<and> cache' = cache \<and> retained topic payload b = b"
proof -
  assume a: "cache_true (b, cache)" "mqtt_publish sent topic retain payload cache = ((r, False), cache')"
  then have m: "retain" "map_of cache topic = Some payload" "r" "cache' = cache"
    by (auto simp: mqtt_publish_def should_publish_def split: if_splits)
  then have "b topic = (if payload = [] then None else Some payload)" using a(1) by (simp add: cache_true_def)
  then show ?thesis using m by (simp add: retained_def fun_eq_iff)
qed

end
