(* ===== verification/Surface_Samples.thy ===== *)
theory Surface_Samples
  imports Controller_Auth Cloud_Commands Cloud_Safety Listening_Plan Mqtt_Surface
begin

text \<open>
  Concrete values of the surfaces: a session made by a bootstrap, the files of a connector that is paused,
  a signed command of the cloud relay, a plan.
\<close>

section \<open>The controller's session\<close>

definition demo_auth :: auth_state where
  "demo_auth = fst (auth_new token_bytes (Some ''secret'') [] True None)"

definition demo_mutation :: http_request where
  "demo_mutation = \<lparr>rq_method = ''POST'', rq_path = ''/control'', rq_headers =
     [(''cookie'', ''uhc_controller=session''), (''origin'', ''http://hub''), (''host'', ''hub''),
      (''x-uhc-csrf-token'', ''csrf'')]\<rparr>"

text \<open>What the bootstrap leaves, and what the middleware reads from the request.\<close>

definition demo_signed_in :: auth_state where
  "demo_signed_in = \<lparr>au_bootstrap_hash = None,
     au_sessions = [(''session'', \<lparr>as_csrf = ''csrf'', as_expires_at = 2593000\<rparr>)], au_bootstrap_display = None\<rparr>"

lemma demo_bootstrap:
  "foldl (auth_step token_bytes) demo_auth [AuthBootstrap ''secret'' ''session'' ''csrf'' 1000] = demo_signed_in"
  by (simp add: demo_auth_def demo_signed_in_def auth_new_def auth_bootstrap_def constant_time_eq_iff
      SESSION_TTL_def hm_insert_def)

lemma eq_char_of: "c = char_of (n :: nat) \<longleftrightarrow> of_char c = n mod 256"
  by (metis char_of_eq_iff take_bit_eq_mod of_char_mod_256 of_char_of)

lemma demo_cookie_trimmed: "str_trim ''uhc_controller=session'' = ''uhc_controller=session''"
proof -
  have "trim_start ''uhc_controller=session'' = ''uhc_controller=session''"
    by (subst trim_start.simps) (simp add: white_space_def starts_with_def eq_char_of)
  moreover have "trim_end ''uhc_controller=session'' = ''uhc_controller=session''"
    by (subst trim_end.simps) (simp add: white_space_def starts_with_def eq_char_of)
  ultimately show ?thesis by (simp add: str_trim_def)
qed

lemma demo_cookie: "cookie_token (rq_headers demo_mutation) = Some ''session''"
proof -
  have "split_on CHR '';'' ''uhc_controller=session'' = [''uhc_controller=session'']"
    "split_once CHR ''='' ''uhc_controller=session'' = Some (''uhc_controller'', ''session'')" by code_simp+
  then show ?thesis by (simp add: cookie_token_def demo_mutation_def demo_cookie_trimmed COOKIE_NAME_def)
qed

lemma demo_protected:
  "\<not> is_public (rq_path demo_mutation)" "\<not> is_native_bridge (rq_path demo_mutation)"
  "is_protected (rq_path demo_mutation) (rq_method demo_mutation)" "same_origin (rq_headers demo_mutation)"
  by code_simp+

lemma demo_passes: "fst (auth_middleware False True demo_mutation 2000 demo_signed_in) = AuthPass"
proof -
  have "csrf_matches (rq_headers demo_mutation) ''csrf''"
    by (simp add: csrf_matches_def demo_mutation_def constant_time_eq_iff)
  with demo_protected show ?thesis
    by (simp add: auth_middleware_def auth_session_of_def Let_def demo_cookie demo_signed_in_def)
qed

section \<open>The connector\<close>

definition demo_files :: epoch_files where
  "demo_files = \<lparr>ef_retry = Absent, ef_attempts = Absent, ef_resume = Absent, ef_quarantine = Absent\<rparr>"

definition demo_paused :: epoch_files where
  "demo_paused = demo_files\<lparr>ef_quarantine := Holds ()\<rparr>"

definition demo_resume :: resume_io where
  "demo_resume = \<lparr>rio_write = Written, rio_remove_attempts = True, rio_remove_quarantine = True\<rparr>"

text \<open>A first attempt, and what the policy and the files hold after it.\<close>

definition demo_attempted :: cloud_state where
  "demo_attempted = (let r = \<lparr>sr_last_ms = 1000, sr_next_ms = 6000, sr_step = 1\<rparr>
     in (Some r, demo_files\<lparr>ef_retry := Holds r, ef_attempts := Holds (1000, 1)\<rparr>))"

lemmas retry_defs = retry_reserve_def pause_reason_def inspect_def read_retry_def read_parsed_def
  schedule_ok_def admit_reconnect_def rebase_attempts_def sat_sub_def write_file_def save_retry_def advance_schedule_def
  minimum_delay_def sat_add_def retry_load_def MAX_DELAY_MS_def min_def sat_succ_def word_le_nat_alt Let_def

lemma demo_first_attempt:
  "cloud_step (Some saved_retry_default, demo_files) (CloudReserve Written Written 0 1000) = (CloudAttempt, demo_attempted)"
  by (simp add: retry_defs demo_files_def saved_retry_default_def demo_attempted_def)

lemma demo_second_attempt:
  "fst (cloud_step (cloud_run demo_attempted [CloudLoad Written 2000]) (CloudReserve Written Written 0 6001)) = CloudAttempt"
  by (simp add: retry_defs demo_files_def demo_attempted_def cloud_run_def)

section \<open>A signed command\<close>

definition demo_claims :: "int \<Rightarrow> grant_claims" where
  "demo_claims t = \<lparr>gc_protocol_version = 1, gc_issuer = ''i'', gc_audience = ''a'', gc_installation_id = ''n'',
     gc_control_node_id = ''c'', gc_request_id = ''r'', gc_idempotency_key = ''k'', gc_scope = ''playback_control'',
     gc_payload_sha256 = ''h'', gc_epoch = 1, gc_issued_at = t, gc_expires_at = t + 15000, gc_generation = 1\<rparr>"

definition demo_crypto :: "int \<Rightarrow> cloud_crypto" where
  "demo_crypto t = \<lparr>cr_base64 = (\<lambda>s. Some []), cr_header = (\<lambda>b. Some \<lparr>jh_alg = ''EdDSA'', jh_key_id = ''key''\<rparr>),
     cr_signature = Some, cr_claims = (\<lambda>b. Some (demo_claims t)), cr_verify = (\<lambda>k b s. True),
     cr_payload_hash = (\<lambda>p. Some ''h'')\<rparr>"

definition demo_envelope :: "int \<Rightarrow> command_envelope" where
  "demo_envelope t = \<lparr>ce_protocol_version = 1, ce_installation_id = ''n'', ce_control_node_id = ''c'', ce_epoch = 1,
     ce_message_id = ''m'', ce_request_id = ''r'', ce_idempotency_key = ''k'', ce_created_at = t,
     ce_expires_at = t + 15000, ce_payload = \<lparr>cy_zone_handle = ''0123456789abcdef'', cy_action = CloudNext\<rparr>,
     ce_grant = ''h.p.s''\<rparr>"

definition demo_session :: command_session where
  "demo_session = \<lparr>cx_verifier = pin_key ''key'' [] (grant_verifier_new ''i'' ''a'' ''n'' 1 1), cx_ledger = []\<rparr>"

lemma demo_signed: "signed_claims (demo_crypto t) (demo_envelope t) (cx_verifier demo_session) = Inr (demo_claims t)"
proof -
  have "split_on CHR ''.'' ''h.p.s'' = [''h'', ''p'', ''s'']" by code_simp
  then show ?thesis
    by (simp add: signed_claims_def decode_jws_def demo_crypto_def demo_envelope_def demo_session_def pin_key_def
        grant_verifier_new_def)
qed

lemma demo_dispatched: "snd (fst (handle_command (demo_crypto 1000) CloudExecuted 2000 (demo_envelope 1000) demo_session))"
  by code_simp

text \<open>A grant issued by a clock that is 50 seconds ahead: executed, and executed again a minute later.\<close>

lemma demo_replayed:
  "snd (fst (handle_command (demo_crypto 51000) CloudExecuted 1000 (demo_envelope 51000) demo_session)) \<and>
   snd (fst (handle_command (demo_crypto 51000) x 61001 (demo_envelope 51000)
     (snd (handle_command (demo_crypto 51000) CloudExecuted 1000 (demo_envelope 51000) demo_session))))"
proof
  show "snd (fst (handle_command (demo_crypto 51000) CloudExecuted 1000 (demo_envelope 51000) demo_session))" by code_simp
  then have "snd (fst (handle_command (demo_crypto 51000) x (1000 + 60001) (demo_envelope 51000)
      (snd (handle_command (demo_crypto 51000) CloudExecuted 1000 (demo_envelope 51000) demo_session))))"
    by (rule replay_after_cache [OF _ demo_signed])
      (simp_all add: demo_session_def pin_key_def grant_verifier_new_def demo_claims_def hm_wf_def)
  then show "snd (fst (handle_command (demo_crypto 51000) x 61001 (demo_envelope 51000)
      (snd (handle_command (demo_crypto 51000) CloudExecuted 1000 (demo_envelope 51000) demo_session))))" by simp
qed

text \<open>A clock that goes back: the grant is executed at 2000, another one at 63000 makes the session forget
  it, and when the clock reads 3000 again the first is executed once more.\<close>

definition two_grants :: cloud_crypto where
  "two_grants = (demo_crypto 1000)\<lparr>cr_base64 := (\<lambda>s. Some (if s = ''q'' then [1] else [])),
     cr_claims := (\<lambda>b. Some (if b = [1]
       then (demo_claims 62000)\<lparr>gc_request_id := ''r2'', gc_idempotency_key := ''k2''\<rparr> else demo_claims 1000))\<rparr>"

definition other_envelope :: command_envelope where
  "other_envelope = (demo_envelope 62000)\<lparr>ce_request_id := ''r2'', ce_idempotency_key := ''k2'', ce_grant := ''h.q.s''\<rparr>"

definition remembering :: "(string \<times> int) list \<Rightarrow> grant_verifier" where
  "remembering seen = (cx_verifier demo_session)\<lparr>gv_seen := seen\<rparr>"

lemma two_signed:
  "signed_claims two_grants (demo_envelope 1000) (remembering seen) = Inr (demo_claims 1000)"
  "signed_claims two_grants other_envelope (remembering seen) =
     Inr ((demo_claims 62000)\<lparr>gc_request_id := ''r2'', gc_idempotency_key := ''k2''\<rparr>)"
proof -
  have "split_on CHR ''.'' ''h.p.s'' = [''h'', ''p'', ''s'']" "split_on CHR ''.'' ''h.q.s'' = [''h'', ''q'', ''s'']"
    by code_simp+
  then show "signed_claims two_grants (demo_envelope 1000) (remembering seen) = Inr (demo_claims 1000)"
    "signed_claims two_grants other_envelope (remembering seen) =
       Inr ((demo_claims 62000)\<lparr>gc_request_id := ''r2'', gc_idempotency_key := ''k2''\<rparr>)"
    by (simp_all add: signed_claims_def decode_jws_def two_grants_def demo_crypto_def demo_envelope_def other_envelope_def
        remembering_def demo_session_def pin_key_def grant_verifier_new_def)
qed

lemma two_fields [simp]:
  "ce_protocol_version (demo_envelope t) = 1" "ce_installation_id (demo_envelope t) = ''n''"
  "ce_control_node_id (demo_envelope t) = ''c''" "ce_epoch (demo_envelope t) = 1" "ce_request_id (demo_envelope t) = ''r''"
  "ce_idempotency_key (demo_envelope t) = ''k''" "ce_expires_at (demo_envelope t) = t + 15000"
  "ce_payload (demo_envelope t) = \<lparr>cy_zone_handle = ''0123456789abcdef'', cy_action = CloudNext\<rparr>"
  "ce_protocol_version other_envelope = 1" "ce_installation_id other_envelope = ''n''"
  "ce_control_node_id other_envelope = ''c''" "ce_epoch other_envelope = 1" "ce_request_id other_envelope = ''r2''"
  "ce_idempotency_key other_envelope = ''k2''" "ce_expires_at other_envelope = 77000"
  "ce_payload other_envelope = \<lparr>cy_zone_handle = ''0123456789abcdef'', cy_action = CloudNext\<rparr>"
  "cr_payload_hash two_grants p = Some ''h''"
  "gv_generation (remembering seen) = 1" "gv_audience (remembering seen) = ''a''"
  "gv_installation_id (remembering seen) = ''n''" "gv_epoch (remembering seen) = 1" "gv_issuer (remembering seen) = ''i''"
  "gv_seen (remembering seen) = seen" "remembering seen\<lparr>gv_seen := x\<rparr> = remembering x"
  by (simp_all add: demo_envelope_def other_envelope_def two_grants_def demo_crypto_def remembering_def demo_session_def
      pin_key_def grant_verifier_new_def)

lemma two_verified:
  "1000 \<le> now \<Longrightarrow> now < 16000 \<Longrightarrow> map_of (seen_lately now seen) ''r'' = None \<Longrightarrow> length (seen_lately now seen) < 256 \<Longrightarrow>
     \<exists>q. verify_command two_grants (demo_envelope 1000) now (remembering seen) =
       (Inr q, remembering (hm_insert ''r'' now (seen_lately now seen)))"
  "62000 \<le> now \<Longrightarrow> now < 77000 \<Longrightarrow> map_of (seen_lately now seen) ''r2'' = None \<Longrightarrow> length (seen_lately now seen) < 256 \<Longrightarrow>
     \<exists>q. verify_command two_grants other_envelope now (remembering seen) =
       (Inr q, remembering (hm_insert ''r2'' now (seen_lately now seen)))"
proof -
  have w: "payload_well_formed \<lparr>cy_zone_handle = ''0123456789abcdef'', cy_action = CloudNext\<rparr>" by code_simp
  note d = verify_command_def two_signed w Let_def claims_live_def sat_i64_def demo_claims_def claims_bind_def
    MAX_REPLAY_REQUESTS_def action_scope_def
  show "1000 \<le> now \<Longrightarrow> now < 16000 \<Longrightarrow> map_of (seen_lately now seen) ''r'' = None \<Longrightarrow> length (seen_lately now seen) < 256 \<Longrightarrow>
     \<exists>q. verify_command two_grants (demo_envelope 1000) now (remembering seen) =
       (Inr q, remembering (hm_insert ''r'' now (seen_lately now seen)))" by (simp add: d)
  show "62000 \<le> now \<Longrightarrow> now < 77000 \<Longrightarrow> map_of (seen_lately now seen) ''r2'' = None \<Longrightarrow> length (seen_lately now seen) < 256 \<Longrightarrow>
     \<exists>q. verify_command two_grants other_envelope now (remembering seen) =
       (Inr q, remembering (hm_insert ''r2'' now (seen_lately now seen)))" by (simp add: d)
qed

definition ledger_of :: "string \<Rightarrow> cloud_outcome \<Rightarrow> nat \<Rightarrow> command_ledger" where
  "ledger_of k x t = [(k, \<lparr>lg_outcome = x, lg_recorded_at = t, lg_payload_hash = Some ''h''\<rparr>)]"

lemma clock_back_dispatches_again:
  defines "after1 x \<equiv> snd (handle_command two_grants x 2000 (demo_envelope 1000) demo_session)"
  shows "snd (fst (handle_command two_grants x 2000 (demo_envelope 1000) demo_session)) \<and>
    snd (fst (handle_command two_grants z 3000 (demo_envelope 1000)
      (foldl (session_step two_grants) (after1 x) [SessionCommand y 63000 other_envelope])))"
proof -
  let ?s1 = "\<lparr>cx_verifier = remembering [(''r'', 2000)], cx_ledger = ledger_of ''k'' x 2000\<rparr>"
  let ?s2 = "\<lparr>cx_verifier = remembering [(''r2'', 63000)], cx_ledger = ledger_of ''k2'' y 63000\<rparr>"
  have s0: "demo_session = \<lparr>cx_verifier = remembering [], cx_ledger = []\<rparr>"
    by (simp add: remembering_def demo_session_def pin_key_def grant_verifier_new_def)
  have e: "seen_lately 2000 [] = []" "seen_lately 63000 [(''r'', 2000)] = []" "seen_lately 3000 [(''r2'', 63000)] = [(''r2'', 63000)]"
    by (simp_all add: seen_lately_def sat_i64_def)
  have l: "ledger_expire 2000 [] = []" "ledger_expire 63000 (ledger_of ''k'' x 2000) = []"
    "ledger_expire 3000 (ledger_of ''k2'' y 63000) = ledger_of ''k2'' y 63000" "as_u64 2000 = 2000" "as_u64 63000 = 63000" "as_u64 3000 = 3000"
    by (simp_all add: ledger_expire_def ledger_of_def as_u64_def)
  have none: "ledger_expire n [] = []" for n by (simp add: ledger_expire_def)
  obtain q1 where "verify_command two_grants (demo_envelope 1000) 2000 (remembering []) = (Inr q1, remembering [(''r'', 2000)])"
    using two_verified(1) [of 2000 "[]"] e by (auto simp: hm_insert_def)
  from handled_fresh [where s = "\<lparr>cx_verifier = remembering [], cx_ledger = []\<rparr>", unfolded command_session.select_convs, OF this]
  have 1: "handle_command two_grants x 2000 (demo_envelope 1000) demo_session = ((Some x, True), ?s1)"
    by (simp add: s0 l hm_insert_def ledger_of_def)
  obtain q2 where "verify_command two_grants other_envelope 63000 (remembering [(''r'', 2000)]) = (Inr q2, remembering [(''r2'', 63000)])"
    using two_verified(2) [of 63000 "[(''r'', 2000)]"] e by (auto simp: hm_insert_def)
  from handled_fresh [where s = ?s1, unfolded command_session.select_convs, OF this]
  have 2: "snd (handle_command two_grants y 63000 other_envelope ?s1) = ?s2"
    by (simp add: l none hm_insert_def) (simp add: ledger_of_def)
  obtain q3 v3 where "verify_command two_grants (demo_envelope 1000) 3000 (remembering [(''r2'', 63000)]) = (Inr q3, v3)"
    using two_verified(1) [of 3000 "[(''r2'', 63000)]"] e by auto
  from handled_fresh [where s = ?s2, unfolded command_session.select_convs, OF this]
  have "snd (fst (handle_command two_grants z 3000 (demo_envelope 1000) ?s2))"
    by (simp add: l) (simp add: ledger_of_def)
  then show ?thesis by (simp add: after1_def 1 2)
qed

section \<open>Plans\<close>

lemma plan_store_keeps_file: "ps_file s \<noteq> None \<Longrightarrow> ps_file (plans_step s e) \<noteq> None"
proof -
  have st: "ps_file s \<noteq> None \<Longrightarrow> ps_file (snd (store_plan w z p s)) \<noteq> None" for w z p
    by (auto simp: store_plan_def Let_def)
  assume "ps_file s \<noteq> None"
  with st show ?thesis
    by (cases e) (auto simp: replace_plan_def append_plan_def play_next_def Let_def split: sum.splits)
qed

lemma plans_run_file: "ps_file s \<noteq> None \<Longrightarrow> ps_file (foldl plans_step s es) \<noteq> None"
  by (induction es arbitrary: s) (simp_all add: plan_store_keeps_file del: not_None_eq)

end
