(* ===== verification/Spec2Isabelle.thy ===== *)
theory Spec2Isabelle
  imports Uhc_Prelude Vocab Schema_Version Control_Model Constraint_Wire Command_Model Change_Set
    Producer_Facts Runtime_Claims Zone_Claims Bridge_Lane Surface_Claims Relay_Claims Hqp_Samples
    Samples Contract_Samples Contract_Claims Further_Claims Hqp_Strand Runtime_Race
    Roon_Match Surface_Rules Surface_Samples
begin

text \<open>
  Unified Hi-Fi Control (UHC), modelled after the Rust sources under src/src. The program connects
  audio back ends (Roon, LMS, UPnP, OpenHome, HQPlayer, Spotify, Apple Music, Music Assistant) to
  control surfaces (HTTP API, web application, MCP, MQTT, knobs). Adapters publish what they observe on
  an in-process bus; one task, the zone aggregator, owns the canonical state; surfaces read it and send
  commands back through the reliable runtime. A second, pure part, the producer contract, describes
  the controls of a producer as documents with constraints, change sets and operations; a gate admits,
  repairs or refuses every document a producer publishes.

  Theories and the code they model.

  Uhc_Prelude holds the shared lemmas and the model of the standard library's maps: a hash_map is an
  association list with distinct keys (hm_insert, hm_remove, hm_retain, hm_modify), words are saturating
  or wrapping as the source writes them (sat_succ is saturating_add(1)), strings are char lists.
  Float64 models f64 values as rationals with infinities and NaN, with Rust's partial order and equality
  and the rounding of integer conversions.

  The producer contract (src/src/adaptive): Schema_Version (version.rs), Json and Control_Value
  (value.rs), Vocab (the open vocabularies of vocab.rs and its users), Control_Model (control.rs),
  Constraint_Model and Constraint_Wire (constraint.rs), Command_Model (command.rs), Change_Set
  (change_set.rs), Producer_Doc (document.rs). Records carry the fields of the structs with a prefix;
  a method is a function whose receiver is an argument, and a method on a mutable receiver returns the
  updated record. The serializer's treatment of numbers is the parameter of the locale json_numbers,
  interpreted on a concrete instance (plain); its
  laws are about serde_json values in memory, not about their text.

  The producer side (src/src/producers): Adapter_Runs (run.rs), Admission (admission.rs),
  Producer_Aggregator (aggregator.rs, runtime.rs, event.rs) and their lemmas in Producer_Facts. The
  parser of timestamps, chrono's parse_from_rfc3339, is a parameter of every operation that uses it.

  The bus (src/src/bus): Bus_Events (events.rs), Bus_Runtime (runtime.rs) with Runtime_Facts and
  Runtime_Claims, and Runtime_Race, which follows two submissions of one correlation through any other
  events. One definition is one lock section of the runtime, or two in a row between which nothing
  can be observed (the number of a new command and its record; a lost dispatch and the status it reports); the events of a run are the calls
  and timers in the order in which they obtain the lock, so that every interleaving of the tasks is a
  list of events.

  The zone aggregator: Zone_Aggregator (the handlers of aggregator.rs), Projection_Commit
  (commit_reliable_projection, the sinks, the compatibility hints), Hqp_Native (the native records and
  the bridge of adapters/hqplayer.rs that numbers updates), Hqp_Outputs (adapters/hqplayer/naa/outputs.rs),
  Observation_History (mcp/observation_history.rs). Zone_Facts instantiates the locale event_system,
  Bridge_Lane composes the bridge with the aggregator, Zone_Claims holds the lemmas about hints, flushes,
  history and stops.

  Settings, lists and workers: App_Settings (the settings file and its endpoints in api/mod.rs),
  Zone_List (zone_list.rs and the order endpoint), Coordinator (coordinator.rs and the settings
  transaction of api/mod.rs) with Coordinator_Facts; Surface_Claims composes a reordering with the list
  and a stop with the aggregator. A handler that takes the write lock is one step on the file; a handler
  that reads before it takes the lock is two. What a worker answers when it is asked to start is the
  parameter env, and the log of the coordinator is the order in which workers are called and events are
  published.

  HQPlayer: Recovery and Supervisor (adapters/hqplayer/lifecycle.rs), the policy as functions of instants
  and the supervisor as a step relation between awaits; Naa_Frame and Naa_Protocol
  (adapters/hqplayer/naa/frame.rs and protocol.rs), the relay's byte formats; Relay_Claims reads and
  rewrites one record from its first byte to its last.

  HQPlayer, from an observation to a command. Hqp_Project (producers/hqplayer.rs, project_native and
  RevisionTracker) turns a native observation into a producer document and numbers it; its facts are in
  Hqp_Project_Facts. Hqp_Command (producers/hqplayer_command.rs) is the preflight of a command and its
  fingerprint, with Hqp_Command_Facts. Hqp_Coord is the publisher coordinator of producers/hqplayer.rs:
  hqp_coordinator is the actor's struct, hqp_instance one entry of its map, and coordinator_step handles
  one message of its channel or one tick of its retry timer, as the body of its loop does. What the producer store
  answers to a publication or a retirement is part of each input (ci_publish, ci_retire), so that every
  statement covers admitted, refused and failed publications. Hqp_Coord_Facts gives the abstract
  behaviour of one instance, a step relation istep of which every operation is a path; Hqp_Coord_Inv
  proves the invariant of the coordinator (bounds of every retained collection, agreement of document,
  ledger and correlations) once over istep; Hqp_Coord_Once that a generation is dispatched once and a
  correlation reserved once; Hqp_Coord_Live that an accepted command is carried to its end;
  Hqp_Strand runs the coordinator against the gate and shows that an observation of an older epoch
  strands its instance.
  Hqp_Service is the immediate command actor (producers/hqplayer_command_service.rs) over that
  coordinator: a turn of its world lists the commands of others that the coordinator handles before
  the next call; Hqp_Service_Facts has what its requests execute. Hqp_Samples holds one observation, its
  document and the runs that the witnesses use.

  Surfaces and the cloud. Controller_Auth (api/controller_auth.rs and the trust rule of api/ingress.rs):
  auth_state is the state behind the lock, auth_middleware the verdict on one request. Cloud_Safety
  (cloud_connector/safety.rs and retry.rs): the four files beside the epoch file are the state, the result
  of each write is an input, and cloud_step is one operation of the connector, a restart being a load.
  Cloud_Commands (cloud_connector/commands.rs and the command branch of runtime.rs): the verifier of grants, the
  ledger, and handle_command, which says what is answered and whether the command is dispatched.
  Listening_Plan (mcp/listening_plan.rs): the store in memory together with its file. Mqtt_Surface
  (mqtt/topics.rs, command.rs, dedupe.rs and the slug map of mod.rs), Surface_Rules (mcp/routing.rs and
  knobs/zone_grace.rs), Roon_Match (adapters/roon_match.rs and roon_queue.rs). Their lemmas: a session is
  earned by a bootstrap (earned_run); a quarantine contains and attempts are spaced (contained_run,
  attempts_apart); a grant is dispatched once, and when it is not (grant_dispatched_once,
  replay_after_cache); the plans in memory are those of the file (plan_step_behind), except after a failed
  save (failed_save_loses_another); leaving out repeated publishes does not change what the broker
  retains (dedupe_run_plain); the slug map finds exactly the known zones when their slugs differ
  (slugs_exact_run); the word comparison is edit distance at most one (edit_distance_exact).

  Samples, Contract_Samples and Surface_Samples hold concrete values for the witnesses; Contract_Claims and Further_Claims
  hold further facts, on the contract and on the other components, with their instances.

  What the lemmas show. Every component has an invariant that holds initially and that each operation
  preserves (za_ok, rt_ok, store_ok, history_ok, slots_distinct, sup_inv, hco_ok); an order on states that each operation
  respects (cursors, floors, revisions only grow); the functional behaviour of the operations on every
  branch; round trips of the JSON forms; and the properties below that span components.

  Bounds. Nothing runs on fuel: the loops of the source are structural recursions over lists, and the
  two that are not (trimming) have a measure. The supervisor's loop is a relation, and its end after a
  shutdown is proved by a rank. The
  revisions and sequence numbers are 64 bit words; where a statement needs that they have not reached
  the top, it says so.

  Parameters of the HQPlayer part: the text of an instant (chrono's to_rfc3339), the bits of a float
  and the text of a JSON number (standard library and serde_json), and the text of a readback in the
  format {:?}; no statement needs a law of them except where it names it. The texts of refusals that the
  code builds with format! from an error are the error itself.

  Parameters of the surfaces: SHA-256 and the parsers of addresses (Controller_Auth), signatures, Base64,
  the JSON readers and the hash of a payload (the record cloud_crypto), the parser of floats and the cast
  to f32 (Mqtt_Surface), the Unicode tables for lower case and alphanumeric characters (Roon_Match). Random
  values and the outcome of writes are inputs of the operations.

  Not modelled: the XML of the relay's control lines (a third-party parser), sockets, HTTP, JSON-RPC, files and the task scheduler; the web application; the
  adapters' clients of third-party services; derived serde readers of whole documents (a parameter of
  the document gate). The component list of the manifest names each part with its reason.
\<close>

section \<open>The zone aggregator\<close>

text \<open>C1: every state of the zone aggregator that events, projections and sink calls can reach, in any
  order, is well formed: the maps have distinct keys, a zone and a snapshot stand under their own
  identifier, no output document and no projection entry carries a revision from the future, and the
  observation history is within its bounds.\<close>

theorem aggregator_reachable_ok: "za_ok (foldl za_step aggregator_new es)"
  by (rule za.inv_run [OF aggregator_new_ok])

text \<open>C2: a projection is committed at most once. Whatever reaches the aggregator afterwards, a
  redelivery of a committed update is ignored as stale and changes nothing, and any update committed
  later gets a larger revision as long as the revision has not saturated.\<close>

theorem projection_committed_once:
  assumes "commit_reliable_projection now u (za_state (foldl za_step aggregator_new es0)) =
    (Committed r, ag, out)"
    and later: "later = foldl za_step ((foldl za_step aggregator_new es0)\<lparr>za_state := ag\<rparr>) es"
  shows "(\<exists>e s. commit_reliable_projection now' u (za_state later) = (StaleIgnored e s, za_state later, [])) \<and>
    (fst (commit_reliable_projection now2 u2 (za_state later)) = Committed r2 \<longrightarrow> r < r2 \<or> r2 = - 1)"
proof -
  let ?s = "foldl za_step aggregator_new es0"
  have ok: "za_ok ?s" by (rule za.inv_run [OF aggregator_new_ok])
  then have ok1: "za_ok (?s\<lparr>za_state := ag\<rparr>)"
    using commit_ok [of "za_state ?s" now u] assms(1) by (simp add: za_ok_def)
  have ag: "ag_ok (za_state ?s)" using ok by (simp add: za_ok_def)
  note c = committed_cursor [OF ag assms(1)]
  have le: "lane_le ag (za_state later)"
    using za.le_run [OF ok1, of es] by (simp add: za_le_def later)
  then obtain c' where c': "map_of (ag_source_cursors (za_state later)) (source_identity (pu_source u)) = Some c'"
      "cursor_le \<lparr>pc_epoch = src_epoch (pu_source u), pc_sequence = pu_sequence u, pc_freshness = PF_Fresh\<rparr> c'"
    using c unfolding lane_le_def by blast
  have "ag_ok (za_state later)" using za.inv_run [OF ok1, of es] by (simp add: za_ok_def later)
  then have r2: "r2 = sat_succ (ag_projection_revision (za_state later))"
    if "fst (commit_reliable_projection now2 u2 (za_state later)) = Committed r2"
    using committed_cursor [of "za_state later" now2 u2 r2] that by (metis prod.collapse)
  have "r \<le> ag_projection_revision (za_state later)" using c le by (auto simp: lane_le_def)
  with r2 below_cursor_stale [OF c'] show ?thesis
    by (cases "ag_projection_revision (za_state later) = - 1") (auto simp: less_sat_succ_iff)
qed

theorem projection_committed_once_witness:
  "\<exists>e s. commit_reliable_projection 0 (marker_update 1 1 PK_Delta)
     (za_state (foldl za_step (aggregator_new\<lparr>za_state :=
        fst (snd (commit_reliable_projection 0 (marker_update 1 1 PK_Delta) aggregate_default))\<rparr>)
        [ZE_Commit 0 (marker_update 1 2 PK_Delta)])) =
     (StaleIgnored e s, za_state (foldl za_step (aggregator_new\<lparr>za_state :=
        fst (snd (commit_reliable_projection 0 (marker_update 1 1 PK_Delta) aggregate_default))\<rparr>)
        [ZE_Commit 0 (marker_update 1 2 PK_Delta)]), [])"
proof -
  have "fst (commit_reliable_projection 0 (marker_update 1 1 PK_Delta) aggregate_default) = Committed 1"
    by code_simp
  from triple_collapse [OF this] have "commit_reliable_projection 0 (marker_update 1 1 PK_Delta)
      (za_state (foldl za_step aggregator_new [])) =
      (Committed 1, fst (snd (commit_reliable_projection 0 (marker_update 1 1 PK_Delta) aggregate_default)),
       snd (snd (commit_reliable_projection 0 (marker_update 1 1 PK_Delta) aggregate_default)))"
    by (simp add: aggregator_new_def)
  from projection_committed_once [OF this refl, of 0 "[ZE_Commit 0 (marker_update 1 2 PK_Delta)]"]
  show ?thesis by simp
qed

text \<open>C3: the HQPlayer bridge never loses an update. Started together with the aggregator, and as long
  as no call reports an older epoch than its instance has reported before, every call is committed, the
  n-th under revision n: none is dropped as stale, none runs into a gap.\<close>

theorem bridge_updates_committed:
  assumes "length cs + 2 < 2 ^ 64" "forward cs bridge_new"
  shows "lane_results (bridge_new, aggregate_default) cs = revisions_from 0 cs"
  using lane_run_committed [OF lane_inv_new, of cs] assms by (simp add: aggregate_default_def)

theorem bridge_updates_committed_witness:
  "lane_results (bridge_new, aggregate_default)
     [BC_ProfilesReadback ''m'' 1 [], BC_TransientFailure ''m'' 0, BC_ManagerStopped,
      BC_InstanceRemoved ''m'' 2, BC_ConfirmReadback ''m'' 2 (CommandId 1)] =
   [Committed 1, Committed 2, Committed 3, Committed 4, Committed 5]"
  using bridge_updates_committed [of "[BC_ProfilesReadback ''m'' 1 [], BC_TransientFailure ''m'' 0,
      BC_ManagerStopped, BC_InstanceRemoved ''m'' 2, BC_ConfirmReadback ''m'' 2 (CommandId 1)]"]
  by (simp add: call_forward_def call_lane_def known_epoch_def bridge_step_def bridge_publish_def
      publish_entries_def publish_epoch_def next_sequence_def bridge_new_def Let_def hm_insert_def
      manager_stopped_def sat_succ_def)

text \<open>C4: a coherent HQPlayer observation becomes visible as one pair. Once the bridge's update for an
  observation is committed, and no snapshot of a newer producer epoch stood in its way, a reader finds
  exactly the observed zone and exactly the observed native state, live, and the compatibility events
  follow the commit.\<close>

theorem observation_pair_coherent:
  assumes "ag_ok (za_state za)"
    and "commit_reliable_projection now (fst (bridge_observed ob b)) (za_state za) = (Committed r, ag, out)"
    and "case get_hqplayer_snapshot (ho_instance_name ob) za of None \<Rightarrow> True
         | Some c \<Rightarrow> ho_producer_epoch (hsn_observation c) \<le> ho_producer_epoch ob"
  shows "get_zone (zn_zone_id (ho_zone ob)) (za\<lparr>za_state := ag\<rparr>) = Some (ho_zone ob) \<and>
    map_option hsn_observation (get_hqplayer_snapshot (ho_instance_name ob) (za\<lparr>za_state := ag\<rparr>)) = Some ob \<and>
    map_option hsn_presence (get_hqplayer_snapshot (ho_instance_name ob) (za\<lparr>za_state := ag\<rparr>)) = Some SnapLive \<and>
    out = zone_hints (ho_zone ob)"
proof -
  have "pu_entries (fst (bridge_observed ob b)) =
      [\<lparr>pe_key = ''zone:'' @ zn_zone_id (ho_zone ob), pe_payload = PP_Zone (ho_zone ob)\<rparr>,
       \<lparr>pe_key = ''hqplayer:'' @ ho_instance_name ob, pe_payload = PP_HqpObservation ob\<rparr>]"
    by (simp add: bridge_observed_def publish_entries_def case_prod_beta Let_def)
  from observed_commit [OF assms(1) this assms(2)] assms(3) show ?thesis
    by (auto simp: get_zone_def get_hqplayer_snapshot_def admit_observation_def live_snapshot_def
        split: option.splits)
qed

theorem observation_pair_coherent_witness:
  "get_zone ''hqplayer:m'' (aggregator_new\<lparr>za_state :=
      fst (snd (commit_reliable_projection 0 (fst (bridge_observed sample_observation bridge_new))
        aggregate_default))\<rparr>) = Some (sample_zone ''hqplayer:m'')"
proof -
  have "fst (commit_reliable_projection 0 (fst (bridge_observed sample_observation bridge_new))
      (za_state aggregator_new)) = Committed 1"
    by code_simp
  from observation_pair_coherent [OF _ triple_collapse [OF this]] aggregator_new_ok show ?thesis
    by (simp add: aggregator_new_def za_ok_def get_hqplayer_snapshot_def)
      (simp add: aggregate_default_def sample_observation_def sample_zone_def)
qed

text \<open>C5: when the HQPlayer manager stops, no surface may go on claiming audio. The commit of the stop
  removes every HQPlayer zone and no other, marks every snapshot as last known, and leaves every output
  document without a present-tense audio claim.\<close>

theorem manager_stop_withdraws:
  assumes "ag_ok ag" "commit_reliable_projection now (fst (manager_stopped b)) ag = (Committed r, ag', out)"
  shows "(\<forall>z. map_of (ag_zones ag') z =
       (if starts_with z ''hqplayer:'' then None else map_of (ag_zones ag) z)) \<and>
    (\<forall>i. map_option hsn_presence (map_of (ag_hqplayer_snapshots ag') i) =
       map_option (\<lambda>_. SnapLastKnown) (map_of (ag_hqplayer_snapshots ag) i)) \<and>
    (\<forall>i k. map_option (\<lambda>p. session_confirms_audio p \<or> operation_confirms_current_audio p k)
         (map_of (ag_hqplayer_outputs ag') i) =
       map_option (\<lambda>_. False) (map_of (ag_hqplayer_outputs ag) i))"
proof -
  have "pu_entries (fst (manager_stopped b)) =
      [\<lparr>pe_key = ''hqplayer:lifecycle'', pe_payload = PP_HqpManagerStopped\<rparr>]"
    by (simp add: manager_stopped_def)
  note c = stop_committed [OF assms(1) this assms(2)]
  have "\<not> session_confirms_audio (lifecycle_stopped now r p) \<and>
      \<not> operation_confirms_current_audio (lifecycle_stopped now r p) k" for p k
    by (rule unavailable_no_audio) (simp add: lifecycle_stopped_def)
  then show ?thesis using c by (simp add: option.map_comp comp_def mark_last_known_def)
qed

theorem manager_stop_withdraws_witness:
  "operation_confirms_current_audio sample_outputs ''o'' \<and>
   (let ag' = fst (snd (commit_reliable_projection 0 (fst (manager_stopped bridge_new)) sample_playing))
    in map_of (ag_zones ag') ''hqplayer:m'' = None \<and>
       map_option (\<lambda>p. session_confirms_audio p \<or> operation_confirms_current_audio p ''o'')
         (map_of (ag_hqplayer_outputs ag') ''m'') = Some False)"
proof -
  have "fst (commit_reliable_projection 0 (fst (manager_stopped bridge_new)) sample_playing) = Committed 2"
    by code_simp
  note m = manager_stop_withdraws [OF sample_playing_ok triple_collapse [OF this]]
  have "map_of (ag_hqplayer_outputs sample_playing) ''m'' = Some sample_outputs"
    by (simp add: sample_playing_def)
  with m [THEN conjunct2, THEN conjunct2, THEN spec, THEN spec, of "''o''" "''m''"]
    m [THEN conjunct1, THEN spec, of "''hqplayer:m''"] sample_audio
  show ?thesis by (simp add: Let_def starts_with_def)
qed

text \<open>C6: a late hint can bring back a zone the manager's stop removed. If the zone and the stop are
  committed one after the other, the stop announces no removal, and the zone's own discovery hint, still
  queued, puts it back into the canonical state.\<close>

theorem late_hint_resurrects_zone:
  assumes "ag_ok (za_state za)" "zid_parse (zn_zone_id z) \<noteq> None" "starts_with (zn_zone_id z) ''hqplayer:''"
    and "pu_entries u = [\<lparr>pe_key = k, pe_payload = PP_Zone z\<rparr>]"
    and "commit_reliable_projection now u (za_state za) = (Committed r1, ag1, out1)"
    and "commit_reliable_projection now (fst (manager_stopped b)) ag1 = (Committed r2, ag2, out2)"
  shows "out2 = [] \<and> get_zone (zn_zone_id z) (za\<lparr>za_state := ag2\<rparr>) = None \<and>
    get_zone (zn_zone_id z) (hear now' (out1 @ out2) (za\<lparr>za_state := ag2\<rparr>)) \<noteq> None"
proof -
  have "ag_ok ag1" using commit_ok [OF assms(1), of now u] assms(5) by simp
  moreover have "pu_entries (fst (manager_stopped b)) =
      [\<lparr>pe_key = ''hqplayer:lifecycle'', pe_payload = PP_HqpManagerStopped\<rparr>]"
    by (simp add: manager_stopped_def)
  ultimately have "out2 = []" "map_of (ag_zones ag2) (zn_zone_id z) = None"
    using stop_committed assms(3,6) by simp_all
  moreover have "out1 = zone_hints z" using zone_committed [OF assms(1,4,5)] by simp
  ultimately show ?thesis
    using hear_hints_present [OF assms(2)] by (simp add: get_zone_def)
qed

theorem late_hint_resurrects_zone_witness:
  "let u = sample_update 1 2 PK_Snapshot (PP_Zone (sample_zone ''hqplayer:m''));
       (r1, ag1, out1) = commit_reliable_projection 0 u sample_aggregate;
       (r2, ag2, out2) = commit_reliable_projection 0 (fst (manager_stopped bridge_new)) ag1
   in get_zone ''hqplayer:m'' (hear 0 (out1 @ out2) (aggregator_new\<lparr>za_state := ag2\<rparr>)) \<noteq> None"
proof -
  let ?u = "sample_update 1 2 PK_Snapshot (PP_Zone (sample_zone ''hqplayer:m''))"
  let ?c1 = "commit_reliable_projection 0 ?u sample_aggregate"
  let ?c2 = "commit_reliable_projection 0 (fst (manager_stopped bridge_new)) (fst (snd ?c1))"
  have c1: "fst ?c1 = Committed 2" by code_simp
  have c2: "fst ?c2 = Committed 3" by code_simp
  have "zid_parse (zn_zone_id (sample_zone ''hqplayer:m'')) \<noteq> None"
    "starts_with (zn_zone_id (sample_zone ''hqplayer:m'')) ''hqplayer:''"
    by (simp_all add: sample_zone_def zid_parse_def valid_prefixes_def starts_with_def)
  from late_hint_resurrects_zone [of "aggregator_new\<lparr>za_state := sample_aggregate\<rparr>", OF _ this, of ?u "''k''",
      OF _ _ _ triple_collapse [OF c2]] triple_collapse [OF c1] sample_aggregate_ok
  show ?thesis
    by (simp add: sample_update_def case_prod_beta Let_def) (simp add: sample_zone_def)
qed

section \<open>HQPlayer: documents and commands\<close>

text \<open>C7: what the projector publishes, the gate admits as it is. A tracker that numbers the document of
  an accepted observation, whatever legal operation ledger is laid over it, gives a document the
  producer gate admits without a repair relative to the last one it numbered, and the kind of the
  admission is the one the tracker's own comparison of views implies: fresh for a new epoch, advanced
  when a view changed, a health refresh otherwise.\<close>

theorem native_publication_admitted:
  assumes "tracker_ok tr" "observation_ok ob" "\<And>t. parse (tx t) \<noteq> None" "audit_ok parse ops"
    "materialize tr ((native_document tx ob (native_controls ob))\<lparr>pd_operations := ops\<rparr>) = (Inr d, tr')"
  shows "admit parse (tk_last_document tr) d = Admitted \<lparr>ad_document = d, ad_repairs = [],
      ad_kind = publication_kind tr ((native_document tx ob (native_controls ob))\<lparr>pd_operations := ops\<rparr>)\<rparr> \<and>
    tracker_ok tr' \<and> tk_last_document tr' = Some d"
proof -
  let ?p = "(native_document tx ob (native_controls ob))\<lparr>pd_operations := ops\<rparr>"
  have p: "publishable parse ?p" using assms(2-4) by (rule native_document_publishable)
  note q = publishable_quiet [OF p]
  obtain cp st where d: "d = ?p\<lparr>pd_revisions := dr_new cp st\<rparr>" "tr' = tracked ?p cp st"
    using assms(5) by (elim materialize_InrE)
  have "publishable parse d" using p unfolding d(1) by simp
  then show ?thesis
    using publishable_admitted [OF _ materialize_orders [OF assms(1) q assms(5)]] tracked_ok [OF q] d
    by (simp add: tracked_def)
qed

theorem native_publication_admitted_witness:
  "\<exists>d tr'. materialize tracker_default
      ((native_document plain_instant (pipeline_observation 2) (native_controls (pipeline_observation 2)))
        \<lparr>pd_operations := []\<rparr>) = (Inr d, tr') \<and>
    admit (\<lambda>s. Some 0) None d = Admitted \<lparr>ad_document = d, ad_repairs = [], ad_kind = admission_kind.Fresh\<rparr> \<and>
    tracker_ok tr'"
proof -
  let ?p = "native_document plain_instant (pipeline_observation 2) (native_controls (pipeline_observation 2))"
  obtain d tr' where m: "materialize tracker_default (?p\<lparr>pd_operations := []\<rparr>) = (Inr d, tr')"
    by (simp add: materialize_cases tracker_default_def)
  show ?thesis
    using native_publication_admitted [OF tracker_default_ok pipeline_observation_ok(1) _ _ m, of "\<lambda>s. Some 0"] m
    by (simp add: audit_ok_def tracker_default_def publication_kind_def)
qed

text \<open>C8: a pipeline request is executed as a name the engine offered. Against the document of an
  observation that the projector accepts, a request for one of the five pipeline controls passes the
  preflight exactly when its correlation is legal, it names this producer and this revision on the
  immediate lane, its value is the identifier of a nonempty name from the engine's own list (for a
  rate, one that reads as a number) and, for the rate, the engine is not in source mode (there the rate
  follows the source and its control is closed); the operation and the engine value of the command are
  then those of that name.\<close>

theorem offered_name_executed:
  assumes "observation_ok ob" "pipeline_id p \<noteq> []" "hr_control r = ControlId (pipeline_id p)"
  shows "preflight bits num_text (own_snapshot (numbered tx ob cp st)) r = Inr c \<longleftrightarrow>
    (p = Op_SetRate \<longrightarrow> \<not> ho_mode_is_source ob) \<and>
    hr_correlation_id r \<noteq> [] \<and> length (hr_correlation_id r) \<le> 256 \<and>
    hr_key r = key_of (numbered tx ob cp st) \<and> hr_expected r = doc_position (numbered tx ob cp st) \<and>
    hr_lane r = AL_Immediate \<and>
    (\<exists>n \<in> set (ns_choices (pipeline_selection p ob)). n \<noteq> [] \<and>
       hr_requested r = CV_Choice (native_choice_id (pipeline_id p) n) \<and>
       engine_value_of p n = Some (vc_engine_value c)) \<and>
    vc_request c = r \<and> vc_operation c = p \<and> vc_fingerprint c = fingerprint bits num_text r"
proof (cases "pipeline_open p ob")
  case True
  then show ?thesis
    using pipeline_preflight [OF assms(1) True assms(3), of bits num_text tx cp st c] by (simp add: pipeline_open_def)
next
  case False
  then show ?thesis
    using pipeline_closed [OF assms(1,2) False assms(3), of bits num_text tx cp st c] assms(2) by (simp add: pipeline_open_def)
qed

theorem offered_name_executed_witness:
  "preflight plain_bits plain_number (own_snapshot (numbered plain_instant (pipeline_observation 2) 1 1))
     sample_request = Inr sample_command"
proof -
  have o: "pipeline_id Op_SetShaper \<noteq> []" by (simp add: control_names)
  have c: "hr_control sample_request = ControlId (pipeline_id Op_SetShaper)" by (simp add: sample_request_def)
  show ?thesis
    unfolding offered_name_executed [OF pipeline_observation_ok(1) o c]
    by (simp add: sample_request_def sample_validated_def numbered_def native_document_def key_of_def doc_position_def
        pipeline_observation_def Let_def engine_value_of_def dr_new_def at_epoch_def sample_observation_def
        sample_target_def)
qed

text \<open>C9: the fingerprint identifies a request. For requests whose texts are shorter than 4 GiB, two
  fingerprints are equal exactly when the requests agree in producer, role, zone, expected revision,
  control and lane and their values are the same (numbers by their bits, objects up to the order of
  their keys); the correlation does not count.\<close>

theorem fingerprint_identifies_request:
  assumes "request_fits num_text r" "request_fits num_text q"
  shows "fingerprint bits num_text r = fingerprint bits num_text q \<longleftrightarrow> request_same bits num_text r q"
  using assms by (rule fingerprint_iff)

theorem fingerprint_identifies_request_witness:
  "fingerprint (\<lambda>x. 0) (\<lambda>n. ''0'') sample_request \<noteq>
     fingerprint (\<lambda>x. 0) (\<lambda>n. ''0'') (sample_request\<lparr>hr_requested := CV_Bool True\<rparr>)"
proof -
  have s: "request_fits (\<lambda>n. ''0'') sample_request"
    "request_fits (\<lambda>n. ''0'') (sample_request\<lparr>hr_requested := CV_Bool True\<rparr>)"
    by (simp_all add: request_fits_def sample_request_def short_def control_names native_choice_id_def hex_byte_def)
  show ?thesis
    unfolding fingerprint_identifies_request [OF s] by (simp add: request_same_def sample_request_def)
qed

text \<open>C10: the coordinator keeps its promises to every instance, and its memory of an instance is bounded.
  Whatever commands, answers of the handle and times come, in any order, each instance has operations
  with distinct identifiers made from generations it has given out, a correlation for every operation
  and the other way round, every dispatched generation still pending, a last document that carries the
  ledger, and a deferred commit that continues all of this; and it keeps at most 64 operations and
  correlations and 256 tombstones.\<close>

theorem coordinator_bounded:
  "coordinator_ok (coordinator_run tx bits num_text is (hqp_coordinator_new runs)) \<and>
   (case instance_of (coordinator_run tx bits num_text is (hqp_coordinator_new runs)) name of
      None \<Rightarrow> True
    | Some st \<Rightarrow> length (in_ledger st) \<le> 64 \<and> length (in_correlations st) \<le> 64 \<and>
        length (in_correlation_tombstone_order st) \<le> 256 \<and> length (in_correlation_tombstones st) \<le> 256)"
proof -
  have ok: "coordinator_ok (coordinator_run tx bits num_text is (hqp_coordinator_new runs))" by (rule run_ok) simp
  then show ?thesis using inst_ok_bounds by (auto simp: coordinator_ok_def split: option.split)
qed

text \<open>C11: a generation is dispatched once. After a lease was fenced for dispatch, no later command of any
  kind, whatever the handle answered, makes a second dispatch of the same generation succeed, as long
  as the coordinator kept the instance.\<close>

theorem generation_dispatched_once:
  assumes "coordinator_answer tx bits num_text i (coordinator_run tx bits num_text before (hqp_coordinator_new runs)) =
      UnitReply (Inr ())" "ci_command i = BeginDispatch l"
    "le_producer_id l = ''hqplayer:'' @ name" "le_producer_id l' = ''hqplayer:'' @ name"
    "kept_through tx bits num_text name is (coordinator_run tx bits num_text (before @ [i]) (hqp_coordinator_new runs))"
    "ci_command j = BeginDispatch l'" "le_generation l' = le_generation l"
  shows "coordinator_answer tx bits num_text j
      (coordinator_run tx bits num_text (before @ [i] @ is) (hqp_coordinator_new runs)) \<noteq> UnitReply (Inr ())"
  using fenced_once [OF run_ok [OF new_ok] assms(1-4) _ assms(6,7)] assms(5)
  by (simp add: coordinator_run_append)

theorem generation_dispatched_once_witness:
  "sample_answer (admitting sample_now (BeginDispatch sample_lease))
     (sample_run (sample_prefix @ [admitting sample_now (BeginDispatch sample_lease)] @ [])) \<noteq> UnitReply (Inr ())"
  by (rule generation_dispatched_once [where l = sample_lease and name = "''m''"])
    (use sample_begun sample_producer in \<open>auto simp: admitting_def\<close>)

text \<open>C12: a correlation is reserved once. When a reservation for a correlation was made, every later
  request under the same producer and correlation that is answered with a reservation gets a duplicate
  of that correlation, never a new one, as long as the coordinator kept the instance and its 256
  tombstones have not run full.\<close>

theorem correlation_reserved_once:
  assumes "coordinator_answer tx bits num_text i (coordinator_run tx bits num_text before (hqp_coordinator_new runs)) =
      ReservationReply (Inr rv)" "ci_command i = Reserve cmd" "rv_disposition rv = NewReservation"
    "pk_producer_id (hr_key (vc_request cmd)) = ''hqplayer:'' @ name"
    "pk_producer_id (hr_key (vc_request cmd')) = ''hqplayer:'' @ name"
    "hr_correlation_id (vc_request cmd') = hr_correlation_id (vc_request cmd)"
    "kept_through tx bits num_text name is (coordinator_run tx bits num_text (before @ [i]) (hqp_coordinator_new runs))"
    "ci_command j = Reserve cmd'"
    "coordinator_answer tx bits num_text j
      (coordinator_run tx bits num_text (before @ [i] @ is) (hqp_coordinator_new runs)) = ReservationReply (Inr rv')"
    "instance_of (coordinator_run tx bits num_text (before @ [i] @ is @ [j]) (hqp_coordinator_new runs)) name = Some st"
    "length (in_correlation_tombstone_order st) < 256"
  shows "rv_disposition rv' = DuplicateReservation \<and>
    le_correlation_id (rv_lease rv') = hr_correlation_id (vc_request cmd)"
  using reserved_once [OF run_ok [OF new_ok] assms(1-6) _ assms(8)] assms(7,9-11)
  by (simp add: coordinator_run_append MAX_CORRELATION_TOMBSTONES_def)

theorem correlation_reserved_once_witness:
  "\<exists>rv. sample_answer (admitting sample_now (Reserve sample_command))
      (sample_run (sample_reserving @ [admitting sample_now (Reserve sample_command)] @ [])) = ReservationReply (Inr rv) \<and>
    rv_disposition rv = DuplicateReservation \<and> le_correlation_id (rv_lease rv) = ''c''"
proof -
  let ?i = "admitting sample_now (Reserve sample_command)"
  obtain st1 where 1: "sample_answer ?i (sample_run sample_reserving) =
      ReservationReply (Inr \<lparr>rv_lease = sample_lease, rv_operation = pending_operation sample_request 1,
        rv_disposition = NewReservation\<rparr>)"
    "instance_of (sample_run (sample_reserving @ [?i])) ''m'' = Some st1"
    using sample_reserved by blast
  obtain rv st where 2: "sample_answer ?i (sample_run (sample_reserving @ [?i] @ [])) = ReservationReply (Inr rv)"
    "instance_of (sample_run (sample_reserving @ [?i] @ [] @ [?i])) ''m'' = Some st"
    "length (in_correlation_tombstone_order st) < 256"
    using sample_again unfolding sample_prefix_def by auto
  have c: "ci_command ?i = Reserve sample_command" by (simp add: admitting_def)
  have "rv_disposition rv = DuplicateReservation \<and>
      le_correlation_id (rv_lease rv) = hr_correlation_id (vc_request sample_command)"
    by (rule correlation_reserved_once [OF 1(1) c _ _ _ HOL.refl _ c 2])
      (use 1(2) sample_producer(1) in \<open>simp_all del: append.simps\<close>)
  then show ?thesis using 2(1) by (simp add: sample_request_def)
qed

text \<open>C13: an unhindered command runs through. From a new coordinator, starting the manager, an accepted
  observation, the reservation of a command whose preflight against the observed document succeeded,
  its dispatch and its completion are each answered with success when every publication is admitted,
  and the operation that comes back carries the completion.\<close>

theorem command_runs_through:
  assumes "observation_ok ob" "target_fits ob" "rn_next runs \<noteq> - 1"
    "preflight bits num_text (own_snapshot (numbered tx ob 1 1)) r = Inr cmd"
  defines "l \<equiv> first_lease ob (po_run (first_origin runs)) r"
  shows "coordinator_replies tx bits num_text
      ([admitting now ManagerStarted] @ prologue now ob cmd l @ [admitting now (Complete l c)])
      (hqp_coordinator_new runs) =
    [UnitReply (Inr ())] @ prologue_replies l r @
      [OperationReply (Inr (completed_as c (pending_operation r 1)))]"
proof -
  let ?n = "ho_instance_name ob"
  have "hr_key r = key_of (numbered tx ob 1 1)" using assms(4) by (auto simp: preflight_iff actionable_numbered)
  then have pid: "pk_producer_id (hr_key r) = ''hqplayer:'' @ ?n"
    by (simp add: key_of_def numbered_def native_document_def)
  obtain co0 where 0: "coordinator_step tx bits num_text now ManagerStarted
      (with_answers (admitting now ManagerStarted) (hqp_coordinator_new runs)) = (UnitReply (Inr ()), co0)"
    "ready ?n (first_origin runs) [PublishAdmitted] co0" "instance_of co0 ?n = None"
    using started [OF assms(3)] by blast
  obtain co1 a st where 1: "coordinator_replies tx bits num_text (prologue now ob cmd l @ [admitting now (Complete l c)]) co0 =
      prologue_replies l r @ coordinator_replies tx bits num_text [admitting now (Complete l c)] co1"
    "ready ?n (first_origin runs) a co1" "instance_of co1 ?n = Some st" "first_pending ob l r {1} st"
    using prologue_runs [OF assms(1,2,4) 0(2,3)] unfolding l_def by blast
  have i: "instance_of (with_answers (admitting now (Complete l c)) co1) ?n = Some st" using 1(3) by simp
  obtain co2 where 2: "coordinator_step tx bits num_text now (Complete l c) (with_answers (admitting now (Complete l c)) co1) =
      (OperationReply (Inr (completed_as c (pending_operation r 1))), co2)"
    using first_completion [OF ready_admitting [OF 1(2)] i pid 1(4) [unfolded l_def]] unfolding l_def by blast
  show ?thesis
    by (simp only: append_Cons append_Nil replies_step [OF 0(1) 1(1)]
        replies_step [OF 2 coordinator_replies.simps(1)])
qed

theorem command_runs_through_witness:
  "coordinator_replies plain_instant plain_bits plain_number
      ([admitting sample_now ManagerStarted] @ prologue sample_now (pipeline_observation 2) sample_command sample_lease @
       [admitting sample_now (Complete sample_lease sample_completion)])
      (hqp_coordinator_new run_state_default) =
    [UnitReply (Inr ())] @ prologue_replies sample_lease sample_request @
      [OperationReply (Inr (completed_as sample_completion (pending_operation sample_request 1)))]"
  unfolding sample_lease_first
  by (rule command_runs_through [OF pipeline_observation_ok(1,2) _ sample_preflight]) (simp add: run_state_default_def)

text \<open>C14: an observation of an older epoch strands the instance. The coordinator takes the instance out
  of its map before it numbers the observation, and the refusal of the older epoch returns before it is
  put back: the pending operation, its correlation, its fence and the revision counters are lost. Run a
  command up to its dispatch, let one observation of an older epoch of that engine arrive, then any
  number of observations of the epoch the engine is in, then the executor's report on the command. The
  older observation fails; so does each later one, because its publication, numbered from the beginning
  again, is one the producer gate refuses beside the document it holds; and the report is a stale lease,
  so the operation of the command stays pending in the published document. The publication answers of
  the run are those the gate gives: the two documents before the older observation are admitted, and no
  later one is.\<close>

theorem older_epoch_strands_instance:
  assumes "observation_ok ob" "target_fits ob" "rn_next runs \<noteq> - 1" "\<And>t. parse (tx t) \<noteq> None"
    "preflight bits num_text (own_snapshot (numbered tx ob 1 1)) r = Inr cmd"
    "observation_ok old" "ho_instance_name old = ho_instance_name ob" "ho_producer_epoch old < ho_producer_epoch ob"
    "\<forall>(ob', e) \<in> set later. observation_ok ob' \<and> ho_instance_name ob' = ho_instance_name ob \<and>
       ho_producer_epoch ob' = ho_producer_epoch ob"
  defines "l \<equiv> first_lease ob (po_run (first_origin runs)) r"
  shows "(\<exists>f. coordinator_replies tx bits num_text (stranding now ob cmd l old later c) (hqp_coordinator_new runs) =
      [UnitReply (Inr ())] @ prologue_replies l r @ [UnitReply (Inl f)] @
      map (\<lambda>(ob', e). UnitReply (Inl (PublicationFailed e))) later @ [OperationReply (Inl StaleLease)]) \<and>
    (\<exists>d tr. hc_offered (coordinator_run tx bits num_text (stranding now ob cmd l old later c) (hqp_coordinator_new runs)) =
       [(first_origin runs, numbered tx ob 1 1, PublishAdmitted), (first_origin runs, d, PublishAdmitted)] @
       map (\<lambda>(ob', e). (first_origin runs, numbered tx ob' 1 1, PublishFailed e)) later \<and>
     pd_operations d = [pending_operation r 1]) \<and>
    answered_by_gate parse None (hc_offered (coordinator_run tx bits num_text (stranding now ob cmd l old later c) (hqp_coordinator_new runs)))"
proof -
  let ?n = "ho_instance_name ob" and ?og = "first_origin runs" and ?old = "admitting now (Observed old)"
  have "hr_key r = key_of (numbered tx ob 1 1)" using assms(5) by (auto simp: preflight_iff actionable_numbered)
  then have pid: "le_producer_id l = ''hqplayer:'' @ ?n"
    by (simp add: l_def key_of_def numbered_def native_document_def)
  obtain co0 where 0: "coordinator_step tx bits num_text now ManagerStarted
      (with_answers (admitting now ManagerStarted) (hqp_coordinator_new runs)) = (UnitReply (Inr ()), co0)"
    "ready ?n ?og [PublishAdmitted] co0" "instance_of co0 ?n = None" "hc_offered co0 = []"
    using started [OF assms(3)] by blast
  obtain co1 a st d tr where 1: "\<And>is rs c. runs_to tx bits num_text is co1 rs c \<Longrightarrow>
      runs_to tx bits num_text (prologue now ob cmd l @ is) co0 (prologue_replies l r @ rs) c"
    "ready ?n ?og a co1" "instance_of co1 ?n = Some st" "first_pending ob l r {1} st"
    "materialize (tracked (native_document tx ob (native_controls ob)) 1 1)
       ((numbered tx ob 1 1)\<lparr>pd_operations := [pending_operation r 1]\<rparr>) = (Inr d, tr)"
    "hc_offered co1 = hc_offered co0 @ [(?og, numbered tx ob 1 1, PublishAdmitted), (?og, d, PublishAdmitted)]"
    using prologue_offers [OF assms(1,2,5) 0(2,3)] unfolding l_def by metis
  have i: "instance_of (with_answers ?old co1) ?n = Some st" using 1(3) by simp
  obtain f co2 where 2: "coordinator_step tx bits num_text now (Observed old) (with_answers ?old co1) = (UnitReply (Inl f), co2)"
    "ready ?n ?og [PublishAdmitted] co2" "instance_of co2 ?n = None" "hc_offered co2 = hc_offered co1"
    using older_epoch_drops [OF ready_admitting [OF 1(2)] i pending_steady [OF 1(4)] assms(6-8)]
    unfolding offered_answers by blast
  have "\<exists>co'. runs_to tx bits num_text [admitting now (Complete l c)] co [OperationReply (Inl StaleLease)] co' \<and>
      hc_offered co' = hc_offered co" if "lost ?n ?og co" for co
    using lost_completion [OF that pid, of tx bits num_text now c "admitting now (Complete l c)"]
      runs_to_Cons [OF _ runs_to_Nil] by (metis (no_types, lifting) admitting_def coordinator_input.select_convs(1,4))
  then obtain co3 where 3: "runs_to tx bits num_text (map (\<lambda>(ob', e). refusing now e (Observed ob')) later @
      [admitting now (Complete l c)]) co2 (map (\<lambda>(ob', e). UnitReply (Inl (PublicationFailed e))) later @
      [OperationReply (Inl StaleLease)]) co3"
    "hc_offered co3 = hc_offered co2 @ map (\<lambda>(ob', e). (?og, numbered tx ob' 1 1, PublishFailed e)) later"
    using refused_observations [OF dropped_lost [OF 2(2,3)]] assms(9) by (metis (no_types, lifting) case_prodI2 case_prodD)
  have "runs_to tx bits num_text (stranding now ob cmd l old later c) (hqp_coordinator_new runs) ([UnitReply (Inr ())] @ prologue_replies l r @
      [UnitReply (Inl f)] @ map (\<lambda>(ob', e). UnitReply (Inl (PublicationFailed e))) later @ [OperationReply (Inl StaleLease)]) co3"
    unfolding stranding_def append_Cons append_Nil
    by (intro runs_to_Cons [where ?co1.0 = co0] 1(1) runs_to_Cons [where ?co1.0 = co2] 3(1))
      (use 0(1) 2(1) in \<open>simp_all add: admitting_def\<close>)
  then have run: "coordinator_replies tx bits num_text (stranding now ob cmd l old later c) (hqp_coordinator_new runs) = [UnitReply (Inr ())] @
      prologue_replies l r @ [UnitReply (Inl f)] @ map (\<lambda>(ob', e). UnitReply (Inl (PublicationFailed e))) later @
      [OperationReply (Inl StaleLease)]" "coordinator_run tx bits num_text (stranding now ob cmd l old later c) (hqp_coordinator_new runs) = co3"
    by (simp_all only: runs_to_def)
  have off: "hc_offered co3 = [(?og, numbered tx ob 1 1, PublishAdmitted), (?og, d, PublishAdmitted)] @
      map (\<lambda>(ob', e). (?og, numbered tx ob' 1 1, PublishFailed e)) later"
    using 0(4) 1(6) 2(4) 3(2) by simp
  have g: "answered_by_gate parse None (hc_offered co3)"
    unfolding off using assms(9) by (intro strand_answered [where parse = parse and tx = tx, OF assms(1,4) 1(5)]) auto
  have "pd_operations d = [pending_operation r 1]" using 1(5) by (elim materialize_InrE) simp
  then show ?thesis unfolding run using off g by blast
qed

theorem older_epoch_strands_instance_witness:
  "\<exists>f. coordinator_replies plain_instant plain_bits plain_number
      (stranding sample_now (pipeline_observation 2) sample_command sample_lease (pipeline_observation 1)
        [(pipeline_observation 2, ''regressed''), (pipeline_observation 2, ''regressed'')] sample_completion)
      (hqp_coordinator_new run_state_default) =
    [UnitReply (Inr ())] @ prologue_replies sample_lease sample_request @ [UnitReply (Inl f),
      UnitReply (Inl (PublicationFailed ''regressed'')), UnitReply (Inl (PublicationFailed ''regressed'')),
      OperationReply (Inl StaleLease)]"
proof -
  have "\<forall>(ob', e) \<in> set [(pipeline_observation 2, ''regressed''), (pipeline_observation 2, ''regressed'')].
      observation_ok ob' \<and> ho_instance_name ob' = ho_instance_name (pipeline_observation 2) \<and>
      ho_producer_epoch ob' = ho_producer_epoch (pipeline_observation 2)"
    by (simp add: pipeline_observation_ok)
  from older_epoch_strands_instance [where parse = "\<lambda>s. Some 0" and runs = run_state_default and now = sample_now
      and old = "pipeline_observation 1" and c = sample_completion and tx = plain_instant and bits = plain_bits
      and num_text = plain_number, OF pipeline_observation_ok(1,2) _ _ sample_preflight
      pipeline_observation_ok(1) _ _ this]
  show ?thesis
    unfolding sample_lease_first
    by (auto simp: run_state_default_def pipeline_observation_ok)
qed

text \<open>C15: receipts are typed. Whatever the engine's receipt is, the completion made of it is one of the
  eight combinations of outcome, write attempt, recovery and reason; it says that nothing was attempted
  exactly when the receipt says that nothing was sent; and it claims the value was applied only for a
  sent write whose readback verified it or found it in place.\<close>

theorem receipt_typing:
  "evidence_typed (receipt_evidence debug r) \<and>
   (ev_write_attempt (receipt_evidence debug r) = WA_NotAttempted \<longleftrightarrow> \<not> receipt_sent r) \<and>
   ev_outcome (receipt_evidence debug r) \<in>
     (if receipt_sent r \<and> receipt_readback r \<in> {Some ReadbackVerified, Some ReadbackNoop} then UNIV else - {CO_Applied})"
  using receipt_evidence_typed [of debug r] receipt_attempt [of debug r] receipt_applied [of debug r] by auto

text \<open>C16: one native call for a request at most. If processing a request made the engine be called, then
  once, for a request the preflight accepted and the coordinator reserved as new, with the setting of
  the accepted command; the caller was told that it was not a duplicate.\<close>

theorem request_executed_once:
  assumes "process tx bits num_text debug view now r w = (reply, w')" "sw_executed w' \<noteq> sw_executed w"
  shows "\<exists>sn cmd ak x y. view (hr_key r) = Some sn \<and> preflight bits num_text sn r = Inr cmd \<and>
    reply = Inr ak \<and> \<not> ak_duplicate ak \<and> native_setting (vc_operation cmd) (vc_engine_value cmd) = Some y \<and>
    sw_executed w' = sw_executed w @ [(x, y)]"
  using assms by (rule process_executed)

theorem request_executed_once_witness:
  "\<exists>x. fst (sample_process (sample_world (sample_run sample_reserving))) =
      Inr \<lparr>ak_operation = pending_operation sample_request 1, ak_duplicate = False\<rparr> \<and>
    sw_executed (snd (sample_process (sample_world (sample_run sample_reserving)))) = [(x, SettingShaper ''b'')]"
proof -
  let ?w = "sample_world (sample_run sample_reserving)"
  obtain reply w' where p: "sample_process ?w = (reply, w')" by (metis prod.collapse)
  obtain t where t: "sw_executed w' = [(t, SettingShaper ''b'')]" using sample_executes p by auto
  then have ne: "sw_executed w' \<noteq> sw_executed ?w" by (simp add: sample_world_def)
  obtain sn cmd ak where "reply = Inr ak" "\<not> ak_duplicate ak"
    using request_executed_once [OF p ne] by blast
  moreover have "ak_operation ak = pending_operation sample_request 1"
    using sample_acknowledged p \<open>reply = Inr ak\<close> by simp
  ultimately show ?thesis using p t by (cases ak) simp
qed

text \<open>C17: a retry executes nothing. When the instance knows the correlation of a request, as a live
  reservation or as a tombstone, at the moment the service looks it up, processing the request calls the
  engine not at all, and an acknowledgement, if there is one, says duplicate.\<close>

theorem retry_executes_nothing:
  assumes "instance_of (coordinator_run tx bits num_text (tn_before (next_turn w)) (sw_coordinator w)) name = Some st"
    "named_instance (pk_producer_id (hr_key r)) = Some name"
    "map_of (in_correlations st) (hr_correlation_id r) \<noteq> None \<or>
     map_of (in_correlation_tombstones st) (hr_correlation_id r) \<noteq> None"
    "process tx bits num_text debug view now r w = (reply, w')"
  shows "sw_executed w' = sw_executed w \<and> (reply = Inr ak \<longrightarrow> ak_duplicate ak)"
  using assms by (rule known_correlation)

theorem retry_executes_nothing_witness:
  "sw_executed (snd (sample_process (sample_world (sample_run sample_prefix)))) = []"
proof -
  let ?w = "sample_world (sample_run sample_prefix)"
  have b: "coordinator_run plain_instant plain_bits plain_number (tn_before (next_turn ?w)) (sw_coordinator ?w) =
      sample_run sample_prefix"
    by (simp add: sample_world_def next_turn_def numeral_eq_Suc sample_turn_def)
  obtain st where st: "instance_of (sample_run sample_prefix) ''m'' = Some st"
    "map_of (in_correlations st) (hr_correlation_id sample_request) \<noteq> None"
    using sample_reserved unfolding sample_prefix_def by (auto simp: first_known_def)
  have n: "named_instance (pk_producer_id (hr_key sample_request)) = Some ''m''"
    unfolding sample_producer named_instance_Some by simp
  have i: "instance_of (coordinator_run plain_instant plain_bits plain_number (tn_before (next_turn ?w))
      (sw_coordinator ?w)) ''m'' = Some st" unfolding b by (rule st(1))
  have "sw_executed (snd (sample_process ?w)) = sw_executed ?w"
    using retry_executes_nothing [OF i n disjI1 [OF st(2)] prod.collapse [symmetric]] by blast
  then show ?thesis by (simp add: sample_world_def)
qed

text \<open>C18: every accepted message is answered. The actor acknowledges the submitted requests once each, in
  the order it accepted them, also those it drains after a shutdown, and answers every shutdown after all
  of them.\<close>

theorem service_answers_all:
  "\<exists>as. fst (service_run f ms w) = as @ map Drained (shutdowns ms) \<and> acknowledged as = submitted ms \<and>
     length as = length (submitted ms)"
  by (rule service_events [OF prod.collapse [symmetric]])

section \<open>The reliable command runtime\<close>

text \<open>C19: after any interleaving of the runtime's tasks that does not wrap the command counter, the
  ledger is consistent, and no command has been handed to native I/O twice.\<close>

theorem runtime_reachable_ok:
  assumes "length es < 2 ^ 64 - 1"
  shows "rt_ok (rt_run wo runtime_system_new es) \<and>
    distinct (rs_dispatched (rt_run wo runtime_system_new es))"
  using rt_run_new_ok [OF assms, of wo] by (simp add: rt_ok_def)

theorem runtime_reachable_ok_witness:
  "distinct (rs_dispatched (rt_run demo_watch runtime_system_new late_failure)) \<and>
   status_of (rs_data (rt_run demo_watch runtime_system_new late_failure)) (CommandId 1) = Some (Confirmed 7)"
  using runtime_reachable_ok [of late_failure demo_watch] late_failure_status(1) [of demo_watch]
  by (simp add: late_failure_def)

text \<open>C20: the runtime implements the status machine. Between any two points of a run a command keeps its
  target and its request, and its status has moved only along the steps of the machine.\<close>

theorem runtime_refines_status_machine:
  assumes "length es + length fs < 2 ^ 64 - 1"
  shows "ledger_le (rs_data (rt_run wo runtime_system_new es)) (rs_data (rt_run wo runtime_system_new (es @ fs)))"
proof -
  have "rd_next_id (rs_data (runtime_system_new :: 'a runtime_system)) = 1"
    by (simp add: runtime_system_new_def runtime_data_new_def)
  then have "unat (rd_next_id (rs_data (rt_run wo runtime_system_new es))) + length fs < 2 ^ 64"
    using rt_run_next [of wo runtime_system_new es] assms by simp
  moreover have "rt_ok (rt_run wo runtime_system_new es)" using assms by (intro rt_run_new_ok) simp
  ultimately have "ledger_le (rs_data (rt_run wo runtime_system_new es))
      (rs_data (rt_run wo (rt_run wo runtime_system_new es) fs))"
    using rt_run_ok by blast
  then show ?thesis by (simp add: rt_run_def)
qed

theorem runtime_refines_status_machine_witness:
  "ledger_le (rs_data (rt_run demo_watch runtime_system_new late_failure))
     (rs_data (rt_run demo_watch runtime_system_new (late_failure @ [RtComplete (demo_work 1) (NativeFailed [])])))"
  using runtime_refines_status_machine [of late_failure "[RtComplete (demo_work 1) (NativeFailed [])]" demo_watch]
  by (simp add: late_failure_def)

text \<open>C21: a command is confirmed by a projection only. The step that turns a status into Confirmed is the
  commit of a projection that names the command, came from the command's own target, and found it
  dispatched, awaiting its projection or timed out; the revision is the commit's.\<close>

theorem confirmed_only_by_projection:
  assumes "length es < 2 ^ 64 - 1"
    and "status_of (rs_data (rt_step wo (rt_run wo runtime_system_new es) e)) i = Some (Confirmed r)"
    and "status_of (rs_data (rt_run wo runtime_system_new es)) i \<noteq> Some (Confirmed r)"
  shows "\<exists>src rec. e = RtOutcome src (Some i) (Committed r) \<and>
    map_of (rd_commands (rs_data (rt_run wo runtime_system_new es))) i = Some rec \<and>
    source_matches_target src (cr_target rec) \<and>
    cr_status rec \<in> {AwaitingProjection, Dispatched, Indeterminate}"
  by (rule confirmed_cause [OF rt_run_new_ok [OF assms(1)] assms(2,3)])

theorem confirmed_only_by_projection_witness:
  "\<exists>src rec. RtOutcome demo_source (Some (CommandId 1)) (Committed 7) =
       RtOutcome src (Some (CommandId 1)) (Committed 7) \<and>
     map_of (rd_commands (rs_data (rt_run demo_watch runtime_system_new (butlast late_failure)))) (CommandId 1) = Some rec \<and>
     source_matches_target src (cr_target rec) \<and>
     cr_status rec \<in> {AwaitingProjection, Dispatched, Indeterminate}"
proof (rule confirmed_only_by_projection)
  show "length (butlast late_failure) < 2 ^ 64 - 1" by (simp add: late_failure_def)
  have "rt_step demo_watch (rt_run demo_watch runtime_system_new (butlast late_failure))
      (RtOutcome demo_source (Some (CommandId 1)) (Committed 7)) = rt_run demo_watch runtime_system_new late_failure"
    by (simp add: late_failure_def rt_run_def)
  then show "status_of (rs_data (rt_step demo_watch (rt_run demo_watch runtime_system_new (butlast late_failure))
      (RtOutcome demo_source (Some (CommandId 1)) (Committed 7)))) (CommandId 1) = Some (Confirmed 7)"
    by (simp add: late_failure_status)
  show "status_of (rs_data (rt_run demo_watch runtime_system_new (butlast late_failure))) (CommandId 1) \<noteq>
      Some (Confirmed 7)"
    by (simp add: before_confirmation)
qed



section \<open>Zones, settings and adapters\<close>



text \<open>C24: a disabled adapter leaves nothing behind. Switching an adapter off stops the adapter and all its
  companions before anything is published, and publishes exactly one event, its flush; when the aggregator
  has handled it, no zone of the adapter is left and every other zone is as it was.\<close>

theorem disabled_adapter_withdrawn:
  assumes "name \<in> set ws" "switch_adapter env ws name False c = (r, c')"
  shows "r = Inr () \<and> (\<exists>es. co_log c' = co_log c @ es @ [Published (AdapterStopping name (Some ''settings disable''))] \<and>
      es = map StopCalled (name # companions_of c name) \<and>
      (\<forall>now za k. get_zone k (hear now (published (es @ [Published (AdapterStopping name (Some ''settings disable''))])) za) =
        (if starts_with k (name @ '':'') then None else get_zone k za)))"
proof -
  have "hear now [AdapterStopping name why] za = fst (handle_event now (AdapterStopping name why) za)" for now why za
    by (simp add: hear_def)
  then have "get_zone k (hear now [AdapterStopping name why] za) =
      (if starts_with k (name @ '':'') then None else get_zone k za)" for now why za k
    using flush_lookup [of name "za_state za"]
    by (simp add: handle_event_def case_prod_beta get_zone_def on_stopping_def Let_def)
  with switch_off_log [OF assms(1), of env c] assms show ?thesis
    by (simp add: switch_adapter_def Let_def)
qed

theorem disabled_adapter_withdrawn_witness:
  "let c = register_companion ''lms'' ''lms-cli'' coordinator_new
   in co_log (snd (switch_adapter \<lparr>env_can_start = \<lambda>es w. True, env_start = \<lambda>es w. None\<rparr> [''lms''] ''lms'' False c)) =
     [StopCalled ''lms'', StopCalled ''lms-cli'', Published (AdapterStopping ''lms'' (Some ''settings disable''))]"
  using disabled_adapter_withdrawn [of "''lms''" "[''lms'']" "\<lparr>env_can_start = \<lambda>es w. True, env_start = \<lambda>es w. None\<rparr>"
      "register_companion ''lms'' ''lms-cli'' coordinator_new", OF _ surjective_pairing]
  by (simp add: Let_def register_companion_def companions_of_def coordinator_new_def)

section \<open>HQPlayer: recovery and supervision\<close>

text \<open>C25: one observer at a time. In every state the supervisor can reach, whatever the observer and the
  rest of the program do meanwhile, its effects follow the protocol: a child is spawned only when the one
  before it was joined and its session cleaned up, at least the minimal delay after it ended; a worker
  that failed is reported as failed until then.\<close>

theorem supervisor_follows_protocol:
  assumes "sup_reachable config s"
  shows "protocol (sv_log s) \<noteq> None \<and>
    (sv_child s \<noteq> NoChild \<longleftrightarrow> protocol (sv_log s) = Some Alive) \<and>
    (\<forall>u. sv_pc s = PcSleeping u \<longrightarrow> sv_phase s = PhFailed) \<and>
    (sv_pc s = PcDone \<longrightarrow> sv_phase s = PhStopped \<and> sv_child s = NoChild)"
  using sup_reachable_inv [OF assms] by (auto simp: sup_inv_def split: sup_pc.splits)

theorem supervisor_follows_protocol_witness:
  "\<exists>s :: supervisor. sv_log s = [EffSpawn 0, EffJoined CompletedPanic 0] \<and> sv_child s = NoChild \<and> protocol (sv_log s) = Some (Ended 0)"
proof -
  define s0 where "s0 = sup_init recovery_config_default 0"
  define s1 where "s1 = sv_emit (EffSpawn 0)
    (s0\<lparr>sv_phase := PhRecovering, sv_child := ChildRunning, sv_child_cancelled := False, sv_pc := PcSelect\<rparr>)"
  define s2 where "s2 = s1\<lparr>sv_child := ChildFinished CompletedPanic\<rparr>"
  have f: "sv_pc s0 = PcTop" "\<not> sv_cancelled s0" "sv_now s0 = 0" "sv_log s0 = []" by (simp_all add: s0_def sup_init_def)
  have f2: "sv_pc s2 = PcSelect" "sv_child s2 = ChildFinished CompletedPanic" "sv_now s2 = 0" "sv_log s2 = [EffSpawn 0]"
    by (simp_all add: s2_def s1_def f sv_emit_def)
  have "prog_step s0 s1" using top_spawn [OF f(1,2)] unfolding f(3) s1_def .
  then have "sup_reachable recovery_config_default s1"
    using sup_reachable.reach_prog [OF sup_reachable.reach_init] unfolding s0_def by blast
  then have "sup_reachable recovery_config_default s2"
    by (rule sup_reachable.reach_env) (simp add: s2_def child_ends s1_def)
  then have r: "sup_reachable recovery_config_default (unexpected CompletedPanic s2)"
    by (rule sup_reachable.reach_prog) (rule select_child [OF f2(1,2)])
  have l: "sv_log (unexpected CompletedPanic s2) = [EffSpawn 0, EffJoined CompletedPanic 0]"
    by (simp add: unexpected_def sv_emit_def f2 Let_def case_prod_beta)
  then have "protocol (sv_log (unexpected CompletedPanic s2)) = Some (Ended 0)" by (simp add: protocol_def)
  moreover from this supervisor_follows_protocol [OF r] have "sv_child (unexpected CompletedPanic s2) = NoChild" by auto
  ultimately have "sv_log (unexpected CompletedPanic s2) = [EffSpawn 0, EffJoined CompletedPanic 0] \<and>
      sv_child (unexpected CompletedPanic s2) = NoChild \<and> protocol (sv_log (unexpected CompletedPanic s2)) = Some (Ended 0)"
    using l by (intro conjI)
  then show ?thesis by (rule exI)
qed

text \<open>C26: the supervisor always stops. Once the shutdown token is cancelled, at most five more segments of
  its loop run, however the environment interleaves; and as long as it is not done it can take a step,
  unless it waits for a child that is still running. Its last state has no child and the phase Stopped.\<close>

theorem supervisor_stops:
  assumes "sup_reachable config s" "sv_cancelled s" "sup_run n s s'"
  shows "n \<le> 5 \<and> (sv_pc s' = PcDone \<longrightarrow> sv_phase s' = PhStopped \<and> sv_child s' = NoChild) \<and>
    (sv_pc s' \<noteq> PcDone \<longrightarrow> sv_child s' \<noteq> ChildRunning \<longrightarrow> (\<exists>s''. prog_step s' s'' \<and> sv_child s'' \<noteq> ChildRunning))"
proof -
  note b = sup_run_bounded [OF assms(3,2)]
  have r: "sup_inv s'" using sup_run_reachable [OF assms(3,1)] by (rule sup_reachable_inv)
  have "sup_rank p \<le> 5" for p by (cases p) simp_all
  with b have "n \<le> 5" by (meson add_leE le_trans)
  moreover have "\<exists>s''. prog_step s' s'' \<and> sv_child s'' \<noteq> ChildRunning" if "sv_pc s' \<noteq> PcDone" "sv_child s' \<noteq> ChildRunning"
    using prog_step_enabled [OF r] prog_step_child b that by blast
  moreover have "sv_pc s' = PcDone \<longrightarrow> sv_phase s' = PhStopped \<and> sv_child s' = NoChild"
    using r by (auto simp: sup_inv_def)
  ultimately show ?thesis by blast
qed

theorem supervisor_stops_witness:
  "\<exists>s s' :: supervisor. sup_run 2 s s' \<and> sv_pc s' = PcDone \<and> sv_phase s' = PhStopped"
proof -
  let ?s = "(sup_init recovery_config_default 0)\<lparr>sv_cancelled := True\<rparr>"
  let ?t = "?s\<lparr>sv_pc := PcExit\<rparr>"
  let ?u = "?t\<lparr>sv_phase := PhStopped, sv_pc := PcDone\<rparr>"
  have "sup_reachable recovery_config_default ?s"
    by (rule sup_reachable.reach_env [OF sup_reachable.reach_init env_step.cancel])
  moreover have "prog_step ?s ?t" by (rule top_exit) (simp_all add: sup_init_def)
  moreover have "prog_step ?t ?u" by (rule stopped) simp
  ultimately have "sup_run 2 ?s ?u" using sup_run.run_prog [OF sup_run.run_prog [OF sup_run.run_none]] by (simp add: numeral_2_eq_2)
  with supervisor_stops [OF \<open>sup_reachable recovery_config_default ?s\<close> _ this] show ?thesis
    by (intro exI [of _ ?s] exI [of _ ?u]) simp
qed

section \<open>HQPlayer: the network audio relay\<close>

text \<open>C27: rewriting a frame changes its text and artwork and nothing else. A header and body that do not fit
  are refused, without a panic; a frame becomes a frame with the same audio and position bytes, whose text
  and artwork are what it had, or the player's if it had none, with flags that say so; and rewriting it
  again changes none of its sections.\<close>

theorem frame_rewrite_exact:
  assumes "w \<le> 2 ^ 31" "length h = 32" "length body < 2 ^ 32" "payload_fits m"
  shows "case sections h body w of
      None \<Rightarrow> rewrite_sections h body (Some m) w = NaaErr ''NAA frame section lengths do not match body''
    | Some (pcm, pos, meta, pic) \<Rightarrow>
        \<exists>h' body'. rewrite_sections h body (Some m) w = NaaOk (h', body') \<and>
          sections h' body' w = Some (pcm, pos, new_meta m meta, new_picture m pic) \<and>
          bit (read_u32 h' 0) 3 \<and> (bit (read_u32 h' 0) 4 \<longleftrightarrow> new_picture m pic \<noteq> []) \<and>
          (length body' < 2 ^ 32 \<longrightarrow> (\<exists>h''. rewrite_sections h' body' (Some m) w = NaaOk (h'', body') \<and>
             sections h'' body' w = sections h' body' w \<and> read_u32 h'' 0 = read_u32 h' 0))"
proof (cases "sections h body w")
  case None
  then show ?thesis using rewrite_cases [OF assms] by simp
next
  case (Some s)
  then obtain pcm pos meta pic where s: "sections h body w = Some (pcm, pos, meta, pic)" by (metis prod_cases4)
  with rewrite_cases [OF assms] obtain h' body' where r: "rewrite_sections h body (Some m) w = NaaOk (h', body')"
    "sections h' body' w = Some (pcm, pos, new_meta m meta, new_picture m pic)"
    "read_u32 h' 0 = rewrite_mask (read_u32 h 0) pic (new_picture m pic)"
    by auto
  have l: "length h' = 32" using r(2) by (simp add: sections_def Let_def split: if_splits)
  have "\<exists>h''. rewrite_sections h' body' (Some m) w = NaaOk (h'', body') \<and>
      sections h'' body' w = sections h' body' w \<and> read_u32 h'' 0 = read_u32 h' 0" if "length body' < 2 ^ 32"
  proof -
    from rewrite_cases [OF assms(1) l that assms(4)] r(2) obtain h'' body'' where
      "rewrite_sections h' body' (Some m) w = NaaOk (h'', body'')"
      "sections h'' body'' w = Some (pcm, pos, new_meta m meta, new_picture m pic)"
      "read_u32 h'' 0 = rewrite_mask (read_u32 h' 0) (new_picture m pic) (new_picture m pic)"
      by auto
    with sections_body r(2,3) show ?thesis by (metis rewrite_mask_again)
  qed
  with s r show ?thesis using rewrite_mask_flags by auto
qed

theorem frame_rewrite_exact_witness:
  "\<exists>h' body'. rewrite_sections (u32_to_le 0 @ u32_to_le 2 @ u32_to_le 0 @ u32_to_le 0 @ u32_to_le 0 @ replicate 12 0) [1, 2, 3, 4]
      (Some \<lparr>mp_title = ''a'', mp_artist = ''b'', mp_album = ''c'', mp_picture = None\<rparr>) 2 = NaaOk (h', body') \<and>
     take 4 body' = [1, 2, 3, 4] \<and> bit (read_u32 h' 0) 3 \<and> \<not> bit (read_u32 h' 0) 4"
proof -
  define h where "h = u32_to_le 0 @ u32_to_le 2 @ u32_to_le 0 @ u32_to_le 0 @ u32_to_le 0 @ replicate 12 0"
  define b :: "u8 list" where "b = [1, 2, 3, 4]"
  define m where "m = \<lparr>mp_title = ''a'', mp_artist = ''b'', mp_album = ''c'', mp_picture = None\<rparr>"
  have s: "sections h b 2 = Some (b, [], [], [])"
    by (simp add: sections_def read_u32_def h_def b_def Let_def)
  have l: "length h = 32" "length b < 2 ^ 32" by (simp_all add: h_def b_def)
  have "payload_fits m"
    by (simp add: payload_fits_def metadata_section_def bytes_of_def escape_line_def m_def)
  from frame_rewrite_exact [OF _ l this, of 2] obtain h' body' where
    r: "rewrite_sections h b (Some m) 2 = NaaOk (h', body')" "bit (read_u32 h' 0) 3"
      "bit (read_u32 h' 0) 4 \<longleftrightarrow> new_picture m [] \<noteq> []"
      "sections h' body' 2 = Some (b, [], new_meta m [], new_picture m [])"
    unfolding s by auto
  have "new_picture m [] = []" by (simp add: new_picture_def m_def)
  moreover have "take 4 body' = b" unfolding sections_body [OF r(4)] by (simp add: b_def)
  ultimately show ?thesis using r(1-3) unfolding h_def b_def m_def by blast
qed

text \<open>C28: the audio is forwarded bit by bit. If the stream after the probe's bytes holds a frame of the
  negotiated width, what is written downstream is a frame with the same audio and position bytes that
  keeps whatever text and artwork the frame had; with no metadata to add the record is forwarded as it is;
  and exactly the frame is consumed.\<close>

theorem audio_forwarded_unchanged:
  assumes "is_frame w h body" "us_sample_bytes st = Some w"
    and "pre @ bs = h @ body @ rest" "length pre \<le> 32"
    and "sections h body w = Some (pcm, pos, meta, pic)"
    and "\<forall>i m. metadata = Some (i, m) \<longrightarrow> payload_fits m"
  shows "\<exists>h' body' st' meta' pic'. forward_audio now metadata pre bs st = ReadOk (h' @ body', st', rest) \<and>
    sections h' body' w = Some (pcm, pos, meta', pic') \<and>
    (meta \<noteq> [] \<longrightarrow> meta' = meta) \<and> (pic \<noteq> [] \<longrightarrow> pic' = pic) \<and>
    (metadata = None \<longrightarrow> h' = h \<and> body' = body) \<and> us_sample_bytes st' = Some w"
proof -
  have "\<forall>i m. metadata = Some (i, m) \<longrightarrow> length (metadata_section m) < 2 ^ 32 \<and>
      (\<forall>p. mp_picture m = Some p \<longrightarrow> length p < 2 ^ 32)"
    using assms(6) by (auto simp: payload_fits_def)
  from forward_frame [OF assms(1-5) this] show ?thesis by metis
qed

theorem audio_forwarded_unchanged_witness:
  "\<exists>st'. forward_audio 0 None (u32_to_le 0) (u32_to_le 2 @ u32_to_le 0 @ u32_to_le 0 @ u32_to_le 0 @ replicate 12 0 @ [1, 2, 3, 4] @ [9])
     \<lparr>us_sample_bytes = Some 2, us_injected_metadata = None, us_injected_at = 0\<rparr> =
   ReadOk ((u32_to_le 0 @ u32_to_le 2 @ u32_to_le 0 @ u32_to_le 0 @ u32_to_le 0 @ replicate 12 0) @ [1, 2, 3, 4], st', [9])"
proof -
  define h where "h = u32_to_le 0 @ u32_to_le 2 @ u32_to_le 0 @ u32_to_le 0 @ u32_to_le 0 @ replicate 12 0"
  define b :: "u8 list" where "b = [1, 2, 3, 4]"
  define st where "st = \<lparr>us_sample_bytes = Some 2, us_injected_metadata = None, us_injected_at = 0\<rparr>"
  have s: "sections h b 2 = Some (b, [], [], [])"
    by (simp add: sections_def read_u32_def h_def b_def Let_def)
  then have f: "is_frame 2 h b" by (simp add: is_frame_def FRAME_LIMIT_def HEADER_LEN_def b_def)
  have w: "us_sample_bytes st = Some 2" by (simp add: st_def)
  have c: "u32_to_le 0 @ (u32_to_le 2 @ u32_to_le 0 @ u32_to_le 0 @ u32_to_le 0 @ replicate 12 0 @ b @ [9]) = h @ b @ [9]" by (simp add: h_def)
  have l: "length (u32_to_le 0) \<le> 32" by simp
  from audio_forwarded_unchanged [OF f w c l s, of None 0] obtain st' where
    "forward_audio 0 None (u32_to_le 0) (u32_to_le 2 @ u32_to_le 0 @ u32_to_le 0 @ u32_to_le 0 @ replicate 12 0 @ b @ [9]) st = ReadOk (h @ b, st', [9])"
    by blast
  then show ?thesis unfolding h_def b_def st_def by blast
qed

section \<open>Producer publication\<close>

text \<open>C29: every store the producer actor can reach, whatever lifecycle calls and publications arrive and
  in whatever order, holds only documents that pass the envelope gate, whose intent is coherent, that
  stand at their watermark and above every retirement floor; and every entry belongs to a run of the
  adapter that owns its producer.\<close>

theorem producer_store_ok:
  "store_ok rfc3339 (ps_store (ps_run rfc3339 ps_init es)) \<and> runs_owned (ps_store (ps_run rfc3339 ps_init es))"
  by (rule conjI [OF ps_reachable_ok ps_reachable_owned])

text \<open>C30: a retired producer stays out. Once a retirement of a producer through an epoch was applied, no
  document of that producer at or below the epoch is ever admitted, by any route and whatever happens
  in between.\<close>

theorem retired_producer_stays_out:
  assumes "pi_epoch (pd_producer d) \<le> e"
  shows "\<exists>r. fst (agg_admit_document rfc3339 runs og' d (ps_store (ps_run rfc3339 ps_init
    (es @ PsCommand (CmdRetire og (pi_producer_id (pd_producer d)) e w) # fs)))) = Refused r"
  using retired_never_admitted [OF ps_reachable_ok, of _ rfc3339 es og _ e w d runs og' fs] assms
  by (simp add: ps_run_def)

theorem retired_producer_stays_out_witness:
  "\<exists>r. fst (agg_admit_document (\<lambda>s. Some 0) run_state_default None (sample_document 3)
     (ps_store (ps_run (\<lambda>s. Some 0) ps_init
        ([] @ PsCommand (CmdRetire \<lparr>po_adapter = ''hqplayer'', po_run = AdapterRunId 1\<rparr>
           (pi_producer_id (pd_producer (sample_document 3))) (ProducerEpoch 5) True) # [])))) = Refused r"
  by (rule retired_producer_stays_out) (simp add: sample_document_def less_eq_producer_epoch_def)

text \<open>C31: what the gate admits, exactly: a document is admitted if and only if its envelope is sound and
  its repaired form relates to the held document as fresh, advanced or a health refresh; the admitted
  document is the repaired one, with its repairs. No document is refused as irreparable.\<close>

theorem admission_exact:
  "(admit rfc3339 previous d = Admitted a \<longleftrightarrow>
      envelope_ok rfc3339 d \<and> ad_document a = fst (repair_intent d) \<and> ad_repairs a = snd (repair_intent d) \<and>
      relate previous (fst (repair_intent d)) = Inr (ad_kind a)) \<and>
   admit rfc3339 previous d \<noteq> Refused (IrreparableIntent vs)"
  using admit_Admitted_iff admit_never_irreparable by blast

text \<open>C32: the repair is exact. It leaves a coherent document, changes nothing but entry validities, keeps
  valid exactly the entries that were valid and undisputed, and repairing again changes nothing.\<close>

theorem repair_exact:
  "coherent (fst (repair_intent d)) \<and>
   forget_validities (fst (repair_intent d)) = forget_validities d \<and>
   ((s, e) \<in> set (valid_pairs (pd_change_sets (fst (repair_intent d)))) \<longleftrightarrow>
      (s, e) \<in> set (valid_pairs (pd_change_sets d)) \<and> undisputed d s e) \<and>
   repair_intent (fst (repair_intent d)) = (fst (repair_intent d), [])"
  using repair_coherent repair_forget repair_keeps repair_fixed_point by blast

section \<open>Surfaces and the cloud connector\<close>

text \<open>C33: with controller authentication required, a request that changes something passes only with a
  live session of this process, except in four cases: it came through the trusted ingress, which needs no
  session; its route is one of the public ones; its route is one of the native bridge's (among them
  /api/bridges/applemusic/revoke, although it also counts as protected); or its route is not protected at
  all. Otherwise its cookie names a session that a bootstrap with the right token made less than its
  lifetime ago, its origin is this host, and it carries that session's token against forgery. This holds
  after any sequence of requests, bootstraps and status queries.\<close>

theorem session_guards_mutations:
  assumes "boot = fst (auth_new hash env generated writable file)"
    and "fst (auth_middleware ingress True rq now (foldl (auth_step hash) boot es)) = AuthPass"
    and "rq_method rq \<noteq> ''GET''" "rq_method rq \<noteq> ''HEAD''"
  shows "ingress \<or> is_public (rq_path rq) \<or> is_native_bridge (rq_path rq) \<or>
    \<not> (requires_controller_auth (rq_path rq) \<or> is_protected (rq_path rq) (rq_method rq)) \<or>
    (\<exists>token supplied csrf t. cookie_token (rq_headers rq) = Some token \<and>
    AuthBootstrap supplied token csrf t \<in> set es \<and> au_bootstrap_hash boot = Some (hash supplied) \<and>
    now < t + SESSION_TTL \<and> same_origin (rq_headers rq) \<and> map_of (rq_headers rq) ''x-uhc-csrf-token'' = Some csrf)"
proof (cases "ingress \<or> is_public (rq_path rq) \<or> is_native_bridge (rq_path rq) \<or>
    \<not> (requires_controller_auth (rq_path rq) \<or> is_protected (rq_path rq) (rq_method rq))")
  case False
  have "earned hash (the (au_bootstrap_hash boot)) {} boot" unfolding assms(1) by (rule earned_new)
  from earned_run [OF this, of es]
  have "earned hash (the (au_bootstrap_hash boot)) (set es) (foldl (auth_step hash) boot es)" by simp
  moreover have "au_bootstrap_hash boot \<noteq> None" by (auto simp: assms(1) auth_new_def split: option.splits)
  moreover have pass: "fst (auth_middleware False True rq now (foldl (auth_step hash) boot es)) = AuthPass"
    and route: "\<not> is_public (rq_path rq)" "\<not> is_native_bridge (rq_path rq)"
      "requires_controller_auth (rq_path rq) \<or> is_protected (rq_path rq) (rq_method rq)"
    using assms(2) False by simp_all
  ultimately have "\<exists>token supplied csrf t. cookie_token (rq_headers rq) = Some token \<and>
    AuthBootstrap supplied token csrf t \<in> set es \<and> au_bootstrap_hash boot = Some (hash supplied) \<and>
    now < t + SESSION_TTL \<and> same_origin (rq_headers rq) \<and> map_of (rq_headers rq) ''x-uhc-csrf-token'' = Some csrf"
    using guarded_pass [OF pass route assms(3,4)] unfolding earned_def by (metis option.collapse)
  then show ?thesis by blast
qed blast

theorem session_guards_mutations_witness:
  "\<exists>token supplied csrf t. cookie_token (rq_headers demo_mutation) = Some token \<and>
    AuthBootstrap supplied token csrf t \<in> set [AuthBootstrap ''secret'' ''session'' ''csrf'' 1000] \<and>
    au_bootstrap_hash demo_auth = Some (token_bytes supplied) \<and> 2000 < t + SESSION_TTL \<and>
    same_origin (rq_headers demo_mutation) \<and> map_of (rq_headers demo_mutation) ''x-uhc-csrf-token'' = Some csrf"
proof -
  have p: "fst (auth_middleware False True demo_mutation 2000
      (foldl (auth_step token_bytes) demo_auth [AuthBootstrap ''secret'' ''session'' ''csrf'' 1000])) = AuthPass"
    unfolding demo_bootstrap by (rule demo_passes)
  have m: "rq_method demo_mutation \<noteq> ''GET''" "rq_method demo_mutation \<noteq> ''HEAD''" by (simp_all add: demo_mutation_def)
  show ?thesis using session_guards_mutations [OF demo_auth_def p m] demo_protected by blast
qed

text \<open>C34: a quarantine holds. While its marker is there, the connector makes no attempt to connect, however
  often it is loaded anew and whatever fails to be written; only a resume that succeeds releases it. And
  after one did, the next cannot succeed before the cool-down has passed.\<close>

theorem quarantine_contains:
  "(ef_quarantine (snd s) \<noteq> Absent \<and> CloudResumed \<notin> set (cloud_answers s es) \<longrightarrow>
      CloudAttempt \<notin> set (cloud_answers s es)) \<and>
   (cloud_step s' (CloudResume io t) = (CloudResumed, s1) \<and> forward_from t (es @ [CloudResume io' now]) \<and>
      fst (cloud_step (cloud_run s1 es) (CloudResume io' now)) = CloudResumed \<longrightarrow>
    unat t + 900000 \<le> unat now)"
proof (intro conjI impI, elim conjE)
  assume "ef_quarantine (snd s) \<noteq> Absent" "CloudResumed \<notin> set (cloud_answers s es)"
  then show "CloudAttempt \<notin> set (cloud_answers s es)" by (rule contained_run)
next
  assume a: "cloud_step s' (CloudResume io t) = (CloudResumed, s1) \<and> forward_from t (es @ [CloudResume io' now]) \<and>
      fst (cloud_step (cloud_run s1 es) (CloudResume io' now)) = CloudResumed"
  then have "resumed_since t s1"
    by (cases s') (auto simp: resumed_since_def split: prod.splits sum.splits dest: resume_done)
  from resumes_apart [OF this conjunct1 [OF conjunct2 [OF a]] conjunct2 [OF conjunct2 [OF a]]]
  show "unat t + 900000 \<le> unat now" by (simp add: RESUME_COOLDOWN_MS_def)
qed

theorem quarantine_contains_witness:
  "CloudAttempt \<notin> set (cloud_answers (None, demo_paused) [CloudLoad Written 0, CloudReserve Written Written 0 5])"
proof -
  have "CloudResumed \<notin> set (cloud_answers (None, demo_paused) [CloudLoad Written 0, CloudReserve Written Written 0 5])"
    by code_simp
  moreover have "ef_quarantine (snd (None :: saved_retry option, demo_paused)) \<noteq> Absent" by (simp add: demo_paused_def)
  ultimately show ?thesis by (intro quarantine_contains [THEN conjunct1, THEN mp] conjI)
qed

text \<open>C35: attempts to connect are spaced across restarts. Between two of them lies at least the delay of the
  first one's step, 5 seconds, 30 seconds or 15 minutes, whatever happens in between: restarts, waits,
  quarantines, resumes and write failures, as long as no connection stayed up for the quarter of an hour
  that resets the sequence and the clock does not go back.\<close>

theorem reconnects_spaced:
  assumes "cloud_step (Some r, ef) (CloudReserve wa wr random now) = (CloudAttempt, s1)"
    and "forward_from now (es @ [CloudReserve wa' wr' random' now'])" "list_all short_session es"
    and "fst (cloud_step (cloud_run s1 es) (CloudReserve wa' wr' random' now')) = CloudAttempt"
  shows "min (unat now + unat (minimum_delay (sr_step r))) (2 ^ 64 - 1) \<le> unat now'"
  by (rule attempts_apart [OF assms])

theorem reconnects_spaced_witness: "min (unat (1000 :: u64) + 5000) (2 ^ 64 - 1) \<le> unat (6001 :: u64)"
proof -
  have "forward_from 1000 ([CloudLoad Written 2000] @ [CloudReserve Written Written 0 6001])" by simp
  then have "min (unat (1000 :: u64) + unat (minimum_delay (sr_step saved_retry_default))) (2 ^ 64 - 1) \<le>
      unat (6001 :: u64)"
    by (rule reconnects_spaced [OF demo_first_attempt _ _ demo_second_attempt]) simp
  then show ?thesis by (simp add: minimum_delay_def saved_retry_default_def)
qed

text \<open>C36: a grant of the cloud relay is used once, as long as the clock does not go back. A command that
  was dispatched is not dispatched again for the same grant in the same session, whatever envelope carries
  it and whatever comes in between, unless its key generation is revoked anew; provided that the readings
  of this host's clock never decrease over the commands of the session, and that the grant was not issued
  more than 45 seconds ahead of the clock that first accepted it. Both conditions are needed: a clock that
  goes back after another command made the session forget the grant, and a grant dated further ahead,
  which outlives the memory of it, each let it be dispatched again (the lemmas
  clock_back_dispatches_again and replay_after_cache).\<close>

theorem cloud_grant_used_once:
  assumes "snd (fst (handle_command cr x t e s))" "signed_claims cr e (cx_verifier s) = Inr c"
    and "hm_wf (gv_seen (cx_verifier s))" "0 \<le> t" "gc_issued_at c \<le> t + 45000"
    and "session_forward t (es @ [SessionCommand x' now e'])" "SessionRevoke (gc_generation c) \<notin> set es"
    and "ce_grant e' = ce_grant e"
  shows "\<not> snd (fst (handle_command cr x' now e' (foldl (session_step cr) (snd (handle_command cr x t e s)) es)))"
  by (rule grant_dispatched_once [OF assms])

theorem cloud_grant_used_once_witness:
  "\<not> snd (fst (handle_command (demo_crypto 1000) CloudExecuted 3000 (demo_envelope 1000)
     (foldl (session_step (demo_crypto 1000))
        (snd (handle_command (demo_crypto 1000) CloudExecuted 2000 (demo_envelope 1000) demo_session)) [SessionRevoke 0])))"
  by (rule cloud_grant_used_once [OF demo_dispatched demo_signed])
    (simp_all add: demo_session_def pin_key_def grant_verifier_new_def demo_claims_def hm_wf_def)

text \<open>C37: the listening plans in memory are within their bounds and never ahead of the file: after any
  sequence of replacements, appends and insertions, of which any may fail to be saved, every plan that is
  answered is the plan that a restart would load.\<close>

theorem plans_survive_restart:
  "let s = foldl plans_step (plan_store_from_config f0) es
   in plans_ok (ps_plans s) \<and>
      (\<exists>f. ps_file s = Some f \<and> (\<lambda>z. get_plan z s) \<subseteq>\<^sub>m (\<lambda>z. get_plan z (plan_store_from_config f)))"
proof -
  have "memory_behind_file (foldl plans_step (plan_store_from_config f0) es)"
    by (rule plan_events.inv_run [OF from_config_behind])
  moreover have "ps_file (foldl plans_step (plan_store_from_config f0) es) \<noteq> None"
    by (rule plans_run_file) (simp add: plan_store_from_config_def)
  ultimately show ?thesis
    by (auto simp: memory_behind_file_def get_plan_def plan_store_from_config_def)
qed

section \<open>The producer contract\<close>

text \<open>C38: knowing more never overturns a verdict. If a constraint expression without an is-grounded test
  evaluates to true or false in a view, it evaluates to the same in every view that agrees with it and
  grounds at least as much.\<close>

theorem verdict_survives_knowledge:
  assumes "view_le v w" "knowledge_free e" "truth (evaluate v e) = Some b"
  shows "truth (evaluate w e) = Some b"
  by (rule evaluate_mono [OF assms])

theorem verdict_survives_knowledge_witness:
  "truth (evaluate sample_view (Ex_Not (Ex_Any [Ex_All [], Ex_Eq (ControlId ''c'') VL_Desired CV_Empty]))) = Some False"
  by (rule verdict_survives_knowledge [of "\<lambda>c l. None"]) (simp_all add: view_le_def grounded_def truth_bool_to_eval)

text \<open>C39: the evaluator with its short-circuit loops is Kleene's three-valued logic: all, any and not of
  the verdicts of the children, unevaluatable being the unknown value.\<close>

theorem evaluation_is_kleene:
  "truth (evaluate view (Ex_All es)) = kleene_all (map (truth \<circ> evaluate view) es) \<and>
   truth (evaluate view (Ex_Any es)) = kleene_any (map (truth \<circ> evaluate view) es) \<and>
   truth (evaluate view (Ex_Not e)) = map_option Not (truth (evaluate view e))"
  using truth_All truth_Any truth_Not by blast

text \<open>C40: a constraint expression survives the wire: reading the JSON value that was written gives it
  back. The expression must be one the wire can carry: every decimal value and every bound of a range is
  finite, the members of a composite value are in the order of their keys, a lane is the one its spelling
  reads as, and an unrecognized value or node is of a kind or operator that is not a known one, a node
  with its operator in the object it keeps. Of the serializer's values it relies on integers and finite
  doubles being read as they were written; this is about the value in memory, since the text of a double
  is exact only under a feature of the crate that the build does not set. A bound that is not finite is
  lost: it is written as null, and read back as no bound.\<close>

theorem constraint_roundtrip:
  assumes "json_numbers ops"
  shows "(expr_wire_ok e \<longrightarrow> expr_from_json ops (expr_to_json ops e) = Inr e) \<and>
    (\<not> is_finite x \<and> ser_f64 ops x = JNull \<and> as_f64 ops JNull = None \<and> lane_ok l \<longrightarrow>
      expr_from_json ops (expr_to_json ops (Ex_InRange c l (Some x) None)) = Inr (Ex_InRange c l None None))"
  using json_numbers.expr_roundtrip [OF assms] infinite_bound_lost by blast

theorem constraint_roundtrip_witness:
  "expr_from_json plain_ops (expr_to_json plain_ops (Ex_Not (Ex_Eq (ControlId ''c'') VL_Desired (CV_Bool True)))) =
     Inr (Ex_Not (Ex_Eq (ControlId ''c'') VL_Desired (CV_Bool True))) \<and>
   expr_from_json plain_ops (expr_to_json plain_ops (Ex_InRange (ControlId ''c'') VL_Desired (Some PosInf) None)) =
     Inr (Ex_InRange (ControlId ''c'') VL_Desired None None)"
proof -
  have "expr_wire_ok (Ex_Not (Ex_Eq (ControlId ''c'') VL_Desired (CV_Bool True)))" by code_simp
  moreover have "\<not> is_finite PosInf \<and> ser_f64 plain_ops PosInf = JNull \<and> as_f64 plain_ops JNull = None \<and> lane_ok VL_Desired"
    by code_simp
  ultimately show ?thesis
    using constraint_roundtrip [OF plain.json_numbers_axioms, of "Ex_Not (Ex_Eq (ControlId ''c'') VL_Desired (CV_Bool True))"
        PosInf VL_Desired "ControlId ''c''"] by blast
qed

end
